(* ===== verification/Cil_Prelude.thy ===== *)
theory Cil_Prelude
  imports Main "HOL-Library.AList"
begin

text \<open>
  The vocabulary every component shares: JavaScript exceptions as values of a sum type, loops
  that stop at the first exception, the insertion-ordered \<open>Map\<close> and \<open>Set\<close> of the language, and
  the few \<open>Array\<close> methods (\<open>findIndex\<close>, \<open>splice\<close>) the sources use. A hash, an address, a block of
  bytes written in hexadecimal are all \<open>string\<close>s: the code converts between a \<open>Buffer\<close> and its
  hexadecimal form at the border of each method, and both denote the same value here.
\<close>

named_theorems js_simps \<open>unfolding rules of the JavaScript operations\<close>
named_theorems js_dom \<open>key sets of the JavaScript maps\<close>

type_synonym hash = string
type_synonym addr = string

section \<open>Exceptions\<close>

text \<open>
  \<open>Error\<close> is \<open>throw new Error(...)\<close>, \<open>AssertionError\<close> a failed \<open>assert\<close>, \<open>TypeError\<close> what the
  language raises when a property of \<open>undefined\<close> is read, \<open>Thrown\<close> a thrown string. The string is
  the constant part of the message.
\<close>

datatype js_error = Error string | AssertionError string | TypeError string | Thrown string

type_synonym 'a res = "js_error + 'a"

fun bindR :: "'a res \<Rightarrow> ('a \<Rightarrow> 'b res) \<Rightarrow> 'b res" where
  "bindR (Inl e) f = Inl e"
| "bindR (Inr x) f = f x"

fun mapR :: "('a \<Rightarrow> 'b) \<Rightarrow> 'a res \<Rightarrow> 'b res" where
  "mapR f (Inl e) = Inl e"
| "mapR f (Inr x) = Inr (f x)"

definition assertR :: "bool \<Rightarrow> js_error \<Rightarrow> unit res" where
  "assertR b e = (if b then Inr () else Inl e)"

text \<open>A failed \<open>typeforce\<close> check throws a \<open>TypeError\<close>.\<close>

definition typeforce :: "bool \<Rightarrow> unit res" where
  "typeforce b = assertR b (TypeError ''Expected'')"

definition isOk :: "'a res \<Rightarrow> bool" where
  "isOk r = (case r of Inl _ \<Rightarrow> False | Inr _ \<Rightarrow> True)"

lemma isOk_simps [simp]: "isOk (Inl e) = False" "isOk (Inr x) = True"
  by (simp_all add: isOk_def)

lemma isOk_ex: "isOk r \<longleftrightarrow> (\<exists>x. r = Inr x)"
  by (cases r) auto

lemma bindR_Inr_iff [simp]: "bindR m f = Inr y \<longleftrightarrow> (\<exists>x. m = Inr x \<and> f x = Inr y)"
  by (cases m) auto

lemma Inr_bindR_iff [simp]: "Inr y = bindR m f \<longleftrightarrow> (\<exists>x. m = Inr x \<and> f x = Inr y)"
  by (cases m) auto

lemma bindR_Inl_iff: "bindR m f = Inl e \<longleftrightarrow> m = Inl e \<or> (\<exists>x. m = Inr x \<and> f x = Inl e)"
  by (cases m) auto

lemma mapR_Inr_iff [simp]: "mapR f m = Inr y \<longleftrightarrow> (\<exists>x. m = Inr x \<and> y = f x)"
  by (cases m) auto

lemma assertR_Inr_iff [simp]: "assertR b e = Inr u \<longleftrightarrow> b"
  by (simp add: assertR_def)

lemma assertR_True [simp]: "assertR True e = Inr ()"
  by (simp add: assertR_def)

lemma assertR_False [simp]: "assertR False e = Inl e"
  by (simp add: assertR_def)

lemma typeforce_Inr_iff [simp]: "typeforce b = Inr u \<longleftrightarrow> b"
  by (simp add: typeforce_def)

lemma typeforce_True [simp]: "typeforce True = Inr ()"
  by (simp add: typeforce_def)

lemma isOk_bindR: "isOk (bindR m f) \<longleftrightarrow> (\<exists>x. m = Inr x \<and> isOk (f x))"
  by (cases m) auto

lemma bindR_cong [fundef_cong]:
  "m = m' \<Longrightarrow> (\<And>x. m' = Inr x \<Longrightarrow> f x = f' x) \<Longrightarrow> bindR m f = bindR m' f'"
  by (cases m') auto

text \<open>A \<open>for ... of\<close> loop whose body may throw.\<close>

fun foldR :: "('a \<Rightarrow> 's \<Rightarrow> 's res) \<Rightarrow> 'a list \<Rightarrow> 's \<Rightarrow> 's res" where
  "foldR f [] s = Inr s"
| "foldR f (x # xs) s = bindR (f x s) (foldR f xs)"

lemma foldR_append: "foldR f (xs @ ys) s = bindR (foldR f xs s) (foldR f ys)"
proof (induction xs arbitrary: s)
  case (Cons x xs)
  then show ?case by (cases "f x s") simp_all
qed simp

lemma foldR_invariant:
  assumes "foldR f xs s = Inr t" and "P s"
    and "\<And>x s s'. x \<in> set xs \<Longrightarrow> P s \<Longrightarrow> f x s = Inr s' \<Longrightarrow> P s'"
  shows "P t"
  using assms
proof (induction xs arbitrary: s)
  case (Cons x xs)
  from Cons.prems(1) obtain s' where s': "f x s = Inr s'" "foldR f xs s' = Inr t" by auto
  have "P s'" by (rule Cons.prems(3) [OF _ Cons.prems(2) s'(1)]) simp
  from s'(2) this show ?case
    by (rule Cons.IH) (rule Cons.prems(3); simp)
qed simp

lemma foldR_total:
  assumes "\<And>x s. x \<in> set xs \<Longrightarrow> f x s = Inr (g x s)"
  shows "foldR f xs s = Inr (fold g xs s)"
  using assms by (induction xs arbitrary: s) simp_all

text \<open>\<open>map\<close> with a callback that may throw.\<close>

fun mapM :: "('a \<Rightarrow> 'b res) \<Rightarrow> 'a list \<Rightarrow> 'b list res" where
  "mapM f [] = Inr []"
| "mapM f (x # xs) = bindR (f x) (\<lambda>y. bindR (mapM f xs) (\<lambda>ys. Inr (y # ys)))"

lemma mapM_Inr_length: "mapM f xs = Inr ys \<Longrightarrow> length ys = length xs"
  by (induction xs arbitrary: ys) auto

lemma mapM_pure: "(\<And>x. x \<in> set xs \<Longrightarrow> f x = Inr (g x)) \<Longrightarrow> mapM f xs = Inr (map g xs)"
  by (induction xs) simp_all

section \<open>Arrays\<close>

text \<open>\<open>findIndex\<close>: \<open>None\<close> stands for \<open>-1\<close>.\<close>

fun findIndex :: "('a \<Rightarrow> bool) \<Rightarrow> 'a list \<Rightarrow> nat option" where
  "findIndex P [] = None"
| "findIndex P (x # xs) = (if P x then Some 0 else map_option Suc (findIndex P xs))"

text \<open>\<open>arr.splice(i, 1)\<close>.\<close>

fun splice1 :: "nat \<Rightarrow> 'a list \<Rightarrow> 'a list" where
  "splice1 i [] = []"
| "splice1 0 (x # xs) = xs"
| "splice1 (Suc i) (x # xs) = x # splice1 i xs"

lemma findIndex_None_iff: "findIndex P xs = None \<longleftrightarrow> (\<forall>x\<in>set xs. \<not> P x)"
  by (induction xs) auto

lemma findIndex_SomeD: "findIndex P xs = Some i \<Longrightarrow> i < length xs \<and> P (xs ! i)"
  by (induction xs arbitrary: i) (auto split: if_splits)

lemma findIndex_eq_None: "findIndex (\<lambda>y. y = k) xs = None \<longleftrightarrow> k \<notin> set xs"
  by (auto simp: findIndex_None_iff)

lemma findIndex_first: "findIndex P xs = Some i \<Longrightarrow> j < i \<Longrightarrow> \<not> P (xs ! j)"
proof (induction xs arbitrary: i j)
  case (Cons x xs)
  then show ?case by (cases j) (auto split: if_splits)
qed simp

lemma length_splice1: "i < length xs \<Longrightarrow> length (splice1 i xs) = length xs - 1"
proof (induction i xs rule: splice1.induct)
  case (3 i x xs)
  then show ?case by (cases xs) auto
qed auto

lemma set_splice1_subset: "set (splice1 i xs) \<subseteq> set xs"
  by (induction i xs rule: splice1.induct) auto

lemma distinct_splice1: "distinct xs \<Longrightarrow> distinct (splice1 i xs)"
  by (induction i xs rule: splice1.induct) (use set_splice1_subset in fastforce)+

lemma set_splice1: "distinct xs \<Longrightarrow> i < length xs \<Longrightarrow> set (splice1 i xs) = set xs - {xs ! i}"
proof (induction i xs rule: splice1.induct)
  case (3 i x xs)
  then have "set (splice1 i xs) = set xs - {xs ! i}" and "xs ! i \<in> set xs" by simp_all
  with "3.prems"(1) show ?case by auto
qed auto

section \<open>Insertion-ordered sets\<close>

text \<open>A JavaScript \<open>Set\<close>: the list of its elements in the order they were first added.\<close>

definition sadd :: "'a \<Rightarrow> 'a list \<Rightarrow> 'a list" where
  "sadd x xs = (if x \<in> set xs then xs else xs @ [x])"

definition sof :: "'a list \<Rightarrow> 'a list" where
  "sof xs = fold sadd xs []"

lemma set_sadd [simp]: "set (sadd x xs) = insert x (set xs)"
  by (auto simp: sadd_def)

lemma distinct_sadd [simp]: "distinct (sadd x xs) \<longleftrightarrow> distinct xs"
  by (auto simp: sadd_def)

lemma set_fold_sadd: "set (fold sadd xs acc) = set xs \<union> set acc"
  by (induction xs arbitrary: acc) auto

lemma distinct_fold_sadd: "distinct acc \<Longrightarrow> distinct (fold sadd xs acc)"
  by (induction xs arbitrary: acc) auto

lemma set_sof [simp]: "set (sof xs) = set xs"
  by (simp add: sof_def set_fold_sadd)

lemma distinct_sof [simp]: "distinct (sof xs)"
  by (simp add: sof_def distinct_fold_sadd)

lemma fold_sadd_distinct: "distinct (acc @ xs) \<Longrightarrow> fold sadd xs acc = acc @ xs"
  by (induction xs arbitrary: acc) (auto simp: sadd_def)

lemma sof_distinct: "distinct xs \<Longrightarrow> sof xs = xs"
  by (simp add: sof_def fold_sadd_distinct)

section \<open>Insertion-ordered maps\<close>

text \<open>
  A JavaScript \<open>Map\<close>: the list of its entries in insertion order. \<open>set\<close> of a present key keeps
  the key's place, \<open>set\<close> of a new key appends, \<open>delete\<close> removes the entry.
\<close>

type_synonym ('k, 'v) jsmap = "('k \<times> 'v) list"

definition jget :: "('k, 'v) jsmap \<Rightarrow> 'k \<Rightarrow> 'v option" where
  "jget m k = map_of m k"

definition jhas :: "('k, 'v) jsmap \<Rightarrow> 'k \<Rightarrow> bool" where
  "jhas m k = (map_of m k \<noteq> None)"

definition jset :: "'k \<Rightarrow> 'v \<Rightarrow> ('k, 'v) jsmap \<Rightarrow> ('k, 'v) jsmap" where
  "jset k v m = AList.update k v m"

definition jdelete :: "'k \<Rightarrow> ('k, 'v) jsmap \<Rightarrow> ('k, 'v) jsmap" where
  "jdelete k m = AList.delete k m"

definition jkeys :: "('k, 'v) jsmap \<Rightarrow> 'k list" where
  "jkeys m = map fst m"

definition jvalues :: "('k, 'v) jsmap \<Rightarrow> 'v list" where
  "jvalues m = map snd m"

definition jwf :: "('k, 'v) jsmap \<Rightarrow> bool" where
  "jwf m = distinct (map fst m)"

lemmas jdefs = jget_def jhas_def jset_def jdelete_def jkeys_def jvalues_def jwf_def

text \<open>The interface the components use, with the laws the language specification gives.\<close>

locale ordered_map =
  fixes empty :: "'m"
    and get :: "'m \<Rightarrow> 'k \<Rightarrow> 'v option"
    and put :: "'k \<Rightarrow> 'v \<Rightarrow> 'm \<Rightarrow> 'm"
    and del :: "'k \<Rightarrow> 'm \<Rightarrow> 'm"
    and keys :: "'m \<Rightarrow> 'k list"
    and wf :: "'m \<Rightarrow> bool"
  assumes get_empty: "get empty = (\<lambda>_. None)"
    and get_put: "get (put k v m) = (get m)(k \<mapsto> v)"
    and get_del: "get (del k m) = (get m)(k := None)"
    and set_keys: "set (keys m) = dom (get m)"
    and keys_put_new: "get m k = None \<Longrightarrow> keys (put k v m) = keys m @ [k]"
    and keys_put_old: "get m k \<noteq> None \<Longrightarrow> keys (put k v m) = keys m"
    and wf_keys: "wf m \<longleftrightarrow> distinct (keys m)"
    and wf_empty: "wf empty"
    and wf_del: "wf m \<Longrightarrow> wf (del k m)"
begin

lemma wf_put: "wf m \<Longrightarrow> wf (put k v m)"
proof (cases "get m k")
  case None
  assume "wf m"
  with None show ?thesis
    by (auto simp: wf_keys keys_put_new set_keys)
next
  case (Some x)
  assume "wf m"
  with Some show ?thesis by (simp add: wf_keys keys_put_old)
qed

lemma dom_put: "dom (get (put k v m)) = insert k (dom (get m))"
  by (auto simp: get_put)

lemma dom_del: "dom (get (del k m)) = dom (get m) - {k}"
  by (auto simp: get_del)

lemma wf_fold_put: "wf m \<Longrightarrow> wf (fold (\<lambda>k. put k (f k)) ks m)"
  by (induction ks arbitrary: m) (auto intro: wf_put)

lemma get_fold_put:
  "get (fold (\<lambda>k. put k (f k)) ks m) k = (if k \<in> set ks then Some (f k) else get m k)"
  by (induction ks arbitrary: m) (auto simp: get_put)

lemma length_keys: "wf m \<Longrightarrow> length (keys m) = card (dom (get m))"
  by (metis distinct_card set_keys wf_keys)

end

lemma jget_eq: "jget m = map_of m"
  by (simp add: jget_def fun_eq_iff)

lemma AList_update_keys:
  "map fst (AList.update k v m) = (if k \<in> set (map fst m) then map fst m else map fst m @ [k])"
  by (induction m) auto

interpretation jm: ordered_map "[]" jget jset jdelete jkeys jwf
proof unfold_locales
  fix m :: "('k \<times> 'v) list" and k :: 'k and v :: 'v
  show "jkeys (jset k v m) = jkeys m @ [k]" if "jget m k = None"
    using that by (auto simp: jdefs AList_update_keys map_of_eq_None_iff image_iff)
  show "jkeys (jset k v m) = jkeys m" if "jget m k \<noteq> None"
    using that by (auto simp: jdefs AList_update_keys map_of_eq_None_iff)
  show "set (jkeys m) = dom (jget m)"
    by (simp add: jkeys_def jget_eq dom_map_of_conv_image_fst)
qed (simp_all add: jdefs update_conv' delete_conv' distinct_delete fun_eq_iff)

lemma jget_Nil [simp]: "jget [] k = None"
  by (simp add: jget_def)

lemma jget_Cons [simp]: "jget ((k, v) # m) k' = (if k' = k then Some v else jget m k')"
  by (simp add: jget_def)

lemma jwf_Cons [simp]: "jwf ((k, v) # m) \<longleftrightarrow> jget m k = None \<and> jwf m"
  by (simp add: jdefs map_of_eq_None_iff)

lemma jget_jset [js_simps]: "jget (jset k v m) k' = (if k' = k then Some v else jget m k')"
  by (simp add: jm.get_put)

lemma jget_jdelete [js_simps]: "jget (jdelete k m) k' = (if k' = k then None else jget m k')"
  by (simp add: jm.get_del)

lemma jhas_jget [js_simps]: "jhas m k \<longleftrightarrow> jget m k \<noteq> None"
  by (simp add: jdefs)

lemma jwf_Nil [simp]: "jwf []"
  by (simp add: jwf_def)

lemma jwf_jset [simp]: "jwf m \<Longrightarrow> jwf (jset k v m)"
  by (rule jm.wf_put)

lemma jwf_jdelete [simp]: "jwf m \<Longrightarrow> jwf (jdelete k m)"
  by (rule jm.wf_del)

lemma jkeys_dom [js_dom]: "set (jkeys m) = dom (jget m)"
  by (rule jm.set_keys)

lemma jget_Some_in: "jget m k = Some v \<Longrightarrow> (k, v) \<in> set m"
  by (simp add: jget_def map_of_SomeD)

lemma jget_iff_in: "jwf m \<Longrightarrow> jget m k = Some v \<longleftrightarrow> (k, v) \<in> set m"
  by (simp add: jdefs)

lemma jget_fst: "jget m k \<noteq> None \<longleftrightarrow> k \<in> set (map fst m)"
  by (auto simp: jget_def map_of_eq_None_iff)

section \<open>Stateful methods\<close>

text \<open>
  A method that changes state and may throw: an exception does not undo what was changed before it,
  so the state comes back in both cases.
\<close>

type_synonym ('a, 's) act = "'s \<Rightarrow> 'a res \<times> 's"

definition bindS :: "('a, 's) act \<Rightarrow> ('a \<Rightarrow> ('b, 's) act) \<Rightarrow> ('b, 's) act" where
  "bindS m f s = (case m s of (Inl e, t) \<Rightarrow> (Inl e, t) | (Inr x, t) \<Rightarrow> f x t)"

lemma bindS_snd:
  "P (snd (m s)) \<Longrightarrow> (\<And>x t. P t \<Longrightarrow> P (snd (f x t))) \<Longrightarrow> P (snd (bindS m f s))"
  by (auto simp: bindS_def split: prod.splits sum.splits)

definition returnS :: "'a \<Rightarrow> ('a, 's) act" where
  "returnS x s = (Inr x, s)"

definition throwS :: "js_error \<Rightarrow> ('a, 's) act" where
  "throwS e s = (Inl e, s)"

definition liftS :: "'a res \<Rightarrow> ('a, 's) act" where
  "liftS r s = (r, s)"

lemma bindS_Inr: "bindS m f s = (Inr y, t) \<longleftrightarrow> (\<exists>x u. m s = (Inr x, u) \<and> f x u = (Inr y, t))"
  by (auto simp: bindS_def split: prod.splits sum.splits)

lemma liftS_Inr_iff: "liftS r s = (Inr y, s2) \<longleftrightarrow> r = Inr y \<and> s2 = s"
  by (auto simp: liftS_def)

lemma returnS_Inr_iff: "returnS x s = (Inr y, s2) \<longleftrightarrow> y = x \<and> s2 = s"
  by (auto simp: returnS_def)

lemma pair_Inr_iff: "(r, s) = (Inr y, s2) \<longleftrightarrow> r = Inr y \<and> s2 = s"
  by auto

lemmas act_Inr = bindS_Inr liftS_Inr_iff returnS_Inr_iff pair_Inr_iff

text \<open>\<open>try { m } finally { f }\<close>: an exception of \<open>f\<close> replaces the outcome of \<open>m\<close>.\<close>

definition finallyS :: "('a, 's) act \<Rightarrow> (unit, 's) act \<Rightarrow> ('a, 's) act" where
  "finallyS m f s = (case m s of (r, t) \<Rightarrow> (case f t of (Inl e, t') \<Rightarrow> (Inl e, t') | (Inr _, t') \<Rightarrow> (r, t')))"

text \<open>\<open>try { m } catch (e) { h(e) }\<close>: what \<open>m\<close> changed before it threw stays changed.\<close>

definition catchS :: "('a, 's) act \<Rightarrow> (js_error \<Rightarrow> ('a, 's) act) \<Rightarrow> ('a, 's) act" where
  "catchS m h s = (case m s of (Inl e, t) \<Rightarrow> h e t | (Inr x, t) \<Rightarrow> (Inr x, t))"

definition getsS :: "('s \<Rightarrow> 'a) \<Rightarrow> ('a, 's) act" where
  "getsS f s = (Inr (f s), s)"

definition modifyS :: "('s \<Rightarrow> 's) \<Rightarrow> (unit, 's) act" where
  "modifyS f s = (Inr (), f s)"

text \<open>A method of a part of the state, and a pure one that may throw and give the part back changed.\<close>

definition zoomS :: "('s \<Rightarrow> 't) \<Rightarrow> ('t \<Rightarrow> 's \<Rightarrow> 's) \<Rightarrow> ('a, 't) act \<Rightarrow> ('a, 's) act" where
  "zoomS get put m s = (case m (get s) of (r, t) \<Rightarrow> (r, put t s))"

definition updR :: "('s \<Rightarrow> 's res) \<Rightarrow> (unit, 's) act" where
  "updR f s = (case f s of Inl e \<Rightarrow> (Inl e, s) | Inr t \<Rightarrow> (Inr (), t))"

text \<open>A \<open>for ... of\<close> loop over stateful methods, with an accumulator.\<close>

fun foldS :: "('a \<Rightarrow> 'b \<Rightarrow> ('b, 's) act) \<Rightarrow> 'a list \<Rightarrow> 'b \<Rightarrow> ('b, 's) act" where
  "foldS f [] b = returnS b"
| "foldS f (x # xs) b = bindS (f x b) (foldS f xs)"

definition eachS :: "('a \<Rightarrow> (unit, 's) act) \<Rightarrow> 'a list \<Rightarrow> (unit, 's) act" where
  "eachS f xs = foldS (\<lambda>x _. f x) xs ()"

lemma zoomS_Inr: "zoomS get put m s = (Inr y, t) \<longleftrightarrow> (\<exists>u. m (get s) = (Inr y, u) \<and> t = put u s)"
  by (auto simp: zoomS_def split: prod.splits)

lemma getsS_Inr: "getsS f s = (Inr y, t) \<longleftrightarrow> y = f s \<and> t = s"
  by (auto simp: getsS_def)

lemma modifyS_Inr: "modifyS f s = (Inr y, t) \<longleftrightarrow> t = f s"
  by (auto simp: modifyS_def)

lemma updR_Inr: "updR f s = (Inr y, t) \<longleftrightarrow> f s = Inr t"
  by (auto simp: updR_def split: sum.splits)

lemmas node_Inr = act_Inr zoomS_Inr getsS_Inr modifyS_Inr updR_Inr

text \<open>A relation between the states before and after that every step respects.\<close>

definition keepsS :: "('s \<Rightarrow> 's \<Rightarrow> bool) \<Rightarrow> ('a, 's) act \<Rightarrow> bool" where
  "keepsS R m \<longleftrightarrow> (\<forall>s. R s (snd (m s)))"

lemma keepsS_bindS:
  "transp R \<Longrightarrow> keepsS R m \<Longrightarrow> (\<And>x. keepsS R (f x)) \<Longrightarrow> keepsS R (bindS m f)"
  unfolding keepsS_def bindS_def
  by (auto split: prod.splits sum.splits) (metis snd_conv transpD)+

lemma keepsS_return: "reflp R \<Longrightarrow> keepsS R (returnS x)"
  and keepsS_throw: "reflp R \<Longrightarrow> keepsS R (throwS e)"
  and keepsS_lift: "reflp R \<Longrightarrow> keepsS R (liftS r)"
  by (auto simp: keepsS_def returnS_def throwS_def liftS_def reflp_def)

text \<open>An invariant of the state that a method keeps, whether it throws or not.\<close>

definition presS :: "('s \<Rightarrow> bool) \<Rightarrow> ('a, 's) act \<Rightarrow> bool" where
  "presS P m \<longleftrightarrow> (\<forall>s. P s \<longrightarrow> P (snd (m s)))"

lemma presSD: "presS P m \<Longrightarrow> P s \<Longrightarrow> P (snd (m s))"
  by (simp add: presS_def)

lemma presSI: "(\<And>s. P s \<Longrightarrow> P (snd (m s))) \<Longrightarrow> presS P m"
  by (simp add: presS_def)

lemma presS_bindS:
  assumes "presS P m" and "\<And>x. presS P (f x)"
  shows "presS P (bindS m f)"
proof (rule presSI)
  fix s
  assume "P s"
  obtain r t where m: "m s = (r, t)" by (cases "m s")
  have "P t" using presSD [OF assms(1) \<open>P s\<close>] m by simp
  then show "P (snd (bindS m f s))" using m presSD [OF assms(2)] by (simp add: bindS_def split: sum.split)
qed

lemma presS_catchS:
  assumes "presS P m" and "\<And>e. presS P (h e)"
  shows "presS P (catchS m h)"
proof (rule presSI)
  fix s
  assume "P s"
  obtain r t where m: "m s = (r, t)" by (cases "m s")
  have "P t" using presSD [OF assms(1) \<open>P s\<close>] m by simp
  then show "P (snd (catchS m h s))" using m presSD [OF assms(2)] by (simp add: catchS_def split: sum.split)
qed

lemma presS_finallyS:
  assumes "presS P m" and "presS P f"
  shows "presS P (finallyS m f)"
proof (rule presSI)
  fix s
  assume "P s"
  obtain r t where m: "m s = (r, t)" by (cases "m s")
  obtain q u where f: "f t = (q, u)" by (cases "f t")
  have "P t" using presSD [OF assms(1) \<open>P s\<close>] m by simp
  then have "P u" using presSD [OF assms(2)] f by (metis snd_conv)
  then show "P (snd (finallyS m f s))" using m f by (simp add: finallyS_def split: sum.split)
qed

lemma presS_simps [simp]:
  "presS P (returnS x)" "presS P (throwS e)" "presS P (liftS r)" "presS P (getsS g)" "presS P (\<lambda>s. (e1 s, s))"
  by (simp_all add: presS_def returnS_def throwS_def liftS_def getsS_def)

lemma presS_modifyS: "(\<And>s. P s \<Longrightarrow> P (f s)) \<Longrightarrow> presS P (modifyS f)"
  by (simp add: presS_def modifyS_def)

lemma presS_foldS: "(\<And>x b. presS P (f x b)) \<Longrightarrow> presS P (foldS f xs b)"
  by (induction xs arbitrary: b) (simp_all add: presS_bindS)

lemma presS_eachS: "(\<And>x. presS P (f x)) \<Longrightarrow> presS P (eachS f xs)"
  by (simp add: eachS_def presS_foldS)

lemma presS_if: "presS P m \<Longrightarrow> presS P m' \<Longrightarrow> presS P (if b then m else m')"
  by simp

lemmas presS_intros = presS_bindS presS_catchS presS_finallyS presS_foldS presS_eachS presS_if

lemma set_jset_subset: "set (jset k v m) \<subseteq> insert (k, v) (set m)"
proof -
  have "set (AList.update k v m) \<subseteq> insert (k, v) (set m)" by (induction m) auto
  then show ?thesis by (simp add: jset_def)
qed

section \<open>Spending\<close>

text \<open>
  Everywhere the program spends, it takes an entry out of a store that has it and fails when the
  store does not. A loop that spends a list of entries therefore succeeds only on distinct entries
  the store had, and what it adds up is what the entries were worth.
\<close>

locale spending =
  fixes inv :: "'s \<Rightarrow> bool"
    and avail :: "'s \<Rightarrow> 'k \<Rightarrow> 'v option"
    and key :: "'e \<Rightarrow> 'k"
    and spend :: "'e \<Rightarrow> 's \<Rightarrow> 's res"
  assumes spend_inv: "inv s \<Longrightarrow> spend e s = Inr s' \<Longrightarrow> inv s'"
    and spend_had: "inv s \<Longrightarrow> spend e s = Inr s' \<Longrightarrow> avail s (key e) \<noteq> None"
    and spend_avail: "inv s \<Longrightarrow> spend e s = Inr s' \<Longrightarrow> avail s' = (avail s)(key e := None)"
begin

lemma spend_list:
  assumes "inv s" and "foldR spend es s = Inr s'"
  shows "inv s' \<and> distinct (map key es) \<and> key ` set es \<subseteq> dom (avail s) \<and>
    avail s' = avail s |` (- key ` set es)"
  using assms
proof (induction es arbitrary: s)
  case (Cons e es)
  then obtain s1 where s1: "spend e s = Inr s1" "foldR spend es s1 = Inr s'" by auto
  note step = spend_inv [OF Cons.prems(1) s1(1)] spend_had [OF Cons.prems(1) s1(1)]
    spend_avail [OF Cons.prems(1) s1(1)]
  note IH = Cons.IH [OF step(1) s1(2)]
  have "key e \<notin> key ` set es" using IH step(3) by (auto simp: subset_iff)
  moreover have "avail s1 |` (- key ` set es) = avail s |` (- key ` set (e # es))"
    using step(3) by (auto simp: fun_eq_iff restrict_map_def)
  moreover have "key ` set es \<subseteq> dom (avail s)"
    using IH step(3) by (auto simp: subset_iff split: if_splits)
  moreover have "key e \<in> dom (avail s)" using step(2) by blast
  ultimately show ?case using IH by simp
qed (simp add: restrict_map_def)

end

locale spending_value = spending inv avail key spend
  for inv :: "'s \<Rightarrow> bool"
    and avail :: "'s \<Rightarrow> 'k \<Rightarrow> 'v option"
    and key :: "'e \<Rightarrow> 'k"
    and spend :: "'e \<Rightarrow> 's \<Rightarrow> 's res" +
  fixes total :: "'s \<Rightarrow> int"
    and worth :: "'v \<Rightarrow> int"
  assumes spend_total: "inv s \<Longrightarrow> spend e s = Inr s' \<Longrightarrow> avail s (key e) = Some v \<Longrightarrow>
      total s' = total s + worth v"
begin

lemma total_list:
  assumes "inv s" and "foldR spend es s = Inr s'"
  shows "total s' = total s + (\<Sum>k\<leftarrow>map key es. worth (the (avail s k)))"
  using assms
proof (induction es arbitrary: s)
  case (Cons e es)
  then obtain s1 where s1: "spend e s = Inr s1" "foldR spend es s1 = Inr s'" by auto
  note step = spend_inv [OF Cons.prems(1) s1(1)] spend_had [OF Cons.prems(1) s1(1)]
    spend_avail [OF Cons.prems(1) s1(1)]
  obtain v where v: "avail s (key e) = Some v" using step(2) by blast
  have "key e \<notin> key ` set es"
    using spend_list [OF Cons.prems] by simp
  then have "(\<Sum>k\<leftarrow>map key es. worth (the (avail s1 k))) = (\<Sum>k\<leftarrow>map key es. worth (the (avail s k)))"
    using step(3) by (intro arg_cong [of _ _ sum_list] map_cong refl) (auto simp: image_iff)
  with Cons.IH [OF step(1) s1(2)] spend_total [OF Cons.prems(1) s1(1) v] v show ?case by simp
qed simp

end

end
