(* ===== verification/Cil_Utils.thy ===== *)
theory Cil_Utils
  imports Cil_Prelude
begin

text \<open>
  The pure helpers of \<open>src/utils.js\<close> and the value predicates of \<open>src/types.js\<close>: greatest common
  divisor (the share unit of a proof-of-stake concilium), array and map set operations (used when
  patches are merged and block parents compared), the peer tag, and the type checks the other
  components call through \<open>typeforce\<close>.
\<close>

section \<open>Decimal numerals\<close>

text \<open>\<open>n.toString()\<close> of a non-negative integer.\<close>

fun show_nat :: "nat \<Rightarrow> string" where
  "show_nat n = (if n < 10 then [''0123456789'' ! n]
                 else show_nat (n div 10) @ [''0123456789'' ! (n mod 10)])"

declare show_nat.simps [simp del]

lemma digit_inj: "m < 10 \<Longrightarrow> n < 10 \<Longrightarrow> ''0123456789'' ! m = ''0123456789'' ! n \<Longrightarrow> m = n"
  by (simp add: nth_eq_iff_index_eq)

lemma show_nat_inj: "show_nat m = show_nat n \<Longrightarrow> m = n"
proof (induction m arbitrary: n rule: show_nat.induct)
  case (1 m)
  have ne: "show_nat k \<noteq> []" for k by (subst show_nat.simps) simp
  show ?case
  proof (cases "m < 10 \<or> n < 10")
    case True
    have "m < 10 \<and> n < 10"
      using True "1.prems" ne [of "m div 10"] ne [of "n div 10"]
      by (auto simp: show_nat.simps [of m] show_nat.simps [of n] split: if_splits)
    with "1.prems" show ?thesis
      using digit_inj by (simp add: show_nat.simps [of m] show_nat.simps [of n])
  next
    case False
    then have e: "show_nat (m div 10) = show_nat (n div 10)"
      and d: "''0123456789'' ! (m mod 10) = ''0123456789'' ! (n mod 10)"
      using "1.prems" by (simp_all add: show_nat.simps [of m] show_nat.simps [of n])
    from False e have "m div 10 = n div 10" by (intro "1.IH") simp_all
    moreover have "m mod 10 = n mod 10" using digit_inj [OF _ _ d] by simp
    ultimately show ?thesis by (metis div_mod_decomp)
  qed
qed

definition createPeerTag :: "nat \<Rightarrow> string" where
  "createPeerTag nConciliumId = ''wg'' @ show_nat nConciliumId"

lemma createPeerTag_inj: "createPeerTag a = createPeerTag b \<longleftrightarrow> a = b"
  by (auto simp: createPeerTag_def dest: show_nat_inj)

section \<open>Greatest common divisor\<close>

text \<open>The inner \<open>while (x && y)\<close> loop; the result is the value of \<open>x + y\<close> when it stops.\<close>

function gcd_loop :: "nat \<Rightarrow> nat \<Rightarrow> nat" where
  "gcd_loop x y =
     (if x \<noteq> 0 \<and> y \<noteq> 0
      then (if x > y then gcd_loop (x mod y) y else gcd_loop x (y mod x))
      else x + y)"
  by pat_completeness auto
termination
proof (relation "measure (\<lambda>(x, y). x + y)")
  fix x y :: nat
  assume "x \<noteq> 0 \<and> y \<noteq> 0" "x > y"
  then have "x mod y < x" by (meson less_trans mod_less_divisor neq0_conv)
  then show "((x mod y, y), x, y) \<in> measure (\<lambda>(x, y). x + y)" by simp
next
  fix x y :: nat
  assume "x \<noteq> 0 \<and> y \<noteq> 0" "\<not> x > y"
  then have "y mod x < y" by (meson mod_less_divisor not_less order_less_le_trans neq0_conv)
  then show "((x, y mod x), x, y) \<in> measure (\<lambda>(x, y). x + y)" by simp
qed simp

declare gcd_loop.simps [simp del]

lemma gcd_loop_eq: "gcd_loop x y = gcd x y"
proof (induction x y rule: gcd_loop.induct)
  case (1 x y)
  show ?case
  proof (cases "x \<noteq> 0 \<and> y \<noteq> 0")
    case True
    then show ?thesis
      using "1.IH" by (subst gcd_loop.simps)
        (simp add: gcd_red_nat [of x y, symmetric] gcd_red_nat [of y x, symmetric] gcd.commute)
  next
    case False
    then show ?thesis by (subst gcd_loop.simps) auto
  qed
qed

text \<open>\<open>GCD([])\<close> is \<open>Math.abs(undefined)\<close>, that is \<open>NaN\<close>: \<open>None\<close>.\<close>

fun GCD_js :: "int list \<Rightarrow> nat option" where
  "GCD_js [] = None"
| "GCD_js (a # as) = Some (fold (\<lambda>y x. gcd_loop x (nat \<bar>y\<bar>)) as (nat \<bar>a\<bar>))"

lemma fold_gcd_eq: "int (fold (\<lambda>y x. gcd_loop x (nat \<bar>y\<bar>)) as g) = gcd (int g) (Gcd (set as))"
proof (induction as arbitrary: g)
  case (Cons a as)
  have "int (gcd_loop g (nat \<bar>a\<bar>)) = gcd (int g) a"
    by (simp add: gcd_loop_eq gcd_int_int_eq [symmetric])
  with Cons.IH [of "gcd_loop g (nat \<bar>a\<bar>)"] show ?case by (simp add: gcd.assoc)
qed simp

lemma GCD_js_correct: "as \<noteq> [] \<Longrightarrow> map_option int (GCD_js as) = Some (Gcd (set as))"
proof (cases as)
  case (Cons a bs)
  then show ?thesis using fold_gcd_eq [of bs "nat \<bar>a\<bar>"] by (cases "a \<ge> 0") simp_all
qed simp

section \<open>Arrays, sets and maps\<close>

definition arrayIntersection :: "'a list \<Rightarrow> 'a list \<Rightarrow> 'a list" where
  "arrayIntersection array1 array2 = filter (\<lambda>elem. elem \<in> set array1) array2"

definition arrayEquals :: "'a list \<Rightarrow> 'a list \<Rightarrow> bool" where
  "arrayEquals array1 array2 =
     (length array1 = length array2 \<and>
      length (arrayIntersection array1 array2) = length array1)"

definition mergeSets :: "'a list \<Rightarrow> 'a list \<Rightarrow> 'a list" where
  "mergeSets set1 set2 = sof (set1 @ set2)"

definition getMapsKeys :: "('k, 'v) jsmap list \<Rightarrow> 'k list" where
  "getMapsKeys arrMaps = fold (\<lambda>m arrResultKeys. arrResultKeys @ jkeys m) arrMaps []"

definition getMapsKeysUnique :: "('k, 'v) jsmap list \<Rightarrow> 'k list" where
  "getMapsKeysUnique arrMaps = sof (getMapsKeys arrMaps)"

lemma set_arrayIntersection [simp]: "set (arrayIntersection xs ys) = set xs \<inter> set ys"
  by (auto simp: arrayIntersection_def)

lemma distinct_arrayIntersection: "distinct ys \<Longrightarrow> distinct (arrayIntersection xs ys)"
  by (simp add: arrayIntersection_def)

lemma set_mergeSets [simp]: "set (mergeSets xs ys) = set xs \<union> set ys"
  by (simp add: mergeSets_def)

lemma distinct_mergeSets [simp]: "distinct (mergeSets xs ys)"
  by (simp add: mergeSets_def)

lemma getMapsKeys2: "getMapsKeys [m, n] = jkeys m @ jkeys n"
  by (simp add: getMapsKeys_def)

lemma set_getMapsKeysUnique2 [js_dom]:
  "set (getMapsKeysUnique [m, n]) = dom (jget m) \<union> dom (jget n)"
  by (simp add: getMapsKeysUnique_def getMapsKeys2 js_dom)

lemma distinct_getMapsKeysUnique [simp]: "distinct (getMapsKeysUnique ms)"
  by (simp add: getMapsKeysUnique_def)

text \<open>What \<open>arrayEquals\<close> decides when neither array repeats an element, and when one does.\<close>

lemma arrayEquals_distinct:
  assumes "distinct xs" and "distinct ys"
  shows "arrayEquals xs ys \<longleftrightarrow> set xs = set ys"
proof -
  have "length (filter (\<lambda>e. e \<in> set xs) ys) = length xs \<and> length xs = length ys
    \<longleftrightarrow> set ys \<subseteq> set xs \<and> length xs = length ys"
    by (metis filter_True length_filter_less subset_iff nat_neq_iff filter_id_conv)
  also have "\<dots> \<longleftrightarrow> set xs = set ys"
    using assms by (metis card_subset_eq distinct_card finite_set order_refl)
  finally show ?thesis by (auto simp: arrayEquals_def arrayIntersection_def)
qed

lemma arrayEquals_refl: "arrayEquals xs xs"
  by (simp add: arrayEquals_def arrayIntersection_def)

lemma arrayEquals_subset: "arrayEquals xs ys \<longleftrightarrow> length xs = length ys \<and> set ys \<subseteq> set xs"
  by (auto simp: arrayEquals_def arrayIntersection_def)
     (metis filter_True length_filter_less subsetD less_irrefl,
      metis filter_True subset_iff)

definition stripAddressPrefix :: "string \<Rightarrow> string \<Rightarrow> string" where
  "stripAddressPrefix prefix strAddr =
     (if strAddr \<noteq> [] \<and> take (length prefix) strAddr = prefix
      then drop (length prefix) strAddr else strAddr)"

lemma stripAddressPrefix_prefixed: "prefix \<noteq> [] \<Longrightarrow> stripAddressPrefix prefix (prefix @ a) = a"
  by (simp add: stripAddressPrefix_def)

section \<open>Type predicates\<close>

text \<open>The kinds of values \<open>types.js\<close> tells apart; a \<open>Buffer\<close> is given by its bytes.\<close>

datatype js_value =
    JString string
  | JBuffer "nat list"
  | JNumber int
  | JUndefined
  | JObject

fun PrivateKey :: "js_value \<Rightarrow> bool" where
  "PrivateKey (JString s) = (length s \<ge> 62 \<or> length s \<le> 64)"
| "PrivateKey (JBuffer b) = (length b \<ge> 31 \<or> length b \<le> 32)"
| "PrivateKey _ = False"

fun PublicKey :: "js_value \<Rightarrow> bool" where
  "PublicKey (JString s) = (length s = 66)"
| "PublicKey (JBuffer b) = (length b = 33)"
| "PublicKey _ = False"

fun isEmptyValue :: "js_value \<Rightarrow> bool" where
  "isEmptyValue v = (v = JUndefined)"

fun Str64 :: "js_value \<Rightarrow> bool" where
  "Str64 (JString s) = (length s = 64)"
| "Str64 _ = False"

fun Str40 :: "js_value \<Rightarrow> bool" where
  "Str40 (JString s) = (length s = 40)"
| "Str40 _ = False"

fun Amount :: "js_value \<Rightarrow> bool" where
  "Amount (JNumber _) = True"
| "Amount _ = False"

definition BufferN :: "nat \<Rightarrow> js_value \<Rightarrow> bool" where
  "BufferN n v = (case v of JBuffer b \<Rightarrow> length b = n | _ \<Rightarrow> False)"

definition Hash256bit :: "js_value \<Rightarrow> bool" where
  "Hash256bit v = (BufferN 32 v \<or> Str64 v)"

definition Address :: "js_value \<Rightarrow> bool" where
  "Address v = (BufferN 20 v \<or> Str40 v)"

lemma PrivateKey_any_length: "PrivateKey (JString s) \<and> PrivateKey (JBuffer b)"
  by auto

end
