(* ===== verification/Cil_Utxo.thy ===== *)
theory Cil_Utxo
  imports Cil_Utils
begin

text \<open>
  \<open>src/structures/coins.js\<close> and \<open>src/structures/utxo.js\<close>. A UTXO keeps the unspent outputs of one
  transaction as two parallel arrays, the output numbers and the coins. \<open>UTXO_abs\<close> reads them as
  a finite map from output number to coins; the operations are shown to refine the operations on
  that map, with every exception at the key the map lacks or already has.
\<close>

section \<open>Coins\<close>

record coins =
  coins_amount :: int
  coins_receiverAddr :: addr

definition Coins_new :: "int \<Rightarrow> addr \<Rightarrow> coins" where
  "Coins_new amount receiverAddr = \<lparr>coins_amount = amount, coins_receiverAddr = receiverAddr\<rparr>"

definition Coins_getAmount :: "coins \<Rightarrow> int" where
  "Coins_getAmount c = coins_amount c"

definition Coins_getReceiverAddr :: "coins \<Rightarrow> addr" where
  "Coins_getReceiverAddr c = coins_receiverAddr c"

definition Coins_equals :: "coins \<Rightarrow> coins \<Rightarrow> bool" where
  "Coins_equals c d =
     (Coins_getAmount c = Coins_getAmount d \<and> Coins_getReceiverAddr c = Coins_getReceiverAddr d)"

lemma Coins_equals_eq [simp]: "Coins_equals c d \<longleftrightarrow> c = d"
  by (cases c; cases d) (auto simp: Coins_equals_def Coins_getAmount_def Coins_getReceiverAddr_def)

section \<open>UTXO\<close>

record utxo =
  utxo_txHash :: hash
  utxo_arrIndexes :: "int list"
  utxo_arrOutputs :: "coins list"

definition UTXO_new :: "hash \<Rightarrow> utxo res" where
  "UTXO_new txHash =
     (if txHash \<noteq> [] then Inr \<lparr>utxo_txHash = txHash, utxo_arrIndexes = [], utxo_arrOutputs = []\<rparr>
      else Inl (Error ''Construct from txHash''))"

definition UTXO_getTxHash :: "utxo \<Rightarrow> hash" where
  "UTXO_getTxHash u = utxo_txHash u"

definition UTXO_getIndexes :: "utxo \<Rightarrow> int list" where
  "UTXO_getIndexes u = utxo_arrIndexes u"

definition UTXO_isEmpty :: "utxo \<Rightarrow> bool res" where
  "UTXO_isEmpty u =
     (if length (utxo_arrIndexes u) \<noteq> length (utxo_arrOutputs u)
      then Inl (Error ''UTXO integrity check failed!'')
      else Inr (utxo_arrIndexes u = []))"

definition UTXO_addCoins :: "int \<Rightarrow> coins \<Rightarrow> utxo \<Rightarrow> utxo res" where
  "UTXO_addCoins idx c u =
     (if findIndex (\<lambda>i. i = idx) (utxo_arrIndexes u) \<noteq> None
      then Inl (Error ''already added!'')
      else Inr (u\<lparr>utxo_arrOutputs := utxo_arrOutputs u @ [c],
                  utxo_arrIndexes := utxo_arrIndexes u @ [idx]\<rparr>))"

definition UTXO_spendCoins :: "int \<Rightarrow> utxo \<Rightarrow> utxo res" where
  "UTXO_spendCoins nTxOutput u =
     (case findIndex (\<lambda>i. i = nTxOutput) (utxo_arrIndexes u) of
        None \<Rightarrow> Inl (Error ''already deleted!'')
      | Some idx \<Rightarrow> Inr (u\<lparr>utxo_arrIndexes := splice1 idx (utxo_arrIndexes u),
                           utxo_arrOutputs := splice1 idx (utxo_arrOutputs u)\<rparr>))"

text \<open>\<open>arrOutputs[index]\<close> past the end is \<open>undefined\<close>, which \<open>createFromData\<close> cannot destructure.\<close>

definition UTXO_coinsAtIndex :: "utxo \<Rightarrow> int \<Rightarrow> coins res" where
  "UTXO_coinsAtIndex u idx =
     (case findIndex (\<lambda>nOutput. nOutput = idx) (utxo_arrIndexes u) of
        None \<Rightarrow> Inl (Error ''already spent!'')
      | Some index \<Rightarrow>
          (if index < length (utxo_arrOutputs u) then Inr (utxo_arrOutputs u ! index)
           else Inl (TypeError ''createFromData'')))"

fun UTXO_everyEqual :: "utxo \<Rightarrow> utxo \<Rightarrow> int list \<Rightarrow> bool res" where
  "UTXO_everyEqual u v [] = Inr True"
| "UTXO_everyEqual u v (idx # idxs) =
     bindR (UTXO_coinsAtIndex u idx) (\<lambda>c. bindR (UTXO_coinsAtIndex v idx) (\<lambda>d.
       if Coins_equals c d then UTXO_everyEqual u v idxs else Inr False))"

definition UTXO_equals :: "utxo \<Rightarrow> utxo \<Rightarrow> bool res" where
  "UTXO_equals u v =
     (if arrayEquals (UTXO_getIndexes u) (UTXO_getIndexes v)
      then UTXO_everyEqual u v (UTXO_getIndexes u) else Inr False)"

definition UTXO_amountOut :: "utxo \<Rightarrow> int res" where
  "UTXO_amountOut u =
     foldR (\<lambda>idx accum. bindR (UTXO_coinsAtIndex u idx) (\<lambda>c. Inr (accum + Coins_getAmount c)))
       (utxo_arrIndexes u) 0"

definition UTXO_toObject :: "utxo \<Rightarrow> (int, int \<times> addr) jsmap res" where
  "UTXO_toObject u =
     foldR (\<lambda>i objResult.
        if i < length (utxo_arrOutputs u)
        then Inr (jset (utxo_arrIndexes u ! i)
                   (coins_amount (utxo_arrOutputs u ! i), coins_receiverAddr (utxo_arrOutputs u ! i))
                   objResult)
        else Inl (TypeError ''amount''))
       [0..<length (utxo_arrIndexes u)] []"

definition UTXO_getOutputsForAddress :: "utxo \<Rightarrow> addr \<Rightarrow> (int \<times> coins) list res" where
  "UTXO_getOutputsForAddress u address =
     foldR (\<lambda>idx acc. bindR (UTXO_coinsAtIndex u idx) (\<lambda>coin.
        Inr (if Coins_getReceiverAddr coin = address then acc @ [(idx, coin)] else acc)))
       (utxo_arrIndexes u) []"

definition UTXO_getReceivers :: "utxo \<Rightarrow> addr list" where
  "UTXO_getReceivers u = fold (\<lambda>c. sadd (Coins_getReceiverAddr c)) (utxo_arrOutputs u) []"

definition UTXO_filterOutputsForAddress :: "utxo \<Rightarrow> addr \<Rightarrow> utxo res" where
  "UTXO_filterOutputsForAddress u address =
     bindR (UTXO_new (UTXO_getTxHash u)) (\<lambda>utxoFiltered.
       bindR (UTXO_getOutputsForAddress u address) (\<lambda>arrAddrOutputs.
         foldR (\<lambda>(idx, c). UTXO_addCoins idx c) arrAddrOutputs utxoFiltered))"

section \<open>The invariant and the abstraction\<close>

definition UTXO_wf :: "utxo \<Rightarrow> bool" where
  "UTXO_wf u \<longleftrightarrow> distinct (utxo_arrIndexes u) \<and>
     length (utxo_arrIndexes u) = length (utxo_arrOutputs u)"

definition UTXO_abs :: "utxo \<Rightarrow> int \<rightharpoonup> coins" where
  "UTXO_abs u = map_of (zip (utxo_arrIndexes u) (utxo_arrOutputs u))"

lemma dom_UTXO_abs: "UTXO_wf u \<Longrightarrow> dom (UTXO_abs u) = set (utxo_arrIndexes u)"
  by (simp add: UTXO_abs_def UTXO_wf_def)

lemma finite_dom_UTXO_abs [simp]: "finite (dom (UTXO_abs u))"
  by (simp add: UTXO_abs_def finite_dom_map_of)

lemma map_of_zip_findIndex:
  "length xs = length ys \<Longrightarrow>
   map_of (zip xs ys) k = map_option (\<lambda>i. ys ! i) (findIndex (\<lambda>x. x = k) xs)"
  by (induction xs ys rule: list_induct2) (auto simp: option.map_comp comp_def)

lemma map_add_singleton_left:
  "m k = None \<Longrightarrow> [k \<mapsto> v] ++ m = m(k \<mapsto> v)"
  by (auto simp: fun_eq_iff map_add_def split: option.splits)

lemma map_of_zip_splice1:
  "length xs = length ys \<Longrightarrow> distinct xs \<Longrightarrow> findIndex (\<lambda>x. x = k) xs = Some i \<Longrightarrow>
   map_of (zip (splice1 i xs) (splice1 i ys)) = (map_of (zip xs ys))(k := None)"
proof (induction xs ys arbitrary: i rule: list_induct2)
  case (Cons x xs y ys)
  show ?case
  proof (cases "x = k")
    case True
    with Cons.prems Cons.hyps show ?thesis by (auto simp: fun_eq_iff map_of_zip_is_None)
  next
    case False
    with Cons.prems obtain j where j: "findIndex (\<lambda>x. x = k) xs = Some j" "i = Suc j" by auto
    with Cons.IH [of j] Cons.prems False show ?thesis by (auto simp: fun_eq_iff)
  qed
qed simp

lemma UTXO_coinsAtIndex_abs:
  "UTXO_wf u \<Longrightarrow> UTXO_coinsAtIndex u idx =
     (case UTXO_abs u idx of None \<Rightarrow> Inl (Error ''already spent!'') | Some c \<Rightarrow> Inr c)"
  by (auto simp: UTXO_coinsAtIndex_def UTXO_abs_def UTXO_wf_def map_of_zip_findIndex
      dest: findIndex_SomeD split: option.splits)

lemma UTXO_wf_new: "UTXO_new h = Inr u \<Longrightarrow> UTXO_wf u \<and> UTXO_abs u = Map.empty \<and> utxo_txHash u = h"
  by (auto simp: UTXO_new_def UTXO_wf_def UTXO_abs_def split: if_splits)

lemma UTXO_addCoins_cases:
  assumes "UTXO_wf u"
  shows "if UTXO_abs u idx = None
         then \<exists>u'. UTXO_addCoins idx c u = Inr u' \<and> UTXO_wf u' \<and>
              UTXO_abs u' = (UTXO_abs u)(idx \<mapsto> c) \<and> utxo_txHash u' = utxo_txHash u
         else UTXO_addCoins idx c u = Inl (Error ''already added!'')"
proof (cases "UTXO_abs u idx")
  case None
  then have "idx \<notin> set (utxo_arrIndexes u)" using dom_UTXO_abs [OF assms] by (metis domIff)
  with assms None show ?thesis
    by (simp add: UTXO_addCoins_def UTXO_wf_def UTXO_abs_def map_add_singleton_left map_of_zip_is_None
        findIndex_eq_None)
next
  case (Some d)
  then have "idx \<in> set (utxo_arrIndexes u)" using dom_UTXO_abs [OF assms] by (metis domI)
  with Some show ?thesis by (auto simp: UTXO_addCoins_def findIndex_None_iff)
qed

lemma UTXO_spendCoins_cases:
  assumes "UTXO_wf u"
  shows "if UTXO_abs u idx = None
         then UTXO_spendCoins idx u = Inl (Error ''already deleted!'')
         else \<exists>u'. UTXO_spendCoins idx u = Inr u' \<and> UTXO_wf u' \<and>
              UTXO_abs u' = (UTXO_abs u)(idx := None) \<and> utxo_txHash u' = utxo_txHash u"
proof (cases "findIndex (\<lambda>i. i = idx) (utxo_arrIndexes u)")
  case None
  with assms show ?thesis
    by (auto simp: UTXO_spendCoins_def UTXO_abs_def UTXO_wf_def map_of_zip_findIndex)
next
  case (Some i)
  with assms findIndex_SomeD [OF Some] show ?thesis
    by (auto simp: UTXO_spendCoins_def UTXO_abs_def UTXO_wf_def map_of_zip_splice1
        map_of_zip_findIndex length_splice1 distinct_splice1)
qed

lemma UTXO_spendCoins_InrD:
  "UTXO_spendCoins idx u = Inr u' \<Longrightarrow> UTXO_wf u \<Longrightarrow>
   UTXO_wf u' \<and> UTXO_abs u idx \<noteq> None \<and> UTXO_abs u' = (UTXO_abs u)(idx := None) \<and>
   utxo_txHash u' = utxo_txHash u"
  using UTXO_spendCoins_cases [of u idx] by (auto split: if_splits)

lemma UTXO_addCoins_InrD:
  "UTXO_addCoins idx c u = Inr u' \<Longrightarrow> UTXO_wf u \<Longrightarrow>
   UTXO_wf u' \<and> UTXO_abs u idx = None \<and> UTXO_abs u' = (UTXO_abs u)(idx \<mapsto> c) \<and>
   utxo_txHash u' = utxo_txHash u"
  using UTXO_addCoins_cases [of u idx c] by (auto split: if_splits)

interpretation us: spending UTXO_wf UTXO_abs "\<lambda>i. i" UTXO_spendCoins
  by unfold_locales (auto dest: UTXO_spendCoins_InrD)

section \<open>Reading a whole UTXO\<close>

lemma UTXO_abs_index:
  "UTXO_wf u \<Longrightarrow> idx \<in> set (utxo_arrIndexes u) \<Longrightarrow> \<exists>c. UTXO_abs u idx = Some c"
  using dom_UTXO_abs by fastforce

text \<open>The coins the model reads at an index known to be unspent.\<close>

definition UTXO_at :: "utxo \<Rightarrow> int \<Rightarrow> coins" where
  "UTXO_at u idx = the (UTXO_abs u idx)"

lemma UTXO_coinsAtIndex_at:
  "UTXO_wf u \<Longrightarrow> idx \<in> set (utxo_arrIndexes u) \<Longrightarrow> UTXO_coinsAtIndex u idx = Inr (UTXO_at u idx)"
  using UTXO_abs_index [of u idx] by (auto simp: UTXO_coinsAtIndex_abs UTXO_at_def)

lemma UTXO_everyEqual_eq:
  assumes "UTXO_wf u" and "UTXO_wf v" and "set idxs \<subseteq> set (utxo_arrIndexes u)"
    and "set idxs \<subseteq> set (utxo_arrIndexes v)"
  shows "UTXO_everyEqual u v idxs = Inr (\<forall>i\<in>set idxs. UTXO_at u i = UTXO_at v i)"
  using assms(3,4) by (induction idxs) (simp_all add: UTXO_coinsAtIndex_at assms(1,2))

lemma UTXO_abs_eq_iff:
  assumes "UTXO_wf u" and "UTXO_wf v"
  shows "UTXO_abs u = UTXO_abs v \<longleftrightarrow> set (utxo_arrIndexes u) = set (utxo_arrIndexes v) \<and>
     (\<forall>i\<in>set (utxo_arrIndexes u). UTXO_at u i = UTXO_at v i)"
proof
  assume "UTXO_abs u = UTXO_abs v"
  then show "set (utxo_arrIndexes u) = set (utxo_arrIndexes v) \<and>
     (\<forall>i\<in>set (utxo_arrIndexes u). UTXO_at u i = UTXO_at v i)"
    using dom_UTXO_abs assms by (metis UTXO_at_def)
next
  assume r: "set (utxo_arrIndexes u) = set (utxo_arrIndexes v) \<and>
     (\<forall>i\<in>set (utxo_arrIndexes u). UTXO_at u i = UTXO_at v i)"
  show "UTXO_abs u = UTXO_abs v"
  proof
    fix i
    show "UTXO_abs u i = UTXO_abs v i"
    proof (cases "i \<in> set (utxo_arrIndexes u)")
      case True
      with r UTXO_abs_index [OF assms(1)] UTXO_abs_index [OF assms(2)] show ?thesis
        by (metis UTXO_at_def option.sel)
    next
      case False
      with r dom_UTXO_abs assms show ?thesis by (metis domIff)
    qed
  qed
qed

lemma UTXO_equals_abs:
  assumes "UTXO_wf u" and "UTXO_wf v"
  shows "UTXO_equals u v = Inr (UTXO_abs u = UTXO_abs v)"
proof -
  have "arrayEquals (utxo_arrIndexes u) (utxo_arrIndexes v) \<longleftrightarrow>
      set (utxo_arrIndexes u) = set (utxo_arrIndexes v)"
    using assms by (intro arrayEquals_distinct) (simp_all add: UTXO_wf_def)
  then show ?thesis
    by (auto simp: UTXO_equals_def UTXO_getIndexes_def UTXO_everyEqual_eq [OF assms]
        UTXO_abs_eq_iff [OF assms])
qed

lemma UTXO_amountOut_sum:
  assumes "UTXO_wf u"
  shows "UTXO_amountOut u = Inr (\<Sum>i\<in>dom (UTXO_abs u). coins_amount (UTXO_at u i))"
proof -
  have d: "distinct (utxo_arrIndexes u)" using assms by (simp add: UTXO_wf_def)
  have "UTXO_amountOut u =
      Inr (fold (\<lambda>idx accum. accum + coins_amount (UTXO_at u idx)) (utxo_arrIndexes u) 0)"
    unfolding UTXO_amountOut_def
    by (rule foldR_total) (simp add: UTXO_coinsAtIndex_at assms Coins_getAmount_def)
  also have "fold (\<lambda>idx accum. accum + coins_amount (UTXO_at u idx)) is a =
      a + sum_list (map (\<lambda>idx. coins_amount (UTXO_at u idx)) is)" for "is" a
    by (induction "is" arbitrary: a) simp_all
  finally show ?thesis
    using d by (simp add: dom_UTXO_abs [OF assms] sum_list_distinct_conv_sum_set)
qed

lemma UTXO_getOutputsForAddress_eq:
  assumes "UTXO_wf u"
  shows "UTXO_getOutputsForAddress u address =
     Inr (map (\<lambda>i. (i, UTXO_at u i))
        (filter (\<lambda>i. coins_receiverAddr (UTXO_at u i) = address) (utxo_arrIndexes u)))"
proof -
  have "UTXO_getOutputsForAddress u address =
      Inr (fold (\<lambda>i acc. if coins_receiverAddr (UTXO_at u i) = address
                         then acc @ [(i, UTXO_at u i)] else acc) (utxo_arrIndexes u) [])"
    unfolding UTXO_getOutputsForAddress_def
    by (rule foldR_total) (simp add: UTXO_coinsAtIndex_at assms Coins_getReceiverAddr_def)
  moreover have "fold (\<lambda>i acc. if coins_receiverAddr (UTXO_at u i) = address
                         then acc @ [(i, UTXO_at u i)] else acc) is a =
      a @ map (\<lambda>i. (i, UTXO_at u i))
        (filter (\<lambda>i. coins_receiverAddr (UTXO_at u i) = address) is)" for "is" a
    by (induction "is" arbitrary: a) simp_all
  ultimately show ?thesis by simp
qed

text \<open>Adding fresh outputs one after the other succeeds and extends the map.\<close>

lemma UTXO_addCoins_list:
  assumes "UTXO_wf u" and "distinct (map fst ps)" and "fst ` set ps \<inter> dom (UTXO_abs u) = {}"
  shows "\<exists>u'. foldR (\<lambda>(idx, c). UTXO_addCoins idx c) ps u = Inr u' \<and> UTXO_wf u' \<and>
     UTXO_abs u' = UTXO_abs u ++ map_of ps \<and> utxo_txHash u' = utxo_txHash u"
  using assms
proof (induction ps arbitrary: u)
  case (Cons p ps)
  obtain idx c where p: "p = (idx, c)" by fastforce
  have "UTXO_abs u idx = None" using Cons.prems(3) p by auto
  with UTXO_addCoins_cases [OF Cons.prems(1), of idx c] obtain u1 where u1:
    "UTXO_addCoins idx c u = Inr u1" "UTXO_wf u1" "UTXO_abs u1 = (UTXO_abs u)(idx \<mapsto> c)"
    "utxo_txHash u1 = utxo_txHash u" by auto
  have "fst ` set ps \<inter> dom (UTXO_abs u1) = {}"
    using Cons.prems(2,3) p u1(3) by auto
  then obtain u' where u': "foldR (\<lambda>(idx, c). UTXO_addCoins idx c) ps u1 = Inr u'"
    "UTXO_wf u'" "UTXO_abs u' = UTXO_abs u1 ++ map_of ps" "utxo_txHash u' = utxo_txHash u1"
    using Cons.IH [OF u1(2)] Cons.prems(2) by auto
  have "UTXO_abs u1 ++ map_of ps = UTXO_abs u ++ map_of (p # ps)"
    using Cons.prems(2) p u1(3)
    by (simp add: map_add_upd_left dom_map_of_conv_image_fst)
  with u1 u' p show ?case by (simp add: map_add_upd del: fun_upd_apply)
qed simp

lemma UTXO_filter_abs:
  assumes "UTXO_wf u" and "utxo_txHash u \<noteq> []"
  shows "\<exists>v. UTXO_filterOutputsForAddress u address = Inr v \<and> UTXO_wf v \<and>
     utxo_txHash v = utxo_txHash u \<and>
     UTXO_abs v = (\<lambda>i. Option.bind (UTXO_abs u i)
        (\<lambda>c. if coins_receiverAddr c = address then Some c else None))"
proof -
  let ?is = "filter (\<lambda>i. coins_receiverAddr (UTXO_at u i) = address) (utxo_arrIndexes u)"
  let ?ps = "map (\<lambda>i. (i, UTXO_at u i)) ?is"
  obtain w where w: "UTXO_new (utxo_txHash u) = Inr w" using assms(2) by (simp add: UTXO_new_def)
  note nw = UTXO_wf_new [OF w]
  have "distinct (map fst ?ps)" using assms(1) by (simp add: UTXO_wf_def comp_def)
  with nw UTXO_addCoins_list [of w ?ps] obtain v where v:
    "foldR (\<lambda>(idx, c). UTXO_addCoins idx c) ?ps w = Inr v" "UTXO_wf v"
    "UTXO_abs v = map_of ?ps" "utxo_txHash v = utxo_txHash u" by auto
  have "map_of ?ps i = Option.bind (UTXO_abs u i)
        (\<lambda>c. if coins_receiverAddr c = address then Some c else None)" for i
  proof (cases "i \<in> set (utxo_arrIndexes u)")
    case True
    with UTXO_abs_index [OF assms(1) True] show ?thesis
      by (auto simp: map_of_map_restrict restrict_map_def UTXO_at_def)
  next
    case False
    with dom_UTXO_abs [OF assms(1)] have "UTXO_abs u i = None" by blast
    with False show ?thesis by (simp add: map_of_map_restrict restrict_map_def)
  qed
  with v w show ?thesis
    by (auto simp: UTXO_filterOutputsForAddress_def UTXO_getTxHash_def
        UTXO_getOutputsForAddress_eq [OF assms(1)])
qed

lemma UTXO_getReceivers_set:
  "UTXO_wf u \<Longrightarrow> set (UTXO_getReceivers u) = coins_receiverAddr ` ran (UTXO_abs u)"
proof -
  assume wf: "UTXO_wf u"
  have "set (fold (\<lambda>c. sadd (Coins_getReceiverAddr c)) cs acc) = coins_receiverAddr ` set cs \<union> set acc"
    for cs acc
    by (induction cs arbitrary: acc) (auto simp: Coins_getReceiverAddr_def)
  moreover have "ran (UTXO_abs u) = set (utxo_arrOutputs u)"
    using wf by (simp add: UTXO_abs_def UTXO_wf_def ran_map_of_zip)
  ultimately show ?thesis by (simp add: UTXO_getReceivers_def)
qed

lemma UTXO_getReceivers_distinct: "distinct (UTXO_getReceivers u)"
proof -
  have "distinct acc \<Longrightarrow> distinct (fold (\<lambda>c. sadd (Coins_getReceiverAddr c)) cs acc)" for cs acc
    by (induction cs arbitrary: acc) auto
  then show ?thesis by (simp add: UTXO_getReceivers_def)
qed

end
