(* ===== verification/Cil_Receipt.thy ===== *)
theory Cil_Receipt
  imports Cil_Utxo
begin

text \<open>
  \<open>src/structures/txReceipt.js\<close>: the outcome of a contract transaction. A field the sender leaves
  out has the default of its protobuf field, as \<open>txReceiptProto.create\<close> gives it.
\<close>

definition TX_STATUS_FAILED :: nat where "TX_STATUS_FAILED = 0"
definition TX_STATUS_OK :: nat where "TX_STATUS_OK = 1"

record receipt =
  rc_contractAddress :: addr
  rc_coinsUsed :: int
  rc_status :: nat
  rc_message :: string
  rc_internalTxns :: "hash list"
  rc_coins :: "coins list"

definition TxReceipt_new :: "addr \<Rightarrow> int \<Rightarrow> nat \<Rightarrow> string \<Rightarrow> receipt" where
  "TxReceipt_new contractAddress coinsUsed status message =
     \<lparr>rc_contractAddress = contractAddress, rc_coinsUsed = coinsUsed, rc_status = status,
      rc_message = message, rc_internalTxns = [], rc_coins = []\<rparr>"

definition TxReceipt_getContractAddress :: "receipt \<Rightarrow> addr" where
  "TxReceipt_getContractAddress r = rc_contractAddress r"

definition TxReceipt_getCoinsUsed :: "receipt \<Rightarrow> int" where
  "TxReceipt_getCoinsUsed r = rc_coinsUsed r"

definition TxReceipt_updateCoinsUsed :: "int \<Rightarrow> receipt \<Rightarrow> receipt" where
  "TxReceipt_updateCoinsUsed nNewValue r = r\<lparr>rc_coinsUsed := nNewValue\<rparr>"

definition TxReceipt_getStatus :: "receipt \<Rightarrow> nat" where
  "TxReceipt_getStatus r = rc_status r"

definition TxReceipt_setStatus :: "nat \<Rightarrow> receipt \<Rightarrow> receipt" where
  "TxReceipt_setStatus newStatus r = r\<lparr>rc_status := newStatus\<rparr>"

definition TxReceipt_isSuccessful :: "receipt \<Rightarrow> bool" where
  "TxReceipt_isSuccessful r = (rc_status r = TX_STATUS_OK)"

definition TxReceipt_getMessage :: "receipt \<Rightarrow> string" where
  "TxReceipt_getMessage r = rc_message r"

definition TxReceipt_merge :: "receipt \<Rightarrow> receipt \<Rightarrow> receipt res" where
  "TxReceipt_merge this receiptToMerge =
     (let r = this\<lparr>rc_internalTxns := rc_internalTxns this @ rc_internalTxns receiptToMerge,
                   rc_coins := rc_coins this @ rc_coins receiptToMerge\<rparr>
      in bindR (assertR (TxReceipt_getCoinsUsed receiptToMerge \<ge> TxReceipt_getCoinsUsed r)
                  (AssertionError ''receiptToMerge have more coinsUsed''))
         (\<lambda>_. let r = TxReceipt_updateCoinsUsed (TxReceipt_getCoinsUsed receiptToMerge) r
              in Inr (TxReceipt_setStatus
                   (if TxReceipt_isSuccessful receiptToMerge \<and> TxReceipt_isSuccessful r
                    then TX_STATUS_OK else TX_STATUS_FAILED) r)))"

definition TxReceipt_equals :: "receipt \<Rightarrow> receipt \<Rightarrow> bool" where
  "TxReceipt_equals r s = (r = s)"

definition TxReceipt_addInternalUtxo :: "utxo \<Rightarrow> receipt \<Rightarrow> receipt res" where
  "TxReceipt_addInternalUtxo u r =
     bindR (UTXO_coinsAtIndex u 0) (\<lambda>c.
       Inr (r\<lparr>rc_internalTxns := rc_internalTxns r @ [UTXO_getTxHash u],
              rc_coins := rc_coins r @ [c]\<rparr>))"

definition TxReceipt_getInternalTxns :: "receipt \<Rightarrow> hash list" where
  "TxReceipt_getInternalTxns r = rc_internalTxns r"

definition TxReceipt_getCoinsForTx :: "hash \<Rightarrow> receipt \<Rightarrow> coins res" where
  "TxReceipt_getCoinsForTx h r =
     (case findIndex (\<lambda>hashI. hashI = h) (rc_internalTxns r) of
        None \<Rightarrow> Inl (Error ''not found in receipt'')
      | Some idx \<Rightarrow> (if idx < length (rc_coins r) then Inr (rc_coins r ! idx)
                     else Inl (TypeError ''createFromData'')))"

text \<open>The two arrays run in parallel.\<close>

definition TxReceipt_wf :: "receipt \<Rightarrow> bool" where
  "TxReceipt_wf r \<longleftrightarrow> length (rc_internalTxns r) = length (rc_coins r)"

lemma TxReceipt_wf_new: "TxReceipt_wf (TxReceipt_new a n s m)"
  by (simp add: TxReceipt_wf_def TxReceipt_new_def)

lemma TxReceipt_wf_merge:
  "TxReceipt_wf r \<Longrightarrow> TxReceipt_wf s \<Longrightarrow> TxReceipt_merge r s = Inr t \<Longrightarrow> TxReceipt_wf t"
  by (auto simp: TxReceipt_merge_def TxReceipt_wf_def TxReceipt_setStatus_def
      TxReceipt_updateCoinsUsed_def Let_def)

lemma TxReceipt_wf_add:
  "TxReceipt_wf r \<Longrightarrow> TxReceipt_addInternalUtxo u r = Inr t \<Longrightarrow> TxReceipt_wf t"
  by (auto simp: TxReceipt_addInternalUtxo_def TxReceipt_wf_def)

lemma TxReceipt_merge_eq:
  "TxReceipt_merge r s =
     (if rc_coinsUsed s \<ge> rc_coinsUsed r
      then Inr (r\<lparr>rc_internalTxns := rc_internalTxns r @ rc_internalTxns s,
                  rc_coins := rc_coins r @ rc_coins s, rc_coinsUsed := rc_coinsUsed s,
                  rc_status := (if TxReceipt_isSuccessful s \<and> TxReceipt_isSuccessful r
                                then TX_STATUS_OK else TX_STATUS_FAILED)\<rparr>)
      else Inl (AssertionError ''receiptToMerge have more coinsUsed''))"
  by (simp add: TxReceipt_merge_def TxReceipt_setStatus_def TxReceipt_updateCoinsUsed_def
      TxReceipt_getCoinsUsed_def TxReceipt_isSuccessful_def Let_def)

lemma findIndex_append_new:
  "x \<notin> set xs \<Longrightarrow> findIndex (\<lambda>y. y = x) (xs @ [x]) = Some (length xs)"
  by (induction xs) auto

lemma findIndex_append_old:
  "y \<noteq> x \<Longrightarrow> findIndex (\<lambda>z. z = y) (xs @ [x]) = findIndex (\<lambda>z. z = y) xs"
  by (induction xs) auto

lemma TxReceipt_addInternal_get:
  assumes "TxReceipt_wf r" and "TxReceipt_addInternalUtxo u r = Inr t"
    and "utxo_txHash u \<notin> set (rc_internalTxns r)"
  shows "TxReceipt_getCoinsForTx h t =
     (if h = utxo_txHash u then UTXO_coinsAtIndex u 0 else TxReceipt_getCoinsForTx h r)"
proof (cases "h = utxo_txHash u")
  case True
  with assms show ?thesis
    by (auto simp: TxReceipt_addInternalUtxo_def TxReceipt_getCoinsForTx_def UTXO_getTxHash_def
        TxReceipt_wf_def findIndex_append_new)
next
  case False
  then have "h \<noteq> utxo_txHash u" by simp
  note fi = findIndex_append_old [OF this]
  show ?thesis
  proof (cases "findIndex (\<lambda>z. z = h) (rc_internalTxns r)")
    case None
    with False fi assms show ?thesis
      by (auto simp: TxReceipt_addInternalUtxo_def TxReceipt_getCoinsForTx_def UTXO_getTxHash_def)
  next
    case (Some i)
    with findIndex_SomeD [OF Some] False fi assms show ?thesis
      by (auto simp: TxReceipt_addInternalUtxo_def TxReceipt_getCoinsForTx_def UTXO_getTxHash_def
          TxReceipt_wf_def nth_append)
  qed
qed

end
