(* ===== verification/Cil_Contract.thy ===== *)
theory Cil_Contract
  imports Cil_Utxo
begin

text \<open>
  \<open>src/structures/contract.js\<close>: contract data kept twice, decoded (\<open>_cacheData\<close>) and encoded
  (\<open>_data.contractData\<close>), with a flag that says which copy is current. The two serializers
  (\<open>JSON\<close> and \<open>v8\<close>) are the platform's, so they are parameters. Protobuf encoding keeps the fields
  it encodes, so \<open>clone\<close>, which encodes and decodes, keeps the fields of \<open>_data\<close> and drops the caches
  and flags. A proxied contract (\<open>proxyContract\<close>, used for delegated calls) is not modelled here:
  the balance is the contract's own.
\<close>

text \<open>The decoded data is a value of the type parameter; code is an object of method bodies.\<close>

record 'd serializers =
  serializeContractDataJson :: "'d \<Rightarrow> string"
  deSerializeContractDataJson :: "string \<Rightarrow> 'd res"
  serializeContractDataV8 :: "'d \<Rightarrow> string"
  deSerializeContractDataV8 :: "string \<Rightarrow> 'd res"
  emptyData :: 'd

type_synonym code = "(string, string) jsmap"

definition CONTRACT_V_JSON :: nat where "CONTRACT_V_JSON = 2"
definition CONTRACT_V_V8 :: nat where "CONTRACT_V_V8 = 0"

record 'd contract =
  ct_contractData :: "string option"
  ct_contractCode :: "code option"
  ct_conciliumId :: "nat option"
  ct_balance :: int
  ct_version :: nat
  ct_cacheData :: "'d option"
  ct_cacheCode :: "code option"
  ct_bDataModified :: bool
  ct_bPatched :: bool
  ct_strAddress :: "addr option"

text \<open>
  The two forms of the constructor: from an object (contract creation) and from the encoded
  fields (a contract read from storage). Code given as an object is cached; code read from
  storage is decoded on demand.
\<close>

definition Contract_new ::
    "'d serializers \<Rightarrow> 'd option \<Rightarrow> code option \<Rightarrow> nat option \<Rightarrow> int \<Rightarrow> addr option \<Rightarrow> nat \<Rightarrow> 'd contract"
where
  "Contract_new S contractData contractCode conciliumId balance strContractAddr nContractVersion =
     \<lparr>ct_contractData = None, ct_contractCode = None, ct_conciliumId = conciliumId,
      ct_balance = balance, ct_version = nContractVersion,
      ct_cacheData = Some (case contractData of None \<Rightarrow> emptyData S | Some d \<Rightarrow> d),
      ct_cacheCode = contractCode, ct_bDataModified = True, ct_bPatched = False,
      ct_strAddress = strContractAddr\<rparr>"

definition Contract_decode ::
    "string option \<Rightarrow> code option \<Rightarrow> nat option \<Rightarrow> int \<Rightarrow> nat \<Rightarrow> addr option \<Rightarrow> 'd contract" where
  "Contract_decode contractData contractCode conciliumId balance version strContractAddr =
     \<lparr>ct_contractData = contractData, ct_contractCode = contractCode, ct_conciliumId = conciliumId,
      ct_balance = balance, ct_version = version, ct_cacheData = None, ct_cacheCode = None,
      ct_bDataModified = False, ct_bPatched = False, ct_strAddress = strContractAddr\<rparr>"

section \<open>Accessors\<close>

definition Contract_getVersion :: "'d contract \<Rightarrow> nat" where
  "Contract_getVersion c = ct_version c"

definition Contract_setVersion :: "nat \<Rightarrow> 'd contract \<Rightarrow> 'd contract" where
  "Contract_setVersion nVersion c = c\<lparr>ct_version := nVersion\<rparr>"

definition Contract_isDataModified :: "'d contract \<Rightarrow> bool" where
  "Contract_isDataModified c = ct_bDataModified c"

definition Contract_getConciliumId :: "'d contract \<Rightarrow> nat option" where
  "Contract_getConciliumId c = ct_conciliumId c"

definition Contract_setConciliumId :: "nat \<Rightarrow> 'd contract \<Rightarrow> 'd contract" where
  "Contract_setConciliumId nConciliumId c = c\<lparr>ct_conciliumId := Some nConciliumId\<rparr>"

definition Contract_storeAddress :: "addr \<Rightarrow> 'd contract \<Rightarrow> 'd contract" where
  "Contract_storeAddress address c = c\<lparr>ct_strAddress := Some address\<rparr>"

definition Contract_getStoredAddress :: "'d contract \<Rightarrow> addr res" where
  "Contract_getStoredAddress c =
     (case ct_strAddress c of
        None \<Rightarrow> Inl (AssertionError ''Contract address not specified!'')
      | Some a \<Rightarrow> (if a = [] then Inl (AssertionError ''Contract address not specified!'') else Inr a))"

definition Contract_getCode :: "'d contract \<Rightarrow> code option \<times> 'd contract" where
  "Contract_getCode c =
     (case ct_cacheCode c of
        Some code \<Rightarrow> (Some code, c)
      | None \<Rightarrow> (ct_contractCode c, c\<lparr>ct_cacheCode := ct_contractCode c\<rparr>))"

section \<open>Serialization\<close>

definition Contract_serialize :: "'d serializers \<Rightarrow> 'd contract \<Rightarrow> 'd \<Rightarrow> string" where
  "Contract_serialize S c objData =
     (if Contract_getVersion c = CONTRACT_V_JSON then serializeContractDataJson S objData
      else serializeContractDataV8 S objData)"

definition Contract_deserialize :: "'d serializers \<Rightarrow> 'd contract \<Rightarrow> 'd res" where
  "Contract_deserialize S c =
     (let buff = (case ct_contractData c of None \<Rightarrow> [] | Some b \<Rightarrow> b)
      in if Contract_getVersion c = CONTRACT_V_JSON then deSerializeContractDataJson S buff
         else deSerializeContractDataV8 S buff)"

definition Contract_getSizeOfEmptyData :: "'d serializers \<Rightarrow> 'd contract \<Rightarrow> nat" where
  "Contract_getSizeOfEmptyData S c =
     (if Contract_getVersion c = CONTRACT_V_JSON
      then length (serializeContractDataJson S (emptyData S))
      else length (serializeContractDataV8 S (emptyData S)))"

definition Contract_invalidateEncodedData :: "'d contract \<Rightarrow> 'd contract" where
  "Contract_invalidateEncodedData c = c\<lparr>ct_contractData := None\<rparr>"

definition Contract_ensureData :: "'d serializers \<Rightarrow> 'd contract \<Rightarrow> 'd contract" where
  "Contract_ensureData S c =
     (case (ct_contractData c, ct_cacheData c) of
        (None, Some d) \<Rightarrow> c\<lparr>ct_contractData := Some (Contract_serialize S c d)\<rparr>
      | _ \<Rightarrow> c)"

definition Contract_getData :: "'d serializers \<Rightarrow> 'd contract \<Rightarrow> ('d \<times> 'd contract) res" where
  "Contract_getData S c =
     (case ct_cacheData c of
        Some d \<Rightarrow> Inr (d, c)
      | None \<Rightarrow> bindR (Contract_deserialize S c) (\<lambda>d. Inr (d, c\<lparr>ct_cacheData := Some d\<rparr>)))"

definition Contract_getDataBuffer :: "'d serializers \<Rightarrow> 'd contract \<Rightarrow> string res" where
  "Contract_getDataBuffer S c =
     (case ct_contractData c of
        Some b \<Rightarrow>
          (if \<not> Contract_isDataModified c \<and> b \<noteq> [] then Inr b
           else (case ct_cacheData c of
                   Some d \<Rightarrow> Inr (Contract_serialize S c d)
                 | None \<Rightarrow> Inl (Thrown ''Unexpected situation'')))
      | None \<Rightarrow>
          (case ct_cacheData c of
             Some d \<Rightarrow> Inr (Contract_serialize S c d)
           | None \<Rightarrow> Inl (Thrown ''Unexpected situation'')))"

definition Contract_getDataSize :: "'d serializers \<Rightarrow> 'd contract \<Rightarrow> int \<times> 'd contract" where
  "Contract_getDataSize S c =
     (let c = Contract_ensureData S c;
          nDataSize = (case ct_contractData c of None \<Rightarrow> 0 | Some b \<Rightarrow> int (length b));
          result = nDataSize - int (Contract_getSizeOfEmptyData S c)
      in (if result > 0 then result else 0, c))"

definition Contract_updateData :: "'d \<Rightarrow> 'd contract \<Rightarrow> 'd contract" where
  "Contract_updateData data c =
     Contract_invalidateEncodedData (c\<lparr>ct_bDataModified := True, ct_cacheData := Some data\<rparr>)"

text \<open>
  \<open>encode\<close> fills in the encoded fields; the bytes are protobuf's, so what the model keeps is the
  state \<open>encode\<close> leaves behind, and \<open>clone\<close> decodes its fields.
\<close>

definition Contract_encode :: "'d serializers \<Rightarrow> 'd contract \<Rightarrow> 'd contract" where
  "Contract_encode S c =
     (let c = Contract_ensureData S c
      in case (ct_contractCode c, ct_cacheCode c) of
           (None, Some code) \<Rightarrow> c\<lparr>ct_contractCode := Some code\<rparr>
         | _ \<Rightarrow> c)"

definition Contract_clone :: "'d serializers \<Rightarrow> 'd contract \<Rightarrow> 'd contract" where
  "Contract_clone S c =
     (let e = Contract_encode S c
      in Contract_decode (ct_contractData e) (ct_contractCode e) (ct_conciliumId e) (ct_balance e)
           (ct_version e) (ct_strAddress e))"

definition Contract_switchSerializerToJson :: "'d serializers \<Rightarrow> 'd contract \<Rightarrow> 'd contract res" where
  "Contract_switchSerializerToJson S c =
     bindR (Contract_getData S c) (\<lambda>(_, c).
       Inr (Contract_invalidateEncodedData (Contract_setVersion CONTRACT_V_JSON c)))"

definition Contract_switchSerializerToOld :: "'d serializers \<Rightarrow> 'd contract \<Rightarrow> 'd contract res" where
  "Contract_switchSerializerToOld S c =
     bindR (Contract_getData S c) (\<lambda>(_, c).
       Inr (Contract_invalidateEncodedData (Contract_setVersion CONTRACT_V_V8 c)))"

definition Contract_dirtyWorkaround :: "'d serializers \<Rightarrow> 'd contract \<Rightarrow> 'd contract res" where
  "Contract_dirtyWorkaround S c =
     (if \<not> ct_bPatched c \<and> Contract_getVersion c \<noteq> CONTRACT_V_JSON \<and> \<not> Contract_isDataModified c
      then Inr c
      else bindR (Contract_getData S c) (\<lambda>(d, c).
        let c = Contract_setVersion CONTRACT_V_V8 c
        in bindR (deSerializeContractDataV8 S (serializeContractDataV8 S d)) (\<lambda>objData.
             Inr (c\<lparr>ct_contractData := Some (serializeContractDataV8 S objData),
                    ct_cacheData := None, ct_bPatched := True\<rparr>))))"

section \<open>Balance\<close>

definition Contract_getBalance :: "'d contract \<Rightarrow> int" where
  "Contract_getBalance c = ct_balance c"

definition Contract_deposit :: "int \<Rightarrow> 'd contract \<Rightarrow> 'd contract" where
  "Contract_deposit amount c = c\<lparr>ct_balance := ct_balance c + amount\<rparr>"

definition Contract_withdraw :: "int \<Rightarrow> 'd contract \<Rightarrow> 'd contract res" where
  "Contract_withdraw amount c =
     (if Contract_getBalance c < amount then Inl (Error ''Insufficient funds!'')
      else Inr (Contract_deposit (0 - amount) c))"

section \<open>Laws\<close>

text \<open>
  What the platform's serializers promise: decoding returns what was encoded, and an encoding is
  never empty.
\<close>

definition serializers_ok :: "'d serializers \<Rightarrow> bool" where
  "serializers_ok S \<longleftrightarrow>
     (\<forall>d. deSerializeContractDataJson S (serializeContractDataJson S d) = Inr d) \<and>
     (\<forall>d. deSerializeContractDataV8 S (serializeContractDataV8 S d) = Inr d) \<and>
     (\<forall>d. serializeContractDataJson S d \<noteq> []) \<and> (\<forall>d. serializeContractDataV8 S d \<noteq> [])"

text \<open>
  The copies agree: what is encoded, unless it is stale, decodes to what is cached. A stale
  encoding (\<open>dirtyWorkaround\<close> leaves one with the flag set) is only kept when no data is cached.
\<close>

definition Contract_wf :: "'d serializers \<Rightarrow> 'd contract \<Rightarrow> bool" where
  "Contract_wf S c \<longleftrightarrow>
     (case (ct_contractData c, ct_cacheData c) of
        (None, None) \<Rightarrow> False
      | (None, Some _) \<Rightarrow> True
      | (Some b, None) \<Rightarrow> b \<noteq> [] \<and> (\<exists>d. Contract_deserialize S c = Inr d)
      | (Some b, Some d) \<Rightarrow> b \<noteq> [] \<and> Contract_deserialize S c = Inr d)"

lemma Contract_getData_total: "Contract_wf S c \<Longrightarrow> \<exists>d c'. Contract_getData S c = Inr (d, c')"
  by (auto simp: Contract_wf_def Contract_getData_def split: option.splits)

lemma Contract_getData_cached:
  "Contract_getData S c = Inr (d, c') \<Longrightarrow> ct_cacheData c' = Some d \<and> ct_balance c' = ct_balance c \<and>
     ct_conciliumId c' = ct_conciliumId c \<and> ct_version c' = ct_version c \<and>
     ct_contractData c' = ct_contractData c \<and> ct_strAddress c' = ct_strAddress c"
  by (auto simp: Contract_getData_def split: option.splits)

lemma Contract_deserialize_cong:
  "ct_contractData c = ct_contractData c' \<Longrightarrow> ct_version c = ct_version c' \<Longrightarrow>
   Contract_deserialize S c = Contract_deserialize S c'"
  by (simp add: Contract_deserialize_def Contract_getVersion_def)

lemma Contract_wf_getData:
  "Contract_wf S c \<Longrightarrow> Contract_getData S c = Inr (d, c') \<Longrightarrow> Contract_wf S c'"
  by (auto simp: Contract_wf_def Contract_getData_def
      Contract_deserialize_cong [of c "c\<lparr>ct_cacheData := x\<rparr>" S for x] split: option.splits)
     (auto simp: Contract_deserialize_def Contract_getVersion_def split: option.splits)

lemma Contract_wf_new: "Contract_wf S (Contract_new S d code cid b a v)"
  by (simp add: Contract_wf_def Contract_new_def)

lemma Contract_wf_updateData: "Contract_wf S (Contract_updateData d c)"
  by (simp add: Contract_wf_def Contract_updateData_def Contract_invalidateEncodedData_def)

lemma Contract_getData_updateData:
  "Contract_getData S (Contract_updateData d c) = Inr (d, Contract_updateData d c)"
  by (simp add: Contract_getData_def Contract_updateData_def Contract_invalidateEncodedData_def)

lemma Contract_deserialize_ensureData:
  assumes "serializers_ok S" and "ct_contractData c = None" and "ct_cacheData c = Some d"
  shows "Contract_deserialize S (Contract_ensureData S c) = Inr d"
  using assms
  by (auto simp: Contract_deserialize_def Contract_ensureData_def serializers_ok_def
      Contract_serialize_def Contract_getVersion_def Let_def)

lemma Contract_wf_ensureData:
  assumes "serializers_ok S" and "Contract_wf S c"
  shows "Contract_wf S (Contract_ensureData S c)"
proof (cases "ct_contractData c")
  case None
  with assms(2) obtain d where d: "ct_cacheData c = Some d"
    by (auto simp: Contract_wf_def split: option.splits)
  from Contract_deserialize_ensureData [OF assms(1) None d] None d assms(1) show ?thesis
    by (auto simp: Contract_wf_def Contract_ensureData_def Contract_serialize_def
        serializers_ok_def split: option.splits)
next
  case (Some b)
  with assms show ?thesis by (simp add: Contract_ensureData_def)
qed

text \<open>\<open>clone\<close> preserves everything a caller can observe but the \<open>modified\<close> flag.\<close>

lemma Contract_clone_data:
  assumes S: "serializers_ok S" and wf: "Contract_wf S c" and d: "Contract_getData S c = Inr (d, c')"
  shows "\<exists>c''. Contract_getData S (Contract_clone S c) = Inr (d, c'')"
proof (cases "ct_contractData c")
  case None
  with wf obtain d' where d': "ct_cacheData c = Some d'"
    by (auto simp: Contract_wf_def split: option.splits)
  with d have [simp]: "d' = d" by (simp add: Contract_getData_def)
  from S show ?thesis using None d'
    by (auto simp: Contract_clone_def Contract_encode_def Contract_ensureData_def
        Contract_decode_def Contract_getData_def Contract_deserialize_def Contract_serialize_def
        Contract_getVersion_def serializers_ok_def Let_def split: option.splits)
next
  case (Some b)
  have "Contract_deserialize S c = Inr d"
    using wf d Some by (auto simp: Contract_wf_def Contract_getData_def split: option.splits)
  then show ?thesis using Some
    by (auto simp: Contract_clone_def Contract_encode_def Contract_ensureData_def
        Contract_decode_def Contract_getData_def Contract_deserialize_def
        Contract_getVersion_def Let_def split: option.splits)
qed

lemma Contract_clone_fields [simp]:
  "ct_balance (Contract_clone S c) = ct_balance c"
  "ct_conciliumId (Contract_clone S c) = ct_conciliumId c"
  "ct_version (Contract_clone S c) = ct_version c"
  "ct_strAddress (Contract_clone S c) = ct_strAddress c"
  by (auto simp: Contract_clone_def Contract_encode_def Contract_ensureData_def
      Contract_decode_def Let_def split: option.splits)

lemma Contract_updateData_fields [simp]:
  "ct_balance (Contract_updateData d c) = ct_balance c"
  "ct_conciliumId (Contract_updateData d c) = ct_conciliumId c"
  "ct_strAddress (Contract_updateData d c) = ct_strAddress c"
  by (simp_all add: Contract_updateData_def Contract_invalidateEncodedData_def)

lemma Contract_wf_clone:
  assumes "serializers_ok S" and "Contract_wf S c"
  shows "Contract_wf S (Contract_clone S c)"
proof -
  have "Contract_wf S (Contract_ensureData S c)" by (rule Contract_wf_ensureData [OF assms])
  moreover have "ct_contractData (Contract_ensureData S c) \<noteq> None"
    using assms(2) by (auto simp: Contract_wf_def Contract_ensureData_def split: option.splits)
  ultimately show ?thesis
    by (auto simp: Contract_wf_def Contract_clone_def Contract_encode_def Contract_decode_def
        Contract_deserialize_def Contract_getVersion_def Let_def split: option.splits)
qed

end
