(* ===== verification/Cil_Transaction.thy ===== *)
theory Cil_Transaction
  imports Cil_Utxo
begin

text \<open>
  \<open>src/structures/transaction.js\<close>. A transaction is its payload (the part that is hashed and
  signed), an array of claim proofs and an optional signature of the whole payload. The protobuf
  encoding followed by the hash, and the elliptic-curve operations of \<open>crypto.js\<close>, come from
  outside the repository: they are the fields of the record \<open>crypto\<close>, a parameter of every
  operation that uses them. Buffers are the strings of their hexadecimal digits, so a transaction
  hash has 64 characters and an address 40.
\<close>

section \<open>Data\<close>

record tx_input =
  in_txHash :: hash
  in_nTxOutput :: int

record tx_output =
  out_amount :: int
  out_receiverAddr :: addr
  out_contractCode :: "string option"
  out_addrChangeReceiver :: "addr option"

record tx_payload =
  pl_version :: nat
  pl_conciliumId :: nat
  pl_ins :: "tx_input list"
  pl_outs :: "tx_output list"

text \<open>
  \<open>None\<close> in \<open>tx_claimProofs\<close> is a hole of the array (an index that was never assigned);
  \<open>tx_txSignature\<close> is \<open>None\<close> for \<open>undefined\<close> and for the empty array that stands for an absent
  field of a decoded message, \<open>Some s\<close> for a \<open>Buffer\<close>.
\<close>

record tx =
  tx_payload :: tx_payload
  tx_claimProofs :: "string option list"
  tx_txSignature :: "string option"

record crypto =
  cr_txHash :: "tx_payload \<Rightarrow> hash"
  cr_sign :: "hash \<Rightarrow> string \<Rightarrow> string"
  cr_recoverPubKey :: "hash \<Rightarrow> string \<Rightarrow> string res"
  cr_getAddress :: "string \<Rightarrow> addr"

definition CURRENT_TX_VERSION :: nat where "CURRENT_TX_VERSION = 1"

text \<open>\<open>Buffer.alloc(32)\<close> and \<open>Crypto.getAddrContractCreation()\<close> in hexadecimal.\<close>

definition ZERO_HASH :: hash where "ZERO_HASH = replicate 64 CHR ''0''"
definition getAddrContractCreation :: addr where "getAddrContractCreation = replicate 40 CHR ''0''"

definition isHash256 :: "string \<Rightarrow> bool" where "isHash256 h = (length h = 64)"
definition isAddress :: "string \<Rightarrow> bool" where "isAddress a = (length a = 40)"

section \<open>Operations\<close>

text \<open>\<open>new Transaction()\<close>: the constructor's third branch.\<close>

definition Transaction_new :: tx where
  "Transaction_new =
     \<lparr>tx_payload = \<lparr>pl_version = CURRENT_TX_VERSION, pl_conciliumId = 0, pl_ins = [], pl_outs = []\<rparr>,
      tx_claimProofs = [], tx_txSignature = None\<rparr>"

definition Transaction_setConciliumId :: "nat \<Rightarrow> tx \<Rightarrow> tx" where
  "Transaction_setConciliumId cid t = t\<lparr>tx_payload := (tx_payload t)\<lparr>pl_conciliumId := cid\<rparr>\<rparr>"

definition Transaction_conciliumId :: "tx \<Rightarrow> nat" where
  "Transaction_conciliumId t = pl_conciliumId (tx_payload t)"

definition Transaction_inputs :: "tx \<Rightarrow> tx_input list" where
  "Transaction_inputs t = pl_ins (tx_payload t)"

definition Transaction_outputs :: "tx \<Rightarrow> tx_output list" where
  "Transaction_outputs t = pl_outs (tx_payload t)"

definition Transaction_utxos :: "tx \<Rightarrow> hash list" where
  "Transaction_utxos t = map in_txHash (Transaction_inputs t)"

definition Transaction_getHash :: "crypto \<Rightarrow> tx \<Rightarrow> hash" where
  "Transaction_getHash C t = cr_txHash C (tx_payload t)"

definition Transaction_getTxSignature :: "tx \<Rightarrow> string option" where
  "Transaction_getTxSignature t = tx_txSignature t"

definition Transaction_checkDone :: "tx \<Rightarrow> unit res" where
  "Transaction_checkDone t =
     assertR (Transaction_getTxSignature t = None \<and> tx_claimProofs t = [])
       (Error ''Tx is already signed, you can't modify it'')"

definition Transaction_addInput :: "hash \<Rightarrow> int \<Rightarrow> tx \<Rightarrow> tx res" where
  "Transaction_addInput strHash index t =
     bindR (typeforce (isHash256 strHash)) (\<lambda>_.
     bindR (Transaction_checkDone t) (\<lambda>_.
     Inr (t\<lparr>tx_payload := (tx_payload t)
       \<lparr>pl_ins := pl_ins (tx_payload t) @ [\<lparr>in_txHash = strHash, in_nTxOutput = index\<rparr>]\<rparr>\<rparr>)))"

definition Transaction_pushOutput :: "tx_output \<Rightarrow> tx \<Rightarrow> tx" where
  "Transaction_pushOutput out t =
     t\<lparr>tx_payload := (tx_payload t)\<lparr>pl_outs := pl_outs (tx_payload t) @ [out]\<rparr>\<rparr>"

definition plainOutput :: "int \<Rightarrow> addr \<Rightarrow> tx_output" where
  "plainOutput amount addr =
     \<lparr>out_amount = amount, out_receiverAddr = addr, out_contractCode = None,
      out_addrChangeReceiver = None\<rparr>"

definition Transaction_addReceiver :: "int \<Rightarrow> addr \<Rightarrow> tx \<Rightarrow> tx res" where
  "Transaction_addReceiver amount addr t =
     bindR (typeforce (isAddress addr)) (\<lambda>_.
     bindR (Transaction_checkDone t) (\<lambda>_.
     Inr (Transaction_pushOutput (plainOutput amount addr) t)))"

text \<open>\<open>createCoinbase\<close> adds its input through \<open>addInput\<close>, which cannot throw here.\<close>

definition Transaction_createCoinbase :: "tx res" where
  "Transaction_createCoinbase = Transaction_addInput ZERO_HASH 0 Transaction_new"

definition Transaction_createContract :: "string \<Rightarrow> addr option \<Rightarrow> tx" where
  "Transaction_createContract strCode addrChangeReceiver =
     Transaction_pushOutput
       \<lparr>out_amount = 0, out_receiverAddr = getAddrContractCreation,
        out_contractCode = Some strCode, out_addrChangeReceiver = addrChangeReceiver\<rparr>
       Transaction_new"

text \<open>The invocation object reaches the output as the string \<open>JSON.stringify\<close> makes of it.\<close>

definition Transaction_invokeContract :: "addr \<Rightarrow> string \<Rightarrow> int \<Rightarrow> addr option \<Rightarrow> tx res" where
  "Transaction_invokeContract strContractAddr strInvokeCode amount addrChangeReceiver =
     bindR (typeforce (isAddress strContractAddr)) (\<lambda>_.
     Inr (Transaction_pushOutput
       \<lparr>out_amount = amount, out_receiverAddr = strContractAddr,
        out_contractCode = Some strInvokeCode, out_addrChangeReceiver = addrChangeReceiver\<rparr>
       Transaction_new))"

definition Transaction_getOutCoins :: "tx \<Rightarrow> coins list" where
  "Transaction_getOutCoins t =
     map (\<lambda>out. Coins_new (out_amount out) (out_receiverAddr out)) (Transaction_outputs t)"

text \<open>Assignment to an index of an array; an index past the end leaves holes.\<close>

definition assignAt :: "nat \<Rightarrow> 'a \<Rightarrow> 'a option list \<Rightarrow> 'a option list" where
  "assignAt i x xs = (xs @ replicate (Suc i - length xs) None)[i := Some x]"

definition Transaction_claim :: "crypto \<Rightarrow> nat \<Rightarrow> string \<Rightarrow> tx \<Rightarrow> tx res" where
  "Transaction_claim C idx key t =
     (if idx > length (Transaction_inputs t)
      then Inl (Error ''Bad index: greater than inputs length'')
      else Inr (t\<lparr>tx_claimProofs :=
        assignAt idx (cr_sign C (Transaction_getHash C t) key) (tx_claimProofs t)\<rparr>))"

definition Transaction_signForContract :: "crypto \<Rightarrow> string \<Rightarrow> tx \<Rightarrow> tx" where
  "Transaction_signForContract C key t =
     t\<lparr>tx_txSignature := Some (cr_sign C (Transaction_getHash C t) key)\<rparr>"

definition Transaction_signAllInputs :: "crypto \<Rightarrow> string \<Rightarrow> tx \<Rightarrow> tx res" where
  "Transaction_signAllInputs C key t =
     (if tx_claimProofs t \<noteq> []
      then Inl (Thrown ''You should choose: \"signAllInputs\" or claim per input'')
      else Inr (Transaction_signForContract C key t))"

definition Transaction_getTxSignerAddress :: "crypto \<Rightarrow> tx \<Rightarrow> addr option" where
  "Transaction_getTxSignerAddress C t =
     (case Transaction_getTxSignature t of
        None \<Rightarrow> None
      | Some sig \<Rightarrow>
          (case cr_recoverPubKey C (Transaction_getHash C t) sig of
             Inl _ \<Rightarrow> None
           | Inr pubKey \<Rightarrow> Some (cr_getAddress C pubKey)))"

text \<open>
  \<open>every\<close> skips holes; \<open>Buffer.equals\<close> raises a \<open>TypeError\<close> on \<open>undefined\<close>, which is what the
  other transaction's array gives at a hole and past its end.
\<close>

fun proofsEqual :: "nat \<Rightarrow> string option list \<Rightarrow> string option list \<Rightarrow> bool res" where
  "proofsEqual i [] other = Inr True"
| "proofsEqual i (None # ps) other = proofsEqual (Suc i) ps other"
| "proofsEqual i (Some p # ps) other =
     (if i < length other then
        (case other ! i of
           None \<Rightarrow> Inl (TypeError ''argument must be a Buffer'')
         | Some q \<Rightarrow> if p = q then proofsEqual (Suc i) ps other else Inr False)
      else Inl (TypeError ''argument must be a Buffer''))"

definition Transaction_equals :: "crypto \<Rightarrow> tx \<Rightarrow> tx \<Rightarrow> bool res" where
  "Transaction_equals C t txToCompare =
     (if Transaction_getHash C t = Transaction_getHash C txToCompare
      then proofsEqual 0 (tx_claimProofs t) (tx_claimProofs txToCompare)
      else Inr False)"

definition truthyStr :: "string option \<Rightarrow> bool" where
  "truthyStr s = (case s of None \<Rightarrow> False | Some c \<Rightarrow> c \<noteq> [])"

definition Transaction_verify :: "tx \<Rightarrow> unit res" where
  "Transaction_verify t =
     bindR (assertR
       (Transaction_inputs t \<noteq> [] \<and>
        list_all (\<lambda>input. in_txHash input \<noteq> ZERO_HASH \<and> in_nTxOutput input \<ge> 0)
          (Transaction_inputs t))
       (AssertionError ''Errors in input'')) (\<lambda>_.
     bindR (assertR
       (list_all (\<lambda>output. truthyStr (out_contractCode output) \<or> out_amount output > 0)
          (Transaction_outputs t))
       (AssertionError ''Errors in outputs'')) (\<lambda>_.
     assertR
       (length (tx_claimProofs t) = length (Transaction_inputs t)
        \<or> Transaction_getTxSignature t \<noteq> None)
       (AssertionError ''Errors in clamProofs'')))"

definition Transaction_isCoinbase :: "tx \<Rightarrow> bool" where
  "Transaction_isCoinbase t =
     (case Transaction_inputs t of
        [input] \<Rightarrow> in_txHash input = ZERO_HASH \<and> in_nTxOutput input = 0
      | _ \<Rightarrow> False)"

definition Transaction_amountOut :: "tx \<Rightarrow> int" where
  "Transaction_amountOut t = foldl (\<lambda>accum out. accum + out_amount out) 0 (Transaction_outputs t)"

definition Transaction_verifyCoinbase :: "int \<Rightarrow> tx \<Rightarrow> unit res" where
  "Transaction_verifyCoinbase blockFees t =
     bindR (assertR (Transaction_isCoinbase t) (AssertionError ''Not a coinbase TX!'')) (\<lambda>_.
     assertR (Transaction_amountOut t = blockFees) (AssertionError ''Bad amount in coinbase!''))"

text \<open>Reading a property of the missing first output raises a \<open>TypeError\<close>.\<close>

definition Transaction_isContractCreation :: "tx \<Rightarrow> bool res" where
  "Transaction_isContractCreation t =
     (case Transaction_getOutCoins t of
        [] \<Rightarrow> Inl (TypeError ''Cannot read property'')
      | c # _ \<Rightarrow> Inr (Coins_getReceiverAddr c = getAddrContractCreation))"

definition Transaction_getContractOutput :: "tx \<Rightarrow> tx_output res" where
  "Transaction_getContractOutput t =
     (case Transaction_outputs t of
        [] \<Rightarrow> Inl (TypeError ''Cannot read property'')
      | out # _ \<Rightarrow> Inr out)"

definition Transaction_getContractCode :: "tx \<Rightarrow> string option res" where
  "Transaction_getContractCode t = mapR out_contractCode (Transaction_getContractOutput t)"

definition Transaction_getContractAddr :: "tx \<Rightarrow> addr res" where
  "Transaction_getContractAddr t = mapR out_receiverAddr (Transaction_getContractOutput t)"

definition Transaction_getContractChangeReceiver :: "tx \<Rightarrow> addr option res" where
  "Transaction_getContractChangeReceiver t =
     mapR out_addrChangeReceiver (Transaction_getContractOutput t)"

definition Transaction_getContractSentAmount :: "tx \<Rightarrow> int res" where
  "Transaction_getContractSentAmount t = mapR out_amount (Transaction_getContractOutput t)"

section \<open>Lemmas\<close>

lemmas Transaction_get_defs =
  Transaction_inputs_def Transaction_outputs_def Transaction_conciliumId_def
  Transaction_getTxSignature_def Transaction_getHash_def

lemma ZERO_HASH_isHash [simp]: "isHash256 ZERO_HASH"
  by (simp add: isHash256_def ZERO_HASH_def)

lemma foldl_sum_list: "foldl (\<lambda>a x. a + f x) (z::int) xs = z + sum_list (map f xs)"
  by (induction xs arbitrary: z) simp_all

lemma Transaction_amountOut_sum: "Transaction_amountOut t = sum_list (map out_amount (Transaction_outputs t))"
  by (simp add: Transaction_amountOut_def foldl_sum_list)

lemma Transaction_amountOut_push [simp]:
  "Transaction_amountOut (Transaction_pushOutput out t) = Transaction_amountOut t + out_amount out"
  by (simp add: Transaction_amountOut_sum Transaction_pushOutput_def Transaction_outputs_def)

lemma Transaction_push_simps [simp]:
  "Transaction_inputs (Transaction_pushOutput out t) = Transaction_inputs t"
  "Transaction_outputs (Transaction_pushOutput out t) = Transaction_outputs t @ [out]"
  "Transaction_conciliumId (Transaction_pushOutput out t) = Transaction_conciliumId t"
  "Transaction_checkDone (Transaction_pushOutput out t) = Transaction_checkDone t"
  by (simp_all add: Transaction_pushOutput_def Transaction_get_defs Transaction_checkDone_def)

lemma plainOutput_simps [simp]:
  "out_amount (plainOutput a r) = a"
  "out_receiverAddr (plainOutput a r) = r"
  "out_contractCode (plainOutput a r) = None"
  by (simp_all add: plainOutput_def)

lemma Transaction_addReceiver_Inr:
  "Transaction_addReceiver a r t = Inr t' \<longleftrightarrow>
     isAddress r \<and> Transaction_checkDone t = Inr () \<and> t' = Transaction_pushOutput (plainOutput a r) t"
  by (auto simp: Transaction_addReceiver_def)

lemma Transaction_checkDone_Inr:
  "Transaction_checkDone t = Inr () \<longleftrightarrow> Transaction_getTxSignature t = None \<and> tx_claimProofs t = []"
  by (simp add: Transaction_checkDone_def)

lemma Transaction_createCoinbase_eq:
  "Transaction_createCoinbase =
     Inr (Transaction_new\<lparr>tx_payload := (tx_payload Transaction_new)
       \<lparr>pl_ins := [\<lparr>in_txHash = ZERO_HASH, in_nTxOutput = 0\<rparr>]\<rparr>\<rparr>)"
  by (simp add: Transaction_createCoinbase_def Transaction_addInput_def Transaction_checkDone_def
      Transaction_getTxSignature_def Transaction_new_def)

lemma assignAt_nth: "assignAt i x xs ! i = Some x"
  by (simp add: assignAt_def)

lemma assignAt_other: "j < length xs \<Longrightarrow> j \<noteq> i \<Longrightarrow> assignAt i x xs ! j = xs ! j"
  by (simp add: assignAt_def nth_append)

lemma length_assignAt: "length (assignAt i x xs) = max (length xs) (Suc i)"
  by (simp add: assignAt_def)

lemma assignAt_nonempty [simp]: "assignAt i x xs \<noteq> []"
  using length_assignAt [of i x xs] by auto

text \<open>Proofs and signatures are outside the signed payload, so adding one keeps the hash.\<close>

lemma Transaction_hash_claim:
  "Transaction_claim C idx key t = Inr t' \<Longrightarrow> Transaction_getHash C' t' = Transaction_getHash C' t"
  by (auto simp: Transaction_claim_def Transaction_getHash_def split: if_splits)

lemma Transaction_hash_sign [simp]:
  "Transaction_getHash C' (Transaction_signForContract C key t) = Transaction_getHash C' t"
  by (simp add: Transaction_signForContract_def Transaction_getHash_def)

lemma Transaction_claim_done:
  "Transaction_claim C idx key t = Inr t' \<Longrightarrow> Transaction_checkDone t' \<noteq> Inr ()"
  by (auto simp: Transaction_claim_def Transaction_checkDone_def split: if_splits)

lemma Transaction_verify_iff:
  "Transaction_verify t = Inr () \<longleftrightarrow>
     Transaction_inputs t \<noteq> [] \<and>
     (\<forall>i\<in>set (Transaction_inputs t). in_txHash i \<noteq> ZERO_HASH \<and> 0 \<le> in_nTxOutput i) \<and>
     (\<forall>out\<in>set (Transaction_outputs t). truthyStr (out_contractCode out) \<or> 0 < out_amount out) \<and>
     (length (tx_claimProofs t) = length (Transaction_inputs t) \<or> tx_txSignature t \<noteq> None)"
  by (auto simp: Transaction_verify_def list_all_iff Transaction_getTxSignature_def)

lemma Transaction_coinbase_not_verify: "Transaction_isCoinbase t \<Longrightarrow> Transaction_verify t \<noteq> Inr ()"
  by (auto simp: Transaction_verify_iff Transaction_isCoinbase_def split: list.splits)

lemma proofsEqual_True:
  "proofsEqual i ps qs = Inr True \<longleftrightarrow>
     (\<forall>j<length ps. ps ! j \<noteq> None \<longrightarrow> i + j < length qs \<and> qs ! (i + j) = ps ! j)"
proof (induction i ps qs rule: proofsEqual.induct)
  case (2 i ps other)
  then show ?case by (auto simp: less_Suc_eq_0_disj)
next
  case (3 i p ps other)
  then show ?case
    by (auto simp: less_Suc_eq_0_disj all_conj_distrib split: option.splits)
qed simp

lemma Transaction_equals_refl: "Transaction_equals C t t = Inr True"
  by (simp add: Transaction_equals_def proofsEqual_True)

lemma Transaction_contract_output:
  "Transaction_outputs t = out # outs \<Longrightarrow>
     Transaction_isContractCreation t = Inr (out_receiverAddr out = getAddrContractCreation)"
  by (simp add: Transaction_isContractCreation_def Transaction_getOutCoins_def
      Coins_new_def Coins_getReceiverAddr_def)

end
