(* ===== verification/Cil_Patch.thy ===== *)
theory Cil_Patch
  imports Cil_Receipt Cil_Contract Cil_Transaction
begin

text \<open>
  \<open>src/storage/patch.js\<close>: the set of changes one block makes. A patch holds, per transaction hash,
  the version of the UTXO the block leaves behind and, in \<open>pt_mapSpentUtxos\<close>, which transaction
  spent which output; merging two patches keeps the outputs neither has spent, takes the union of
  what was spent and throws when one output was spent by two different transactions. \<open>serialize\<close>
  and \<open>deserialize\<close> are the platform's \<open>v8\<close> codec and are not modelled; the receipts a merged
  patch shares with its sources are values here.
\<close>

section \<open>State\<close>

record 'd patch =
  pt_coins :: "(hash, utxo) jsmap"
  pt_mapSpentUtxos :: "(hash, (int, hash) jsmap) jsmap"
  pt_mapConciliumLevel :: "(nat, nat) jsmap"
  pt_conciliumId :: "nat option"
  pt_mapContractStates :: "(addr, 'd contract) jsmap"
  pt_mapTxReceipts :: "(hash, receipt) jsmap"
  pt_nonce :: nat

section \<open>Operations\<close>

definition orZero :: "nat option \<Rightarrow> nat" where
  "orZero x = (case x of None \<Rightarrow> 0 | Some n \<Rightarrow> n)"

definition PatchDB_setConciliumId :: "nat option \<Rightarrow> 'd patch \<Rightarrow> 'd patch res" where
  "PatchDB_setConciliumId nId p =
     (case nId of
        None \<Rightarrow> Inr p
      | Some cid \<Rightarrow>
          bindR (assertR (pt_conciliumId p = None)
                   (AssertionError ''\"conciliumId\" already specified!'')) (\<lambda>_.
          Inr (p\<lparr>pt_conciliumId := Some cid,
                 pt_mapConciliumLevel :=
                   jset cid (orZero (jget (pt_mapConciliumLevel p) cid) + 1)
                     (pt_mapConciliumLevel p)\<rparr>)))"

definition PatchDB_empty :: "'d patch" where
  "PatchDB_empty =
     \<lparr>pt_coins = [], pt_mapSpentUtxos = [], pt_mapConciliumLevel = [], pt_conciliumId = None,
      pt_mapContractStates = [], pt_mapTxReceipts = [], pt_nonce = 0\<rparr>"

definition PatchDB_new :: "nat option \<Rightarrow> 'd patch res" where
  "PatchDB_new nConciliumId = PatchDB_setConciliumId nConciliumId PatchDB_empty"

definition PatchDB_getConciliumId :: "'d patch \<Rightarrow> nat option" where
  "PatchDB_getConciliumId p = pt_conciliumId p"

definition PatchDB_getLevel :: "nat option \<Rightarrow> 'd patch \<Rightarrow> nat option" where
  "PatchDB_getLevel nConciliumId p =
     (case (case nConciliumId of None \<Rightarrow> pt_conciliumId p | Some c \<Rightarrow> Some c) of
        None \<Rightarrow> None
      | Some c \<Rightarrow> jget (pt_mapConciliumLevel p) c)"

definition PatchDB_getSpentOutputs :: "hash \<Rightarrow> 'd patch \<Rightarrow> (int, hash) jsmap" where
  "PatchDB_getSpentOutputs strUtxoHash p =
     (case jget (pt_mapSpentUtxos p) strUtxoHash of None \<Rightarrow> [] | Some m \<Rightarrow> m)"

definition PatchDB_setSpentOutput :: "hash \<Rightarrow> int \<Rightarrow> hash \<Rightarrow> 'd patch \<Rightarrow> 'd patch" where
  "PatchDB_setSpentOutput strUtxoHash nTxOutput txHashSpent p =
     p\<lparr>pt_mapSpentUtxos :=
       jset strUtxoHash (jset nTxOutput txHashSpent (PatchDB_getSpentOutputs strUtxoHash p))
         (pt_mapSpentUtxos p)\<rparr>"

definition PatchDB_getCoins :: "'d patch \<Rightarrow> (hash, utxo) jsmap" where
  "PatchDB_getCoins p = pt_coins p"

definition PatchDB_getUtxo :: "hash \<Rightarrow> 'd patch \<Rightarrow> utxo option res" where
  "PatchDB_getUtxo txHash p =
     bindR (typeforce (isHash256 txHash)) (\<lambda>_. Inr (jget (pt_coins p) txHash))"

definition PatchDB_setUtxo :: "utxo \<Rightarrow> 'd patch \<Rightarrow> 'd patch" where
  "PatchDB_setUtxo u p = p\<lparr>pt_coins := jset (UTXO_getTxHash u) u (pt_coins p)\<rparr>"

definition PatchDB_spendCoins :: "utxo \<Rightarrow> int \<Rightarrow> hash \<Rightarrow> 'd patch \<Rightarrow> 'd patch res" where
  "PatchDB_spendCoins u nTxOutput txHashSpent p =
     bindR (typeforce (isHash256 txHashSpent)) (\<lambda>_.
     let strHash = UTXO_getTxHash u in
     bindR (PatchDB_getUtxo strHash p) (\<lambda>found.
     bindR (UTXO_spendCoins nTxOutput (case found of Some v \<Rightarrow> v | None \<Rightarrow> u)) (\<lambda>utxoCopy.
     Inr (PatchDB_setSpentOutput strHash nTxOutput txHashSpent
            (p\<lparr>pt_coins := jset strHash utxoCopy (pt_coins p)\<rparr>)))))"

definition PatchDB_createCoins :: "hash \<Rightarrow> int \<Rightarrow> coins \<Rightarrow> 'd patch \<Rightarrow> 'd patch res" where
  "PatchDB_createCoins txHash idx c p =
     bindR (typeforce (isHash256 txHash)) (\<lambda>_.
     bindR (case jget (pt_coins p) txHash of Some u \<Rightarrow> Inr u | None \<Rightarrow> UTXO_new txHash) (\<lambda>u.
     bindR (UTXO_addCoins idx c u) (\<lambda>u'.
     Inr (p\<lparr>pt_coins := jset txHash u' (pt_coins p)\<rparr>))))"

definition PatchDB_getContract :: "addr \<Rightarrow> 'd patch \<Rightarrow> 'd contract option" where
  "PatchDB_getContract contractAddr p = jget (pt_mapContractStates p) contractAddr"

definition PatchDB_getContracts :: "'d patch \<Rightarrow> (addr \<times> 'd contract) list" where
  "PatchDB_getContracts p = pt_mapContractStates p"

definition PatchDB_setContract :: "'d serializers \<Rightarrow> 'd contract \<Rightarrow> 'd patch \<Rightarrow> 'd patch res" where
  "PatchDB_setContract S c p =
     bindR (Contract_getStoredAddress c) (\<lambda>a.
       case jget (pt_mapContractStates p) a of
         Some foundContract \<Rightarrow>
           bindR (Contract_getData S c) (\<lambda>(d, _).
             Inr (p\<lparr>pt_mapContractStates :=
               jset a (Contract_updateData d foundContract) (pt_mapContractStates p)\<rparr>))
       | None \<Rightarrow> Inr (p\<lparr>pt_mapContractStates := jset a c (pt_mapContractStates p)\<rparr>))"

definition PatchDB_getReceipt :: "hash \<Rightarrow> 'd patch \<Rightarrow> receipt option res" where
  "PatchDB_getReceipt strTxHash p =
     bindR (typeforce (isHash256 strTxHash)) (\<lambda>_. Inr (jget (pt_mapTxReceipts p) strTxHash))"

text \<open>
  The returned value is \<open>None\<close> (\<open>undefined\<close>) the first time and the merged receipt afterwards.
\<close>

definition PatchDB_setReceipt :: "hash \<Rightarrow> receipt \<Rightarrow> 'd patch \<Rightarrow> (receipt option \<times> 'd patch) res" where
  "PatchDB_setReceipt strTxHash receipt p =
     bindR (typeforce (isHash256 strTxHash)) (\<lambda>_.
       case jget (pt_mapTxReceipts p) strTxHash of
         None \<Rightarrow> Inr (None, p\<lparr>pt_mapTxReceipts := jset strTxHash receipt (pt_mapTxReceipts p)\<rparr>)
       | Some sameTxReceipt \<Rightarrow>
           bindR (assertR (TxReceipt_isSuccessful sameTxReceipt)
                    (AssertionError ''You shouldn't continue exec of already failed TX'')) (\<lambda>_.
           bindR (TxReceipt_merge sameTxReceipt receipt) (\<lambda>r.
             Inr (Some r, p\<lparr>pt_mapTxReceipts := jset strTxHash r (pt_mapTxReceipts p)\<rparr>))))"

definition PatchDB_getReceipts :: "'d patch \<Rightarrow> (hash \<times> receipt) list" where
  "PatchDB_getReceipts p = pt_mapTxReceipts p"

definition PatchDB_getComplexity :: "'d patch \<Rightarrow> nat" where
  "PatchDB_getComplexity p =
     foldl (\<lambda>result strUtxoHash. result + length (PatchDB_getSpentOutputs strUtxoHash p)) 0
       (jkeys (pt_mapSpentUtxos p))"

definition PatchDB_getNonce :: "'d patch \<Rightarrow> nat \<times> 'd patch" where
  "PatchDB_getNonce p = (pt_nonce p, p\<lparr>pt_nonce := pt_nonce p + 1\<rparr>)"

definition PatchDB_hasUtxos :: "hash list \<Rightarrow> 'd patch \<Rightarrow> nat" where
  "PatchDB_hasUtxos arrUtxos p = length (filter (jhas (pt_coins p)) arrUtxos)"

definition PatchDB_removeUtxo :: "hash \<Rightarrow> 'd patch \<Rightarrow> 'd patch" where
  "PatchDB_removeUtxo strHash p =
     p\<lparr>pt_coins := jdelete strHash (pt_coins p),
       pt_mapSpentUtxos := jdelete strHash (pt_mapSpentUtxos p)\<rparr>"

subsection \<open>merge\<close>

definition PatchDB_mergeLevels :: "'d patch \<Rightarrow> 'd patch \<Rightarrow> (nat, nat) jsmap" where
  "PatchDB_mergeLevels this patch =
     fold (\<lambda>conciliumId. jset conciliumId
             (max (orZero (jget (pt_mapConciliumLevel this) conciliumId))
                  (orZero (jget (pt_mapConciliumLevel patch) conciliumId))))
       (getMapsKeysUnique [pt_mapConciliumLevel this, pt_mapConciliumLevel patch]) []"

definition PatchDB_setSpentAll :: "hash \<Rightarrow> (int, hash) jsmap \<Rightarrow> 'd patch \<Rightarrow> 'd patch" where
  "PatchDB_setSpentAll coinHash m p =
     fold (\<lambda>(idx, h). PatchDB_setSpentOutput coinHash idx h) m p"

text \<open>Only one patch has the UTXO.\<close>

definition PatchDB_mergeOne :: "'d patch \<Rightarrow> 'd patch \<Rightarrow> hash \<Rightarrow> utxo \<Rightarrow> 'd patch \<Rightarrow> 'd patch" where
  "PatchDB_mergeOne this patch coinHash u resultPatch =
     (let mapSpentOutputs =
            (if length (PatchDB_getSpentOutputs coinHash this) \<noteq> 0
             then PatchDB_getSpentOutputs coinHash this
             else PatchDB_getSpentOutputs coinHash patch)
      in PatchDB_setSpentAll coinHash mapSpentOutputs
           (resultPatch\<lparr>pt_coins := jset coinHash u (pt_coins resultPatch)\<rparr>))"

text \<open>Both have it.\<close>

definition PatchDB_mergeBoth ::
    "'d patch \<Rightarrow> 'd patch \<Rightarrow> hash \<Rightarrow> utxo \<Rightarrow> utxo \<Rightarrow> 'd patch \<Rightarrow> 'd patch res" where
  "PatchDB_mergeBoth this patch coinHash utxoMy utxoHis resultPatch =
     (let arrUnspentIndexes = arrayIntersection (UTXO_getIndexes utxoMy) (UTXO_getIndexes utxoHis);
          mapMy = PatchDB_getSpentOutputs coinHash this;
          mapHis = PatchDB_getSpentOutputs coinHash patch;
          arrSpentIndexes = arrayIntersection (jkeys mapMy) (jkeys mapHis)
      in bindR (UTXO_new coinHash) (\<lambda>u.
         bindR (foldR (\<lambda>idx p. bindR (UTXO_coinsAtIndex utxoMy idx) (\<lambda>c.
                  PatchDB_createCoins coinHash idx c p))
                arrUnspentIndexes (PatchDB_setUtxo u resultPatch)) (\<lambda>p.
         bindR (foldR (\<lambda>idx _. assertR (jget mapMy idx = jget mapHis idx)
                  (AssertionError ''Patch merge: conflict'')) arrSpentIndexes ()) (\<lambda>_.
         Inr (PatchDB_setSpentAll coinHash mapHis (PatchDB_setSpentAll coinHash mapMy p))))))"

definition PatchDB_mergeCoin :: "'d patch \<Rightarrow> 'd patch \<Rightarrow> hash \<Rightarrow> 'd patch \<Rightarrow> 'd patch res" where
  "PatchDB_mergeCoin this patch coinHash resultPatch =
     (case (jget (pt_coins this) coinHash, jget (pt_coins patch) coinHash) of
        (Some u, None) \<Rightarrow> Inr (PatchDB_mergeOne this patch coinHash u resultPatch)
      | (None, Some u) \<Rightarrow> Inr (PatchDB_mergeOne this patch coinHash u resultPatch)
      | (Some utxoMy, Some utxoHis) \<Rightarrow>
          bindR (typeforce (isHash256 coinHash)) (\<lambda>_.
            PatchDB_mergeBoth this patch coinHash utxoMy utxoHis resultPatch)
      | (None, None) \<Rightarrow> Inl (TypeError ''Cannot read property''))"

definition PatchDB_mergeCoins :: "'d patch \<Rightarrow> 'd patch \<Rightarrow> 'd patch \<Rightarrow> 'd patch res" where
  "PatchDB_mergeCoins this patch resultPatch =
     foldR (PatchDB_mergeCoin this patch)
       (sof (jkeys (pt_coins this) @ jkeys (pt_coins patch))) resultPatch"

text \<open>A comparison with \<open>undefined\<close> is false.\<close>

definition geLevel :: "nat option \<Rightarrow> nat option \<Rightarrow> bool" where
  "geLevel a b = (case (a, b) of (Some x, Some y) \<Rightarrow> x \<ge> y | _ \<Rightarrow> False)"

definition PatchDB_winner ::
    "bool \<Rightarrow> 'd patch \<Rightarrow> 'd patch \<Rightarrow> addr \<Rightarrow> 'd contract res" where
  "PatchDB_winner bPreferPatchData this patch strAddr =
     (case (PatchDB_getContract strAddr this, PatchDB_getContract strAddr patch) of
        (Some contractThis, Some contractPatch) \<Rightarrow>
          bindR (assertR (Contract_getConciliumId contractThis = Contract_getConciliumId contractPatch)
                   (AssertionError ''Contract belongs to different conciliums'')) (\<lambda>_.
          Inr (if bPreferPatchData \<or>
                  geLevel (PatchDB_getLevel (Contract_getConciliumId contractPatch) patch)
                    (PatchDB_getLevel (Contract_getConciliumId contractThis) this)
               then contractPatch else contractThis))
      | (Some contractThis, None) \<Rightarrow> Inr contractThis
      | (None, Some contractPatch) \<Rightarrow> Inr contractPatch
      | (None, None) \<Rightarrow> Inl (TypeError ''Cannot read property''))"

definition PatchDB_mergeContracts ::
    "'d serializers \<Rightarrow> bool \<Rightarrow> 'd patch \<Rightarrow> 'd patch \<Rightarrow> 'd patch \<Rightarrow> 'd patch res" where
  "PatchDB_mergeContracts S bPreferPatchData this patch resultPatch =
     foldR (\<lambda>strAddr p. bindR (PatchDB_winner bPreferPatchData this patch strAddr) (\<lambda>c.
              PatchDB_setContract S (Contract_clone S c) p))
       (getMapsKeysUnique [pt_mapContractStates this, pt_mapContractStates patch]) resultPatch"

definition PatchDB_mergeReceipt :: "'d patch \<Rightarrow> 'd patch \<Rightarrow> hash \<Rightarrow> 'd patch \<Rightarrow> 'd patch res" where
  "PatchDB_mergeReceipt this patch strHash p =
     (case (jget (pt_mapTxReceipts this) strHash, jget (pt_mapTxReceipts patch) strHash) of
        (Some receiptThis, Some receiptPatch) \<Rightarrow>
          bindR (assertR (TxReceipt_equals receiptThis receiptPatch)
                   (AssertionError ''patch.merge: Tx Collision detected'')) (\<lambda>_.
          mapR snd (PatchDB_setReceipt strHash receiptThis p))
      | (Some receiptThis, None) \<Rightarrow> mapR snd (PatchDB_setReceipt strHash receiptThis p)
      | (None, Some receiptPatch) \<Rightarrow> mapR snd (PatchDB_setReceipt strHash receiptPatch p)
      | (None, None) \<Rightarrow> Inl (TypeError ''Cannot read property''))"

definition PatchDB_mergeReceipts :: "'d patch \<Rightarrow> 'd patch \<Rightarrow> 'd patch \<Rightarrow> 'd patch res" where
  "PatchDB_mergeReceipts this patch resultPatch =
     foldR (PatchDB_mergeReceipt this patch)
       (getMapsKeysUnique [pt_mapTxReceipts this, pt_mapTxReceipts patch]) resultPatch"

definition PatchDB_merge ::
    "'d serializers \<Rightarrow> bool \<Rightarrow> 'd patch \<Rightarrow> 'd patch \<Rightarrow> 'd patch res" where
  "PatchDB_merge S bPreferPatchData this patch =
     bindR (assertR
        (pt_conciliumId this \<noteq> None \<and> pt_conciliumId patch \<noteq> None \<and> \<not> bPreferPatchData \<longrightarrow>
         pt_conciliumId this \<noteq> pt_conciliumId patch \<or>
         PatchDB_getLevel (pt_conciliumId this) this \<noteq> PatchDB_getLevel (pt_conciliumId patch) patch)
        (AssertionError ''It seems we have unexpected fork!'')) (\<lambda>_.
     bindR (PatchDB_new None) (\<lambda>resultPatch.
     bindR (PatchDB_mergeCoins this patch
              (resultPatch\<lparr>pt_mapConciliumLevel := PatchDB_mergeLevels this patch\<rparr>)) (\<lambda>p.
     bindR (PatchDB_mergeContracts S bPreferPatchData this patch p) (\<lambda>p.
     PatchDB_mergeReceipts this patch p))))"

subsection \<open>purge\<close>

definition PatchDB_spendingTnxsEqual :: "(int, hash) jsmap \<Rightarrow> (int, hash) jsmap \<Rightarrow> bool" where
  "PatchDB_spendingTnxsEqual thisMapSpent patchMapSpent =
     (length thisMapSpent = length patchMapSpent \<and>
      list_all (\<lambda>(nTxOutput, txHashSpent). jget patchMapSpent nTxOutput = Some txHashSpent)
        thisMapSpent)"

definition PatchDB_purgeCoin :: "'d patch \<Rightarrow> hash \<Rightarrow> 'd patch \<Rightarrow> 'd patch res" where
  "PatchDB_purgeCoin patch h this =
     bindR (PatchDB_getUtxo h this) (\<lambda>found.
       case found of
         None \<Rightarrow> Inr this
       | Some u \<Rightarrow>
           bindR (PatchDB_getUtxo h patch) (\<lambda>other.
           bindR (case other of None \<Rightarrow> Inl (TypeError ''Cannot read property'')
                  | Some v \<Rightarrow> UTXO_equals u v) (\<lambda>eq.
           if eq \<and> PatchDB_spendingTnxsEqual (PatchDB_getSpentOutputs h this)
                     (PatchDB_getSpentOutputs h patch)
           then Inr (PatchDB_removeUtxo (UTXO_getTxHash u) this)
           else foldR (\<lambda>(idx, hashSpent) p.
                  if idx \<in> set (UTXO_getIndexes u) then PatchDB_spendCoins u idx hashSpent p else Inr p)
                (PatchDB_getSpentOutputs (UTXO_getTxHash u) patch) this)))"

definition PatchDB_purgeContract ::
    "'d serializers \<Rightarrow> 'd patch \<Rightarrow> addr \<Rightarrow> 'd patch \<Rightarrow> 'd patch res" where
  "PatchDB_purgeContract S patch contractAddr this =
     (case (PatchDB_getContract contractAddr this, PatchDB_getContract contractAddr patch) of
        (Some thisContract, Some patchContract) \<Rightarrow>
          bindR (Contract_getDataBuffer S thisContract) (\<lambda>a.
          bindR (Contract_getDataBuffer S patchContract) (\<lambda>b.
          Inr (if a = b
               then this\<lparr>pt_mapContractStates := jdelete contractAddr (pt_mapContractStates this)\<rparr>
               else this)))
      | _ \<Rightarrow> Inr this)"

definition PatchDB_purgeReceipt :: "hash \<Rightarrow> 'd patch \<Rightarrow> 'd patch" where
  "PatchDB_purgeReceipt strHash this =
     (if jhas (pt_mapTxReceipts this) strHash
      then this\<lparr>pt_mapTxReceipts := jdelete strHash (pt_mapTxReceipts this)\<rparr> else this)"

definition PatchDB_purge :: "'d serializers \<Rightarrow> 'd patch \<Rightarrow> 'd patch \<Rightarrow> 'd patch res" where
  "PatchDB_purge S patch this =
     bindR (foldR (PatchDB_purgeCoin patch) (jkeys (pt_coins patch)) this) (\<lambda>p.
     bindR (foldR (PatchDB_purgeContract S patch) (jkeys (pt_mapContractStates patch)) p) (\<lambda>p.
     Inr (fold PatchDB_purgeReceipt (jkeys (pt_mapTxReceipts patch)) p)))"

subsection \<open>validateAgainstStable\<close>

definition PatchDB_validateHash :: "'d patch \<Rightarrow> hash \<Rightarrow> 'd patch \<Rightarrow> unit res" where
  "PatchDB_validateHash stablePatch h this =
     bindR (PatchDB_getUtxo h stablePatch) (\<lambda>found.
       case found of
         None \<Rightarrow> Inr ()
       | Some u \<Rightarrow>
           foldR (\<lambda>(idx, _) _. mapR (\<lambda>_. ()) (UTXO_coinsAtIndex u idx))
             (PatchDB_getSpentOutputs h this) ())"

definition PatchDB_validateAgainstStable :: "'d patch \<Rightarrow> 'd patch \<Rightarrow> unit res" where
  "PatchDB_validateAgainstStable stablePatch this =
     foldR (\<lambda>h _. PatchDB_validateHash stablePatch h this) (jkeys (PatchDB_getCoins this)) ()"

end
