(* ===== verification/Cil_Patch_Laws.thy ===== *)
theory Cil_Patch_Laws
  imports Cil_Patch
begin

text \<open>
  The contract of \<open>src/storage/patch.js\<close>. \<open>PatchDB_abs\<close> reads a patch as a partial map from
  transaction hash to the outputs it leaves unspent and to the spender of each spent one; \<open>ujoin\<close>
  is the merge on that reading. The lemmas show that the code's loops over the insertion-ordered
  maps compute exactly \<open>ujoin\<close>, throw exactly when two patches spend an output differently, and
  keep the invariant \<open>PatchDB_wf\<close>.
\<close>

section \<open>The abstract state\<close>

type_synonym ustate = "(int \<rightharpoonup> coins) \<times> (int \<rightharpoonup> hash)"

fun ujoin :: "ustate option \<Rightarrow> ustate option \<Rightarrow> ustate option" where
  "ujoin None y = y"
| "ujoin x None = x"
| "ujoin (Some (u, s)) (Some (v, t)) = Some (u |` dom v, s ++ t)"

fun ucompat :: "ustate option \<Rightarrow> ustate option \<Rightarrow> bool" where
  "ucompat (Some (u, s)) (Some (v, t)) \<longleftrightarrow> (\<forall>i\<in>dom s \<inter> dom t. s i = t i)"
| "ucompat _ _ \<longleftrightarrow> True"

text \<open>Two versions of one UTXO: the outputs both still have are the same coins.\<close>

fun usame :: "ustate option \<Rightarrow> ustate option \<Rightarrow> bool" where
  "usame (Some (u, s)) (Some (v, t)) \<longleftrightarrow> (\<forall>i\<in>dom u \<inter> dom v. u i = v i)"
| "usame _ _ \<longleftrightarrow> True"

text \<open>No output is both unspent and spent.\<close>

fun udisjoint :: "ustate option \<Rightarrow> bool" where
  "udisjoint (Some (u, s)) \<longleftrightarrow> dom u \<inter> dom s = {}"
| "udisjoint None \<longleftrightarrow> True"

lemma ujoin_None2 [simp]: "ujoin x None = x"
  by (cases x) auto

lemma ujoin_assoc: "ujoin (ujoin x y) z = ujoin x (ujoin y z)"
  by (cases x; cases y; cases z) (auto simp: Int_commute Int_left_commute)

lemma ujoin_idem: "ujoin x x = x"
proof (cases x)
  case (Some a)
  obtain u s where a: "a = (u, s)" by fastforce
  have "u |` dom u = u" by (rule ext) (simp add: restrict_map_def domIff)
  moreover have "s ++ s = s" by (rule ext) (simp add: map_add_def split: option.splits)
  ultimately show ?thesis using Some a by simp
qed simp

lemma ujoin_comm: "ucompat x y \<Longrightarrow> usame x y \<Longrightarrow> ujoin x y = ujoin y x"
proof (cases x; cases y)
  fix a b assume c: "ucompat x y" and s: "usame x y" and xy: "x = Some a" "y = Some b"
  obtain u s v t where ab: "a = (u, s)" "b = (v, t)" by fastforce
  have "u |` dom v = v |` dom u"
  proof
    fix i
    have "i \<in> dom u \<Longrightarrow> i \<in> dom v \<Longrightarrow> u i = v i" using s xy ab by simp
    then show "(u |` dom v) i = (v |` dom u) i"
      by (cases "u i"; cases "v i") (simp_all add: restrict_map_def domIff)
  qed
  moreover have "s ++ t = t ++ s"
  proof
    fix i
    have "i \<in> dom s \<Longrightarrow> i \<in> dom t \<Longrightarrow> s i = t i" using c xy ab by simp
    then show "(s ++ t) i = (t ++ s) i"
      by (cases "s i"; cases "t i") (simp_all add: map_add_def domIff)
  qed
  ultimately show ?thesis using xy ab by simp
qed auto

lemma udisjoint_ujoin: "udisjoint x \<Longrightarrow> udisjoint y \<Longrightarrow> udisjoint (ujoin x y)"
  by (induction x y rule: ujoin.induct) (simp_all, blast)

section \<open>Reading a patch\<close>

abbreviation PatchDB_spent :: "'d patch \<Rightarrow> hash \<Rightarrow> int \<rightharpoonup> hash" where
  "PatchDB_spent p h \<equiv> jget (PatchDB_getSpentOutputs h p)"

definition PatchDB_abs :: "'d patch \<Rightarrow> hash \<Rightarrow> ustate option" where
  "PatchDB_abs p h =
     (case jget (pt_coins p) h of None \<Rightarrow> None | Some u \<Rightarrow> Some (UTXO_abs u, PatchDB_spent p h))"

definition PatchDB_coinsOk :: "(hash, utxo) jsmap \<Rightarrow> bool" where
  "PatchDB_coinsOk m \<longleftrightarrow> jwf m \<and>
     (\<forall>h u. jget m h = Some u \<longrightarrow> UTXO_wf u \<and> utxo_txHash u = h \<and> isHash256 h)"

definition PatchDB_spentOk :: "'d patch \<Rightarrow> bool" where
  "PatchDB_spentOk p \<longleftrightarrow> jwf (pt_mapSpentUtxos p) \<and>
     (\<forall>h m. jget (pt_mapSpentUtxos p) h = Some m \<longrightarrow>
        jwf m \<and> jget (pt_coins p) h \<noteq> None \<and> (\<forall>i x. jget m i = Some x \<longrightarrow> isHash256 x))"

definition PatchDB_utxosOk :: "'d patch \<Rightarrow> bool" where
  "PatchDB_utxosOk p \<longleftrightarrow> PatchDB_coinsOk (pt_coins p) \<and> PatchDB_spentOk p"

definition PatchDB_disjoint :: "'d patch \<Rightarrow> bool" where
  "PatchDB_disjoint p \<longleftrightarrow> (\<forall>h. udisjoint (PatchDB_abs p h))"

lemma PatchDB_coinsOkD:
  "PatchDB_coinsOk m \<Longrightarrow> jget m h = Some u \<Longrightarrow> UTXO_wf u \<and> utxo_txHash u = h \<and> isHash256 h"
  by (simp add: PatchDB_coinsOk_def)

lemma PatchDB_coinsOk_jset:
  "PatchDB_coinsOk m \<Longrightarrow> UTXO_wf u \<Longrightarrow> utxo_txHash u = h \<Longrightarrow> isHash256 h \<Longrightarrow>
   PatchDB_coinsOk (jset h u m)"
  by (auto simp: PatchDB_coinsOk_def js_simps)

lemma PatchDB_utxosOk_empty [simp]: "PatchDB_utxosOk PatchDB_empty"
  by (simp add: PatchDB_utxosOk_def PatchDB_coinsOk_def PatchDB_spentOk_def PatchDB_empty_def)

lemma PatchDB_abs_empty [simp]: "PatchDB_abs PatchDB_empty h = None"
  by (simp add: PatchDB_abs_def PatchDB_empty_def)

lemma PatchDB_abs_None: "PatchDB_abs p h = None \<longleftrightarrow> jget (pt_coins p) h = None"
  by (auto simp: PatchDB_abs_def split: option.splits)

lemma PatchDB_jwf_getSpent: "PatchDB_utxosOk p \<Longrightarrow> jwf (PatchDB_getSpentOutputs h p)"
  by (auto simp: PatchDB_getSpentOutputs_def PatchDB_utxosOk_def PatchDB_spentOk_def
      split: option.splits)

lemma PatchDB_spent_isHash: "PatchDB_utxosOk p \<Longrightarrow> PatchDB_spent p h i = Some x \<Longrightarrow> isHash256 x"
  by (auto simp: PatchDB_getSpentOutputs_def PatchDB_utxosOk_def PatchDB_spentOk_def
      split: option.splits)

lemma PatchDB_spent_noCoins:
  "PatchDB_utxosOk p \<Longrightarrow> jget (pt_coins p) h = None \<Longrightarrow> PatchDB_getSpentOutputs h p = []"
  by (fastforce simp: PatchDB_getSpentOutputs_def PatchDB_utxosOk_def PatchDB_spentOk_def
      split: option.splits)

lemma PatchDB_getUtxo_ok:
  "isHash256 h \<Longrightarrow> PatchDB_getUtxo h p = Inr (jget (pt_coins p) h)"
  by (simp add: PatchDB_getUtxo_def)

section \<open>Recording spent outputs\<close>

lemma PatchDB_setSpentOutput_simps [simp]:
  "pt_coins (PatchDB_setSpentOutput h i x p) = pt_coins p"
  "PatchDB_getSpentOutputs h' (PatchDB_setSpentOutput h i x p) =
     (if h' = h then jset i x (PatchDB_getSpentOutputs h p) else PatchDB_getSpentOutputs h' p)"
  by (auto simp: PatchDB_setSpentOutput_def PatchDB_getSpentOutputs_def js_simps)

lemma PatchDB_setSpentOutput_rest [simp]:
  "pt_mapConciliumLevel (PatchDB_setSpentOutput h i x p) = pt_mapConciliumLevel p"
  "pt_conciliumId (PatchDB_setSpentOutput h i x p) = pt_conciliumId p"
  "pt_mapContractStates (PatchDB_setSpentOutput h i x p) = pt_mapContractStates p"
  "pt_mapTxReceipts (PatchDB_setSpentOutput h i x p) = pt_mapTxReceipts p"
  "pt_nonce (PatchDB_setSpentOutput h i x p) = pt_nonce p"
  by (simp_all add: PatchDB_setSpentOutput_def)

lemma PatchDB_utxosOk_setSpent:
  "PatchDB_utxosOk p \<Longrightarrow> jget (pt_coins p) h \<noteq> None \<Longrightarrow> isHash256 x \<Longrightarrow>
   PatchDB_utxosOk (PatchDB_setSpentOutput h i x p)"
  using PatchDB_jwf_getSpent [of p h] PatchDB_spent_isHash [of p h]
  by (auto simp: PatchDB_utxosOk_def PatchDB_spentOk_def PatchDB_setSpentOutput_def js_simps
      split: if_splits)

lemma PatchDB_setSpentAll_simps:
  "pt_coins (PatchDB_setSpentAll h m p) = pt_coins p"
  "pt_mapConciliumLevel (PatchDB_setSpentAll h m p) = pt_mapConciliumLevel p"
  "pt_conciliumId (PatchDB_setSpentAll h m p) = pt_conciliumId p"
  "pt_mapContractStates (PatchDB_setSpentAll h m p) = pt_mapContractStates p"
  "pt_mapTxReceipts (PatchDB_setSpentAll h m p) = pt_mapTxReceipts p"
  "h' \<noteq> h \<Longrightarrow> PatchDB_getSpentOutputs h' (PatchDB_setSpentAll h m p) = PatchDB_getSpentOutputs h' p"
  by (induction m arbitrary: p; simp add: PatchDB_setSpentAll_def split_beta)+

lemma PatchDB_setSpentAll_spent:
  assumes "jwf m"
  shows "PatchDB_spent (PatchDB_setSpentAll h m p) h = PatchDB_spent p h ++ jget m"
  using assms
proof (induction m arbitrary: p)
  case (Cons e m)
  obtain i x where e: "e = (i, x)" by fastforce
  from Cons.prems e have m: "jwf m" "jget m i = None"
    by auto
  have "PatchDB_spent (PatchDB_setSpentAll h (e # m) p) h =
      PatchDB_spent (PatchDB_setSpentOutput h i x p) h ++ jget m"
    using Cons.IH [OF m(1)] e by (simp add: PatchDB_setSpentAll_def)
  also have "\<dots> = PatchDB_spent p h ++ jget (e # m)"
    using m(2) e by (auto simp: fun_eq_iff map_add_def js_simps split: option.splits)
  finally show ?case .
qed (simp add: PatchDB_setSpentAll_def map_add_def)

lemma PatchDB_utxosOk_setSpentAll:
  assumes "PatchDB_utxosOk p" and "jget (pt_coins p) h \<noteq> None" and "\<forall>(i, x)\<in>set m. isHash256 x"
  shows "PatchDB_utxosOk (PatchDB_setSpentAll h m p)"
  using assms
proof (induction m arbitrary: p)
  case (Cons e m)
  then have "PatchDB_utxosOk (PatchDB_setSpentOutput h (fst e) (snd e) p)"
    by (intro PatchDB_utxosOk_setSpent) auto
  with Cons show ?case by (simp add: PatchDB_setSpentAll_def split_beta)
qed (simp add: PatchDB_setSpentAll_def)

lemma PatchDB_getSpent_isHash:
  "PatchDB_utxosOk p \<Longrightarrow> \<forall>(i, x)\<in>set (PatchDB_getSpentOutputs h p). isHash256 x"
  using PatchDB_spent_isHash [of p h] jget_iff_in [OF PatchDB_jwf_getSpent [of p h]] by fastforce

section \<open>spendCoins and createCoins\<close>

lemma PatchDB_spendCoins_InrD:
  assumes ok: "PatchDB_utxosOk p" and wf: "UTXO_wf u"
    and sp: "PatchDB_spendCoins u i x p = Inr p'"
  defines "v \<equiv> (case jget (pt_coins p) (utxo_txHash u) of Some v \<Rightarrow> v | None \<Rightarrow> u)"
  shows "PatchDB_utxosOk p'" and "UTXO_abs v i \<noteq> None"
    and "PatchDB_abs p' = (PatchDB_abs p)(utxo_txHash u \<mapsto>
          ((UTXO_abs v)(i := None), (PatchDB_spent p (utxo_txHash u))(i \<mapsto> x)))"
proof -
  let ?h = "utxo_txHash u"
  from sp have hx: "isHash256 x" "isHash256 ?h"
    by (auto simp: PatchDB_spendCoins_def PatchDB_getUtxo_def UTXO_getTxHash_def Let_def)
  have v: "UTXO_wf v \<and> utxo_txHash v = ?h"
    using ok wf PatchDB_coinsOkD unfolding v_def PatchDB_utxosOk_def by (fastforce split: option.splits)
  from sp hx obtain v' where v': "UTXO_spendCoins i v = Inr v'"
    and p': "p' = PatchDB_setSpentOutput ?h i x (p\<lparr>pt_coins := jset ?h v' (pt_coins p)\<rparr>)"
    unfolding v_def
    by (auto simp: PatchDB_spendCoins_def PatchDB_getUtxo_def UTXO_getTxHash_def Let_def)
  have v'D: "UTXO_wf v'" "UTXO_abs v i \<noteq> None" "UTXO_abs v' = (UTXO_abs v)(i := None)"
    "utxo_txHash v' = ?h"
    using UTXO_spendCoins_InrD [OF v'] v by auto
  then show "UTXO_abs v i \<noteq> None" by simp
  have "PatchDB_utxosOk (p\<lparr>pt_coins := jset ?h v' (pt_coins p)\<rparr>)"
    using ok v'D hx PatchDB_coinsOk_jset
    by (auto simp: PatchDB_utxosOk_def PatchDB_spentOk_def js_simps)
  then show "PatchDB_utxosOk p'"
    unfolding p' by (rule PatchDB_utxosOk_setSpent) (simp_all add: js_simps hx)
  have spent: "PatchDB_getSpentOutputs h (p\<lparr>pt_coins := c\<rparr>) = PatchDB_getSpentOutputs h p" for h c
    by (simp add: PatchDB_getSpentOutputs_def)
  show "PatchDB_abs p' = (PatchDB_abs p)(?h \<mapsto>
          ((UTXO_abs v)(i := None), (PatchDB_spent p ?h)(i \<mapsto> x)))"
    unfolding p' using v'D(3)
    by (auto simp: fun_eq_iff PatchDB_abs_def js_simps spent split: option.splits)
qed

lemma PatchDB_createCoins_InrD:
  assumes ok: "PatchDB_utxosOk p" and cr: "PatchDB_createCoins h i c p = Inr p'"
  shows "PatchDB_utxosOk p'"
    and "PatchDB_abs p' = (PatchDB_abs p)(h \<mapsto> (case PatchDB_abs p h of
            None \<Rightarrow> ([i \<mapsto> c], PatchDB_spent p h) | Some (m, s) \<Rightarrow> (m(i \<mapsto> c), s)))"
    and "case PatchDB_abs p h of None \<Rightarrow> True | Some (m, s) \<Rightarrow> m i = None"
    and "pt_mapSpentUtxos p' = pt_mapSpentUtxos p"
proof -
  from cr obtain u u' where u: "(case jget (pt_coins p) h of Some u \<Rightarrow> Inr u | None \<Rightarrow> UTXO_new h) = Inr u"
    and u': "UTXO_addCoins i c u = Inr u'" and hash: "isHash256 h"
    and p': "p' = p\<lparr>pt_coins := jset h u' (pt_coins p)\<rparr>"
    by (auto simp: PatchDB_createCoins_def)
  have wf: "UTXO_wf u \<and> utxo_txHash u = h \<and>
      UTXO_abs u = (case jget (pt_coins p) h of None \<Rightarrow> Map.empty | Some v \<Rightarrow> UTXO_abs v)"
    using u ok PatchDB_coinsOkD UTXO_wf_new unfolding PatchDB_utxosOk_def
    by (fastforce split: option.splits)
  note D = UTXO_addCoins_InrD [OF u' conjunct1 [OF wf]]
  show "pt_mapSpentUtxos p' = pt_mapSpentUtxos p" using p' by simp
  have spent: "PatchDB_getSpentOutputs h (p\<lparr>pt_coins := c\<rparr>) = PatchDB_getSpentOutputs h p" for h c
    by (simp add: PatchDB_getSpentOutputs_def)
  show "PatchDB_utxosOk p'"
    using ok D wf hash PatchDB_coinsOk_jset unfolding p'
    by (auto simp: PatchDB_utxosOk_def PatchDB_spentOk_def js_simps)
  show "case PatchDB_abs p h of None \<Rightarrow> True | Some (m, s) \<Rightarrow> m i = None"
    using D wf by (auto simp: PatchDB_abs_def split: option.splits)
  show "PatchDB_abs p' = (PatchDB_abs p)(h \<mapsto> (case PatchDB_abs p h of
            None \<Rightarrow> ([i \<mapsto> c], PatchDB_spent p h) | Some (m, s) \<Rightarrow> (m(i \<mapsto> c), s)))"
    using D wf
    by (auto simp: fun_eq_iff PatchDB_abs_def spent p' js_simps split: option.splits)
qed

section \<open>merge computes the join\<close>

text \<open>The fields the UTXO part of \<open>merge\<close> leaves alone.\<close>

definition PatchDB_sameRest :: "'d patch \<Rightarrow> 'd patch \<Rightarrow> bool" where
  "PatchDB_sameRest p q \<longleftrightarrow> pt_mapConciliumLevel p = pt_mapConciliumLevel q \<and>
     pt_conciliumId p = pt_conciliumId q \<and> pt_mapContractStates p = pt_mapContractStates q \<and>
     pt_mapTxReceipts p = pt_mapTxReceipts q"

lemma PatchDB_sameRest_trans: "PatchDB_sameRest p q \<Longrightarrow> PatchDB_sameRest q r \<Longrightarrow> PatchDB_sameRest p r"
  by (simp add: PatchDB_sameRest_def)

lemma PatchDB_sameRest_refl [simp]: "PatchDB_sameRest p p"
  by (simp add: PatchDB_sameRest_def)

lemma PatchDB_createCoins_ok:
  assumes "PatchDB_utxosOk p" and "isHash256 h" and "PatchDB_abs p h = Some (m, s)" and "m i = None"
  shows "\<exists>p'. PatchDB_createCoins h i c p = Inr p' \<and> PatchDB_sameRest p' p"
proof -
  from assms(3) obtain u where u: "jget (pt_coins p) h = Some u" "UTXO_abs u = m"
    by (auto simp: PatchDB_abs_def split: option.splits)
  have "UTXO_wf u" using assms(1) u(1) by (auto simp: PatchDB_utxosOk_def dest: PatchDB_coinsOkD)
  from UTXO_addCoins_cases [OF this, of i c] u assms(2,4) show ?thesis
    by (auto simp: PatchDB_createCoins_def PatchDB_sameRest_def)
qed

lemma PatchDB_mergeUnspent:
  assumes "PatchDB_utxosOk p" and "isHash256 h" and "PatchDB_abs p h = Some (m, s)"
    and "UTXO_wf my" and "set idxs \<subseteq> set (utxo_arrIndexes my)" and "distinct idxs"
    and "dom m \<inter> set idxs = {}"
  shows "\<exists>p'. foldR (\<lambda>idx p. bindR (UTXO_coinsAtIndex my idx) (\<lambda>c. PatchDB_createCoins h idx c p)) idxs p
      = Inr p' \<and> PatchDB_utxosOk p' \<and>
      PatchDB_abs p' = (PatchDB_abs p)(h \<mapsto> (m ++ (UTXO_abs my |` set idxs), s)) \<and>
      PatchDB_sameRest p' p"
  using assms
proof (induction idxs arbitrary: p m)
  case Nil
  then show ?case by (intro exI [of _ p]) (simp add: fun_upd_idem)
next
  case (Cons i idxs)
  have at: "UTXO_coinsAtIndex my i = Inr (UTXO_at my i)"
    using Cons.prems(4,5) by (simp add: UTXO_coinsAtIndex_at)
  have "m i = None" using Cons.prems(7) by auto
  with PatchDB_createCoins_ok [OF Cons.prems(1-3)] obtain p1 where
    p1: "PatchDB_createCoins h i (UTXO_at my i) p = Inr p1" "PatchDB_sameRest p1 p" by blast
  note D = PatchDB_createCoins_InrD [OF Cons.prems(1) p1(1)]
  have abs1: "PatchDB_abs p1 h = Some (m(i \<mapsto> UTXO_at my i), s)"
    using D(2) Cons.prems(3) by simp
  have d: "dom (m(i \<mapsto> UTXO_at my i)) \<inter> set idxs = {}" "distinct idxs"
    "set idxs \<subseteq> set (utxo_arrIndexes my)" using Cons.prems(5-7) by auto
  obtain p' where
    p': "foldR (\<lambda>idx p. bindR (UTXO_coinsAtIndex my idx) (\<lambda>c. PatchDB_createCoins h idx c p)) idxs p1
      = Inr p'" "PatchDB_utxosOk p'" "PatchDB_sameRest p' p1"
      "PatchDB_abs p' = (PatchDB_abs p1)(h \<mapsto> (m(i \<mapsto> UTXO_at my i) ++ (UTXO_abs my |` set idxs), s))"
    using Cons.IH [OF D(1) Cons.prems(2) abs1 Cons.prems(4) d(3,2,1)] by blast
  have "UTXO_abs my i = Some (UTXO_at my i)"
    using UTXO_abs_index [OF Cons.prems(4), of i] Cons.prems(5) by (auto simp: UTXO_at_def)
  then have "m(i \<mapsto> UTXO_at my i) ++ (UTXO_abs my |` set idxs) = m ++ (UTXO_abs my |` set (i # idxs))"
    by (auto simp: fun_eq_iff map_add_def restrict_map_def split: option.splits)
  with p' p1 at D(2) show ?case
    by (auto intro: PatchDB_sameRest_trans)
qed

lemma foldR_assert:
  "foldR (\<lambda>x _. assertR (P x) e) xs () = (if \<forall>x\<in>set xs. P x then Inr () else Inl e)"
proof (induction xs)
  case (Cons x xs)
  then show ?case by (cases "P x") simp_all
qed simp

lemma PatchDB_setSpentAll_sameRest: "PatchDB_sameRest (PatchDB_setSpentAll h m p) p"
  by (simp add: PatchDB_sameRest_def PatchDB_setSpentAll_simps)

lemma PatchDB_abs_setSpentAll:
  assumes "jwf m" and "PatchDB_abs p h = Some (u, s)"
  shows "PatchDB_abs (PatchDB_setSpentAll h m p) = (PatchDB_abs p)(h \<mapsto> (u, s ++ jget m))"
proof
  fix h'
  from assms show "PatchDB_abs (PatchDB_setSpentAll h m p) h' =
      ((PatchDB_abs p)(h \<mapsto> (u, s ++ jget m))) h'"
    by (cases "h' = h")
       (auto simp: PatchDB_abs_def PatchDB_setSpentAll_simps PatchDB_setSpentAll_spent
         split: option.splits)
qed

lemma PatchDB_mergeOne_abs:
  assumes r: "PatchDB_utxosOk r" "PatchDB_abs r h = None"
    and ok: "PatchDB_utxosOk this" "PatchDB_utxosOk patch"
    and u: "UTXO_wf u" "utxo_txHash u = h" "isHash256 h"
    and x: "(jget (pt_coins this) h = Some u \<and> jget (pt_coins patch) h = None) \<or>
            (jget (pt_coins this) h = None \<and> jget (pt_coins patch) h = Some u)"
  defines "r' \<equiv> PatchDB_mergeOne this patch h u r"
  shows "PatchDB_utxosOk r'"
    and "PatchDB_abs r' = (PatchDB_abs r)(h := ujoin (PatchDB_abs this h) (PatchDB_abs patch h))"
    and "PatchDB_sameRest r' r"
proof -
  let ?r1 = "r\<lparr>pt_coins := jset h u (pt_coins r)\<rparr>"
  let ?m = "if length (PatchDB_getSpentOutputs h this) \<noteq> 0 then PatchDB_getSpentOutputs h this
            else PatchDB_getSpentOutputs h patch"
  have r': "r' = PatchDB_setSpentAll h ?m ?r1" by (simp add: r'_def PatchDB_mergeOne_def Let_def)
  have gs: "PatchDB_getSpentOutputs h' ?r1 = PatchDB_getSpentOutputs h' r" for h'
    by (simp add: PatchDB_getSpentOutputs_def)
  have nil: "PatchDB_getSpentOutputs h r = []"
    using r PatchDB_spent_noCoins PatchDB_abs_None by metis
  have ok1: "PatchDB_utxosOk ?r1"
    using r(1) u PatchDB_coinsOk_jset by (auto simp: PatchDB_utxosOk_def PatchDB_spentOk_def js_simps)
  have m: "jwf ?m" "\<forall>(i, x)\<in>set ?m. isHash256 x"
    using PatchDB_jwf_getSpent [OF ok(1), of h] PatchDB_jwf_getSpent [OF ok(2), of h]
      PatchDB_getSpent_isHash [OF ok(1), of h] PatchDB_getSpent_isHash [OF ok(2), of h]
    by simp_all
  have abs1: "PatchDB_abs ?r1 = (PatchDB_abs r)(h \<mapsto> (UTXO_abs u, Map.empty))"
    using nil by (auto simp: fun_eq_iff PatchDB_abs_def js_simps gs split: option.splits)
  show "PatchDB_utxosOk r'"
    unfolding r' by (rule PatchDB_utxosOk_setSpentAll [OF ok1 _ m(2)]) (simp add: js_simps)
  have join: "ujoin (PatchDB_abs this h) (PatchDB_abs patch h) = Some (UTXO_abs u, jget ?m)"
    using x ok PatchDB_spent_noCoins
    by (fastforce simp: PatchDB_abs_def)
  show "PatchDB_abs r' = (PatchDB_abs r)(h := ujoin (PatchDB_abs this h) (PatchDB_abs patch h))"
    using PatchDB_abs_setSpentAll [OF m(1), of ?r1 h "UTXO_abs u" Map.empty] abs1
    unfolding r' join by (simp add: fun_upd_upd)
  show "PatchDB_sameRest r' r"
    unfolding r' using PatchDB_setSpentAll_sameRest
    by (rule PatchDB_sameRest_trans) (simp add: PatchDB_sameRest_def)
qed

definition PatchDB_conflict :: js_error where
  "PatchDB_conflict = AssertionError ''Patch merge: conflict''"

lemma PatchDB_mergeBoth_abs:
  assumes r: "PatchDB_utxosOk r" "PatchDB_abs r h = None"
    and ok: "PatchDB_utxosOk this" "PatchDB_utxosOk patch" and h: "isHash256 h"
    and my: "jget (pt_coins this) h = Some my" and his: "jget (pt_coins patch) h = Some his"
  shows "if ucompat (PatchDB_abs this h) (PatchDB_abs patch h)
     then \<exists>r'. PatchDB_mergeBoth this patch h my his r = Inr r' \<and> PatchDB_utxosOk r' \<and>
       PatchDB_abs r' = (PatchDB_abs r)(h := ujoin (PatchDB_abs this h) (PatchDB_abs patch h)) \<and>
       PatchDB_sameRest r' r
     else PatchDB_mergeBoth this patch h my his r = Inl PatchDB_conflict"
proof -
  let ?mm = "PatchDB_getSpentOutputs h this" and ?mh = "PatchDB_getSpentOutputs h patch"
  let ?is = "arrayIntersection (UTXO_getIndexes my) (UTXO_getIndexes his)"
  have wf: "UTXO_wf my" "UTXO_wf his"
    using ok my his by (auto simp: PatchDB_utxosOk_def dest: PatchDB_coinsOkD)
  have nil: "PatchDB_getSpentOutputs h r = []"
    using r PatchDB_spent_noCoins PatchDB_abs_None by metis
  obtain u where u: "UTXO_new h = Inr u" using h by (cases h) (auto simp: UTXO_new_def isHash256_def)
  note u' = UTXO_wf_new [OF u]
  let ?r1 = "PatchDB_setUtxo u r"
  have gs: "PatchDB_getSpentOutputs h' ?r1 = PatchDB_getSpentOutputs h' r" for h'
    by (simp add: PatchDB_getSpentOutputs_def PatchDB_setUtxo_def)
  have ok1: "PatchDB_utxosOk ?r1"
    using r(1) u' h PatchDB_coinsOk_jset
    by (auto simp: PatchDB_utxosOk_def PatchDB_spentOk_def PatchDB_setUtxo_def UTXO_getTxHash_def
        js_simps)
  have abs1: "PatchDB_abs ?r1 = (PatchDB_abs r)(h \<mapsto> (Map.empty, Map.empty))"
    using nil u' by (auto simp: fun_eq_iff PatchDB_abs_def js_simps gs PatchDB_setUtxo_def
        UTXO_getTxHash_def gs [unfolded PatchDB_setUtxo_def UTXO_getTxHash_def] split: option.splits)
  have sub: "set ?is \<subseteq> set (utxo_arrIndexes my)" "distinct ?is"
    using wf by (auto simp: UTXO_getIndexes_def UTXO_wf_def intro: distinct_arrayIntersection)
  have abs1h: "PatchDB_abs ?r1 h = Some (Map.empty, Map.empty)" using abs1 by simp
  obtain r2 where r2: "foldR (\<lambda>idx p. bindR (UTXO_coinsAtIndex my idx)
      (\<lambda>c. PatchDB_createCoins h idx c p)) ?is ?r1 = Inr r2" "PatchDB_utxosOk r2"
    "PatchDB_sameRest r2 ?r1"
    "PatchDB_abs r2 = (PatchDB_abs ?r1)(h \<mapsto> (Map.empty ++ (UTXO_abs my |` set ?is), Map.empty))"
    using PatchDB_mergeUnspent [OF ok1 h abs1h wf(1) sub] by auto
  have dis: "UTXO_abs my |` set ?is = UTXO_abs my |` dom (UTXO_abs his)"
  proof -
    have "set ?is = dom (UTXO_abs my) \<inter> dom (UTXO_abs his)"
      by (simp add: UTXO_getIndexes_def dom_UTXO_abs wf)
    then show ?thesis by (auto simp: fun_eq_iff restrict_map_def domIff)
  qed
  have compat: "ucompat (PatchDB_abs this h) (PatchDB_abs patch h) \<longleftrightarrow>
      (\<forall>i\<in>set (arrayIntersection (jkeys ?mm) (jkeys ?mh)). jget ?mm i = jget ?mh i)"
    using my his by (simp add: PatchDB_abs_def js_dom)
  let ?a = "PatchDB_setSpentAll h ?mm r2"
  let ?b = "PatchDB_setSpentAll h ?mh ?a"
  have run: "PatchDB_mergeBoth this patch h my his r =
      (if ucompat (PatchDB_abs this h) (PatchDB_abs patch h) then Inr ?b else Inl PatchDB_conflict)"
    by (simp add: PatchDB_mergeBoth_def Let_def u r2(1) foldR_assert compat PatchDB_conflict_def)
  have jw: "jwf ?mm" "jwf ?mh"
    using PatchDB_jwf_getSpent [OF ok(1)] PatchDB_jwf_getSpent [OF ok(2)] by auto
  have abs2: "PatchDB_abs r2 h = Some (UTXO_abs my |` dom (UTXO_abs his), Map.empty)"
    using r2(4) dis by simp
  have absa: "PatchDB_abs ?a = (PatchDB_abs r2)(h \<mapsto>
      (UTXO_abs my |` dom (UTXO_abs his), Map.empty ++ jget ?mm))"
    by (rule PatchDB_abs_setSpentAll [OF jw(1) abs2])
  then have "PatchDB_abs ?a h = Some (UTXO_abs my |` dom (UTXO_abs his), jget ?mm)" by simp
  note absb = PatchDB_abs_setSpentAll [OF jw(2) this]
  have c2: "jget (pt_coins r2) h \<noteq> None" using abs2 PatchDB_abs_None by (metis option.distinct(1))
  have oka: "PatchDB_utxosOk ?a"
    by (rule PatchDB_utxosOk_setSpentAll [OF r2(2) c2 PatchDB_getSpent_isHash [OF ok(1)]])
  have ca: "jget (pt_coins ?a) h \<noteq> None" using c2 by (simp add: PatchDB_setSpentAll_simps)
  have okb: "PatchDB_utxosOk ?b"
    by (rule PatchDB_utxosOk_setSpentAll [OF oka ca PatchDB_getSpent_isHash [OF ok(2)]])
  have "PatchDB_abs ?b = (PatchDB_abs r)(h := ujoin (PatchDB_abs this h) (PatchDB_abs patch h))"
    using absb absa r2(4) abs1 my his by (simp add: PatchDB_abs_def [of this] PatchDB_abs_def [of patch])
  moreover have "PatchDB_sameRest ?b r"
    using r2(3) by (simp add: PatchDB_sameRest_def PatchDB_setSpentAll_simps PatchDB_setUtxo_def)
  ultimately show ?thesis using run okb by simp
qed

lemma PatchDB_mergeCoin_abs:
  assumes r: "PatchDB_utxosOk r" "PatchDB_abs r h = None"
    and ok: "PatchDB_utxosOk this" "PatchDB_utxosOk patch"
    and h: "jget (pt_coins this) h \<noteq> None \<or> jget (pt_coins patch) h \<noteq> None"
  shows "if ucompat (PatchDB_abs this h) (PatchDB_abs patch h)
     then \<exists>r'. PatchDB_mergeCoin this patch h r = Inr r' \<and> PatchDB_utxosOk r' \<and>
       PatchDB_abs r' = (PatchDB_abs r)(h := ujoin (PatchDB_abs this h) (PatchDB_abs patch h)) \<and>
       PatchDB_sameRest r' r
     else PatchDB_mergeCoin this patch h r = Inl PatchDB_conflict"
proof -
  have D: "jget (pt_coins q) h = Some u \<Longrightarrow> PatchDB_utxosOk q \<Longrightarrow>
      UTXO_wf u \<and> utxo_txHash u = h \<and> isHash256 h" for q u
    by (auto simp: PatchDB_utxosOk_def dest: PatchDB_coinsOkD)
  consider (one) u where "(jget (pt_coins this) h = Some u \<and> jget (pt_coins patch) h = None) \<or>
        (jget (pt_coins this) h = None \<and> jget (pt_coins patch) h = Some u)"
    | (both) u v where "jget (pt_coins this) h = Some u" "jget (pt_coins patch) h = Some v"
    using h by fastforce
  then show ?thesis
  proof cases
    case one
    then have w: "UTXO_wf u" "utxo_txHash u = h" "isHash256 h" using D ok by blast+
    have "ucompat (PatchDB_abs this h) (PatchDB_abs patch h)"
      using one by (auto simp: PatchDB_abs_def)
    moreover have "PatchDB_mergeCoin this patch h r = Inr (PatchDB_mergeOne this patch h u r)"
      using one by (auto simp: PatchDB_mergeCoin_def)
    ultimately show ?thesis using PatchDB_mergeOne_abs [OF r ok w one] by simp
  next
    case both
    with D ok have h: "isHash256 h" by blast
    with both PatchDB_mergeBoth_abs [OF r ok h both] show ?thesis
      by (simp add: PatchDB_mergeCoin_def)
  qed
qed

lemma PatchDB_mergeCoins_loop:
  assumes "PatchDB_utxosOk r" and ok: "PatchDB_utxosOk this" "PatchDB_utxosOk patch"
    and "distinct hs" and "\<forall>h\<in>set hs. PatchDB_abs r h = None"
    and "\<forall>h\<in>set hs. jget (pt_coins this) h \<noteq> None \<or> jget (pt_coins patch) h \<noteq> None"
  shows "if \<forall>h\<in>set hs. ucompat (PatchDB_abs this h) (PatchDB_abs patch h)
     then \<exists>r'. foldR (PatchDB_mergeCoin this patch) hs r = Inr r' \<and> PatchDB_utxosOk r' \<and>
       PatchDB_abs r' = (\<lambda>h. if h \<in> set hs then ujoin (PatchDB_abs this h) (PatchDB_abs patch h)
                             else PatchDB_abs r h) \<and> PatchDB_sameRest r' r
     else foldR (PatchDB_mergeCoin this patch) hs r = Inl PatchDB_conflict"
  using assms(1,4-)
proof (induction hs arbitrary: r)
  case (Cons h hs)
  let ?c = "ucompat (PatchDB_abs this h) (PatchDB_abs patch h)"
  have hd: "PatchDB_abs r h = None" "jget (pt_coins this) h \<noteq> None \<or> jget (pt_coins patch) h \<noteq> None"
    using Cons.prems(3,4) by auto
  note step = PatchDB_mergeCoin_abs [OF Cons.prems(1) hd(1) ok hd(2)]
  show ?case
  proof (cases ?c)
    case True
    with step obtain r1 where r1: "PatchDB_mergeCoin this patch h r = Inr r1" "PatchDB_utxosOk r1"
      "PatchDB_abs r1 = (PatchDB_abs r)(h := ujoin (PatchDB_abs this h) (PatchDB_abs patch h))"
      "PatchDB_sameRest r1 r" by auto
    have d: "distinct hs" "\<forall>h\<in>set hs. PatchDB_abs r1 h = None"
      "\<forall>h\<in>set hs. jget (pt_coins this) h \<noteq> None \<or> jget (pt_coins patch) h \<noteq> None"
      using Cons.prems(2-4) r1(3) by auto
    note IH = Cons.IH [OF r1(2) d]
    show ?thesis
    proof (cases "\<forall>h\<in>set hs. ucompat (PatchDB_abs this h) (PatchDB_abs patch h)")
      case all: True
      with IH obtain r' where r': "foldR (PatchDB_mergeCoin this patch) hs r1 = Inr r'"
        "PatchDB_utxosOk r'" "PatchDB_sameRest r' r1"
        "PatchDB_abs r' = (\<lambda>h. if h \<in> set hs then ujoin (PatchDB_abs this h) (PatchDB_abs patch h)
                             else PatchDB_abs r1 h)" by auto
      have "PatchDB_sameRest r' r" using r'(3) r1(4) by (rule PatchDB_sameRest_trans)
      with r' r1 True all show ?thesis by (auto simp: fun_eq_iff)
    qed (use IH r1(1) True in auto)
  next
    case False
    with step show ?thesis by simp
  qed
qed simp

text \<open>The UTXO part of \<open>merge\<close>, started on a patch that has no UTXO yet.\<close>

lemma PatchDB_mergeCoins_abs:
  assumes ok: "PatchDB_utxosOk this" "PatchDB_utxosOk patch" "PatchDB_utxosOk r"
    and "\<forall>h. PatchDB_abs r h = None"
  shows "if \<forall>h. ucompat (PatchDB_abs this h) (PatchDB_abs patch h)
     then \<exists>r'. PatchDB_mergeCoins this patch r = Inr r' \<and> PatchDB_utxosOk r' \<and>
       PatchDB_abs r' = (\<lambda>h. ujoin (PatchDB_abs this h) (PatchDB_abs patch h)) \<and>
       PatchDB_sameRest r' r
     else PatchDB_mergeCoins this patch r = Inl PatchDB_conflict"
proof -
  let ?hs = "sof (jkeys (pt_coins this) @ jkeys (pt_coins patch))"
  have dom: "h \<in> set ?hs \<longleftrightarrow> jget (pt_coins this) h \<noteq> None \<or> jget (pt_coins patch) h \<noteq> None" for h
    by (auto simp: js_dom)
  have out: "h \<notin> set ?hs \<Longrightarrow> PatchDB_abs this h = None \<and> PatchDB_abs patch h = None" for h
    using dom [of h] unfolding PatchDB_abs_None by blast
  have eq1: "(\<forall>h\<in>set ?hs. ucompat (PatchDB_abs this h) (PatchDB_abs patch h)) \<longleftrightarrow>
      (\<forall>h. ucompat (PatchDB_abs this h) (PatchDB_abs patch h))"
    using out by (metis ucompat.simps(2))
  have eq2: "(\<lambda>h. if h \<in> set ?hs then ujoin (PatchDB_abs this h) (PatchDB_abs patch h)
      else PatchDB_abs r h) = (\<lambda>h. ujoin (PatchDB_abs this h) (PatchDB_abs patch h))"
    using out assms(4) by (auto simp: fun_eq_iff)
  have p1: "\<forall>h\<in>set ?hs. PatchDB_abs r h = None" using assms(4) by simp
  have p2: "\<forall>h\<in>set ?hs. jget (pt_coins this) h \<noteq> None \<or> jget (pt_coins patch) h \<noteq> None"
    using dom by blast
  from PatchDB_mergeCoins_loop [OF ok(3,1,2) distinct_sof p1 p2]
  show ?thesis unfolding eq1 eq2 PatchDB_mergeCoins_def .
qed

section \<open>Levels, contracts and receipts\<close>

lemma PatchDB_mergeLevels_get:
  "jget (PatchDB_mergeLevels p q) c =
     (if jget (pt_mapConciliumLevel p) c = None \<and> jget (pt_mapConciliumLevel q) c = None then None
      else Some (max (orZero (jget (pt_mapConciliumLevel p) c))
                     (orZero (jget (pt_mapConciliumLevel q) c))))"
  by (auto simp: PatchDB_mergeLevels_def jm.get_fold_put js_dom)

definition PatchDB_contractsOk :: "'d patch \<Rightarrow> bool" where
  "PatchDB_contractsOk p \<longleftrightarrow> jwf (pt_mapContractStates p) \<and>
     (\<forall>a c. jget (pt_mapContractStates p) a = Some c \<longrightarrow> ct_strAddress c = Some a \<and> a \<noteq> [])"

definition PatchDB_receiptsOk :: "'d patch \<Rightarrow> bool" where
  "PatchDB_receiptsOk p \<longleftrightarrow> jwf (pt_mapTxReceipts p) \<and>
     (\<forall>h r. jget (pt_mapTxReceipts p) h = Some r \<longrightarrow> isHash256 h)"

definition PatchDB_sameConcilium :: "'d patch \<Rightarrow> 'd patch \<Rightarrow> addr \<Rightarrow> bool" where
  "PatchDB_sameConcilium p q a \<longleftrightarrow>
     (\<forall>c d. PatchDB_getContract a p = Some c \<longrightarrow> PatchDB_getContract a q = Some d \<longrightarrow>
        Contract_getConciliumId c = Contract_getConciliumId d)"

definition PatchDB_winnerOpt :: "bool \<Rightarrow> 'd patch \<Rightarrow> 'd patch \<Rightarrow> addr \<Rightarrow> 'd contract option" where
  "PatchDB_winnerOpt b p q a = (case PatchDB_winner b p q a of Inl _ \<Rightarrow> None | Inr c \<Rightarrow> Some c)"

lemma PatchDB_winner_ok:
  assumes "PatchDB_contractsOk p" and "PatchDB_contractsOk q"
    and "jget (pt_mapContractStates p) a \<noteq> None \<or> jget (pt_mapContractStates q) a \<noteq> None"
  shows "if PatchDB_sameConcilium p q a
     then \<exists>c. PatchDB_winner b p q a = Inr c \<and> ct_strAddress c = Some a \<and> a \<noteq> []
     else PatchDB_winner b p q a = Inl (AssertionError ''Contract belongs to different conciliums'')"
  using assms
  by (auto simp: PatchDB_winner_def PatchDB_sameConcilium_def PatchDB_contractsOk_def
      PatchDB_getContract_def split: option.splits)

lemma PatchDB_setContract_new:
  "ct_strAddress c = Some a \<Longrightarrow> a \<noteq> [] \<Longrightarrow> jget (pt_mapContractStates p) a = None \<Longrightarrow>
   PatchDB_setContract S c p = Inr (p\<lparr>pt_mapContractStates := jset a c (pt_mapContractStates p)\<rparr>)"
  by (simp add: PatchDB_setContract_def Contract_getStoredAddress_def)

lemma PatchDB_mergeContracts_loop:
  assumes ok: "PatchDB_contractsOk p" "PatchDB_contractsOk q"
    and "distinct as" and "\<forall>a\<in>set as. jget (pt_mapContractStates r) a = None"
    and "\<forall>a\<in>set as. jget (pt_mapContractStates p) a \<noteq> None \<or> jget (pt_mapContractStates q) a \<noteq> None"
    and "PatchDB_contractsOk r"
  shows "if \<forall>a\<in>set as. PatchDB_sameConcilium p q a
     then \<exists>cs. foldR (\<lambda>a r. bindR (PatchDB_winner b p q a) (\<lambda>c. PatchDB_setContract S (Contract_clone S c) r))
            as r = Inr (r\<lparr>pt_mapContractStates := cs\<rparr>) \<and>
        PatchDB_contractsOk (r\<lparr>pt_mapContractStates := cs\<rparr>) \<and>
        jget cs = (\<lambda>a. if a \<in> set as then map_option (Contract_clone S) (PatchDB_winnerOpt b p q a)
                      else jget (pt_mapContractStates r) a)
     else foldR (\<lambda>a r. bindR (PatchDB_winner b p q a) (\<lambda>c. PatchDB_setContract S (Contract_clone S c) r))
            as r = Inl (AssertionError ''Contract belongs to different conciliums'')"
  using assms(3-)
proof (induction as arbitrary: r)
  case Nil
  then show ?case by (auto intro!: exI [of _ "pt_mapContractStates r"])
next
  case (Cons a as)
  have ha: "jget (pt_mapContractStates p) a \<noteq> None \<or> jget (pt_mapContractStates q) a \<noteq> None"
    using Cons.prems(3) by simp
  note w = PatchDB_winner_ok [OF ok ha, of b]
  show ?case
  proof (cases "PatchDB_sameConcilium p q a")
    case True
    with w obtain c where c: "PatchDB_winner b p q a = Inr c" "ct_strAddress c = Some a" "a \<noteq> []" by auto
    let ?r1 = "r\<lparr>pt_mapContractStates := jset a (Contract_clone S c) (pt_mapContractStates r)\<rparr>"
    have s: "PatchDB_setContract S (Contract_clone S c) r = Inr ?r1"
      using c Cons.prems(2) by (intro PatchDB_setContract_new) simp_all
    have "distinct as" "\<forall>a\<in>set as. jget (pt_mapContractStates ?r1) a = None"
      "\<forall>a\<in>set as. jget (pt_mapContractStates p) a \<noteq> None \<or> jget (pt_mapContractStates q) a \<noteq> None"
      "PatchDB_contractsOk ?r1"
      using Cons.prems c by (auto simp: js_simps PatchDB_contractsOk_def)
    note IH = Cons.IH [OF this]
    show ?thesis
    proof (cases "\<forall>a\<in>set as. PatchDB_sameConcilium p q a")
      case all: True
      with IH obtain cs where cs: "foldR (\<lambda>a r. bindR (PatchDB_winner b p q a)
            (\<lambda>c. PatchDB_setContract S (Contract_clone S c) r)) as ?r1 = Inr (?r1\<lparr>pt_mapContractStates := cs\<rparr>)"
        "PatchDB_contractsOk (?r1\<lparr>pt_mapContractStates := cs\<rparr>)"
        "jget cs = (\<lambda>a. if a \<in> set as then map_option (Contract_clone S) (PatchDB_winnerOpt b p q a)
                      else jget (pt_mapContractStates ?r1) a)" by auto
      have "PatchDB_winnerOpt b p q a = Some c" using c by (simp add: PatchDB_winnerOpt_def)
      with cs s c True all show ?thesis
        by (intro iffD2 [OF if_P] exI [of _ cs])
           (auto simp: fun_eq_iff js_simps)
    qed (use IH s c True in auto)
  next
    case False
    with w show ?thesis by simp
  qed
qed

lemma PatchDB_mergeContracts_abs:
  assumes ok: "PatchDB_contractsOk p" "PatchDB_contractsOk q" and r: "pt_mapContractStates r = []"
  shows "if \<forall>a. PatchDB_sameConcilium p q a
     then \<exists>cs. PatchDB_mergeContracts S b p q r = Inr (r\<lparr>pt_mapContractStates := cs\<rparr>) \<and>
        PatchDB_contractsOk (r\<lparr>pt_mapContractStates := cs\<rparr>) \<and>
        jget cs = (\<lambda>a. map_option (Contract_clone S) (PatchDB_winnerOpt b p q a))
     else PatchDB_mergeContracts S b p q r =
        Inl (AssertionError ''Contract belongs to different conciliums'')"
proof -
  let ?as = "getMapsKeysUnique [pt_mapContractStates p, pt_mapContractStates q]"
  have mem: "a \<in> set ?as \<longleftrightarrow>
      jget (pt_mapContractStates p) a \<noteq> None \<or> jget (pt_mapContractStates q) a \<noteq> None" for a
    by (auto simp: js_dom)
  have eq1: "(\<forall>a\<in>set ?as. PatchDB_sameConcilium p q a) \<longleftrightarrow> (\<forall>a. PatchDB_sameConcilium p q a)"
  proof -
    have "a \<notin> set ?as \<Longrightarrow> PatchDB_sameConcilium p q a" for a
      unfolding mem by (simp add: PatchDB_sameConcilium_def PatchDB_getContract_def)
    then show ?thesis by blast
  qed
  have eq2: "(\<lambda>a. if a \<in> set ?as then map_option (Contract_clone S) (PatchDB_winnerOpt b p q a)
      else jget (pt_mapContractStates r) a) =
      (\<lambda>a. map_option (Contract_clone S) (PatchDB_winnerOpt b p q a))"
    using r mem by (auto simp: fun_eq_iff PatchDB_winnerOpt_def PatchDB_winner_def
        PatchDB_getContract_def split: option.splits)
  have p1: "\<forall>a\<in>set ?as. jget (pt_mapContractStates r) a = None" using r by simp
  have p2: "\<forall>a\<in>set ?as. jget (pt_mapContractStates p) a \<noteq> None \<or> jget (pt_mapContractStates q) a \<noteq> None"
    using mem by blast
  have p3: "PatchDB_contractsOk r" using r by (simp add: PatchDB_contractsOk_def)
  from PatchDB_mergeContracts_loop [OF ok distinct_getMapsKeysUnique p1 p2 p3, of b S]
  show ?thesis unfolding eq1 eq2 PatchDB_mergeContracts_def .
qed

lemma PatchDB_mergeReceipt_new:
  assumes ok: "PatchDB_receiptsOk p" "PatchDB_receiptsOk q" "PatchDB_receiptsOk r"
    and "jget (pt_mapTxReceipts r) h = None"
    and "jget (pt_mapTxReceipts p) h \<noteq> None \<or> jget (pt_mapTxReceipts q) h \<noteq> None"
  defines "P \<equiv> \<forall>x y. jget (pt_mapTxReceipts p) h = Some x \<longrightarrow> jget (pt_mapTxReceipts q) h = Some y \<longrightarrow> x = y"
  shows "if P
     then \<exists>rs. PatchDB_mergeReceipt p q h r = Inr (r\<lparr>pt_mapTxReceipts := rs\<rparr>) \<and>
        PatchDB_receiptsOk (r\<lparr>pt_mapTxReceipts := rs\<rparr>) \<and>
        jget rs = (jget (pt_mapTxReceipts r))(h := (case jget (pt_mapTxReceipts p) h of
            Some x \<Rightarrow> Some x | None \<Rightarrow> jget (pt_mapTxReceipts q) h))
     else PatchDB_mergeReceipt p q h r = Inl (AssertionError ''patch.merge: Tx Collision detected'')"
proof -
  have h: "isHash256 h" using ok(1,2) assms(5) by (auto simp: PatchDB_receiptsOk_def)
  obtain x where x: "(case jget (pt_mapTxReceipts p) h of
      Some x \<Rightarrow> Some x | None \<Rightarrow> jget (pt_mapTxReceipts q) h) = Some x"
    using assms(5) by (cases "jget (pt_mapTxReceipts p) h") auto
  let ?rs = "jset h x (pt_mapTxReceipts r)"
  have "PatchDB_mergeReceipt p q h r = (if P then Inr (r\<lparr>pt_mapTxReceipts := ?rs\<rparr>)
      else Inl (AssertionError ''patch.merge: Tx Collision detected''))"
    using x h assms(4) unfolding P_def
    by (auto simp: PatchDB_mergeReceipt_def PatchDB_setReceipt_def TxReceipt_equals_def
        split: option.splits)
  moreover have "PatchDB_receiptsOk (r\<lparr>pt_mapTxReceipts := ?rs\<rparr>)"
    using ok(3) h by (auto simp: PatchDB_receiptsOk_def js_simps)
  ultimately show ?thesis using x by (auto simp: fun_eq_iff js_simps intro!: exI [of _ ?rs])
qed

definition PatchDB_sameReceipt :: "'d patch \<Rightarrow> 'd patch \<Rightarrow> hash \<Rightarrow> bool" where
  "PatchDB_sameReceipt p q h \<longleftrightarrow> (\<forall>x y. jget (pt_mapTxReceipts p) h = Some x \<longrightarrow>
     jget (pt_mapTxReceipts q) h = Some y \<longrightarrow> x = y)"

definition PatchDB_receiptOf :: "'d patch \<Rightarrow> 'd patch \<Rightarrow> hash \<Rightarrow> receipt option" where
  "PatchDB_receiptOf p q h = (case jget (pt_mapTxReceipts p) h of
     Some x \<Rightarrow> Some x | None \<Rightarrow> jget (pt_mapTxReceipts q) h)"

lemma PatchDB_mergeReceipts_loop:
  assumes ok: "PatchDB_receiptsOk p" "PatchDB_receiptsOk q" and "PatchDB_receiptsOk r"
    and "distinct hs" and "\<forall>h\<in>set hs. jget (pt_mapTxReceipts r) h = None"
    and "\<forall>h\<in>set hs. jget (pt_mapTxReceipts p) h \<noteq> None \<or> jget (pt_mapTxReceipts q) h \<noteq> None"
  shows "if \<forall>h\<in>set hs. PatchDB_sameReceipt p q h
     then \<exists>rs. foldR (PatchDB_mergeReceipt p q) hs r = Inr (r\<lparr>pt_mapTxReceipts := rs\<rparr>) \<and>
        PatchDB_receiptsOk (r\<lparr>pt_mapTxReceipts := rs\<rparr>) \<and>
        jget rs = (\<lambda>h. if h \<in> set hs then PatchDB_receiptOf p q h else jget (pt_mapTxReceipts r) h)
     else foldR (PatchDB_mergeReceipt p q) hs r =
        Inl (AssertionError ''patch.merge: Tx Collision detected'')"
  using assms(3-)
proof (induction hs arbitrary: r)
  case Nil
  then show ?case by (auto intro!: exI [of _ "pt_mapTxReceipts r"])
next
  case (Cons h hs)
  have h: "jget (pt_mapTxReceipts r) h = None"
    "jget (pt_mapTxReceipts p) h \<noteq> None \<or> jget (pt_mapTxReceipts q) h \<noteq> None"
    using Cons.prems(3,4) by simp_all
  note new = PatchDB_mergeReceipt_new [OF ok Cons.prems(1) h, folded PatchDB_sameReceipt_def
      PatchDB_receiptOf_def]
  show ?case
  proof (cases "PatchDB_sameReceipt p q h")
    case True
    with new obtain rs1 where r1: "PatchDB_mergeReceipt p q h r = Inr (r\<lparr>pt_mapTxReceipts := rs1\<rparr>)"
      "PatchDB_receiptsOk (r\<lparr>pt_mapTxReceipts := rs1\<rparr>)"
      "jget rs1 = (jget (pt_mapTxReceipts r))(h := PatchDB_receiptOf p q h)" by auto
    let ?r1 = "r\<lparr>pt_mapTxReceipts := rs1\<rparr>"
    have "distinct hs" "\<forall>h\<in>set hs. jget (pt_mapTxReceipts ?r1) h = None"
      "\<forall>h\<in>set hs. jget (pt_mapTxReceipts p) h \<noteq> None \<or> jget (pt_mapTxReceipts q) h \<noteq> None"
      using Cons.prems r1(3) by auto
    note IH = Cons.IH [OF r1(2) this]
    show ?thesis
    proof (cases "\<forall>h\<in>set hs. PatchDB_sameReceipt p q h")
      case all: True
      with IH obtain rs where rs: "foldR (PatchDB_mergeReceipt p q) hs ?r1 =
          Inr (?r1\<lparr>pt_mapTxReceipts := rs\<rparr>)" "PatchDB_receiptsOk (?r1\<lparr>pt_mapTxReceipts := rs\<rparr>)"
        "jget rs = (\<lambda>h. if h \<in> set hs then PatchDB_receiptOf p q h else jget (pt_mapTxReceipts ?r1) h)"
        by auto
      with r1 True all show ?thesis
        by (intro iffD2 [OF if_P] exI [of _ rs]) (auto simp: fun_eq_iff)
    qed (use IH r1(1) True in auto)
  next
    case False
    with new show ?thesis by simp
  qed
qed

lemma PatchDB_mergeReceipts_abs:
  assumes ok: "PatchDB_receiptsOk p" "PatchDB_receiptsOk q" and r: "pt_mapTxReceipts r = []"
  shows "if \<forall>h. PatchDB_sameReceipt p q h
     then \<exists>rs. PatchDB_mergeReceipts p q r = Inr (r\<lparr>pt_mapTxReceipts := rs\<rparr>) \<and>
        PatchDB_receiptsOk (r\<lparr>pt_mapTxReceipts := rs\<rparr>) \<and> jget rs = PatchDB_receiptOf p q
     else PatchDB_mergeReceipts p q r = Inl (AssertionError ''patch.merge: Tx Collision detected'')"
proof -
  let ?hs = "getMapsKeysUnique [pt_mapTxReceipts p, pt_mapTxReceipts q]"
  have mem: "h \<in> set ?hs \<longleftrightarrow>
      jget (pt_mapTxReceipts p) h \<noteq> None \<or> jget (pt_mapTxReceipts q) h \<noteq> None" for h
    by (auto simp: js_dom)
  have "h \<notin> set ?hs \<Longrightarrow> PatchDB_sameReceipt p q h \<and> PatchDB_receiptOf p q h = None" for h
    unfolding mem by (simp add: PatchDB_sameReceipt_def PatchDB_receiptOf_def)
  then have eq1: "(\<forall>h\<in>set ?hs. PatchDB_sameReceipt p q h) \<longleftrightarrow> (\<forall>h. PatchDB_sameReceipt p q h)"
    and eq2: "(\<lambda>h. if h \<in> set ?hs then PatchDB_receiptOf p q h else jget (pt_mapTxReceipts r) h) =
      PatchDB_receiptOf p q"
    using r by (auto simp: fun_eq_iff)
  have p1: "\<forall>h\<in>set ?hs. jget (pt_mapTxReceipts r) h = None" using r by simp
  have p2: "\<forall>h\<in>set ?hs. jget (pt_mapTxReceipts p) h \<noteq> None \<or> jget (pt_mapTxReceipts q) h \<noteq> None"
    using mem by blast
  have p3: "PatchDB_receiptsOk r" using r by (simp add: PatchDB_receiptsOk_def)
  from PatchDB_mergeReceipts_loop [OF ok p3 distinct_getMapsKeysUnique p1 p2]
  show ?thesis unfolding eq1 eq2 PatchDB_mergeReceipts_def .
qed

section \<open>The whole merge\<close>

definition PatchDB_wf :: "'d patch \<Rightarrow> bool" where
  "PatchDB_wf p \<longleftrightarrow> PatchDB_utxosOk p \<and> PatchDB_contractsOk p \<and> PatchDB_receiptsOk p"

definition PatchDB_noFork :: "bool \<Rightarrow> 'd patch \<Rightarrow> 'd patch \<Rightarrow> bool" where
  "PatchDB_noFork bPrefer p q \<longleftrightarrow>
     (pt_conciliumId p \<noteq> None \<and> pt_conciliumId q \<noteq> None \<and> \<not> bPrefer \<longrightarrow>
      pt_conciliumId p \<noteq> pt_conciliumId q \<or>
      PatchDB_getLevel (pt_conciliumId p) p \<noteq> PatchDB_getLevel (pt_conciliumId q) q)"

definition PatchDB_mergeable :: "bool \<Rightarrow> 'd patch \<Rightarrow> 'd patch \<Rightarrow> bool" where
  "PatchDB_mergeable b p q \<longleftrightarrow> PatchDB_noFork b p q \<and>
     (\<forall>h. ucompat (PatchDB_abs p h) (PatchDB_abs q h)) \<and>
     (\<forall>a. PatchDB_sameConcilium p q a) \<and> (\<forall>h. PatchDB_sameReceipt p q h)"

lemma PatchDB_abs_cong:
  "pt_coins p = pt_coins q \<Longrightarrow> pt_mapSpentUtxos p = pt_mapSpentUtxos q \<Longrightarrow> PatchDB_abs p = PatchDB_abs q"
  by (auto simp: fun_eq_iff PatchDB_abs_def PatchDB_getSpentOutputs_def split: option.splits)

lemma PatchDB_utxosOk_cong:
  "pt_coins p = pt_coins q \<Longrightarrow> pt_mapSpentUtxos p = pt_mapSpentUtxos q \<Longrightarrow>
   PatchDB_utxosOk p = PatchDB_utxosOk q"
  by (simp add: PatchDB_utxosOk_def PatchDB_spentOk_def)

lemma PatchDB_merge_abs:
  assumes p: "PatchDB_wf p" and q: "PatchDB_wf q"
  shows "if PatchDB_mergeable b p q
     then \<exists>r. PatchDB_merge S b p q = Inr r \<and> PatchDB_wf r \<and>
        PatchDB_abs r = (\<lambda>h. ujoin (PatchDB_abs p h) (PatchDB_abs q h)) \<and>
        jget (pt_mapContractStates r) = (\<lambda>a. map_option (Contract_clone S) (PatchDB_winnerOpt b p q a)) \<and>
        jget (pt_mapTxReceipts r) = PatchDB_receiptOf p q \<and>
        pt_mapConciliumLevel r = PatchDB_mergeLevels p q \<and> pt_conciliumId r = None
     else \<not> isOk (PatchDB_merge S b p q)"
proof -
  let ?r0 = "PatchDB_empty\<lparr>pt_mapConciliumLevel := PatchDB_mergeLevels p q\<rparr>"
  have new: "PatchDB_new None = Inr PatchDB_empty"
    by (simp add: PatchDB_new_def PatchDB_setConciliumId_def)
  have r0: "PatchDB_utxosOk ?r0" "\<forall>h. PatchDB_abs ?r0 h = None"
    "pt_mapContractStates ?r0 = []" "pt_mapTxReceipts ?r0 = []" "pt_conciliumId ?r0 = None"
    by (simp_all add: PatchDB_utxosOk_def PatchDB_coinsOk_def PatchDB_spentOk_def PatchDB_empty_def
        PatchDB_abs_def)
  have u: "PatchDB_utxosOk p" "PatchDB_utxosOk q" and c: "PatchDB_contractsOk p" "PatchDB_contractsOk q"
    and t: "PatchDB_receiptsOk p" "PatchDB_receiptsOk q"
    using p q by (simp_all add: PatchDB_wf_def)
  note M = PatchDB_merge_def new bindR.simps
  note C = PatchDB_mergeCoins_abs [OF u r0(1,2)]
  consider (fork) "\<not> PatchDB_noFork b p q"
    | (spend) "PatchDB_noFork b p q" "\<not> (\<forall>h. ucompat (PatchDB_abs p h) (PatchDB_abs q h))"
    | (go) "PatchDB_noFork b p q" "\<forall>h. ucompat (PatchDB_abs p h) (PatchDB_abs q h)"
    by blast
  then show ?thesis
  proof cases
    case go
    with C obtain r1 where r1: "PatchDB_mergeCoins p q ?r0 = Inr r1" "PatchDB_utxosOk r1"
      "PatchDB_abs r1 = (\<lambda>h. ujoin (PatchDB_abs p h) (PatchDB_abs q h))" "PatchDB_sameRest r1 ?r0" by auto
    have r1': "pt_mapContractStates r1 = []" "pt_mapTxReceipts r1 = []"
      using r1(4) r0 by (simp_all add: PatchDB_sameRest_def)
    note K = PatchDB_mergeContracts_abs [OF c r1'(1), of S b]
    show ?thesis
    proof (cases "\<forall>a. PatchDB_sameConcilium p q a")
      case True
      with K obtain cs where cs: "PatchDB_mergeContracts S b p q r1 = Inr (r1\<lparr>pt_mapContractStates := cs\<rparr>)"
        "PatchDB_contractsOk (r1\<lparr>pt_mapContractStates := cs\<rparr>)"
        "jget cs = (\<lambda>a. map_option (Contract_clone S) (PatchDB_winnerOpt b p q a))" by auto
      let ?r2 = "r1\<lparr>pt_mapContractStates := cs\<rparr>"
      have "pt_mapTxReceipts ?r2 = []" using r1' by simp
      note R = PatchDB_mergeReceipts_abs [OF t this]
      show ?thesis
      proof (cases "\<forall>h. PatchDB_sameReceipt p q h")
        case same: True
        with R obtain rs where rs: "PatchDB_mergeReceipts p q ?r2 = Inr (?r2\<lparr>pt_mapTxReceipts := rs\<rparr>)"
          "PatchDB_receiptsOk (?r2\<lparr>pt_mapTxReceipts := rs\<rparr>)" "jget rs = PatchDB_receiptOf p q" by auto
        let ?r = "?r2\<lparr>pt_mapTxReceipts := rs\<rparr>"
        have "PatchDB_merge S b p q = Inr ?r"
          using go(1) r1(1) cs(1) rs(1) by (simp add: M PatchDB_noFork_def)
        moreover have "PatchDB_wf ?r"
          using cs(2) rs(2) PatchDB_utxosOk_cong [of ?r r1] r1(2)
          by (simp add: PatchDB_wf_def PatchDB_contractsOk_def)
        moreover have "PatchDB_abs ?r = PatchDB_abs r1" by (rule PatchDB_abs_cong) simp_all
        ultimately show ?thesis
          using go True same r1 cs(3) rs(3) r0(5)
          by (simp add: PatchDB_mergeable_def PatchDB_sameRest_def)
      next
        case False
        with R r1(1) cs(1) show ?thesis
          by (simp add: M PatchDB_mergeable_def isOk_bindR)
      qed
    next
      case False
      with K r1(1) show ?thesis by (simp add: M PatchDB_mergeable_def isOk_bindR)
    qed
  next
    case spend
    with C show ?thesis by (simp add: M PatchDB_mergeable_def isOk_bindR)
  next
    case fork
    then show ?thesis by (simp add: M PatchDB_mergeable_def PatchDB_noFork_def)
  qed
qed

section \<open>purge\<close>

fun upurge :: "ustate option \<Rightarrow> ustate option \<Rightarrow> ustate option" where
  "upurge (Some (u, s)) (Some (v, t)) =
     (if u = v \<and> s = t then None else Some (u |` (- dom t), s ++ (t |` dom u)))"
| "upurge x _ = x"

lemma PatchDB_spendingTnxsEqual_iff:
  assumes "jwf m" and "jwf n"
  shows "PatchDB_spendingTnxsEqual m n \<longleftrightarrow> jget m = jget n"
proof
  have len: "length x = card (dom (jget x))" if "jwf x" for x :: "(int, hash) jsmap"
    using jm.length_keys [OF that] by (simp add: jkeys_def)
  assume "PatchDB_spendingTnxsEqual m n"
  then have "length m = length n" and "\<forall>(i, x)\<in>set m. jget n i = Some x"
    by (auto simp: PatchDB_spendingTnxsEqual_def list_all_iff)
  then have card: "card (dom (jget m)) = card (dom (jget n))" and le: "jget m \<subseteq>\<^sub>m jget n"
    using assms len by (simp, fastforce simp: map_le_def dest: jget_Some_in)
  have "finite (dom (jget n))" by (simp add: jget_eq finite_dom_map_of)
  with card le have "dom (jget m) = dom (jget n)"
    using map_le_implies_dom_le [OF le] by (intro card_subset_eq)
  with le show "jget m = jget n" by (metis map_le_antisym map_le_def)
next
  assume eq: "jget m = jget n"
  have "length m = length n"
    using jm.length_keys [OF assms(1)] jm.length_keys [OF assms(2)] eq by (simp add: jkeys_def)
  moreover have "\<forall>(i, x)\<in>set m. jget n i = Some x"
    using jget_iff_in [OF assms(1)] eq by fastforce
  ultimately show "PatchDB_spendingTnxsEqual m n"
    by (auto simp: PatchDB_spendingTnxsEqual_def list_all_iff)
qed

lemma PatchDB_spendCoins_ok:
  assumes ok: "PatchDB_utxosOk p" and abs: "PatchDB_abs p (utxo_txHash u) = Some (m, s)"
    and "m i \<noteq> None" and "isHash256 x"
  shows "\<exists>p'. PatchDB_spendCoins u i x p = Inr p' \<and> PatchDB_utxosOk p' \<and>
     PatchDB_abs p' = (PatchDB_abs p)(utxo_txHash u \<mapsto> (m(i := None), s(i \<mapsto> x))) \<and>
     PatchDB_sameRest p' p"
proof -
  from abs obtain v where v: "jget (pt_coins p) (utxo_txHash u) = Some v" "UTXO_abs v = m"
    "PatchDB_spent p (utxo_txHash u) = s"
    by (auto simp: PatchDB_abs_def split: option.splits)
  have wf: "UTXO_wf v" "isHash256 (utxo_txHash u)" "utxo_txHash v = utxo_txHash u"
    using ok v(1) by (auto simp: PatchDB_utxosOk_def dest: PatchDB_coinsOkD)
  obtain v' where v': "UTXO_spendCoins i v = Inr v'" "UTXO_wf v'" "UTXO_abs v' = m(i := None)"
      "utxo_txHash v' = utxo_txHash u"
    using UTXO_spendCoins_cases [OF wf(1), of i] assms(3) v(2) wf(3) by auto
  let ?p1 = "p\<lparr>pt_coins := jset (utxo_txHash u) v' (pt_coins p)\<rparr>"
  let ?p' = "PatchDB_setSpentOutput (utxo_txHash u) i x ?p1"
  have run: "PatchDB_spendCoins u i x p = Inr ?p'"
    using v(1) v'(1) wf(2) assms(4)
    by (simp add: PatchDB_spendCoins_def PatchDB_getUtxo_def UTXO_getTxHash_def Let_def)
  have spent: "PatchDB_getSpentOutputs h (p\<lparr>pt_coins := c\<rparr>) = PatchDB_getSpentOutputs h p" for h c
    by (simp add: PatchDB_getSpentOutputs_def)
  have "PatchDB_utxosOk ?p1"
    using ok v' wf PatchDB_coinsOk_jset
    by (auto simp: PatchDB_utxosOk_def PatchDB_spentOk_def js_simps)
  then have "PatchDB_utxosOk ?p'"
    by (rule PatchDB_utxosOk_setSpent) (simp_all add: js_simps assms(4))
  moreover have "PatchDB_abs ?p' = (PatchDB_abs p)(utxo_txHash u \<mapsto> (m(i := None), s(i \<mapsto> x)))"
    using v(3) v'(3) by (auto simp: fun_eq_iff PatchDB_abs_def js_simps spent split: option.splits)
  moreover have "PatchDB_sameRest ?p' p" by (simp add: PatchDB_sameRest_def)
  ultimately show ?thesis using run by blast
qed

lemma PatchDB_purge_loop:
  assumes "PatchDB_utxosOk p" and "PatchDB_abs p (utxo_txHash u) = Some (m, s)"
    and "jwf ps" and "\<forall>(i, x)\<in>set ps. isHash256 x" and "fst ` set ps \<inter> I \<subseteq> dom m"
  shows "\<exists>p'. foldR (\<lambda>(i, x) p. if i \<in> I then PatchDB_spendCoins u i x p else Inr p) ps p = Inr p' \<and>
     PatchDB_utxosOk p' \<and> PatchDB_sameRest p' p \<and>
     PatchDB_abs p' = (PatchDB_abs p)(utxo_txHash u \<mapsto>
       (m |` (- (dom (jget ps) \<inter> I)), s ++ (jget ps |` I)))"
  using assms
proof (induction ps arbitrary: p m s)
  case Nil
  then show ?case by (auto simp: fun_upd_idem intro!: exI [of _ p])
next
  case (Cons e ps)
  obtain i x where e: "e = (i, x)" by fastforce
  have new: "jget ps i = None" and ps: "jwf ps" "\<forall>(i, x)\<in>set ps. isHash256 x"
    using Cons.prems(3,4) e by auto
  show ?case
  proof (cases "i \<in> I")
    case True
    then have "m i \<noteq> None" "isHash256 x" using Cons.prems(4,5) e by auto
    from PatchDB_spendCoins_ok [OF Cons.prems(1,2) this] obtain p1 where
      p1: "PatchDB_spendCoins u i x p = Inr p1" "PatchDB_utxosOk p1" "PatchDB_sameRest p1 p"
      "PatchDB_abs p1 = (PatchDB_abs p)(utxo_txHash u \<mapsto> (m(i := None), s(i \<mapsto> x)))" by blast
    have a1: "PatchDB_abs p1 (utxo_txHash u) = Some (m(i := None), s(i \<mapsto> x))" using p1(4) by simp
    have "i \<notin> fst ` set ps" using new by (metis jget_fst set_map)
    then have "fst ` set ps \<inter> I \<subseteq> dom (m(i := None))" using Cons.prems(5) e by auto
    from Cons.IH [OF p1(2) a1 ps this] obtain p' where
      p': "foldR (\<lambda>(i, x) p. if i \<in> I then PatchDB_spendCoins u i x p else Inr p) ps p1 = Inr p'"
      "PatchDB_utxosOk p'" "PatchDB_sameRest p' p1"
      "PatchDB_abs p' = (PatchDB_abs p1)(utxo_txHash u \<mapsto>
        ((m(i := None)) |` (- (dom (jget ps) \<inter> I)), s(i \<mapsto> x) ++ (jget ps |` I)))" by blast
    have mm: "(m(i := None)) |` (- (dom (jget ps) \<inter> I)) = m |` (- (dom (jget (e # ps)) \<inter> I))"
      using e True by (auto simp: fun_eq_iff restrict_map_def)
    have ss: "s(i \<mapsto> x) ++ (jget ps |` I) = s ++ (jget (e # ps) |` I)"
      using e True new by (auto simp: fun_eq_iff map_add_def restrict_map_def split: option.splits)
    have "PatchDB_abs p' = (PatchDB_abs p)(utxo_txHash u \<mapsto>
        (m |` (- (dom (jget (e # ps)) \<inter> I)), s ++ (jget (e # ps) |` I)))"
      using p'(4) unfolding p1(4) mm ss fun_upd_upd .
    moreover have "foldR (\<lambda>(i, x) p. if i \<in> I then PatchDB_spendCoins u i x p else Inr p) (e # ps) p = Inr p'"
      using p'(1) p1(1) e True by simp
    ultimately show ?thesis
      using p'(2) PatchDB_sameRest_trans [OF p'(3) p1(3)] by blast
  next
    case False
    have "fst ` set ps \<inter> I \<subseteq> dom m" using Cons.prems(5) by auto
    note IH = Cons.IH [OF Cons.prems(1,2) ps this]
    have eqs: "- (dom (jget (e # ps)) \<inter> I) = - (dom (jget ps) \<inter> I)" "jget (e # ps) |` I = jget ps |` I"
      using e False by (auto simp: fun_eq_iff restrict_map_def split: if_splits)
    have run: "foldR (\<lambda>(i, x) p. if i \<in> I then PatchDB_spendCoins u i x p else Inr p) (e # ps) p =
        foldR (\<lambda>(i, x) p. if i \<in> I then PatchDB_spendCoins u i x p else Inr p) ps p"
      using e False by simp
    from IH show ?thesis unfolding eqs run .
  qed
qed

lemma PatchDB_removeUtxo_abs:
  assumes "PatchDB_utxosOk p"
  shows "PatchDB_utxosOk (PatchDB_removeUtxo h p)"
    and "PatchDB_abs (PatchDB_removeUtxo h p) = (PatchDB_abs p)(h := None)"
    and "PatchDB_sameRest (PatchDB_removeUtxo h p) p"
  using assms
  by (auto simp: PatchDB_utxosOk_def PatchDB_coinsOk_def PatchDB_spentOk_def PatchDB_removeUtxo_def
      js_simps PatchDB_abs_def PatchDB_sameRest_def PatchDB_getSpentOutputs_def fun_eq_iff
      split: option.splits if_splits)

lemma PatchDB_purgeCoin_abs:
  assumes p: "PatchDB_utxosOk p" and q: "PatchDB_utxosOk q" and h: "PatchDB_abs q h \<noteq> None"
  shows "\<exists>p'. PatchDB_purgeCoin q h p = Inr p' \<and> PatchDB_utxosOk p' \<and> PatchDB_sameRest p' p \<and>
     PatchDB_abs p' = (PatchDB_abs p)(h := upurge (PatchDB_abs p h) (PatchDB_abs q h))"
proof -
  obtain v where v: "jget (pt_coins q) h = Some v" using h unfolding PatchDB_abs_None by blast
  have D: "UTXO_wf v" "utxo_txHash v = h" "isHash256 h"
    using v q by (auto simp: PatchDB_utxosOk_def dest: PatchDB_coinsOkD)
  show ?thesis
  proof (cases "jget (pt_coins p) h")
    case None
    then have "PatchDB_abs p h = None" by (simp add: PatchDB_abs_None)
    with None D(3) show ?thesis
      by (auto simp: PatchDB_purgeCoin_def PatchDB_getUtxo_ok fun_upd_idem p)
  next
    case (Some u)
    then have Du: "UTXO_wf u" "utxo_txHash u = h"
      using p by (auto simp: PatchDB_utxosOk_def dest: PatchDB_coinsOkD)
    let ?s = "PatchDB_getSpentOutputs h p" and ?t = "PatchDB_getSpentOutputs h q"
    have jw: "jwf ?s" "jwf ?t" using PatchDB_jwf_getSpent p q by auto
    have absp: "PatchDB_abs p (utxo_txHash u) = Some (UTXO_abs u, jget ?s)"
      and absq: "PatchDB_abs q h = Some (UTXO_abs v, jget ?t)"
      using Some v Du by (simp_all add: PatchDB_abs_def)
    let ?eq = "UTXO_abs u = UTXO_abs v \<and> jget ?s = jget ?t"
    let ?loop = "foldR (\<lambda>(i, x) p. if i \<in> set (UTXO_getIndexes u) then PatchDB_spendCoins u i x p else Inr p)
                  ?t p"
    have run: "PatchDB_purgeCoin q h p = (if ?eq then Inr (PatchDB_removeUtxo h p) else ?loop)"
      using Some v D Du
      by (simp add: PatchDB_purgeCoin_def PatchDB_getUtxo_ok UTXO_equals_abs
          PatchDB_spendingTnxsEqual_iff jw UTXO_getTxHash_def)
    show ?thesis
    proof (cases ?eq)
      case True
      with run PatchDB_removeUtxo_abs [OF p, of h] absp absq Du show ?thesis by simp
    next
      case False
      have dom: "set (UTXO_getIndexes u) = dom (UTXO_abs u)"
        by (simp add: UTXO_getIndexes_def dom_UTXO_abs Du)
      have "fst ` set ?t \<inter> set (UTXO_getIndexes u) \<subseteq> dom (UTXO_abs u)" using dom by blast
      from PatchDB_purge_loop [OF p absp jw(2) PatchDB_getSpent_isHash [OF q] this] obtain p' where
        p': "?loop = Inr p'" "PatchDB_utxosOk p'" "PatchDB_sameRest p' p"
        "PatchDB_abs p' = (PatchDB_abs p)(utxo_txHash u \<mapsto>
           (UTXO_abs u |` (- (dom (jget ?t) \<inter> set (UTXO_getIndexes u))),
            jget ?s ++ (jget ?t |` set (UTXO_getIndexes u))))" by blast
      have "UTXO_abs u |` (- (dom (jget ?t) \<inter> set (UTXO_getIndexes u))) = UTXO_abs u |` (- dom (jget ?t))"
        unfolding dom by (rule ext) (auto simp: restrict_map_def domIff)
      with p' run False absp absq Du dom show ?thesis by auto
    qed
  qed
qed

lemma PatchDB_purgeCoins_abs:
  assumes q: "PatchDB_utxosOk q" and "PatchDB_utxosOk p" and "distinct hs"
    and "\<forall>h\<in>set hs. PatchDB_abs q h \<noteq> None"
  shows "\<exists>p'. foldR (PatchDB_purgeCoin q) hs p = Inr p' \<and> PatchDB_utxosOk p' \<and> PatchDB_sameRest p' p \<and>
     PatchDB_abs p' = (\<lambda>h. if h \<in> set hs then upurge (PatchDB_abs p h) (PatchDB_abs q h)
                           else PatchDB_abs p h)"
  using assms(2-)
proof (induction hs arbitrary: p)
  case Nil
  then show ?case by simp
next
  case (Cons h hs)
  then have h: "PatchDB_abs q h \<noteq> None" by simp
  from PatchDB_purgeCoin_abs [OF Cons.prems(1) q h] obtain p1 where
    p1: "PatchDB_purgeCoin q h p = Inr p1" "PatchDB_utxosOk p1" "PatchDB_sameRest p1 p"
    "PatchDB_abs p1 = (PatchDB_abs p)(h := upurge (PatchDB_abs p h) (PatchDB_abs q h))" by blast
  have "distinct hs" "\<forall>h\<in>set hs. PatchDB_abs q h \<noteq> None" using Cons.prems by auto
  from Cons.IH [OF p1(2) this] obtain p' where p': "foldR (PatchDB_purgeCoin q) hs p1 = Inr p'"
    "PatchDB_utxosOk p'" "PatchDB_sameRest p' p1"
    "PatchDB_abs p' = (\<lambda>h. if h \<in> set hs then upurge (PatchDB_abs p1 h) (PatchDB_abs q h)
                           else PatchDB_abs p1 h)" by blast
  have "PatchDB_abs p' = (\<lambda>x. if x \<in> set (h # hs) then upurge (PatchDB_abs p x) (PatchDB_abs q x)
                           else PatchDB_abs p x)"
    using p'(4) p1(4) Cons.prems(2) by (auto simp: fun_eq_iff)
  with p' p1 show ?case by (auto intro: PatchDB_sameRest_trans)
qed

lemma PatchDB_purgeContract_InrD:
  assumes "PatchDB_purgeContract S q a p = Inr p'"
  shows "pt_coins p' = pt_coins p" and "pt_mapSpentUtxos p' = pt_mapSpentUtxos p"
    and "pt_mapTxReceipts p' = pt_mapTxReceipts p"
    and "pt_mapConciliumLevel p' = pt_mapConciliumLevel p \<and> pt_conciliumId p' = pt_conciliumId p"
    and "jget (pt_mapContractStates p') = (jget (pt_mapContractStates p))(a :=
      (case (jget (pt_mapContractStates p) a, jget (pt_mapContractStates q) a) of
         (Some c, Some d) \<Rightarrow> (if Contract_getDataBuffer S c = Contract_getDataBuffer S d then None else Some c)
       | (x, _) \<Rightarrow> x))"
proof -
  have p': "p' = (case (jget (pt_mapContractStates p) a, jget (pt_mapContractStates q) a) of
      (Some c, Some d) \<Rightarrow> (if Contract_getDataBuffer S c = Contract_getDataBuffer S d
         then p\<lparr>pt_mapContractStates := jdelete a (pt_mapContractStates p)\<rparr> else p)
    | _ \<Rightarrow> p)"
    using assms by (auto simp: PatchDB_purgeContract_def PatchDB_getContract_def split: option.splits)
  show "pt_coins p' = pt_coins p" and "pt_mapSpentUtxos p' = pt_mapSpentUtxos p"
    and "pt_mapTxReceipts p' = pt_mapTxReceipts p"
    and "pt_mapConciliumLevel p' = pt_mapConciliumLevel p \<and> pt_conciliumId p' = pt_conciliumId p"
    unfolding p' by (simp_all split: option.splits)
  show "jget (pt_mapContractStates p') = (jget (pt_mapContractStates p))(a :=
      (case (jget (pt_mapContractStates p) a, jget (pt_mapContractStates q) a) of
         (Some c, Some d) \<Rightarrow> (if Contract_getDataBuffer S c = Contract_getDataBuffer S d then None else Some c)
       | (x, _) \<Rightarrow> x))"
    unfolding p' by (auto simp: fun_eq_iff js_simps split: option.splits)
qed

definition PatchDB_purgedContract :: "'d serializers \<Rightarrow> 'd patch \<Rightarrow> 'd patch \<Rightarrow> addr \<Rightarrow> 'd contract option" where
  "PatchDB_purgedContract S p q a =
     (case (jget (pt_mapContractStates p) a, jget (pt_mapContractStates q) a) of
        (Some c, Some d) \<Rightarrow> (if Contract_getDataBuffer S c = Contract_getDataBuffer S d then None else Some c)
      | (x, _) \<Rightarrow> x)"

lemma PatchDB_purgeContracts_InrD:
  assumes "foldR (PatchDB_purgeContract S q) as p = Inr p'" and "distinct as"
  shows "pt_coins p' = pt_coins p \<and> pt_mapSpentUtxos p' = pt_mapSpentUtxos p \<and>
    pt_mapTxReceipts p' = pt_mapTxReceipts p \<and>
    pt_mapConciliumLevel p' = pt_mapConciliumLevel p \<and> pt_conciliumId p' = pt_conciliumId p \<and>
    jget (pt_mapContractStates p') = (\<lambda>a. if a \<in> set as then PatchDB_purgedContract S p q a
      else jget (pt_mapContractStates p) a)"
  using assms
proof (induction as arbitrary: p)
  case (Cons a as)
  then obtain p1 where p1: "PatchDB_purgeContract S q a p = Inr p1"
    "foldR (PatchDB_purgeContract S q) as p1 = Inr p'" by auto
  note D = PatchDB_purgeContract_InrD [OF p1(1)]
  have "distinct as" "a \<notin> set as" using Cons.prems(2) by auto
  with Cons.IH [OF p1(2)] D show ?case
    by (auto simp: fun_eq_iff PatchDB_purgedContract_def)
qed simp

lemma PatchDB_purgeReceipts:
  "pt_coins (fold PatchDB_purgeReceipt hs p) = pt_coins p"
  "pt_mapSpentUtxos (fold PatchDB_purgeReceipt hs p) = pt_mapSpentUtxos p"
  "pt_mapContractStates (fold PatchDB_purgeReceipt hs p) = pt_mapContractStates p"
  "jget (pt_mapTxReceipts (fold PatchDB_purgeReceipt hs p)) h =
     (if h \<in> set hs then None else jget (pt_mapTxReceipts p) h)"
  by (induction hs arbitrary: p; simp add: PatchDB_purgeReceipt_def js_simps split: if_splits; fail)+

lemma PatchDB_purge_abs:
  assumes q: "PatchDB_wf q" and p: "PatchDB_wf p" and run: "PatchDB_purge S q p = Inr r"
  shows "PatchDB_utxosOk r"
    and "PatchDB_abs r = (\<lambda>h. upurge (PatchDB_abs p h) (PatchDB_abs q h))"
    and "jget (pt_mapContractStates r) = PatchDB_purgedContract S p q"
    and "jget (pt_mapTxReceipts r) h =
      (if jhas (pt_mapTxReceipts q) h then None else jget (pt_mapTxReceipts p) h)"
proof -
  have uq: "PatchDB_utxosOk q" and up: "PatchDB_utxosOk p" and cq: "PatchDB_contractsOk q"
    using q p by (simp_all add: PatchDB_wf_def)
  let ?hs = "jkeys (pt_coins q)" and ?as = "jkeys (pt_mapContractStates q)"
  have "distinct ?hs" using uq jm.wf_keys by (auto simp: PatchDB_utxosOk_def PatchDB_coinsOk_def)
  moreover have "\<forall>h\<in>set ?hs. PatchDB_abs q h \<noteq> None" by (auto simp: js_dom PatchDB_abs_None)
  ultimately obtain p1 where p1: "foldR (PatchDB_purgeCoin q) ?hs p = Inr p1" "PatchDB_utxosOk p1"
    "PatchDB_sameRest p1 p" "PatchDB_abs p1 = (\<lambda>h. if h \<in> set ?hs
       then upurge (PatchDB_abs p h) (PatchDB_abs q h) else PatchDB_abs p h)"
    using PatchDB_purgeCoins_abs [OF uq up] by blast
  from run p1(1) obtain p2 where p2: "foldR (PatchDB_purgeContract S q) ?as p1 = Inr p2"
    and r: "r = fold PatchDB_purgeReceipt (jkeys (pt_mapTxReceipts q)) p2"
    by (auto simp: PatchDB_purge_def)
  have "distinct ?as" using cq jm.wf_keys by (auto simp: PatchDB_contractsOk_def)
  note D = PatchDB_purgeContracts_InrD [OF p2 this]
  have same: "pt_coins r = pt_coins p1" "pt_mapSpentUtxos r = pt_mapSpentUtxos p1"
    using D by (simp_all add: r PatchDB_purgeReceipts)
  show "PatchDB_utxosOk r" using PatchDB_utxosOk_cong [OF same] p1(2) by simp
  have "upurge (PatchDB_abs p h) (PatchDB_abs q h) = PatchDB_abs p h" if "h \<notin> set ?hs" for h
  proof -
    have "PatchDB_abs q h = None" using that by (auto simp: js_dom PatchDB_abs_None)
    then show ?thesis by (cases "PatchDB_abs p h") auto
  qed
  then show "PatchDB_abs r = (\<lambda>h. upurge (PatchDB_abs p h) (PatchDB_abs q h))"
    using PatchDB_abs_cong [OF same] p1(4) by (auto simp: fun_eq_iff)
  have c1: "pt_mapContractStates p1 = pt_mapContractStates p" "pt_mapTxReceipts p1 = pt_mapTxReceipts p"
    using p1(3) by (simp_all add: PatchDB_sameRest_def)
  show "jget (pt_mapContractStates r) = PatchDB_purgedContract S p q"
    using D c1 by (auto simp: fun_eq_iff r PatchDB_purgeReceipts PatchDB_purgedContract_def js_dom
        split: option.splits)
  show "jget (pt_mapTxReceipts r) h =
      (if jhas (pt_mapTxReceipts q) h then None else jget (pt_mapTxReceipts p) h)"
    using D c1 by (auto simp: r PatchDB_purgeReceipts js_dom js_simps)
qed

text \<open>What \<open>purge\<close> keeps: it never returns an output to the unspent ones.\<close>

lemma upurge_shrinks:
  "upurge x y = Some (u', s') \<Longrightarrow> \<exists>u s. x = Some (u, s) \<and> u' \<subseteq>\<^sub>m u \<and> dom s \<subseteq> dom s'"
  by (cases "(x, y)" rule: upurge.cases)
     (auto simp: map_le_def restrict_map_def split: if_splits)

lemma udisjoint_upurge: "udisjoint x \<Longrightarrow> udisjoint (upurge x y)"
  by (cases "(x, y)" rule: upurge.cases) auto

section \<open>validateAgainstStable, complexity\<close>

lemma foldR_unit_ok:
  "foldR (\<lambda>x _. f x) xs () = Inr () \<longleftrightarrow> (\<forall>x\<in>set xs. f x = Inr ())"
  by (induction xs) auto

lemma foldR_unit_ok2:
  "foldR (\<lambda>(x, y) _. f x y) xs () = Inr () \<longleftrightarrow> (\<forall>(x, y)\<in>set xs. f x y = Inr ())"
  by (induction xs) auto

lemma PatchDB_validateHash_iff:
  assumes "PatchDB_utxosOk stb" and "PatchDB_utxosOk p" and "isHash256 h"
  shows "PatchDB_validateHash stb h p = Inr () \<longleftrightarrow>
    (\<forall>u s. PatchDB_abs stb h = Some (u, s) \<longrightarrow> dom (PatchDB_spent p h) \<subseteq> dom u)"
proof (cases "jget (pt_coins stb) h")
  case None
  then show ?thesis using assms(3)
    by (simp add: PatchDB_validateHash_def PatchDB_getUtxo_ok PatchDB_abs_def)
next
  case (Some v)
  then have wf: "UTXO_wf v" using assms(1) by (auto simp: PatchDB_utxosOk_def dest: PatchDB_coinsOkD)
  let ?m = "PatchDB_getSpentOutputs h p"
  have "PatchDB_validateHash stb h p = Inr () \<longleftrightarrow>
      (\<forall>e\<in>set ?m. UTXO_abs v (fst e) \<noteq> None)"
    using Some assms(3)
    by (auto simp: PatchDB_validateHash_def PatchDB_getUtxo_ok foldR_unit_ok2
        UTXO_coinsAtIndex_abs wf split: option.splits)
  also have "\<dots> \<longleftrightarrow> dom (jget ?m) \<subseteq> dom (UTXO_abs v)"
  proof -
    have "dom (jget ?m) = fst ` set ?m" using jget_fst [of ?m] by (auto simp: domIff)
    then show ?thesis by (auto simp: domIff)
  qed
  finally show ?thesis using Some by (simp add: PatchDB_abs_def)
qed

lemma PatchDB_validate_iff:
  assumes "PatchDB_utxosOk stb" and "PatchDB_utxosOk p"
  shows "PatchDB_validateAgainstStable stb p = Inr () \<longleftrightarrow>
    (\<forall>h u s v t. PatchDB_abs stb h = Some (u, s) \<longrightarrow> PatchDB_abs p h = Some (v, t) \<longrightarrow> dom t \<subseteq> dom u)"
proof -
  have hash: "h \<in> set (jkeys (pt_coins p)) \<Longrightarrow> isHash256 h" for h
    using assms(2) by (auto simp: js_dom PatchDB_utxosOk_def dest: PatchDB_coinsOkD)
  have "PatchDB_validateAgainstStable stb p = Inr () \<longleftrightarrow>
      (\<forall>h\<in>set (jkeys (pt_coins p)). \<forall>u s. PatchDB_abs stb h = Some (u, s) \<longrightarrow>
         dom (PatchDB_spent p h) \<subseteq> dom u)"
    using PatchDB_validateHash_iff [OF assms hash]
    by (simp add: PatchDB_validateAgainstStable_def PatchDB_getCoins_def foldR_unit_ok)
  also have "\<dots> \<longleftrightarrow> (\<forall>h u s v t. PatchDB_abs stb h = Some (u, s) \<longrightarrow>
      PatchDB_abs p h = Some (v, t) \<longrightarrow> dom t \<subseteq> dom u)"
    by (auto simp: js_dom PatchDB_abs_def [of p] split: option.splits) blast+
  finally show ?thesis .
qed

lemma PatchDB_getComplexity_sum:
  assumes "PatchDB_utxosOk p"
  shows "PatchDB_getComplexity p =
    (\<Sum>h\<in>dom (jget (pt_mapSpentUtxos p)). card (dom (PatchDB_spent p h)))"
proof -
  have len: "length (PatchDB_getSpentOutputs h p) = card (dom (PatchDB_spent p h))" for h
    using jm.length_keys [OF PatchDB_jwf_getSpent [OF assms]] by (simp add: jkeys_def)
  have d: "distinct (jkeys (pt_mapSpentUtxos p))"
    using assms jm.wf_keys by (auto simp: PatchDB_utxosOk_def PatchDB_spentOk_def)
  have "foldl (\<lambda>r h. r + length (PatchDB_getSpentOutputs h p)) n hs =
      n + sum_list (map (\<lambda>h. card (dom (PatchDB_spent p h))) hs)" for n hs
    by (induction hs arbitrary: n) (simp_all add: len)
  then show ?thesis
    using d by (simp add: PatchDB_getComplexity_def sum_list_distinct_conv_sum_set js_dom)
qed

end
