(* ===== verification/Cil_App.thy ===== *)
theory Cil_App
  imports Cil_Patch_Laws
begin

text \<open>
  \<open>src/node/app.js\<close>: checking and spending a transaction's inputs, creating its outputs, and running
  contract code with a budget of coins. The sandbox that runs the code (\<open>vm2\<close>) and the callbacks
  the node installs are parameters: the sandbox is a state transformer over the application's state
  and the callbacks' world, and the lemmas ask of it only that it acts through \<open>send\<close> and \<open>call\<close>.
\<close>

section \<open>Spending inputs and creating outputs\<close>

definition App_verifyPayToAddr :: "crypto \<Rightarrow> addr \<Rightarrow> string option \<Rightarrow> hash \<Rightarrow> unit res" where
  "App_verifyPayToAddr C address signature buffSignedData =
     bindR (typeforce (isAddress address \<and>
              (case signature of None \<Rightarrow> False | Some s \<Rightarrow> length s = 130) \<and>
              isHash256 buffSignedData)) (\<lambda>_.
     bindR (cr_recoverPubKey C buffSignedData (case signature of None \<Rightarrow> [] | Some s \<Rightarrow> s)) (\<lambda>pubKey.
     if address = cr_getAddress C pubKey then Inr () else Inl (Error ''Claim failed!'')))"

text \<open>The proof of input \<open>i\<close>: a claim per input when there is any, else the transaction's signature.\<close>

definition App_claimProof :: "tx \<Rightarrow> nat \<Rightarrow> string option" where
  "App_claimProof t i =
     (if tx_claimProofs t \<noteq> [] then
        (if i < length (tx_claimProofs t) then tx_claimProofs t ! i else None)
      else Transaction_getTxSignature t)"

text \<open>The body of the loop; the state is the patch being built and \<open>totalHas\<close>.\<close>

definition App_processInput ::
    "crypto \<Rightarrow> tx \<Rightarrow> 'd patch option \<Rightarrow> nat \<times> tx_input \<Rightarrow> 'd patch \<times> int \<Rightarrow> ('d patch \<times> int) res"
where
  "App_processInput C t patchForBlock e st =
     (case e of (i, input) \<Rightarrow> case st of (patch, totalHas) \<Rightarrow>
     case patchForBlock of
       None \<Rightarrow> Inl (TypeError ''Cannot read property'')
     | Some pb \<Rightarrow>
         bindR (PatchDB_getUtxo (in_txHash input) pb) (\<lambda>found.
         case found of
           None \<Rightarrow> Inl (Error ''not found in patch'')
         | Some u \<Rightarrow>
             bindR (UTXO_coinsAtIndex u (in_nTxOutput input)) (\<lambda>coins.
             bindR (App_verifyPayToAddr C (Coins_getReceiverAddr coins) (App_claimProof t i)
                      (Transaction_getHash C t)) (\<lambda>_.
             bindR (PatchDB_spendCoins u (in_nTxOutput input) (Transaction_getHash C t) patch) (\<lambda>p.
             Inr (p, totalHas + Coins_getAmount coins))))))"

definition App_processTxInputs :: "crypto \<Rightarrow> tx \<Rightarrow> 'd patch option \<Rightarrow> ('d patch \<times> int) res" where
  "App_processTxInputs C t patchForBlock =
     bindR (PatchDB_new None) (\<lambda>patch.
     foldR (App_processInput C t patchForBlock)
       (zip [0..<length (Transaction_inputs t)] (Transaction_inputs t)) (patch, 0))"

definition App_processPayment ::
    "crypto \<Rightarrow> tx \<Rightarrow> nat \<times> coins \<Rightarrow> 'd patch \<times> int \<Rightarrow> ('d patch \<times> int) res" where
  "App_processPayment C t e st =
     (case e of (i, c) \<Rightarrow> case st of (patch, totalSent) \<Rightarrow>
     bindR (if Coins_getAmount c \<noteq> 0
            then PatchDB_createCoins (Transaction_getHash C t) (int i) c patch else Inr patch) (\<lambda>p.
     Inr (p, totalSent + Coins_getAmount c)))"

definition App_processPayments ::
    "crypto \<Rightarrow> tx \<Rightarrow> 'd patch \<Rightarrow> nat \<Rightarrow> ('d patch \<times> int) res" where
  "App_processPayments C t patch nStartFromIdx =
     (let txCoins = Transaction_getOutCoins t
      in foldR (App_processPayment C t)
           (drop nStartFromIdx (zip [0..<length txCoins] txCoins)) (patch, 0))"

subsection \<open>What spending the inputs guarantees\<close>

text \<open>
  The outputs a transaction can still spend while its inputs are processed: those of the patch
  being built where it has the UTXO, those of the block's patch otherwise.
\<close>

definition App_avail :: "'d patch \<Rightarrow> 'd patch \<times> int \<Rightarrow> hash \<times> int \<Rightarrow> coins option" where
  "App_avail pb st k =
     (case PatchDB_abs (fst st) (fst k) of
        Some (u, _) \<Rightarrow> u (snd k)
      | None \<Rightarrow> (case PatchDB_abs pb (fst k) of Some (u, _) \<Rightarrow> u (snd k) | None \<Rightarrow> None))"

definition App_inputKey :: "nat \<times> tx_input \<Rightarrow> hash \<times> int" where
  "App_inputKey e = (in_txHash (snd e), in_nTxOutput (snd e))"

text \<open>The patch under construction only holds versions of the block's UTXOs.\<close>

definition App_inv :: "'d patch \<Rightarrow> 'd patch \<times> int \<Rightarrow> bool" where
  "App_inv pb st \<longleftrightarrow> PatchDB_utxosOk pb \<and> PatchDB_utxosOk (fst st) \<and>
     (\<forall>h u s. PatchDB_abs (fst st) h = Some (u, s) \<longrightarrow>
        (\<exists>v t. PatchDB_abs pb h = Some (v, t) \<and> u = v |` (- dom s)))"

lemma App_verifyPayToAddr_Inr:
  "App_verifyPayToAddr C a sig d = Inr () \<longleftrightarrow>
     isAddress a \<and> isHash256 d \<and>
     (\<exists>s pk. sig = Some s \<and> length s = 130 \<and> cr_recoverPubKey C d s = Inr pk \<and> a = cr_getAddress C pk)"
  by (auto simp: App_verifyPayToAddr_def split: option.splits if_splits)

lemma App_processInput_InrD:
  assumes ok: "PatchDB_utxosOk pb" "PatchDB_utxosOk p"
    and run: "App_processInput C t (Some pb) (i, input) (p, n) = Inr (p', n')"
  obtains v vt c u0 s0 where "PatchDB_abs pb (in_txHash input) = Some (v, vt)"
    and "v (in_nTxOutput input) = Some c" and "n' = n + coins_amount c"
    and "App_verifyPayToAddr C (coins_receiverAddr c) (App_claimProof t i) (Transaction_getHash C t) = Inr ()"
    and "(case PatchDB_abs p (in_txHash input) of None \<Rightarrow> (v, Map.empty) | Some us \<Rightarrow> us) = (u0, s0)"
    and "u0 (in_nTxOutput input) \<noteq> None" and "PatchDB_utxosOk p'"
    and "PatchDB_abs p' = (PatchDB_abs p)(in_txHash input \<mapsto>
          (u0(in_nTxOutput input := None), s0(in_nTxOutput input \<mapsto> Transaction_getHash C t)))"
proof -
  let ?h = "in_txHash input" and ?i = "in_nTxOutput input"
  from run obtain u c where u: "jget (pt_coins pb) ?h = Some u" "UTXO_coinsAtIndex u ?i = Inr c"
    and ver: "App_verifyPayToAddr C (coins_receiverAddr c) (App_claimProof t i) (Transaction_getHash C t) = Inr ()"
    and sp: "PatchDB_spendCoins u ?i (Transaction_getHash C t) p = Inr p'" and n': "n' = n + coins_amount c"
    by (auto simp: App_processInput_def PatchDB_getUtxo_def Coins_getReceiverAddr_def Coins_getAmount_def
        split: option.splits)
  have wf: "UTXO_wf u" "utxo_txHash u = ?h"
    using ok(1) u(1) by (auto simp: PatchDB_utxosOk_def dest: PatchDB_coinsOkD)
  have absb: "PatchDB_abs pb ?h = Some (UTXO_abs u, PatchDB_spent pb ?h)"
    using u(1) by (simp add: PatchDB_abs_def)
  have c: "UTXO_abs u ?i = Some c"
    using u(2) by (simp add: UTXO_coinsAtIndex_abs wf split: option.splits)
  note D = PatchDB_spendCoins_InrD [OF ok(2) wf(1) sp, unfolded wf(2)]
  let ?v = "case jget (pt_coins p) ?h of Some v \<Rightarrow> v | None \<Rightarrow> u"
  have nil: "jget (pt_coins p) ?h = None \<Longrightarrow> PatchDB_spent p ?h = Map.empty"
    using PatchDB_spent_noCoins [OF ok(2)] by (simp add: fun_eq_iff)
  have base: "(case PatchDB_abs p ?h of None \<Rightarrow> (UTXO_abs u, Map.empty) | Some us \<Rightarrow> us) =
      (UTXO_abs ?v, PatchDB_spent p ?h)"
    using nil by (cases "jget (pt_coins p) ?h") (simp_all add: PatchDB_abs_def)
  from that [OF absb c n' ver base D(2) D(1) D(3)] show ?thesis .
qed

lemma App_processInput_keeps:
  assumes inv: "App_inv pb st" and run: "App_processInput C t (Some pb) e st = Inr st'"
  shows "App_inv pb st'" and "App_avail pb st (App_inputKey e) \<noteq> None"
    and "App_avail pb st' = (App_avail pb st)(App_inputKey e := None)"
    and "App_avail pb st (App_inputKey e) = Some c \<Longrightarrow> snd st' = snd st + coins_amount c"
proof -
  obtain i input p n p' n' where e: "e = (i, input)" "st = (p, n)" "st' = (p', n')" by fastforce
  let ?h = "in_txHash input" and ?i = "in_nTxOutput input"
  have ok: "PatchDB_utxosOk pb" "PatchDB_utxosOk p" using inv e by (simp_all add: App_inv_def)
  from run have run': "App_processInput C t (Some pb) (i, input) (p, n) = Inr (p', n')" by (simp add: e)
  from App_processInput_InrD [OF ok run'] obtain v vt c' u0 s0 where
    D: "PatchDB_abs pb ?h = Some (v, vt)" "v ?i = Some c'" "n' = n + coins_amount c'"
    "(case PatchDB_abs p ?h of None \<Rightarrow> (v, Map.empty) | Some us \<Rightarrow> us) = (u0, s0)"
    "u0 ?i \<noteq> None" "PatchDB_utxosOk p'"
    "PatchDB_abs p' = (PatchDB_abs p)(?h \<mapsto> (u0(?i := None), s0(?i \<mapsto> Transaction_getHash C t)))" .
  have sub: "u0 = v |` (- dom s0)"
  proof (cases "PatchDB_abs p ?h")
    case None
    with D(4) have "u0 = v" "s0 = Map.empty" by simp_all
    then show ?thesis by (auto simp: fun_eq_iff restrict_map_def)
  next
    case (Some us)
    with D(4) have "PatchDB_abs p ?h = Some (u0, s0)" by simp
    with inv D(1) e show ?thesis by (fastforce simp: App_inv_def)
  qed
  have key: "App_inputKey e = (?h, ?i)" by (simp add: App_inputKey_def e)
  have av: "App_avail pb st (?h, x) = u0 x" for x
    using D(1,4) by (auto simp: App_avail_def e split: option.splits)
  show "App_avail pb st (App_inputKey e) \<noteq> None" using av D(5) key by simp
  have "u0(?i := None) = v |` (- dom (s0(?i \<mapsto> Transaction_getHash C t)))"
    using sub by (auto simp: fun_eq_iff restrict_map_def)
  then show "App_inv pb st'"
    using inv D(1,6,7) e by (auto simp: App_inv_def)
  show "App_avail pb st' = (App_avail pb st)(App_inputKey e := None)"
  proof
    fix k :: "hash \<times> int"
    obtain h x where k: "k = (h, x)" by fastforce
    show "App_avail pb st' k = ((App_avail pb st)(App_inputKey e := None)) k"
    proof (cases "h = ?h")
      case True
      then show ?thesis using av [of x] D(7) key k e by (simp add: App_avail_def)
    next
      case False
      then show ?thesis using D(7) key k e by (simp add: App_avail_def)
    qed
  qed
  assume "App_avail pb st (App_inputKey e) = Some c"
  then have "u0 ?i = Some c" using av key by simp
  then have "c = c'" using sub D(2) by (auto simp: restrict_map_def split: if_splits)
  then show "snd st' = snd st + coins_amount c" using D(3) e by simp
qed

interpretation ap: spending_value "App_inv pb" "App_avail pb" App_inputKey
    "App_processInput C t (Some pb)" snd coins_amount
  for pb C t
  by unfold_locales (fact App_processInput_keeps)+

text \<open>The owner of every spent output signed the transaction.\<close>

definition App_owned :: "crypto \<Rightarrow> tx \<Rightarrow> nat \<Rightarrow> coins \<Rightarrow> bool" where
  "App_owned C t i c \<longleftrightarrow>
     App_verifyPayToAddr C (coins_receiverAddr c) (App_claimProof t i) (Transaction_getHash C t) = Inr ()"

lemma App_processInputs_owned:
  assumes "App_inv pb st" and "foldR (App_processInput C t (Some pb)) es st = Inr st'"
  shows "\<forall>(i, input)\<in>set es. \<exists>v vt c. PatchDB_abs pb (in_txHash input) = Some (v, vt) \<and>
     v (in_nTxOutput input) = Some c \<and> App_owned C t i c"
  using assms
proof (induction es arbitrary: st)
  case (Cons e es)
  then obtain st1 where st1: "App_processInput C t (Some pb) e st = Inr st1"
    "foldR (App_processInput C t (Some pb)) es st1 = Inr st'" by auto
  obtain i input p n p' n' where e: "e = (i, input)" "st = (p, n)" "st1 = (p', n')" by fastforce
  have ok: "PatchDB_utxosOk pb" "PatchDB_utxosOk p" using Cons.prems(1) e by (simp_all add: App_inv_def)
  from st1(1) have run': "App_processInput C t (Some pb) (i, input) (p, n) = Inr (p', n')" by (simp add: e)
  from App_processInput_InrD [OF ok run'] have "\<exists>v vt c. PatchDB_abs pb (in_txHash input) = Some (v, vt) \<and>
     v (in_nTxOutput input) = Some c \<and> App_owned C t i c"
    unfolding App_owned_def by metis
  with Cons.IH [OF App_processInput_keeps(1) [OF Cons.prems(1) st1(1)] st1(2)] e(1) show ?case by simp
qed simp

definition App_unspent :: "'d patch \<Rightarrow> hash \<times> int \<Rightarrow> coins option" where
  "App_unspent pb k = (case PatchDB_abs pb (fst k) of Some (u, _) \<Rightarrow> u (snd k) | None \<Rightarrow> None)"

lemma App_start: "PatchDB_utxosOk pb \<Longrightarrow> App_inv pb (PatchDB_empty, 0)"
  "App_avail pb (PatchDB_empty, 0) = App_unspent pb"
  by (simp_all add: App_inv_def App_avail_def App_unspent_def fun_eq_iff)

lemma App_processTxInputs_eq:
  "App_processTxInputs C t pb = foldR (App_processInput C t pb)
     (zip [0..<length (Transaction_inputs t)] (Transaction_inputs t)) (PatchDB_empty, 0)"
  by (simp add: App_processTxInputs_def PatchDB_new_def PatchDB_setConciliumId_def)

definition Transaction_keys :: "tx \<Rightarrow> (hash \<times> int) list" where
  "Transaction_keys t = map (\<lambda>i. (in_txHash i, in_nTxOutput i)) (Transaction_inputs t)"

lemma App_inputKeys:
  "map App_inputKey (zip [0..<length (Transaction_inputs t)] (Transaction_inputs t)) = Transaction_keys t"
  by (rule nth_equalityI) (simp_all add: Transaction_keys_def App_inputKey_def)

lemma App_processTxInputs_spends:
  assumes ok: "PatchDB_utxosOk pb" and run: "App_processTxInputs C t (Some pb) = Inr (p, totalHas)"
  shows "distinct (Transaction_keys t)" and "set (Transaction_keys t) \<subseteq> dom (App_unspent pb)"
    and "totalHas = (\<Sum>k\<leftarrow>Transaction_keys t. coins_amount (the (App_unspent pb k)))"
    and "App_avail pb (p, totalHas) = App_unspent pb |` (- set (Transaction_keys t))"
    and "PatchDB_utxosOk p"
    and "\<forall>i<length (Transaction_inputs t). \<exists>c.
      App_unspent pb (Transaction_keys t ! i) = Some c \<and> App_owned C t i c"
proof -
  let ?es = "zip [0..<length (Transaction_inputs t)] (Transaction_inputs t)"
  note run' = run [unfolded App_processTxInputs_eq]
  note A = ap.spend_list [OF App_start(1) [OF ok] run', unfolded App_start(2)]
  have keys: "App_inputKey ` set ?es = set (Transaction_keys t)"
    unfolding App_inputKeys [symmetric] by simp
  show "distinct (Transaction_keys t)" and "set (Transaction_keys t) \<subseteq> dom (App_unspent pb)"
    and "App_avail pb (p, totalHas) = App_unspent pb |` (- set (Transaction_keys t))"
    using A unfolding keys App_inputKeys by auto
  show "PatchDB_utxosOk p" using A by (simp add: App_inv_def)
  show "totalHas = (\<Sum>k\<leftarrow>Transaction_keys t. coins_amount (the (App_unspent pb k)))"
    using ap.total_list [OF App_start(1) [OF ok] run', unfolded App_start(2) App_inputKeys] by simp
  show "\<forall>i<length (Transaction_inputs t). \<exists>c.
      App_unspent pb (Transaction_keys t ! i) = Some c \<and> App_owned C t i c"
  proof (intro allI impI)
    fix i assume i: "i < length (Transaction_inputs t)"
    then have "(i, Transaction_inputs t ! i) \<in> set ?es" by (auto simp: in_set_zip intro!: exI [of _ i])
    with App_processInputs_owned [OF App_start(1) [OF ok] run'] i show
      "\<exists>c. App_unspent pb (Transaction_keys t ! i) = Some c \<and> App_owned C t i c"
      by (fastforce simp: App_unspent_def Transaction_keys_def)
  qed
qed

subsection \<open>What creating the outputs guarantees\<close>

lemma App_processPayment_total:
  "foldR (App_processPayment C t) es (p, n) = Inr (p', n') \<Longrightarrow>
   n' = n + (\<Sum>e\<leftarrow>es. coins_amount (snd e))"
proof (induction es arbitrary: p n)
  case (Cons e es)
  then obtain p1 n1 where "App_processPayment C t e (p, n) = Inr (p1, n1)"
    and rest: "foldR (App_processPayment C t) es (p1, n1) = Inr (p', n')" by auto
  from this(1) have "n1 = n + coins_amount (snd e)"
    by (auto simp: App_processPayment_def Coins_getAmount_def split: prod.splits)
  with Cons.IH [OF rest] show ?case by simp
qed simp

lemma App_processPayments_total:
  assumes "App_processPayments C t p k = Inr (p', totalSent)"
  shows "totalSent = sum_list (map out_amount (drop k (Transaction_outputs t)))"
proof -
  let ?cs = "Transaction_getOutCoins t"
  have "totalSent = (\<Sum>e\<leftarrow>drop k (zip [0..<length ?cs] ?cs). coins_amount (snd e))"
    using App_processPayment_total assms by (fastforce simp: App_processPayments_def Let_def)
  also have "map (\<lambda>e. coins_amount (snd e)) (drop k (zip [0..<length ?cs] ?cs)) =
      map coins_amount (drop k ?cs)"
    by (simp add: drop_zip comp_def [of coins_amount snd, symmetric] map_map [symmetric] del: map_map)
  also have "\<dots> = map out_amount (drop k (Transaction_outputs t))"
    by (simp add: Transaction_getOutCoins_def drop_map comp_def Coins_new_def)
  finally show ?thesis .
qed

section \<open>Running contract code\<close>

subsection \<open>State\<close>

record fees =
  nFeeContractCreation :: int
  nFeeContractInvocation :: int
  nFeeInternalTx :: int

text \<open>
  \<open>app_arrContractDataSize\<close> is \<open>None\<close> for \<open>undefined\<close>, which is what it is before \<open>setupVariables\<close>
  and after the outermost call ends. The contracts on \<open>app_arrContracts\<close> are the running ones, the
  innermost last, each with the data and the balance it has now.
\<close>

record 'd app =
  app_objFees :: fees
  app_nInitialCoins :: int
  app_nCoinsLimit :: int
  app_nDataDelta :: int
  app_arrContractDataSize :: "int list option"
  app_arrContracts :: "'d contract option list"

type_synonym ('d, 'w) app_st = "'d app \<times> 'w"

text \<open>
  What the node installs: \<open>sendCoins\<close> gets the running contract and may change it;
  \<open>invokeContract\<close> runs another contract on the same application.
\<close>

record ('d, 'w, 'r, 'a) callbacks =
  cb_sendCoins :: "addr \<Rightarrow> int \<Rightarrow> 'd contract option \<Rightarrow> 'w \<Rightarrow> unit res \<times> 'd contract option \<times> 'w"
  cb_invokeContract :: "addr \<Rightarrow> string \<Rightarrow> 'a list \<Rightarrow> int \<Rightarrow> 'd option \<Rightarrow> ('r, ('d, 'w) app_st) act"

subsection \<open>Operations\<close>

definition App_spendCoins :: "int \<Rightarrow> int \<Rightarrow> int res" where
  "App_spendCoins nCurrent nAmount =
     (let nRemained = nCurrent - nAmount
      in if nRemained < 0 then Inl (Error ''Contract run out of coins'') else Inr nRemained)"

definition App_setupVariables :: "int \<Rightarrow> fees \<Rightarrow> 'd app \<Rightarrow> 'd app" where
  "App_setupVariables coinsLimit objFees a =
     a\<lparr>app_objFees := objFees, app_nInitialCoins := coinsLimit, app_nCoinsLimit := coinsLimit,
       app_nDataDelta := 0, app_arrContractDataSize := Some [], app_arrContracts := []\<rparr>"

definition App_coinsSpent :: "'d app \<Rightarrow> int" where
  "App_coinsSpent a = app_nInitialCoins a - app_nCoinsLimit a"

definition App_getDataDelta :: "'d app \<Rightarrow> int" where
  "App_getDataDelta a = app_nDataDelta a"

definition App_getCurrentContract :: "'d app \<Rightarrow> 'd contract option" where
  "App_getCurrentContract a =
     (if app_arrContracts a = [] then None else last (app_arrContracts a))"

text \<open>The objects on the stack are shared with their users: a change shows on the stack.\<close>

definition App_updCurrent :: "('d contract option \<Rightarrow> 'd contract option) \<Rightarrow> 'd app \<Rightarrow> 'd app" where
  "App_updCurrent f a =
     (if app_arrContracts a = [] then a
      else a\<lparr>app_arrContracts := butlast (app_arrContracts a) @ [f (last (app_arrContracts a))]\<rparr>)"

definition App_execStarted :: "'d serializers \<Rightarrow> 'd contract option \<Rightarrow> 'd app \<Rightarrow> 'd app res" where
  "App_execStarted S contract a =
     (case app_arrContractDataSize a of
        None \<Rightarrow> Inl (Error ''App. Uninitialized variables, or recursion error'')
      | Some sizes \<Rightarrow>
          let (size, contract') =
                (case contract of
                   None \<Rightarrow> (0, None)
                 | Some c \<Rightarrow> (case Contract_getDataSize S c of (n, c') \<Rightarrow> (n, Some c')))
          in Inr (a\<lparr>app_arrContractDataSize := Some (sizes @ [size]),
                    app_arrContracts := app_arrContracts a @ [contract']\<rparr>))"

definition App_execDone :: "'d serializers \<Rightarrow> 'd contract option \<Rightarrow> (unit, 'd app) act" where
  "App_execDone S contract a =
     (case app_arrContractDataSize a of
        None \<Rightarrow> (Inl (TypeError ''Cannot read property''), a)
      | Some sizes \<Rightarrow>
          if sizes = [] then (Inl (Error ''App. Recursion error''), a)
          else
            let nPrevDataSize = last sizes;
                a1 = a\<lparr>app_arrContracts := butlast (app_arrContracts a),
                       app_arrContractDataSize := Some (butlast sizes)\<rparr>;
                a2 = (case contract of
                        None \<Rightarrow> a1
                      | Some c \<Rightarrow> a1\<lparr>app_nDataDelta := app_nDataDelta a1 +
                                       (fst (Contract_getDataSize S c) - nPrevDataSize)\<rparr>)
            in (Inr (), if butlast sizes = [] then a2\<lparr>app_arrContractDataSize := None\<rparr> else a2))"

text \<open>\<open>_spendCoins\<close> throws before the assignment, so a failure leaves the limit as it was.\<close>

definition App_charge :: "int \<Rightarrow> (unit, 'd app) act" where
  "App_charge nAmount a =
     (case App_spendCoins (app_nCoinsLimit a) nAmount of
        Inl e \<Rightarrow> (Inl e, a)
      | Inr n \<Rightarrow> (Inr (), a\<lparr>app_nCoinsLimit := n\<rparr>))"

definition App_send ::
    "('d, 'w, 'r, 'a) callbacks \<Rightarrow> addr \<Rightarrow> int \<Rightarrow> (unit, ('d, 'w) app_st) act" where
  "App_send cb strAddress amount st =
     (case App_charge (nFeeInternalTx (app_objFees (fst st))) (fst st) of
        (Inl e, a) \<Rightarrow> (Inl e, (a, snd st))
      | (Inr _, a) \<Rightarrow>
          (case cb_sendCoins cb strAddress amount (App_getCurrentContract a) (snd st) of
             (r, c, w) \<Rightarrow> (r, (App_updCurrent (\<lambda>_. c) a, w))))"

text \<open>\<open>coinsToPass\<close> is \<open>None\<close> when the caller gives no number.\<close>

definition App_callWithContext ::
    "('d, 'w, 'r, 'a) callbacks \<Rightarrow> addr \<Rightarrow> string \<Rightarrow> 'a list \<Rightarrow> int option \<Rightarrow> 'd option \<Rightarrow>
     ('r, ('d, 'w) app_st) act" where
  "App_callWithContext cb strAddress method arrArguments coinsToPass callContext st =
     (case coinsToPass of
        Some n \<Rightarrow>
          if n < 0 then (Inl (Error ''coinsLimit should be positive''), st)
          else if n > app_nCoinsLimit (fst st)
          then (Inl (Error ''Trying to pass more coins than have''), st)
          else cb_invokeContract cb strAddress method arrArguments
                 (if n \<noteq> 0 then n else app_nCoinsLimit (fst st)) callContext st
      | None \<Rightarrow> cb_invokeContract cb strAddress method arrArguments
                  (app_nCoinsLimit (fst st)) callContext st)"

text \<open>
  The prepared source of a contract: each method is defined under a temporary name and bound to
  the context. A body that starts with \<open><\<close> is an asynchronous method; the mark is cut off in the
  code object itself, so the object comes back changed.
\<close>

definition App_stripAsync :: "string \<Rightarrow> string \<times> string" where
  "App_stripAsync body =
     (case body of
        c # cs \<Rightarrow> (if c = CHR ''<'' then (''async '', cs) else ([], body))
      | [] \<Rightarrow> ([], body))"

definition App_prepareMethod :: "string \<Rightarrow> string \<Rightarrow> string \<times> string" where
  "App_prepareMethod methodName body =
     (case App_stripAsync body of (strAsync, body') \<Rightarrow>
      let newName = ''__MyRenamed__'' @ methodName;
          strPrefix = ''const '' @ methodName @ ''='' @ newName @ ''.bind(__MyContext);'' @ strAsync @
                      ''function '' @ newName;
          strSuffix = '';__MyContext['' @ [CHR 0x27] @ methodName @ [CHR 0x27] @ '']='' @ methodName @ '';''
      in (strPrefix @ body' @ strSuffix, body'))"

fun joinWith :: "string \<Rightarrow> string list \<Rightarrow> string" where
  "joinWith sep [] = []"
| "joinWith sep [x] = x"
| "joinWith sep (x # y # xs) = x @ sep @ joinWith sep (y # xs)"

definition App_prepareCode :: "code \<Rightarrow> string \<times> code" where
  "App_prepareCode objFuncCode =
     (joinWith [CHR 0x0A] (map (\<lambda>(m, body). fst (App_prepareMethod m body)) objFuncCode),
      map (\<lambda>(m, body). (m, snd (App_prepareMethod m body))) objFuncCode)"

text \<open>
  \<open>objMethods[name]\<close> also finds what every object inherits, so those names pass the test for a
  missing method.
\<close>

definition objectPrototypeMembers :: "string list" where
  "objectPrototypeMembers =
     [''constructor'', ''__defineGetter__'', ''__defineSetter__'', ''hasOwnProperty'',
      ''__lookupGetter__'', ''__lookupSetter__'', ''isPrototypeOf'', ''propertyIsEnumerable'',
      ''toString'', ''valueOf'', ''__proto__'', ''toLocaleString'']"

definition App_hasMethod :: "code \<Rightarrow> string \<Rightarrow> bool" where
  "App_hasMethod objMethods method =
     (case jget objMethods method of
        Some body \<Rightarrow> body \<noteq> []
      | None \<Rightarrow> method \<in> set objectPrototypeMembers)"

definition App_newContract :: "'d serializers \<Rightarrow> addr \<Rightarrow> 'd \<Rightarrow> code \<Rightarrow> nat \<Rightarrow> 'd contract" where
  "App_newContract S contractAddr data code nContractVersion =
     Contract_new S (Some data) (Some code) None 0 (Some contractAddr) nContractVersion"

text \<open>
  The sandbox: for \<open>createContract\<close> it returns the exported code and data of the new instance, for
  \<open>runContract\<close> the result of the method and the context's data afterwards.
\<close>

type_synonym ('d, 'r, 'w) sandbox = "string \<Rightarrow> string \<Rightarrow> 'd \<Rightarrow> ('r \<times> 'd, ('d, 'w) app_st) act"

definition App_createContract ::
    "'d serializers \<Rightarrow> (string \<Rightarrow> (code \<times> 'd) res) \<Rightarrow> string \<Rightarrow> addr \<Rightarrow> nat \<Rightarrow> ('d contract, 'd app) act"
where
  "App_createContract S vm strCode contractAddr nContractVersion a =
     (case App_execStarted S None a of
        Inl e \<Rightarrow> (Inl e, a)
      | Inr a1 \<Rightarrow>
          (case App_charge (nFeeContractCreation (app_objFees a1)) a1 of
             (Inl e, a2) \<Rightarrow> (Inl e, a2)
           | (Inr _, a2) \<Rightarrow>
               let contract = mapR (\<lambda>(code, data). App_newContract S contractAddr data code nContractVersion)
                                (vm strCode)
               in (case App_execDone S (case contract of Inl _ \<Rightarrow> None | Inr c \<Rightarrow> Some c) a2 of
                     (Inl e, a3) \<Rightarrow> (Inl e, a3)
                   | (Inr _, a3) \<Rightarrow> (contract, a3))))"

definition defaultFunctionName :: string where "defaultFunctionName = ''_default''"

text \<open>
  What \<open>runContract\<close> computes before it enters the sandbox: the prepared source, the call and the
  data of the context, together with the contract as \<open>getCode\<close>, \<open>getData\<close> and \<open>_prepareCode\<close>
  leave it.
\<close>

definition App_prepareCall ::
    "'d serializers \<Rightarrow> string \<times> string list \<Rightarrow> 'd option \<Rightarrow> (string \<times> string \<times> 'd, 'd contract) act"
where
  "App_prepareCall S invocation context contract =
     (let (objCode, contract1) = Contract_getCode contract;
          (method, args) = (if fst invocation = [] then (defaultFunctionName, []) else invocation)
      in case (case context of Some d \<Rightarrow> Inr (d, contract1) | None \<Rightarrow> Contract_getData S contract1) of
           Inl e \<Rightarrow> (Inl e, contract1)
         | Inr (data, contract2) \<Rightarrow>
      (case objCode of
         None \<Rightarrow> (Inl (TypeError ''Cannot read property''), contract2)
       | Some objMethods \<Rightarrow>
           if \<not> App_hasMethod objMethods method then (Inl (Error ''Method not found''), contract2)
           else (case App_prepareCode objMethods of (strCode, objMethods') \<Rightarrow>
                  (Inr (strCode, method @ ''('' @ joinWith '','' args @ '');'', data),
                   contract2\<lparr>ct_cacheCode := Some objMethods'\<rparr>))))"

text \<open>The \<open>try\<close> block of \<open>runContract\<close>; the running contract is the last one on the stack.\<close>

definition App_runBody ::
    "'d serializers \<Rightarrow> ('d, 'r, 'w) sandbox \<Rightarrow> string \<times> string list \<Rightarrow> 'd option \<Rightarrow> bool \<Rightarrow>
     ('r, ('d, 'w) app_st) act" where
  "App_runBody S vm invocation context isConstantCall st =
     (case App_charge (nFeeContractInvocation (app_objFees (fst st))) (fst st) of
        (Inl e, a) \<Rightarrow> (Inl e, (a, snd st))
      | (Inr _, a) \<Rightarrow>
     (case App_getCurrentContract a of
        None \<Rightarrow> (Inl (TypeError ''Cannot read property''), (a, snd st))
      | Some contract \<Rightarrow>
     (case App_prepareCall S invocation context contract of
        (Inl e, c) \<Rightarrow> (Inl e, (App_updCurrent (\<lambda>_. Some c) a, snd st))
      | (Inr (strCode, strInvoke, data), c) \<Rightarrow>
     (case vm strCode strInvoke data (App_updCurrent (\<lambda>_. Some c) a, snd st) of
        (Inl e, st') \<Rightarrow> (Inl e, st')
      | (Inr (result, newContractState), st') \<Rightarrow>
          (Inr result,
           if isConstantCall \<or> context \<noteq> None then st'
           else (App_updCurrent (map_option (Contract_updateData newContractState)) (fst st'), snd st'))))))"

text \<open>The contract handed in is handed back as the call leaves it.\<close>

definition App_runContract ::
    "'d serializers \<Rightarrow> ('d, 'r, 'w) sandbox \<Rightarrow> string \<times> string list \<Rightarrow> 'd contract \<Rightarrow> 'd option \<Rightarrow> bool \<Rightarrow>
     ('d, 'w) app_st \<Rightarrow> 'r res \<times> 'd contract \<times> ('d, 'w) app_st" where
  "App_runContract S vm invocation contract context isConstantCall st =
     (case App_execStarted S (Some contract) (fst st) of
        Inl e \<Rightarrow> (Inl e, contract, st)
      | Inr a1 \<Rightarrow>
          (case App_runBody S vm invocation context isConstantCall (a1, snd st) of
             (r, (a2, w)) \<Rightarrow>
               let c = (case App_getCurrentContract a2 of Some c \<Rightarrow> c | None \<Rightarrow> contract)
               in (case App_execDone S (Some c) a2 of
                     (Inl e, a3) \<Rightarrow> (Inl e, snd (Contract_getDataSize S c), (a3, w))
                   | (Inr _, a3) \<Rightarrow> (r, snd (Contract_getDataSize S c), (a3, w)))))"

subsection \<open>The budget and the call stack\<close>

text \<open>What a running contract can do to the application: \<open>send\<close> and \<open>call\<close>, in any order.\<close>

inductive App_acts :: "('d, 'w, 'r, 'a) callbacks \<Rightarrow> ('d, 'w) app_st \<Rightarrow> ('d, 'w) app_st \<Rightarrow> bool"
  for cb where
  App_acts_refl: "App_acts cb st st"
| App_acts_send: "App_acts cb st st1 \<Longrightarrow> st2 = snd (App_send cb a n st1) \<Longrightarrow> App_acts cb st st2"
| App_acts_call: "App_acts cb st st1 \<Longrightarrow> st2 = snd (App_callWithContext cb a m as k ctx st1) \<Longrightarrow>
    App_acts cb st st2"

definition App_sandboxed :: "('d, 'w, 'r, 'a) callbacks \<Rightarrow> ('d, 'r, 'w) sandbox \<Rightarrow> bool" where
  "App_sandboxed cb vm \<longleftrightarrow> (\<forall>code inv d st. App_acts cb st (snd (vm code inv d st)))"

definition App_running :: "'d app \<Rightarrow> bool" where
  "App_running a \<longleftrightarrow> (\<exists>sizes. app_arrContractDataSize a = Some sizes \<and> sizes \<noteq> [] \<and>
     length sizes = length (app_arrContracts a))"

definition App_budget :: "'d app \<Rightarrow> 'd app \<Rightarrow> bool" where
  "App_budget a a' \<longleftrightarrow> app_objFees a' = app_objFees a \<and> app_nInitialCoins a' = app_nInitialCoins a \<and>
     app_nCoinsLimit a' \<le> app_nCoinsLimit a \<and> (0 \<le> app_nCoinsLimit a \<longrightarrow> 0 \<le> app_nCoinsLimit a')"

definition App_sameStack :: "'d app \<Rightarrow> 'd app \<Rightarrow> bool" where
  "App_sameStack a a' \<longleftrightarrow> app_arrContractDataSize a' = app_arrContractDataSize a \<and>
     length (app_arrContracts a') = length (app_arrContracts a)"

definition fees_ok :: "fees \<Rightarrow> bool" where
  "fees_ok f \<longleftrightarrow> 0 \<le> nFeeContractCreation f \<and> 0 \<le> nFeeContractInvocation f \<and> 0 \<le> nFeeInternalTx f"

text \<open>A nested invocation, made while a contract runs, keeps the budget and the stack.\<close>

definition App_callbacks_ok :: "('d, 'w, 'r, 'a) callbacks \<Rightarrow> bool" where
  "App_callbacks_ok cb \<longleftrightarrow> (\<forall>a m as n ctx st. App_running (fst st) \<longrightarrow> fees_ok (app_objFees (fst st)) \<longrightarrow>
     App_budget (fst st) (fst (snd (cb_invokeContract cb a m as n ctx st))) \<and>
     App_sameStack (fst st) (fst (snd (cb_invokeContract cb a m as n ctx st))))"

lemma App_budget_refl [simp]: "App_budget a a"
  by (simp add: App_budget_def)

lemma App_budget_trans: "App_budget a b \<Longrightarrow> App_budget b c \<Longrightarrow> App_budget a c"
  by (auto simp: App_budget_def)

lemma App_sameStack_refl [simp]: "App_sameStack a a"
  by (simp add: App_sameStack_def)

lemma App_sameStack_trans: "App_sameStack a b \<Longrightarrow> App_sameStack b c \<Longrightarrow> App_sameStack a c"
  by (simp add: App_sameStack_def)

lemma App_charge_keeps:
  "0 \<le> n \<Longrightarrow> App_budget a (snd (App_charge n a))" "App_sameStack a (snd (App_charge n a))"
  "app_arrContracts (snd (App_charge n a)) = app_arrContracts a"
  by (auto simp: App_charge_def App_spendCoins_def App_budget_def App_sameStack_def Let_def
      split: sum.splits)

lemma App_updCurrent_keeps [simp]:
  "app_objFees (App_updCurrent f a) = app_objFees a"
  "app_nInitialCoins (App_updCurrent f a) = app_nInitialCoins a"
  "app_nCoinsLimit (App_updCurrent f a) = app_nCoinsLimit a"
  "app_arrContractDataSize (App_updCurrent f a) = app_arrContractDataSize a"
  "length (app_arrContracts (App_updCurrent f a)) = length (app_arrContracts a)"
  by (simp_all add: App_updCurrent_def)

lemma App_updCurrent_rel [simp]: "App_budget a (App_updCurrent f a)" "App_sameStack a (App_updCurrent f a)"
  by (simp_all add: App_budget_def App_sameStack_def)

lemma App_running_same: "App_running a \<Longrightarrow> App_sameStack a b \<Longrightarrow> App_running b"
  by (simp add: App_running_def App_sameStack_def)

lemma App_send_keeps:
  assumes "fees_ok (app_objFees (fst st))"
  shows "App_budget (fst st) (fst (snd (App_send cb a n st)))"
    and "App_sameStack (fst st) (fst (snd (App_send cb a n st)))"
proof -
  obtain r b where b: "App_charge (nFeeInternalTx (app_objFees (fst st))) (fst st) = (r, b)" by fastforce
  have k: "App_budget (fst st) b" "App_sameStack (fst st) b"
    using App_charge_keeps(1,2) [where n = "nFeeInternalTx (app_objFees (fst st))" and a = "fst st"] assms b
    by (simp_all add: fees_ok_def)
  have "fst (snd (App_send cb a n st)) = b \<or> (\<exists>c. fst (snd (App_send cb a n st)) = App_updCurrent c b)"
    by (auto simp: App_send_def b split: sum.splits prod.splits)
  with k show "App_budget (fst st) (fst (snd (App_send cb a n st)))"
    and "App_sameStack (fst st) (fst (snd (App_send cb a n st)))"
    by (auto intro: App_budget_trans App_sameStack_trans)
qed

lemma App_call_keeps:
  assumes "App_callbacks_ok cb" and "App_running (fst st)" and "fees_ok (app_objFees (fst st))"
  shows "App_budget (fst st) (fst (snd (App_callWithContext cb a m as k ctx st)))"
    and "App_sameStack (fst st) (fst (snd (App_callWithContext cb a m as k ctx st)))"
proof -
  note K = assms(1) [unfolded App_callbacks_ok_def, rule_format, OF assms(2,3)]
  show "App_budget (fst st) (fst (snd (App_callWithContext cb a m as k ctx st)))"
    and "App_sameStack (fst st) (fst (snd (App_callWithContext cb a m as k ctx st)))"
    by (simp_all add: App_callWithContext_def K split: option.splits)
qed

lemma App_acts_keeps:
  assumes "App_acts cb st st'" and cb: "App_callbacks_ok cb"
    and "App_running (fst st)" and "fees_ok (app_objFees (fst st))"
  shows "App_budget (fst st) (fst st') \<and> App_sameStack (fst st) (fst st')"
  using assms(1,3,4)
proof induction
  case (App_acts_send st st1 st2 a n)
  then have IH: "App_budget (fst st) (fst st1)" "App_sameStack (fst st) (fst st1)" by simp_all
  then have "fees_ok (app_objFees (fst st1))" using App_acts_send.prems by (simp add: App_budget_def)
  note K = App_send_keeps [OF this, of cb a n, folded App_acts_send.hyps(2)]
  show ?case using App_budget_trans [OF IH(1) K(1)] App_sameStack_trans [OF IH(2) K(2)] by blast
next
  case (App_acts_call st st1 st2 a m as k ctx)
  then have IH: "App_budget (fst st) (fst st1)" "App_sameStack (fst st) (fst st1)" by simp_all
  then have "fees_ok (app_objFees (fst st1))" using App_acts_call.prems by (simp add: App_budget_def)
  note K = App_call_keeps [OF cb App_running_same [OF App_acts_call.prems(1) IH(2)] this,
      of a m as k ctx, folded App_acts_call.hyps(2)]
  show ?case using App_budget_trans [OF IH(1) K(1)] App_sameStack_trans [OF IH(2) K(2)] by blast
qed simp

text \<open>The state \<open>runBody\<close> ends in: after the charge, or after the sandbox and perhaps the data update.\<close>

lemma App_runBody_shape:
  assumes "App_charge (nFeeContractInvocation (app_objFees (fst st))) (fst st) = (r, a)"
    and b_def: "b = fst (snd (App_runBody S vm ivc ctx c st))"
  shows "b = a \<or> (\<exists>f. b = App_updCurrent f a) \<or>
    (\<exists>x y d f w. b = fst (snd (vm x y d (App_updCurrent f a, w)))) \<or>
    (\<exists>x y d f g w. b = App_updCurrent g (fst (snd (vm x y d (App_updCurrent f a, w)))))"
proof -
  have out: "fst st' = fst (snd (vm x y d (App_updCurrent f a, w)))"
    if "vm x y d (App_updCurrent f a, w) = (r', st')" for x y d f w r' st'
    using that by simp
  show ?thesis
  proof (cases r)
    case (Inr u)
    show ?thesis
    proof (cases "App_getCurrentContract a")
      case (Some contract)
      obtain pr c' where pc: "App_prepareCall S ivc ctx contract = (pr, c')" by fastforce
      show ?thesis
      proof (cases pr)
        case pr: (Inr q)
        obtain x y d where q: "q = (x, y, d)" by (cases q)
        obtain v st' where v: "vm x y d (App_updCurrent (\<lambda>_. Some c') a, snd st) = (v, st')"
          by (metis surj_pair)
        have "b = fst st' \<or> (\<exists>g. b = App_updCurrent g (fst st'))"
          using assms Inr Some pc pr q v by (auto simp: App_runBody_def split: sum.splits)
        then show ?thesis unfolding out [OF v] by blast
      qed (use assms Inr Some pc in \<open>auto simp: App_runBody_def\<close>)
    qed (use assms Inr in \<open>auto simp: App_runBody_def\<close>)
  qed (use assms in \<open>auto simp: App_runBody_def\<close>)
qed

lemma App_runBody_keeps:
  assumes vm: "App_sandboxed cb vm" and cb: "App_callbacks_ok cb"
    and run: "App_running (fst st)" and fees: "fees_ok (app_objFees (fst st))"
  shows "App_budget (fst st) (fst (snd (App_runBody S vm ivc ctx c st))) \<and>
    App_sameStack (fst st) (fst (snd (App_runBody S vm ivc ctx c st)))"
proof -
  obtain r a where a: "App_charge (nFeeContractInvocation (app_objFees (fst st))) (fst st) = (r, a)"
    by fastforce
  have k: "App_budget (fst st) a" "App_sameStack (fst st) a"
    using App_charge_keeps(1,2) [where n = "nFeeContractInvocation (app_objFees (fst st))" and a = "fst st"]
      fees a by (simp_all add: fees_ok_def)
  have vmk: "App_budget (fst st) (fst (snd (vm x y d (App_updCurrent f a, w)))) \<and>
      App_sameStack (fst st) (fst (snd (vm x y d (App_updCurrent f a, w))))" for x y d f w
  proof -
    have k': "App_budget (fst st) (App_updCurrent f a)" "App_sameStack (fst st) (App_updCurrent f a)"
      using App_budget_trans [OF k(1)] App_sameStack_trans [OF k(2)] by simp_all
    have "App_running (App_updCurrent f a)" by (rule App_running_same [OF run k'(2)])
    moreover have "fees_ok (app_objFees (App_updCurrent f a))"
      using k(1) fees by (simp add: App_budget_def)
    moreover have "App_acts cb (App_updCurrent f a, w) (snd (vm x y d (App_updCurrent f a, w)))"
      using vm by (simp add: App_sandboxed_def)
    ultimately have "App_budget (App_updCurrent f a) (fst (snd (vm x y d (App_updCurrent f a, w)))) \<and>
      App_sameStack (App_updCurrent f a) (fst (snd (vm x y d (App_updCurrent f a, w))))"
      using App_acts_keeps [OF _ cb] by fastforce
    then show ?thesis using App_budget_trans [OF k'(1)] App_sameStack_trans [OF k'(2)] by blast
  qed
  have up: "App_budget (fst st) (App_updCurrent g b) \<and> App_sameStack (fst st) (App_updCurrent g b)"
    if "App_budget (fst st) b \<and> App_sameStack (fst st) b" for g b
    using that App_budget_trans App_sameStack_trans App_updCurrent_rel by blast
  show ?thesis
    using App_runBody_shape [OF a refl, of S vm ivc ctx c] k vmk up by metis
qed

lemma App_execStarted_Inr:
  "App_execStarted S c a = Inr a1 \<longleftrightarrow>
     (\<exists>sizes n c'. app_arrContractDataSize a = Some sizes \<and>
        (n, c') = (case c of None \<Rightarrow> (0, None) | Some x \<Rightarrow> (fst (Contract_getDataSize S x), Some (snd (Contract_getDataSize S x)))) \<and>
        a1 = a\<lparr>app_arrContractDataSize := Some (sizes @ [n]), app_arrContracts := app_arrContracts a @ [c']\<rparr>)"
  by (auto simp: App_execStarted_def Let_def split: option.splits prod.splits)

lemma App_execDone_ok:
  assumes "app_arrContractDataSize a = Some (sizes @ [n])"
  shows "\<exists>a'. App_execDone S c a = (Inr (), a') \<and> App_budget a a' \<and>
    app_arrContractDataSize a' = (if sizes = [] then None else Some sizes) \<and>
    app_arrContracts a' = butlast (app_arrContracts a) \<and>
    app_nDataDelta a' = app_nDataDelta a +
      (case c of None \<Rightarrow> 0 | Some x \<Rightarrow> fst (Contract_getDataSize S x) - n)"
  using assms by (auto simp: App_execDone_def App_budget_def Let_def split: option.splits)

lemma App_runContract_keeps:
  assumes vm: "App_sandboxed cb vm" and cb: "App_callbacks_ok cb"
    and fees: "fees_ok (app_objFees (fst st))"
    and sizes: "app_arrContractDataSize (fst st) = Some sizes" "length sizes = length (app_arrContracts (fst st))"
    and run: "App_runContract S vm ivc c ctx k st = (r, c', st')"
  shows "App_budget (fst st) (fst st')"
    and "app_arrContractDataSize (fst st') = (if sizes = [] then None else Some sizes)"
    and "length (app_arrContracts (fst st')) = length (app_arrContracts (fst st))"
proof -
  obtain n c1 where a1: "App_execStarted S (Some c) (fst st) =
      Inr ((fst st)\<lparr>app_arrContractDataSize := Some (sizes @ [n]),
                    app_arrContracts := app_arrContracts (fst st) @ [c1]\<rparr>)" (is "_ = Inr ?a1")
    using sizes(1) by (cases "Contract_getDataSize S c") (auto simp: App_execStarted_def Let_def)
  have b1: "App_budget (fst st) ?a1" by (simp add: App_budget_def)
  have "App_running (fst (?a1, snd st))" "fees_ok (app_objFees (fst (?a1, snd st)))"
    using sizes fees by (simp_all add: App_running_def)
  note B = App_runBody_keeps [OF vm cb this, of S ivc ctx k]
  obtain r1 a2 w where body: "App_runBody S vm ivc ctx k (?a1, snd st) = (r1, (a2, w))"
    by (metis surj_pair)
  have a2: "App_budget ?a1 a2" "App_sameStack ?a1 a2" using B body by simp_all
  then have "app_arrContractDataSize a2 = Some (sizes @ [n])" by (simp add: App_sameStack_def)
  from App_execDone_ok [OF this] obtain a3 where a3:
    "App_execDone S (Some (case App_getCurrentContract a2 of Some c \<Rightarrow> c | None \<Rightarrow> c)) a2 = (Inr (), a3)"
    "App_budget a2 a3" "app_arrContractDataSize a3 = (if sizes = [] then None else Some sizes)"
    "app_arrContracts a3 = butlast (app_arrContracts a2)"
    by blast
  have st': "fst st' = a3" using run a1 body a3(1) by (auto simp: App_runContract_def Let_def)
  show "App_budget (fst st) (fst st')"
    unfolding st' using b1 a2(1) a3(2) by (blast intro: App_budget_trans)
  show "app_arrContractDataSize (fst st') = (if sizes = [] then None else Some sizes)"
    unfolding st' by (rule a3(3))
  show "length (app_arrContracts (fst st')) = length (app_arrContracts (fst st))"
    unfolding st' using a2(2) a3(4) by (simp add: App_sameStack_def)
qed

text \<open>Once the outermost call has ended, another one is refused until \<open>setupVariables\<close>.\<close>

lemma App_runContract_refused:
  "app_arrContractDataSize (fst st) = None \<Longrightarrow>
   App_runContract S vm ivc c ctx k st =
     (Inl (Error ''App. Uninitialized variables, or recursion error''), c, st)"
  by (simp add: App_runContract_def App_execStarted_def)

text \<open>
  The mark of an asynchronous method is gone from the code object after the first preparation.
\<close>

lemma App_prepareMethod_async:
  assumes "body = [] \<or> hd body \<noteq> CHR ''<''"
  shows "snd (App_prepareMethod m (CHR ''<'' # body)) = body"
    and "snd (App_prepareMethod m body) = body"
    and "fst (App_prepareMethod m (CHR ''<'' # body)) \<noteq> fst (App_prepareMethod m body)"
  using assms
  by (auto simp: App_prepareMethod_def App_stripAsync_def Let_def split: list.splits)

end
