(* ===== verification/Cil_Double.thy ===== *)
theory Cil_Double
  imports Complex_Main "HOL-Library.Log_Nat"
begin

text \<open>
  The numbers of the language where they are not integers: IEEE doubles with 53 bits of significand,
  rounded to nearest, ties to even, as rationals. \<open>dbl\<close> rounds the exact result of an operation; an
  expression of the code rounds after each of its operations. The exponent is not bounded: no value of
  this program gets near the ends of its range.
\<close>

section \<open>Rounding\<close>

text \<open>To the nearest integer, ties to even.\<close>

definition rne :: "rat \<Rightarrow> int" where
  "rne y =
     (let f = \<lfloor>y\<rfloor>; d = y - of_int f
      in if d < 1 / 2 then f else if d > 1 / 2 then f + 1 else if even f then f else f + 1)"

text \<open>The exponent of the leading bit.\<close>

definition dexp :: "rat \<Rightarrow> int" where
  "dexp x =
     (let (p, q) = quotient_of \<bar>x\<bar>; k = bitlen p - bitlen q
      in if 2 powi k \<le> \<bar>x\<bar> then k else k - 1)"

definition dbl :: "rat \<Rightarrow> rat" where
  "dbl x =
     (if x = 0 then 0
      else let ulp = 2 powi (dexp x - 52) in of_int (rne (x / ulp)) * ulp)"

text \<open>What \<open>parseInt\<close> makes of a number below the exponents that are written with an \<open>e\<close>.\<close>

definition parseInt_number :: "rat \<Rightarrow> int" where
  "parseInt_number x = (if 0 \<le> x then \<lfloor>x\<rfloor> else \<lceil>x\<rceil>)"

text \<open>A sum is added up from the left.\<close>

definition dsum :: "rat list \<Rightarrow> rat" where
  "dsum ws = foldl (\<lambda>a w. dbl (a + w)) 0 ws"

section \<open>Laws of rounding\<close>

lemma rne_of_int [simp]: "rne (of_int n) = n"
  by (simp add: rne_def)

lemma rne_error: "\<bar>of_int (rne y) - y\<bar> \<le> 1 / 2"
proof -
  have "of_int \<lfloor>y\<rfloor> \<le> y" "y < of_int \<lfloor>y\<rfloor> + 1" by linarith+
  then show ?thesis unfolding rne_def Let_def by (simp split: if_splits) linarith?
qed

lemma rne_mono: assumes "x \<le> y" shows "rne x \<le> rne y"
proof (cases "\<lfloor>x\<rfloor> = \<lfloor>y\<rfloor>")
  case True
  with assms show ?thesis by (simp add: rne_def Let_def)
next
  case False
  moreover have "\<lfloor>x\<rfloor> \<le> \<lfloor>y\<rfloor>" using assms by (rule floor_mono)
  ultimately have "\<lfloor>x\<rfloor> + 1 \<le> \<lfloor>y\<rfloor>" by simp
  moreover have "rne x \<le> \<lfloor>x\<rfloor> + 1" "\<lfloor>y\<rfloor> \<le> rne y" by (simp_all add: rne_def Let_def)
  ultimately show ?thesis by simp
qed

lemma rat_powi_split: "(2 :: rat) powi (a + b) = 2 powi a * 2 powi b"
  by (simp add: power_int_add)

lemma rat_powi_pos [simp]: "0 < (2 :: rat) powi k"
  by (simp add: zero_less_power_int)

lemma rat_powi_less_iff [simp]: "(2 :: rat) powi a < 2 powi b \<longleftrightarrow> a < b"
  by (cases "a < b") (auto intro: power_int_strict_increasing simp: not_less dest: power_int_increasing [of _ _ "2 :: rat"])

lemma bitlen_rat:
  assumes "0 < p"
  shows "(2 :: rat) powi (bitlen p - 1) \<le> of_int p" and "(of_int p :: rat) < 2 powi bitlen p"
proof -
  have b: "2 ^ nat (bitlen p - 1) \<le> p" "p < 2 ^ nat (bitlen p)" using bitlen_bounds [OF assms] by auto
  have pos: "0 < bitlen p"
  proof (rule ccontr)
    assume "\<not> 0 < bitlen p"
    with b(2) assms show False by simp
  qed
  have "(of_int (2 ^ nat (bitlen p - 1)) :: rat) \<le> of_int p" using b(1) of_int_le_iff by blast
  then show "(2 :: rat) powi (bitlen p - 1) \<le> of_int p" using pos by (simp add: power_int_def)
  have "(of_int p :: rat) < of_int (2 ^ nat (bitlen p))" using b(2) of_int_less_iff by blast
  then show "(of_int p :: rat) < 2 powi bitlen p" using pos by (simp add: power_int_def)
qed

lemma dexp_bounds:
  assumes "x \<noteq> 0"
  shows "2 powi dexp x \<le> \<bar>x\<bar>" and "\<bar>x\<bar> < 2 powi (dexp x + 1)"
proof -
  obtain p q where pq: "quotient_of \<bar>x\<bar> = (p, q)" by fastforce
  have q: "0 < q" using quotient_of_denom_pos [OF pq] .
  have x: "\<bar>x\<bar> = of_int p / of_int q" using quotient_of_div [OF pq] .
  have p: "0 < p" using assms x q by (metis abs_zero divide_eq_0_iff abs_ge_zero zero_le_divide_iff of_int_0_le_iff of_int_eq_0_iff order_le_less order_less_imp_not_less zero_less_abs_iff of_int_0_less_iff zero_less_divide_iff)
  let ?k = "bitlen p - bitlen q"
  note P = bitlen_rat [OF p] and Q = bitlen_rat [OF q]
  have up: "\<bar>x\<bar> < 2 powi (?k + 1)"
  proof -
    have "of_int p / of_int q < (2 powi bitlen p) / (2 powi (bitlen q - 1) :: rat)"
      using P(2) Q(1) p q by (intro frac_less) simp_all
    also have "\<dots> = 2 powi (?k + 1)" by (simp add: power_int_diff power_int_add)
    finally show ?thesis using x by simp
  qed
  have low: "2 powi (?k - 1) \<le> \<bar>x\<bar>"
  proof -
    have "(2 :: rat) powi (?k - 1) = 2 powi (bitlen p - 1) / 2 powi bitlen q" by (simp add: power_int_diff)
    also have "\<dots> \<le> of_int p / of_int q"
      using P(1) Q(2) p q by (intro frac_le) simp_all
    finally show ?thesis using x by simp
  qed
  show "2 powi dexp x \<le> \<bar>x\<bar>" and "\<bar>x\<bar> < 2 powi (dexp x + 1)"
    using up low by (simp_all add: dexp_def pq Let_def)
qed

lemma dbl_0 [simp]: "dbl 0 = 0" by (simp add: dbl_def)

text \<open>The numbers with at most 53 bits: they are not rounded.\<close>

lemma dbl_representable:
  assumes "\<bar>n\<bar> \<le> 2 ^ 53" and "x = of_int n * 2 powi k"
  shows "dbl x = x"
proof (cases "x = 0")
  case False
  let ?e = "dexp x"
  have "\<exists>m j. x = of_int m * 2 powi j \<and> ?e - 52 \<le> j"
  proof (cases "\<bar>n\<bar> = 2 ^ 53")
    case True
    then have n: "n = sgn n * 2 * 2 ^ 52" by (simp add: abs_if sgn_if split: if_splits)
    have "x = of_int (sgn n * 2 * 2 ^ 52) * 2 powi k" using assms(2) n by simp
    then have x: "x = of_int (sgn n * 2 ^ 52) * 2 powi (k + 1)"
      by (simp add: power_int_add)
    have "\<bar>x\<bar> = 2 powi (53 + k)" using assms(2) True
      by (simp add: abs_mult power_int_add flip: of_int_abs)
    with dexp_bounds(1) [OF False] have "?e \<le> 53 + k"
      by (metis linorder_not_less rat_powi_less_iff)
    with x show ?thesis by (intro exI [of _ "sgn n * 2 ^ 52"] exI [of _ "k + 1"]) simp
  next
    case False2: False
    then have "\<bar>n\<bar> < 2 ^ 53" using assms(1) by simp
    then have "(of_int \<bar>n\<bar> :: rat) < of_int (2 ^ 53)" using of_int_less_iff by blast
    then have "\<bar>x\<bar> < 2 ^ 53 * 2 powi k" using assms(2) by (simp add: abs_mult)
    then have "\<bar>x\<bar> < 2 powi (53 + k)" by (simp add: power_int_add)
    with dexp_bounds(1) [OF False] have "(2 :: rat) powi ?e < 2 powi (53 + k)" by linarith
    then have "?e < 53 + k" by simp
    then show ?thesis using assms(2) by (intro exI [of _ n] exI [of _ k]) simp
  qed
  then obtain m j where x: "x = of_int m * 2 powi j" "?e - 52 \<le> j" by blast
  let ?ulp = "(2 :: rat) powi (?e - 52)"
  have "2 powi j = 2 powi (j - (?e - 52)) * ?ulp" by (simp add: power_int_add [symmetric])
  moreover have "?ulp \<noteq> 0" using rat_powi_pos [of "?e - 52"] by (rule less_imp_neq [symmetric])
  ultimately have "x / ?ulp = of_int m * 2 powi (j - (?e - 52))"
    by (metis x(1) mult.assoc nonzero_mult_div_cancel_right)
  also have "\<dots> = of_int (m * 2 ^ nat (j - (?e - 52)))" using x(2) by (simp add: power_int_def)
  finally have "x / ?ulp = of_int (m * 2 ^ nat (j - (?e - 52)))" .
  then have "of_int (rne (x / ?ulp)) = x / ?ulp" by (simp only: rne_of_int)
  then show ?thesis using False by (simp add: dbl_def Let_def)
qed simp

lemma dbl_of_int: "\<bar>n\<bar> \<le> 2 ^ 53 \<Longrightarrow> dbl (of_int n) = of_int n"
  by (rule dbl_representable [of n _ 0]) simp_all

lemma dbl_error: "\<bar>dbl x - x\<bar> \<le> \<bar>x\<bar> / 2 ^ 53"
proof (cases "x = 0")
  case False
  let ?ulp = "(2 :: rat) powi (dexp x - 52)"
  have "dbl x - x = (of_int (rne (x / ?ulp)) - x / ?ulp) * ?ulp"
    using False by (simp add: dbl_def Let_def algebra_simps)
  then have "\<bar>dbl x - x\<bar> = \<bar>of_int (rne (x / ?ulp)) - x / ?ulp\<bar> * ?ulp"
    by (simp add: abs_mult)
  also have "\<dots> \<le> 1 / 2 * ?ulp" by (intro mult_right_mono rne_error) simp
  also have "\<dots> = 2 powi dexp x / 2 ^ 53" by (simp add: power_int_diff)
  also have "\<dots> \<le> \<bar>x\<bar> / 2 ^ 53" using dexp_bounds(1) [OF False] by (simp add: divide_right_mono)
  finally show ?thesis .
qed simp

lemma dbl_range:
  assumes "0 < x"
  shows "2 powi dexp x \<le> dbl x" and "dbl x \<le> 2 powi (dexp x + 1)"
    and "\<exists>n. \<bar>n\<bar> \<le> 2 ^ 53 \<and> dbl x = of_int n * 2 powi (dexp x - 52)"
proof -
  let ?ulp = "(2 :: rat) powi (dexp x - 52)"
  have b: "2 powi dexp x \<le> x" "x < 2 powi (dexp x + 1)" using dexp_bounds [of x] assms by simp_all
  have e: "(2 :: rat) powi dexp x = 2 ^ 52 * ?ulp" "(2 :: rat) powi (dexp x + 1) = 2 ^ 53 * ?ulp"
    by (simp_all add: power_int_diff power_int_add)
  have "of_int (2 ^ 52) \<le> x / ?ulp" "x / ?ulp \<le> of_int (2 ^ 53)"
    using b unfolding e by (simp_all add: pos_le_divide_eq pos_divide_le_eq)
  then have r: "2 ^ 52 \<le> rne (x / ?ulp)" "rne (x / ?ulp) \<le> 2 ^ 53"
    using rne_mono [of "of_int (2 ^ 52)" "x / ?ulp"] rne_mono [of "x / ?ulp" "of_int (2 ^ 53)"]
    unfolding rne_of_int by blast+
  have d: "dbl x = of_int (rne (x / ?ulp)) * ?ulp" using assms by (simp add: dbl_def Let_def)
  have "(of_int (2 ^ 52) :: rat) \<le> of_int (rne (x / ?ulp))" "(of_int (rne (x / ?ulp)) :: rat) \<le> of_int (2 ^ 53)"
    using r of_int_le_iff by blast+
  then show "2 powi dexp x \<le> dbl x" and "dbl x \<le> 2 powi (dexp x + 1)"
    unfolding e d by (simp_all add: mult_right_mono)
  show "\<exists>n. \<bar>n\<bar> \<le> 2 ^ 53 \<and> dbl x = of_int n * ?ulp" using d r by (intro exI conjI) (auto simp: abs_if)
qed

lemma dbl_pos: "0 < x \<Longrightarrow> 0 < dbl x"
  using dbl_range(1) [of x] rat_powi_pos [of "dexp x"] by linarith

lemma dbl_nonneg: "0 \<le> x \<Longrightarrow> 0 \<le> dbl x"
  using dbl_pos [of x] by (cases "x = 0") (auto simp: less_le)

lemma dbl_idem:
  assumes "0 \<le> x" shows "dbl (dbl x) = dbl x"
proof (cases "x = 0")
  case False
  with assms have "0 < x" by simp
  from dbl_range(3) [OF this] show ?thesis using dbl_representable by blast
qed simp

lemma dbl_mono:
  assumes "0 \<le> x" and "x \<le> y"
  shows "dbl x \<le> dbl y"
proof (cases "x = 0")
  case True
  with assms dbl_nonneg show ?thesis by simp
next
  case False
  with assms have x: "0 < x" and y: "0 < y" by simp_all
  have "2 powi dexp x \<le> x" "y < 2 powi (dexp y + 1)" using dexp_bounds [of x] dexp_bounds [of y] x y by simp_all
  with assms have "(2 :: rat) powi dexp x < 2 powi (dexp y + 1)" by linarith
  then have le: "dexp x \<le> dexp y" by simp
  show ?thesis
  proof (cases "dexp x = dexp y")
    case True
    let ?ulp = "(2 :: rat) powi (dexp x - 52)"
    have "x / ?ulp \<le> y / ?ulp" using assms(2) by (simp add: divide_right_mono)
    from rne_mono [OF this] show ?thesis using x y True
      by (simp add: dbl_def Let_def mult_right_mono)
  next
    case False
    with le have "(2 :: rat) powi (dexp x + 1) \<le> 2 powi dexp y"
      by (metis linorder_not_less rat_powi_less_iff zless_imp_add1_zle order_le_less)
    with dbl_range(2) [OF x] dbl_range(1) [OF y] show ?thesis by linarith
  qed
qed

lemma dbl_upper: assumes "0 \<le> x" shows "dbl x \<le> (1 + 1 / 2 ^ 53) * x"
proof -
  have "dbl x - x \<le> x / 2 ^ 53" by (rule abs_le_D1) (use dbl_error [of x] assms in simp)
  then show ?thesis by (simp add: field_simps)
qed

lemma dbl_lower: assumes "0 \<le> x" shows "(1 - 1 / 2 ^ 53) * x \<le> dbl x"
proof -
  have "x - dbl x \<le> x / 2 ^ 53" using abs_le_D2 [of "dbl x - x" "x / 2 ^ 53"] dbl_error [of x] assms by (simp only: abs_of_nonneg minus_diff_eq)
  then show ?thesis by (simp add: field_simps)
qed

section \<open>Sums\<close>

lemma dsum_simps [simp]: "dsum [] = 0" "dsum (ws @ [w]) = dbl (dsum ws + w)"
  by (simp_all add: dsum_def)

lemma dsum_nonneg: "\<forall>w\<in>set ws. 0 \<le> w \<Longrightarrow> 0 \<le> dsum ws"
  by (induction ws rule: rev_induct) (simp_all add: dbl_nonneg)

lemma dbl_dsum: assumes "\<forall>w\<in>set ws. 0 \<le> w" shows "dbl (dsum ws) = dsum ws"
  using assms by (cases ws rule: rev_cases) (simp_all add: dbl_idem dsum_nonneg)

lemma dsum_upper:
  assumes "\<forall>w\<in>set ws. 0 \<le> w"
  shows "dsum ws \<le> (1 + 1 / 2 ^ 53) ^ length ws * sum_list ws"
  using assms
proof (induction ws rule: rev_induct)
  case (snoc w ws)
  let ?k = "1 + 1 / 2 ^ 53 :: rat"
  have nn: "0 \<le> dsum ws" "0 \<le> w" "0 \<le> sum_list ws" using snoc.prems dsum_nonneg [of ws] by (auto intro: sum_list_nonneg)
  have k: "1 \<le> ?k ^ length ws" by (rule one_le_power) simp
  have "dbl (dsum ws + w) \<le> ?k * (dsum ws + w)" using nn by (intro dbl_upper) simp
  also have "\<dots> \<le> ?k * (?k ^ length ws * sum_list ws + ?k ^ length ws * w)"
    using snoc mult_right_mono [OF k nn(2)] by (intro mult_left_mono add_mono) simp_all
  also have "\<dots> = ?k ^ Suc (length ws) * (sum_list ws + w)" by (simp add: algebra_simps)
  finally show ?case by simp
qed simp

text \<open>More votes do not weigh less.\<close>

lemma dsum_filter_mono:
  assumes "\<forall>x\<in>set xs. 0 \<le> f x" and "\<forall>x\<in>set xs. P x \<longrightarrow> Q x"
  shows "dsum (map f (filter P xs)) \<le> dsum (map f (filter Q xs))"
  using assms
proof (induction xs rule: rev_induct)
  case (snoc x xs)
  let ?p = "dsum (map f (filter P xs))" and ?q = "dsum (map f (filter Q xs))"
  have nn: "0 \<le> ?p" "0 \<le> ?q" "0 \<le> f x" using snoc.prems(1) dsum_nonneg [of "map f (filter P xs)"]
    dsum_nonneg [of "map f (filter Q xs)"] by simp_all
  have le: "?p \<le> ?q" using snoc by simp
  have "?q \<le> dbl (?q + f x)"
    using dbl_mono [of ?q "?q + f x"] dbl_dsum [of "map f (filter Q xs)"] snoc.prems(1) nn by auto
  moreover have "dbl (?p + f x) \<le> dbl (?q + f x)" using le nn by (intro dbl_mono) simp_all
  ultimately show ?case using le snoc.prems(2) by auto
qed simp

text \<open>Sums of integers are exact while they stay within 53 bits.\<close>

lemma dsum_of_int:
  assumes "\<forall>n\<in>set ns. 0 \<le> n" and "sum_list ns \<le> 2 ^ 53"
  shows "dsum (map of_int ns) = of_int (sum_list ns)"
  using assms
proof (induction ns rule: rev_induct)
  case (snoc n ns)
  have nn: "0 \<le> sum_list ns" "0 \<le> n" using snoc.prems(1) by (auto intro: sum_list_nonneg)
  with snoc have "dsum (map of_int ns) = of_int (sum_list ns)" by simp
  then have "dsum (map of_int (ns @ [n])) = dbl (of_int (sum_list ns + n))" by simp
  also have "\<dots> = of_int (sum_list ns + n)" using nn snoc.prems(2) by (intro dbl_of_int) simp
  finally show ?case by simp
qed simp

text \<open>Counting by ones sticks at \<open>2 ^ 53\<close> and is exact before.\<close>

lemma dsum_ones: "dsum (replicate n 1) = of_nat (min n (2 ^ 53))"
proof (induction n)
  case (Suc n)
  have "dsum (replicate (Suc n) 1) = dbl (dsum (replicate n 1) + 1)"
    by (metis dsum_simps(2) replicate_Suc replicate_append_same)
  also have "\<dots> = dbl (of_int (int (min n (2 ^ 53)) + 1))" by (simp add: Suc)
  also have "\<dots> = of_nat (min (Suc n) (2 ^ 53))"
  proof (cases "n < 2 ^ 53")
    case True
    then have "Suc n \<le> 2 ^ 53" by simp
    then have "int (Suc n) \<le> int (2 ^ 53)" using of_nat_le_iff by blast
    then have "\<bar>int n + 1\<bar> \<le> 2 ^ 53" by simp
    from dbl_of_int [OF this] True show ?thesis by simp
  next
    case False
    have "dbl (of_int (2 ^ 53 + 1)) = of_int (2 ^ 53)" by code_simp
    with False show ?thesis by simp
  qed
  finally show ?case .
qed simp

text \<open>The number one, halves, and what division leaves of a double.\<close>

lemma dbl_1 [simp]: "dbl 1 = 1"
  using dbl_of_int [of 1] by simp

lemma dbl_half:
  assumes "dbl x = x" and "0 < x"
  shows "dbl (1 / 2 * x) = 1 / 2 * x"
proof -
  obtain n where n: "\<bar>n\<bar> \<le> 2 ^ 53" "x = of_int n * 2 powi (dexp x - 52)"
    using dbl_range(3) [OF assms(2)] assms(1) by auto
  have "1 / 2 * x = of_int n * (1 / 2 * 2 powi (dexp x - 52))" by (subst n(2)) simp
  also have "1 / 2 * 2 powi (dexp x - 52) = (2 :: rat) powi (dexp x - 52 - 1)"
    by (simp add: power_int_diff)
  finally show ?thesis by (intro dbl_representable [OF n(1)])
qed

text \<open>
  The margin the consensus lives on: a quorum asks for half of \<open>T\<close> shares and one more, and that one
  share outweighs a million roundings as long as there are at most ten thousand million shares.
\<close>

lemma power_lower:
  fixes u :: rat
  assumes "0 \<le> u" and "u \<le> 1"
  shows "1 - of_nat m * u \<le> (1 - u) ^ m"
proof (induction m)
  case (Suc m)
  have "1 - of_nat (Suc m) * u \<le> (1 - of_nat m * u) * (1 - u)"
    using assms(1) by (simp add: algebra_simps)
  also have "\<dots> \<le> (1 - u) ^ m * (1 - u)" using Suc assms(2) by (intro mult_right_mono) simp_all
  finally show ?case by (simp add: mult.commute)
qed simp

lemma rounding_margin:
  fixes T :: rat
  assumes "0 < T" and "T \<le> 10000000000" and "m \<le> 1000010"
  shows "1 < (1 - 1 / 2 ^ 53) ^ m * (1 + 2 / T)"
proof -
  let ?v = "of_nat m / 2 ^ 53 :: rat"
  have m: "(of_nat m :: rat) \<le> 1000010" using assms(3) of_nat_le_iff [of m 1000010, where 'a = rat] by simp
  have "of_nat m * (T + 2) \<le> 1000010 * (10000000000 + 2)"
    using m assms(1,2) by (intro mult_mono) simp_all
  then have "?v * (T + 2) < 2" by (simp add: field_simps)
  then have "?v * (T + 2) / T < 2 / T" using assms(1) by (rule divide_strict_right_mono)
  then have "?v * (1 + 2 / T) < 2 / T" using assms(1) by (simp add: field_simps)
  then have "1 < (1 - ?v) * (1 + 2 / T)" by (simp add: algebra_simps)
  also have "\<dots> \<le> (1 - 1 / 2 ^ 53) ^ m * (1 + 2 / T)"
    using power_lower [of "1 / 2 ^ 53" m] assms(1) by (intro mult_right_mono) simp_all
  finally show ?thesis .
qed

end
