(* ===== verification/Cil_Block.thy ===== *)
theory Cil_Block
  imports Cil_Transaction Cil_Double
begin

text \<open>
  \<open>src/structures/block.js\<close> and \<open>src/structures/blockInfo.js\<close>. A block is built (\<open>addTx\<close>), finished
  (\<open>finish\<close> puts the coinbase in front and computes the Merkle root) and then only read; \<open>hash\<close>
  caches its value. The Merkle tree and the hash of an encoded header are parameters
  (\<open>block_crypto\<close>), the clock and the random address of the coinbase are arguments. The
  developers' share, \<open>parseInt(0.1 * fees)\<close>, is computed in doubles.
\<close>

section \<open>Block\<close>

record block_header =
  hd_parentHashes :: "hash list"
  hd_merkleRoot :: hash
  hd_conciliumId :: nat
  hd_timestamp :: nat
  hd_version :: nat
  hd_height :: nat

record block =
  bl_header :: block_header
  bl_txns :: "tx list"
  bl_signatures :: "string list"
  bl_final :: bool
  bl_building :: bool
  bl_hashCache :: "hash option"

record block_crypto =
  bc_merkleRoot :: "hash list \<Rightarrow> hash"
  bc_headerHash :: "block_header \<Rightarrow> hash"

definition GENESIS_BLOCK :: hash where
  "GENESIS_BLOCK = ''8b6d259ee3ee1acd524654d9b27286188c982e3764f1ef3f6db98c6382e6d777''"

definition DEV_FOUNDATION_ADDRESS :: addr where
  "DEV_FOUNDATION_ADDRESS = ''961d7815df8cc96d27aa2c483f55c6c163682775''"

definition DEV_FOUNDATION_SHARE :: rat where
  "DEV_FOUNDATION_SHARE = dbl (1 / 10)"

definition DEV_FOUNDATION_SHARE_OF :: "int \<Rightarrow> int" where
  "DEV_FOUNDATION_SHARE_OF totalTxnsFees = parseInt_number (dbl (DEV_FOUNDATION_SHARE * of_int totalTxnsFees))"

text \<open>The constructor on a number; the other fields have the defaults of the message type.\<close>

definition Block_new :: "nat \<Rightarrow> block" where
  "Block_new conciliumId =
     \<lparr>bl_header = \<lparr>hd_parentHashes = [], hd_merkleRoot = [], hd_conciliumId = conciliumId,
        hd_timestamp = 0, hd_version = 1, hd_height = 0\<rparr>,
      bl_txns = [], bl_signatures = [], bl_final = False, bl_building = False, bl_hashCache = None\<rparr>"

definition Block_parentHashes :: "block \<Rightarrow> hash list" where
  "Block_parentHashes b = hd_parentHashes (bl_header b)"

definition Block_setParentHashes :: "hash list \<Rightarrow> block \<Rightarrow> block" where
  "Block_setParentHashes hs b =
     b\<lparr>bl_hashCache := None, bl_header := (bl_header b)\<lparr>hd_parentHashes := hs\<rparr>\<rparr>"

definition Block_getConciliumId :: "block \<Rightarrow> nat" where
  "Block_getConciliumId b = hd_conciliumId (bl_header b)"

definition Block_timestamp :: "nat \<Rightarrow> block \<Rightarrow> nat" where
  "Block_timestamp now b = (if bl_building b then now else hd_timestamp (bl_header b))"

definition Block_getHeight :: "block \<Rightarrow> nat" where
  "Block_getHeight b = hd_height (bl_header b)"

definition Block_setHeight :: "nat \<Rightarrow> block \<Rightarrow> block" where
  "Block_setHeight nHeight b = b\<lparr>bl_header := (bl_header b)\<lparr>hd_height := nHeight\<rparr>\<rparr>"

definition Block_markAsBuilding :: "block \<Rightarrow> block" where
  "Block_markAsBuilding b = b\<lparr>bl_building := True\<rparr>"

definition Block_getTxHashes :: "crypto \<Rightarrow> block \<Rightarrow> hash list" where
  "Block_getTxHashes C b = map (Transaction_getHash C) (bl_txns b)"

definition Block_buildTxTree :: "crypto \<Rightarrow> block_crypto \<Rightarrow> block \<Rightarrow> hash res" where
  "Block_buildTxTree C B b =
     (if bl_txns b = [] then Inl (Error ''Empty block! Should be at least a coinbase TX!'')
      else Inr (bc_merkleRoot B (map (Transaction_getHash C) (bl_txns b))))"

text \<open>The call may fill the cache and the Merkle root, so the block is returned with the hash.\<close>

definition Block_hash :: "crypto \<Rightarrow> block_crypto \<Rightarrow> block \<Rightarrow> (hash \<times> block) res" where
  "Block_hash C B b =
     (if bl_building b then Inr (GENESIS_BLOCK, b)
      else if \<not> bl_final b then Inl (Error ''Call finish() before calculating hash'')
      else (case bl_hashCache b of
              Some h \<Rightarrow> Inr (h, b)
            | None \<Rightarrow>
                bindR (Block_buildTxTree C B b) (\<lambda>root.
                  let hdr = (bl_header b)\<lparr>hd_merkleRoot := root\<rparr>;
                      h = bc_headerHash B hdr
                  in Inr (h, b\<lparr>bl_header := hdr, bl_hashCache := Some h\<rparr>))))"

definition Block_addTx :: "tx \<Rightarrow> block \<Rightarrow> block res" where
  "Block_addTx t b =
     (if bl_final b then Inl (Error ''This block was already final!'')
      else Inr (b\<lparr>bl_hashCache := None, bl_txns := bl_txns b @ [t]\<rparr>))"

definition Block_isEmpty :: "block \<Rightarrow> bool" where
  "Block_isEmpty b =
     (case bl_txns b of [t] \<Rightarrow> Transaction_isCoinbase t | _ \<Rightarrow> False)"

definition Block_finishCoinbase :: "int \<Rightarrow> addr \<Rightarrow> int \<Rightarrow> addr \<Rightarrow> nat \<Rightarrow> tx res" where
  "Block_finishCoinbase totalTxnsFees addrReceiver minUsefulAmount rnd cid =
     bindR Transaction_createCoinbase (\<lambda>cb.
     let coinbase = Transaction_setConciliumId cid cb in
     if totalTxnsFees = 0 then Inr coinbase
     else
       let share = DEV_FOUNDATION_SHARE_OF totalTxnsFees;
           nFeeDevFoundation = (if share \<ge> minUsefulAmount * 2 then share else 0)
       in bindR (if share \<ge> minUsefulAmount * 2
                 then Transaction_addReceiver nFeeDevFoundation DEV_FOUNDATION_ADDRESS coinbase
                 else Inr coinbase) (\<lambda>coinbase.
          bindR (Transaction_addReceiver (totalTxnsFees - nFeeDevFoundation) addrReceiver coinbase)
            (\<lambda>coinbase. Transaction_addReceiver 0 rnd coinbase)))"

definition Block_finish ::
  "crypto \<Rightarrow> block_crypto \<Rightarrow> nat \<Rightarrow> addr \<Rightarrow> int \<Rightarrow> addr \<Rightarrow> int \<Rightarrow> block \<Rightarrow> block res" where
  "Block_finish C B now rnd totalTxnsFees addrReceiver minUsefulAmount b =
     bindR (typeforce (isAddress addrReceiver)) (\<lambda>_.
     bindR (assertR (totalTxnsFees \<ge> 0) (AssertionError ''Coinbase amount is negative'')) (\<lambda>_.
     bindR (Block_finishCoinbase totalTxnsFees addrReceiver minUsefulAmount rnd
              (Block_getConciliumId b)) (\<lambda>coinbase.
     let b1 = b\<lparr>bl_building := False, bl_hashCache := None, bl_txns := coinbase # bl_txns b\<rparr>
     in bindR (Block_buildTxTree C B b1) (\<lambda>root.
        Inr (b1\<lparr>bl_header := (bl_header b1)\<lparr>hd_merkleRoot := root, hd_timestamp := now\<rparr>,
                bl_final := True\<rparr>)))))"

text \<open>A signature is a \<open>Buffer\<close> of 65 bytes.\<close>

definition Block_addWitnessSignatures :: "string list \<Rightarrow> block \<Rightarrow> block res" where
  "Block_addWitnessSignatures arrSignatures b =
     bindR (typeforce (list_all (\<lambda>s. length s = 130) arrSignatures)) (\<lambda>_.
     Inr (b\<lparr>bl_signatures := arrSignatures\<rparr>))"

definition Block_verify :: "crypto \<Rightarrow> block_crypto \<Rightarrow> bool \<Rightarrow> block \<Rightarrow> unit res" where
  "Block_verify C B checkSignatures b =
     bindR (assertR (Block_parentHashes b \<noteq> []) (AssertionError ''Bad block parents'')) (\<lambda>_.
     bindR (assertR (checkSignatures \<longrightarrow> bl_signatures b \<noteq> [])
              (AssertionError ''Bad block signatures'')) (\<lambda>_.
     bindR (Block_buildTxTree C B b) (\<lambda>root.
     bindR (assertR (hd_merkleRoot (bl_header b) = root) (AssertionError ''Bad merkle root'')) (\<lambda>_.
     assertR (Block_getHeight b > 0) (AssertionError ''Bad height'')))))"

section \<open>BlockInfo\<close>

definition IN_FLIGHT_BLOCK :: nat where "IN_FLIGHT_BLOCK = 2 ^ 1"
definition EXECUTED_BLOCK :: nat where "EXECUTED_BLOCK = 2 ^ 2"
definition FINAL_BLOCK :: nat where "FINAL_BLOCK = 2 ^ 3"
definition BAD_BLOCK :: nat where "BAD_BLOCK = 2 ^ 8"

record blockInfo =
  bi_header :: block_header
  bi_flags :: nat

definition BlockInfo_new :: "block_header \<Rightarrow> blockInfo" where
  "BlockInfo_new hdr = \<lparr>bi_header = hdr, bi_flags = EXECUTED_BLOCK\<rparr>"

definition BlockInfo_getHash :: "block_crypto \<Rightarrow> blockInfo \<Rightarrow> hash" where
  "BlockInfo_getHash B i = bc_headerHash B (bi_header i)"

definition BlockInfo_parentHashes :: "blockInfo \<Rightarrow> hash list" where
  "BlockInfo_parentHashes i = hd_parentHashes (bi_header i)"

definition BlockInfo_getHeight :: "blockInfo \<Rightarrow> nat" where
  "BlockInfo_getHeight i = hd_height (bi_header i)"

definition BlockInfo_getConciliumId :: "blockInfo \<Rightarrow> nat" where
  "BlockInfo_getConciliumId i = hd_conciliumId (bi_header i)"

definition BlockInfo_markAsBad :: "blockInfo \<Rightarrow> blockInfo" where
  "BlockInfo_markAsBad i = i\<lparr>bi_flags := BAD_BLOCK\<rparr>"

definition BlockInfo_isBad :: "blockInfo \<Rightarrow> bool" where
  "BlockInfo_isBad i = (bi_flags i = BAD_BLOCK)"

definition BlockInfo_markAsFinal :: "blockInfo \<Rightarrow> blockInfo" where
  "BlockInfo_markAsFinal i = i\<lparr>bi_flags := FINAL_BLOCK\<rparr>"

definition BlockInfo_isFinal :: "blockInfo \<Rightarrow> bool" where
  "BlockInfo_isFinal i = (bi_flags i = FINAL_BLOCK)"

definition BlockInfo_markAsInFlight :: "blockInfo \<Rightarrow> blockInfo" where
  "BlockInfo_markAsInFlight i = i\<lparr>bi_flags := IN_FLIGHT_BLOCK\<rparr>"

definition BlockInfo_isInFlight :: "blockInfo \<Rightarrow> bool" where
  "BlockInfo_isInFlight i = (bi_flags i = IN_FLIGHT_BLOCK)"

definition BlockInfo_getState :: "blockInfo \<Rightarrow> nat" where
  "BlockInfo_getState i = bi_flags i"

section \<open>Lemmas\<close>

lemmas BlockInfo_flags =
  IN_FLIGHT_BLOCK_def EXECUTED_BLOCK_def FINAL_BLOCK_def BAD_BLOCK_def

lemma BlockInfo_mark [simp]:
  "BlockInfo_isBad (BlockInfo_markAsBad i)" "\<not> BlockInfo_isFinal (BlockInfo_markAsBad i)"
  "\<not> BlockInfo_isInFlight (BlockInfo_markAsBad i)"
  "BlockInfo_isFinal (BlockInfo_markAsFinal i)" "\<not> BlockInfo_isBad (BlockInfo_markAsFinal i)"
  "\<not> BlockInfo_isInFlight (BlockInfo_markAsFinal i)"
  "BlockInfo_isInFlight (BlockInfo_markAsInFlight i)"
  "\<not> BlockInfo_isBad (BlockInfo_markAsInFlight i)"
  "\<not> BlockInfo_isFinal (BlockInfo_markAsInFlight i)"
  "\<not> BlockInfo_isBad (BlockInfo_new h)" "\<not> BlockInfo_isFinal (BlockInfo_new h)"
  "\<not> BlockInfo_isInFlight (BlockInfo_new h)"
  by (simp_all add: BlockInfo_isBad_def BlockInfo_isFinal_def BlockInfo_isInFlight_def
      BlockInfo_markAsBad_def BlockInfo_markAsFinal_def BlockInfo_markAsInFlight_def
      BlockInfo_new_def BlockInfo_flags)

lemma isAddress_DEV [simp]: "isAddress DEV_FOUNDATION_ADDRESS"
  by (simp add: isAddress_def DEV_FOUNDATION_ADDRESS_def)

text \<open>An open coinbase can be extended; \<open>openCoinbase\<close> is the shape \<open>finish\<close> keeps.\<close>

definition openCoinbase :: "tx \<Rightarrow> bool" where
  "openCoinbase t \<longleftrightarrow> Transaction_isCoinbase t \<and> Transaction_checkDone t = Inr ()"

lemma openCoinbase_push [simp]: "openCoinbase (Transaction_pushOutput out t) \<longleftrightarrow> openCoinbase t"
  by (simp add: openCoinbase_def Transaction_isCoinbase_def)

lemma Transaction_createCoinbase_open:
  "\<exists>t. Transaction_createCoinbase = Inr t \<and>
     openCoinbase (Transaction_setConciliumId cid t) \<and>
     Transaction_outputs (Transaction_setConciliumId cid t) = [] \<and>
     Transaction_conciliumId (Transaction_setConciliumId cid t) = cid"
  by (simp add: Transaction_createCoinbase_eq openCoinbase_def Transaction_isCoinbase_def
      Transaction_setConciliumId_def Transaction_get_defs Transaction_new_def
      Transaction_checkDone_def)

lemma Transaction_addReceiver_open:
  "openCoinbase t \<Longrightarrow> Transaction_addReceiver a r t =
     bindR (typeforce (isAddress r)) (\<lambda>_. Inr (Transaction_pushOutput (plainOutput a r) t))"
  by (simp add: Transaction_addReceiver_def openCoinbase_def)

lemma Block_finishCoinbase_Inr:
  assumes "Block_finishCoinbase fees rcv useful rnd cid = Inr t"
  shows "openCoinbase t" and "Transaction_amountOut t = fees" and "Transaction_conciliumId t = cid"
proof -
  obtain t0 where t0: "Transaction_createCoinbase = Inr t0"
    "openCoinbase (Transaction_setConciliumId cid t0)"
    "Transaction_outputs (Transaction_setConciliumId cid t0) = []"
    "Transaction_conciliumId (Transaction_setConciliumId cid t0) = cid"
    using Transaction_createCoinbase_open by blast
  have amount: "Transaction_amountOut (Transaction_setConciliumId cid t0) = 0"
    using t0(3) by (simp add: Transaction_amountOut_sum)
  have "openCoinbase t \<and> Transaction_amountOut t = fees \<and> Transaction_conciliumId t = cid"
    using assms t0(2,4) amount unfolding Block_finishCoinbase_def t0(1) bindR.simps Let_def
    by (auto simp: Transaction_addReceiver_open split: if_splits)
  then show "openCoinbase t" and "Transaction_amountOut t = fees"
    and "Transaction_conciliumId t = cid" by auto
qed

lemma Block_finishCoinbase_ok:
  assumes "isAddress rcv" and "isAddress rnd"
  shows "isOk (Block_finishCoinbase fees rcv useful rnd cid)"
proof -
  obtain t0 where t0: "Transaction_createCoinbase = Inr t0"
    "openCoinbase (Transaction_setConciliumId cid t0)"
    using Transaction_createCoinbase_open by blast
  show ?thesis
    using assms t0(2) unfolding Block_finishCoinbase_def t0(1) bindR.simps Let_def
    by (simp add: Transaction_addReceiver_open)
qed

lemma Block_finish_Inr:
  assumes "Block_finish C B now rnd fees rcv useful b = Inr b'"
  shows "\<exists>cb. Block_finishCoinbase fees rcv useful rnd (Block_getConciliumId b) = Inr cb \<and>
    bl_txns b' = cb # bl_txns b \<and> bl_final b' \<and> \<not> bl_building b' \<and> bl_hashCache b' = None \<and>
    hd_merkleRoot (bl_header b') = bc_merkleRoot B (Block_getTxHashes C b') \<and>
    Block_parentHashes b' = Block_parentHashes b \<and> Block_getHeight b' = Block_getHeight b \<and>
    Block_getConciliumId b' = Block_getConciliumId b \<and> hd_timestamp (bl_header b') = now"
  using assms
  by (auto simp: Block_finish_def Let_def Block_buildTxTree_def Block_getTxHashes_def
      Block_parentHashes_def Block_getHeight_def Block_getConciliumId_def)

lemma Block_buildTxTree_Inr:
  "Block_buildTxTree C B b = Inr r \<longleftrightarrow>
     bl_txns b \<noteq> [] \<and> r = bc_merkleRoot B (Block_getTxHashes C b)"
  by (auto simp: Block_buildTxTree_def Block_getTxHashes_def)

lemma Block_verify_iff:
  "Block_verify C B s b = Inr () \<longleftrightarrow>
     Block_parentHashes b \<noteq> [] \<and> (s \<longrightarrow> bl_signatures b \<noteq> []) \<and> bl_txns b \<noteq> [] \<and>
     hd_merkleRoot (bl_header b) = bc_merkleRoot B (Block_getTxHashes C b) \<and> 0 < Block_getHeight b"
  by (auto simp: Block_verify_def Block_buildTxTree_Inr)

text \<open>
  The invariant of the hash cache: a cached hash is the hash of the header as it stands. It is kept
  by every operation except \<open>setHeight\<close>, which changes the header and not the cache.
\<close>

definition Block_cacheOk :: "crypto \<Rightarrow> block_crypto \<Rightarrow> block \<Rightarrow> bool" where
  "Block_cacheOk C B b \<longleftrightarrow>
     (\<forall>h. bl_hashCache b = Some h \<longrightarrow>
        h = bc_headerHash B ((bl_header b)\<lparr>hd_merkleRoot := bc_merkleRoot B (Block_getTxHashes C b)\<rparr>))"

lemma Block_cacheOk_hash:
  "Block_cacheOk C B b \<Longrightarrow> Block_hash C B b = Inr (h, b') \<Longrightarrow> Block_cacheOk C B b'"
  by (auto simp: Block_hash_def Block_cacheOk_def Let_def Block_buildTxTree_Inr
      Block_getTxHashes_def split: if_splits option.splits)

lemma Block_cacheOk_addTx: "Block_addTx t b = Inr b' \<Longrightarrow> Block_cacheOk C B b'"
  by (auto simp: Block_addTx_def Block_cacheOk_def split: if_splits)

lemma Block_cacheOk_parents: "Block_cacheOk C B (Block_setParentHashes hs b)"
  by (simp add: Block_setParentHashes_def Block_cacheOk_def)

lemma Block_cacheOk_finish:
  "Block_finish C B now rnd fees rcv useful b = Inr b' \<Longrightarrow> Block_cacheOk C B b'"
  by (drule Block_finish_Inr) (auto simp: Block_cacheOk_def)

lemma Block_cacheOk_setHeight: "bl_hashCache b = None \<Longrightarrow> Block_cacheOk C B (Block_setHeight n b)"
  by (simp add: Block_setHeight_def Block_cacheOk_def)

lemma Block_hash_fresh:
  "\<lbrakk>Block_cacheOk C B b; bl_final b; \<not> bl_building b; Block_hash C B b = Inr (h, b')\<rbrakk> \<Longrightarrow>
     h = bc_headerHash B ((bl_header b)\<lparr>hd_merkleRoot := bc_merkleRoot B (Block_getTxHashes C b)\<rparr>)"
  by (auto simp: Block_hash_def Block_cacheOk_def Let_def Block_buildTxTree_Inr
      split: option.splits)

end
