(* ===== verification/Cil_Concilium.thy ===== *)
theory Cil_Concilium
  imports Cil_Double Cil_Utils "HOL-Library.Multiset"
begin

text \<open>
  \<open>src/conciliums\<close>: the two kinds of concilium, round robin (\<open>ConciliumRrDefinition\<close>) and
  proof of stake (\<open>ConciliumPoS\<close>), over their base class. A concilium tells who proposes in a
  round, how much a member's vote weighs and how much weight is a quorum. The base class calls
  methods its subclasses redefine; here those are arguments of its operations. The fractions of
  the proof-of-stake class are IEEE doubles (\<open>Cil_Double\<close>): every operation on them rounds.
\<close>

section \<open>The base class\<close>

definition CONCILIUM_TYPE_RR :: nat where "CONCILIUM_TYPE_RR = 0"
definition CONCILIUM_TYPE_POS :: nat where "CONCILIUM_TYPE_POS = 1"

record concilium_fees =
  cf_feeTxSize :: "int option"
  cf_feeContractCreation :: "int option"
  cf_feeContractInvocation :: "int option"
  cf_feeStorage :: "int option"
  cf_feeInternalTx :: "int option"

text \<open>\<open>None\<close> stands for \<open>undefined\<close>: a missing fee, and the round counters before \<open>initRounds\<close>.\<close>

record concilium_base =
  cn_type :: nat
  cn_conciliumId :: nat
  cn_fees :: "concilium_fees option"
  cn_isEnabled :: bool
  cn_nSeed :: int
  cn_nSeqLength :: nat
  cn_nRoundBase :: "int option"
  cn_nLocalRound :: "nat option"

definition Base_changeSeed :: "int \<Rightarrow> 'z concilium_base_scheme \<Rightarrow> 'z concilium_base_scheme" where
  "Base_changeSeed nSeed c = c\<lparr>cn_nSeed := nSeed\<rparr>"

definition Base_new :: "nat \<Rightarrow> concilium_fees option \<Rightarrow> bool option \<Rightarrow> nat \<Rightarrow> concilium_base" where
  "Base_new conciliumId fees isEnabled nSeqLength =
     \<lparr>cn_type = 0, cn_conciliumId = conciliumId, cn_fees = fees,
      cn_isEnabled = (case isEnabled of None \<Rightarrow> True | Some b \<Rightarrow> b),
      cn_nSeed = 0, cn_nSeqLength = nSeqLength, cn_nRoundBase = None, cn_nLocalRound = None\<rparr>"

definition Base_getConciliumId :: "'z concilium_base_scheme \<Rightarrow> nat" where
  "Base_getConciliumId c = cn_conciliumId c"

definition Base_isRoundRobin :: "'z concilium_base_scheme \<Rightarrow> bool" where
  "Base_isRoundRobin c = (cn_type c = CONCILIUM_TYPE_RR)"

definition Base_isPoS :: "'z concilium_base_scheme \<Rightarrow> bool" where
  "Base_isPoS c = (cn_type c = CONCILIUM_TYPE_POS)"

definition Base_getFeeTxSize :: "'z concilium_base_scheme \<Rightarrow> int option" where
  "Base_getFeeTxSize c = Option.bind (cn_fees c) cf_feeTxSize"

definition Base_getFeeContractCreation :: "'z concilium_base_scheme \<Rightarrow> int option" where
  "Base_getFeeContractCreation c = Option.bind (cn_fees c) cf_feeContractCreation"

definition Base_getFeeContractInvocation :: "'z concilium_base_scheme \<Rightarrow> int option" where
  "Base_getFeeContractInvocation c = Option.bind (cn_fees c) cf_feeContractInvocation"

definition Base_getFeeStorage :: "'z concilium_base_scheme \<Rightarrow> int option" where
  "Base_getFeeStorage c = Option.bind (cn_fees c) cf_feeStorage"

definition Base_getFeeInternalTx :: "'z concilium_base_scheme \<Rightarrow> int option" where
  "Base_getFeeInternalTx c = Option.bind (cn_fees c) cf_feeInternalTx"

definition Base_initRounds :: "'z concilium_base_scheme \<Rightarrow> 'z concilium_base_scheme" where
  "Base_initRounds c = c\<lparr>cn_nRoundBase := Some (cn_nSeed c), cn_nLocalRound := Some 0\<rparr>"

text \<open>\<open>getRound\<close>, the same in both subclasses; a missing base makes the sum \<open>NaN\<close>, which the
  callers never see because \<open>initRounds\<close> sets both.\<close>

definition Base_getRound :: "'z concilium_base_scheme \<Rightarrow> int res" where
  "Base_getRound c =
     (case cn_nLocalRound c of
        None \<Rightarrow> Inl (AssertionError ''InitRounds first'')
      | Some n \<Rightarrow> Inr ((case cn_nRoundBase c of None \<Rightarrow> 0 | Some b \<Rightarrow> b) + int n))"

text \<open>\<open>initRounds\<close> is the subclass's, hence an argument.\<close>

definition Base_nextRound ::
    "('z concilium_base_scheme \<Rightarrow> 'z concilium_base_scheme res) \<Rightarrow> 'z concilium_base_scheme \<Rightarrow>
     (int \<times> 'z concilium_base_scheme) res" where
  "Base_nextRound initRounds c =
     (case cn_nLocalRound c of
        None \<Rightarrow> Inl (AssertionError ''InitRounds first'')
      | Some n \<Rightarrow>
          let c1 = c\<lparr>cn_nLocalRound := Some (n + 1)\<rparr>
          in bindR (if n + 1 \<ge> cn_nSeqLength c then initRounds c1 else Inr c1) (\<lambda>c2.
             bindR (Base_getRound c2) (\<lambda>r. Inr (r, c2))))"

definition Base_adjustRound ::
    "('z concilium_base_scheme \<Rightarrow> 'z concilium_base_scheme res) \<Rightarrow> int \<Rightarrow> 'z concilium_base_scheme \<Rightarrow>
     'z concilium_base_scheme res" where
  "Base_adjustRound initRounds nRoundNo c =
     bindR (if cn_nRoundBase c = Some 0 \<and> cn_nSeed c \<noteq> 0 then initRounds c else Inr c) (\<lambda>c1.
     case cn_nRoundBase c1 of
       None \<Rightarrow> Inr c1
     | Some b \<Rightarrow>
         let nRoundDiff = \<bar>nRoundNo - b\<bar>
         in Inr (if nRoundDiff < int (cn_nSeqLength c1)
                 then c1\<lparr>cn_nLocalRound := Some (nat nRoundDiff)\<rparr> else c1))"

section \<open>Round robin\<close>

record concilium_rr = concilium_base +
  rr_addresses :: "addr list"
  rr_quorum :: "int option"

definition Rr_new ::
    "nat \<Rightarrow> concilium_fees option \<Rightarrow> bool option \<Rightarrow> addr list option \<Rightarrow> int option \<Rightarrow> concilium_rr" where
  "Rr_new conciliumId fees isEnabled addresses quorum =
     (let b = Base_new conciliumId fees isEnabled
                (case addresses of None \<Rightarrow> 1 | Some as \<Rightarrow> length as)
      in concilium_base.extend (b\<lparr>cn_type := CONCILIUM_TYPE_RR\<rparr>)
           \<lparr>rr_addresses = (case addresses of None \<Rightarrow> [] | Some as \<Rightarrow> as), rr_quorum = quorum\<rparr>)"

definition Rr_getAddresses :: "concilium_rr \<Rightarrow> addr list" where
  "Rr_getAddresses c = rr_addresses c"

definition Rr_setQuorum :: "int \<Rightarrow> concilium_rr \<Rightarrow> concilium_rr" where
  "Rr_setQuorum quorum c = c\<lparr>rr_quorum := Some quorum\<rparr>"

definition Rr_getQuorum :: "concilium_rr \<Rightarrow> int" where
  "Rr_getQuorum c =
     (case rr_quorum c of
        Some q \<Rightarrow> (if q \<noteq> 0 then q else int (length (rr_addresses c) div 2) + 1)
      | None \<Rightarrow> int (length (rr_addresses c) div 2) + 1)"

definition Rr_initRounds :: "concilium_rr \<Rightarrow> concilium_rr res" where
  "Rr_initRounds c = Inr (Base_initRounds c)"

definition Rr_nextRound :: "concilium_rr \<Rightarrow> (int \<times> concilium_rr) res" where
  "Rr_nextRound c = Base_nextRound Rr_initRounds c"

definition Rr_adjustRound :: "int \<Rightarrow> concilium_rr \<Rightarrow> concilium_rr res" where
  "Rr_adjustRound n c = Base_adjustRound Rr_initRounds n c"

text \<open>
  The remainder of the language has the sign of the dividend: a negative round indexes nothing,
  and neither does any round when there are no addresses.
\<close>

definition Rr_getProposerAddress :: "concilium_rr \<Rightarrow> addr res" where
  "Rr_getProposerAddress c =
     bindR (Base_getRound c) (\<lambda>nRound.
     let n = int (length (rr_addresses c));
         idx = (if nRound \<ge> 0 then nRound mod n else - ((- nRound) mod n))
     in if n > 0 \<and> idx \<ge> 0 then Inr (rr_addresses c ! nat idx)
        else Inl (TypeError ''Cannot read property''))"

definition Rr_getWitnessWeight :: "addr \<Rightarrow> concilium_rr \<Rightarrow> rat res" where
  "Rr_getWitnessWeight a c = Inr 1"

definition Rr_isEnabled :: "concilium_rr \<Rightarrow> bool" where
  "Rr_isEnabled c = (cn_isEnabled c \<and> rr_addresses c \<noteq> [])"

definition Rr_getMembersCount :: "concilium_rr \<Rightarrow> nat" where
  "Rr_getMembersCount c = length (rr_addresses c)"

section \<open>Proof of stake\<close>

record pos_member =
  pm_address :: addr
  pm_amount :: int
  pm_nHeightToRelease :: int

text \<open>
  Without members the total and the quorum are \<open>NaN\<close>, the division of zero by \<open>NaN\<close>: \<open>None\<close> for the
  quorum, and a total no operation reads.
\<close>

record concilium_pos = concilium_base +
  ps_nMinAmountToJoin :: int
  ps_arrMembers :: "pos_member list"
  ps_totalSharesAmount :: rat
  ps_arrShares :: "rat list"
  ps_quorum :: "rat option"
  ps_arrProposers :: "nat list"

definition POS_paramA :: int where "POS_paramA = 1289"
definition POS_paramB :: int where "POS_paramB = 3559"

text \<open>The unit the shares are counted in: the greatest common divisor, or a round figure for
  large totals.\<close>

definition Pos_unit :: "int list \<Rightarrow> int" where
  "Pos_unit amounts =
     (let total = dsum (map of_int amounts);
          nGcd = (case GCD_js amounts of None \<Rightarrow> 1 | Some g \<Rightarrow> int g)
      in if total \<ge> 1000000000 \<and> nGcd < 1000000 then 1000000
         else if total \<ge> 1000000 \<and> nGcd < 1000 then 1000
         else nGcd)"

definition Pos_new ::
    "nat \<Rightarrow> concilium_fees option \<Rightarrow> bool option \<Rightarrow> int \<Rightarrow> pos_member list \<Rightarrow> nat \<Rightarrow> concilium_pos res"
where
  "Pos_new conciliumId fees isEnabled nMinAmountToJoin arrMembers nSeqLength =
     bindR (assertR (nMinAmountToJoin \<noteq> 0) (AssertionError ''Specify nMinAmountToJoin'')) (\<lambda>_.
     let b = Base_new conciliumId fees isEnabled nSeqLength;
         amounts = map pm_amount arrMembers;
         nGcd = Pos_unit amounts;
         total = dbl (dsum (map of_int amounts) / of_int nGcd);
         shares = map (\<lambda>m. dbl (of_int (pm_amount m) / of_int nGcd)) arrMembers
     in Inr (concilium_base.extend (b\<lparr>cn_type := CONCILIUM_TYPE_POS\<rparr>)
          \<lparr>ps_nMinAmountToJoin = nMinAmountToJoin, ps_arrMembers = arrMembers,
           ps_totalSharesAmount = total, ps_arrShares = shares,
           ps_quorum = (if shares = [] then None else if length shares = 1 then Some 1
             else Some (dbl (dbl (dbl (1 / 2 * total) + 1) / total))),
           ps_arrProposers = []\<rparr>))"

definition HEIGHT_TO_RELEASE_ADD_ON :: int where "HEIGHT_TO_RELEASE_ADD_ON = 1000"

definition Pos_create ::
    "nat \<Rightarrow> int \<Rightarrow> int \<Rightarrow> pos_member list \<Rightarrow> nat \<Rightarrow> concilium_pos res" where
  "Pos_create conciliumId nMinAmountToJoin currentHeight arrMembers nSeqLength =
     bindR (assertR (list_all (\<lambda>m. pm_address m \<noteq> [] \<and> pm_amount m \<ge> nMinAmountToJoin) arrMembers)
              (AssertionError ''Bad arrMembers'')) (\<lambda>_.
     Pos_new conciliumId None None nMinAmountToJoin
       (map (\<lambda>m. m\<lparr>pm_nHeightToRelease := currentHeight + HEIGHT_TO_RELEASE_ADD_ON\<rparr>) arrMembers)
       nSeqLength)"

definition Pos_getAddresses :: "concilium_pos \<Rightarrow> addr list" where
  "Pos_getAddresses c = map pm_address (ps_arrMembers c)"

definition Pos_getQuorum :: "concilium_pos \<Rightarrow> rat option" where
  "Pos_getQuorum c = ps_quorum c"

definition Pos_getWitnessWeight :: "addr \<Rightarrow> concilium_pos \<Rightarrow> rat res" where
  "Pos_getWitnessWeight strAddress c =
     (case findIndex (\<lambda>m. pm_address m = strAddress) (ps_arrMembers c) of
        None \<Rightarrow> Inl (Error ''not found in concilium'')
      | Some nIdx \<Rightarrow> Inr (dbl (ps_arrShares c ! nIdx / ps_totalSharesAmount c)))"

definition Pos_isEnabled :: "concilium_pos \<Rightarrow> bool" where
  "Pos_isEnabled c = (cn_isEnabled c \<and> ps_arrMembers c \<noteq> [])"

definition Pos_getMembersCount :: "concilium_pos \<Rightarrow> nat" where
  "Pos_getMembersCount c = length (ps_arrMembers c)"

definition Pos_getSlot :: "int \<Rightarrow> int" where
  "Pos_getSlot x = POS_paramA * x + POS_paramB"

text \<open>
  The remainder of doubles, truncated division, is exact. The slots are exact too: a seed adds up the
  bytes of a hash.
\<close>

definition jsRem :: "rat \<Rightarrow> rat \<Rightarrow> rat" where
  "jsRem x t = x - t * of_int (if x / t \<ge> 0 then \<lfloor>x / t\<rfloor> else \<lceil>x / t\<rceil>)"

fun Pos_findIdx :: "rat \<Rightarrow> rat \<Rightarrow> nat \<Rightarrow> rat list \<Rightarrow> nat res" where
  "Pos_findIdx nRound start i [] = Inl (Error ''You aren't supposed to be here'')"
| "Pos_findIdx nRound start i (s # ss) =
     (if nRound \<ge> start \<and> nRound < dbl (s + start) then Inr i
      else Pos_findIdx nRound (dbl (start + s)) (Suc i) ss)"

definition Pos_findIdxByRound :: "int \<Rightarrow> concilium_pos \<Rightarrow> nat res" where
  "Pos_findIdxByRound nRound c =
     Pos_findIdx (jsRem (of_int nRound) (ps_totalSharesAmount c)) 0 0 (ps_arrShares c)"

definition Pos_formProposerAddressesSequence :: "int \<Rightarrow> concilium_pos \<Rightarrow> concilium_pos res" where
  "Pos_formProposerAddressesSequence seed c =
     bindR (mapM (\<lambda>i. Pos_findIdxByRound (Pos_getSlot (seed + int i)) c) [0..<cn_nSeqLength c]) (\<lambda>ps.
     Inr (c\<lparr>ps_arrProposers := ps\<rparr>))"

definition Pos_initRounds :: "concilium_pos \<Rightarrow> concilium_pos res" where
  "Pos_initRounds c =
     Pos_formProposerAddressesSequence (cn_nSeed c) (Base_initRounds c)"

definition Pos_nextRound :: "concilium_pos \<Rightarrow> (int \<times> concilium_pos) res" where
  "Pos_nextRound c = Base_nextRound Pos_initRounds c"

definition Pos_adjustRound :: "int \<Rightarrow> concilium_pos \<Rightarrow> concilium_pos res" where
  "Pos_adjustRound n c = Base_adjustRound Pos_initRounds n c"

definition Pos_getProposerAddress :: "concilium_pos \<Rightarrow> addr res" where
  "Pos_getProposerAddress c =
     (case cn_nLocalRound c of
        None \<Rightarrow> Inl (AssertionError ''this._nLocalRound exceeded this._nSeqLength'')
      | Some n \<Rightarrow>
          if \<not> n < cn_nSeqLength c
          then Inl (AssertionError ''this._nLocalRound exceeded this._nSeqLength'')
          else if n < length (ps_arrProposers c) \<and> ps_arrProposers c ! n < length (ps_arrMembers c)
          then Inr (pm_address (ps_arrMembers c ! (ps_arrProposers c ! n)))
          else Inl (TypeError ''Cannot read property''))"

section \<open>Either kind\<close>

datatype concilium = RR concilium_rr | POS concilium_pos

fun Concilium_getConciliumId :: "concilium \<Rightarrow> nat" where
  "Concilium_getConciliumId (RR c) = Base_getConciliumId c"
| "Concilium_getConciliumId (POS c) = Base_getConciliumId c"

fun Concilium_getAddresses :: "concilium \<Rightarrow> addr list" where
  "Concilium_getAddresses (RR c) = Rr_getAddresses c"
| "Concilium_getAddresses (POS c) = Pos_getAddresses c"

fun Concilium_getQuorum :: "concilium \<Rightarrow> rat option" where
  "Concilium_getQuorum (RR c) = Some (of_int (Rr_getQuorum c))"
| "Concilium_getQuorum (POS c) = Pos_getQuorum c"

fun Concilium_getWitnessWeight :: "addr \<Rightarrow> concilium \<Rightarrow> rat res" where
  "Concilium_getWitnessWeight a (RR c) = Rr_getWitnessWeight a c"
| "Concilium_getWitnessWeight a (POS c) = Pos_getWitnessWeight a c"

fun Concilium_getMembersCount :: "concilium \<Rightarrow> nat" where
  "Concilium_getMembersCount (RR c) = Rr_getMembersCount c"
| "Concilium_getMembersCount (POS c) = Pos_getMembersCount c"

fun Concilium_initRounds :: "concilium \<Rightarrow> concilium res" where
  "Concilium_initRounds (RR c) = mapR RR (Rr_initRounds c)"
| "Concilium_initRounds (POS c) = mapR POS (Pos_initRounds c)"

fun Concilium_getRound :: "concilium \<Rightarrow> int res" where
  "Concilium_getRound (RR c) = Base_getRound c"
| "Concilium_getRound (POS c) = Base_getRound c"

fun Concilium_nextRound :: "concilium \<Rightarrow> (int \<times> concilium) res" where
  "Concilium_nextRound (RR c) = mapR (\<lambda>(r, c). (r, RR c)) (Rr_nextRound c)"
| "Concilium_nextRound (POS c) = mapR (\<lambda>(r, c). (r, POS c)) (Pos_nextRound c)"

fun Concilium_adjustRound :: "int \<Rightarrow> concilium \<Rightarrow> concilium res" where
  "Concilium_adjustRound n (RR c) = mapR RR (Rr_adjustRound n c)"
| "Concilium_adjustRound n (POS c) = mapR POS (Pos_adjustRound n c)"

fun Concilium_getProposerAddress :: "concilium \<Rightarrow> addr res" where
  "Concilium_getProposerAddress (RR c) = Rr_getProposerAddress c"
| "Concilium_getProposerAddress (POS c) = Pos_getProposerAddress c"

fun Concilium_changeSeed :: "int \<Rightarrow> concilium \<Rightarrow> concilium" where
  "Concilium_changeSeed n (RR c) = RR (Base_changeSeed n c)"
| "Concilium_changeSeed n (POS c) = POS (Base_changeSeed n c)"

section \<open>Quorums intersect\<close>

text \<open>Votes are lists: no vote is counted twice, and two groups without a common voter fit into the members.\<close>

lemma distinct_mset_le:
  assumes "distinct xs" and "set xs \<subseteq> set ys"
  shows "mset xs \<subseteq># mset ys"
proof (rule mset_subset_eqI)
  fix a
  have "count (mset xs) a = (if a \<in> set xs then 1 else 0)" using assms(1) by (simp add: distinct_count_atmost_1)
  moreover have "1 \<le> count (mset ys) a" if "a \<in> set xs" using that assms(2) by auto
  ultimately show "count (mset xs) a \<le> count (mset ys) a" by simp
qed

lemma mset_filter_disjoint:
  assumes "\<forall>z\<in>set zs. \<not> (P z \<and> Q z)"
  shows "mset (filter P zs) + mset (filter Q zs) \<subseteq># mset zs"
  using assms
proof (induction zs)
  case (Cons z zs)
  then have IH: "mset (filter P zs) + mset (filter Q zs) \<subseteq># mset zs" by simp
  show ?case using IH Cons.prems by (auto intro: subset_mset.order_trans)
qed simp

lemma mset_part:
  fixes f :: "'a \<Rightarrow> 'b :: ordered_comm_monoid_add"
  assumes "mset xs + mset ys \<subseteq># mset zs" and "\<And>a. a \<in> set zs \<Longrightarrow> 0 \<le> f a"
  shows "set xs \<subseteq> set zs" and "set ys \<subseteq> set zs" and "length xs \<le> length zs" and "length ys \<le> length zs"
    and "sum_list (map f xs) + sum_list (map f ys) \<le> sum_list (map f zs)"
proof -
  obtain r where r: "mset zs = mset xs + mset ys + r" using assms(1) by (metis subset_mset.add_diff_inverse)
  then obtain ws where ws: "mset zs = mset (xs @ ys @ ws)" by (metis ex_mset mset_append add.assoc)
  then have eq: "set zs = set (xs @ ys @ ws)" "length zs = length (xs @ ys @ ws)"
    by (metis set_mset_mset, metis size_mset)
  then show "set xs \<subseteq> set zs" "set ys \<subseteq> set zs" "length xs \<le> length zs" "length ys \<le> length zs" by auto
  have "sum_list (map f zs) = sum_list (map f (xs @ ys @ ws))"
    using ws by (metis mset_map sum_mset_sum_list)
  moreover have "0 \<le> sum_list (map f ws)" using eq(1) assms(2) by (intro sum_list_nonneg) auto
  ultimately show "sum_list (map f xs) + sum_list (map f ys) \<le> sum_list (map f zs)"
    by (simp add: add.assoc [symmetric] add_increasing2)
qed

text \<open>
  What the consensus asks of a concilium: every member's vote weighs something, a weight is a double,
  and two groups of votes without a common voter never weigh two quorums, however the votes are
  added up. The last is where the rounding matters.
\<close>

locale voting =
  fixes members :: "'c \<Rightarrow> 'm list"
    and weight :: "'c \<Rightarrow> 'm \<Rightarrow> rat"
    and quorum :: "'c \<Rightarrow> rat option"
    and ok :: "'c \<Rightarrow> bool"
  assumes weight_pos: "ok c \<Longrightarrow> a \<in> set (members c) \<Longrightarrow> 0 < weight c a"
    and weight_double: "ok c \<Longrightarrow> a \<in> set (members c) \<Longrightarrow> dbl (weight c a) = weight c a"
    and majority: "ok c \<Longrightarrow> quorum c = Some q \<Longrightarrow> mset xs + mset ys \<subseteq># mset (members c) \<Longrightarrow>
      dsum (map (weight c) xs) + dsum (map (weight c) ys) < 2 * q"
begin

lemma quorums_meet:
  assumes ok: "ok c" and q: "quorum c = Some q"
    and xs: "distinct xs" "set xs \<subseteq> set (members c)" "q \<le> dsum (map (weight c) xs)"
    and ys: "distinct ys" "set ys \<subseteq> set (members c)" "q \<le> dsum (map (weight c) ys)"
  shows "set xs \<inter> set ys \<noteq> {}"
proof
  assume "set xs \<inter> set ys = {}"
  then have "distinct (xs @ ys)" "set (xs @ ys) \<subseteq> set (members c)" using xs ys by simp_all
  then have "mset (xs @ ys) \<subseteq># mset (members c)" by (rule distinct_mset_le)
  then have "mset xs + mset ys \<subseteq># mset (members c)" by simp
  from majority [OF ok q this] xs(3) ys(3) show False by simp
qed

text \<open>The same for votes given by position.\<close>

lemma votes_meet:
  assumes ok: "ok c" and q: "quorum c = Some q" and len: "length ds = length (members c)"
    and P: "q \<le> dsum (map (weight c) (map fst (filter P (zip (members c) ds))))"
    and Q: "q \<le> dsum (map (weight c) (map fst (filter Q (zip (members c) ds))))"
  shows "\<exists>z\<in>set (zip (members c) ds). P z \<and> Q z"
proof (rule ccontr)
  let ?zs = "zip (members c) ds"
  assume "\<not> ?thesis"
  then have "mset (filter P ?zs) + mset (filter Q ?zs) \<subseteq># mset ?zs"
    by (intro mset_filter_disjoint) auto
  then have "image_mset fst (mset (filter P ?zs) + mset (filter Q ?zs)) \<subseteq># image_mset fst (mset ?zs)"
    by (rule image_mset_subseteq_mono)
  moreover have "image_mset fst (mset ?zs) = mset (members c)" using len by (simp flip: mset_map)
  ultimately have "mset (map fst (filter P ?zs)) + mset (map fst (filter Q ?zs)) \<subseteq># mset (members c)"
    by simp
  from majority [OF ok q this] P Q show False by simp
qed

end

definition Concilium_weight :: "concilium \<Rightarrow> addr \<Rightarrow> rat" where
  "Concilium_weight c a = (case Concilium_getWitnessWeight a c of Inl _ \<Rightarrow> 0 | Inr w \<Rightarrow> w)"

text \<open>
  A round-robin concilium takes any quorum its definition states; the one it computes by itself is
  a majority.
\<close>

definition Rr_ok :: "concilium_rr \<Rightarrow> bool" where
  "Rr_ok c \<longleftrightarrow> int (length (rr_addresses c)) < 2 * Rr_getQuorum c"

lemma Rr_ok_default: "rr_quorum c = None \<or> rr_quorum c = Some 0 \<Longrightarrow> Rr_ok c"
  by (auto simp: Rr_ok_def Rr_getQuorum_def)

interpretation rv: voting Rr_getAddresses "\<lambda>c a. 1" "\<lambda>c. Some (of_int (Rr_getQuorum c))" Rr_ok
proof unfold_locales
  show "dbl 1 = (1 :: rat)" by (rule dbl_1)
next
  fix c q and xs ys :: "addr list"
  assume "Rr_ok c" and "Some (of_int (Rr_getQuorum c)) = Some (q :: rat)"
    and le: "mset xs + mset ys \<subseteq># mset (Rr_getAddresses c)"
  then have q: "of_int (int (length (rr_addresses c))) < (of_int (2 * Rr_getQuorum c) :: rat)"
    "q = of_int (Rr_getQuorum c)"
    unfolding Rr_ok_def of_int_less_iff by simp_all
  have ones: "dsum (map (\<lambda>a. 1) zs) \<le> of_nat (length zs)" for zs :: "addr list"
    by (simp add: map_replicate_const dsum_ones)
  have "length xs + length ys \<le> length (rr_addresses c)"
    using size_mset_mono [OF le] by (simp add: Rr_getAddresses_def)
  then have "(of_nat (length xs + length ys) :: rat) \<le> of_nat (length (rr_addresses c))"
    by (simp only: of_nat_le_iff)
  with ones [of xs] ones [of ys] q show "dsum (map (\<lambda>a. 1) xs) + dsum (map (\<lambda>a. 1) ys) < 2 * q" by simp
qed simp

text \<open>The fields of a proof-of-stake concilium as its constructor fills them in.\<close>

definition Pos_built :: "concilium_pos \<Rightarrow> bool" where
  "Pos_built c \<longleftrightarrow>
     ps_arrMembers c \<noteq> [] \<and> distinct (map pm_address (ps_arrMembers c)) \<and>
     (\<forall>m\<in>set (ps_arrMembers c). 0 < pm_amount m) \<and>
     (\<exists>cid fees en nMin len d. Pos_new cid fees en nMin (ps_arrMembers c) len = Inr d \<and>
        ps_totalSharesAmount c = ps_totalSharesAmount d \<and> ps_arrShares c = ps_arrShares d \<and>
        ps_quorum c = ps_quorum d)"

text \<open>The sizes up to which the rounding of doubles cannot make two quorums of disjoint members.\<close>

definition Pos_ok :: "concilium_pos \<Rightarrow> bool" where
  "Pos_ok c \<longleftrightarrow> Pos_built c \<and> sum_list (map pm_amount (ps_arrMembers c)) \<le> 2 ^ 53 \<and>
     length (ps_arrMembers c) \<le> 1000000"

lemma Pos_new_Inr:
  assumes "Pos_new cid fees en nMin ms len = Inr c"
  shows "ps_arrMembers c = ms" and "cn_nSeqLength c = len" and "cn_nLocalRound c = None"
    and "ps_totalSharesAmount c = dbl (dsum (map of_int (map pm_amount ms)) / of_int (Pos_unit (map pm_amount ms)))"
    and "ps_arrShares c = map (\<lambda>m. dbl (of_int (pm_amount m) / of_int (Pos_unit (map pm_amount ms)))) ms"
    and "ms \<noteq> [] \<Longrightarrow> ps_quorum c = Some (if length ms = 1 then 1
      else dbl (dbl (dbl (1 / 2 * ps_totalSharesAmount c) + 1) / ps_totalSharesAmount c))"
  using assms
  by (auto simp: Pos_new_def Base_new_def concilium_base.defs Let_def split: if_splits)

lemma Pos_built_fields:
  assumes "Pos_built c"
  shows "ps_arrMembers c \<noteq> []" and "distinct (map pm_address (ps_arrMembers c))"
    and "\<forall>m\<in>set (ps_arrMembers c). 0 < pm_amount m"
    and "ps_totalSharesAmount c = dbl (dsum (map of_int (map pm_amount (ps_arrMembers c))) /
      of_int (Pos_unit (map pm_amount (ps_arrMembers c))))"
    and "ps_arrShares c = map (\<lambda>m. dbl (of_int (pm_amount m) /
      of_int (Pos_unit (map pm_amount (ps_arrMembers c))))) (ps_arrMembers c)"
    and "ps_quorum c = Some (if length (ps_arrMembers c) = 1 then 1
      else dbl (dbl (dbl (1 / 2 * ps_totalSharesAmount c) + 1) / ps_totalSharesAmount c))"
proof -
  from assms obtain cid fees en nMin len d where
    d: "Pos_new cid fees en nMin (ps_arrMembers c) len = Inr d"
    "ps_totalSharesAmount c = ps_totalSharesAmount d" "ps_arrShares c = ps_arrShares d"
    "ps_quorum c = ps_quorum d" and ne: "ps_arrMembers c \<noteq> []"
    by (auto simp: Pos_built_def)
  note N = Pos_new_Inr [OF d(1)]
  show "ps_arrMembers c \<noteq> []" and "distinct (map pm_address (ps_arrMembers c))"
    and "\<forall>m\<in>set (ps_arrMembers c). 0 < pm_amount m" using assms by (simp_all add: Pos_built_def)
  show "ps_totalSharesAmount c = dbl (dsum (map of_int (map pm_amount (ps_arrMembers c))) /
      of_int (Pos_unit (map pm_amount (ps_arrMembers c))))" using d(2) N(4) by (rule trans)
  show "ps_arrShares c = map (\<lambda>m. dbl (of_int (pm_amount m) /
      of_int (Pos_unit (map pm_amount (ps_arrMembers c))))) (ps_arrMembers c)" using d(3) N(5) by (rule trans)
  show "ps_quorum c = Some (if length (ps_arrMembers c) = 1 then 1
      else dbl (dbl (dbl (1 / 2 * ps_totalSharesAmount c) + 1) / ps_totalSharesAmount c))"
    unfolding d(2) using d(4) N(6) [OF ne] by (rule trans)
qed

lemma Pos_new_built:
  assumes "Pos_new cid fees en nMin ms len = Inr c" and "ms \<noteq> []" and "distinct (map pm_address ms)"
    and "\<forall>m\<in>set ms. 0 < pm_amount m"
  shows "Pos_built c"
  unfolding Pos_built_def Pos_new_Inr(1) [OF assms(1)] using assms by blast

lemma Pos_unit_pos:
  assumes "ms \<noteq> []" and "\<forall>m\<in>set ms. 0 < pm_amount m"
  shows "0 < Pos_unit (map pm_amount ms)"
proof -
  let ?as = "map pm_amount ms"
  obtain g where g: "GCD_js ?as = Some g" using assms(1) by (cases ms) auto
  then have gcd: "int g = Gcd (set ?as)" using GCD_js_correct [of ?as] assms(1) by simp
  obtain a as where as: "?as = a # as" using assms(1) by (cases ms) auto
  have "int g dvd a" "0 < a" using assms(2) as unfolding gcd by (auto simp: map_eq_Cons_conv)
  then have "0 < int g" by (metis dvd_0_left_iff less_irrefl of_nat_0_less_iff of_nat_0 neq0_conv)
  then show ?thesis using g by (auto simp: Pos_unit_def Let_def)
qed

text \<open>Within the size of exact integers the total is exact: two shares at least for two members, and
  never more than ten thousand million shares.\<close>

lemma Pos_unit_bounds:
  assumes "ms \<noteq> []" and "\<forall>m\<in>set ms. 0 < pm_amount m" and le: "sum_list (map pm_amount ms) \<le> 2 ^ 53"
  shows "length ms \<noteq> 1 \<Longrightarrow> 2 * Pos_unit (map pm_amount ms) \<le> sum_list (map pm_amount ms)"
    and "sum_list (map pm_amount ms) \<le> 9100000000 * Pos_unit (map pm_amount ms)"
    and "dsum (map of_int (map pm_amount ms)) = of_int (sum_list (map pm_amount ms))"
    and "0 < sum_list (map pm_amount ms)"
proof -
  let ?as = "map pm_amount ms"
  have pos: "\<forall>a\<in>set ?as. 0 < a" using assms(2) by simp
  show ex: "dsum (map of_int ?as) = of_int (sum_list ?as)"
    using pos le by (intro dsum_of_int) (auto intro: less_imp_le)
  obtain g where g: "GCD_js ?as = Some g" using assms(1) by (cases ms) auto
  then have gcd: "int g = Gcd (set ?as)" using GCD_js_correct [of ?as] assms(1) by simp
  have unit: "Pos_unit ?as = (if 1000000000 \<le> sum_list ?as \<and> int g < 1000000 then 1000000
      else if 1000000 \<le> sum_list ?as \<and> int g < 1000 then 1000 else int g)"
    using g of_int_le_iff [of 1000000000 "sum_list ?as", where 'a = rat]
      of_int_le_iff [of 1000000 "sum_list ?as", where 'a = rat]
    unfolding Pos_unit_def Let_def ex by simp
  have dvd: "\<forall>a\<in>set ?as. int g dvd a" unfolding gcd by simp
  obtain a as where as: "?as = a # as" using assms(1) by (cases ms) auto
  have nn: "0 \<le> sum_list as" using pos as by (intro sum_list_nonneg) (auto intro: less_imp_le)
  show sp: "0 < sum_list ?as" using pos as nn by simp
  show "sum_list ?as \<le> 9100000000 * Pos_unit ?as"
    using le Pos_unit_pos [OF assms(1,2)] unfolding unit by (auto split: if_splits)
  assume "length ms \<noteq> 1"
  then obtain b bs where bs: "as = b # bs" using as by (cases as; cases ms) auto
  have "int g \<le> a" "int g \<le> b" using dvd pos as bs by (auto intro: zdvd_imp_le)
  moreover have "0 \<le> sum_list bs" using pos as bs by (intro sum_list_nonneg) (auto intro: less_imp_le)
  ultimately have "2 * int g \<le> sum_list ?as" using as bs by simp
  then show "2 * Pos_unit ?as \<le> sum_list ?as" unfolding unit by auto
qed

text \<open>Below a million, and whenever the greatest common divisor is not too small, the unit divides every stake.\<close>

lemma Pos_unit_dvd:
  assumes "ms \<noteq> []" and "\<forall>m\<in>set ms. 0 < pm_amount m" and le: "sum_list (map pm_amount ms) \<le> 2 ^ 53"
    and "sum_list (map pm_amount ms) < 1000000" and "m \<in> set ms"
  shows "Pos_unit (map pm_amount ms) dvd pm_amount m"
proof -
  let ?as = "map pm_amount ms"
  obtain g where g: "GCD_js ?as = Some g" using assms(1) by (cases ms) auto
  then have "int g = Gcd (set ?as)" using GCD_js_correct [of ?as] assms(1) by simp
  moreover have "Pos_unit ?as = int g"
    using g assms(4) of_int_le_iff [of 1000000000 "sum_list ?as", where 'a = rat]
      of_int_le_iff [of 1000000 "sum_list ?as", where 'a = rat]
    unfolding Pos_unit_def Let_def Pos_unit_bounds(3) [OF assms(1-3)] by simp
  ultimately show ?thesis using assms(5) by simp
qed

lemma Pos_weight_built:
  assumes ok: "Pos_built c" and m: "m \<in> set (ps_arrMembers c)"
  shows "Pos_getWitnessWeight (pm_address m) c =
    Inr (dbl (dbl (of_int (pm_amount m) / of_int (Pos_unit (map pm_amount (ps_arrMembers c)))) /
      ps_totalSharesAmount c))"
proof -
  let ?ms = "ps_arrMembers c"
  note D = Pos_built_fields [OF ok]
  obtain i where i: "findIndex (\<lambda>x. pm_address x = pm_address m) ?ms = Some i"
    using m findIndex_None_iff [of "\<lambda>x. pm_address x = pm_address m" ?ms] by fastforce
  note F = findIndex_SomeD [OF i]
  have "?ms ! i = m" using F m D(2) by (metis distinct_map inj_on_def nth_mem)
  then show ?thesis using i F D(5) by (simp add: Pos_getWitnessWeight_def)
qed

definition Pos_weight :: "concilium_pos \<Rightarrow> addr \<Rightarrow> rat" where
  "Pos_weight c a = (case Pos_getWitnessWeight a c of Inl _ \<Rightarrow> 0 | Inr w \<Rightarrow> w)"

lemma Pos_total_range:
  assumes b: "Pos_built c" "sum_list (map pm_amount (ps_arrMembers c)) \<le> 2 ^ 53"
  shows "(1 - 1 / 2 ^ 53) * (of_int (sum_list (map pm_amount (ps_arrMembers c))) /
      of_int (Pos_unit (map pm_amount (ps_arrMembers c)))) \<le> ps_totalSharesAmount c"
    and "0 < ps_totalSharesAmount c" and "ps_totalSharesAmount c \<le> 10000000000"
    and "dbl (ps_totalSharesAmount c) = ps_totalSharesAmount c"
    and "length (ps_arrMembers c) \<noteq> 1 \<Longrightarrow> 2 \<le> ps_totalSharesAmount c"
proof -
  let ?ms = "ps_arrMembers c"
  let ?S = "of_int (sum_list (map pm_amount ?ms)) :: rat" and ?g = "of_int (Pos_unit (map pm_amount ?ms)) :: rat"
  note D = Pos_built_fields [OF b(1)] and U = Pos_unit_bounds [OF Pos_built_fields(1,3) [OF b(1)] b(2)]
  have T: "ps_totalSharesAmount c = dbl (?S / ?g)" using D(4) U(3) by simp
  have g: "0 < ?g" using Pos_unit_pos [OF D(1,3)] by simp
  have S: "0 < ?S" using U(4) by simp
  then have p: "0 < ?S / ?g" using g by simp
  show "(1 - 1 / 2 ^ 53) * (?S / ?g) \<le> ps_totalSharesAmount c" "0 < ps_totalSharesAmount c"
    unfolding T using dbl_lower [of "?S / ?g"] dbl_pos [OF p] p by simp_all
  show "dbl (ps_totalSharesAmount c) = ps_totalSharesAmount c" unfolding T by (rule dbl_idem) (use p in simp)
  have "?S \<le> of_int (9100000000 * Pos_unit (map pm_amount ?ms))" using U(2) of_int_le_iff by blast
  then have "?S / ?g \<le> 10000000000" using g by (simp add: pos_divide_le_eq)
  then have "dbl (?S / ?g) \<le> dbl (of_int 10000000000)" using p by (intro dbl_mono) simp_all
  then show "ps_totalSharesAmount c \<le> 10000000000" unfolding T by (subst (asm) dbl_of_int) simp_all
  assume "length ?ms \<noteq> 1"
  from U(1) [OF this] have "of_int (2 * Pos_unit (map pm_amount ?ms)) \<le> ?S" using of_int_le_iff by blast
  then have "2 \<le> ?S / ?g" using g by (simp add: pos_le_divide_eq)
  then have "dbl (of_int 2) \<le> dbl (?S / ?g)" by (intro dbl_mono) simp_all
  then show "2 \<le> ps_totalSharesAmount c" unfolding T by (subst (asm) dbl_of_int) simp_all
qed

lemma Pos_weight_upper:
  assumes ok: "Pos_ok c" and m: "m \<in> set (ps_arrMembers c)"
  shows "0 < Pos_weight c (pm_address m)" and "dbl (Pos_weight c (pm_address m)) = Pos_weight c (pm_address m)"
    and "Pos_weight c (pm_address m) \<le> (1 + 1 / 2 ^ 53)\<^sup>2 * (of_int (pm_amount m) /
      of_int (Pos_unit (map pm_amount (ps_arrMembers c))) / ps_totalSharesAmount c)"
proof -
  have b: "Pos_built c" using ok by (simp add: Pos_ok_def)
  let ?g = "of_int (Pos_unit (map pm_amount (ps_arrMembers c))) :: rat" and ?T = "ps_totalSharesAmount c"
  let ?s = "of_int (pm_amount m) / ?g" and ?k = "1 + 1 / 2 ^ 53 :: rat"
  have g: "0 < ?g" using Pos_unit_pos Pos_built_fields(1,3) [OF b] by simp
  have T: "0 < ?T" using Pos_total_range(2) [OF b] ok by (simp add: Pos_ok_def)
  have "0 < pm_amount m" using Pos_built_fields(3) [OF b] m by blast
  then have s: "0 < ?s" using g by simp
  have w: "Pos_weight c (pm_address m) = dbl (dbl ?s / ?T)"
    by (simp add: Pos_weight_def Pos_weight_built [OF b m])
  have p: "0 < dbl ?s / ?T" using dbl_pos [OF s] T by simp
  show "0 < Pos_weight c (pm_address m)" unfolding w by (rule dbl_pos [OF p])
  show "dbl (Pos_weight c (pm_address m)) = Pos_weight c (pm_address m)"
    unfolding w by (rule dbl_idem) (use p in simp)
  have "dbl (dbl ?s / ?T) \<le> ?k * (dbl ?s / ?T)" using p by (intro dbl_upper) simp
  also have "\<dots> \<le> ?k * (?k * ?s / ?T)"
    using dbl_upper [of ?s] s T by (intro mult_left_mono divide_right_mono) simp_all
  also have "\<dots> = ?k\<^sup>2 * (?s / ?T)" by (simp only: power2_eq_square times_divide_eq_right mult.assoc)
  finally show "Pos_weight c (pm_address m) \<le> ?k\<^sup>2 * (?s / ?T)" unfolding w .
qed

lemma Pos_quorum_bounds:
  assumes b: "Pos_built c" and small: "sum_list (map pm_amount (ps_arrMembers c)) \<le> 2 ^ 53"
  shows "\<exists>q T. Pos_getQuorum c = Some q \<and> 1 / 2 < q \<and> q \<le> 1 \<and> 0 < T \<and> T \<le> 10000000000 \<and>
    (1 - 1 / 2 ^ 53)\<^sup>2 * (1 + 2 / T) \<le> 2 * q"
proof (cases "length (ps_arrMembers c) = 1")
  case True
  then have "Pos_getQuorum c = Some 1"
    using Pos_built_fields(6) [OF b] by (simp add: Pos_getQuorum_def)
  then show ?thesis by (intro exI [of _ 1] exI [of _ 2]) (simp add: power2_eq_square)
next
  case False
  let ?T = "ps_totalSharesAmount c" and ?u = "1 - 1 / 2 ^ 53 :: rat"
  note R = Pos_total_range [OF b small]
  have T2: "2 \<le> ?T" using R(5) False by blast
  note dT = R(4)
  let ?q = "dbl (dbl (1 / 2 * ?T + 1) / ?T)"
  have q: "Pos_getQuorum c = Some ?q"
    unfolding Pos_getQuorum_def Pos_built_fields(6) [OF b] dbl_half [OF dT R(2)] using False by simp
  have "dbl (1 / 2 * ?T + 1) \<le> dbl ?T" using T2 by (intro dbl_mono) simp_all
  then have "dbl (1 / 2 * ?T + 1) / ?T \<le> 1" using R(2) dT by (simp add: pos_divide_le_eq)
  moreover have p: "0 \<le> dbl (1 / 2 * ?T + 1) / ?T" using R(2) dbl_nonneg [of "1 / 2 * ?T + 1"] by simp
  ultimately have le: "?q \<le> 1" using dbl_mono [of _ 1] by (metis dbl_1)
  have "?u * (?u * (1 / 2 * ?T + 1) / ?T) \<le> ?u * (dbl (1 / 2 * ?T + 1) / ?T)"
    using dbl_lower [of "1 / 2 * ?T + 1"] R(2) by (intro mult_left_mono divide_right_mono) simp_all
  also have "\<dots> \<le> ?q" by (rule dbl_lower [OF p])
  finally have "?u * (?u * (1 / 2 * ?T + 1) / ?T) \<le> ?q" .
  moreover have "?u * (?u * (1 / 2 * ?T + 1) / ?T) = ?u\<^sup>2 * (1 / 2 + 1 / ?T)"
    using R(2) by (simp only: power2_eq_square) (simp add: field_simps)
  ultimately have low: "?u\<^sup>2 * (1 / 2 + 1 / ?T) \<le> ?q" by simp
  have "1 < ?u ^ 2 * (1 + 2 / ?T)" using rounding_margin [OF R(2,3), of 2] by simp
  then have half: "1 / 2 < ?u\<^sup>2 * (1 / 2 + 1 / ?T)" by (simp add: algebra_simps)
  have "1 + 2 / ?T = 2 * (1 / 2 + 1 / ?T)" by simp
  then have "?u\<^sup>2 * (1 + 2 / ?T) = 2 * (?u\<^sup>2 * (1 / 2 + 1 / ?T))" by (simp only: mult.left_commute)
  then have "?u\<^sup>2 * (1 + 2 / ?T) \<le> 2 * ?q" using low by (simp only: mult_le_cancel_left_pos)
  moreover have "1 / 2 < ?q" using half low by (rule less_le_trans)
  ultimately show ?thesis using q le R(2,3) by blast
qed

lemma Pos_weights_upper:
  assumes ok: "Pos_ok c"
  shows "(1 - 1 / 2 ^ 53) * sum_list (map (Pos_weight c) (Pos_getAddresses c)) \<le> (1 + 1 / 2 ^ 53)\<^sup>2"
proof -
  let ?ms = "ps_arrMembers c" and ?T = "ps_totalSharesAmount c"
  let ?g = "of_int (Pos_unit (map pm_amount ?ms)) :: rat" and ?k = "(1 + 1 / 2 ^ 53)\<^sup>2 :: rat"
  let ?S = "of_int (sum_list (map pm_amount ?ms)) :: rat"
  have "sum_list (map (Pos_weight c) (map pm_address xs)) \<le> ?k * (of_int (sum_list (map pm_amount xs)) / ?g / ?T)"
    if "set xs \<subseteq> set ?ms" for xs
    using that
  proof (induction xs)
    case (Cons m xs)
    have "?k * (of_int (sum_list (map pm_amount (m # xs))) / ?g / ?T) =
        ?k * (of_int (pm_amount m) / ?g / ?T) + ?k * (of_int (sum_list (map pm_amount xs)) / ?g / ?T)"
      by (simp only: list.map sum_list.Cons of_int_add add_divide_distrib distrib_left)
    with Cons Pos_weight_upper(3) [OF ok, of m] show ?case by simp
  qed simp
  from this [of ?ms] have W: "sum_list (map (Pos_weight c) (Pos_getAddresses c)) \<le> ?k * (?S / ?g / ?T)"
    by (simp add: Pos_getAddresses_def)
  have b: "Pos_built c" "sum_list (map pm_amount ?ms) \<le> 2 ^ 53" using ok by (simp_all add: Pos_ok_def)
  note R = Pos_total_range [OF b]
  have "(1 - 1 / 2 ^ 53) * (?S / ?g) / ?T \<le> 1" using R(1,2) by (simp only: pos_divide_le_eq mult_1)
  then have "(1 - 1 / 2 ^ 53) * (?S / ?g / ?T) \<le> 1" by (simp only: times_divide_eq_right)
  then have "?k * ((1 - 1 / 2 ^ 53) * (?S / ?g / ?T)) \<le> ?k * 1" by (intro mult_left_mono) simp_all
  moreover have "(1 - 1 / 2 ^ 53) * sum_list (map (Pos_weight c) (Pos_getAddresses c)) \<le>
      (1 - 1 / 2 ^ 53) * (?k * (?S / ?g / ?T))" using W by (intro mult_left_mono) simp_all
  ultimately show ?thesis by (simp only: mult.left_commute [of ?k] mult_1_right)
qed

interpretation pv: voting Pos_getAddresses Pos_weight Pos_getQuorum Pos_ok
proof unfold_locales
  fix c a assume ok: "Pos_ok c" and "a \<in> set (Pos_getAddresses c)"
  then obtain m where m: "m \<in> set (ps_arrMembers c)" "a = pm_address m"
    by (auto simp: Pos_getAddresses_def)
  from Pos_weight_upper [OF ok m(1)] show "0 < Pos_weight c a" "dbl (Pos_weight c a) = Pos_weight c a"
    unfolding m(2) by blast+
next
  fix c q xs ys
  assume ok: "Pos_ok c" and q: "Pos_getQuorum c = Some q"
    and le: "mset xs + mset ys \<subseteq># mset (Pos_getAddresses c)"
  let ?w = "Pos_weight c" and ?k = "1 + 1 / 2 ^ 53 :: rat" and ?u = "1 - 1 / 2 ^ 53 :: rat"
  let ?n = "length (ps_arrMembers c)" and ?all = "sum_list (map (Pos_weight c) (Pos_getAddresses c))"
  have pos: "0 \<le> ?w a" if "a \<in> set (Pos_getAddresses c)" for a
    using that Pos_weight_upper(1) [OF ok] by (force simp: Pos_getAddresses_def less_imp_le)
  have sub: "set xs \<subseteq> set (Pos_getAddresses c)" "set ys \<subseteq> set (Pos_getAddresses c)"
    "length xs \<le> ?n" "length ys \<le> ?n" "sum_list (map ?w xs) + sum_list (map ?w ys) \<le> ?all"
    using mset_part [OF le pos] by (simp_all add: Pos_getAddresses_def)
  have one: "dsum (map ?w zs) \<le> ?k ^ ?n * sum_list (map ?w zs)"
    if "set zs \<subseteq> set (Pos_getAddresses c)" "length zs \<le> ?n" for zs
  proof -
    have nn: "\<forall>a\<in>set (map ?w zs). 0 \<le> a" using that(1) pos by auto
    have "?k ^ length zs * sum_list (map ?w zs) \<le> ?k ^ ?n * sum_list (map ?w zs)"
      using that(2) nn by (intro mult_right_mono power_increasing sum_list_nonneg) auto
    with dsum_upper [OF nn] show ?thesis by simp
  qed
  have "dsum (map ?w xs) + dsum (map ?w ys) \<le> ?k ^ ?n * (sum_list (map ?w xs) + sum_list (map ?w ys))"
    using one [OF sub(1,3)] one [OF sub(2,4)] by (simp only: distrib_left)
  also have "\<dots> \<le> ?k ^ ?n * ?all" by (intro mult_left_mono sub(5)) simp
  finally have sums: "dsum (map ?w xs) + dsum (map ?w ys) \<le> ?k ^ ?n * ?all" .
  obtain T where T: "0 < T" "T \<le> 10000000000" "?u\<^sup>2 * (1 + 2 / T) \<le> 2 * q"
    using Pos_quorum_bounds [of c] ok q by (auto simp: Pos_ok_def)
  have n: "?n + 5 \<le> 1000010" using ok by (simp add: Pos_ok_def)
  have "?u ^ (?n + 3) * (?k ^ ?n * ?all) = ?u ^ (?n + 2) * ?k ^ ?n * (?u * ?all)"
    by (simp add: power_add power2_eq_square eval_nat_numeral mult_ac)
  also have "\<dots> \<le> ?u ^ (?n + 2) * ?k ^ ?n * ?k\<^sup>2"
    by (intro mult_left_mono Pos_weights_upper ok) simp
  also have "\<dots> = (?u * ?k) ^ (?n + 2)" by (simp only: power_mult_distrib power_add mult_ac)
  also have "\<dots> \<le> 1" by (intro power_le_one) simp_all
  also have "1 < ?u ^ (?n + 5) * (1 + 2 / T)" by (rule rounding_margin [OF T(1,2) n])
  also have "\<dots> = ?u ^ (?n + 3) * (?u\<^sup>2 * (1 + 2 / T))" by (simp add: eval_nat_numeral mult_ac)
  also have "\<dots> \<le> ?u ^ (?n + 3) * (2 * q)" using T(3) by (intro mult_left_mono) simp_all
  finally have "?k ^ ?n * ?all < 2 * q" by (rule mult_left_less_imp_less) simp
  with sums show "dsum (map ?w xs) + dsum (map ?w ys) < 2 * q" by simp
qed

fun Concilium_ok :: "concilium \<Rightarrow> bool" where
  "Concilium_ok (RR c) = Rr_ok c"
| "Concilium_ok (POS c) = Pos_ok c"

interpretation cv: voting Concilium_getAddresses Concilium_weight Concilium_getQuorum Concilium_ok
proof -
  have rr: "Concilium_weight (RR r) = (\<lambda>a. 1)" for r
    by (simp add: Concilium_weight_def Rr_getWitnessWeight_def fun_eq_iff)
  have ps: "Concilium_weight (POS p) = Pos_weight p" for p
    by (simp add: Concilium_weight_def Pos_weight_def fun_eq_iff)
  show "voting Concilium_getAddresses Concilium_weight Concilium_getQuorum Concilium_ok"
  proof unfold_locales
    fix c a assume "Concilium_ok c" and "a \<in> set (Concilium_getAddresses c)"
    then show "0 < Concilium_weight c a" and "dbl (Concilium_weight c a) = Concilium_weight c a"
      by (cases c; simp add: rr ps pv.weight_pos pv.weight_double)+
  next
    fix c q xs ys assume "Concilium_ok c" and "Concilium_getQuorum c = Some q"
      and "mset xs + mset ys \<subseteq># mset (Concilium_getAddresses c)"
    then show "dsum (map (Concilium_weight c) xs) + dsum (map (Concilium_weight c) ys) < 2 * q"
      using rv.majority pv.majority by (cases c) (simp_all add: rr ps)
  qed
qed

text \<open>
  The conciliums of the program: from a constructor, with its rounds and its seed changed later. A
  definition may state a quorum of its own for a round-robin concilium; only a majority is taken here.
\<close>

inductive Concilium_made :: "concilium \<Rightarrow> bool" where
  made_rr: "quorum = None \<or> quorum = Some 0 \<or> (\<exists>n. quorum = Some n \<and> int (length as) < 2 * n) \<Longrightarrow>
    Concilium_made (RR (Rr_new cid fees en (Some as) quorum))"
| made_pos: "Pos_new cid fees en nMin ms len = Inr c \<Longrightarrow> ms \<noteq> [] \<Longrightarrow> distinct (map pm_address ms) \<Longrightarrow>
    \<forall>m\<in>set ms. 0 < pm_amount m \<Longrightarrow> sum_list (map pm_amount ms) \<le> 2 ^ 53 \<Longrightarrow> length ms \<le> 1000000 \<Longrightarrow>
    Concilium_made (POS c)"
| made_changeSeed: "Concilium_made c \<Longrightarrow> Concilium_made (Concilium_changeSeed n c)"
| made_initRounds: "Concilium_made c \<Longrightarrow> Concilium_initRounds c = Inr d \<Longrightarrow> Concilium_made d"
| made_nextRound: "Concilium_made c \<Longrightarrow> Concilium_nextRound c = Inr (r, d) \<Longrightarrow> Concilium_made d"
| made_adjustRound: "Concilium_made c \<Longrightarrow> Concilium_adjustRound r c = Inr d \<Longrightarrow> Concilium_made d"

section \<open>Rounds\<close>

definition Base_roundOk :: "'z concilium_base_scheme \<Rightarrow> bool" where
  "Base_roundOk c \<longleftrightarrow> (\<exists>b n. cn_nRoundBase c = Some b \<and> cn_nLocalRound c = Some n \<and> n < cn_nSeqLength c)"

text \<open>
  What the base class relies on when it calls \<open>initRounds\<close> of a subclass, and what it gives back:
  the counters stay in range, so \<open>getRound\<close> and the subclass's \<open>getProposerAddress\<close> are defined.
  \<open>good\<close> is what \<open>initRounds\<close> establishes besides the counters.
\<close>

locale rounds =
  fixes initRounds :: "'z concilium_base_scheme \<Rightarrow> 'z concilium_base_scheme res"
    and inv :: "'z concilium_base_scheme \<Rightarrow> bool"
    and good :: "'z concilium_base_scheme \<Rightarrow> bool"
  assumes init_total: "inv c \<Longrightarrow> isOk (initRounds c)"
    and init_counters: "initRounds c = Inr c' \<Longrightarrow> cn_nRoundBase c' = Some (cn_nSeed c) \<and>
      cn_nLocalRound c' = Some 0 \<and> cn_nSeqLength c' = cn_nSeqLength c \<and> cn_nSeed c' = cn_nSeed c"
    and init_inv: "inv c \<Longrightarrow> initRounds c = Inr c' \<Longrightarrow> inv c' \<and> good c'"
    and upd_inv: "inv c \<Longrightarrow> inv (c\<lparr>cn_nLocalRound := x\<rparr>)"
    and upd_good: "good c \<Longrightarrow> good (c\<lparr>cn_nLocalRound := x\<rparr>)"
begin

lemma next_round:
  assumes "inv c" and "good c" and "cn_nRoundBase c = Some b" and "cn_nLocalRound c = Some n"
    and "n < cn_nSeqLength c"
  shows "\<exists>c'. Base_nextRound initRounds c =
      Inr (if n + 1 < cn_nSeqLength c then b + int n + 1 else cn_nSeed c, c') \<and>
    inv c' \<and> good c' \<and> Base_roundOk c' \<and> cn_nSeqLength c' = cn_nSeqLength c"
proof (cases "n + 1 < cn_nSeqLength c")
  case True
  with assms upd_inv upd_good show ?thesis
    by (auto simp: Base_nextRound_def Base_getRound_def Base_roundOk_def Let_def)
next
  case False
  let ?c1 = "c\<lparr>cn_nLocalRound := Some (n + 1)\<rparr>"
  obtain c' where c': "initRounds ?c1 = Inr c'"
    using init_total [OF upd_inv [OF assms(1)]] unfolding isOk_ex by (rule exE)
  from init_counters [OF c'] init_inv [OF upd_inv [OF assms(1)] c'] False assms(4,5) c' show ?thesis
    by (auto simp: Base_nextRound_def Base_getRound_def Base_roundOk_def Let_def)
qed

lemma adjust_round:
  assumes "inv c" and "good c" and "cn_nRoundBase c = Some b" and "cn_nLocalRound c = Some n"
    and "n < cn_nSeqLength c" and "b \<noteq> 0 \<or> cn_nSeed c = 0"
  shows "\<exists>c'. Base_adjustRound initRounds r c = Inr c' \<and> inv c' \<and> good c' \<and> Base_roundOk c' \<and>
    Base_getRound c' = Inr (if \<bar>r - b\<bar> < int (cn_nSeqLength c) then b + \<bar>r - b\<bar> else b + int n)"
  using assms upd_inv upd_good
  by (auto simp: Base_adjustRound_def Base_getRound_def Base_roundOk_def Let_def)

text \<open>A first adjustment after the seed became known restarts the rounds from the seed.\<close>

lemma adjust_round_reseed:
  assumes "inv c" and "cn_nRoundBase c = Some 0" and "cn_nSeed c \<noteq> 0" and "0 < cn_nSeqLength c"
  shows "\<exists>c'. Base_adjustRound initRounds r c = Inr c' \<and> inv c' \<and> good c' \<and> Base_roundOk c' \<and>
    Base_getRound c' = Inr (if \<bar>r - cn_nSeed c\<bar> < int (cn_nSeqLength c)
      then cn_nSeed c + \<bar>r - cn_nSeed c\<bar> else cn_nSeed c)"
proof -
  obtain c' where c': "initRounds c = Inr c'" using init_total [OF assms(1)] unfolding isOk_ex by (rule exE)
  from init_counters [OF c'] init_inv [OF assms(1) c'] upd_inv [of c'] upd_good [of c'] assms c'
  show ?thesis
    by (auto simp: Base_adjustRound_def Base_getRound_def Base_roundOk_def Let_def)
qed

end

interpretation rr: rounds Rr_initRounds "\<lambda>_. True" "\<lambda>_. True"
  by unfold_locales (auto simp: Rr_initRounds_def Base_initRounds_def)

text \<open>The search for a slot gives an index or the code's own error.\<close>

lemma Pos_findIdx_result:
  "case Pos_findIdx r start i ss of
     Inl e \<Rightarrow> e = Error ''You aren't supposed to be here''
   | Inr j \<Rightarrow> i \<le> j \<and> j < i + length ss"
proof (induction ss arbitrary: start i)
  case (Cons s ss)
  from Cons.IH [where start = "dbl (start + s)" and i = "Suc i"] show ?case by (auto split: sum.splits)
qed simp

text \<open>Shares that are whole numbers tile the interval from zero to their total: every slot has a member.\<close>

lemma Pos_findIdx_total:
  assumes "\<forall>n\<in>set ns. 0 < n" and "0 \<le> st" and "st + sum_list ns \<le> 2 ^ 53"
    and "of_int st \<le> r" and "r < of_int (st + sum_list ns)"
  shows "isOk (Pos_findIdx r (of_int st) i (map of_int ns))"
  using assms
proof (induction ns arbitrary: st i)
  case (Cons n ns)
  have nn: "0 \<le> sum_list ns" "0 < n" using Cons.prems(1) by (auto intro!: sum_list_nonneg simp: less_imp_le)
  have d: "dbl (of_int n + of_int st) = of_int (n + st)" "dbl (of_int st + of_int n) = of_int (st + n)"
    using dbl_of_int [of "n + st"] dbl_of_int [of "st + n"] Cons.prems(2,3) nn by (simp_all flip: of_int_add)
  show ?case
  proof (cases "r < of_int (n + st)")
    case True
    with Cons.prems(4) d show ?thesis by simp
  next
    case False
    with Cons.prems nn have "isOk (Pos_findIdx r (of_int (st + n)) (Suc i) (map of_int ns))"
      by (intro Cons.IH) (simp_all add: add.commute add.left_commute)
    with False d show ?thesis by simp
  qed
qed simp

lemma jsRem_bounds:
  assumes "0 \<le> x" and "0 < t"
  shows "0 \<le> jsRem x t" and "jsRem x t < t"
proof -
  have q: "0 \<le> x / t" using assms by simp
  have "of_int \<lfloor>x / t\<rfloor> \<le> x / t" "x / t < of_int \<lfloor>x / t\<rfloor> + 1" by linarith+
  then have "t * of_int \<lfloor>x / t\<rfloor> \<le> t * (x / t)" "t * (x / t) < t * (of_int \<lfloor>x / t\<rfloor> + 1)"
    using assms(2) by (simp_all only: mult_le_cancel_left_pos mult_less_cancel_left_pos)
  then have "t * of_int \<lfloor>x / t\<rfloor> \<le> x" "x < t * (of_int \<lfloor>x / t\<rfloor> + 1)"
    using assms(2) by simp_all
  then show "0 \<le> jsRem x t" and "jsRem x t < t"
    using q by (simp_all add: jsRem_def algebra_simps)
qed

text \<open>Stakes that are multiples of the unit the constructor picks.\<close>

definition Pos_even :: "concilium_pos \<Rightarrow> bool" where
  "Pos_even c \<longleftrightarrow> Pos_built c \<and> sum_list (map pm_amount (ps_arrMembers c)) \<le> 2 ^ 53 \<and>
     (\<forall>m\<in>set (ps_arrMembers c). Pos_unit (map pm_amount (ps_arrMembers c)) dvd pm_amount m)"

lemma Pos_even_shares:
  assumes "Pos_even c"
  shows "\<exists>ns. ps_arrShares c = map of_int ns \<and> (\<forall>n\<in>set ns. 0 < n) \<and>
    ps_totalSharesAmount c = of_int (sum_list ns) \<and> 0 < sum_list ns \<and> sum_list ns \<le> 2 ^ 53"
proof -
  let ?ms = "ps_arrMembers c" and ?g = "Pos_unit (map pm_amount (ps_arrMembers c))"
  let ?ns = "map (\<lambda>m. pm_amount m div ?g) ?ms"
  have b: "Pos_built c" "sum_list (map pm_amount ?ms) \<le> 2 ^ 53" and dvd: "\<forall>m\<in>set ?ms. ?g dvd pm_amount m"
    using assms by (simp_all add: Pos_even_def)
  note D = Pos_built_fields [OF b(1)] and U = Pos_unit_bounds [OF Pos_built_fields(1,3) [OF b(1)] b(2)]
  have g: "0 < ?g" by (rule Pos_unit_pos [OF D(1,3)])
  have sum: "sum_list (map pm_amount xs) = ?g * sum_list (map (\<lambda>m. pm_amount m div ?g) xs)"
    if "set xs \<subseteq> set ?ms" for xs
    using that dvd by (induction xs) (auto simp: distrib_left)
  then have S: "sum_list (map pm_amount ?ms) = ?g * sum_list ?ns" by blast
  have pos: "\<forall>n\<in>set ?ns. 0 < n"
    using D(3) dvd g by (auto simp: pos_imp_zdiv_pos_iff intro: zdvd_imp_le)
  have "0 < ?g * sum_list ?ns" using U(4) S by simp
  then have sp: "0 < sum_list ?ns" using g by (simp add: zero_less_mult_iff)
  have "1 * sum_list ?ns \<le> ?g * sum_list ?ns" using g sp by (intro mult_right_mono) simp_all
  with b(2) S have sle: "sum_list ?ns \<le> 2 ^ 53" by simp
  have ratio: "of_int (?g * k) / of_int ?g = (of_int k :: rat)" for k using g by simp
  have "dbl (of_int (pm_amount m) / of_int ?g) = of_int (pm_amount m div ?g)" if m: "m \<in> set ?ms" for m
  proof -
    have a: "pm_amount m = ?g * (pm_amount m div ?g)" using dvd m by simp
    have "pm_amount m div ?g \<le> sum_list ?ns"
      using m pos by (intro member_le_sum_list) (auto simp: less_imp_le)
    moreover have "0 < pm_amount m div ?g" using pos m by auto
    ultimately have "dbl (of_int (pm_amount m div ?g)) = of_int (pm_amount m div ?g)"
      using sle by (intro dbl_of_int) simp
    then show ?thesis using ratio [of "pm_amount m div ?g"] a by simp
  qed
  then have "ps_arrShares c = map of_int ?ns" unfolding D(5) by simp
  moreover have "ps_totalSharesAmount c = of_int (sum_list ?ns)"
    unfolding D(4) U(3) S ratio using sp sle by (intro dbl_of_int) simp
  ultimately show ?thesis using pos sp sle by blast
qed

lemma Pos_findIdxByRound_total:
  assumes "Pos_even c" and "0 \<le> r"
  shows "isOk (Pos_findIdxByRound r c)"
proof -
  obtain ns where ns: "ps_arrShares c = map of_int ns" "\<forall>n\<in>set ns. 0 < n"
    "ps_totalSharesAmount c = of_int (sum_list ns)" "0 < sum_list ns" "sum_list ns \<le> 2 ^ 53"
    using Pos_even_shares [OF assms(1)] by blast
  have "0 \<le> jsRem (of_int r) (of_int (sum_list ns))"
    "jsRem (of_int r) (of_int (sum_list ns)) < of_int (0 + sum_list ns)"
    using jsRem_bounds [of "of_int r" "of_int (sum_list ns)"] assms(2) ns(4) by simp_all
  with Pos_findIdx_total [OF ns(2), of 0 "jsRem (of_int r) (of_int (sum_list ns))" 0] ns show ?thesis
    by (simp add: Pos_findIdxByRound_def)
qed

definition Pos_good :: "concilium_pos \<Rightarrow> bool" where
  "Pos_good c \<longleftrightarrow> length (ps_arrProposers c) = cn_nSeqLength c \<and>
     (\<forall>i\<in>set (ps_arrProposers c). i < length (ps_arrMembers c))"

lemma mapM_result:
  assumes "\<And>x. case f x of Inl e \<Rightarrow> Q e | Inr y \<Rightarrow> P y"
  shows "case mapM f xs of Inl e \<Rightarrow> Q e | Inr ys \<Rightarrow> length ys = length xs \<and> (\<forall>y\<in>set ys. P y)"
proof (induction xs)
  case (Cons x xs)
  from Cons assms [of x] show ?case by (cases "f x"; cases "mapM f xs") auto
qed simp

lemma mapM_isOk: "\<forall>x\<in>set xs. isOk (f x) \<Longrightarrow> isOk (mapM f xs)"
  by (induction xs) (auto simp: isOk_ex)

text \<open>What \<open>initRounds\<close> gives: the counters and a member for each slot, or the error of the search.\<close>

lemma Pos_initRounds_result:
  assumes "Pos_built c"
  shows "case Pos_initRounds c of
      Inl e \<Rightarrow> e = Error ''You aren't supposed to be here''
    | Inr d \<Rightarrow> (\<exists>ps. d = (Base_initRounds c)\<lparr>ps_arrProposers := ps\<rparr> \<and> length ps = cn_nSeqLength c \<and>
        (\<forall>i\<in>set ps. i < length (ps_arrMembers c)))"
proof -
  let ?f = "\<lambda>i. Pos_findIdxByRound (Pos_getSlot (cn_nSeed c + int i)) (Base_initRounds c)"
  have len: "length (ps_arrShares c) = length (ps_arrMembers c)"
    using Pos_built_fields(5) [OF assms] by simp
  have "case ?f i of Inl e \<Rightarrow> e = Error ''You aren't supposed to be here'' | Inr j \<Rightarrow> j < length (ps_arrMembers c)" for i
    using Pos_findIdx_result [where r = "jsRem (of_int (Pos_getSlot (cn_nSeed c + int i))) (ps_totalSharesAmount c)"
        and start = 0 and i = 0 and ss = "ps_arrShares c"] len
    by (auto simp: Pos_findIdxByRound_def Base_initRounds_def split: sum.splits)
  from mapM_result [where f = ?f and xs = "[0..<cn_nSeqLength c]", OF this] show ?thesis
    by (auto simp: Pos_initRounds_def Pos_formProposerAddressesSequence_def Base_initRounds_def
        split: sum.splits)
qed

lemma Pos_same_built:
  "Pos_built (Base_initRounds c) = Pos_built c" "Pos_built (c\<lparr>cn_nLocalRound := x\<rparr>) = Pos_built c"
  "Pos_built (c\<lparr>ps_arrProposers := ps\<rparr>) = Pos_built c" "Pos_built (Base_changeSeed n c) = Pos_built c"
  by (simp_all add: Pos_built_def Base_initRounds_def Base_changeSeed_def)

lemma Pos_initRounds_even:
  assumes "Pos_even c" and "0 \<le> cn_nSeed c"
  shows "isOk (Pos_initRounds c)"
proof -
  have "Pos_even (Base_initRounds c)" using assms(1) Pos_same_built(1) [of c]
    by (simp add: Pos_even_def Base_initRounds_def)
  then have "isOk (Pos_findIdxByRound (Pos_getSlot (cn_nSeed c + int i)) (Base_initRounds c))" for i
    using assms(2) by (intro Pos_findIdxByRound_total) (simp_all add: Pos_getSlot_def POS_paramA_def POS_paramB_def)
  then have "isOk (mapM (\<lambda>i. Pos_findIdxByRound (Pos_getSlot (cn_nSeed c + int i)) (Base_initRounds c))
      [0..<cn_nSeqLength c])" by (intro mapM_isOk) blast
  then show ?thesis
    by (auto simp: isOk_ex Pos_initRounds_def Pos_formProposerAddressesSequence_def Base_initRounds_def)
qed

interpretation pr: rounds Pos_initRounds "\<lambda>c. Pos_even c \<and> 0 \<le> cn_nSeed c" Pos_good
proof unfold_locales
  fix c :: concilium_pos and x
  assume inv: "Pos_even c \<and> 0 \<le> cn_nSeed c"
  then have b: "Pos_built c" by (simp add: Pos_even_def)
  show "isOk (Pos_initRounds c)" using Pos_initRounds_even inv by blast
  show "Pos_even (c\<lparr>cn_nLocalRound := x\<rparr>) \<and> 0 \<le> cn_nSeed (c\<lparr>cn_nLocalRound := x\<rparr>)"
    using inv Pos_same_built(2) [of x c] by (simp add: Pos_even_def)
  fix c' assume "Pos_initRounds c = Inr c'"
  with Pos_initRounds_result [OF b] obtain ps where
    "c' = (Base_initRounds c)\<lparr>ps_arrProposers := ps\<rparr>" "length ps = cn_nSeqLength c"
    "\<forall>i\<in>set ps. i < length (ps_arrMembers c)" by auto
  then show "(Pos_even c' \<and> 0 \<le> cn_nSeed c') \<and> Pos_good c'"
    using inv Pos_same_built(1) [of c] Pos_same_built(3) [of ps "Base_initRounds c"]
    by (simp add: Pos_even_def Pos_good_def Base_initRounds_def)
next
  fix c c' :: concilium_pos assume "Pos_initRounds c = Inr c'"
  then show "cn_nRoundBase c' = Some (cn_nSeed c) \<and>
      cn_nLocalRound c' = Some 0 \<and> cn_nSeqLength c' = cn_nSeqLength c \<and> cn_nSeed c' = cn_nSeed c"
    by (auto simp: Pos_initRounds_def Pos_formProposerAddressesSequence_def Base_initRounds_def)
next
  fix c :: concilium_pos and x assume "Pos_good c"
  then show "Pos_good (c\<lparr>cn_nLocalRound := x\<rparr>)" by (simp add: Pos_good_def)
qed

lemma Pos_getProposerAddress_ok:
  "Pos_good c \<Longrightarrow> Base_roundOk c \<Longrightarrow> \<exists>a\<in>set (Pos_getAddresses c). Pos_getProposerAddress c = Inr a"
  by (auto simp: Pos_getProposerAddress_def Pos_good_def Base_roundOk_def Pos_getAddresses_def)

lemma Rr_getProposerAddress_ok:
  assumes "rr_addresses c \<noteq> []" and "Base_getRound c = Inr r" and "0 \<le> r"
  shows "Rr_getProposerAddress c = Inr (rr_addresses c ! nat (r mod int (length (rr_addresses c))))"
  using assms by (simp add: Rr_getProposerAddress_def Let_def)

end
