(* ===== verification/Cil_Storage.thy ===== *)
theory Cil_Storage
  imports Cil_Block Cil_Concilium Cil_Patch_Laws
begin

text \<open>
  The chain state on disk, \<open>src/storage/persistentStorage.js\<close>. The store is \<open>levelup\<close>'s key-value
  map, one record field per key prefix; the values are the structures themselves, because every
  structure is written with its own \<open>encode\<close> and read back with its own constructor. A batch is
  written at once, after all of it was computed. The wallet, the transaction index, the peers and
  the reopening of the database are not modelled: the options that turn them on are off. The
  definitions of the conciliums are read from the data of one contract; how that data is laid out
  is the platform's value format, so the reader is the parameter \<open>ld\<close>.
\<close>

section \<open>State\<close>

definition CONCILIUM_DEFINITION_CONTRACT_ADDRESS :: addr where
  "CONCILIUM_DEFINITION_CONTRACT_ADDRESS = ''6ab4ab8161f954be88af699435f3514485ab8f9a''"

definition HEIGHT_FORK_SERIALIZER_FIX3 :: nat where "HEIGHT_FORK_SERIALIZER_FIX3 = 48000"

record 'd storage =
  sg_utxos :: "(hash, utxo) jsmap"
  sg_contracts :: "(addr, 'd contract) jsmap"
  sg_receipts :: "(hash, receipt) jsmap"
  sg_blocks :: "(hash, block) jsmap"
  sg_blockInfos :: "(hash, blockInfo) jsmap"
  sg_lastAppliedBlocks :: "hash list"
  sg_pendingBlocks :: "hash list"
  sg_arrConciliumDefinition :: "concilium list option"

definition Storage_new :: "'d storage" where
  "Storage_new = \<lparr>sg_utxos = [], sg_contracts = [], sg_receipts = [], sg_blocks = [], sg_blockInfos = [],
     sg_lastAppliedBlocks = [], sg_pendingBlocks = [], sg_arrConciliumDefinition = None\<rparr>"

section \<open>Outputs\<close>

definition Storage_getUtxo :: "hash \<Rightarrow> 'd storage \<Rightarrow> utxo res" where
  "Storage_getUtxo h s =
     bindR (typeforce (isHash256 h)) (\<lambda>_.
     case jget (sg_utxos s) h of
       None \<Rightarrow> Inl (Error ''Storage: UTXO not found'')
     | Some u \<Rightarrow> Inr u)"

definition Storage_checkTxCollision :: "hash list \<Rightarrow> 'd storage \<Rightarrow> unit res" where
  "Storage_checkTxCollision arrTxHashes s =
     foldR (\<lambda>txHash _. case Storage_getUtxo txHash s of
         Inl _ \<Rightarrow> Inr () | Inr _ \<Rightarrow> Inl (Error ''Tx collision'')) arrTxHashes ()"

definition Storage_getUtxosPatch :: "hash list \<Rightarrow> 'd storage \<Rightarrow> 'd patch" where
  "Storage_getUtxosPatch arrUtxoHashes s =
     fold (\<lambda>h p. case Storage_getUtxo h s of Inl _ \<Rightarrow> p | Inr u \<Rightarrow> PatchDB_setUtxo u p)
       arrUtxoHashes PatchDB_empty"

section \<open>Contracts, receipts and conciliums\<close>

definition Storage_getContract :: "addr \<Rightarrow> 'd storage \<Rightarrow> 'd contract option res" where
  "Storage_getContract address s =
     bindR (typeforce (isAddress address)) (\<lambda>_. Inr (jget (sg_contracts s) address))"

definition Storage_getTxReceipt :: "hash \<Rightarrow> 'd storage \<Rightarrow> receipt option res" where
  "Storage_getTxReceipt h s = bindR (typeforce (isHash256 h)) (\<lambda>_. Inr (jget (sg_receipts s) h))"

definition Storage_ensureArrConciliumDefinition ::
  "'d serializers \<Rightarrow> ('d \<Rightarrow> concilium list res) \<Rightarrow> (concilium list, 'd storage) act" where
  "Storage_ensureArrConciliumDefinition S ld s =
     (case sg_arrConciliumDefinition s of
        Some (c # cs) \<Rightarrow> (Inr (c # cs), s)
      | _ \<Rightarrow>
          (case jget (sg_contracts s) CONCILIUM_DEFINITION_CONTRACT_ADDRESS of
             None \<Rightarrow> (Inr [], s\<lparr>sg_arrConciliumDefinition := Some []\<rparr>)
           | Some cont \<Rightarrow>
               (case bindR (Contract_getData S cont) (\<lambda>(d, _). ld d) of
                  Inl e \<Rightarrow> (Inl e, s)
                | Inr cs \<Rightarrow> (Inr cs, s\<lparr>sg_arrConciliumDefinition := Some cs\<rparr>))))"

fun Concilium_isEnabled :: "concilium \<Rightarrow> bool" where
  "Concilium_isEnabled (RR c) = Rr_isEnabled c"
| "Concilium_isEnabled (POS c) = Pos_isEnabled c"

definition Storage_getConciliumsByAddress ::
  "'d serializers \<Rightarrow> ('d \<Rightarrow> concilium list res) \<Rightarrow> addr \<Rightarrow> (concilium list, 'd storage) act" where
  "Storage_getConciliumsByAddress S ld address =
     bindS (Storage_ensureArrConciliumDefinition S ld) (\<lambda>defs.
     returnS (filter (\<lambda>d. address \<in> set (Concilium_getAddresses d)) defs))"

definition Storage_getConciliumById ::
  "'d serializers \<Rightarrow> ('d \<Rightarrow> concilium list res) \<Rightarrow> nat \<Rightarrow> (concilium, 'd storage) act" where
  "Storage_getConciliumById S ld i =
     bindS (Storage_ensureArrConciliumDefinition S ld) (\<lambda>defs.
     if i < length defs then returnS (defs ! i)
     else throwS (AssertionError ''ConciliumId exceed number registered conciliums''))"

definition Storage_getConciliumsCount ::
  "'d serializers \<Rightarrow> ('d \<Rightarrow> concilium list res) \<Rightarrow> (nat, 'd storage) act" where
  "Storage_getConciliumsCount S ld =
     bindS (Storage_ensureArrConciliumDefinition S ld) (\<lambda>defs.
     returnS (length (filter Concilium_isEnabled defs)))"

section \<open>Applying a patch\<close>

type_synonym 'v op = "string \<times> 'v option"

text \<open>One operation of the batch: \<open>put\<close> with a value, \<open>del\<close> without.\<close>

definition applyOp :: "'v op \<Rightarrow> (string, 'v) jsmap \<Rightarrow> (string, 'v) jsmap" where
  "applyOp kv m = (case snd kv of None \<Rightarrow> jdelete (fst kv) m | Some v \<Rightarrow> jset (fst kv) v m)"

definition Storage_utxoOps :: "'d patch \<Rightarrow> utxo op list res" where
  "Storage_utxoOps statePatch =
     mapM (\<lambda>(strTxHash, u). bindR (UTXO_isEmpty u) (\<lambda>b. Inr (strTxHash, if b then None else Some u)))
       (PatchDB_getCoins statePatch)"

text \<open>
  The contracts of the patch are repaired below the third fork and encoded; meeting the contract of
  the concilium definitions drops the cache at once, before the batch is written.
\<close>

fun Storage_contractOps ::
  "'d serializers \<Rightarrow> nat \<Rightarrow> (addr \<times> 'd contract) list \<Rightarrow> ('d contract op list, 'd storage) act" where
  "Storage_contractOps S nHeightMax [] s = (Inr [], s)"
| "Storage_contractOps S nHeightMax ((strContractAddr, c) # cs) s =
     (case (if nHeightMax < HEIGHT_FORK_SERIALIZER_FIX3 then Contract_dirtyWorkaround S c else Inr c) of
        Inl e \<Rightarrow> (Inl e, s)
      | Inr c' \<Rightarrow>
          bindS (Storage_contractOps S nHeightMax cs)
            (\<lambda>ops. returnS ((strContractAddr,
                Some (Contract_storeAddress strContractAddr (Contract_clone S c'))) # ops))
            (if CONCILIUM_DEFINITION_CONTRACT_ADDRESS = strContractAddr
             then s\<lparr>sg_arrConciliumDefinition := None\<rparr> else s))"

definition Storage_applyPatch :: "'d serializers \<Rightarrow> 'd patch \<Rightarrow> nat \<Rightarrow> (unit, 'd storage) act" where
  "Storage_applyPatch S statePatch nHeightMax =
     bindS (liftS (Storage_utxoOps statePatch)) (\<lambda>utxoOps.
     bindS (Storage_contractOps S nHeightMax (PatchDB_getContracts statePatch)) (\<lambda>contractOps s.
     (Inr (), s\<lparr>sg_utxos := fold applyOp utxoOps (sg_utxos s),
               sg_contracts := fold applyOp contractOps (sg_contracts s),
               sg_receipts := fold (\<lambda>(h, r). jset h r) (PatchDB_getReceipts statePatch) (sg_receipts s)\<rparr>)))"

section \<open>Blocks\<close>

definition Storage_getBlockInfo :: "hash \<Rightarrow> 'd storage \<Rightarrow> blockInfo res" where
  "Storage_getBlockInfo h s =
     bindR (typeforce (isHash256 h)) (\<lambda>_.
     case jget (sg_blockInfos s) h of
       None \<Rightarrow> Inl (Error ''Storage: No blockInfo found by hash'')
     | Some bi \<Rightarrow> Inr bi)"

definition Storage_saveBlockInfo :: "block_crypto \<Rightarrow> blockInfo \<Rightarrow> 'd storage \<Rightarrow> 'd storage" where
  "Storage_saveBlockInfo B bi s =
     s\<lparr>sg_blockInfos := jset (BlockInfo_getHash B bi) bi (sg_blockInfos s)\<rparr>"

definition Storage_removeBlockInfo :: "hash \<Rightarrow> 'd storage \<Rightarrow> 'd storage res" where
  "Storage_removeBlockInfo h s =
     bindR (typeforce (isHash256 h)) (\<lambda>_. Inr (s\<lparr>sg_blockInfos := jdelete h (sg_blockInfos s)\<rparr>))"

definition Storage_hasBlock :: "hash \<Rightarrow> 'd storage \<Rightarrow> bool res" where
  "Storage_hasBlock h s =
     bindR (typeforce (isHash256 h)) (\<lambda>_. Inr (isOk (Storage_getBlockInfo h s)))"

text \<open>
  \<open>h\<close> is \<open>block.hash()\<close>; without a block info one is made from the header. Only a finished block can
  be encoded, and what is read back is a finished block whose hash is not cached yet.
\<close>

definition Storage_saveBlock ::
  "block_crypto \<Rightarrow> hash \<Rightarrow> block \<Rightarrow> blockInfo option \<Rightarrow> (unit, 'd storage) act" where
  "Storage_saveBlock B h b blockInfo s =
     (case Storage_hasBlock h s of
        Inl e \<Rightarrow> (Inl e, s)
      | Inr True \<Rightarrow> (Inl (Error ''Storage: Block already saved!''), s)
      | Inr False \<Rightarrow>
          if \<not> bl_final b then (Inl (Error ''Call finish() before encoding''), s)
          else (Inr (), Storage_saveBlockInfo B
             (case blockInfo of Some bi \<Rightarrow> bi | None \<Rightarrow> BlockInfo_new (bl_header b))
             (s\<lparr>sg_blocks := jset h b (sg_blocks s)\<rparr>)))"

definition Storage_getBlock :: "hash \<Rightarrow> 'd storage \<Rightarrow> block res" where
  "Storage_getBlock h s =
     bindR (typeforce (isHash256 h)) (\<lambda>_.
     case jget (sg_blocks s) h of
       None \<Rightarrow> Inl (Error ''Storage: No block found by hash'')
     | Some b \<Rightarrow> Inr (b\<lparr>bl_final := True, bl_building := False, bl_hashCache := None\<rparr>))"

definition Storage_removeBlock :: "hash \<Rightarrow> 'd storage \<Rightarrow> 'd storage res" where
  "Storage_removeBlock h s =
     bindR (typeforce (isHash256 h)) (\<lambda>_. Inr (s\<lparr>sg_blocks := jdelete h (sg_blocks s)\<rparr>))"

definition Storage_removeBadBlocks :: "block_crypto \<Rightarrow> hash list \<Rightarrow> (unit, 'd storage) act" where
  "Storage_removeBadBlocks B setBlockHashes =
     eachS (\<lambda>blockHash.
       bindS (\<lambda>s. (Storage_getBlockInfo blockHash s, s)) (\<lambda>bi.
       bindS (modifyS (Storage_saveBlockInfo B (BlockInfo_markAsBad bi))) (\<lambda>_.
       updR (Storage_removeBlock blockHash)))) setBlockHashes"

definition Storage_getLastAppliedBlockHashes :: "'d storage \<Rightarrow> hash list" where
  "Storage_getLastAppliedBlockHashes s = sg_lastAppliedBlocks s"

definition Storage_updateLastAppliedBlocks :: "hash list \<Rightarrow> 'd storage \<Rightarrow> 'd storage res" where
  "Storage_updateLastAppliedBlocks arrBlockHashes s =
     bindR (typeforce (list_all isHash256 arrBlockHashes)) (\<lambda>_.
     Inr (s\<lparr>sg_lastAppliedBlocks := arrBlockHashes\<rparr>))"

definition Storage_getPendingBlockHashes :: "'d storage \<Rightarrow> hash list" where
  "Storage_getPendingBlockHashes s = sg_pendingBlocks s"

definition Storage_updatePendingBlocks :: "hash list \<Rightarrow> 'd storage \<Rightarrow> 'd storage res" where
  "Storage_updatePendingBlocks arrBlockHashes s =
     bindR (typeforce (list_all isHash256 arrBlockHashes)) (\<lambda>_.
     Inr (s\<lparr>sg_pendingBlocks := arrBlockHashes\<rparr>))"

section \<open>What the store says of an output\<close>

definition Storage_view :: "'d storage \<Rightarrow> hash \<Rightarrow> (int \<rightharpoonup> coins) option" where
  "Storage_view s h = map_option UTXO_abs (jget (sg_utxos s) h)"

text \<open>Every stored UTXO is well formed, is stored under its own hash and has an unspent output.\<close>

definition Storage_wf :: "'d storage \<Rightarrow> bool" where
  "Storage_wf s \<longleftrightarrow> PatchDB_coinsOk (sg_utxos s) \<and>
     (\<forall>h u. jget (sg_utxos s) h = Some u \<longrightarrow> UTXO_abs u \<noteq> Map.empty)"

lemma Storage_wf_new: "Storage_wf Storage_new"
  by (simp add: Storage_wf_def Storage_new_def PatchDB_coinsOk_def)

lemma UTXO_isEmpty_abs:
  assumes "UTXO_wf u"
  shows "UTXO_isEmpty u = Inr (UTXO_abs u = Map.empty)"
proof -
  have "UTXO_abs u = Map.empty \<longleftrightarrow> utxo_arrIndexes u = []"
    using assms unfolding UTXO_wf_def UTXO_abs_def
    by (metis dom_eq_empty_conv dom_map_of_zip image_is_empty length_0_conv set_empty)
  with assms show ?thesis by (simp add: UTXO_isEmpty_def UTXO_wf_def)
qed

lemma Storage_utxoOps_ok:
  assumes "PatchDB_coinsOk (pt_coins p)"
  shows "Storage_utxoOps p = Inr (map (\<lambda>(h, u). (h, if UTXO_abs u = Map.empty then None else Some u)) (pt_coins p))"
  unfolding Storage_utxoOps_def PatchDB_getCoins_def
proof (rule mapM_pure)
  fix x assume "x \<in> set (pt_coins p)"
  then have "UTXO_wf (snd x)"
    using assms PatchDB_coinsOkD [OF assms, of "fst x" "snd x"]
    by (simp add: PatchDB_coinsOk_def jget_iff_in)
  then show "(case x of (h, u) \<Rightarrow> bindR (UTXO_isEmpty u) (\<lambda>b. Inr (h, if b then None else Some u))) =
      Inr (case x of (h, u) \<Rightarrow> (h, if UTXO_abs u = Map.empty then None else Some u))"
    by (cases x) (simp add: UTXO_isEmpty_abs)
qed

lemma jget_applyOps:
  assumes "distinct (map fst ops)"
  shows "jget (fold applyOp ops m) k = (case map_of ops k of Some v \<Rightarrow> v | None \<Rightarrow> jget m k)"
  using assms
proof (induction ops arbitrary: m)
  case (Cons kv ops)
  have "map_of ops (fst kv) = None" using Cons.prems by (simp add: map_of_eq_None_iff)
  with Cons show ?case
    by (cases kv) (auto simp: applyOp_def jget_jset jget_jdelete split: option.splits)
qed simp

lemma jwf_applyOps: "jwf m \<Longrightarrow> jwf (fold applyOp ops m)"
  by (induction ops arbitrary: m) (auto simp: applyOp_def split: option.splits)

lemma map_of_map_snd: "map_of (map (\<lambda>(k, v). (k, f v)) m) k = map_option f (jget m k)"
  by (induction m) (auto simp: jget_def)

lemma Storage_contractOps_keeps:
  "let t = snd (Storage_contractOps S n cs s) in
     sg_utxos t = sg_utxos s \<and> sg_contracts t = sg_contracts s \<and> sg_receipts t = sg_receipts s"
proof (induction cs arbitrary: s)
  case (Cons x cs)
  let ?P = "\<lambda>t. sg_utxos t = sg_utxos s \<and> sg_contracts t = sg_contracts s \<and> sg_receipts t = sg_receipts s"
  obtain a c where x: "x = (a, c)" by force
  let ?s = "if CONCILIUM_DEFINITION_CONTRACT_ADDRESS = a then s\<lparr>sg_arrConciliumDefinition := None\<rparr> else s"
  have "?P (snd (Storage_contractOps S n cs ?s))"
    using Cons.IH [of ?s] by (simp add: Let_def)
  then have "?P (snd (bindS (Storage_contractOps S n cs) (\<lambda>ops. returnS (f ops)) ?s))"
    for f :: "'a contract op list \<Rightarrow> 'a contract op list"
    by (rule bindS_snd) (simp add: returnS_def)
  then show ?case unfolding x by (auto simp: Let_def split: sum.split)
qed simp

text \<open>
  Applying a patch writes exactly the patch's version of every UTXO it holds, forgets the ones with
  nothing left to spend and touches no other.
\<close>

lemma Storage_applyPatch_spec:
  assumes p: "PatchDB_utxosOk p" and s: "Storage_wf s" and run: "Storage_applyPatch S p n s = (Inr (), s')"
  shows "Storage_wf s'"
    and "Storage_view s' h = (case jget (pt_coins p) h of
        None \<Rightarrow> Storage_view s h
      | Some u \<Rightarrow> if UTXO_abs u = Map.empty then None else Some (UTXO_abs u))"
    and "jwf (pt_mapTxReceipts p) \<Longrightarrow> jget (sg_receipts s') h = (case jget (pt_mapTxReceipts p) h of
        None \<Rightarrow> jget (sg_receipts s) h | Some r \<Rightarrow> Some r)"
proof -
  have ok: "PatchDB_coinsOk (pt_coins p)" using p by (simp add: PatchDB_utxosOk_def)
  let ?ops = "map (\<lambda>(h, u). (h, if UTXO_abs u = Map.empty then None else Some u)) (pt_coins p)"
  obtain cops s1 where c: "Storage_contractOps S n (PatchDB_getContracts p) s = (Inr cops, s1)"
    and s': "s' = s1\<lparr>sg_utxos := fold applyOp ?ops (sg_utxos s1),
               sg_contracts := fold applyOp cops (sg_contracts s1),
               sg_receipts := fold (\<lambda>(h, r). jset h r) (PatchDB_getReceipts p) (sg_receipts s1)\<rparr>"
    using run by (auto simp: Storage_applyPatch_def bindS_def liftS_def Storage_utxoOps_ok [OF ok]
        split: prod.splits sum.splits)
  have s1: "sg_utxos s1 = sg_utxos s" "sg_receipts s1 = sg_receipts s"
    using Storage_contractOps_keeps [of S n "PatchDB_getContracts p" s] c by (simp_all add: Let_def)
  have "map fst ?ops = map fst (pt_coins p)" unfolding map_map by (rule map_cong) auto
  then have d: "distinct (map fst ?ops)" using ok by (simp only: PatchDB_coinsOk_def jwf_def)
  have get: "jget (sg_utxos s') k = (case jget (pt_coins p) k of None \<Rightarrow> jget (sg_utxos s) k
      | Some u \<Rightarrow> if UTXO_abs u = Map.empty then None else Some u)" for k
    by (simp add: s' s1 jget_applyOps [OF d] map_of_map_snd split: option.splits)
  show "Storage_view s' h = (case jget (pt_coins p) h of None \<Rightarrow> Storage_view s h
      | Some u \<Rightarrow> if UTXO_abs u = Map.empty then None else Some (UTXO_abs u))"
    by (simp add: Storage_view_def get split: option.splits)
  have "jwf (sg_utxos s')"
    using s by (simp add: s' s1 jwf_applyOps Storage_wf_def PatchDB_coinsOk_def)
  moreover have "UTXO_wf u \<and> utxo_txHash u = k \<and> isHash256 k \<and> UTXO_abs u \<noteq> Map.empty"
    if "jget (sg_utxos s') k = Some u" for k u
    using that s ok PatchDB_coinsOkD unfolding get
    by (fastforce simp: Storage_wf_def split: option.splits if_splits)
  ultimately show "Storage_wf s'" by (simp add: Storage_wf_def PatchDB_coinsOk_def)
  have r: "jget (fold (\<lambda>(h, r). jset h r) rs m) k = (case jget rs k of None \<Rightarrow> jget m k | Some r \<Rightarrow> Some r)"
    if "distinct (map fst rs)" for rs k and m :: "(hash, receipt) jsmap"
    using that
  proof (induction rs arbitrary: m)
    case (Cons x rs)
    have "jget rs (fst x) = None" using Cons.prems by (simp add: jget_def map_of_eq_None_iff)
    with Cons show ?case by (cases x) (auto simp: jget_jset split: option.splits)
  qed simp
  show "jwf (pt_mapTxReceipts p) \<Longrightarrow> jget (sg_receipts s') h = (case jget (pt_mapTxReceipts p) h of
        None \<Rightarrow> jget (sg_receipts s) h | Some r \<Rightarrow> Some r)"
    by (simp add: s' s1 PatchDB_getReceipts_def jwf_def r)
qed

text \<open>The patch of stored outputs a transaction wants to spend.\<close>

lemma Storage_getUtxosPatch_spec:
  assumes s: "Storage_wf s"
  shows "PatchDB_wf (Storage_getUtxosPatch hs s)"
    and "PatchDB_abs (Storage_getUtxosPatch hs s) h =
      (if h \<in> set hs then map_option (\<lambda>u. (UTXO_abs u, Map.empty)) (jget (sg_utxos s) h) else None)"
proof -
  let ?step = "\<lambda>h p. case Storage_getUtxo h s of Inl _ \<Rightarrow> p | Inr u \<Rightarrow> PatchDB_setUtxo u p"
  let ?put = "\<lambda>h m. case jget (sg_utxos s) h of None \<Rightarrow> m | Some u \<Rightarrow> jset h u m"
  have hash: "isHash256 k" "utxo_txHash u = k" "UTXO_wf u" if "jget (sg_utxos s) k = Some u" for k u
    using s that PatchDB_coinsOkD [of "sg_utxos s"] by (auto simp: Storage_wf_def)
  have step: "?step k (PatchDB_empty\<lparr>pt_coins := m\<rparr>) = PatchDB_empty\<lparr>pt_coins := ?put k m\<rparr>" for k m
  proof (cases "jget (sg_utxos s) k")
    case None
    then show ?thesis by (cases "isHash256 k") (simp_all add: Storage_getUtxo_def typeforce_def)
  next
    case (Some u)
    with hash [OF Some] show ?thesis
      by (simp add: Storage_getUtxo_def PatchDB_setUtxo_def UTXO_getTxHash_def)
  qed
  have "fold ?step ks (PatchDB_empty\<lparr>pt_coins := m\<rparr>) = PatchDB_empty\<lparr>pt_coins := fold ?put ks m\<rparr>" for ks m
    by (induction ks arbitrary: m) (simp_all add: step)
  from this [of hs "[]"] have q: "Storage_getUtxosPatch hs s = PatchDB_empty\<lparr>pt_coins := fold ?put hs []\<rparr>"
    by (simp add: Storage_getUtxosPatch_def PatchDB_empty_def)
  have "PatchDB_coinsOk m \<Longrightarrow> PatchDB_coinsOk (fold ?put ks m)" for ks m
    using hash by (induction ks arbitrary: m) (simp_all add: PatchDB_coinsOk_jset split: option.splits)
  from this [of "[]" hs] have ok: "PatchDB_coinsOk (fold ?put hs [])" by (simp add: PatchDB_coinsOk_def)
  have get: "jget (fold ?put ks m) k = (if k \<in> set ks \<and> jget (sg_utxos s) k \<noteq> None then jget (sg_utxos s) k
      else jget m k)" for ks m k
    by (induction ks arbitrary: m) (auto simp: jget_jset split: option.splits)
  show "PatchDB_wf (Storage_getUtxosPatch hs s)"
    using ok by (simp add: q PatchDB_wf_def PatchDB_utxosOk_def PatchDB_spentOk_def PatchDB_contractsOk_def
        PatchDB_receiptsOk_def PatchDB_empty_def)
  show "PatchDB_abs (Storage_getUtxosPatch hs s) h =
      (if h \<in> set hs then map_option (\<lambda>u. (UTXO_abs u, Map.empty)) (jget (sg_utxos s) h) else None)"
    by (auto simp: q PatchDB_abs_def get PatchDB_getSpentOutputs_def PatchDB_empty_def fun_eq_iff
        split: option.splits)
qed

end
