(* ===== verification/Cil_Exec.thy ===== *)
theory Cil_Exec
  imports Cil_App Cil_Storage Cil_Utils
begin

text \<open>
  How \<open>src/node/node.js\<close> executes one transaction: the fees of its concilium (\<open>_calculateSizeFee\<close>,
  \<open>_getFee...\<close>), the contract it creates or calls (\<open>_processContract\<close> and the callbacks a running
  contract reaches the node by), the change it gets back (\<open>_createContractChange\<close>) and what is left
  as fee (\<open>_processTx\<close>). What the platform gives is in the record \<open>node_env\<close>: hashing and keys, the
  serializers, the encoded size of a transaction, \<open>JSON.parse\<close> of an invocation, and the two entry
  points of the sandbox. The block being processed (\<open>_processedBlock\<close>) is part of it too, since no
  operation here changes it. The functions thread the storage, whose only change is the cached list
  of concilium definitions; a running contract also works on the patch of its transaction.
\<close>

section \<open>Constants and environment\<close>

definition TX_FEE :: int where "TX_FEE = 4000"
definition CONTRACT_CREATION_FEE :: int where "CONTRACT_CREATION_FEE = 10000"
definition CONTRACT_INVOCATION_FEE :: int where "CONTRACT_INVOCATION_FEE = 10000"
definition INTERNAL_TX_FEE :: int where "INTERNAL_TX_FEE = 300"
definition STORAGE_PER_BYTE_FEE :: int where "STORAGE_PER_BYTE_FEE = 10"

definition HEIGHT_FORK_SERIALIZER :: nat where "HEIGHT_FORK_SERIALIZER = 3775"
definition HEIGHT_FORK_SERIALIZER_FIX2 :: nat where "HEIGHT_FORK_SERIALIZER_FIX2 = 6100"

definition MAX_SAFE_INTEGER :: int where "MAX_SAFE_INTEGER = 2 ^ 53 - 1"

record block_env =
  be_hash :: hash
  be_timestamp :: nat
  be_height :: nat

text \<open>The global variables of a contract; \<open>None\<close> is \<open>undefined\<close>, or the empty object for the block.\<close>

record environment =
  en_contractTx :: hash
  en_callerAddress :: "addr option"
  en_value :: int
  en_contractAddr :: "addr option"
  en_balance :: int
  en_block :: "block_env option"

type_synonym 'd world = "'d patch \<times> 'd storage"

type_synonym ('d, 'r, 'a) node_callbacks = "('d, 'd world, 'r, 'a) callbacks"

record ('d, 'r, 'a) node_env =
  ne_crypto :: crypto
  ne_serializers :: "'d serializers"
  ne_loadConciliums :: "'d \<Rightarrow> concilium list res"
  ne_txSize :: "tx \<Rightarrow> nat"
  ne_createHash :: "string \<Rightarrow> hash"
  ne_parseInvocation :: "string \<Rightarrow> (string \<times> string list) res"
  ne_stringify :: "'a \<Rightarrow> string"
  ne_vmCreate :: "environment \<Rightarrow> string \<Rightarrow> (code \<times> 'd) res"
  ne_vmRun :: "('d, 'r, 'a) node_callbacks \<Rightarrow> environment \<Rightarrow> ('d, 'r, 'd world) sandbox"
  ne_processedBlock :: "block_env option"

definition Node_isTimeToForkSerializer1 :: "block_env option \<Rightarrow> bool" where
  "Node_isTimeToForkSerializer1 processedBlock =
     (case processedBlock of None \<Rightarrow> True | Some b \<Rightarrow> be_height b \<ge> HEIGHT_FORK_SERIALIZER)"

definition Node_isTimeToForkSerializer2 :: "block_env option \<Rightarrow> bool" where
  "Node_isTimeToForkSerializer2 processedBlock =
     (case processedBlock of None \<Rightarrow> True | Some b \<Rightarrow> be_height b \<ge> HEIGHT_FORK_SERIALIZER_FIX2)"

definition Node_isTimeToForkSerializer3 :: "block_env option \<Rightarrow> bool" where
  "Node_isTimeToForkSerializer3 processedBlock =
     (case processedBlock of None \<Rightarrow> True | Some b \<Rightarrow> be_height b < HEIGHT_FORK_SERIALIZER_FIX3)"

section \<open>Fees\<close>

fun Concilium_getFeeTxSize :: "concilium \<Rightarrow> int option" where
  "Concilium_getFeeTxSize (RR c) = Base_getFeeTxSize c"
| "Concilium_getFeeTxSize (POS c) = Base_getFeeTxSize c"

fun Concilium_getFeeContractCreation :: "concilium \<Rightarrow> int option" where
  "Concilium_getFeeContractCreation (RR c) = Base_getFeeContractCreation c"
| "Concilium_getFeeContractCreation (POS c) = Base_getFeeContractCreation c"

fun Concilium_getFeeContractInvocation :: "concilium \<Rightarrow> int option" where
  "Concilium_getFeeContractInvocation (RR c) = Base_getFeeContractInvocation c"
| "Concilium_getFeeContractInvocation (POS c) = Base_getFeeContractInvocation c"

fun Concilium_getFeeStorage :: "concilium \<Rightarrow> int option" where
  "Concilium_getFeeStorage (RR c) = Base_getFeeStorage c"
| "Concilium_getFeeStorage (POS c) = Base_getFeeStorage c"

fun Concilium_getFeeInternalTx :: "concilium \<Rightarrow> int option" where
  "Concilium_getFeeInternalTx (RR c) = Base_getFeeInternalTx c"
| "Concilium_getFeeInternalTx (POS c) = Base_getFeeInternalTx c"

text \<open>\<open>fee ? fee : default\<close>: a fee of zero counts as none.\<close>

definition feeOr :: "int \<Rightarrow> int option \<Rightarrow> int" where
  "feeOr dflt fee = (case fee of Some n \<Rightarrow> if n \<noteq> 0 then n else dflt | None \<Rightarrow> dflt)"

definition Node_conciliumFee ::
    "('d, 'r, 'a) node_env \<Rightarrow> (concilium \<Rightarrow> int option) \<Rightarrow> int \<Rightarrow> tx \<Rightarrow> bool \<Rightarrow> (int, 'd storage) act"
where
  "Node_conciliumFee E getFee dflt t isGenesis =
     (if isGenesis then returnS 0
      else bindS (Storage_getConciliumById (ne_serializers E) (ne_loadConciliums E)
                    (Transaction_conciliumId t))
             (\<lambda>witnessConcilium. returnS (feeOr dflt (getFee witnessConcilium))))"

text \<open>\<open>parseInt(nFeePerKb * size / 1024)\<close>: the fraction is cut off.\<close>

definition parseInt1024 :: "int \<Rightarrow> int" where
  "parseInt1024 n = (if n \<ge> 0 then n div 1024 else - (- n div 1024))"

definition Node_calculateSizeFee ::
    "('d, 'r, 'a) node_env \<Rightarrow> tx \<Rightarrow> bool \<Rightarrow> (int, 'd storage) act" where
  "Node_calculateSizeFee E t isGenesis =
     (if isGenesis then returnS 0
      else bindS (Node_conciliumFee E Concilium_getFeeTxSize TX_FEE t isGenesis) (\<lambda>nFeePerKb.
           returnS (parseInt1024 (nFeePerKb * int (ne_txSize E t)))))"

definition Node_getFeeContractCreation ::
    "('d, 'r, 'a) node_env \<Rightarrow> tx \<Rightarrow> bool \<Rightarrow> (int, 'd storage) act" where
  "Node_getFeeContractCreation E =
     Node_conciliumFee E Concilium_getFeeContractCreation CONTRACT_CREATION_FEE"

definition Node_getFeeContractInvocatoin ::
    "('d, 'r, 'a) node_env \<Rightarrow> tx \<Rightarrow> bool \<Rightarrow> (int, 'd storage) act" where
  "Node_getFeeContractInvocatoin E =
     Node_conciliumFee E Concilium_getFeeContractInvocation CONTRACT_INVOCATION_FEE"

definition Node_getFeeInternalTx ::
    "('d, 'r, 'a) node_env \<Rightarrow> tx \<Rightarrow> bool \<Rightarrow> (int, 'd storage) act" where
  "Node_getFeeInternalTx E = Node_conciliumFee E Concilium_getFeeInternalTx INTERNAL_TX_FEE"

definition Node_getFeeStorage ::
    "('d, 'r, 'a) node_env \<Rightarrow> tx \<Rightarrow> bool \<Rightarrow> (int, 'd storage) act" where
  "Node_getFeeStorage E = Node_conciliumFee E Concilium_getFeeStorage STORAGE_PER_BYTE_FEE"

section \<open>What a running contract asks of the node\<close>

definition Node_getContractByAddr ::
    "'d serializers \<Rightarrow> addr \<Rightarrow> 'd patch option \<Rightarrow> 'd storage \<Rightarrow> 'd contract option res" where
  "Node_getContractByAddr S contractAddr patchForBlock s =
     (if contractAddr = [] then Inr None
      else bindR (typeforce (isAddress contractAddr)) (\<lambda>_.
        case Option.bind patchForBlock (PatchDB_getContract contractAddr) of
          Some c \<Rightarrow> Inr (Some (Contract_clone S c))
        | None \<Rightarrow> Storage_getContract contractAddr s))"

text \<open>The number of the patch makes the hash of every internal transaction new.\<close>

definition Node_createInternalTx ::
    "('d, 'r, 'a) node_env \<Rightarrow> addr \<Rightarrow> int \<Rightarrow> hash \<Rightarrow> (utxo, 'd patch) act" where
  "Node_createInternalTx E receiver amount strHash =
     bindS (liftS (typeforce (isAddress receiver \<and> isHash256 strHash))) (\<lambda>_.
     bindS (liftS (assertR (amount > 0)
                     (AssertionError ''Internal TX with non positive amount!''))) (\<lambda>_.
     let coins = Coins_new amount receiver in
     bindS (\<lambda>p. case PatchDB_getNonce p of (n, p') \<Rightarrow> (Inr n, p')) (\<lambda>nonce.
     let txHash = ne_createHash E (strHash @ show_nat nonce) in
     bindS (liftS (bindR (UTXO_new txHash) (UTXO_addCoins 0 coins))) (\<lambda>utxo p.
     (Inr utxo, PatchDB_setUtxo utxo p)))))"

definition Node_setReceipt :: "hash \<Rightarrow> receipt \<Rightarrow> (receipt option, 'd patch) act" where
  "Node_setReceipt strTxHash r p =
     (case PatchDB_setReceipt strTxHash r p of Inl e \<Rightarrow> (Inl e, p) | Inr (old, p') \<Rightarrow> (Inr old, p'))"

definition Node_sendCoins ::
    "('d, 'r, 'a) node_env \<Rightarrow> hash \<Rightarrow> addr \<Rightarrow> int \<Rightarrow> 'd contract \<Rightarrow> ('d contract, 'd patch) act" where
  "Node_sendCoins E strTxHash strAddress amount contract =
     bindS (liftS (typeforce (isHash256 strTxHash \<and> isAddress strAddress))) (\<lambda>_.
     if Contract_getBalance contract < amount then throwS (Error ''Not enough funds for send'')
     else if amount = 0 then returnS contract
     else bindS (Node_createInternalTx E strAddress amount strTxHash) (\<lambda>internalUtxo.
          bindS (liftS (TxReceipt_addInternalUtxo internalUtxo
                          (TxReceipt_new [] 0 TX_STATUS_OK []))) (\<lambda>receipt.
          bindS (Node_setReceipt strTxHash receipt) (\<lambda>_.
          liftS (Contract_withdraw amount contract)))))"

text \<open>The callback: the running contract comes back changed, or as it was when the call throws.\<close>

definition Node_sendFromContract ::
    "('d, 'r, 'a) node_env \<Rightarrow> hash \<Rightarrow> addr \<Rightarrow> int \<Rightarrow> 'd contract option \<Rightarrow> 'd world \<Rightarrow>
     unit res \<times> 'd contract option \<times> 'd world" where
  "Node_sendFromContract E strTxHash strAddress amount contract w =
     (case contract of
        None \<Rightarrow> (typeforce False, contract, w)
      | Some c \<Rightarrow>
          (case Node_sendCoins E strTxHash strAddress amount c (fst w) of
             (Inl e, p) \<Rightarrow> (Inl e, contract, (p, snd w))
           | (Inr c', p) \<Rightarrow> (Inr (), Some c', (p, snd w))))"

text \<open>
  A delegated call (\<open>context\<close> given) runs the called contract's code for the caller: the called
  contract shows the caller's balance while it runs and keeps its own, and the code sees the
  caller's environment. \<open>coinsLimit\<close> is checked to be a number and not used.
\<close>

text \<open>What happens before the called contract runs: the contract, ready to run, and its environment.\<close>

definition Node_prepareNested ::
    "('d, 'r, 'a) node_env \<Rightarrow> 'd patch \<Rightarrow> environment \<Rightarrow> addr \<Rightarrow> 'd option \<Rightarrow> 'd contract option \<Rightarrow>
     'd storage \<Rightarrow> ('d contract \<times> environment) res" where
  "Node_prepareNested E patchBlock env strAddress context contract s =
     bindR (typeforce (isAddress strAddress \<and> contract \<noteq> None)) (\<lambda>_.
     bindR (Node_getContractByAddr (ne_serializers E) strAddress (Some patchBlock) s) (\<lambda>found.
     case found of
       None \<Rightarrow> Inl (Error ''Contract not found!'')
     | Some c0 \<Rightarrow>
         bindR (if Node_isTimeToForkSerializer2 (ne_processedBlock E)
                then Contract_switchSerializerToJson (ne_serializers E) c0 else Inr c0) (\<lambda>cNestedContract.
         bindR (Contract_getStoredAddress cNestedContract) (\<lambda>contractAddr.
         let newEnv = env\<lparr>en_contractAddr := Some contractAddr,
                          en_balance := (case (context, contract) of
                             (Some _, Some caller) \<Rightarrow> Contract_getBalance caller
                           | _ \<Rightarrow> Contract_getBalance cNestedContract)\<rparr>
         in Inr (cNestedContract, if context = None then newEnv else env)))))"

text \<open>\<open>proxyContract\<close>: the called contract shows and changes the balance of its caller.\<close>

definition Node_proxyContract :: "'d option \<Rightarrow> 'd contract option \<Rightarrow> 'd contract \<Rightarrow> 'd contract" where
  "Node_proxyContract context contract cNestedContract =
     (case (context, contract) of
        (Some _, Some caller) \<Rightarrow> cNestedContract\<lparr>ct_balance := Contract_getBalance caller\<rparr>
      | _ \<Rightarrow> cNestedContract)"

text \<open>After the run: the proxied balance is the caller's, the called contract goes to the patch.\<close>

definition Node_finishNested ::
    "('d, 'r, 'a) node_env \<Rightarrow> 'd option \<Rightarrow> int \<Rightarrow> 'r res \<Rightarrow> 'd contract \<Rightarrow> ('r, ('d, 'd world) app_st) act" where
  "Node_finishNested E context ownBalance result used st =
     (case st of (app, patchTx, s) \<Rightarrow>
      let app' = (if context = None then app
                  else App_updCurrent (map_option (\<lambda>c. c\<lparr>ct_balance := ct_balance used\<rparr>)) app);
          cNestedContract = (if context = None then used else used\<lparr>ct_balance := ownBalance\<rparr>)
      in (case bindR result (\<lambda>r.
               bindR (if Node_isTimeToForkSerializer3 (ne_processedBlock E)
                      then Contract_dirtyWorkaround (ne_serializers E) cNestedContract
                      else Inr cNestedContract) (\<lambda>c.
               mapR (Pair r) (PatchDB_setContract (ne_serializers E) c patchTx))) of
            Inl e \<Rightarrow> (Inl e, (app', patchTx, s))
          | Inr (r, patchTx') \<Rightarrow> (Inr r, (app', patchTx', s))))"

definition Node_invokeNestedContract ::
    "('d, 'r, 'a) node_env \<Rightarrow> (environment \<Rightarrow> ('d, 'r, 'a) node_callbacks) \<Rightarrow> 'd patch \<Rightarrow> environment \<Rightarrow>
     addr \<Rightarrow> string \<Rightarrow> 'a list \<Rightarrow> int \<Rightarrow> 'd option \<Rightarrow> ('r, ('d, 'd world) app_st) act" where
  "Node_invokeNestedContract E cbs patchBlock env strAddress method arrArguments coinsLimit context st =
     (let contract = App_getCurrentContract (fst st)
      in case Node_prepareNested E patchBlock env strAddress context contract (snd (snd st)) of
        Inl e \<Rightarrow> (Inl e, st)
      | Inr (cNestedContract, runEnv) \<Rightarrow>
          (case App_runContract (ne_serializers E) (ne_vmRun E (cbs runEnv) runEnv)
                  (method, map (ne_stringify E) arrArguments)
                  (Node_proxyContract context contract cNestedContract) context False st of
             (result, used, st1) \<Rightarrow>
               Node_finishNested E context (ct_balance cNestedContract) result used st1))"

text \<open>
  \<open>_createCallbacksForApp\<close>. The first argument is the depth of nested calls the platform's stack
  still has room for.
\<close>

primrec Node_createCallbacksForApp ::
    "nat \<Rightarrow> ('d, 'r, 'a) node_env \<Rightarrow> 'd patch \<Rightarrow> hash \<Rightarrow> environment \<Rightarrow> ('d, 'r, 'a) node_callbacks" where
  "Node_createCallbacksForApp 0 E patchBlock strTxHash env =
     \<lparr>cb_sendCoins = Node_sendFromContract E strTxHash,
      cb_invokeContract = (\<lambda>_ _ _ _ _. throwS (Thrown ''Maximum call stack size exceeded''))\<rparr>"
| "Node_createCallbacksForApp (Suc depth) E patchBlock strTxHash env =
     \<lparr>cb_sendCoins = Node_sendFromContract E strTxHash,
      cb_invokeContract =
        Node_invokeNestedContract E (Node_createCallbacksForApp depth E patchBlock strTxHash)
          patchBlock env\<rparr>"

section \<open>Contracts\<close>

text \<open>
  The change of a contract transaction. The receipt is the local object; whether it is the one the
  patch holds decides if the internal transaction added here is seen there.
\<close>

definition Node_createContractChange ::
    "('d, 'r, 'a) node_env \<Rightarrow> tx \<Rightarrow> int \<Rightarrow> receipt \<Rightarrow> (int \<times> receipt, 'd patch) act" where
  "Node_createContractChange E t maxFee receipt =
     (let fee = TxReceipt_getCoinsUsed receipt in
      bindS (liftS (assertR (maxFee - fee \<ge> 0)
                      (AssertionError ''_createContractChange. We spent more than have!''))) (\<lambda>_.
      bindS (liftS (Transaction_getContractChangeReceiver t)) (\<lambda>addrChangeReceiver.
      case addrChangeReceiver of
        None \<Rightarrow> returnS (maxFee - fee, receipt)
      | Some a \<Rightarrow>
          if a = [] then returnS (maxFee - fee, receipt)
          else if maxFee - fee \<noteq> 0
          then bindS (Node_createInternalTx E a (maxFee - fee) (Transaction_getHash (ne_crypto E) t))
                 (\<lambda>changeUtxo.
               bindS (liftS (TxReceipt_addInternalUtxo changeUtxo receipt)) (\<lambda>r.
               returnS (fee, r)))
          else returnS (fee, receipt))))"

fun errMessage :: "js_error \<Rightarrow> string" where
  "errMessage (Error m) = m"
| "errMessage (AssertionError m) = m"
| "errMessage (TypeError m) = m"
| "errMessage (Thrown m) = m"

text \<open>
  The \<open>try\<close> block of \<open>_processContract\<close>: the outcome, the contract the variable holds afterwards
  and whether it is a new one.
\<close>

record 'd contract_run =
  cx_result :: "unit res"
  cx_contract :: "'d contract option"
  cx_bNewContract :: bool
  cx_app :: "'d app"
  cx_patch :: "'d patch"
  cx_storage :: "'d storage"

definition App_initial :: "'d app" where
  "App_initial = \<lparr>app_objFees = \<lparr>nFeeContractCreation = 0, nFeeContractInvocation = 0, nFeeInternalTx = 0\<rparr>,
     app_nInitialCoins = 0, app_nCoinsLimit = 0, app_nDataDelta = 0, app_arrContractDataSize = None,
     app_arrContracts = []\<rparr>"

definition Node_createNewContract ::
    "('d, 'r, 'a) node_env \<Rightarrow> tx \<Rightarrow> environment \<Rightarrow> int \<Rightarrow> 'd app \<Rightarrow> 'd world \<Rightarrow> 'd contract_run" where
  "Node_createNewContract E t environment coinsLimit app w =
     (let C = ne_crypto E;
          S = ne_serializers E;
          addr = cr_getAddress C (Transaction_getHash C t);
          run = (\<lambda>r c b a. \<lparr>cx_result = r, cx_contract = c, cx_bNewContract = b, cx_app = a,
                            cx_patch = fst w, cx_storage = snd w\<rparr>)
      in if coinsLimit < nFeeContractCreation (app_objFees app)
         then run (Inl (Error ''Tx fee for contract creation less than required'')) None False app
         else case Storage_getContract addr (snd w) of
             Inl e \<Rightarrow> run (Inl e) None False app
           | Inr (Some _) \<Rightarrow> run (Inl (Error ''Contract already exists'')) None False app
           | Inr None \<Rightarrow>
               (case bindR (Transaction_getContractCode t) (\<lambda>code.
                     case code of None \<Rightarrow> Inl (TypeError ''Expected String'') | Some strCode \<Rightarrow> Inr strCode) of
                  Inl e \<Rightarrow> run (Inl e) None False app
                | Inr strCode \<Rightarrow>
                    (case App_createContract S
                            (ne_vmCreate E (environment\<lparr>en_contractAddr := Some addr\<rparr>)) strCode addr
                            CONTRACT_V_V8 app of
                       (Inl e, app1) \<Rightarrow> run (Inl e) None False app1
                     | (Inr contract, app1) \<Rightarrow> run (Inr ()) (Some contract) True app1)))"

definition Node_runOldContract ::
    "nat \<Rightarrow> ('d, 'r, 'a) node_env \<Rightarrow> 'd patch \<Rightarrow> tx \<Rightarrow> environment \<Rightarrow> int \<Rightarrow> 'd contract \<Rightarrow> 'd app \<Rightarrow>
     'd world \<Rightarrow> 'd contract_run" where
  "Node_runOldContract depth E patchForBlock t environment coinsLimit contract app w =
     (let h = Transaction_getHash (ne_crypto E) t;
          run = (\<lambda>r c a w. \<lparr>cx_result = r, cx_contract = Some c, cx_bNewContract = False, cx_app = a,
                            cx_patch = fst w, cx_storage = snd w\<rparr>)
      in if coinsLimit < nFeeContractInvocation (app_objFees app)
         then run (Inl (Error ''Tx fee for contract invocation less than required'')) contract app w
         else if Contract_getConciliumId contract \<noteq> Some (Transaction_conciliumId t)
         then run (Inl (AssertionError ''TX wrong conciliumId'')) contract app w
         else case bindR (Transaction_getContractCode t) (\<lambda>invocationCode.
                   bindR (Contract_getStoredAddress contract) (\<lambda>a.
                   bindR (typeforce (isHash256 h)) (\<lambda>_.
                   bindR (case invocationCode of
                            Some s \<Rightarrow> (if s \<noteq> [] then ne_parseInvocation E s else Inr ([], []))
                          | None \<Rightarrow> Inr ([], [])) (\<lambda>invocation.
                   Inr (a, invocation))))) of
             Inl e \<Rightarrow> run (Inl e) contract app w
           | Inr (a, invocation) \<Rightarrow>
               (let env = environment\<lparr>en_contractAddr := Some a,
                                     en_balance := Contract_getBalance contract\<rparr>
                in case App_runContract (ne_serializers E)
                          (ne_vmRun E (Node_createCallbacksForApp depth E patchForBlock h env) env)
                          invocation contract None False (app, w) of
                     (r, contract', (app', w')) \<Rightarrow> run (mapR (\<lambda>_. ()) r) contract' app' w'))"

text \<open>
  What \<open>nCoinsUsed\<close> adds up, on the application as it is after the run. \<open>nMaxCoins\<close> may grow by the
  value of a failed call. Whether the patch holds the local receipt and the local contract, or older
  objects of the same key, decides which later changes reach the patch.
\<close>

definition Node_coinsUsed :: "int \<Rightarrow> int \<Rightarrow> 'd app \<Rightarrow> int" where
  "Node_coinsUsed nFeeSize nFeeStorage app =
     nFeeSize + App_coinsSpent app + App_getDataDelta app * nFeeStorage"

definition Node_runContractTx ::
    "nat \<Rightarrow> ('d, 'r, 'a) node_env \<Rightarrow> 'd patch \<Rightarrow> tx \<Rightarrow> 'd contract option \<Rightarrow> int \<Rightarrow> int \<Rightarrow> int \<Rightarrow> fees \<Rightarrow>
     'd world \<Rightarrow> 'd contract_run res" where
  "Node_runContractTx depth E patchForBlock t contract nMaxCoins nFeeSize nFeeStorage objFees w =
     bindR (Transaction_getContractSentAmount t) (\<lambda>sent.
     let coinsLimit = nMaxCoins - nFeeSize;
         environment =
           \<lparr>en_contractTx = Transaction_getHash (ne_crypto E) t,
            en_callerAddress = Transaction_getTxSignerAddress (ne_crypto E) t,
            en_value = sent, en_contractAddr = None, en_balance = 0,
            en_block = ne_processedBlock E\<rparr>;
         app = App_setupVariables coinsLimit objFees App_initial;
         x = (case contract of
                None \<Rightarrow> Node_createNewContract E t environment coinsLimit app w
              | Some c \<Rightarrow> Node_runOldContract depth E patchForBlock t environment coinsLimit c app w)
     in Inr (if cx_result x = Inr () \<and> Node_coinsUsed nFeeSize nFeeStorage (cx_app x) > nMaxCoins
             then x\<lparr>cx_result := Inl (Error ''Not enough coins to run contract'')\<rparr> else x))"

definition Node_contractReceipt ::
    "int \<Rightarrow> int \<Rightarrow> 'd contract_run \<Rightarrow> receipt res" where
  "Node_contractReceipt nFeeSize nFeeStorage x =
     bindR (case cx_contract x of
              Some c \<Rightarrow> (if cx_bNewContract x then Contract_getStoredAddress c else Inr [])
            | None \<Rightarrow> Inr []) (\<lambda>contractAddress.
     Inr (TxReceipt_new contractAddress (Node_coinsUsed nFeeSize nFeeStorage (cx_app x))
            (case cx_result x of Inr _ \<Rightarrow> TX_STATUS_OK | Inl _ \<Rightarrow> TX_STATUS_FAILED)
            (case cx_result x of Inr _ \<Rightarrow> [] | Inl e \<Rightarrow> errMessage e)))"

text \<open>The contract after a successful run: stored in the patch, then credited with the value sent.\<close>

definition Node_storeContract ::
    "'d serializers \<Rightarrow> tx \<Rightarrow> int \<Rightarrow> 'd contract \<Rightarrow> 'd patch \<Rightarrow> 'd patch res" where
  "Node_storeContract S t sent contract p =
     (let c = (if Contract_getConciliumId contract = None
               then Contract_setConciliumId (Transaction_conciliumId t) contract else contract)
      in bindR (PatchDB_setContract S c p) (\<lambda>p'.
         bindR (Contract_getStoredAddress c) (\<lambda>a.
         Inr (if PatchDB_getContract a p = None
              then p'\<lparr>pt_mapContractStates :=
                     jset a (Contract_deposit sent c) (pt_mapContractStates p')\<rparr>
              else p'))))"

definition Node_settleContract ::
    "('d, 'r, 'a) node_env \<Rightarrow> tx \<Rightarrow> int \<Rightarrow> receipt \<Rightarrow> 'd contract option \<Rightarrow> int \<Rightarrow> 'd patch \<Rightarrow>
     (int \<times> 'd patch) res" where
  "Node_settleContract E t sent receipt contract nMaxCoins p =
     (case contract of
        None \<Rightarrow> Inr (nMaxCoins, p)
      | Some c0 \<Rightarrow>
          bindR (if Node_isTimeToForkSerializer3 (ne_processedBlock E)
                 then Contract_dirtyWorkaround (ne_serializers E) c0 else Inr c0) (\<lambda>c.
          if TxReceipt_isSuccessful receipt
          then mapR (\<lambda>p'. (nMaxCoins, p')) (Node_storeContract (ne_serializers E) t sent c p)
          else if sent > 0 \<and> Node_isTimeToForkSerializer1 (ne_processedBlock E)
          then Inr (nMaxCoins + sent, p)
          else Inr (nMaxCoins, p)))"

definition Node_takeFee ::
    "('d, 'r, 'a) node_env \<Rightarrow> bool \<Rightarrow> tx \<Rightarrow> receipt \<Rightarrow> bool \<Rightarrow> int \<Rightarrow> (int, 'd patch) act" where
  "Node_takeFee E isGenesis t receipt bInPatch nMaxCoins p =
     (if isGenesis then (Inr 0, p)
      else if TxReceipt_getCoinsUsed receipt > nMaxCoins then (Inr nMaxCoins, p)
      else case Node_createContractChange E t nMaxCoins receipt p of
          (Inl e, p') \<Rightarrow> (Inl e, p')
        | (Inr (fee, receipt'), p') \<Rightarrow>
            (Inr fee,
             if bInPatch then p'\<lparr>pt_mapTxReceipts :=
                  jset (Transaction_getHash (ne_crypto E) t) receipt' (pt_mapTxReceipts p')\<rparr>
             else p'))"

definition Node_processContract ::
    "nat \<Rightarrow> ('d, 'r, 'a) node_env \<Rightarrow> bool \<Rightarrow> 'd contract option \<Rightarrow> tx \<Rightarrow> 'd patch \<Rightarrow> 'd patch \<Rightarrow> int \<Rightarrow> int \<Rightarrow>
     (int \<times> 'd patch, 'd storage) act" where
  "Node_processContract depth E isGenesis contract t patchThisTx patchForBlock nMaxCoins nFeeSize =
     bindS (liftS (case contract of
              Some c \<Rightarrow> (if Node_isTimeToForkSerializer1 (ne_processedBlock E)
                        then mapR Some (Contract_switchSerializerToJson (ne_serializers E) c)
                        else Inr (Some c))
            | None \<Rightarrow> Inr None)) (\<lambda>contract1.
     bindS (liftS (Transaction_getContractSentAmount t)) (\<lambda>sent.
     bindS (Node_getFeeStorage E t isGenesis) (\<lambda>nFeeStorage.
     bindS (Node_getFeeContractCreation E t isGenesis) (\<lambda>nFeeCreation.
     bindS (Node_getFeeContractInvocatoin E t isGenesis) (\<lambda>nFeeInvocation.
     bindS (Node_getFeeInternalTx E t isGenesis) (\<lambda>nFeeInternal s.
     (let objFees = \<lparr>nFeeContractCreation = nFeeCreation, nFeeContractInvocation = nFeeInvocation,
                     nFeeInternalTx = nFeeInternal\<rparr>;
          h = Transaction_getHash (ne_crypto E) t
      in case Node_runContractTx depth E patchForBlock t contract1 nMaxCoins nFeeSize nFeeStorage objFees
                (patchThisTx, s) of
           Inl e \<Rightarrow> (Inl e, s)
         | Inr x \<Rightarrow>
             (bindR (Node_contractReceipt nFeeSize nFeeStorage x) (\<lambda>receipt.
              bindR (PatchDB_setReceipt h receipt (cx_patch x)) (\<lambda>(old, p).
              bindR (Node_settleContract E t sent receipt (cx_contract x) nMaxCoins p) (\<lambda>(nMax, p1).
              case Node_takeFee E isGenesis t receipt (old = None) nMax p1 of
                (Inl e, _) \<Rightarrow> Inl e
              | (Inr fee, p2) \<Rightarrow> Inr (fee, p2)))), cx_storage x))))))))"

section \<open>One transaction\<close>

text \<open>\<open>contract\<close> is only looked up when the transaction does not create one.\<close>

definition Node_findContract ::
    "('d, 'r, 'a) node_env \<Rightarrow> tx \<Rightarrow> 'd patch option \<Rightarrow> 'd storage \<Rightarrow> (bool \<times> 'd contract option) res" where
  "Node_findContract E t patchForBlock s =
     bindR (Transaction_isContractCreation t) (\<lambda>b.
     if b then Inr (True, None)
     else bindR (Transaction_getContractAddr t) (\<lambda>a.
          bindR (Node_getContractByAddr (ne_serializers E) a patchForBlock s) (\<lambda>c.
          Inr (c \<noteq> None, c))))"

text \<open>The inputs are looked for in the storage, merged with the block's patch when that has any of them.\<close>

definition Node_inputsPatch ::
    "'d serializers \<Rightarrow> 'd patch option \<Rightarrow> hash list \<Rightarrow> 'd storage \<Rightarrow> 'd patch res" where
  "Node_inputsPatch S patchForBlock arrTxUtxos s =
     (let patchUtxos = Storage_getUtxosPatch arrTxUtxos s
      in case patchForBlock of
           None \<Rightarrow> Inr patchUtxos
         | Some pb \<Rightarrow>
             (if PatchDB_hasUtxos arrTxUtxos pb \<noteq> 0 then PatchDB_merge S False pb patchUtxos
              else Inr patchUtxos))"

definition Node_processTx ::
    "nat \<Rightarrow> ('d, 'r, 'a) node_env \<Rightarrow> 'd patch option \<Rightarrow> bool \<Rightarrow> tx \<Rightarrow> (int \<times> 'd patch, 'd storage) act" where
  "Node_processTx depth E patchForBlock isGenesis t =
     bindS (liftS (PatchDB_new (Some (Transaction_conciliumId t)))) (\<lambda>patch0.
     bindS (\<lambda>s. (Node_findContract E t patchForBlock s, s)) (\<lambda>(isContract, contract).
     bindS (\<lambda>s. (if isGenesis then Inr (patch0, 0)
                 else bindR (Node_inputsPatch (ne_serializers E) patchForBlock (Transaction_utxos t) s)
                        (\<lambda>patchMerged. App_processTxInputs (ne_crypto E) t (Some patchMerged)), s))
       (\<lambda>(patchInputs, totalHas).
     bindS (if isGenesis then returnS 0 else Node_calculateSizeFee E t isGenesis) (\<lambda>nFeeSize.
     bindS (liftS (App_processPayments (ne_crypto E) t patchInputs (if isContract then 1 else 0)))
       (\<lambda>(patchThisTx, totalSent).
     let nMaxFee = (if isGenesis then MAX_SAFE_INTEGER else totalHas - totalSent) in
     bindS (liftS (if isContract then Transaction_getContractSentAmount t else Inr 0)) (\<lambda>sent.
     let nRemainingCoins = nMaxFee - sent in
     bindS (liftS (assertR (isGenesis \<or> nRemainingCoins > nFeeSize)
                     (AssertionError ''Require fee but you sent less than fee!''))) (\<lambda>_.
     if isContract
     then Node_processContract depth E isGenesis contract t patchThisTx
            (case patchForBlock of Some pb \<Rightarrow> pb | None \<Rightarrow> PatchDB_empty) nRemainingCoins nFeeSize
     else returnS (if isGenesis then 0 else nRemainingCoins, patchThisTx))))))))"

section \<open>Where a transaction's inputs come from\<close>

lemma assertR_Inr [simp]: "assertR P e = Inr u \<longleftrightarrow> P"
  by (cases P) (simp_all add: assertR_def)

text \<open>What the block's patch and the storage say together of an output.\<close>

definition Node_outputs :: "'d patch option \<Rightarrow> 'd storage \<Rightarrow> hash \<Rightarrow> ustate option" where
  "Node_outputs pb s h =
     ujoin (case pb of None \<Rightarrow> None | Some p \<Rightarrow> PatchDB_abs p h)
       (map_option (\<lambda>u. (UTXO_abs u, Map.empty)) (jget (sg_utxos s) h))"

lemma Node_inputsPatch_abs:
  assumes s: "Storage_wf s" and pb: "\<And>p. pb = Some p \<Longrightarrow> PatchDB_wf p"
    and run: "Node_inputsPatch S pb hs s = Inr m"
  shows "PatchDB_utxosOk m" and "h \<in> set hs \<Longrightarrow> PatchDB_abs m h = Node_outputs pb s h"
proof -
  let ?q = "Storage_getUtxosPatch hs s :: 'a patch"
  note Q = Storage_getUtxosPatch_spec [OF s, of hs]
  have q: "PatchDB_utxosOk ?q" using Q(1) by (simp add: PatchDB_wf_def)
  have "PatchDB_utxosOk m \<and> (h \<in> set hs \<longrightarrow> PatchDB_abs m h = Node_outputs pb s h)"
  proof (cases pb)
    case None
    with run q Q(2) show ?thesis by (simp add: Node_inputsPatch_def Let_def Node_outputs_def)
  next
    case (Some p)
    show ?thesis
    proof (cases "PatchDB_hasUtxos hs p = 0")
      case True
      then have "h \<in> set hs \<Longrightarrow> PatchDB_abs p h = None"
        unfolding PatchDB_abs_None by (auto simp: PatchDB_hasUtxos_def jhas_def jget_def filter_empty_conv)
      with True run q Q(2) Some show ?thesis
        by (auto simp: Node_inputsPatch_def Let_def Node_outputs_def)
    next
      case False
      then have "PatchDB_merge S False p ?q = Inr m"
        using run Some by (simp add: Node_inputsPatch_def Let_def)
      with PatchDB_merge_abs [OF pb [OF Some] Q(1), of False S] Q(2) Some show ?thesis
        by (auto simp: PatchDB_wf_def Node_outputs_def split: if_splits)
    qed
  qed
  then show "PatchDB_utxosOk m" and "h \<in> set hs \<Longrightarrow> PatchDB_abs m h = Node_outputs pb s h" by simp_all
qed

section \<open>Conservation of coins\<close>

text \<open>The output a key names, as the transaction finds it.\<close>

definition Node_unspent :: "'d patch option \<Rightarrow> 'd storage \<Rightarrow> hash \<times> int \<Rightarrow> coins option" where
  "Node_unspent pb s k = (case Node_outputs pb s (fst k) of Some (u, _) \<Rightarrow> u (snd k) | None \<Rightarrow> None)"

definition Node_totalIn :: "'d patch option \<Rightarrow> 'd storage \<Rightarrow> tx \<Rightarrow> int" where
  "Node_totalIn pb s t = (\<Sum>k\<leftarrow>Transaction_keys t. coins_amount (the (Node_unspent pb s k)))"

lemma Node_processInputs:
  assumes s: "Storage_wf s" and pb: "\<And>p. pb = Some p \<Longrightarrow> PatchDB_wf p"
    and m: "Node_inputsPatch S pb (Transaction_utxos t) s = Inr m"
    and run: "App_processTxInputs C t (Some m) = Inr (p, totalHas)"
  shows "distinct (Transaction_keys t)"
    and "\<forall>i<length (Transaction_inputs t). \<exists>c. Node_unspent pb s (Transaction_keys t ! i) = Some c \<and> App_owned C t i c"
    and "totalHas = Node_totalIn pb s t"
    and "PatchDB_utxosOk p"
proof -
  note M = Node_inputsPatch_abs [OF s pb m]
  note A = App_processTxInputs_spends [OF M(1) run]
  have eq: "App_unspent m k = Node_unspent pb s k" if "k \<in> set (Transaction_keys t)" for k
    using that M(2) by (auto simp: App_unspent_def Node_unspent_def Transaction_keys_def Transaction_utxos_def)
  show "distinct (Transaction_keys t)" "PatchDB_utxosOk p" using A by simp_all
  have len: "length (Transaction_keys t) = length (Transaction_inputs t)"
    by (simp add: Transaction_keys_def)
  show "\<forall>i<length (Transaction_inputs t). \<exists>c. Node_unspent pb s (Transaction_keys t ! i) = Some c \<and> App_owned C t i c"
    using A(6) eq len by (metis nth_mem)
  have "map (\<lambda>k. coins_amount (the (App_unspent m k))) (Transaction_keys t) =
      map (\<lambda>k. coins_amount (the (Node_unspent pb s k))) (Transaction_keys t)"
    using eq by (intro map_cong) simp_all
  with A(3) show "totalHas = Node_totalIn pb s t" by (simp add: Node_totalIn_def)
qed

lemma Node_processTx_InrD:
  assumes "Node_processTx depth E pb False t s = (Inr (fee, p), s')"
  obtains isC c m patchInputs totalHas nFeeSize s1 patchPaid totalSent sent where
    "Node_findContract E t pb s = Inr (isC, c)"
    and "Node_inputsPatch (ne_serializers E) pb (Transaction_utxos t) s = Inr m"
    and "App_processTxInputs (ne_crypto E) t (Some m) = Inr (patchInputs, totalHas)"
    and "Node_calculateSizeFee E t False s = (Inr nFeeSize, s1)"
    and "App_processPayments (ne_crypto E) t patchInputs (if isC then 1 else 0) = Inr (patchPaid, totalSent)"
    and "(if isC then Transaction_getContractSentAmount t else Inr 0) = Inr sent"
    and "nFeeSize < totalHas - totalSent - sent"
    and "if isC then Node_processContract depth E False c t patchPaid
            (case pb of Some q \<Rightarrow> q | None \<Rightarrow> PatchDB_empty) (totalHas - totalSent - sent) nFeeSize s1 =
            (Inr (fee, p), s')
         else fee = totalHas - totalSent - sent \<and> p = patchPaid \<and> s' = s1"
proof -
  from assms obtain isC c patchInputs totalHas nFeeSize s1 patchPaid totalSent sent where
    f: "Node_findContract E t pb s = Inr (isC, c)"
    and i: "bindR (Node_inputsPatch (ne_serializers E) pb (Transaction_utxos t) s)
              (\<lambda>m. App_processTxInputs (ne_crypto E) t (Some m)) = Inr (patchInputs, totalHas)"
    and r: "Node_calculateSizeFee E t False s = (Inr nFeeSize, s1)"
      "App_processPayments (ne_crypto E) t patchInputs (if isC then 1 else 0) = Inr (patchPaid, totalSent)"
      "(if isC then Transaction_getContractSentAmount t else Inr 0) = Inr sent"
      "nFeeSize < totalHas - totalSent - sent"
    and last: "(if isC then Node_processContract depth E False c t patchPaid
            (case pb of Some q \<Rightarrow> q | None \<Rightarrow> PatchDB_empty) (totalHas - totalSent - sent) nFeeSize
         else returnS (totalHas - totalSent - sent, patchPaid)) s1 = (Inr (fee, p), s')"
    unfolding Node_processTx_def act_Inr Let_def by (auto simp: act_Inr cong: if_cong)
  from i obtain m where "Node_inputsPatch (ne_serializers E) pb (Transaction_utxos t) s = Inr m"
    "App_processTxInputs (ne_crypto E) t (Some m) = Inr (patchInputs, totalHas)" by auto
  from that [OF f this r] last show ?thesis by (auto simp: returnS_def split: if_splits)
qed

text \<open>
  A transaction without a contract: its inputs are distinct, existing, unspent outputs whose owners
  signed it, what they hold is what the outputs get plus the fee, and the fee exceeds the fee for
  the size.
\<close>

lemma Node_transfer_spec:
  assumes s: "Storage_wf s" and pb: "\<And>q. pb = Some q \<Longrightarrow> PatchDB_wf q"
    and plain: "Node_findContract E t pb s = Inr (False, c)"
    and run: "Node_processTx depth E pb False t s = (Inr (fee, p), s')"
  shows "distinct (Transaction_keys t)"
    and "\<forall>i<length (Transaction_inputs t). \<exists>c. Node_unspent pb s (Transaction_keys t ! i) = Some c \<and>
      App_owned (ne_crypto E) t i c"
    and "Node_totalIn pb s t = Transaction_amountOut t + fee"
    and "\<exists>nFeeSize. fst (Node_calculateSizeFee E t False s) = Inr nFeeSize \<and> nFeeSize < fee"
proof -
  from Node_processTx_InrD [OF run] obtain isC c' m q totalHas nFeeSize s1 paid totalSent sent where
    D: "Node_findContract E t pb s = Inr (isC, c')"
    "Node_inputsPatch (ne_serializers E) pb (Transaction_utxos t) s = Inr m"
    "App_processTxInputs (ne_crypto E) t (Some m) = Inr (q, totalHas)"
    "Node_calculateSizeFee E t False s = (Inr nFeeSize, s1)"
    "App_processPayments (ne_crypto E) t q (if isC then 1 else 0) = Inr (paid, totalSent)"
    "(if isC then Transaction_getContractSentAmount t else Inr 0) = Inr sent"
    "nFeeSize < totalHas - totalSent - sent"
    "if isC then Node_processContract depth E False c' t paid
            (case pb of Some q \<Rightarrow> q | None \<Rightarrow> PatchDB_empty) (totalHas - totalSent - sent) nFeeSize s1 =
            (Inr (fee, p), s')
         else fee = totalHas - totalSent - sent \<and> p = paid \<and> s' = s1"
    by blast
  from plain D(1) have isC: "\<not> isC" by simp
  note A = Node_processInputs [OF s pb D(2,3)]
  show "distinct (Transaction_keys t)" using A by simp
  show "\<forall>i<length (Transaction_inputs t). \<exists>c. Node_unspent pb s (Transaction_keys t ! i) = Some c \<and>
      App_owned (ne_crypto E) t i c" using A by simp
  have "totalSent = Transaction_amountOut t"
    using App_processPayments_total [OF D(5)] isC by (simp add: Transaction_amountOut_sum)
  with D(6,8) isC A(3) show "Node_totalIn pb s t = Transaction_amountOut t + fee" by simp
  from D(4,6,7,8) isC show "\<exists>nFeeSize. fst (Node_calculateSizeFee E t False s) = Inr nFeeSize \<and> nFeeSize < fee"
    by simp
qed

section \<open>The budget of a contract\<close>

definition Node_sandboxed :: "('d, 'r, 'a) node_env \<Rightarrow> bool" where
  "Node_sandboxed E \<longleftrightarrow> (\<forall>cb env. App_sandboxed cb (ne_vmRun E cb env))"

lemma fst_snd_case_sum:
  "fst (snd (case X of Inl e \<Rightarrow> (Inl e, (a, p, s)) | Inr (r, q) \<Rightarrow> (Inr r, (a, q, s)))) = a"
  by (simp split: sum.split prod.split)

lemma Node_finishNested_app:
  "fst (snd (Node_finishNested E ctx n r c st)) = fst st \<or>
   (\<exists>f. fst (snd (Node_finishNested E ctx n r c st)) = App_updCurrent f (fst st))"
proof -
  obtain a p s where st: "st = (a, p, s)" by (cases st)
  have "fst (snd (Node_finishNested E ctx n r c st)) = (if ctx = None then a
      else App_updCurrent (map_option (\<lambda>d. d\<lparr>ct_balance := ct_balance c\<rparr>)) a)"
    unfolding Node_finishNested_def st Let_def prod.case by (rule fst_snd_case_sum)
  then show ?thesis by (auto simp: st)
qed

lemma Node_invokeNested_keeps:
  assumes vm: "Node_sandboxed E" and cbs: "\<And>env. App_callbacks_ok (cbs env)"
    and run: "App_running (fst st)" and fees: "fees_ok (app_objFees (fst st))"
    and st'_def: "st' = snd (Node_invokeNestedContract E cbs pb env a m as n ctx st)"
  shows "App_budget (fst st) (fst st') \<and> App_sameStack (fst st) (fst st')"
proof (cases "Node_prepareNested E pb env a ctx (App_getCurrentContract (fst st)) (snd (snd st))")
  case (Inl e)
  then show ?thesis by (simp add: st'_def Node_invokeNestedContract_def)
next
  case (Inr q)
  obtain c runEnv where q: "q = (c, runEnv)" by fastforce
  obtain sizes where sizes: "app_arrContractDataSize (fst st) = Some sizes" "sizes \<noteq> []"
    "length sizes = length (app_arrContracts (fst st))" using run by (auto simp: App_running_def)
  obtain r c' st1 where rc: "App_runContract (ne_serializers E) (ne_vmRun E (cbs runEnv) runEnv)
      (m, map (ne_stringify E) as) (Node_proxyContract ctx (App_getCurrentContract (fst st)) c) ctx False st =
      (r, c', st1)" by (metis surj_pair)
  have sb: "App_sandboxed (cbs runEnv) (ne_vmRun E (cbs runEnv) runEnv)"
    using vm by (simp add: Node_sandboxed_def)
  note K = App_runContract_keeps [OF sb cbs fees sizes(1,3) rc]
  have st1: "App_budget (fst st) (fst st1)" "App_sameStack (fst st) (fst st1)"
    using K sizes by (simp_all add: App_sameStack_def)
  have "st' = snd (Node_finishNested E ctx (ct_balance c) r c' st1)"
    by (simp add: st'_def Node_invokeNestedContract_def Let_def Inr q rc)
  with Node_finishNested_app [of E ctx "ct_balance c" r c' st1]
  have "fst st' = fst st1 \<or> (\<exists>f. fst st' = App_updCurrent f (fst st1))" by simp
  then show ?thesis
    using st1 by (auto intro: App_budget_trans App_sameStack_trans)
qed

lemma Node_callbacks_ok:
  assumes vm: "Node_sandboxed E"
  shows "App_callbacks_ok (Node_createCallbacksForApp depth E pb h env)"
proof (induction depth arbitrary: env)
  case 0
  show ?case by (simp add: App_callbacks_ok_def throwS_def)
next
  case (Suc depth)
  show ?case
    unfolding App_callbacks_ok_def using Node_invokeNested_keeps [OF vm Suc _ _ refl] by simp
qed

lemma App_createContract_spent:
  assumes "App_createContract S vm code addr v (App_setupVariables n f a0) = (r, a)" and "0 \<le> n" and "fees_ok f"
  shows "0 \<le> App_coinsSpent a \<and> App_coinsSpent a \<le> n"
  using assms
  by (auto simp: App_createContract_def App_setupVariables_def App_execStarted_def App_charge_def
      App_spendCoins_def App_execDone_def App_coinsSpent_def fees_ok_def Let_def split: sum.splits option.splits
      if_splits prod.splits)

lemma App_setupVariables_simps [simp]:
  "app_objFees (App_setupVariables n f a) = f"
  "app_nInitialCoins (App_setupVariables n f a) = n"
  "app_nCoinsLimit (App_setupVariables n f a) = n"
  "app_arrContractDataSize (App_setupVariables n f a) = Some []"
  "app_arrContracts (App_setupVariables n f a) = []"
  by (simp_all add: App_setupVariables_def)

lemma App_budget_spent:
  "App_budget (App_setupVariables n f a0) a \<Longrightarrow> 0 \<le> n \<Longrightarrow> 0 \<le> App_coinsSpent a \<and> App_coinsSpent a \<le> n"
  by (simp add: App_budget_def App_coinsSpent_def)

lemma App_setup_spent: "0 \<le> n \<Longrightarrow> 0 \<le> App_coinsSpent (App_setupVariables n f a) \<and>
    App_coinsSpent (App_setupVariables n f a) \<le> n"
  by (simp add: App_coinsSpent_def)

lemma Node_createNewContract_spent:
  assumes "0 \<le> n" and "fees_ok f"
  shows "0 \<le> App_coinsSpent (cx_app (Node_createNewContract E t env n (App_setupVariables n f a) w)) \<and>
    App_coinsSpent (cx_app (Node_createNewContract E t env n (App_setupVariables n f a) w)) \<le> n"
  using App_setup_spent [OF assms(1), of f a]
  by (auto simp: Node_createNewContract_def Let_def dest: App_createContract_spent [OF _ assms]
      split: sum.splits option.splits prod.splits)

lemma Node_runOldContract_spent:
  assumes vm: "Node_sandboxed E" and n: "0 \<le> n" and f: "fees_ok f"
  shows "0 \<le> App_coinsSpent (cx_app (Node_runOldContract depth E pb t env n c (App_setupVariables n f a) w)) \<and>
    App_coinsSpent (cx_app (Node_runOldContract depth E pb t env n c (App_setupVariables n f a) w)) \<le> n"
proof -
  have K: "0 \<le> App_coinsSpent (fst st') \<and> App_coinsSpent (fst st') \<le> n"
    if "App_runContract (ne_serializers E) (ne_vmRun E (Node_createCallbacksForApp depth E pb h e) e)
          ivc c None False (App_setupVariables n f a, w) = (r, c', st')" for h e ivc r c' st'
  proof -
    have sb: "App_sandboxed (Node_createCallbacksForApp depth E pb h e)
        (ne_vmRun E (Node_createCallbacksForApp depth E pb h e) e)"
      using vm by (simp add: Node_sandboxed_def)
    have "App_budget (App_setupVariables n f a) (fst st')"
      using App_runContract_keeps(1) [OF sb Node_callbacks_ok [OF vm] _ _ _ that] f by simp
    with n show ?thesis by (intro App_budget_spent)
  qed
  show ?thesis
    using App_setup_spent [OF n, of f a] K
    by (auto simp: Node_runOldContract_def Let_def split: sum.splits prod.splits)
qed

text \<open>Whatever the contract does, it is charged between nothing and what is left after the size fee.\<close>

lemma Node_runContractTx_spent:
  assumes "Node_sandboxed E" and "fees_ok objFees" and "nFeeSize \<le> nMaxCoins"
    and run: "Node_runContractTx depth E pb t c nMaxCoins nFeeSize nFeeStorage objFees w = Inr x"
  shows "0 \<le> App_coinsSpent (cx_app x) \<and> App_coinsSpent (cx_app x) \<le> nMaxCoins - nFeeSize"
    and "isOk (cx_result x) \<Longrightarrow> Node_coinsUsed nFeeSize nFeeStorage (cx_app x) \<le> nMaxCoins"
proof -
  have n: "0 \<le> nMaxCoins - nFeeSize" using assms(3) by simp
  obtain sent where sent: "Transaction_getContractSentAmount t = Inr sent"
    using run by (auto simp: Node_runContractTx_def)
  let ?env = "\<lparr>en_contractTx = Transaction_getHash (ne_crypto E) t,
      en_callerAddress = Transaction_getTxSignerAddress (ne_crypto E) t,
      en_value = sent, en_contractAddr = None, en_balance = 0, en_block = ne_processedBlock E\<rparr>"
  let ?app = "App_setupVariables (nMaxCoins - nFeeSize) objFees App_initial"
  define y where "y = (case c of
        None \<Rightarrow> Node_createNewContract E t ?env (nMaxCoins - nFeeSize) ?app w
      | Some c \<Rightarrow> Node_runOldContract depth E pb t ?env (nMaxCoins - nFeeSize) c ?app w)"
  have x: "x = (if cx_result y = Inr () \<and> Node_coinsUsed nFeeSize nFeeStorage (cx_app y) > nMaxCoins
             then y\<lparr>cx_result := Inl (Error ''Not enough coins to run contract'')\<rparr> else y)"
    using run unfolding Node_runContractTx_def y_def sent bindR.simps Let_def by (rule sym [OF sum.inject(2) [THEN iffD1]])
  have "0 \<le> App_coinsSpent (cx_app y) \<and> App_coinsSpent (cx_app y) \<le> nMaxCoins - nFeeSize"
    unfolding y_def
    by (cases c) (simp_all only: option.case Node_createNewContract_spent [OF n assms(2)]
        Node_runOldContract_spent [OF assms(1) n assms(2)] simp_thms)
  then show "0 \<le> App_coinsSpent (cx_app x) \<and> App_coinsSpent (cx_app x) \<le> nMaxCoins - nFeeSize"
    by (simp add: x)
  show "isOk (cx_result x) \<Longrightarrow> Node_coinsUsed nFeeSize nFeeStorage (cx_app x) \<le> nMaxCoins"
    by (cases "cx_result y") (auto simp: x isOk_def split: if_splits)
qed

section \<open>Internal transactions, change and fee\<close>

lemma Node_createInternalTx_InrD:
  assumes "Node_createInternalTx E a n h p = (Inr u, p')"
  shows "0 < n \<and> isAddress a \<and> UTXO_wf u \<and> UTXO_abs u = [0 \<mapsto> Coins_new n a] \<and>
    utxo_txHash u = ne_createHash E (h @ show_nat (pt_nonce p)) \<and>
    p' = p\<lparr>pt_nonce := pt_nonce p + 1, pt_coins := jset (utxo_txHash u) u (pt_coins p)\<rparr>"
proof -
  from assms obtain u0 where D: "isAddress a" "0 < n" "UTXO_new (ne_createHash E (h @ show_nat (pt_nonce p))) = Inr u0"
    "UTXO_addCoins 0 (Coins_new n a) u0 = Inr u"
    "p' = PatchDB_setUtxo u (p\<lparr>pt_nonce := pt_nonce p + 1\<rparr>)"
    by (auto simp: Node_createInternalTx_def act_Inr PatchDB_getNonce_def Let_def typeforce_def
        split: if_splits)
  note W = UTXO_wf_new [OF D(3)]
  note A = UTXO_addCoins_InrD [OF D(4) conjunct1 [OF W]]
  with W D show ?thesis
    by (simp add: PatchDB_setUtxo_def UTXO_getTxHash_def)
qed

text \<open>What a successful \<open>send\<close> moves leaves the contract and reaches a new output of the receiver.\<close>

lemma Node_sendCoins_spec:
  assumes "Node_sendCoins E h a n c p = (Inr c', p')" and "n \<noteq> 0"
  shows "0 < n \<and> 0 \<le> Contract_getBalance c' \<and> Contract_getBalance c' = Contract_getBalance c - n \<and>
    (\<exists>u. UTXO_abs u = [0 \<mapsto> Coins_new n a] \<and> pt_coins p' = jset (utxo_txHash u) u (pt_coins p))"
proof -
  from assms obtain u p1 r old where D: "Node_createInternalTx E a n h p = (Inr u, p1)"
    "Node_setReceipt h r p1 = (Inr old, p')" "Contract_withdraw n c = Inr c'"
    by (auto simp: Node_sendCoins_def act_Inr throwS_def split: if_splits)
  have "pt_coins p' = pt_coins p1"
    using D(2) by (auto simp: Node_setReceipt_def PatchDB_setReceipt_def split: sum.splits prod.splits option.splits)
  with Node_createInternalTx_InrD [OF D(1)] D(3) show ?thesis
    by (auto simp: Contract_withdraw_def Contract_getBalance_def Contract_deposit_def split: if_splits)
qed

definition Node_hasChangeReceiver :: "tx \<Rightarrow> addr \<Rightarrow> bool" where
  "Node_hasChangeReceiver t a \<longleftrightarrow> a \<noteq> [] \<and> Transaction_getContractChangeReceiver t = Inr (Some a)"

lemma Node_createContractChange_InrD:
  assumes run: "Node_createContractChange E t n r p = (Inr (fee, r'), p')"
  shows "rc_coinsUsed r \<le> n \<and>
    (if \<exists>a. Node_hasChangeReceiver t a
     then fee = rc_coinsUsed r \<and>
       (if n = fee then p' = p
        else \<exists>a u. Node_hasChangeReceiver t a \<and> fee < n \<and> UTXO_abs u = [0 \<mapsto> Coins_new (n - fee) a] \<and>
          pt_coins p' = jset (utxo_txHash u) u (pt_coins p) \<and>
          pt_mapContractStates p' = pt_mapContractStates p)
     else fee = n - rc_coinsUsed r \<and> p' = p)"
proof -
  from run obtain rcv where n: "rc_coinsUsed r \<le> n" and rcv: "Transaction_getContractChangeReceiver t = Inr rcv"
    by (auto simp: Node_createContractChange_def TxReceipt_getCoinsUsed_def act_Inr Let_def)
  show ?thesis
  proof (cases "rcv = None \<or> rcv = Some []")
    case True
    then have "\<nexists>a. Node_hasChangeReceiver t a" using rcv by (auto simp: Node_hasChangeReceiver_def)
    with True rcv n run show ?thesis
      by (auto simp: Node_createContractChange_def TxReceipt_getCoinsUsed_def act_Inr Let_def)
  next
    case False
    then obtain a where a: "rcv = Some a" "a \<noteq> []" by (cases rcv) auto
    then have has: "Node_hasChangeReceiver t a" using rcv by (simp add: Node_hasChangeReceiver_def)
    show ?thesis
    proof (cases "n = rc_coinsUsed r")
      case True
      with a rcv run has show ?thesis
        by (auto simp: Node_createContractChange_def TxReceipt_getCoinsUsed_def act_Inr Let_def)
    next
      case False
      with a rcv run obtain u where u: "Node_createInternalTx E a (n - rc_coinsUsed r) (Transaction_getHash (ne_crypto E) t) p = (Inr u, p')"
        "fee = rc_coinsUsed r"
        by (auto simp: Node_createContractChange_def TxReceipt_getCoinsUsed_def act_Inr Let_def)
      note I = Node_createInternalTx_InrD [OF u(1)]
      then have "\<exists>a u. Node_hasChangeReceiver t a \<and> fee < n \<and> UTXO_abs u = [0 \<mapsto> Coins_new (n - fee) a] \<and>
          pt_coins p' = jset (utxo_txHash u) u (pt_coins p) \<and>
          pt_mapContractStates p' = pt_mapContractStates p"
        using has u(2) by (intro exI [of _ a] exI [of _ u]) simp
      with n has False u(2) show ?thesis by auto
    qed
  qed
qed

text \<open>The coins of the change receiver, of which there may be none.\<close>

definition Node_changeCoins :: "tx \<Rightarrow> receipt \<Rightarrow> int \<Rightarrow> int" where
  "Node_changeCoins t r n =
     (if (\<exists>a. Node_hasChangeReceiver t a) \<and> rc_coinsUsed r < n then n - rc_coinsUsed r else 0)"

lemma Node_takeFee_InrD:
  assumes "Node_takeFee E False t r b n p = (Inr fee, p')"
  shows "pt_mapContractStates p' = pt_mapContractStates p"
    and "(\<exists>a. Node_hasChangeReceiver t a) \<or> n < rc_coinsUsed r \<Longrightarrow> fee + Node_changeCoins t r n = n"
    and "\<nexists>a. Node_hasChangeReceiver t a \<Longrightarrow> rc_coinsUsed r \<le> n \<Longrightarrow> fee = n - rc_coinsUsed r"
    and "fee \<le> n \<or> rc_coinsUsed r < 0"
    and "if Node_changeCoins t r n = 0 then pt_coins p' = pt_coins p
      else \<exists>a u. Node_hasChangeReceiver t a \<and> UTXO_abs u = [0 \<mapsto> Coins_new (Node_changeCoins t r n) a] \<and>
        pt_coins p' = jset (utxo_txHash u) u (pt_coins p)"
proof -
  have "pt_mapContractStates p' = pt_mapContractStates p \<and>
    ((\<exists>a. Node_hasChangeReceiver t a) \<or> n < rc_coinsUsed r \<longrightarrow> fee + Node_changeCoins t r n = n) \<and>
    (\<not> (\<exists>a. Node_hasChangeReceiver t a) \<longrightarrow> rc_coinsUsed r \<le> n \<longrightarrow> fee = n - rc_coinsUsed r) \<and>
    (fee \<le> n \<or> rc_coinsUsed r < 0) \<and>
    (if Node_changeCoins t r n = 0 then pt_coins p' = pt_coins p
      else \<exists>a u. Node_hasChangeReceiver t a \<and> UTXO_abs u = [0 \<mapsto> Coins_new (Node_changeCoins t r n) a] \<and>
        pt_coins p' = jset (utxo_txHash u) u (pt_coins p))"
  proof (cases "rc_coinsUsed r > n")
    case True
    with assms show ?thesis
      by (simp add: Node_takeFee_def TxReceipt_getCoinsUsed_def Node_changeCoins_def)
  next
    case False
    with assms obtain r' p1 where c: "Node_createContractChange E t n r p = (Inr (fee, r'), p1)"
      and p': "pt_coins p' = pt_coins p1" "pt_mapContractStates p' = pt_mapContractStates p1"
      by (auto simp: Node_takeFee_def TxReceipt_getCoinsUsed_def split: prod.splits sum.splits if_splits)
    note D = Node_createContractChange_InrD [OF c]
    show ?thesis
    proof (cases "\<exists>a. Node_hasChangeReceiver t a")
      case True
      then show ?thesis
        using D p' False by (cases "n = fee") (auto simp: Node_changeCoins_def)
    next
      case nf: False
      then have "Node_changeCoins t r n = 0" by (simp add: Node_changeCoins_def)
      with nf D p' False show ?thesis by auto
    qed
  qed
  then show "pt_mapContractStates p' = pt_mapContractStates p"
    and "(\<exists>a. Node_hasChangeReceiver t a) \<or> n < rc_coinsUsed r \<Longrightarrow> fee + Node_changeCoins t r n = n"
    and "\<nexists>a. Node_hasChangeReceiver t a \<Longrightarrow> rc_coinsUsed r \<le> n \<Longrightarrow> fee = n - rc_coinsUsed r"
    and "fee \<le> n \<or> rc_coinsUsed r < 0"
    and "if Node_changeCoins t r n = 0 then pt_coins p' = pt_coins p
      else \<exists>a u. Node_hasChangeReceiver t a \<and> UTXO_abs u = [0 \<mapsto> Coins_new (Node_changeCoins t r n) a] \<and>
        pt_coins p' = jset (utxo_txHash u) u (pt_coins p)"
    by blast+
qed

section \<open>A contract transaction as a whole\<close>

lemma Node_processContract_InrD:
  assumes "Node_processContract depth E isGenesis c t p0 pb n nFeeSize s = (Inr (fee, p), s')"
  obtains c1 objFees nFeeStorage s1 x r old p1 nMax p2 sent where
    "Transaction_getContractSentAmount t = Inr sent"
    and "Node_runContractTx depth E pb t c1 n nFeeSize nFeeStorage objFees (p0, s1) = Inr x"
    and "Node_contractReceipt nFeeSize nFeeStorage x = Inr r"
    and "PatchDB_setReceipt (Transaction_getHash (ne_crypto E) t) r (cx_patch x) = Inr (old, p1)"
    and "Node_settleContract E t sent r (cx_contract x) n p1 = Inr (nMax, p2)"
    and "Node_takeFee E isGenesis t r (old = None) nMax p2 = (Inr fee, p)"
proof -
  from assms obtain c1 sent f1 s1 f2 s2 f3 s3 f4 s4 where "Transaction_getContractSentAmount t = Inr sent"
    and body: "(case Node_runContractTx depth E pb t c1 n nFeeSize f1
          \<lparr>nFeeContractCreation = f2, nFeeContractInvocation = f3, nFeeInternalTx = f4\<rparr> (p0, s4) of
           Inl e \<Rightarrow> (Inl e, s4)
         | Inr x \<Rightarrow>
             (bindR (Node_contractReceipt nFeeSize f1 x) (\<lambda>receipt.
              bindR (PatchDB_setReceipt (Transaction_getHash (ne_crypto E) t) receipt (cx_patch x)) (\<lambda>(old, p).
              bindR (Node_settleContract E t sent receipt (cx_contract x) n p) (\<lambda>(nMax, p1).
              case Node_takeFee E isGenesis t receipt (old = None) nMax p1 of
                (Inl e, _) \<Rightarrow> Inl e
              | (Inr fee, p2) \<Rightarrow> Inr (fee, p2)))), cx_storage x)) = (Inr (fee, p), s')"
    unfolding Node_processContract_def act_Inr Let_def by auto
  from body obtain x where x: "Node_runContractTx depth E pb t c1 n nFeeSize f1
          \<lparr>nFeeContractCreation = f2, nFeeContractInvocation = f3, nFeeInternalTx = f4\<rparr> (p0, s4) = Inr x"
    and "bindR (Node_contractReceipt nFeeSize f1 x) (\<lambda>receipt.
              bindR (PatchDB_setReceipt (Transaction_getHash (ne_crypto E) t) receipt (cx_patch x)) (\<lambda>(old, p).
              bindR (Node_settleContract E t sent receipt (cx_contract x) n p) (\<lambda>(nMax, p1).
              case Node_takeFee E isGenesis t receipt (old = None) nMax p1 of
                (Inl e, _) \<Rightarrow> Inl e
              | (Inr fee, p2) \<Rightarrow> Inr (fee, p2)))) = Inr (fee, p)"
    by (auto split: sum.splits)
  then obtain r q where r: "Node_contractReceipt nFeeSize f1 x = Inr r"
    "PatchDB_setReceipt (Transaction_getHash (ne_crypto E) t) r (cx_patch x) = Inr q"
    "(case q of (old, p) \<Rightarrow> bindR (Node_settleContract E t sent r (cx_contract x) n p) (\<lambda>(nMax, p1).
              case Node_takeFee E isGenesis t r (old = None) nMax p1 of
                (Inl e, _) \<Rightarrow> Inl e
              | (Inr fee, p2) \<Rightarrow> Inr (fee, p2))) = Inr (fee, p)"
    by auto
  obtain old p1 where q: "q = (old, p1)" by fastforce
  from r(3) obtain nMax p2 where st: "Node_settleContract E t sent r (cx_contract x) n p1 = Inr (nMax, p2)"
    and tk: "(case Node_takeFee E isGenesis t r (old = None) nMax p2 of
                (Inl e, _) \<Rightarrow> Inl e
              | (Inr fee, p2) \<Rightarrow> Inr (fee, p2)) = Inr (fee, p)"
    unfolding q by auto
  from tk have "Node_takeFee E isGenesis t r (old = None) nMax p2 = (Inr fee, p)"
    by (auto split: prod.splits sum.splits)
  with that [OF \<open>Transaction_getContractSentAmount t = Inr sent\<close> x r(1) r(2) [unfolded q] st] show ?thesis .
qed

lemma PatchDB_setContract_coins: "PatchDB_setContract S d q = Inr q' \<Longrightarrow> pt_coins q' = pt_coins q"
  by (auto simp: PatchDB_setContract_def split: option.splits)

lemma Node_storeContract_coins: "Node_storeContract S t sent d q = Inr q' \<Longrightarrow> pt_coins q' = pt_coins q"
  by (auto simp: Node_storeContract_def Let_def dest: PatchDB_setContract_coins split: if_splits)

lemma Node_settleContract_InrD:
  assumes "Node_settleContract E t sent r c n p = Inr (nMax, p')"
  shows "nMax = n \<or> \<not> TxReceipt_isSuccessful r \<and> 0 < sent \<and> nMax = n + sent"
    and "\<not> TxReceipt_isSuccessful r \<Longrightarrow> p' = p"
    and "pt_coins p' = pt_coins p"
  using assms
  by (auto simp: Node_settleContract_def dest: Node_storeContract_coins split: option.splits if_splits sum.splits)

text \<open>
  What a contract transaction spends is what its outputs get, what comes back as change and the fee;
  the value sent to the contract comes back when the call fails.
\<close>

lemma Node_contract_conserves:
  assumes s: "Storage_wf s" and pb: "\<And>q. pb = Some q \<Longrightarrow> PatchDB_wf q"
    and found: "Node_findContract E t pb s = Inr (True, c)"
    and run: "Node_processTx depth E pb False t s = (Inr (fee, p), s')"
    and rcv: "Node_hasChangeReceiver t a"
  shows "distinct (Transaction_keys t) \<and> (\<exists>r change refund. 0 \<le> change \<and>
    Node_totalIn pb s t = (Transaction_amountOut t - refund) + fee + change \<and>
    (refund = 0 \<or> \<not> TxReceipt_isSuccessful r \<and> 0 < refund \<and> Transaction_getContractSentAmount t = Inr refund) \<and>
    (fee = rc_coinsUsed r \<or> change = 0) \<and>
    (0 < change \<longrightarrow> (\<exists>a u. Node_hasChangeReceiver t a \<and> UTXO_abs u = [0 \<mapsto> Coins_new change a] \<and>
       jget (pt_coins p) (utxo_txHash u) = Some u)))"
proof -
  obtain isC c' m q totalHas nFeeSize s1 paid totalSent sent where
    D: "Node_findContract E t pb s = Inr (isC, c')"
    "Node_inputsPatch (ne_serializers E) pb (Transaction_utxos t) s = Inr m"
    "App_processTxInputs (ne_crypto E) t (Some m) = Inr (q, totalHas)"
    "App_processPayments (ne_crypto E) t q (if isC then 1 else 0) = Inr (paid, totalSent)"
    "(if isC then Transaction_getContractSentAmount t else Inr 0) = Inr sent"
    "if isC then Node_processContract depth E False c' t paid
            (case pb of Some q \<Rightarrow> q | None \<Rightarrow> PatchDB_empty) (totalHas - totalSent - sent) nFeeSize s1 =
            (Inr (fee, p), s')
         else fee = totalHas - totalSent - sent \<and> p = paid \<and> s' = s1"
    by (rule Node_processTx_InrD [OF run]) (rule that)
  from found D(1) have isC: "isC" by simp
  note A = Node_processInputs [OF s pb D(2,3)]
  have sent: "Transaction_getContractSentAmount t = Inr sent" using D(5) isC by simp
  then obtain out outs where outs: "Transaction_outputs t = out # outs" "sent = out_amount out"
    by (auto simp: Transaction_getContractSentAmount_def Transaction_getContractOutput_def split: list.splits)
  have out: "totalSent + sent = Transaction_amountOut t"
    using App_processPayments_total [OF D(4)] isC outs by (simp add: Transaction_amountOut_sum)
  let ?n = "totalHas - totalSent - sent"
  have pc: "Node_processContract depth E False c' t paid
      (case pb of Some q \<Rightarrow> q | None \<Rightarrow> PatchDB_empty) ?n nFeeSize s1 = (Inr (fee, p), s')"
    using D(6) isC by simp
  obtain r xc p1 nMax p2 sent' and old :: "receipt option" where
    "Transaction_getContractSentAmount t = Inr sent'"
    and st': "Node_settleContract E t sent' r xc ?n p1 = Inr (nMax, p2)"
    and tk: "Node_takeFee E False t r (old = None) nMax p2 = (Inr fee, p)"
    by (rule Node_processContract_InrD [OF pc]) (rule that)
  with sent have st: "Node_settleContract E t sent r xc ?n p1 = Inr (nMax, p2)" by simp
  let ?refund = "nMax - ?n"
  have total: "fee + Node_changeCoins t r nMax = nMax"
    using Node_takeFee_InrD(2) [OF tk] rcv by blast
  have "0 \<le> Node_changeCoins t r nMax" by (simp add: Node_changeCoins_def)
  moreover have "Node_totalIn pb s t = (Transaction_amountOut t - ?refund) + fee + Node_changeCoins t r nMax"
    using A(3) total out by simp
  moreover have "?refund = 0 \<or> \<not> TxReceipt_isSuccessful r \<and> 0 < ?refund \<and>
      Transaction_getContractSentAmount t = Inr ?refund"
    using Node_settleContract_InrD(1) [OF st] sent by auto
  moreover have "fee = rc_coinsUsed r \<or> Node_changeCoins t r nMax = 0"
    using total by (auto simp: Node_changeCoins_def split: if_splits)
  moreover have "0 < Node_changeCoins t r nMax \<longrightarrow> (\<exists>a u. Node_hasChangeReceiver t a \<and>
      UTXO_abs u = [0 \<mapsto> Coins_new (Node_changeCoins t r nMax) a] \<and> jget (pt_coins p) (utxo_txHash u) = Some u)"
  proof
    assume "0 < Node_changeCoins t r nMax"
    then have "\<exists>a u. Node_hasChangeReceiver t a \<and> UTXO_abs u = [0 \<mapsto> Coins_new (Node_changeCoins t r nMax) a] \<and>
        pt_coins p = jset (utxo_txHash u) u (pt_coins p2)"
      using Node_takeFee_InrD(5) [OF tk] by simp
    then show "\<exists>a u. Node_hasChangeReceiver t a \<and>
      UTXO_abs u = [0 \<mapsto> Coins_new (Node_changeCoins t r nMax) a] \<and> jget (pt_coins p) (utxo_txHash u) = Some u"
      by (metis jget_jset)
  qed
  ultimately show ?thesis using A(1) by blast
qed

end
