(* ===== verification/Cil_Wallet.thy ===== *)
theory Cil_Wallet
  imports Cil_Storage "HOL-Library.List_Lexorder"
begin

text \<open>
  The parts of \<open>src/storage/persistentStorage.js\<close> that an option turns on. The wallet watches
  addresses: beside the outputs it keeps records that say which transactions pay to a watched address.
  They are written when a patch is applied, before the outputs, and cleaned up when they are read.
  The transaction index finds the block of a transaction and the transaction an internal one comes
  from. The wallet's store is a key-value map of its own: a record's key is the address followed
  by a counter in decimal, and a stream reads keys in the order of their bytes.
\<close>

section \<open>State\<close>

type_synonym wallet_key = "addr \<times> string"

text \<open>
  \<open>wl_addresses\<close> and \<open>wl_autoincrement\<close> are the copies in memory (\<open>None\<close> before they are read), \<open>wl_db...\<close>
  what the store holds under \<open>WALLETS\<close> and \<open>WALLET_AUTO_INC\<close>; \<open>wl_keystores\<close> are the files of the
  accounts, \<open>wl_accounts\<close> the names of the files of each account as last read.
\<close>

record wallet_db =
  wl_support :: bool
  wl_addresses :: "addr list option"
  wl_autoincrement :: nat
  wl_dbAddresses :: "addr list option"
  wl_dbAutoincrement :: "nat option"
  wl_records :: "(wallet_key, hash) jsmap"
  wl_accounts :: "(string, addr list) jsmap"
  wl_keystores :: "(string, (addr, string) jsmap) jsmap"

record tx_index =
  ti_enabled :: bool
  ti_blocks :: "(hash, hash) jsmap"
  ti_internal :: "(hash, hash) jsmap"

text \<open>The whole store: the chain state, the wallet, the index, and the hashes of the banned blocks.\<close>

record 'd full_storage =
  fs_main :: "'d storage"
  fs_wallet :: wallet_db
  fs_index :: tx_index
  fs_setBlocksBad :: "hash list"

definition onMain :: "('x, 'd storage) act \<Rightarrow> ('x, 'd full_storage) act" where
  "onMain = zoomS fs_main (\<lambda>x s. s\<lparr>fs_main := x\<rparr>)"

definition onWallet :: "('x, wallet_db) act \<Rightarrow> ('x, 'd full_storage) act" where
  "onWallet = zoomS fs_wallet (\<lambda>x s. s\<lparr>fs_wallet := x\<rparr>)"

section \<open>The wallet\<close>

text \<open>\<open>_readAccount\<close> lists the files of an account, \<open>_initAccounts\<close> those of all.\<close>

definition Storage_readAccount :: "string \<Rightarrow> wallet_db \<Rightarrow> wallet_db" where
  "Storage_readAccount strAccountName w =
     w\<lparr>wl_accounts := jset strAccountName
        (case jget (wl_keystores w) strAccountName of None \<Rightarrow> [] | Some files \<Rightarrow> jkeys files) (wl_accounts w)\<rparr>"

definition Storage_initAccounts :: "wallet_db \<Rightarrow> wallet_db" where
  "Storage_initAccounts w = fold Storage_readAccount (jkeys (wl_keystores w)) (w\<lparr>wl_accounts := []\<rparr>)"

definition Storage_ensureWalletInitialized :: "(unit, wallet_db) act" where
  "Storage_ensureWalletInitialized w =
     (if \<not> wl_support w then (Inl (Thrown ''Wallet support is disabled''), w)
      else if wl_addresses w \<noteq> None then (Inr (), w)
      else (Inr (), Storage_initAccounts
             (w\<lparr>wl_addresses := Some (case wl_dbAddresses w of None \<Rightarrow> [] | Some as \<Rightarrow> as),
                wl_autoincrement := (case wl_dbAutoincrement w of None \<Rightarrow> 0 | Some n \<Rightarrow> n)\<rparr>)))"

definition Storage_getWalletsAddresses :: "(addr list, wallet_db) act" where
  "Storage_getWalletsAddresses =
     bindS Storage_ensureWalletInitialized (\<lambda>_. getsS (\<lambda>w. the (wl_addresses w)))"

text \<open>A stream of the records of one address, in the order of the keys.\<close>

definition keyOrder :: "string \<Rightarrow> nat list" where
  "keyOrder s = map of_char s"

definition Storage_walletReadAddressRecords :: "addr \<Rightarrow> wallet_db \<Rightarrow> (wallet_key \<times> hash) list res" where
  "Storage_walletReadAddressRecords strAddress w =
     bindR (typeforce (isAddress strAddress)) (\<lambda>_.
     Inr (sort_key (\<lambda>(key, _). keyOrder (snd key)) (filter (\<lambda>(key, _). fst key = strAddress) (wl_records w))))"

text \<open>A batch of new records; the counter runs on even when the batch is not written.\<close>

definition Storage_walletRecord :: "hash \<times> addr \<Rightarrow> nat \<times> (wallet_key, hash) jsmap \<Rightarrow> nat \<times> (wallet_key, hash) jsmap" where
  "Storage_walletRecord e acc =
     (case e of (strHash, strAddress) \<Rightarrow> case acc of (n, records) \<Rightarrow>
      (Suc n, jset (strAddress, show_nat (Suc n)) strHash records))"

definition Storage_walletWriteNewUtxosBatch :: "(hash \<times> addr) list \<Rightarrow> (unit, wallet_db) act" where
  "Storage_walletWriteNewUtxosBatch arrAddrHash =
     bindS Storage_ensureWalletInitialized (\<lambda>_. modifyS (\<lambda>w.
     case fold Storage_walletRecord arrAddrHash (wl_autoincrement w, wl_records w) of (n, records) \<Rightarrow>
       w\<lparr>wl_autoincrement := n, wl_dbAutoincrement := Some n, wl_records := records\<rparr>))"

definition Storage_walletCleanupMissed :: "wallet_key list \<Rightarrow> wallet_db \<Rightarrow> wallet_db" where
  "Storage_walletCleanupMissed arrBadKeys w = w\<lparr>wl_records := fold jdelete arrBadKeys (wl_records w)\<rparr>"

text \<open>Which watched addresses the outputs of a UTXO pay to.\<close>

definition Storage_walletMatches :: "addr list \<Rightarrow> utxo \<Rightarrow> (hash \<times> addr) list res" where
  "Storage_walletMatches addresses u =
     foldR (\<lambda>strAddress acc. bindR (UTXO_getOutputsForAddress u strAddress) (\<lambda>arrResult.
        Inr (if arrResult \<noteq> [] then acc @ [(UTXO_getTxHash u, strAddress)] else acc))) addresses []"

definition Storage_walletCheckUtxos :: "(hash \<times> utxo) list \<Rightarrow> (unit, wallet_db) act" where
  "Storage_walletCheckUtxos arrCoins =
     bindS Storage_ensureWalletInitialized (\<lambda>_.
     bindS (getsS (\<lambda>w. the (wl_addresses w))) (\<lambda>addresses.
     bindS (liftS (foldR (\<lambda>(_, u) acc. bindR (UTXO_isEmpty u) (\<lambda>empty.
              if empty then Inr acc
              else bindR (Storage_walletMatches addresses u) (\<lambda>m. Inr (acc @ m)))) arrCoins [])) (\<lambda>arrAddrHash.
     Storage_walletWriteNewUtxosBatch arrAddrHash)))"

definition Storage_walletFlushAddresses :: "wallet_db \<Rightarrow> wallet_db" where
  "Storage_walletFlushAddresses w = w\<lparr>wl_dbAddresses := wl_addresses w\<rparr>"

definition Storage_walletWatchAddress :: "addr \<Rightarrow> (unit, wallet_db) act" where
  "Storage_walletWatchAddress address =
     bindS (liftS (typeforce (isAddress address))) (\<lambda>_.
     bindS Storage_ensureWalletInitialized (\<lambda>_.
     bindS (getsS (\<lambda>w. the (wl_addresses w))) (\<lambda>addresses.
     bindS (liftS (assertR (address \<notin> set addresses) (AssertionError ''Address already in wallet''))) (\<lambda>_.
     modifyS (\<lambda>w. Storage_walletFlushAddresses (w\<lparr>wl_addresses := Some (addresses @ [address])\<rparr>))))))"

text \<open>
  A record is good when it is the first for its transaction, the transaction still has unspent
  outputs and one of them pays to the address; the keys of the others are removed.
\<close>

definition Storage_walletCheckRecord ::
    "'d storage \<Rightarrow> addr \<Rightarrow> wallet_key \<times> hash \<Rightarrow> hash list \<times> utxo list \<times> wallet_key list \<Rightarrow>
     hash list \<times> utxo list \<times> wallet_key list" where
  "Storage_walletCheckRecord st strAddress record acc =
     (case record of (key, hash) \<Rightarrow> case acc of (setHashes, arrResult, arrKeysToCleanup) \<Rightarrow>
      if hash \<in> set setHashes then (setHashes, arrResult, arrKeysToCleanup @ [key])
      else (case bindR (Storage_getUtxo hash st) (\<lambda>u.
                 bindR (UTXO_filterOutputsForAddress u strAddress) (\<lambda>utxoFiltered.
                 bindR (UTXO_isEmpty utxoFiltered) (\<lambda>empty.
                 if empty then Inl (Thrown ''empty. marked for cleanup'') else Inr utxoFiltered))) of
              Inl _ \<Rightarrow> (sadd hash setHashes, arrResult, arrKeysToCleanup @ [key])
            | Inr u \<Rightarrow> (sadd hash setHashes, arrResult @ [u], arrKeysToCleanup)))"

definition Storage_walletListUnspent :: "addr \<Rightarrow> (utxo list, 'd full_storage) act" where
  "Storage_walletListUnspent strAddress =
     bindS (onWallet Storage_ensureWalletInitialized) (\<lambda>_.
     bindS (liftS (typeforce (isAddress strAddress))) (\<lambda>_.
     bindS (getsS (\<lambda>s. the (wl_addresses (fs_wallet s)))) (\<lambda>addresses.
     bindS (liftS (assertR (strAddress \<in> set addresses) (AssertionError ''Address not in wallet!''))) (\<lambda>_.
     bindS (\<lambda>s. (Storage_walletReadAddressRecords strAddress (fs_wallet s), s)) (\<lambda>arrAddrRecords.
     bindS (getsS (\<lambda>s. fold (Storage_walletCheckRecord (fs_main s) strAddress) arrAddrRecords ([], [], [])))
       (\<lambda>(_, arrResult, arrKeysToCleanup).
     bindS (onWallet (modifyS (Storage_walletCleanupMissed arrKeysToCleanup))) (\<lambda>_.
     returnS arrResult)))))))"

text \<open>
  The wallet's store is erased and built again from all outputs, in the order of their keys. The
  reader of the stream ignores a UTXO it cannot read.
\<close>

definition Storage_walletReIndex :: "(unit, 'd full_storage) act" where
  "Storage_walletReIndex =
     bindS (onWallet (modifyS (\<lambda>w. w\<lparr>wl_support := True\<rparr>))) (\<lambda>_.
     bindS (onWallet Storage_ensureWalletInitialized) (\<lambda>_.
     bindS (onWallet (modifyS (\<lambda>w. Storage_walletFlushAddresses
              (w\<lparr>wl_records := [], wl_dbAddresses := None, wl_dbAutoincrement := None\<rparr>)))) (\<lambda>_.
     bindS (getsS (\<lambda>s. concat (map (\<lambda>(_, u).
              case Storage_walletMatches (the (wl_addresses (fs_wallet s))) u of Inl _ \<Rightarrow> [] | Inr m \<Rightarrow> m)
              (sort_key (\<lambda>(h, _). keyOrder h) (sg_utxos (fs_main s)))))) (\<lambda>arrRecords.
     onWallet (Storage_walletWriteNewUtxosBatch arrRecords)))))"

definition Storage_countWallets :: "'d storage \<Rightarrow> nat" where
  "Storage_countWallets st =
     length (fold (\<lambda>(_, u) setAddresses. fold sadd (UTXO_getReceivers u) setAddresses) (sg_utxos st) [])"

section \<open>Accounts\<close>

definition Storage_hasAccount :: "string \<Rightarrow> (bool, wallet_db) act" where
  "Storage_hasAccount strAccountName =
     bindS Storage_ensureWalletInitialized (\<lambda>_. getsS (\<lambda>w. jhas (wl_accounts w) strAccountName))"

definition Storage_getAccountAddresses :: "string \<Rightarrow> (addr list option, wallet_db) act" where
  "Storage_getAccountAddresses strAccountName =
     bindS Storage_ensureWalletInitialized (\<lambda>_. getsS (\<lambda>w. jget (wl_accounts w) strAccountName))"

text \<open>\<open>mkdir\<close> fails when the directory exists.\<close>

definition Storage_createAccount :: "string \<Rightarrow> (unit, wallet_db) act" where
  "Storage_createAccount strAccountName w =
     (if jhas (wl_keystores w) strAccountName then (Inl (Error ''EEXIST: file already exists''), w)
      else (Inr (), w\<lparr>wl_keystores := jset strAccountName [] (wl_keystores w),
                     wl_accounts := jset strAccountName [] (wl_accounts w)\<rparr>))"

definition Storage_writeKeystore :: "addr \<Rightarrow> string \<Rightarrow> string \<Rightarrow> (unit, wallet_db) act" where
  "Storage_writeKeystore strAddress strAccountName strKeyStoreContent w =
     (case jget (wl_keystores w) strAccountName of
        None \<Rightarrow> (Inl (Error ''ENOENT: no such file or directory''), w)
      | Some files \<Rightarrow>
          (Inr (), Storage_readAccount strAccountName
             (w\<lparr>wl_keystores := jset strAccountName (jset strAddress strKeyStoreContent files) (wl_keystores w)\<rparr>)))"

definition Storage_getKeystoresForAccount :: "string \<Rightarrow> ((addr, string) jsmap, wallet_db) act" where
  "Storage_getKeystoresForAccount strAccountName =
     bindS (Storage_getAccountAddresses strAccountName) (\<lambda>addresses.
     case addresses of
       None \<Rightarrow> throwS (TypeError ''undefined is not iterable'')
     | Some as \<Rightarrow>
         foldS (\<lambda>strAddress mapResult w.
           (case Option.bind (jget (wl_keystores w) strAccountName) (\<lambda>files. jget files strAddress) of
              None \<Rightarrow> (Inl (Error ''ENOENT: no such file or directory''), w)
            | Some content \<Rightarrow> (Inr (jset strAddress content mapResult), w))) as [])"

section \<open>The transaction index\<close>

definition Storage_storeTxnsIndex :: "hash \<Rightarrow> hash list \<Rightarrow> tx_index \<Rightarrow> tx_index" where
  "Storage_storeTxnsIndex blockHash arrTxnsHashes i =
     i\<lparr>ti_blocks := fold (\<lambda>strTxHash. jset strTxHash blockHash) arrTxnsHashes (ti_blocks i)\<rparr>"

definition Storage_storeInternalTxnsIndex :: "hash \<Rightarrow> hash list \<Rightarrow> tx_index \<Rightarrow> tx_index" where
  "Storage_storeInternalTxnsIndex sourceTxHash arrInternalTxnsHashes i =
     i\<lparr>ti_internal := fold (\<lambda>h. jset h sourceTxHash) arrInternalTxnsHashes (ti_internal i)\<rparr>"

definition Storage_getTxBlock :: "hash \<Rightarrow> tx_index \<Rightarrow> hash option res" where
  "Storage_getTxBlock txHash i =
     bindR (typeforce (isHash256 txHash)) (\<lambda>_.
     if \<not> ti_enabled i then Inl (Error ''TxIndex disabled for this node'') else Inr (jget (ti_blocks i) txHash))"

definition Storage_findInternalTx :: "hash \<Rightarrow> tx_index \<Rightarrow> hash option res" where
  "Storage_findInternalTx strTxHash i =
     bindR (typeforce (isHash256 strTxHash)) (\<lambda>_.
     if \<not> ti_enabled i then Inl (Error ''TxIndex disabled for this node'') else Inr (jget (ti_internal i) strTxHash))"

definition Storage_findBlockByTxHash :: "hash \<Rightarrow> 'd full_storage \<Rightarrow> block option res" where
  "Storage_findBlockByTxHash strTxHash s =
     bindR (Storage_getTxBlock strTxHash (fs_index s)) (\<lambda>blockHash.
     Inr (case blockHash of
            None \<Rightarrow> None
          | Some h \<Rightarrow> (case Storage_getBlock h (fs_main s) of Inl _ \<Rightarrow> None | Inr b \<Rightarrow> Some b)))"

section \<open>Writing with the options on\<close>

text \<open>\<open>saveBlock\<close> with the index: the block and its info are written first.\<close>

definition Storage_saveBlockFull ::
    "crypto \<Rightarrow> block_crypto \<Rightarrow> hash \<Rightarrow> block \<Rightarrow> blockInfo option \<Rightarrow> (unit, 'd full_storage) act" where
  "Storage_saveBlockFull C B h b blockInfo =
     bindS (onMain (Storage_saveBlock B h b blockInfo)) (\<lambda>_.
     modifyS (\<lambda>s. if ti_enabled (fs_index s)
                  then s\<lparr>fs_index := Storage_storeTxnsIndex h (Block_getTxHashes C b) (fs_index s)\<rparr> else s))"

text \<open>
  \<open>applyPatch\<close> with the wallet and the index. The records of the wallet and the internal transactions
  are written as they are met; the batch with outputs, contracts and receipts comes last.
\<close>

definition Storage_applyPatchFull :: "'d serializers \<Rightarrow> 'd patch \<Rightarrow> nat \<Rightarrow> (unit, 'd full_storage) act" where
  "Storage_applyPatchFull S statePatch nHeightMax =
     bindS (liftS (Storage_utxoOps statePatch)) (\<lambda>utxoOps.
     bindS (\<lambda>s. if wl_support (fs_wallet s)
                then onWallet (Storage_walletCheckUtxos (PatchDB_getCoins statePatch)) s else (Inr (), s)) (\<lambda>_.
     bindS (onMain (Storage_contractOps S nHeightMax (PatchDB_getContracts statePatch))) (\<lambda>contractOps.
     bindS (modifyS (\<lambda>s. if ti_enabled (fs_index s)
         then s\<lparr>fs_index := fold (\<lambda>(strTxHash, receipt). Storage_storeInternalTxnsIndex strTxHash
                  (TxReceipt_getInternalTxns receipt)) (PatchDB_getReceipts statePatch) (fs_index s)\<rparr>
         else s)) (\<lambda>_.
     onMain (modifyS (\<lambda>st. st\<lparr>
       sg_utxos := fold applyOp utxoOps (sg_utxos st),
       sg_contracts := fold applyOp contractOps (sg_contracts st),
       sg_receipts := fold (\<lambda>(h, r). jset h r) (PatchDB_getReceipts statePatch) (sg_receipts st)\<rparr>))))))"

definition Storage_isBlockBanned :: "hash \<Rightarrow> 'd full_storage \<Rightarrow> bool" where
  "Storage_isBlockBanned hash s \<longleftrightarrow> hash \<in> set (fs_setBlocksBad s)"

text \<open>The file with the banned blocks: \<open>None\<close> when it is missing or cannot be parsed.\<close>

definition Storage_loadBannedBlocks :: "hash list option \<Rightarrow> 'd full_storage \<Rightarrow> 'd full_storage" where
  "Storage_loadBannedBlocks content s =
     (case content of None \<Rightarrow> s | Some hashes \<Rightarrow> s\<lparr>fs_setBlocksBad := fold sadd hashes (fs_setBlocksBad s)\<rparr>)"

end
