(* ===== verification/Cil_Pending.thy ===== *)
theory Cil_Pending
  imports Cil_Block Cil_Patch_Laws Cil_Utils "HOL-Library.Product_Lexorder"
begin

text \<open>
  The blocks that are executed but not yet final (\<open>node/pendingBlocksManager.js\<close>) and the graph of
  all block headers (\<open>node/mainDag.js\<close>). Both keep their blocks in a directed graph of the package
  \<open>dagjs\<close>, whose edges go from a block to its parents; the graph is the parameter \<open>'g\<close> with the
  operations of the record \<open>dag_ops\<close>, and \<open>dag_ok\<close> states what the code relies on: a vertex that is
  removed is gone, an object that is saved is read back, the tips and the paths lie in the graph.
  The mutex \<open>pbm\<close> makes each section that it guards one step.
\<close>

section \<open>The graph\<close>

record ('g, 'o) dag_ops =
  dg_empty :: 'g
  dg_addVertex :: "hash \<Rightarrow> 'g \<Rightarrow> 'g"
  dg_add :: "hash \<Rightarrow> hash \<Rightarrow> 'g \<Rightarrow> 'g"
  dg_saveObj :: "hash \<Rightarrow> 'o \<Rightarrow> 'g \<Rightarrow> 'g"
  dg_readObj :: "'g \<Rightarrow> hash \<Rightarrow> 'o option"
  dg_hasVertex :: "'g \<Rightarrow> hash \<Rightarrow> bool"
  dg_removeVertex :: "hash \<Rightarrow> 'g \<Rightarrow> 'g"
  dg_V :: "'g \<Rightarrow> hash list"
  dg_tips :: "'g \<Rightarrow> hash list"
  dg_edgesToTips :: "'g \<Rightarrow> hash \<Rightarrow> hash list"
  dg_findPathsDown :: "'g \<Rightarrow> hash \<Rightarrow> hash list list"
  dg_longestPathLength :: "hash list list \<Rightarrow> int"
  dg_vertices :: "hash list list \<Rightarrow> hash list"

definition dag_ok :: "('g, 'o) dag_ops \<Rightarrow> bool" where
  "dag_ok D \<longleftrightarrow>
     set (dg_V D (dg_empty D)) = {} \<and> (\<forall>v. dg_readObj D (dg_empty D) v = None) \<and>
     (\<forall>g v. dg_hasVertex D g v \<longleftrightarrow> v \<in> set (dg_V D g)) \<and>
     (\<forall>g v. set (dg_V D (dg_addVertex D v g)) = insert v (set (dg_V D g))) \<and>
     (\<forall>g u v. set (dg_V D (dg_add D u v g)) = {u, v} \<union> set (dg_V D g)) \<and>
     (\<forall>g v x. set (dg_V D (dg_saveObj D v x g)) = set (dg_V D g)) \<and>
     (\<forall>g v. set (dg_V D (dg_removeVertex D v g)) = set (dg_V D g) - {v}) \<and>
     (\<forall>g u v x. dg_readObj D (dg_saveObj D v x g) u = (if u = v then Some x else dg_readObj D g u)) \<and>
     (\<forall>g u v. dg_readObj D (dg_add D u v g) = dg_readObj D g) \<and>
     (\<forall>g v. dg_readObj D (dg_addVertex D v g) = dg_readObj D g) \<and>
     (\<forall>g u v. u \<noteq> v \<longrightarrow> dg_readObj D (dg_removeVertex D v g) u = dg_readObj D g u) \<and>
     (\<forall>g. set (dg_tips D g) \<subseteq> set (dg_V D g)) \<and>
     (\<forall>g v. v \<in> set (dg_V D g) \<longrightarrow> v \<in> set (dg_vertices D (dg_findPathsDown D g v))) \<and>
     (\<forall>ps. set (dg_vertices D ps) = \<Union> (set ` set ps))"

section \<open>State\<close>

record 'd pending_obj =
  po_patch :: "'d patch"
  po_blockHeader :: block_header
  po_bIsEmpty :: bool

record 'g pending =
  pm_dag :: 'g
  pm_topStable :: "hash list option"

type_synonym ('g, 'd) pdag = "('g, 'd pending_obj) dag_ops"

definition undefinedRead :: js_error where
  "undefinedRead = TypeError ''Cannot destructure property of undefined''"

text \<open>Reading the fields of an object that may be \<open>undefined\<close>.\<close>

definition readObjR :: "('g, 'o) dag_ops \<Rightarrow> 'g \<Rightarrow> hash \<Rightarrow> 'o res" where
  "readObjR D g v = (case dg_readObj D g v of Some x \<Rightarrow> Inr x | None \<Rightarrow> Inl undefinedRead)"

text \<open>\<open>find\<close> with a callback that may throw.\<close>

fun findM :: "('a \<Rightarrow> bool res) \<Rightarrow> 'a list \<Rightarrow> 'a option res" where
  "findM P [] = Inr None"
| "findM P (x # xs) = bindR (P x) (\<lambda>b. if b then Inr (Some x) else findM P xs)"

definition majority :: "nat \<Rightarrow> nat" where
  "majority nConcilium = nConcilium div 2 + 1"

definition Pending_new :: "('g, 'd) pdag \<Rightarrow> hash list option \<Rightarrow> 'g pending" where
  "Pending_new D arrTopStable = \<lparr>pm_dag = dg_empty D, pm_topStable = arrTopStable\<rparr>"

definition Pending_hasBlock :: "('g, 'd) pdag \<Rightarrow> hash \<Rightarrow> 'g pending \<Rightarrow> bool res" where
  "Pending_hasBlock D h s = bindR (typeforce (isHash256 h)) (\<lambda>_. Inr (dg_hasVertex D (pm_dag s) h))"

text \<open>The hash of the block is cached by the block itself; \<open>h\<close> is its value.\<close>

definition Pending_addBlock ::
  "('g, 'd) pdag \<Rightarrow> hash \<Rightarrow> block \<Rightarrow> 'd patch \<Rightarrow> 'g pending \<Rightarrow> 'g pending" where
  "Pending_addBlock D h b patchState s =
     (let g = dg_addVertex D h (pm_dag s);
          g = fold (\<lambda>strHash g. if dg_hasVertex D g strHash then dg_add D h strHash g else g)
                (Block_parentHashes b) g;
          g = dg_saveObj D h \<lparr>po_patch = patchState, po_blockHeader = bl_header b,
                po_bIsEmpty = Block_isEmpty b\<rparr> g
      in s\<lparr>pm_dag := g\<rparr>)"

definition Pending_getTips :: "('g, 'd) pdag \<Rightarrow> 'g pending \<Rightarrow> hash list" where
  "Pending_getTips D s = dg_tips D (pm_dag s)"

definition Pending_getChildren :: "('g, 'd) pdag \<Rightarrow> hash \<Rightarrow> 'g pending \<Rightarrow> hash list res" where
  "Pending_getChildren D h s = bindR (typeforce (isHash256 h)) (\<lambda>_. Inr (dg_edgesToTips D (pm_dag s) h))"

definition Pending_getBlock :: "('g, 'd) pdag \<Rightarrow> hash \<Rightarrow> 'g pending \<Rightarrow> 'd pending_obj option res" where
  "Pending_getBlock D h s = bindR (typeforce (isHash256 h)) (\<lambda>_. Inr (dg_readObj D (pm_dag s) h))"

definition Pending_getAllHashes :: "('g, 'd) pdag \<Rightarrow> 'g pending \<Rightarrow> hash list" where
  "Pending_getAllHashes D s = dg_V D (pm_dag s)"

definition Pending_removeBlock :: "('g, 'd) pdag \<Rightarrow> hash \<Rightarrow> 'g pending \<Rightarrow> 'g pending res" where
  "Pending_removeBlock D h s =
     bindR (typeforce (isHash256 h)) (\<lambda>_. Inr (s\<lparr>pm_dag := dg_removeVertex D h (pm_dag s)\<rparr>))"

section \<open>Witnesses below a block\<close>

text \<open>The conciliums of the blocks of a path, each once; a vertex without an object adds none.\<close>

definition Pending_pathConciliums :: "('g, 'd) pdag \<Rightarrow> 'g \<Rightarrow> hash list \<Rightarrow> nat list" where
  "Pending_pathConciliums D g path =
     fold (\<lambda>vertex ids. case dg_readObj D g vertex of
         None \<Rightarrow> ids
       | Some x \<Rightarrow> sadd (hd_conciliumId (po_blockHeader x)) ids) path []"

definition Pending_getVertexWitnessBelow :: "('g, 'd) pdag \<Rightarrow> hash \<Rightarrow> 'g pending \<Rightarrow> int res" where
  "Pending_getVertexWitnessBelow D vertex s =
     bindR (typeforce (isHash256 vertex)) (\<lambda>_.
     Inr (fold (\<lambda>path maxNum.
         let size = int (length (Pending_pathConciliums D (pm_dag s) path))
         in if maxNum > size then maxNum else size) (dg_findPathsDown D (pm_dag s) vertex) 0))"

fun Pending_findTopStableForPath ::
  "('g, 'd) pdag \<Rightarrow> 'g \<Rightarrow> nat \<Rightarrow> nat list \<Rightarrow> hash list \<Rightarrow> hash option" where
  "Pending_findTopStableForPath D g nMajority setConciliumIds [] = None"
| "Pending_findTopStableForPath D g nMajority setConciliumIds (vertex # path) =
     (case dg_readObj D g vertex of
        None \<Rightarrow> Pending_findTopStableForPath D g nMajority setConciliumIds path
      | Some x \<Rightarrow>
          (let ids = sadd (hd_conciliumId (po_blockHeader x)) setConciliumIds
           in if length ids \<ge> nMajority then Some vertex
              else Pending_findTopStableForPath D g nMajority ids path))"

definition Pending_findTopStable :: "('g, 'd) pdag \<Rightarrow> hash \<Rightarrow> nat \<Rightarrow> 'g pending \<Rightarrow> hash list res" where
  "Pending_findTopStable D newVertex nMajority s =
     bindR (typeforce (isHash256 newVertex)) (\<lambda>_.
     Inr (List.map_filter (Pending_findTopStableForPath D (pm_dag s) nMajority [])
            (dg_findPathsDown D (pm_dag s) newVertex)))"

definition Pending_findAlsoStable :: "('g, 'd) pdag \<Rightarrow> hash list \<Rightarrow> 'g pending \<Rightarrow> hash list" where
  "Pending_findAlsoStable D arrTopStable s =
     fold (\<lambda>vertexTopStable st.
         mergeSets st (sof (dg_vertices D (dg_findPathsDown D (pm_dag s) vertexTopStable))))
       arrTopStable []"

section \<open>Merging the patches of parents\<close>

text \<open>
  The loop of \<open>mergePatches\<close>: its state is the patch merged so far and, when the caller passed an
  array (\<open>Some\<close>), the hashes merged successfully; without the array the first conflict throws.
\<close>

definition Pending_mergeStep ::
  "('g, 'd) pdag \<Rightarrow> 'd serializers \<Rightarrow> 'g \<Rightarrow> hash \<Rightarrow> 'd patch \<times> hash list option
   \<Rightarrow> ('d patch \<times> hash list option) res" where
  "Pending_mergeStep D S g vertex = (\<lambda>(patchMerged, arr).
     case dg_readObj D g vertex of
       None \<Rightarrow> Inr (patchMerged, arr)
     | Some x \<Rightarrow>
         (case PatchDB_merge S False (po_patch x) patchMerged of
            Inr p \<Rightarrow> Inr (p, map_option (\<lambda>a. a @ [vertex]) arr)
          | Inl e \<Rightarrow> (case arr of None \<Rightarrow> Inl e | Some _ \<Rightarrow> Inr (patchMerged, arr))))"

definition Pending_mergePatches ::
  "('g, 'd) pdag \<Rightarrow> 'd serializers \<Rightarrow> hash list \<Rightarrow> hash list option \<Rightarrow> 'g pending
   \<Rightarrow> ('d patch \<times> hash list option) res" where
  "Pending_mergePatches D S arrHashes arrSuccessfullyMergedBlocksHashes s =
     foldR (Pending_mergeStep D S (pm_dag s)) arrHashes
       (PatchDB_empty, arrSuccessfullyMergedBlocksHashes)"

section \<open>Choosing parents\<close>

definition Pending_findByConciliumId ::
  "('g, 'd) pdag \<Rightarrow> hash list \<Rightarrow> nat option \<Rightarrow> 'g pending \<Rightarrow> hash option" where
  "Pending_findByConciliumId D arrHashes nConciliumId s =
     (case nConciliumId of
        None \<Rightarrow> None
      | Some n \<Rightarrow> find (\<lambda>vertex. case dg_readObj D (pm_dag s) vertex of
            None \<Rightarrow> False
          | Some x \<Rightarrow> hd_conciliumId (po_blockHeader x) = n) arrHashes)"

text \<open>
  The comparison puts the tip of the own concilium first, then the tips with more conciliums below,
  then the longer chains: it is the order of this key, and \<open>sort\<close> is stable.
\<close>

definition Pending_sortTips ::
  "('g, 'd) pdag \<Rightarrow> hash list \<Rightarrow> nat option \<Rightarrow> 'g pending \<Rightarrow> nat list res" where
  "Pending_sortTips D arrTips nConciliumId s =
     (let prevBlockIndex = (case Pending_findByConciliumId D arrTips nConciliumId s of
            None \<Rightarrow> None
          | Some hash \<Rightarrow> findIndex (\<lambda>h. h = hash) arrTips)
      in bindR (mapM (\<lambda>vertex. Pending_getVertexWitnessBelow D vertex s) arrTips) (\<lambda>arrWitnessNums.
         Inr (sort_key (\<lambda>i. (if Some i = prevBlockIndex then 0 :: nat else 1,
                  - (arrWitnessNums ! i),
                  - dg_longestPathLength D (dg_findPathsDown D (pm_dag s) (arrTips ! i))))
                [0..<length arrTips])))"

definition Pending_getBestParents ::
  "('g, 'd) pdag \<Rightarrow> 'd serializers \<Rightarrow> nat option \<Rightarrow> 'g pending \<Rightarrow> (hash list \<times> 'd patch option) res" where
  "Pending_getBestParents D S nConciliumId s =
     (let lastResort = (case pm_topStable s of
            Some ts \<Rightarrow> if ts \<noteq> [] then ts else [GENESIS_BLOCK]
          | None \<Rightarrow> [GENESIS_BLOCK]);
          arrTips = (if Pending_getTips D s = [] then lastResort else Pending_getTips D s)
      in bindR (Pending_sortTips D arrTips nConciliumId s) (\<lambda>sortedDownTipIndexes.
         Inr (case Pending_mergePatches D S (map (\<lambda>i. arrTips ! i) sortedDownTipIndexes) (Some []) s of
                Inl e \<Rightarrow> (lastResort, None)
              | Inr (patchMerged, arrParents) \<Rightarrow>
                  (case arrParents of
                     Some ps \<Rightarrow> (if ps \<noteq> [] then ps else lastResort, Some patchMerged)
                   | None \<Rightarrow> (lastResort, Some patchMerged)))))"

section \<open>Finality\<close>

definition Pending_removeBlocks :: "('g, 'd) pdag \<Rightarrow> hash list \<Rightarrow> 'g pending \<Rightarrow> 'g pending" where
  "Pending_removeBlocks D setBlocks s = s\<lparr>pm_dag := fold (dg_removeVertex D) setBlocks (pm_dag s)\<rparr>"

definition Pending_conflicting ::
  "('g, 'd) pdag \<Rightarrow> 'd serializers \<Rightarrow> hash \<Rightarrow> 'd patch \<Rightarrow> 'g pending \<Rightarrow> hash list res" where
  "Pending_conflicting D S strHashToExclude patchToApply s =
     foldR (\<lambda>tip setBlocksToRollback.
         if tip = strHashToExclude then Inr setBlocksToRollback
         else bindR (readObjR D (pm_dag s) tip) (\<lambda>x.
           Inr (if isOk (PatchDB_merge S False (po_patch x) patchToApply) then setBlocksToRollback
                else mergeSets (sof (dg_vertices D (dg_findPathsDown D (pm_dag s) tip)))
                       setBlocksToRollback)))
       (Pending_getTips D s) []"

definition Pending_removeConflictingBranches ::
  "('g, 'd) pdag \<Rightarrow> 'd serializers \<Rightarrow> hash \<Rightarrow> 'd patch \<Rightarrow> (hash list, 'g pending) act" where
  "Pending_removeConflictingBranches D S strHashToExclude patchToApply s =
     (case Pending_conflicting D S strHashToExclude patchToApply s of
        Inl e \<Rightarrow> (Inl e, s)
      | Inr setBlocksToRollback \<Rightarrow>
          (Inr setBlocksToRollback, Pending_removeBlocks D setBlocksToRollback s))"

text \<open>\<open>patch.purge\<close> changes the patch the graph holds.\<close>

definition Pending_purgeVertex ::
  "('g, 'd) pdag \<Rightarrow> 'd serializers \<Rightarrow> 'd patch \<Rightarrow> hash \<Rightarrow> (unit, 'g pending) act" where
  "Pending_purgeVertex D S patchToApply vertex s =
     (case readObjR D (pm_dag s) vertex of
        Inl e \<Rightarrow> (Inl e, s)
      | Inr x \<Rightarrow> (case PatchDB_purge S patchToApply (po_patch x) of
            Inl e \<Rightarrow> (Inl e, s)
          | Inr p \<Rightarrow> (Inr (), s\<lparr>pm_dag := dg_saveObj D vertex (x\<lparr>po_patch := p\<rparr>) (pm_dag s)\<rparr>)))"

fun Pending_purgeAll ::
  "('g, 'd) pdag \<Rightarrow> 'd serializers \<Rightarrow> 'd patch \<Rightarrow> hash list \<Rightarrow> (unit, 'g pending) act" where
  "Pending_purgeAll D S patchToApply [] = returnS ()"
| "Pending_purgeAll D S patchToApply (v # vs) =
     bindS (Pending_purgeVertex D S patchToApply v) (\<lambda>_. Pending_purgeAll D S patchToApply vs)"

record 'd finality =
  fn_patchToApply :: "'d patch"
  fn_setStableBlocks :: "hash list"
  fn_setBlocksToRollback :: "hash list"
  fn_arrTopStable :: "hash list"

definition Pending_checkFinality ::
  "('g, 'd) pdag \<Rightarrow> 'd serializers \<Rightarrow> hash \<Rightarrow> nat \<Rightarrow> ('d finality option, 'g pending) act" where
  "Pending_checkFinality D S strHashNewVertex nConciliumCount s =
     (case Pending_findTopStable D strHashNewVertex (majority nConciliumCount) s of
        Inl e \<Rightarrow> (Inl e, s)
      | Inr [] \<Rightarrow> (Inr None, s)
      | Inr (t # ts) \<Rightarrow>
          (let arrTopStable = t # ts;
               setAlsoStableVertices = Pending_findAlsoStable D arrTopStable s
           in bindS (liftS (Pending_mergePatches D S arrTopStable None s)) (\<lambda>(patchToApply, _).
              bindS (\<lambda>s. (Inr (), Pending_removeBlocks D setAlsoStableVertices s)) (\<lambda>_.
              bindS (Pending_removeConflictingBranches D S strHashNewVertex patchToApply)
                (\<lambda>setBlocksToRollback.
              bindS (\<lambda>s. Pending_purgeAll D S patchToApply (dg_V D (pm_dag s)) s) (\<lambda>_ s.
              (Inr (Some \<lparr>fn_patchToApply = patchToApply, fn_setStableBlocks = setAlsoStableVertices,
                          fn_setBlocksToRollback = setBlocksToRollback, fn_arrTopStable = arrTopStable\<rparr>),
               s\<lparr>pm_topStable := Some arrTopStable\<rparr>))))) s))"

section \<open>Contracts and witnessing\<close>

definition Pending_bestTip ::
  "('g, 'd) pdag \<Rightarrow> nat \<Rightarrow> 'g pending \<Rightarrow> (hash option \<times> nat) res" where
  "Pending_bestTip D nConciliumId s =
     foldR (\<lambda>hash (strHashBestTip, nMaxLevel).
         bindR (readObjR D (pm_dag s) hash) (\<lambda>x.
         Inr (case PatchDB_getLevel (Some nConciliumId) (po_patch x) of
                Some l \<Rightarrow> if l > nMaxLevel then (Some hash, l) else (strHashBestTip, nMaxLevel)
              | None \<Rightarrow> (strHashBestTip, nMaxLevel))))
       (Pending_getTips D s) (None, 0)"

definition Pending_getContract ::
  "('g, 'd) pdag \<Rightarrow> addr \<Rightarrow> nat \<Rightarrow> 'g pending \<Rightarrow> 'd contract option res" where
  "Pending_getContract D strContractAddr nConciliumId s =
     bindR (typeforce (isAddress strContractAddr)) (\<lambda>_.
     bindR (Pending_bestTip D nConciliumId s) (\<lambda>(best, nMaxLevel).
     case best of
       None \<Rightarrow> Inr None
     | Some tip \<Rightarrow>
         bindR (findM (\<lambda>vertex. bindR (readObjR D (pm_dag s) vertex) (\<lambda>x.
                  Inr (PatchDB_getLevel (Some nConciliumId) (po_patch x) = Some nMaxLevel
                       \<and> PatchDB_getConciliumId (po_patch x) = Some nConciliumId)))
                (concat (dg_findPathsDown D (pm_dag s) tip))) (\<lambda>found.
         case found of
           None \<Rightarrow> Inr None
         | Some vertex \<Rightarrow> bindR (readObjR D (pm_dag s) vertex) (\<lambda>x.
             Inr (PatchDB_getContract strContractAddr (po_patch x))))))"

definition Pending_isReasonToWitness :: "('g, 'd) pdag \<Rightarrow> block \<Rightarrow> 'g pending \<Rightarrow> hash option res" where
  "Pending_isReasonToWitness D b s =
     (let arrParents = filter (dg_hasVertex D (pm_dag s)) (Block_parentHashes b)
      in findM (\<lambda>hash. bindR (readObjR D (pm_dag s) hash) (\<lambda>x.
           if hd_conciliumId (po_blockHeader x) = Block_getConciliumId b \<and> po_bIsEmpty x then Inr False
           else mapR (\<lambda>r. r \<noteq> None)
             (findM (\<lambda>vertex. bindR (readObjR D (pm_dag s) vertex) (\<lambda>y.
                Inr (\<not> po_bIsEmpty y \<and> hd_conciliumId (po_blockHeader y) \<noteq> Block_getConciliumId b)))
              (concat (dg_findPathsDown D (pm_dag s) hash))))) arrParents)"

section \<open>The graph of all headers\<close>

type_synonym 'g mdag = "('g, blockInfo) dag_ops"

definition MainDag_addBlock :: "'g mdag \<Rightarrow> block_crypto \<Rightarrow> blockInfo \<Rightarrow> 'g \<Rightarrow> 'g" where
  "MainDag_addBlock D B bi g =
     (let blockHash = BlockInfo_getHash B bi;
          g' = (if blockHash \<noteq> GENESIS_BLOCK
                then fold (\<lambda>strHash g. dg_add D blockHash strHash g) (BlockInfo_parentHashes bi) g
                else if \<not> dg_hasVertex D g blockHash then dg_addVertex D blockHash g else g)
      in dg_saveObj D blockHash bi g')"

definition MainDag_setBlockInfo :: "'g mdag \<Rightarrow> block_crypto \<Rightarrow> blockInfo \<Rightarrow> 'g \<Rightarrow> 'g" where
  "MainDag_setBlockInfo D B bi g = dg_saveObj D (BlockInfo_getHash B bi) bi g"

definition MainDag_getBlockInfo :: "'g mdag \<Rightarrow> hash \<Rightarrow> 'g \<Rightarrow> blockInfo option res" where
  "MainDag_getBlockInfo D h g = bindR (typeforce (isHash256 h)) (\<lambda>_. Inr (dg_readObj D g h))"

definition MainDag_getParents :: "'g mdag \<Rightarrow> hash \<Rightarrow> 'g \<Rightarrow> hash list res" where
  "MainDag_getParents D h g =
     bindR (typeforce (isHash256 h)) (\<lambda>_. mapR BlockInfo_parentHashes (readObjR D g h))"

definition MainDag_getChildren :: "'g mdag \<Rightarrow> hash \<Rightarrow> 'g \<Rightarrow> hash list res" where
  "MainDag_getChildren D h g = bindR (typeforce (isHash256 h)) (\<lambda>_. Inr (dg_edgesToTips D g h))"

definition MainDag_getBlockHeight :: "'g mdag \<Rightarrow> hash \<Rightarrow> 'g \<Rightarrow> nat res" where
  "MainDag_getBlockHeight D h g =
     bindR (typeforce (isHash256 h)) (\<lambda>_. mapR BlockInfo_getHeight (readObjR D g h))"

definition MainDag_removeBlock :: "'g mdag \<Rightarrow> hash \<Rightarrow> 'g \<Rightarrow> 'g res" where
  "MainDag_removeBlock D h g = bindR (typeforce (isHash256 h)) (\<lambda>_. Inr (dg_removeVertex D h g))"

section \<open>Merged parents\<close>

text \<open>
  The tolerant merge keeps a list of parents on which the strict merge succeeds with the same patch:
  a block built on the chosen parents passes the check made when it is validated.
\<close>

lemma Pending_mergeStep_simps:
  "dg_readObj D g h = None \<Longrightarrow> Pending_mergeStep D S g h (q, arr) = Inr (q, arr)"
  "dg_readObj D g h = Some x \<Longrightarrow> PatchDB_merge S False (po_patch x) q = Inr p \<Longrightarrow>
     Pending_mergeStep D S g h (q, arr) = Inr (p, map_option (\<lambda>a. a @ [h]) arr)"
  "dg_readObj D g h = Some x \<Longrightarrow> PatchDB_merge S False (po_patch x) q = Inl e \<Longrightarrow>
     Pending_mergeStep D S g h (q, Some acc) = Inr (q, Some acc)"
  by (simp_all add: Pending_mergeStep_def)

lemma Pending_mergeStep_strict:
  assumes "dg_readObj D g h = Some x" and "Pending_mergeStep D S g h (q, None) = Inr s"
  obtains p where "PatchDB_merge S False (po_patch x) q = Inr p" and "s = (p, None)"
  using assms by (auto simp: Pending_mergeStep_def split: sum.splits)

lemma Pending_merge_tolerant:
  "\<exists>p ms. foldR (Pending_mergeStep D S g) hs (q, Some acc) = Inr (p, Some (acc @ ms)) \<and>
     foldR (Pending_mergeStep D S g) ms (q, None) = Inr (p, None) \<and> set ms \<subseteq> set hs \<and>
     (distinct hs \<longrightarrow> distinct ms)"
proof (induction hs arbitrary: q acc)
  case (Cons h hs)
  consider (none) "dg_readObj D g h = None"
    | (ok) x p where "dg_readObj D g h = Some x" "PatchDB_merge S False (po_patch x) q = Inr p"
    | (fail) x e where "dg_readObj D g h = Some x" "PatchDB_merge S False (po_patch x) q = Inl e"
    by (metis not_None_eq sum.exhaust)
  then show ?case
  proof cases
    case none
    with Cons.IH [of q acc] show ?thesis by (force simp: Pending_mergeStep_simps)
  next
    case ok
    from Cons.IH [of p "acc @ [h]"] obtain p' ms where
      "foldR (Pending_mergeStep D S g) hs (p, Some (acc @ [h])) = Inr (p', Some (acc @ h # ms))"
      "foldR (Pending_mergeStep D S g) ms (p, None) = Inr (p', None)"
      "set ms \<subseteq> set hs" "distinct hs \<longrightarrow> distinct ms" by auto
    with ok show ?thesis
      by (intro exI [of _ p'] exI [of _ "h # ms"]) (auto simp: Pending_mergeStep_simps(2) [OF ok])
  next
    case fail
    with Cons.IH [of q acc] show ?thesis by (force simp: Pending_mergeStep_simps)
  qed
qed simp

lemma Pending_mergePatches_tolerant:
  obtains p ms where "Pending_mergePatches D S hs (Some []) s = Inr (p, Some ms)"
    and "Pending_mergePatches D S ms None s = Inr (p, None)"
    and "set ms \<subseteq> set hs" and "distinct hs \<Longrightarrow> distinct ms"
  using Pending_merge_tolerant [of D S "pm_dag s" hs PatchDB_empty "[]"]
  unfolding Pending_mergePatches_def by auto

text \<open>What the merged patch says of an output.\<close>

fun uspent :: "ustate option \<Rightarrow> int \<rightharpoonup> hash" where
  "uspent None = Map.empty"
| "uspent (Some (u, s)) = s"

fun uunspent :: "ustate option \<Rightarrow> int \<rightharpoonup> coins" where
  "uunspent None = Map.empty"
| "uunspent (Some (u, s)) = u"

lemma uspent_ujoin:
  "ucompat x y \<Longrightarrow> uspent (ujoin x y) i = Some t \<longleftrightarrow> uspent x i = Some t \<or> uspent y i = Some t"
proof (induction x y rule: ujoin.induct)
  case (3 u s v t')
  then have "i \<in> dom s \<Longrightarrow> i \<in> dom t' \<Longrightarrow> s i = t' i" by simp
  then show ?case by (cases "s i"; cases "t' i") (auto simp: map_add_def dom_def)
qed auto

lemma uunspent_Some: "uunspent x i = Some c \<Longrightarrow> x \<noteq> None"
  by (cases x) auto

lemma udom_ujoin:
  "i \<in> dom (uunspent (ujoin x y)) \<longleftrightarrow>
     (x \<noteq> None \<or> y \<noteq> None) \<and> (x \<noteq> None \<longrightarrow> i \<in> dom (uunspent x)) \<and> (y \<noteq> None \<longrightarrow> i \<in> dom (uunspent y))"
  by (induction x y rule: ujoin.induct) (auto dest: uunspent_Some)

definition Pending_patches :: "('g, 'd) pdag \<Rightarrow> 'g \<Rightarrow> hash list \<Rightarrow> 'd patch set" where
  "Pending_patches D g hs = {po_patch x | x h. h \<in> set hs \<and> dg_readObj D g h = Some x}"

definition Pending_wf :: "('g, 'd) pdag \<Rightarrow> 'g \<Rightarrow> bool" where
  "Pending_wf D g \<longleftrightarrow> (\<forall>h x. dg_readObj D g h = Some x \<longrightarrow> PatchDB_wf (po_patch x))"

lemma PatchDB_mergeD:
  assumes "PatchDB_merge S b p q = Inr r" and "PatchDB_wf p" and "PatchDB_wf q"
  shows "PatchDB_wf r \<and> PatchDB_abs r = (\<lambda>h. ujoin (PatchDB_abs p h) (PatchDB_abs q h)) \<and>
    (\<forall>h. ucompat (PatchDB_abs p h) (PatchDB_abs q h))"
proof -
  have m: "PatchDB_mergeable b p q"
    using PatchDB_merge_abs [OF assms(2,3), of b S] assms(1) by (cases "PatchDB_mergeable b p q") simp_all
  with PatchDB_merge_abs [OF assms(2,3), of b S] assms(1) show ?thesis
    by (auto simp: PatchDB_mergeable_def)
qed

lemma Pending_merge_view:
  assumes "foldR (Pending_mergeStep D S g) hs (q, None) = Inr (p, r)"
    and "Pending_wf D g" and "PatchDB_wf q"
  shows "PatchDB_wf p \<and>
    (\<forall>h i t. uspent (PatchDB_abs p h) i = Some t \<longleftrightarrow>
       (\<exists>x\<in>insert q (Pending_patches D g hs). uspent (PatchDB_abs x h) i = Some t)) \<and>
    (\<forall>h. PatchDB_abs p h \<noteq> None \<longleftrightarrow> (\<exists>x\<in>insert q (Pending_patches D g hs). PatchDB_abs x h \<noteq> None)) \<and>
    (\<forall>h i. i \<in> dom (uunspent (PatchDB_abs p h)) \<longleftrightarrow> PatchDB_abs p h \<noteq> None \<and>
       (\<forall>x\<in>insert q (Pending_patches D g hs). PatchDB_abs x h \<noteq> None \<longrightarrow> i \<in> dom (uunspent (PatchDB_abs x h))))"
  using assms
proof (induction hs arbitrary: q)
  case Nil
  then show ?case by (auto simp: Pending_patches_def dest: uunspent_Some)
next
  case (Cons h hs)
  show ?case
  proof (cases "dg_readObj D g h")
    case None
    then have "Pending_patches D g (h # hs) = Pending_patches D g hs" by (auto simp: Pending_patches_def)
    with Cons None show ?thesis by (simp add: Pending_mergeStep_def)
  next
    case (Some x)
    then have ps: "Pending_patches D g (h # hs) = insert (po_patch x) (Pending_patches D g hs)"
      by (auto simp: Pending_patches_def)
    from Cons.prems(1) Some obtain p' where m: "PatchDB_merge S False (po_patch x) q = Inr p'"
      and f: "foldR (Pending_mergeStep D S g) hs (p', None) = Inr (p, r)"
      by (auto elim: Pending_mergeStep_strict)
    from Cons.prems(2) Some have "PatchDB_wf (po_patch x)" by (auto simp: Pending_wf_def)
    from PatchDB_mergeD [OF m this Cons.prems(3)] have w: "PatchDB_wf p'"
      and a: "PatchDB_abs p' = (\<lambda>h. ujoin (PatchDB_abs (po_patch x) h) (PatchDB_abs q h))"
      and c: "ucompat (PatchDB_abs (po_patch x) k) (PatchDB_abs q k)" for k by auto
    have j: "ujoin u v \<noteq> None \<longleftrightarrow> u \<noteq> None \<or> v \<noteq> None" for u v
      by (induction u v rule: ujoin.induct) auto
    note IH = Cons.IH [OF f Cons.prems(2) w]
    show ?thesis
      unfolding ps
      by (intro conjI allI; (insert IH, elim conjE)?)
         (simp_all add: a uspent_ujoin [OF c] udom_ujoin j del: not_None_eq, (blast | iprover | argo)+)
  qed
qed

section \<open>Choosing parents\<close>

text \<open>The tips are taken in an order that puts the own tip first and then never rises in witnesses.\<close>

lemma Pending_sortTips_spec:
  assumes "Pending_sortTips D tips n s = Inr idx"
  shows "distinct idx" and "set idx = {0..<length tips}"
    and "Pending_findByConciliumId D tips n s = Some h \<Longrightarrow> idx \<noteq> [] \<and> tips ! hd idx = h"
    and "Pending_findByConciliumId D tips n s = None \<Longrightarrow> mapM (\<lambda>v. Pending_getVertexWitnessBelow D v s) tips = Inr ws \<Longrightarrow>
      sorted_wrt (\<lambda>i j. ws ! j \<le> ws ! i) idx"
proof -
  let ?find = "Pending_findByConciliumId D tips n s"
  let ?prev = "case ?find of None \<Rightarrow> None | Some hash \<Rightarrow> findIndex (\<lambda>h. h = hash) tips"
  from assms obtain ws' where ws': "mapM (\<lambda>v. Pending_getVertexWitnessBelow D v s) tips = Inr ws'"
    by (auto simp: Pending_sortTips_def Let_def)
  define key where "key i = (if Some i = ?prev then 0 :: nat else 1, - (ws' ! i),
      - dg_longestPathLength D (dg_findPathsDown D (pm_dag s) (tips ! i)))" for i
  have ord: "idx = sort_key key [0..<length tips]"
    using assms ws' by (simp add: Pending_sortTips_def Let_def key_def [abs_def])
  then show "distinct idx" and "set idx = {0..<length tips}" by simp_all
  have srt: "sorted (map key idx)" unfolding ord by simp
  show "idx \<noteq> [] \<and> tips ! hd idx = h" if f: "?find = Some h"
  proof -
    have "h \<in> set tips"
      using f by (auto simp: Pending_findByConciliumId_def find_Some_iff split: option.splits)
    then obtain k where k: "findIndex (\<lambda>x. x = h) tips = Some k"
      by (metis findIndex_eq_None not_Some_eq)
    then have kl: "k < length tips" "tips ! k = h" using findIndex_SomeD [OF k] by auto
    then have ne: "idx \<noteq> []" and ki: "k \<in> set idx" unfolding ord by (auto simp flip: set_empty)
    have "key (hd idx) \<le> key k" using srt ne ki by (cases idx) auto
    then have "hd idx = k" by (auto simp: key_def f k less_eq_prod_def split: if_splits)
    with ne kl show ?thesis by simp
  qed
  show "sorted_wrt (\<lambda>i j. ws ! j \<le> ws ! i) idx"
    if "?find = None" and "mapM (\<lambda>v. Pending_getVertexWitnessBelow D v s) tips = Inr ws"
  proof -
    have "ws = ws'" using that(2) ws' by simp
    moreover have "sorted_wrt (\<lambda>i j. key i \<le> key j) idx" using srt by (simp add: sorted_map)
    ultimately show ?thesis
      by (elim sorted_wrt_mono_rel [rotated]) (auto simp: key_def that(1) less_eq_prod_def)
  qed
qed

definition Pending_lastResort :: "'g pending \<Rightarrow> hash list" where
  "Pending_lastResort s = (case pm_topStable s of
      Some ts \<Rightarrow> if ts \<noteq> [] then ts else [GENESIS_BLOCK] | None \<Rightarrow> [GENESIS_BLOCK])"

lemma Pending_bestParents_spec:
  assumes "Pending_getBestParents D S n s = Inr (ps, patch)"
  obtains ms p where "patch = Some p" and "Pending_mergePatches D S ms None s = Inr (p, None)"
    and "set ms \<subseteq> set (Pending_getTips D s) \<or> Pending_getTips D s = []"
    and "ps = (if ms \<noteq> [] then ms else Pending_lastResort s)" and "ps \<noteq> []"
proof -
  define last where "last = Pending_lastResort s"
  define tips where "tips = (if Pending_getTips D s = [] then last else Pending_getTips D s)"
  have last: "last \<noteq> []" by (auto simp: last_def Pending_lastResort_def split: option.splits)
  from assms obtain idx where ord: "Pending_sortTips D tips n s = Inr idx"
    and r: "(case Pending_mergePatches D S (map (\<lambda>i. tips ! i) idx) (Some []) s of
          Inl e \<Rightarrow> (last, None)
        | Inr (p, arr) \<Rightarrow> (case arr of Some ps \<Rightarrow> (if ps \<noteq> [] then ps else last, Some p)
            | None \<Rightarrow> (last, Some p))) = (ps, patch)"
    unfolding Pending_getBestParents_def Let_def Pending_lastResort_def [symmetric] last_def [symmetric]
      tips_def [symmetric] by auto
  obtain p ms where m: "Pending_mergePatches D S (map (\<lambda>i. tips ! i) idx) (Some []) s = Inr (p, Some ms)"
    "Pending_mergePatches D S ms None s = Inr (p, None)" "set ms \<subseteq> set (map (\<lambda>i. tips ! i) idx)"
    by (rule Pending_mergePatches_tolerant)
  have "set (map (\<lambda>i. tips ! i) idx) \<subseteq> set tips"
    using Pending_sortTips_spec(2) [OF ord] by auto
  with m(3) have "set ms \<subseteq> set (Pending_getTips D s) \<or> Pending_getTips D s = []"
    by (auto simp: tips_def split: if_splits)
  with m r last show thesis by (intro that [of p ms]) (auto simp: last_def split: if_splits)
qed

section \<open>Finality\<close>

definition Pending_seen :: "('g, 'd) pdag \<Rightarrow> 'g \<Rightarrow> hash list \<Rightarrow> nat set" where
  "Pending_seen D g vs = {hd_conciliumId (po_blockHeader x) | x v. v \<in> set vs \<and> dg_readObj D g v = Some x}"

lemma Pending_topStable_path:
  assumes "distinct ids"
  shows "Pending_findTopStableForPath D g n ids path = Some v \<Longrightarrow>
     \<exists>pre post. path = pre @ v # post \<and> n \<le> card (set ids \<union> Pending_seen D g (pre @ [v])) \<and>
       (\<forall>a x b. pre = a @ x # b \<longrightarrow> dg_readObj D g x \<noteq> None \<longrightarrow> card (set ids \<union> Pending_seen D g (a @ [x])) < n)"
    and "Pending_findTopStableForPath D g n ids path = None \<Longrightarrow>
     (\<forall>a x b. path = a @ x # b \<longrightarrow> dg_readObj D g x \<noteq> None \<longrightarrow> card (set ids \<union> Pending_seen D g (a @ [x])) < n)"
proof -
  have "case Pending_findTopStableForPath D g n ids path of
      Some v \<Rightarrow> \<exists>pre post. path = pre @ v # post \<and> n \<le> card (set ids \<union> Pending_seen D g (pre @ [v])) \<and>
       (\<forall>a x b. pre = a @ x # b \<longrightarrow> dg_readObj D g x \<noteq> None \<longrightarrow> card (set ids \<union> Pending_seen D g (a @ [x])) < n)
    | None \<Rightarrow> (\<forall>a x b. path = a @ x # b \<longrightarrow> dg_readObj D g x \<noteq> None \<longrightarrow> card (set ids \<union> Pending_seen D g (a @ [x])) < n)"
    using assms
  proof (induction path arbitrary: ids)
    case (Cons u path)
    let ?ids = "case dg_readObj D g u of None \<Rightarrow> ids | Some x \<Rightarrow> sadd (hd_conciliumId (po_blockHeader x)) ids"
    have d: "distinct ?ids" using Cons.prems by (simp split: option.splits)
    have s: "set ?ids \<union> Pending_seen D g vs = set ids \<union> Pending_seen D g (u # vs)" for vs
      by (auto simp: Pending_seen_def split: option.splits)
    have c: "length ?ids = card (set ids \<union> Pending_seen D g [u])"
      using distinct_card [OF d] s [of "[]"] by (simp add: Pending_seen_def)
    show ?case
    proof (cases "dg_readObj D g u \<noteq> None \<and> n \<le> length ?ids")
      case True
      then have "Pending_findTopStableForPath D g n ids (u # path) = Some u"
        by (auto simp: Let_def)
      with True c show ?thesis by (auto intro: exI [of _ "[]"])
    next
      case False
      then have r: "Pending_findTopStableForPath D g n ids (u # path) =
          Pending_findTopStableForPath D g n ?ids path"
        by (auto simp: Let_def split: option.splits)
      have u: "dg_readObj D g u \<noteq> None \<Longrightarrow> card (set ids \<union> Pending_seen D g [u]) < n"
        using False c by auto
      show ?thesis
      proof (cases "Pending_findTopStableForPath D g n ?ids path")
        case None
        with Cons.IH [OF d] have "\<forall>a x b. path = a @ x # b \<longrightarrow> dg_readObj D g x \<noteq> None \<longrightarrow>
            card (set ids \<union> Pending_seen D g (u # a @ [x])) < n" by (simp add: s)
        with None r u show ?thesis by (auto simp: Cons_eq_append_conv)
      next
        case (Some v)
        with Cons.IH [OF d] obtain pre post where p: "path = pre @ v # post"
          "n \<le> card (set ids \<union> Pending_seen D g (u # pre @ [v]))"
          "\<forall>a x b. pre = a @ x # b \<longrightarrow> dg_readObj D g x \<noteq> None \<longrightarrow>
            card (set ids \<union> Pending_seen D g (u # a @ [x])) < n" by (auto simp: s)
        have v: "Pending_findTopStableForPath D g n ids (u # path) = Some v" unfolding r by (rule Some)
        show ?thesis
          unfolding v option.case using p u
          by (intro exI [of _ "u # pre"] exI [of _ post]) (auto simp: Cons_eq_append_conv)
      qed
    qed
  qed simp
  then show "Pending_findTopStableForPath D g n ids path = Some v \<Longrightarrow>
     \<exists>pre post. path = pre @ v # post \<and> n \<le> card (set ids \<union> Pending_seen D g (pre @ [v])) \<and>
       (\<forall>a x b. pre = a @ x # b \<longrightarrow> dg_readObj D g x \<noteq> None \<longrightarrow> card (set ids \<union> Pending_seen D g (a @ [x])) < n)"
    and "Pending_findTopStableForPath D g n ids path = None \<Longrightarrow>
     (\<forall>a x b. path = a @ x # b \<longrightarrow> dg_readObj D g x \<noteq> None \<longrightarrow> card (set ids \<union> Pending_seen D g (a @ [x])) < n)"
    by simp_all
qed

lemma Pending_removeBlocks_V:
  "dag_ok D \<Longrightarrow> set (dg_V D (pm_dag (Pending_removeBlocks D bs s))) = set (dg_V D (pm_dag s)) - set bs"
proof -
  assume D: "dag_ok D"
  have "set (dg_V D (fold (dg_removeVertex D) bs g)) = set (dg_V D g) - set bs" for g
    using D by (induction bs arbitrary: g) (auto simp: dag_ok_def)
  then show ?thesis by (simp add: Pending_removeBlocks_def)
qed

lemma Pending_removeBlocks_read:
  "dag_ok D \<Longrightarrow> v \<notin> set bs \<Longrightarrow>
   dg_readObj D (pm_dag (Pending_removeBlocks D bs s)) v = dg_readObj D (pm_dag s) v"
proof -
  assume D: "dag_ok D" and v: "v \<notin> set bs"
  have "dg_readObj D (fold (dg_removeVertex D) bs g) v = dg_readObj D g v" for g
    using D v by (induction bs arbitrary: g) (auto simp: dag_ok_def)
  then show ?thesis by (simp add: Pending_removeBlocks_def)
qed

lemma Pending_purgeAll_V:
  assumes D: "dag_ok D"
  shows "set (dg_V D (pm_dag (snd (Pending_purgeAll D S p vs s)))) = set (dg_V D (pm_dag s))"
proof (induction vs arbitrary: s)
  case (Cons v vs)
  have "set (dg_V D (pm_dag (snd (Pending_purgeVertex D S p v s)))) = set (dg_V D (pm_dag s))"
    using D by (auto simp: Pending_purgeVertex_def dag_ok_def split: sum.splits)
  then show ?case
    unfolding Pending_purgeAll.simps
    by (rule bindS_snd [where P = "\<lambda>t. set (dg_V D (pm_dag t)) = set (dg_V D (pm_dag s))"])
       (simp add: Cons.IH)
qed (simp add: returnS_def)

lemma Pending_conflicting_spec:
  assumes "Pending_conflicting D S h p s = Inr r"
  shows "\<forall>t\<in>set (Pending_getTips D s). t \<noteq> h \<longrightarrow> (\<exists>x. dg_readObj D (pm_dag s) t = Some x \<and>
     (isOk (PatchDB_merge S False (po_patch x) p) \<or>
      set (dg_vertices D (dg_findPathsDown D (pm_dag s) t)) \<subseteq> set r))"
proof -
  let ?step = "\<lambda>tip acc. if tip = h then Inr acc
         else bindR (readObjR D (pm_dag s) tip) (\<lambda>x.
           Inr (if isOk (PatchDB_merge S False (po_patch x) p) then acc
                else mergeSets (sof (dg_vertices D (dg_findPathsDown D (pm_dag s) tip))) acc))"
  have "set acc \<subseteq> set r \<and> (\<forall>t\<in>set ts. t \<noteq> h \<longrightarrow> (\<exists>x. dg_readObj D (pm_dag s) t = Some x \<and>
     (isOk (PatchDB_merge S False (po_patch x) p) \<or>
      set (dg_vertices D (dg_findPathsDown D (pm_dag s) t)) \<subseteq> set r)))"
    if "foldR ?step ts acc = Inr r" for ts acc
    using that
  proof (induction ts arbitrary: acc)
    case (Cons t ts)
    then obtain acc' where a: "?step t acc = Inr acc'" "foldR ?step ts acc' = Inr r" by auto
    note IH = Cons.IH [OF a(2)]
    show ?case
    proof (cases "t = h")
      case True
      with a(1) IH show ?thesis by auto
    next
      case False
      with a(1) obtain x where x: "dg_readObj D (pm_dag s) t = Some x"
        by (auto simp: readObjR_def split: option.splits)
      from False a(1) x have acc': "acc' = (if isOk (PatchDB_merge S False (po_patch x) p) then acc
          else mergeSets (sof (dg_vertices D (dg_findPathsDown D (pm_dag s) t))) acc)"
        by (simp add: readObjR_def)
      from IH False x acc' show ?thesis by (auto split: if_splits)
    qed
  qed simp
  from this [of "Pending_getTips D s" "[]"] assms show ?thesis
    unfolding Pending_conflicting_def by blast
qed

lemma Pending_findAlsoStable_set:
  "set (Pending_findAlsoStable D ts s) = (\<Union>t\<in>set ts. set (dg_vertices D (dg_findPathsDown D (pm_dag s) t)))"
proof -
  have "set (fold (\<lambda>t st. mergeSets st (sof (dg_vertices D (dg_findPathsDown D (pm_dag s) t)))) ts acc) =
      set acc \<union> (\<Union>t\<in>set ts. set (dg_vertices D (dg_findPathsDown D (pm_dag s) t)))" for acc
    by (induction ts arbitrary: acc) auto
  then show ?thesis by (simp add: Pending_findAlsoStable_def)
qed

lemma Pending_findTopStable_D:
  assumes "Pending_findTopStable D h n s = Inr ts" and "t \<in> set ts"
  obtains path pre post where "path \<in> set (dg_findPathsDown D (pm_dag s) h)" and "path = pre @ t # post"
    and "n \<le> card (Pending_seen D (pm_dag s) (pre @ [t]))"
proof -
  from assms obtain path where p: "path \<in> set (dg_findPathsDown D (pm_dag s) h)"
    "Pending_findTopStableForPath D (pm_dag s) n [] path = Some t"
    by (auto simp: Pending_findTopStable_def List.map_filter_def)
  from Pending_topStable_path(1) [OF _ p(2)] p(1) show thesis by (auto intro: that)
qed

text \<open>
  The blocks that become final were seen by a majority of the conciliums, exactly they and the
  blocks of conflicting branches leave the graph, and every tip that stays merges with what is
  applied to the storage.
\<close>

lemma Pending_checkFinality_spec:
  assumes D: "dag_ok D" and run: "Pending_checkFinality D S h n s = (Inr (Some f), s')"
  shows "fn_arrTopStable f \<noteq> [] \<and> pm_topStable s' = Some (fn_arrTopStable f)"
    and "t \<in> set (fn_arrTopStable f) \<Longrightarrow>
      \<exists>path\<in>set (dg_findPathsDown D (pm_dag s) h). \<exists>pre post. path = pre @ t # post \<and>
        n div 2 < card (Pending_seen D (pm_dag s) (pre @ [t]))"
    and "set (fn_setStableBlocks f) =
      (\<Union>t\<in>set (fn_arrTopStable f). set (dg_vertices D (dg_findPathsDown D (pm_dag s) t)))"
    and "Pending_mergePatches D S (fn_arrTopStable f) None s = Inr (fn_patchToApply f, None)"
    and "set (Pending_getAllHashes D s') =
      set (Pending_getAllHashes D s) - set (fn_setStableBlocks f) - set (fn_setBlocksToRollback f)"
    and "u \<in> set (Pending_getTips D (Pending_removeBlocks D (fn_setStableBlocks f) s)) \<Longrightarrow> u \<noteq> h \<Longrightarrow>
      u \<notin> set (fn_setBlocksToRollback f) \<Longrightarrow>
      \<exists>x. dg_readObj D (pm_dag s) u = Some x \<and> isOk (PatchDB_merge S False (po_patch x) (fn_patchToApply f))"
proof -
  obtain t0 ts where top: "Pending_findTopStable D h (majority n) s = Inr (t0 # ts)"
    using run by (auto simp: Pending_checkFinality_def split: sum.splits list.splits)
  let ?stable = "Pending_findAlsoStable D (t0 # ts) s"
  let ?s1 = "Pending_removeBlocks D ?stable s"
  from run top obtain p r rb s2 s3 where
    m: "Pending_mergePatches D S (t0 # ts) None s = Inr (p, r)" and
    c: "Pending_removeConflictingBranches D S h p ?s1 = (Inr rb, s2)" and
    pg: "Pending_purgeAll D S p (dg_V D (pm_dag s2)) s2 = (Inr (), s3)" and
    f: "f = \<lparr>fn_patchToApply = p, fn_setStableBlocks = ?stable, fn_setBlocksToRollback = rb,
              fn_arrTopStable = t0 # ts\<rparr>" and s': "s' = s3\<lparr>pm_topStable := Some (t0 # ts)\<rparr>"
    by (auto simp: Pending_checkFinality_def Let_def bindS_Inr liftS_def split: prod.splits)
  from c have cf: "Pending_conflicting D S h p ?s1 = Inr rb" and s2: "s2 = Pending_removeBlocks D rb ?s1"
    by (auto simp: Pending_removeConflictingBranches_def split: sum.splits)
  show "fn_arrTopStable f \<noteq> [] \<and> pm_topStable s' = Some (fn_arrTopStable f)" by (simp add: f s')
  show "set (fn_setStableBlocks f) =
      (\<Union>t\<in>set (fn_arrTopStable f). set (dg_vertices D (dg_findPathsDown D (pm_dag s) t)))"
    unfolding f finality.simps by (rule Pending_findAlsoStable_set)
  have "r = None"
    using foldR_invariant [of "Pending_mergeStep D S (pm_dag s)" "t0 # ts" "(PatchDB_empty, None)" "(p, r)"
        "\<lambda>(_, r). r = None"] m
    by (force simp: Pending_mergePatches_def Pending_mergeStep_def split: option.splits sum.splits)
  with m show "Pending_mergePatches D S (fn_arrTopStable f) None s = Inr (fn_patchToApply f, None)"
    by (simp add: f)
  have "set (dg_V D (pm_dag s3)) = set (dg_V D (pm_dag s2))"
    using Pending_purgeAll_V [OF D, of S p "dg_V D (pm_dag s2)" s2] pg by simp
  then show "set (Pending_getAllHashes D s') =
      set (Pending_getAllHashes D s) - set (fn_setStableBlocks f) - set (fn_setBlocksToRollback f)"
    by (simp add: Pending_getAllHashes_def s' f s2 Pending_removeBlocks_V [OF D])
  show "\<exists>path\<in>set (dg_findPathsDown D (pm_dag s) h). \<exists>pre post. path = pre @ t # post \<and>
        n div 2 < card (Pending_seen D (pm_dag s) (pre @ [t]))" if "t \<in> set (fn_arrTopStable f)"
  proof -
    from that have "t \<in> set (t0 # ts)" by (simp add: f)
    with top obtain path pre post where "path \<in> set (dg_findPathsDown D (pm_dag s) h)" "path = pre @ t # post"
      "majority n \<le> card (Pending_seen D (pm_dag s) (pre @ [t]))" by (rule Pending_findTopStable_D)
    then show ?thesis unfolding majority_def by (metis Suc_eq_plus1 Suc_le_lessD)
  qed
  show "\<exists>x. dg_readObj D (pm_dag s) u = Some x \<and> isOk (PatchDB_merge S False (po_patch x) (fn_patchToApply f))"
    if u: "u \<in> set (Pending_getTips D (Pending_removeBlocks D (fn_setStableBlocks f) s))" "u \<noteq> h"
      "u \<notin> set (fn_setBlocksToRollback f)"
  proof -
    have "u \<in> set (dg_V D (pm_dag ?s1))"
      using u(1) D unfolding f finality.simps Pending_getTips_def dag_ok_def by blast
    then have "u \<in> set (dg_vertices D (dg_findPathsDown D (pm_dag ?s1) u))" and "u \<notin> set ?stable"
      using D by (auto simp: dag_ok_def Pending_removeBlocks_V [OF D])
    with Pending_conflicting_spec [OF cf] u show ?thesis
      by (auto simp: f Pending_removeBlocks_read [OF D])
  qed
qed

lemma map_filter_Nil: "List.map_filter F xs = [] \<longleftrightarrow> (\<forall>x\<in>set xs. F x = None)"
  by (induction xs) (auto simp: List.map_filter_def split: option.splits if_splits)

lemma bindS_not: "(\<And>x u. fst (f x u) \<noteq> Inr y) \<Longrightarrow> fst (bindS m f s) \<noteq> Inr y"
  by (auto simp: bindS_def split: prod.splits sum.splits)

lemma Pending_checkFinality_none:
  assumes "Pending_checkFinality D S h n s = (Inr None, s')"
  shows "s' = s \<and> (\<forall>path\<in>set (dg_findPathsDown D (pm_dag s) h).
    Pending_findTopStableForPath D (pm_dag s) (majority n) [] path = None)"
proof -
  have "fst (Pending_checkFinality D S h n s) \<noteq> Inr None"
    if "Pending_findTopStable D h (majority n) s = Inr (t # ts)" for t ts
    unfolding Pending_checkFinality_def that sum.case list.case Let_def case_prod_beta
    by (intro bindS_not) simp
  note some = this
  have "Pending_findTopStable D h (majority n) s = Inr [] \<and> s' = s"
  proof (cases "Pending_findTopStable D h (majority n) s")
    case (Inl e)
    with assms show ?thesis by (simp add: Pending_checkFinality_def)
  next
    case (Inr l)
    show ?thesis
    proof (cases l)
      case Nil
      with assms Inr show ?thesis by (simp add: Pending_checkFinality_def)
    next
      case (Cons t ts)
      from some [OF Inr [unfolded this]] assms show ?thesis by simp
    qed
  qed
  then have e: "Pending_findTopStable D h (majority n) s = Inr []" and s: "s' = s" by simp_all
  from e have "List.map_filter (Pending_findTopStableForPath D (pm_dag s) (majority n) [])
      (dg_findPathsDown D (pm_dag s) h) = []"
    by (simp add: Pending_findTopStable_def)
  with s show ?thesis by (simp only: map_filter_Nil)
qed

section \<open>A reason to witness\<close>

lemma findM_Some: "findM P xs = Inr (Some x) \<Longrightarrow> x \<in> set xs \<and> P x = Inr True"
  by (induction xs) (auto split: if_splits)

lemma findM_None: "findM P xs = Inr None \<longleftrightarrow> (\<forall>x\<in>set xs. P x = Inr False)"
  by (induction xs) (auto split: if_splits)

lemma Pending_reason_spec:
  assumes "Pending_isReasonToWitness D b s = Inr (Some h)"
  shows "h \<in> set (Block_parentHashes b) \<and> dg_hasVertex D (pm_dag s) h \<and>
    (\<exists>path\<in>set (dg_findPathsDown D (pm_dag s) h). \<exists>v\<in>set path. \<exists>y. dg_readObj D (pm_dag s) v = Some y \<and>
       \<not> po_bIsEmpty y \<and> hd_conciliumId (po_blockHeader y) \<noteq> Block_getConciliumId b)"
proof -
  have r: "readObjR D (pm_dag s) v = Inr x \<longleftrightarrow> dg_readObj D (pm_dag s) v = Some x" for v x
    by (simp add: readObjR_def split: option.splits)
  from assms findM_Some [of _ _ h] show ?thesis
    unfolding Pending_isReasonToWitness_def Let_def
    by (fastforce simp: r dest!: findM_Some split: if_splits)
qed

text \<open>Without a reason, every pending parent is an own empty block or stands on own and empty blocks only.\<close>

lemma Pending_noReason_spec:
  assumes "Pending_isReasonToWitness D b s = Inr None" and "h \<in> set (Block_parentHashes b)"
    and "dg_hasVertex D (pm_dag s) h"
  shows "\<exists>x. dg_readObj D (pm_dag s) h = Some x \<and>
    (hd_conciliumId (po_blockHeader x) = Block_getConciliumId b \<and> po_bIsEmpty x \<or>
     (\<forall>path\<in>set (dg_findPathsDown D (pm_dag s) h). \<forall>v\<in>set path. \<exists>y. dg_readObj D (pm_dag s) v = Some y \<and>
       (po_bIsEmpty y \<or> hd_conciliumId (po_blockHeader y) = Block_getConciliumId b)))"
proof -
  have r: "readObjR D (pm_dag s) v = Inr x \<longleftrightarrow> dg_readObj D (pm_dag s) v = Some x" for v x
    by (simp add: readObjR_def split: option.splits)
  from assms show ?thesis
    unfolding Pending_isReasonToWitness_def Let_def findM_None
    by (fastforce simp: r findM_None split: if_splits)
qed

section \<open>The graph of headers\<close>

lemma MainDag_addBlock_spec:
  assumes D: "dag_ok D"
  shows "dg_readObj D (MainDag_addBlock D B bi g) h =
      (if h = BlockInfo_getHash B bi then Some bi else dg_readObj D g h)"
    and "BlockInfo_getHash B bi \<noteq> GENESIS_BLOCK \<Longrightarrow> BlockInfo_parentHashes bi \<noteq> [] \<Longrightarrow>
      set (dg_V D (MainDag_addBlock D B bi g)) =
        insert (BlockInfo_getHash B bi) (set (BlockInfo_parentHashes bi)) \<union> set (dg_V D g)"
proof -
  have f: "dg_readObj D (fold (\<lambda>p g. dg_add D u p g) ps g) = dg_readObj D g" for ps u g
    using D by (induction ps arbitrary: g) (auto simp: dag_ok_def)
  have "set (dg_V D (fold (\<lambda>p g. dg_add D u p g) ps g)) =
      (if ps = [] then {} else insert u (set ps)) \<union> set (dg_V D g)" for ps u g
    using D by (induction ps arbitrary: g) (auto simp: dag_ok_def split: if_splits)
  then show "BlockInfo_getHash B bi \<noteq> GENESIS_BLOCK \<Longrightarrow> BlockInfo_parentHashes bi \<noteq> [] \<Longrightarrow>
      set (dg_V D (MainDag_addBlock D B bi g)) =
        insert (BlockInfo_getHash B bi) (set (BlockInfo_parentHashes bi)) \<union> set (dg_V D g)"
    using D by (simp add: MainDag_addBlock_def Let_def dag_ok_def)
  show "dg_readObj D (MainDag_addBlock D B bi g) h =
      (if h = BlockInfo_getHash B bi then Some bi else dg_readObj D g h)"
    using D by (simp add: MainDag_addBlock_def Let_def dag_ok_def f)
qed

end
