(* ===== verification/Cil_Mempool.thy ===== *)
theory Cil_Mempool
  imports Cil_Transaction Complex_Main
begin

text \<open>
  The transactions waiting for a block (\<open>node/mempool.js\<close>) and the cache of what was already asked
  from a peer (\<open>node/requestsCache.js\<close>). Transactions that came over the wire are kept per concilium
  with their time of arrival and may be trimmed; the node's own transactions are kept apart with the
  patch of their execution and mirrored to a file; hashes of transactions that failed are remembered
  for a while. \<open>Date.now()\<close> is the argument \<open>now\<close>. The file is the value \<open>mp_disk\<close>: its keys with the
  encoded transactions; \<open>None\<close> means that it does not exist.
\<close>

section \<open>State\<close>

definition MEMPOOL_TX_QTY :: int where "MEMPOOL_TX_QTY = 500"
definition MEMPOOL_TX_LIFETIME :: int where "MEMPOOL_TX_LIFETIME = 24 * 60 * 60 * 1000"
definition MEMPOOL_BAD_TX_CACHE :: int where "MEMPOOL_BAD_TX_CACHE = 10 * 60 * 1000"

record wire_tx =
  wt_tx :: tx
  wt_arrived :: int

record 'p local_tx =
  lt_tx :: tx
  lt_patchTx :: "'p option"

record 'p mempool =
  mp_mapConcilimTxns :: "(nat, (hash, wire_tx) jsmap) jsmap"
  mp_mapLocalTxns :: "(hash, 'p local_tx) jsmap"
  mp_mapBadTxnsHash :: "(hash, int) jsmap"
  mp_setPreferredConciliums :: "nat list"
  mp_fileName :: bool
  mp_disk :: "(hash, string) jsmap option"

definition Mempool_new :: "bool \<Rightarrow> (hash, string) jsmap option \<Rightarrow> 'p mempool" where
  "Mempool_new fileName disk =
     \<lparr>mp_mapConcilimTxns = [], mp_mapLocalTxns = [], mp_mapBadTxnsHash = [],
      mp_setPreferredConciliums = [], mp_fileName = fileName, mp_disk = disk\<rparr>"

text \<open>The codec of a transaction: \<open>tx.encode()\<close> and \<open>new Transaction(buffer)\<close>, which may throw.\<close>

record tx_codec =
  tc_encode :: "tx \<Rightarrow> string"
  tc_decode :: "string \<Rightarrow> tx res"

section \<open>Lookup\<close>

definition Mempool_ensureConciliumTxns :: "nat \<Rightarrow> 'p mempool \<Rightarrow> 'p mempool" where
  "Mempool_ensureConciliumTxns nConciliumId m =
     (if \<not> jhas (mp_mapConcilimTxns m) nConciliumId
      then m\<lparr>mp_mapConcilimTxns := jset nConciliumId [] (mp_mapConcilimTxns m)\<rparr> else m)"

text \<open>The key of the first map that has the hash; the code returns the map itself.\<close>

definition Mempool_searchMapByHash :: "hash \<Rightarrow> 'p mempool \<Rightarrow> nat option" where
  "Mempool_searchMapByHash txHash m =
     map_option fst (find (\<lambda>(_, mapTxns). jhas mapTxns txHash) (mp_mapConcilimTxns m))"

definition Mempool_conciliumTxns :: "nat \<Rightarrow> 'p mempool \<Rightarrow> (hash, wire_tx) jsmap" where
  "Mempool_conciliumTxns n m = (case jget (mp_mapConcilimTxns m) n of Some x \<Rightarrow> x | None \<Rightarrow> [])"

definition Mempool_hasTx :: "hash \<Rightarrow> 'p mempool \<Rightarrow> bool res" where
  "Mempool_hasTx txHash m =
     bindR (typeforce (isHash256 txHash)) (\<lambda>_.
     Inr (jhas (mp_mapLocalTxns m) txHash \<or> jhas (mp_mapBadTxnsHash m) txHash
          \<or> Mempool_searchMapByHash txHash m \<noteq> None))"

definition Mempool_getTx :: "hash \<Rightarrow> 'p mempool \<Rightarrow> tx res" where
  "Mempool_getTx txHash m =
     bindR (Mempool_hasTx txHash m) (\<lambda>b.
     bindR (assertR b (Error ''Mempool: No tx found by hash'')) (\<lambda>_.
     case jget (mp_mapLocalTxns m) txHash of
       Some l \<Rightarrow> Inr (lt_tx l)
     | None \<Rightarrow> (case Mempool_searchMapByHash txHash m of
         None \<Rightarrow> Inl (TypeError ''Cannot read property of undefined'')
       | Some n \<Rightarrow> (case jget (Mempool_conciliumTxns n m) txHash of
           Some w \<Rightarrow> Inr (wt_tx w)
         | None \<Rightarrow> Inl (TypeError ''Cannot read property of undefined'')))))"

definition Mempool_getFinalTxns :: "nat \<Rightarrow> 'p mempool \<Rightarrow> tx list \<times> 'p mempool" where
  "Mempool_getFinalTxns nConciliumId m =
     (let m' = Mempool_ensureConciliumTxns nConciliumId m
      in (map wt_tx (jvalues (Mempool_conciliumTxns nConciliumId m'))
          @ filter (\<lambda>t. Transaction_conciliumId t = nConciliumId)
              (map lt_tx (jvalues (mp_mapLocalTxns m'))), m'))"

definition Mempool_getLocalTxnHashes :: "'p mempool \<Rightarrow> hash list" where
  "Mempool_getLocalTxnHashes m = jkeys (mp_mapLocalTxns m)"

definition Mempool_getLocalTxnsPatches :: "'p mempool \<Rightarrow> (hash \<times> 'p option) list" where
  "Mempool_getLocalTxnsPatches m = map (\<lambda>(h, l). (h, lt_patchTx l)) (mp_mapLocalTxns m)"

definition Mempool_getContent :: "'p mempool \<Rightarrow> hash list" where
  "Mempool_getContent m =
     concat (map (\<lambda>(_, mapTxns). jkeys mapTxns) (mp_mapConcilimTxns m)) @ jkeys (mp_mapLocalTxns m)"

definition Mempool_calcSize :: "'p mempool \<Rightarrow> int" where
  "Mempool_calcSize m = sum_list (map (\<lambda>(_, mapTxns). int (length mapTxns)) (mp_mapConcilimTxns m))"

definition Mempool_calcPrefferedSize :: "'p mempool \<Rightarrow> int" where
  "Mempool_calcPrefferedSize m =
     sum_list (map (\<lambda>n. int (length (Mempool_conciliumTxns n m))) (mp_setPreferredConciliums m))"

section \<open>Trimming\<close>

text \<open>\<open>Math.round(a / b)\<close> on integers, halves going up; the loop over an empty map removes nothing.\<close>

definition roundDiv :: "int \<Rightarrow> int \<Rightarrow> int" where
  "roundDiv a b = (2 * a + b) div (2 * b)"

definition Mempool_purgeMaps :: "nat list \<Rightarrow> int \<Rightarrow> 'p mempool \<Rightarrow> 'p mempool" where
  "Mempool_purgeMaps ids nDesiredSize m =
     (let nCurrentSize = sum_list (map (\<lambda>n. int (length (Mempool_conciliumTxns n m))) ids);
          nToRemove = nCurrentSize - nDesiredSize
      in fold (\<lambda>n m.
           let mapTxns = Mempool_conciliumTxns n m;
               nThisMapRemove = roundDiv (nToRemove * int (length mapTxns)) nCurrentSize
           in m\<lparr>mp_mapConcilimTxns :=
                  jset n (drop (nat nThisMapRemove) mapTxns) (mp_mapConcilimTxns m)\<rparr>) ids m)"

definition Mempool_clearMap :: "nat \<Rightarrow> 'p mempool \<Rightarrow> 'p mempool" where
  "Mempool_clearMap n m = m\<lparr>mp_mapConcilimTxns := jset n [] (mp_mapConcilimTxns m)\<rparr>"

definition Mempool_limitConstraints :: "'p mempool \<Rightarrow> 'p mempool" where
  "Mempool_limitConstraints m =
     (let nCurrentSize = Mempool_calcSize m;
          nTrimmedSize = 2 * nCurrentSize div 3;
          ids = jkeys (mp_mapConcilimTxns m);
          preferred = filter (\<lambda>n. n \<in> set (mp_setPreferredConciliums m)) ids;
          other = filter (\<lambda>n. n \<notin> set (mp_setPreferredConciliums m)) ids
      in if nCurrentSize < MEMPOOL_TX_QTY then m
         else if mp_setPreferredConciliums m \<noteq> [] then
           (let nPrefferedSize = Mempool_calcPrefferedSize m
            in if nPrefferedSize < MEMPOOL_TX_QTY
               then Mempool_purgeMaps other (MEMPOOL_TX_QTY - nPrefferedSize) m
               else fold Mempool_clearMap other (Mempool_purgeMaps preferred nTrimmedSize m))
         else Mempool_purgeMaps ids nTrimmedSize m)"

definition Mempool_purgeOutdated :: "int \<Rightarrow> 'p mempool \<Rightarrow> 'p mempool" where
  "Mempool_purgeOutdated now m =
     m\<lparr>mp_mapConcilimTxns := map (\<lambda>(n, mapTxns).
          (n, filter (\<lambda>(_, w). \<not> wt_arrived w < now - MEMPOOL_TX_LIFETIME) mapTxns)) (mp_mapConcilimTxns m),
       mp_mapBadTxnsHash :=
         filter (\<lambda>(_, msecAdded). \<not> msecAdded < now - MEMPOOL_BAD_TX_CACHE) (mp_mapBadTxnsHash m)\<rparr>"

section \<open>Adding and removing\<close>

definition Mempool_addTx :: "crypto \<Rightarrow> int \<Rightarrow> tx \<Rightarrow> (unit, 'p mempool) act" where
  "Mempool_addTx C now t m =
     (let nConciliumId = Transaction_conciliumId t;
          m1 = Mempool_limitConstraints (Mempool_ensureConciliumTxns nConciliumId m);
          strHash = Transaction_getHash C t
      in case Mempool_hasTx strHash m1 of
           Inl e \<Rightarrow> (Inl e, m1)
         | Inr True \<Rightarrow> (Inl (Error ''tx already in mempool''), m1)
         | Inr False \<Rightarrow> (Inr (), m1\<lparr>mp_mapConcilimTxns :=
             jset nConciliumId (jset strHash \<lparr>wt_tx = t, wt_arrived = now\<rparr>
               (Mempool_conciliumTxns nConciliumId m1)) (mp_mapConcilimTxns m1)\<rparr>))"

definition Mempool_dumpToDisk :: "tx_codec \<Rightarrow> 'p mempool \<Rightarrow> 'p mempool" where
  "Mempool_dumpToDisk D m =
     (if \<not> mp_fileName m then m
      else m\<lparr>mp_disk := Some (map (\<lambda>(h, l). (h, tc_encode D (lt_tx l))) (mp_mapLocalTxns m))\<rparr>)"

definition Mempool_addLocalTx ::
  "crypto \<Rightarrow> tx_codec \<Rightarrow> tx \<Rightarrow> 'p option \<Rightarrow> bool \<Rightarrow> 'p mempool \<Rightarrow> 'p mempool" where
  "Mempool_addLocalTx C D t patchTx suppressDump m =
     (let strHash = Transaction_getHash C t;
          m' = m\<lparr>mp_mapLocalTxns :=
                   jset strHash \<lparr>lt_tx = t, lt_patchTx = patchTx\<rparr> (mp_mapLocalTxns m)\<rparr>
      in if \<not> suppressDump \<and> length (mp_mapLocalTxns m) \<noteq> length (mp_mapLocalTxns m')
         then Mempool_dumpToDisk D m' else m')"

definition Mempool_loadLocalTxnsFromDisk :: "crypto \<Rightarrow> tx_codec \<Rightarrow> 'p mempool \<Rightarrow> 'p mempool" where
  "Mempool_loadLocalTxnsFromDisk C D m =
     (if \<not> mp_fileName m then m
      else case mp_disk m of
        None \<Rightarrow> m
      | Some objTxns \<Rightarrow>
          snd (fold (\<lambda>(_, enc) (ok, m).
                 if \<not> ok then (False, m)
                 else case tc_decode D enc of
                        Inl _ \<Rightarrow> (False, m)
                      | Inr t \<Rightarrow> (True, Mempool_addLocalTx C D t None True m)) objTxns (True, m)))"

definition Mempool_removeOne :: "hash \<Rightarrow> 'p mempool \<Rightarrow> 'p mempool" where
  "Mempool_removeOne txHash m =
     (if jhas (mp_mapLocalTxns m) txHash
      then m\<lparr>mp_mapLocalTxns := jdelete txHash (mp_mapLocalTxns m)\<rparr>
      else case Mempool_searchMapByHash txHash m of
        Some n \<Rightarrow> m\<lparr>mp_mapConcilimTxns :=
                    jset n (jdelete txHash (Mempool_conciliumTxns n m)) (mp_mapConcilimTxns m)\<rparr>
      | None \<Rightarrow> m)"

definition Mempool_removeTxns :: "tx_codec \<Rightarrow> hash list \<Rightarrow> 'p mempool \<Rightarrow> 'p mempool" where
  "Mempool_removeTxns D arrTxHashes m =
     (let m' = fold Mempool_removeOne arrTxHashes m
      in if length (mp_mapLocalTxns m) \<noteq> length (mp_mapLocalTxns m')
         then Mempool_dumpToDisk D m' else m')"

definition Mempool_removeForBlock :: "tx_codec \<Rightarrow> hash list \<Rightarrow> 'p mempool \<Rightarrow> 'p mempool" where
  "Mempool_removeForBlock = Mempool_removeTxns"

definition Mempool_storeBadTxHash :: "int \<Rightarrow> hash \<Rightarrow> 'p mempool \<Rightarrow> 'p mempool res" where
  "Mempool_storeBadTxHash now strTxHash m =
     bindR (typeforce (isHash256 strTxHash)) (\<lambda>_.
     Inr (m\<lparr>mp_mapBadTxnsHash := jset strTxHash now (mp_mapBadTxnsHash m)\<rparr>))"

definition Mempool_isBadTx :: "hash \<Rightarrow> 'p mempool \<Rightarrow> bool res" where
  "Mempool_isBadTx strTxHash m =
     bindR (typeforce (isHash256 strTxHash)) (\<lambda>_. Inr (jhas (mp_mapBadTxnsHash m) strTxHash))"

definition Mempool_setPreferredConciliums :: "nat list \<Rightarrow> 'p mempool \<Rightarrow> 'p mempool" where
  "Mempool_setPreferredConciliums arrIds m =
     m\<lparr>mp_setPreferredConciliums := fold sadd arrIds (mp_setPreferredConciliums m)\<rparr>"

section \<open>The cache of requests\<close>

definition INV_REQUEST_HOLDOFF :: int where "INV_REQUEST_HOLDOFF = 1 * 60 * 1000"

type_synonym requestCache = "(hash, int) jsmap"

definition RequestCache_new :: requestCache where
  "RequestCache_new = []"

definition RequestCache_request :: "int \<Rightarrow> hash \<Rightarrow> requestCache \<Rightarrow> (bool \<times> requestCache) res" where
  "RequestCache_request now h m =
     bindR (typeforce (isHash256 h)) (\<lambda>_.
     Inr (case jget m h of
            Some awaitTill \<Rightarrow> if awaitTill > now then (False, m)
                              else (True, jset h (now + INV_REQUEST_HOLDOFF) m)
          | None \<Rightarrow> (True, jset h (now + INV_REQUEST_HOLDOFF) m)))"

definition RequestCache_isRequested :: "int \<Rightarrow> hash \<Rightarrow> requestCache \<Rightarrow> bool res" where
  "RequestCache_isRequested now h m =
     bindR (typeforce (isHash256 h)) (\<lambda>_.
     Inr (case jget m h of Some awaitTill \<Rightarrow> awaitTill \<noteq> 0 \<and> awaitTill > now | None \<Rightarrow> False))"

definition RequestCache_done :: "hash \<Rightarrow> requestCache \<Rightarrow> requestCache res" where
  "RequestCache_done h m = bindR (typeforce (isHash256 h)) (\<lambda>_. Inr (jdelete h m))"

definition RequestCache_purgeOutdated :: "int \<Rightarrow> requestCache \<Rightarrow> requestCache" where
  "RequestCache_purgeOutdated now m =
     fold (\<lambda>h m'. case jget m' h of
              Some awaitTill \<Rightarrow> if awaitTill = 0 \<or> awaitTill < now then jdelete h m' else m'
            | None \<Rightarrow> jdelete h m') (jkeys m) m"

definition RequestCache_isEmpty :: "int \<Rightarrow> requestCache \<Rightarrow> bool \<times> requestCache" where
  "RequestCache_isEmpty now m =
     (let m' = RequestCache_purgeOutdated now m in (length m' = 0, m'))"

section \<open>Well-formed mempools\<close>

text \<open>
  Every map of the mempool has one entry per key, every transaction is filed under its own hash and
  its own concilium, and no hash is filed under two conciliums.
\<close>

definition Mempool_wf :: "crypto \<Rightarrow> 'p mempool \<Rightarrow> bool" where
  "Mempool_wf C m \<longleftrightarrow>
     jwf (mp_mapConcilimTxns m) \<and> jwf (mp_mapLocalTxns m) \<and> jwf (mp_mapBadTxnsHash m) \<and>
     distinct (mp_setPreferredConciliums m) \<and>
     (\<forall>n. jwf (Mempool_conciliumTxns n m)) \<and>
     (\<forall>n h w. jget (Mempool_conciliumTxns n m) h = Some w \<longrightarrow>
        h = Transaction_getHash C (wt_tx w) \<and> Transaction_conciliumId (wt_tx w) = n) \<and>
     (\<forall>h l. jget (mp_mapLocalTxns m) h = Some l \<longrightarrow> h = Transaction_getHash C (lt_tx l)) \<and>
     (\<forall>n n' h. jhas (Mempool_conciliumTxns n m) h \<longrightarrow> jhas (Mempool_conciliumTxns n' m) h \<longrightarrow> n = n')"

text \<open>What trimming and ageing do: every map keeps a part of its entries, the rest is untouched.\<close>

definition Mempool_shrunk :: "'p mempool \<Rightarrow> 'p mempool \<Rightarrow> bool" where
  "Mempool_shrunk m m' \<longleftrightarrow>
     jkeys (mp_mapConcilimTxns m') = jkeys (mp_mapConcilimTxns m) \<and>
     mp_mapLocalTxns m' = mp_mapLocalTxns m \<and>
     mp_setPreferredConciliums m' = mp_setPreferredConciliums m \<and>
     mp_fileName m' = mp_fileName m \<and> mp_disk m' = mp_disk m \<and>
     (jwf (mp_mapBadTxnsHash m) \<longrightarrow> jwf (mp_mapBadTxnsHash m')) \<and>
     (\<forall>n. jwf (Mempool_conciliumTxns n m) \<longrightarrow> jwf (Mempool_conciliumTxns n m') \<and>
        jget (Mempool_conciliumTxns n m') \<subseteq>\<^sub>m jget (Mempool_conciliumTxns n m))"

lemma Mempool_shrunk_refl [simp]: "Mempool_shrunk m m"
  by (simp add: Mempool_shrunk_def)

lemma Mempool_shrunk_trans: "Mempool_shrunk a b \<Longrightarrow> Mempool_shrunk b c \<Longrightarrow> Mempool_shrunk a c"
  unfolding Mempool_shrunk_def by (auto intro: map_le_trans)

lemma Mempool_conciliumTxns_jset [simp]:
  "Mempool_conciliumTxns n (m\<lparr>mp_mapConcilimTxns := jset k x (mp_mapConcilimTxns m)\<rparr>) =
     (if n = k then x else Mempool_conciliumTxns n m)"
  by (simp add: Mempool_conciliumTxns_def jget_jset)

lemma Mempool_conciliumTxns_cong:
  "mp_mapConcilimTxns m = mp_mapConcilimTxns m' \<Longrightarrow> Mempool_conciliumTxns n m = Mempool_conciliumTxns n m'"
  by (simp add: Mempool_conciliumTxns_def)

lemma Mempool_conciliumTxns_upd [simp]:
  "Mempool_conciliumTxns n (m\<lparr>mp_mapLocalTxns := l\<rparr>) = Mempool_conciliumTxns n m"
  "Mempool_conciliumTxns n (m\<lparr>mp_mapBadTxnsHash := b\<rparr>) = Mempool_conciliumTxns n m"
  "Mempool_conciliumTxns n (m\<lparr>mp_setPreferredConciliums := p\<rparr>) = Mempool_conciliumTxns n m"
  "Mempool_conciliumTxns n (m\<lparr>mp_disk := d\<rparr>) = Mempool_conciliumTxns n m"
  by (simp_all add: Mempool_conciliumTxns_def)

lemma map_le_Some: "f \<subseteq>\<^sub>m g \<Longrightarrow> f k = Some v \<Longrightarrow> g k = Some v"
  by (auto simp: map_le_def dom_def)

lemma Mempool_wf_shrunk:
  assumes wf: "Mempool_wf C m" and sh: "Mempool_shrunk m m'"
  shows "Mempool_wf C m'"
proof -
  have sub: "jget (Mempool_conciliumTxns n m') h = Some w \<Longrightarrow> jget (Mempool_conciliumTxns n m) h = Some w"
    for n h w using sh wf by (auto simp: Mempool_shrunk_def Mempool_wf_def intro: map_le_Some)
  have has: "jhas (Mempool_conciliumTxns n m') h \<Longrightarrow> jhas (Mempool_conciliumTxns n m) h" for n h
    using sub by (auto simp: jhas_jget)
  have one: "jhas (Mempool_conciliumTxns n m) h \<Longrightarrow> jhas (Mempool_conciliumTxns n' m) h \<Longrightarrow> n = n'" for n n' h
    using wf unfolding Mempool_wf_def by blast
  have filed: "h = Transaction_getHash C (wt_tx w) \<and> Transaction_conciliumId (wt_tx w) = n"
    if "jget (Mempool_conciliumTxns n m') h = Some w" for n h w
    using wf sub [OF that] unfolding Mempool_wf_def by blast
  show ?thesis
    unfolding Mempool_wf_def
  proof (intro conjI allI impI)
    fix n n' h assume "jhas (Mempool_conciliumTxns n m') h" "jhas (Mempool_conciliumTxns n' m') h"
    then show "n = n'" using one has by blast
  qed (use wf sh filed in \<open>auto simp: Mempool_wf_def Mempool_shrunk_def jwf_def jkeys_def\<close>)
qed

lemma jget_part:
  assumes "jwf m" and "set m' \<subseteq> set m"
  shows "jget m' \<subseteq>\<^sub>m jget m"
proof -
  have "jget m k = Some v" if "jget m' k = Some v" for k v
    using jget_Some_in [OF that] assms by (simp add: jget_iff_in subset_iff)
  then show ?thesis by (auto simp: map_le_def)
qed

lemma jget_drop: "jwf m \<Longrightarrow> jget (drop k m) \<subseteq>\<^sub>m jget m"
  by (rule jget_part) (auto dest: in_set_dropD)

lemma jwf_drop: "jwf m \<Longrightarrow> jwf (drop k m)"
  by (simp add: jwf_def drop_map [symmetric])

lemma jwf_filter: "jwf m \<Longrightarrow> jwf (filter P m)"
  by (simp add: jwf_def distinct_map_filter)

lemma jget_filter: "jwf m \<Longrightarrow> jget (filter P m) \<subseteq>\<^sub>m jget m"
  by (rule jget_part) auto

lemma Mempool_shrunk_jset:
  assumes "n \<in> set (jkeys (mp_mapConcilimTxns m))"
    and "jwf (Mempool_conciliumTxns n m) \<Longrightarrow> jwf x \<and> jget x \<subseteq>\<^sub>m jget (Mempool_conciliumTxns n m)"
  shows "Mempool_shrunk m (m\<lparr>mp_mapConcilimTxns := jset n x (mp_mapConcilimTxns m)\<rparr>)"
  using assms by (auto simp: Mempool_shrunk_def jm.keys_put_old js_dom)

text \<open>What \<open>purgeMaps\<close> leaves in each map.\<close>

lemma Mempool_purge_fold:
  assumes "distinct ids" and "set ids \<subseteq> set (jkeys (mp_mapConcilimTxns m))"
  defines "step \<equiv> \<lambda>k n m. m\<lparr>mp_mapConcilimTxns :=
      jset n (drop (k (length (Mempool_conciliumTxns n m))) (Mempool_conciliumTxns n m)) (mp_mapConcilimTxns m)\<rparr>"
  shows "Mempool_shrunk m (fold (step k) ids m) \<and>
    (\<forall>n. Mempool_conciliumTxns n (fold (step k) ids m) =
      (if n \<in> set ids then drop (k (length (Mempool_conciliumTxns n m))) (Mempool_conciliumTxns n m)
       else Mempool_conciliumTxns n m))"
  using assms(1,2)
proof (induction ids arbitrary: m)
  case (Cons i ids)
  let ?m = "step k i m"
  have sh: "Mempool_shrunk m ?m"
    unfolding step_def using Cons.prems(2)
    by (intro Mempool_shrunk_jset) (auto simp: jwf_drop jget_drop)
  then have "set ids \<subseteq> set (jkeys (mp_mapConcilimTxns ?m))"
    using Cons.prems(2) by (simp add: Mempool_shrunk_def)
  with Cons.IH [of ?m] Cons.prems(1) have IH: "Mempool_shrunk ?m (fold (step k) ids ?m)"
    "\<forall>n. Mempool_conciliumTxns n (fold (step k) ids ?m) =
      (if n \<in> set ids then drop (k (length (Mempool_conciliumTxns n ?m))) (Mempool_conciliumTxns n ?m)
       else Mempool_conciliumTxns n ?m)" by auto
  have "Mempool_conciliumTxns n ?m = (if n = i then drop (k (length (Mempool_conciliumTxns n m)))
      (Mempool_conciliumTxns n m) else Mempool_conciliumTxns n m)" for n
    by (auto simp: step_def)
  then show ?case
    using Mempool_shrunk_trans [OF sh IH(1)] IH(2) Cons.prems(1) by auto
qed simp

lemma Mempool_purgeMaps_spec:
  assumes "distinct ids" and "set ids \<subseteq> set (jkeys (mp_mapConcilimTxns m))"
  shows "Mempool_shrunk m (Mempool_purgeMaps ids d m)"
    and "Mempool_conciliumTxns n (Mempool_purgeMaps ids d m) =
      (if n \<in> set ids then
         drop (nat (roundDiv
             ((sum_list (map (\<lambda>n. int (length (Mempool_conciliumTxns n m))) ids) - d)
                * int (length (Mempool_conciliumTxns n m)))
             (sum_list (map (\<lambda>n. int (length (Mempool_conciliumTxns n m))) ids))))
           (Mempool_conciliumTxns n m)
       else Mempool_conciliumTxns n m)"
  using Mempool_purge_fold [OF assms, of "\<lambda>s. nat (roundDiv
      ((sum_list (map (\<lambda>n. int (length (Mempool_conciliumTxns n m))) ids) - d) * int s)
      (sum_list (map (\<lambda>n. int (length (Mempool_conciliumTxns n m))) ids)))"]
  unfolding Mempool_purgeMaps_def Let_def by simp_all

lemma Mempool_clear_shrunk:
  "set ids \<subseteq> set (jkeys (mp_mapConcilimTxns m)) \<Longrightarrow> Mempool_shrunk m (fold Mempool_clearMap ids m) \<and>
    (\<forall>n. Mempool_conciliumTxns n (fold Mempool_clearMap ids m) =
      (if n \<in> set ids then [] else Mempool_conciliumTxns n m))"
proof (induction ids arbitrary: m)
  case (Cons i ids)
  have sh: "Mempool_shrunk m (Mempool_clearMap i m)"
    unfolding Mempool_clearMap_def using Cons.prems by (intro Mempool_shrunk_jset) (auto simp: map_le_def)
  then have "set ids \<subseteq> set (jkeys (mp_mapConcilimTxns (Mempool_clearMap i m)))"
    using Cons.prems by (simp add: Mempool_shrunk_def)
  note IH = Cons.IH [OF this]
  have "Mempool_conciliumTxns n (Mempool_clearMap i m) = (if n = i then [] else Mempool_conciliumTxns n m)" for n
    by (simp add: Mempool_clearMap_def)
  then show ?case using Mempool_shrunk_trans [OF sh] IH by auto
qed simp

lemma Mempool_keys_distinct: "jwf (mp_mapConcilimTxns m) \<Longrightarrow> distinct (jkeys (mp_mapConcilimTxns m))"
  by (simp add: jm.wf_keys)

lemma Mempool_shrunk_limit:
  assumes "jwf (mp_mapConcilimTxns m)"
  shows "Mempool_shrunk m (Mempool_limitConstraints m)"
proof -
  let ?ids = "jkeys (mp_mapConcilimTxns m)"
  have p: "Mempool_shrunk m (Mempool_purgeMaps (filter P ?ids) d m)" for P d
    using Mempool_keys_distinct [OF assms] by (intro Mempool_purgeMaps_spec(1)) auto
  have all: "Mempool_shrunk m (Mempool_purgeMaps ?ids d m)" for d
    using Mempool_keys_distinct [OF assms] by (intro Mempool_purgeMaps_spec(1)) auto
  have c: "Mempool_shrunk m (fold Mempool_clearMap (filter Q ?ids) (Mempool_purgeMaps (filter P ?ids) d m))" for P Q d
    using p [of P d] by (rule Mempool_shrunk_trans)
      (use p [of P d] in \<open>intro Mempool_clear_shrunk [THEN conjunct1], auto simp: Mempool_shrunk_def\<close>)
  show ?thesis unfolding Mempool_limitConstraints_def Let_def by (simp add: p all c)
qed

section \<open>Every operation keeps the mempool well formed\<close>

lemma Mempool_wf_new: "Mempool_wf C (Mempool_new f d)"
  by (simp add: Mempool_wf_def Mempool_new_def Mempool_conciliumTxns_def jhas_jget)

lemma Mempool_wf_ensure: "Mempool_wf C m \<Longrightarrow> Mempool_wf C (Mempool_ensureConciliumTxns n m)"
  and Mempool_conciliumTxns_ensure [simp]:
    "Mempool_conciliumTxns k (Mempool_ensureConciliumTxns n m) = Mempool_conciliumTxns k m"
  and Mempool_ensure_key: "n \<in> set (jkeys (mp_mapConcilimTxns (Mempool_ensureConciliumTxns n m)))"
proof -
  have get: "Mempool_conciliumTxns k (Mempool_ensureConciliumTxns n m) = Mempool_conciliumTxns k m" for k
    by (auto simp: Mempool_ensureConciliumTxns_def Mempool_conciliumTxns_def jhas_jget jget_jset)
  show "Mempool_conciliumTxns k (Mempool_ensureConciliumTxns n m) = Mempool_conciliumTxns k m"
    by (rule get)
  show "Mempool_wf C m \<Longrightarrow> Mempool_wf C (Mempool_ensureConciliumTxns n m)"
    unfolding Mempool_wf_def get by (simp add: Mempool_ensureConciliumTxns_def)
  show "n \<in> set (jkeys (mp_mapConcilimTxns (Mempool_ensureConciliumTxns n m)))"
    by (auto simp: Mempool_ensureConciliumTxns_def js_dom jhas_jget jget_jset)
qed

lemma Mempool_search_None:
  "jwf (mp_mapConcilimTxns m) \<Longrightarrow>
   Mempool_searchMapByHash h m = None \<longleftrightarrow> (\<forall>n. \<not> jhas (Mempool_conciliumTxns n m) h)"
  unfolding Mempool_searchMapByHash_def Mempool_conciliumTxns_def
  by (force simp: find_None_iff jget_iff_in jhas_jget split: option.splits)

lemma Mempool_search_SomeD:
  assumes "jwf (mp_mapConcilimTxns m)" and "Mempool_searchMapByHash h m = Some n"
  shows "jhas (Mempool_conciliumTxns n m) h \<and> n \<in> set (jkeys (mp_mapConcilimTxns m))"
proof -
  from assms(2) obtain x where x: "(n, x) \<in> set (mp_mapConcilimTxns m)" "jhas x h"
    unfolding Mempool_searchMapByHash_def by (auto simp: find_Some_iff) (metis nth_mem)
  with assms(1) have "jget (mp_mapConcilimTxns m) n = Some x" by (simp add: jget_iff_in)
  with x show ?thesis by (auto simp: Mempool_conciliumTxns_def js_dom)
qed

lemma Mempool_wf_put:
  assumes wf: "Mempool_wf C m" and new: "\<forall>n. \<not> jhas (Mempool_conciliumTxns n m) (Transaction_getHash C t)"
  shows "Mempool_wf C (m\<lparr>mp_mapConcilimTxns :=
     jset (Transaction_conciliumId t) (jset (Transaction_getHash C t) \<lparr>wt_tx = t, wt_arrived = now\<rparr>
       (Mempool_conciliumTxns (Transaction_conciliumId t) m)) (mp_mapConcilimTxns m)\<rparr>)"
    (is "Mempool_wf C ?m'")
proof -
  have has: "jhas (Mempool_conciliumTxns n ?m') k \<longleftrightarrow> jhas (Mempool_conciliumTxns n m) k
      \<or> (n = Transaction_conciliumId t \<and> k = Transaction_getHash C t)" for n k
    by (auto simp: jhas_jget jget_jset)
  have one: "jhas (Mempool_conciliumTxns n m) h \<Longrightarrow> jhas (Mempool_conciliumTxns n' m) h \<Longrightarrow> n = n'" for n n' h
    using wf unfolding Mempool_wf_def by blast
  show ?thesis
    unfolding Mempool_wf_def
  proof (intro conjI allI impI)
    fix n n' h assume "jhas (Mempool_conciliumTxns n ?m') h" "jhas (Mempool_conciliumTxns n' ?m') h"
    then show "n = n'" using one new unfolding has by auto
  next
    fix n h w assume "jget (Mempool_conciliumTxns n ?m') h = Some w"
    then show "h = Transaction_getHash C (wt_tx w)" "Transaction_conciliumId (wt_tx w) = n"
      using wf by (auto simp: Mempool_wf_def jget_jset split: if_splits)
  qed (use wf in \<open>auto simp: Mempool_wf_def\<close>)
qed

lemma Mempool_wf_addTx: "Mempool_wf C m \<Longrightarrow> Mempool_wf C (snd (Mempool_addTx C now t m))"
proof -
  assume wf: "Mempool_wf C m"
  let ?m1 = "Mempool_limitConstraints (Mempool_ensureConciliumTxns (Transaction_conciliumId t) m)"
  have e: "Mempool_wf C (Mempool_ensureConciliumTxns (Transaction_conciliumId t) m)"
    by (rule Mempool_wf_ensure [OF wf])
  have wf1: "Mempool_wf C ?m1"
    by (rule Mempool_wf_shrunk [OF e]) (rule Mempool_shrunk_limit, use e in \<open>simp add: Mempool_wf_def\<close>)
  have s: "jwf (mp_mapConcilimTxns ?m1)" using wf1 by (simp add: Mempool_wf_def)
  show ?thesis
    unfolding Mempool_addTx_def Let_def
    using wf1 Mempool_wf_put [OF wf1, of t now] Mempool_search_None [OF s]
    by (auto simp: Mempool_hasTx_def split: sum.splits bool.splits)
qed

lemma Mempool_wf_disk [simp]: "Mempool_wf C (m\<lparr>mp_disk := d\<rparr>) = Mempool_wf C m"
  by (simp add: Mempool_wf_def)

lemma Mempool_wf_dump [simp]: "Mempool_wf C (Mempool_dumpToDisk D m) = Mempool_wf C m"
  by (simp add: Mempool_dumpToDisk_def)

lemma Mempool_wf_local:
  "Mempool_wf C m \<Longrightarrow> Mempool_wf C (m\<lparr>mp_mapLocalTxns :=
     jset (Transaction_getHash C t) \<lparr>lt_tx = t, lt_patchTx = p\<rparr> (mp_mapLocalTxns m)\<rparr>)"
  by (simp add: Mempool_wf_def jget_jset)

lemma Mempool_wf_addLocalTx: "Mempool_wf C m \<Longrightarrow> Mempool_wf C (Mempool_addLocalTx C D t p b m)"
  by (simp add: Mempool_addLocalTx_def Let_def Mempool_wf_local)

lemma Mempool_wf_load: "Mempool_wf C m \<Longrightarrow> Mempool_wf C (Mempool_loadLocalTxnsFromDisk C D m)"
proof -
  assume wf: "Mempool_wf C m"
  have "Mempool_wf C (snd s) \<Longrightarrow> Mempool_wf C (snd (fold (\<lambda>(_, enc) (ok, m).
      if \<not> ok then (False, m) else case tc_decode D enc of Inl _ \<Rightarrow> (False, m)
      | Inr t \<Rightarrow> (True, Mempool_addLocalTx C D t None True m)) xs s))"
    for xs :: "(hash \<times> string) list" and s :: "bool \<times> 'a mempool"
    by (induction xs arbitrary: s) (auto split: sum.splits prod.splits simp: Mempool_wf_addLocalTx)
  from this [of "(True, m)"] wf show ?thesis
    by (simp add: Mempool_loadLocalTxnsFromDisk_def split: option.splits)
qed

lemma Mempool_wf_forget:
  "Mempool_wf C m \<Longrightarrow> Mempool_wf C (m\<lparr>mp_mapLocalTxns := jdelete h (mp_mapLocalTxns m)\<rparr>)"
  by (simp add: Mempool_wf_def jget_jdelete)

lemma Mempool_wf_removeOne: "Mempool_wf C m \<Longrightarrow> Mempool_wf C (Mempool_removeOne h m)"
proof -
  assume wf: "Mempool_wf C m"
  then have w: "jwf (mp_mapConcilimTxns m)" by (simp add: Mempool_wf_def)
  have "Mempool_shrunk m (m\<lparr>mp_mapConcilimTxns :=
      jset n (jdelete h (Mempool_conciliumTxns n m)) (mp_mapConcilimTxns m)\<rparr>)"
    if "Mempool_searchMapByHash h m = Some n" for n
    using Mempool_search_SomeD [OF w that]
    by (intro Mempool_shrunk_jset) (auto simp: map_le_def jget_jdelete split: if_splits)
  then show ?thesis
    unfolding Mempool_removeOne_def using wf Mempool_wf_shrunk [OF wf] Mempool_wf_forget [OF wf]
    by (simp split: option.splits)
qed

lemma Mempool_wf_removeTxns: "Mempool_wf C m \<Longrightarrow> Mempool_wf C (Mempool_removeTxns D hs m)"
proof -
  have "Mempool_wf C m \<Longrightarrow> Mempool_wf C (fold Mempool_removeOne hs m)" for m :: "'a mempool"
    by (induction hs arbitrary: m) (simp_all add: Mempool_wf_removeOne)
  then show "Mempool_wf C m \<Longrightarrow> ?thesis" by (simp add: Mempool_removeTxns_def Let_def)
qed

lemma Mempool_shrunk_purgeOutdated: "Mempool_shrunk m (Mempool_purgeOutdated now m)"
proof -
  let ?f = "\<lambda>x. filter (\<lambda>(_, w). \<not> wt_arrived w < now - MEMPOOL_TX_LIFETIME) x"
  have "map_of (map (\<lambda>(n, x). (n, ?f x)) xs) n = map_option ?f (map_of xs n)" for xs :: "(nat \<times> (hash, wire_tx) jsmap) list" and n
    by (induction xs) auto
  then have "Mempool_conciliumTxns n (Mempool_purgeOutdated now m) = ?f (Mempool_conciliumTxns n m)" for n
    by (simp add: Mempool_conciliumTxns_def Mempool_purgeOutdated_def jget_def split: option.splits)
  then show ?thesis
    by (auto simp: Mempool_shrunk_def Mempool_purgeOutdated_def jkeys_def jwf_filter jget_filter)
qed

section \<open>How large a mempool gets\<close>

lemma Mempool_calcSize_eq:
  assumes "jwf (mp_mapConcilimTxns m)"
  shows "Mempool_calcSize m =
    (\<Sum>n\<in>set (jkeys (mp_mapConcilimTxns m)). int (length (Mempool_conciliumTxns n m)))"
proof -
  have "Mempool_calcSize m =
      sum_list (map (\<lambda>n. int (length (Mempool_conciliumTxns n m))) (jkeys (mp_mapConcilimTxns m)))"
    unfolding Mempool_calcSize_def jkeys_def map_map comp_def
    by (rule arg_cong [where f = sum_list], rule map_cong)
       (use assms in \<open>auto simp: Mempool_conciliumTxns_def jget_iff_in [symmetric]\<close>)
  then show ?thesis
    using assms by (simp add: sum_list_distinct_conv_sum_set Mempool_keys_distinct)
qed

lemma jget_length_le:
  assumes "jwf a" and "jwf b" and "jget a \<subseteq>\<^sub>m jget b"
  shows "length a \<le> length b"
proof -
  have l: "jwf x \<Longrightarrow> length x = card (dom (jget x))" for x :: "('a, 'b) jsmap"
    using jm.length_keys [of x] by (simp add: jkeys_def)
  have "finite (dom (jget b))" by (simp add: jget_eq finite_dom_map_of)
  then show ?thesis
    using assms by (simp add: l card_mono map_le_implies_dom_le)
qed

lemma Mempool_shrunk_calcSize:
  assumes "Mempool_wf C m" and "Mempool_shrunk m m'"
  shows "Mempool_calcSize m' \<le> Mempool_calcSize m"
proof -
  have wf': "Mempool_wf C m'" by (rule Mempool_wf_shrunk [OF assms])
  have "length (Mempool_conciliumTxns n m') \<le> length (Mempool_conciliumTxns n m)" for n
    using assms wf' by (intro jget_length_le) (auto simp: Mempool_wf_def Mempool_shrunk_def)
  then show ?thesis
    using assms wf' by (simp add: Mempool_calcSize_eq Mempool_wf_def Mempool_shrunk_def sum_mono)
qed

text \<open>Rounding to the nearest integer leaves at most half an entry too many in each map.\<close>

lemma roundDiv_left:
  fixes c d s :: int
  assumes "0 < c" and "0 \<le> d" and "0 \<le> s"
  shows "2 * c * max 0 (s - int (nat (roundDiv ((c - d) * s) c))) \<le> 2 * d * s + c"
proof -
  let ?r = "roundDiv ((c - d) * s) c"
  have m: "2 * c * (x div (2 * c)) + x mod (2 * c) = x" for x by (rule mult_div_mod_eq)
  have "2 * ((c - d) * s) + c < 2 * c * ?r + 2 * c"
    using assms(1) m [of "2 * ((c - d) * s) + c"] pos_mod_bound [of "2 * c" "2 * ((c - d) * s) + c"]
    unfolding roundDiv_def by linarith
  then have "2 * c * (s - ?r) \<le> 2 * d * s + c" by (simp add: algebra_simps)
  moreover have "2 * c * (s - int (nat ?r)) \<le> 2 * c * (s - ?r)"
    using assms(1) by simp
  moreover define k where "k = int (nat ?r)"
  ultimately have "2 * c * (s - k) \<le> 2 * d * s + c" by simp
  moreover have "0 \<le> 2 * d * s + c" using assms by simp
  ultimately show ?thesis unfolding k_def [symmetric] by (simp add: max_def)
qed

lemma Mempool_purgeMaps_size:
  assumes ids: "distinct ids" "set ids \<subseteq> set (jkeys (mp_mapConcilimTxns m))" and d: "0 \<le> d"
  shows "2 * (\<Sum>n\<in>set ids. int (length (Mempool_conciliumTxns n (Mempool_purgeMaps ids d m))))
    \<le> 2 * d + int (length ids)"
proof -
  let ?s = "\<lambda>n. int (length (Mempool_conciliumTxns n m))"
  let ?s' = "\<lambda>n. int (length (Mempool_conciliumTxns n (Mempool_purgeMaps ids d m)))"
  define c where "c = (\<Sum>n\<in>set ids. ?s n)"
  have c: "sum_list (map ?s ids) = c"
    using ids(1) by (simp add: c_def sum_list_distinct_conv_sum_set)
  have s': "?s' n = max 0 (?s n - int (nat (roundDiv ((c - d) * ?s n) c)))" if "n \<in> set ids" for n
    using that by (auto simp: Mempool_purgeMaps_spec(2) [OF ids] c max_def le_nat_iff)
  show ?thesis
  proof (cases "0 < c")
    case True
    have "2 * c * (\<Sum>n\<in>set ids. ?s' n) \<le> (\<Sum>n\<in>set ids. 2 * d * ?s n + c)"
      unfolding sum_distrib_left
      by (rule sum_mono, subst s', assumption) (rule roundDiv_left [OF True d], simp)
    also have "\<dots> = c * (2 * d + int (length ids))"
      using ids(1) by (simp add: sum.distrib sum_distrib_left [symmetric] c_def [symmetric]
          distinct_card algebra_simps)
    finally have "c * (2 * (\<Sum>n\<in>set ids. ?s' n)) \<le> c * (2 * d + int (length ids))"
      by (simp add: algebra_simps)
    with True show ?thesis by (simp only: mult_le_cancel_left_pos)
  next
    case False
    have "?s' n \<le> ?s n" if "n \<in> set ids" for n using s' [OF that] by simp
    then have "(\<Sum>n\<in>set ids. ?s' n) \<le> c" unfolding c_def by (rule sum_mono)
    with False d show ?thesis by simp
  qed
qed

lemma trimmed_total:
  fixes a b p q l t :: int
  assumes "a = p" and "2 * b \<le> 2 * (q - p) + l" and "t = a + b"
  shows "2 * t \<le> 2 * q + l"
  using assms by simp

lemma Mempool_limit_size:
  assumes wf: "Mempool_wf C m"
  shows "2 * Mempool_calcSize (Mempool_limitConstraints m)
    \<le> int (length (mp_mapConcilimTxns m)) + 2 * max MEMPOOL_TX_QTY (2 * Mempool_calcSize m div 3)"
proof -
  let ?ids = "jkeys (mp_mapConcilimTxns m)" and ?P = "mp_setPreferredConciliums m"
  let ?len = "\<lambda>m n. int (length (Mempool_conciliumTxns n m))"
  let ?pre = "filter (\<lambda>n. n \<in> set ?P) ?ids" and ?oth = "filter (\<lambda>n. n \<notin> set ?P) ?ids"
  have w: "jwf (mp_mapConcilimTxns m)" using wf by (simp add: Mempool_wf_def)
  note dist = Mempool_keys_distinct [OF w]
  have ge: "0 \<le> Mempool_calcSize m" by (simp add: Mempool_calcSize_eq [OF w] sum_nonneg)
  have sh: "Mempool_shrunk m m' \<Longrightarrow> Mempool_calcSize m' = (\<Sum>n\<in>set ?ids. ?len m' n)" for m'
  proof -
    assume s: "Mempool_shrunk m m'"
    then have "jwf (mp_mapConcilimTxns m')" "jkeys (mp_mapConcilimTxns m') = ?ids"
      using w by (simp_all add: Mempool_shrunk_def jm.wf_keys)
    then show ?thesis by (simp add: Mempool_calcSize_eq)
  qed
  have split: "(\<Sum>n\<in>set ?ids. f n) = (\<Sum>n\<in>set ?pre. f n) + (\<Sum>n\<in>set ?oth. f n)" for f :: "nat \<Rightarrow> int"
    by (subst sum.union_disjoint [symmetric]) (auto intro: sum.cong)
  have l: "length ?pre \<le> length ?ids" "length ?oth \<le> length ?ids" "length ?ids = length (mp_mapConcilimTxns m)"
    by (rule length_filter_le, rule length_filter_le, simp add: jkeys_def)
  have pref: "Mempool_calcPrefferedSize m = (\<Sum>n\<in>set ?pre. ?len m n)"
  proof -
    have "Mempool_calcPrefferedSize m = (\<Sum>n\<in>set ?P. ?len m n)"
      using wf by (simp add: Mempool_calcPrefferedSize_def Mempool_wf_def sum_list_distinct_conv_sum_set)
    also have "\<dots> = (\<Sum>n\<in>set ?pre. ?len m n)"
      by (rule sum.mono_neutral_right) (auto simp: js_dom Mempool_conciliumTxns_def split: option.splits)
    finally show ?thesis .
  qed
  note sp = Mempool_purgeMaps_spec(1) and val = Mempool_purgeMaps_spec(2) and sz = Mempool_purgeMaps_size
  consider (small) "Mempool_calcSize m < MEMPOOL_TX_QTY"
    | (other) "\<not> Mempool_calcSize m < MEMPOOL_TX_QTY" "?P \<noteq> []" "Mempool_calcPrefferedSize m < MEMPOOL_TX_QTY"
    | (preferred) "\<not> Mempool_calcSize m < MEMPOOL_TX_QTY" "?P \<noteq> []" "\<not> Mempool_calcPrefferedSize m < MEMPOOL_TX_QTY"
    | (none) "\<not> Mempool_calcSize m < MEMPOOL_TX_QTY" "?P = []"
    by blast
  then show ?thesis
  proof cases
    case small
    then show ?thesis by (simp add: Mempool_limitConstraints_def Let_def)
  next
    case other
    let ?m = "Mempool_purgeMaps ?oth (MEMPOOL_TX_QTY - Mempool_calcPrefferedSize m) m"
    have o: "distinct ?oth" "set ?oth \<subseteq> set ?ids" using dist by auto
    have d: "0 \<le> MEMPOOL_TX_QTY - Mempool_calcPrefferedSize m" using other(3) by simp
    have "(\<Sum>n\<in>set ?pre. ?len ?m n) = (\<Sum>n\<in>set ?pre. ?len m n)"
      by (rule sum.cong) (simp_all add: val [OF o])
    then have p: "(\<Sum>n\<in>set ?pre. ?len ?m n) = Mempool_calcPrefferedSize m"
      by (simp only: pref)
    have t: "Mempool_calcSize ?m = (\<Sum>n\<in>set ?pre. ?len ?m n) + (\<Sum>n\<in>set ?oth. ?len ?m n)"
      unfolding sh [OF sp [OF o]] by (rule split)
    have "2 * Mempool_calcSize ?m \<le> 2 * MEMPOOL_TX_QTY + int (length ?oth)"
      by (rule trimmed_total [OF p sz [OF o d] t])
    with other l show ?thesis by (simp add: Mempool_limitConstraints_def Let_def)
  next
    case preferred
    let ?m = "Mempool_purgeMaps ?pre (2 * Mempool_calcSize m div 3) m"
    let ?m' = "fold Mempool_clearMap ?oth ?m"
    have o: "distinct ?pre" "set ?pre \<subseteq> set ?ids" using dist by auto
    have k: "set ?oth \<subseteq> set (jkeys (mp_mapConcilimTxns ?m))"
      using sp [OF o] by (auto simp: Mempool_shrunk_def)
    note c = Mempool_clear_shrunk [OF k]
    have s: "Mempool_shrunk m ?m'" using Mempool_shrunk_trans sp [OF o] c by blast
    have d: "0 \<le> 2 * Mempool_calcSize m div 3" using ge by simp
    have p: "(\<Sum>n\<in>set ?oth. ?len ?m' n) = 0" using c by simp
    have "(\<Sum>n\<in>set ?pre. ?len ?m' n) = (\<Sum>n\<in>set ?pre. ?len ?m n)"
      using c by (intro sum.cong) auto
    with sz [OF o d] have q: "2 * (\<Sum>n\<in>set ?pre. ?len ?m' n)
        \<le> 2 * (2 * Mempool_calcSize m div 3 - 0) + int (length ?pre)"
      by (simp only: diff_0_right)
    have "Mempool_calcSize ?m' = (\<Sum>n\<in>set ?oth. ?len ?m' n) + (\<Sum>n\<in>set ?pre. ?len ?m' n)"
      unfolding sh [OF s] by (subst split) (rule add.commute)
    then have "2 * Mempool_calcSize ?m' \<le> 2 * (2 * Mempool_calcSize m div 3) + int (length ?pre)"
      by (rule trimmed_total [OF p q])
    with preferred l show ?thesis by (simp add: Mempool_limitConstraints_def Let_def)
  next
    case none
    have o: "distinct ?ids" "set ?ids \<subseteq> set ?ids" using dist by auto
    have "0 \<le> 2 * Mempool_calcSize m div 3" using ge by simp
    from sz [OF o this] none l show ?thesis
      by (simp add: Mempool_limitConstraints_def Let_def sh [OF sp [OF o]])
  qed
qed

text \<open>The operations a node runs on its mempool, one after the other.\<close>

inductive mempool_reach :: "crypto \<Rightarrow> tx_codec \<Rightarrow> 'p mempool \<Rightarrow> bool" for C D where
  mp_start: "mempool_reach C D (Mempool_new f d)"
| mp_addTx: "mempool_reach C D m \<Longrightarrow> mempool_reach C D (snd (Mempool_addTx C now t m))"
| mp_addLocalTx: "mempool_reach C D m \<Longrightarrow> mempool_reach C D (Mempool_addLocalTx C D t p b m)"
| mp_load: "mempool_reach C D m \<Longrightarrow> mempool_reach C D (Mempool_loadLocalTxnsFromDisk C D m)"
| mp_removeTxns: "mempool_reach C D m \<Longrightarrow> mempool_reach C D (Mempool_removeTxns D hs m)"
| mp_purgeOutdated: "mempool_reach C D m \<Longrightarrow> mempool_reach C D (Mempool_purgeOutdated now m)"
| mp_getFinalTxns: "mempool_reach C D m \<Longrightarrow> mempool_reach C D (snd (Mempool_getFinalTxns n m))"
| mp_storeBadTxHash: "mempool_reach C D m \<Longrightarrow> Mempool_storeBadTxHash now h m = Inr m' \<Longrightarrow> mempool_reach C D m'"
| mp_setPreferred: "mempool_reach C D m \<Longrightarrow> mempool_reach C D (Mempool_setPreferredConciliums ns m)"

definition Mempool_bounded :: "'p mempool \<Rightarrow> bool" where
  "Mempool_bounded m \<longleftrightarrow>
     Mempool_calcSize m \<le> MEMPOOL_TX_QTY + 1 + 2 * int (length (mp_mapConcilimTxns m))"

lemma Mempool_bounded_cong:
  "mp_mapConcilimTxns m' = mp_mapConcilimTxns m \<Longrightarrow> Mempool_bounded m' = Mempool_bounded m"
  by (simp add: Mempool_bounded_def Mempool_calcSize_def)

lemma Mempool_bounded_shrunk:
  "Mempool_wf C m \<Longrightarrow> Mempool_shrunk m m' \<Longrightarrow> Mempool_bounded m \<Longrightarrow> Mempool_bounded m'"
  using Mempool_shrunk_calcSize [of C m m'] arg_cong [of _ _ length]
  by (fastforce simp: Mempool_bounded_def Mempool_shrunk_def jkeys_def dest: arg_cong [of _ _ length])

lemma Mempool_bounded_ensure: "Mempool_bounded m \<Longrightarrow> Mempool_bounded (Mempool_ensureConciliumTxns n m)"
proof -
  have "jget c n = None \<Longrightarrow> jset n x c = c @ [(n, x)]" for c :: "(nat, (hash, wire_tx) jsmap) jsmap" and x
    by (induction c) (auto simp: jset_def jget_def split: if_splits)
  then show "Mempool_bounded m \<Longrightarrow> Mempool_bounded (Mempool_ensureConciliumTxns n m)"
    by (auto simp: Mempool_bounded_def Mempool_calcSize_def Mempool_ensureConciliumTxns_def jhas_jget)
qed

lemma Mempool_limit_room:
  assumes "Mempool_wf C m" and "Mempool_bounded m" and "mp_mapConcilimTxns m \<noteq> []"
  shows "Mempool_calcSize (Mempool_limitConstraints m)
    \<le> MEMPOOL_TX_QTY + 2 * int (length (mp_mapConcilimTxns m))"
proof -
  let ?N = "int (length (mp_mapConcilimTxns m))" and ?T = "Mempool_calcSize m"
  have "1 \<le> ?N" using assms(3) by (cases "mp_mapConcilimTxns m") simp_all
  moreover have "3 * (2 * ?T div 3) \<le> 2 * ?T" by simp
  moreover have "?T \<le> 501 + 2 * ?N" using assms(2) by (simp add: Mempool_bounded_def MEMPOOL_TX_QTY_def)
  ultimately have "2 * max 500 (2 * ?T div 3) + ?N \<le> 1000 + 4 * ?N" by linarith
  with Mempool_limit_size [OF assms(1)] show ?thesis by (simp add: MEMPOOL_TX_QTY_def)
qed

lemma jset_size:
  assumes "jwf c" and "n \<in> set (jkeys c)"
  shows "length (jset n x c) = length c"
  using assms by (metis jkeys_def jm.keys_put_old length_map jm.set_keys domIff)

lemma Mempool_bounded_addTx:
  assumes wf: "Mempool_wf C m" and b: "Mempool_bounded m"
  shows "Mempool_bounded (snd (Mempool_addTx C now t m))"
proof -
  let ?n = "Transaction_conciliumId t" and ?h = "Transaction_getHash C t"
  let ?m0 = "Mempool_ensureConciliumTxns ?n m"
  let ?m1 = "Mempool_limitConstraints ?m0"
  let ?x = "jset ?h \<lparr>wt_tx = t, wt_arrived = now\<rparr> (Mempool_conciliumTxns ?n ?m1)"
  let ?m2 = "?m1\<lparr>mp_mapConcilimTxns := jset ?n ?x (mp_mapConcilimTxns ?m1)\<rparr>"
  have wf0: "Mempool_wf C ?m0" by (rule Mempool_wf_ensure [OF wf])
  then have sh: "Mempool_shrunk ?m0 ?m1"
    by (intro Mempool_shrunk_limit) (simp add: Mempool_wf_def)
  have wf1: "Mempool_wf C ?m1" by (rule Mempool_wf_shrunk [OF wf0 sh])
  then have w: "jwf (mp_mapConcilimTxns ?m1)" by (simp add: Mempool_wf_def)
  have b1: "Mempool_bounded ?m1"
    by (rule Mempool_bounded_shrunk [OF wf0 sh Mempool_bounded_ensure [OF b]])
  have k: "?n \<in> set (jkeys (mp_mapConcilimTxns ?m1))"
    using sh Mempool_ensure_key [of ?n m] by (simp add: Mempool_shrunk_def)
  then have ne: "mp_mapConcilimTxns ?m0 \<noteq> []" using Mempool_ensure_key [of ?n m] by (auto simp: jkeys_def)
  have len: "length (mp_mapConcilimTxns ?m1) = length (mp_mapConcilimTxns ?m0)"
    using sh by (metis Mempool_shrunk_def jkeys_def length_map)
  have room: "Mempool_calcSize ?m1 \<le> MEMPOOL_TX_QTY + 2 * int (length (mp_mapConcilimTxns ?m1))"
    unfolding len by (rule Mempool_limit_room [OF wf0 Mempool_bounded_ensure [OF b] ne])
  have keys: "jkeys (mp_mapConcilimTxns ?m2) = jkeys (mp_mapConcilimTxns ?m1)"
    using k by (simp add: jm.keys_put_old js_dom dom_def)
  have one: "length ?x \<le> Suc (length (Mempool_conciliumTxns ?n ?m1))"
    using AList_update_keys [of ?h _ "Mempool_conciliumTxns ?n ?m1"]
    by (metis (no_types, lifting) jset_def le_SucI length_append_singleton length_map order_refl)
  have "Mempool_calcSize ?m2 \<le> Mempool_calcSize ?m1 + 1"
  proof -
    have s: "Mempool_calcSize ?m2 = (\<Sum>n\<in>set (jkeys (mp_mapConcilimTxns ?m1)).
        int (length (Mempool_conciliumTxns n ?m2)))"
      using w by (subst Mempool_calcSize_eq) (simp_all add: keys [simplified])
    have "int (length (Mempool_conciliumTxns n ?m2)) \<le>
        int (length (Mempool_conciliumTxns n ?m1)) + (if n = ?n then 1 else 0)" for n
      using one by simp
    then have "Mempool_calcSize ?m2 \<le> (\<Sum>n\<in>set (jkeys (mp_mapConcilimTxns ?m1)).
        int (length (Mempool_conciliumTxns n ?m1)) + (if n = ?n then 1 else 0))"
      unfolding s by (rule sum_mono)
    also have "\<dots> = Mempool_calcSize ?m1 + 1"
      using k by (simp add: sum.distrib Mempool_calcSize_eq [OF w])
    finally show ?thesis .
  qed
  then have "Mempool_bounded ?m2"
    using room jset_size [OF w k, of ?x] by (simp add: Mempool_bounded_def)
  with b1 show ?thesis
    by (auto simp: Mempool_addTx_def Let_def split: sum.splits bool.splits)
qed

lemma Mempool_concil_local [simp]:
  "mp_mapConcilimTxns (Mempool_dumpToDisk D m) = mp_mapConcilimTxns m"
  "mp_mapConcilimTxns (Mempool_addLocalTx C D t p b m) = mp_mapConcilimTxns m"
  by (simp_all add: Mempool_dumpToDisk_def Mempool_addLocalTx_def Let_def)

lemma Mempool_load_concil: "mp_mapConcilimTxns (Mempool_loadLocalTxnsFromDisk C D m) = mp_mapConcilimTxns m"
proof -
  have "mp_mapConcilimTxns (snd (fold (\<lambda>(_, enc) (ok, m).
      if \<not> ok then (False, m) else case tc_decode D enc of Inl _ \<Rightarrow> (False, m)
      | Inr t \<Rightarrow> (True, Mempool_addLocalTx C D t None True m)) xs s)) = mp_mapConcilimTxns (snd s)"
    for xs :: "(hash \<times> string) list" and s :: "bool \<times> 'a mempool"
    by (induction xs arbitrary: s) (auto split: sum.splits prod.splits)
  then show ?thesis
    by (simp add: Mempool_loadLocalTxnsFromDisk_def split: option.splits)
qed

lemma Mempool_removeOne_shrinks:
  assumes wf: "Mempool_wf C m"
  shows "mp_mapConcilimTxns (Mempool_removeOne h m) = mp_mapConcilimTxns m
    \<or> Mempool_shrunk m (Mempool_removeOne h m)"
proof -
  have w: "jwf (mp_mapConcilimTxns m)" using wf by (simp add: Mempool_wf_def)
  have "Mempool_shrunk m (m\<lparr>mp_mapConcilimTxns :=
      jset n (jdelete h (Mempool_conciliumTxns n m)) (mp_mapConcilimTxns m)\<rparr>)"
    if "Mempool_searchMapByHash h m = Some n" for n
    using Mempool_search_SomeD [OF w that]
    by (intro Mempool_shrunk_jset) (auto simp: map_le_def jget_jdelete split: if_splits)
  then show ?thesis by (auto simp: Mempool_removeOne_def split: option.splits)
qed

lemma Mempool_bounded_removeTxns:
  assumes "Mempool_wf C m" and "Mempool_bounded m"
  shows "Mempool_bounded (Mempool_removeTxns D hs m)"
proof -
  have "Mempool_wf C (fold Mempool_removeOne hs m) \<and> Mempool_bounded (fold Mempool_removeOne hs m)"
    using assms
  proof (induction hs arbitrary: m)
    case (Cons h hs)
    have "Mempool_bounded (Mempool_removeOne h m)"
      using Mempool_removeOne_shrinks [OF Cons.prems(1), of h] Cons.prems
        Mempool_bounded_cong Mempool_bounded_shrunk by blast
    with Cons.IH [OF Mempool_wf_removeOne [OF Cons.prems(1)]] show ?case by simp
  qed simp
  then show ?thesis
    by (auto simp: Mempool_removeTxns_def Let_def Mempool_bounded_cong [OF Mempool_concil_local(1)])
qed

lemma Mempool_reach_ok:
  assumes "mempool_reach C D m"
  shows "Mempool_wf C m \<and> Mempool_bounded m"
  using assms
proof induction
  case (mp_start f d)
  show ?case by (simp add: Mempool_wf_new) (simp add: Mempool_bounded_def Mempool_new_def Mempool_calcSize_def MEMPOOL_TX_QTY_def)
next
  case (mp_addTx m now t)
  then show ?case by (simp add: Mempool_wf_addTx Mempool_bounded_addTx)
next
  case (mp_addLocalTx m t p b)
  then show ?case by (simp add: Mempool_wf_addLocalTx Mempool_bounded_cong [OF Mempool_concil_local(2)])
next
  case (mp_load m)
  then show ?case by (simp add: Mempool_wf_load Mempool_bounded_cong [OF Mempool_load_concil])
next
  case (mp_removeTxns m hs)
  then show ?case by (simp add: Mempool_wf_removeTxns Mempool_bounded_removeTxns [of C])
next
  case (mp_purgeOutdated m now)
  then show ?case
    using Mempool_wf_shrunk Mempool_bounded_shrunk Mempool_shrunk_purgeOutdated by blast
next
  case (mp_getFinalTxns m n)
  then show ?case by (simp add: Mempool_getFinalTxns_def Let_def Mempool_wf_ensure Mempool_bounded_ensure)
next
  case (mp_storeBadTxHash m now h m')
  then have m': "m' = m\<lparr>mp_mapBadTxnsHash := jset h now (mp_mapBadTxnsHash m)\<rparr>"
    by (simp add: Mempool_storeBadTxHash_def)
  show ?case
    using mp_storeBadTxHash.IH unfolding m'
    by (simp add: Mempool_wf_def Mempool_bounded_def Mempool_calcSize_def)
next
  case (mp_setPreferred m ns)
  then show ?case
    by (simp add: Mempool_setPreferredConciliums_def Mempool_wf_def Mempool_bounded_def
        Mempool_calcSize_def distinct_fold_sadd)
qed

section \<open>What the operations do\<close>

lemma Mempool_hasTx_iff:
  assumes "Mempool_wf C m" and "isHash256 h"
  shows "Mempool_hasTx h m = Inr (jhas (mp_mapLocalTxns m) h \<or> jhas (mp_mapBadTxnsHash m) h
    \<or> (\<exists>n. jhas (Mempool_conciliumTxns n m) h))"
  using assms by (simp add: Mempool_hasTx_def Mempool_search_None Mempool_wf_def)

lemma Mempool_getTx_wire:
  assumes wf: "Mempool_wf C m" and h: "isHash256 h"
    and w: "jget (Mempool_conciliumTxns n m) h = Some w" and l: "\<not> jhas (mp_mapLocalTxns m) h"
  shows "Mempool_getTx h m = Inr (wt_tx w)"
proof -
  have j: "jwf (mp_mapConcilimTxns m)" using wf by (simp add: Mempool_wf_def)
  from w have "Mempool_searchMapByHash h m \<noteq> None"
    by (auto simp: Mempool_search_None [OF j] jhas_jget)
  then obtain k where k: "Mempool_searchMapByHash h m = Some k" by blast
  have "jhas (Mempool_conciliumTxns k m) h" "jhas (Mempool_conciliumTxns n m) h"
    using Mempool_search_SomeD [OF j k] w by (simp_all add: jhas_jget)
  then have "k = n" using wf unfolding Mempool_wf_def by blast
  with k w h l show ?thesis by (simp add: Mempool_getTx_def Mempool_hasTx_def jhas_jget)
qed

text \<open>A transaction from the wire is filed once, under its concilium, and found again.\<close>

lemma Mempool_addTx_spec:
  assumes wf: "Mempool_wf C m" and h: "isHash256 (Transaction_getHash C t)"
  defines "m1 \<equiv> Mempool_limitConstraints (Mempool_ensureConciliumTxns (Transaction_conciliumId t) m)"
  shows "fst (Mempool_addTx C now t m) = Inr () \<longleftrightarrow> Mempool_hasTx (Transaction_getHash C t) m1 = Inr False"
    and "fst (Mempool_addTx C now t m) = Inr () \<Longrightarrow>
      Mempool_getTx (Transaction_getHash C t) (snd (Mempool_addTx C now t m)) = Inr t"
    and "fst (Mempool_addTx C now t m) = Inr () \<or>
      Mempool_addTx C now t m = (Inl (Error ''tx already in mempool''), m1)"
proof -
  have hb: "\<exists>b. Mempool_hasTx (Transaction_getHash C t) m1 = Inr b"
    using h by (simp add: Mempool_hasTx_def)
  show "fst (Mempool_addTx C now t m) = Inr () \<longleftrightarrow> Mempool_hasTx (Transaction_getHash C t) m1 = Inr False"
    using hb by (auto simp: Mempool_addTx_def Let_def m1_def [symmetric] split: sum.splits bool.splits)
  show "fst (Mempool_addTx C now t m) = Inr () \<or>
      Mempool_addTx C now t m = (Inl (Error ''tx already in mempool''), m1)"
    using hb by (auto simp: Mempool_addTx_def Let_def m1_def [symmetric] split: sum.splits bool.splits)
  assume ok: "fst (Mempool_addTx C now t m) = Inr ()"
  then have new: "Mempool_hasTx (Transaction_getHash C t) m1 = Inr False"
    using hb by (auto simp: Mempool_addTx_def Let_def m1_def [symmetric] split: sum.splits bool.splits)
  then have l: "\<not> jhas (mp_mapLocalTxns m1) (Transaction_getHash C t)" by (auto simp: Mempool_hasTx_def)
  have wf2: "Mempool_wf C (snd (Mempool_addTx C now t m))" by (rule Mempool_wf_addTx [OF wf])
  show "Mempool_getTx (Transaction_getHash C t) (snd (Mempool_addTx C now t m)) = Inr t"
    using Mempool_getTx_wire [OF wf2 h, of "Transaction_conciliumId t" "\<lparr>wt_tx = t, wt_arrived = now\<rparr>"] new l
    by (simp add: Mempool_addTx_def Let_def m1_def [symmetric] jget_jset)
qed

text \<open>The transactions handed to a block builder are the stored ones of that concilium.\<close>

lemma Mempool_final_spec:
  assumes wf: "Mempool_wf C m"
  shows "set (fst (Mempool_getFinalTxns n m)) =
    {t. Transaction_conciliumId t = n \<and>
        (t \<in> wt_tx ` ran (jget (Mempool_conciliumTxns n m)) \<or> t \<in> lt_tx ` ran (jget (mp_mapLocalTxns m)))}"
proof -
  have r: "set (jvalues x) = ran (jget x)" if "jwf x" for x :: "('a, 'c) jsmap"
    using that by (force simp: jvalues_def ran_def jget_iff_in)
  have r': "set (jvalues x) = ran (jget x)" if "jwf x" for x :: "('a, 'b local_tx) jsmap"
    using that by (force simp: jvalues_def ran_def jget_iff_in)
  have own: "Transaction_conciliumId (wt_tx w) = n" if "w \<in> ran (jget (Mempool_conciliumTxns n m))" for w
    using that wf unfolding Mempool_wf_def ran_def by blast
  have l: "mp_mapLocalTxns (Mempool_ensureConciliumTxns n m) = mp_mapLocalTxns m"
    by (simp add: Mempool_ensureConciliumTxns_def)
  have w: "jwf (Mempool_conciliumTxns n m)" "jwf (mp_mapLocalTxns m)" using wf by (simp_all add: Mempool_wf_def)
  have v: "set (jvalues (Mempool_conciliumTxns n m)) = ran (jget (Mempool_conciliumTxns n m))"
    "set (jvalues (mp_mapLocalTxns m)) = ran (jget (mp_mapLocalTxns m))"
    using w by (force simp: jvalues_def ran_def jget_iff_in)+
  show ?thesis
    by (auto simp: Mempool_getFinalTxns_def Let_def v l own)
qed

text \<open>
  A removed hash is gone unless it was both local and filed under a concilium: then only the local
  copy goes.
\<close>

lemma Mempool_removeOne_spec:
  assumes wf: "Mempool_wf C m"
  shows "jget (mp_mapLocalTxns (Mempool_removeOne h m)) = (jget (mp_mapLocalTxns m))(h := None)"
    and "jget (Mempool_conciliumTxns n (Mempool_removeOne h m)) =
      (if jhas (mp_mapLocalTxns m) h then jget (Mempool_conciliumTxns n m)
       else (jget (Mempool_conciliumTxns n m))(h := None))"
proof -
  have w: "jwf (mp_mapConcilimTxns m)" using wf by (simp add: Mempool_wf_def)
  show "jget (mp_mapLocalTxns (Mempool_removeOne h m)) = (jget (mp_mapLocalTxns m))(h := None)"
    by (auto simp: Mempool_removeOne_def jhas_jget jget_jdelete split: option.splits)
  show "jget (Mempool_conciliumTxns n (Mempool_removeOne h m)) =
      (if jhas (mp_mapLocalTxns m) h then jget (Mempool_conciliumTxns n m)
       else (jget (Mempool_conciliumTxns n m))(h := None))"
  proof (cases "Mempool_searchMapByHash h m")
    case None
    then have "jget (Mempool_conciliumTxns n m) h = None"
      using Mempool_search_None [OF w] by (simp add: jhas_jget)
    with None show ?thesis by (auto simp: Mempool_removeOne_def)
  next
    case (Some k)
    have k: "jhas (Mempool_conciliumTxns k m) h" using Mempool_search_SomeD [OF w Some] by simp
    have "jget (Mempool_conciliumTxns n m) h = None" if "n \<noteq> k"
    proof (rule ccontr)
      assume "jget (Mempool_conciliumTxns n m) h \<noteq> None"
      then have "jhas (Mempool_conciliumTxns n m) h" by (simp add: jhas_jget)
      with k that wf show False unfolding Mempool_wf_def by blast
    qed
    with Some show ?thesis by (auto simp: Mempool_removeOne_def jget_jdelete)
  qed
qed

text \<open>The file holds the local transactions; a restarted node reads them back, without patches.\<close>

definition Mempool_mirrored :: "crypto \<Rightarrow> tx_codec \<Rightarrow> 'p mempool \<Rightarrow> bool" where
  "Mempool_mirrored C D m \<longleftrightarrow>
     mp_disk m = Some (map (\<lambda>(h, l). (h, tc_encode D (lt_tx l))) (mp_mapLocalTxns m))"

definition tx_codec_ok :: "tx_codec \<Rightarrow> tx \<Rightarrow> bool" where
  "tx_codec_ok D t \<longleftrightarrow> tc_decode D (tc_encode D t) = Inr t"

lemma jset_new: "jget m k = None \<Longrightarrow> jset k v m = m @ [(k, v)]"
  by (induction m) (auto simp: jset_def jget_def split: if_splits)

lemma Mempool_dump_load:
  assumes D: "\<forall>(h, l)\<in>set (mp_mapLocalTxns m). tx_codec_ok D (lt_tx l)"
    and wf: "Mempool_wf C m" and f: "mp_fileName m"
  shows "mp_mapLocalTxns (Mempool_loadLocalTxnsFromDisk C D
      (Mempool_new True (mp_disk (Mempool_dumpToDisk D m))) :: 'q mempool) =
    map (\<lambda>(h, l). (h, \<lparr>lt_tx = lt_tx l, lt_patchTx = None\<rparr>)) (mp_mapLocalTxns m)"
proof -
  let ?load = "\<lambda>(_ :: hash, enc) (ok, m). if \<not> ok then (False, m)
      else case tc_decode D enc of Inl _ \<Rightarrow> (False, m) | Inr t \<Rightarrow> (True, Mempool_addLocalTx C D t None True m)"
  let ?f = "\<lambda>(h, l). (h, \<lparr>lt_tx = lt_tx l, lt_patchTx = None :: 'q option\<rparr>)"
  have "fst (fold ?load (map (\<lambda>(h, l). (h, tc_encode D (lt_tx l))) ls) (True, q)) \<and>
      mp_mapLocalTxns (snd (fold ?load (map (\<lambda>(h, l). (h, tc_encode D (lt_tx l))) ls) (True, q))) =
        mp_mapLocalTxns q @ map ?f ls"
    if "\<forall>(h, l)\<in>set ls. h = Transaction_getHash C (lt_tx l) \<and> tx_codec_ok D (lt_tx l)" and "distinct (map fst (mp_mapLocalTxns q) @ map fst ls)"
    for ls :: "(hash \<times> 'a local_tx) list" and q :: "'q mempool"
    using that
  proof (induction ls arbitrary: q)
    case (Cons x ls)
    obtain h l where x: "x = (h, l)" by force
    have "jget (mp_mapLocalTxns q) h = None"
      using Cons.prems(2) by (auto simp: x jget_def map_of_eq_None_iff)
    then have a: "mp_mapLocalTxns (Mempool_addLocalTx C D (lt_tx l) None True q) =
        mp_mapLocalTxns q @ [?f x]"
      using Cons.prems(1) by (simp add: Mempool_addLocalTx_def Let_def x jset_new)
    have "distinct (map fst (mp_mapLocalTxns (Mempool_addLocalTx C D (lt_tx l) None True q)) @ map fst ls)"
      unfolding a using Cons.prems(2) by (auto simp: x)
    from Cons.IH [OF _ this] Cons.prems(1) show ?case
      by (simp add: x tx_codec_ok_def a)
  qed simp
  note loaded = this
  have l: "\<forall>(h, l)\<in>set (mp_mapLocalTxns m). h = Transaction_getHash C (lt_tx l) \<and> tx_codec_ok D (lt_tx l)"
    using wf D by (auto simp: Mempool_wf_def jget_iff_in)
  have d: "distinct (map fst (mp_mapLocalTxns (Mempool_new True d :: 'q mempool)) @ map fst (mp_mapLocalTxns m))" for d
    using wf by (simp add: Mempool_wf_def Mempool_new_def jwf_def)
  show ?thesis
    using loaded [OF l d] f
    by (simp add: Mempool_loadLocalTxnsFromDisk_def Mempool_dumpToDisk_def Mempool_new_def)
qed

section \<open>Requests\<close>

text \<open>A request is repeated only after it was answered or timed out.\<close>

lemma RequestCache_request_spec:
  assumes h: "isHash256 h"
  shows "RequestCache_request now h m =
    Inr (if \<exists>a. jget m h = Some a \<and> a > now then (False, m) else (True, jset h (now + INV_REQUEST_HOLDOFF) m))"
  using h by (auto simp: RequestCache_request_def split: option.splits)

lemma RequestCache_repeat:
  assumes "isHash256 h" and "RequestCache_request now h m = Inr (True, m')"
  shows "RequestCache_request later h m' = Inr (False, m') \<longleftrightarrow> later < now + INV_REQUEST_HOLDOFF"
  using assms by (auto simp: RequestCache_request_spec jget_jset split: if_splits)

lemma RequestCache_done_spec:
  assumes "isHash256 h"
  shows "\<exists>m'. RequestCache_done h m = Inr m' \<and>
    RequestCache_request now h m' = Inr (True, jset h (now + INV_REQUEST_HOLDOFF) m')"
  using assms by (simp add: RequestCache_done_def RequestCache_request_spec jget_jdelete)

lemma RequestCache_purge_spec:
  assumes "jwf m"
  shows "jget (RequestCache_purgeOutdated now m) h =
    (case jget m h of Some a \<Rightarrow> if a = 0 \<or> a < now then None else Some a | None \<Rightarrow> None)"
proof -
  let ?step = "\<lambda>h m'. case jget m' h of
       Some a \<Rightarrow> if a = 0 \<or> a < now then jdelete h m' else m' | None \<Rightarrow> jdelete h m'"
  have "jget (fold ?step ks m) h = (if h \<in> set ks then
      (case jget m h of Some a \<Rightarrow> if a = 0 \<or> a < now then None else Some a | None \<Rightarrow> None)
      else jget m h)" for ks and m :: requestCache
  proof (induction ks arbitrary: m)
    case (Cons k ks)
    show ?case unfolding fold.simps comp_def Cons.IH
      by (auto simp: jget_jdelete split: option.splits)
  qed simp
  then show ?thesis
    unfolding RequestCache_purgeOutdated_def by (auto simp: js_dom split: option.splits)
qed

end
