(* ===== verification/Cil_Peer.thy ===== *)
theory Cil_Peer
  imports Complex_Main Cil_Utils
begin

text \<open>
  One remote node (\<open>src/network/peer.js\<close>) and the book of all of them
  (\<open>src/network/peerManager.js\<close>): misbehaviour scores and bans, restrictions after a disconnect,
  traffic limits, the queue of outgoing messages, which entry of the book is kept when two compete,
  who is asked and who is told. The connection is the parameter of the platform: here it is open or
  not, and what the peer does to it or tells its listeners is appended to \<open>pr_out\<close>. The clock and
  the random delay of a peer are arguments.
\<close>

section \<open>Constants\<close>

definition BAN_PEER_SCORE :: int where "BAN_PEER_SCORE = 100"
definition BAN_PEER_TIME :: int where "BAN_PEER_TIME = 24 * 60 * 60 * 1000"
definition PEER_MAX_BYTES_COUNT :: int where "PEER_MAX_BYTES_COUNT = 10 * 1024 * 1024"
definition PEER_CONNECTION_LIFETIME :: int where "PEER_CONNECTION_LIFETIME = 60 * 60 * 1000"
definition PEER_RESTRICT_TIME :: int where "PEER_RESTRICT_TIME = 2 * 60 * 1000"
definition PEER_DEAD_TIME :: int where "PEER_DEAD_TIME = 6 * 60 * 1000"
definition PEER_FAILED_CONNECTIONS_LIMIT :: int where "PEER_FAILED_CONNECTIONS_LIMIT = 10"
definition PEER_GET_BLOCKS_HOLDOFF :: int where "PEER_GET_BLOCKS_HOLDOFF = 1 * 60 * 1000"
definition MAX_PEERS :: nat where "MAX_PEERS = 10"

datatype service = NODE | WITNESS
datatype reject = REJECT_DUPLICATE | REJECT_BANNED | REJECT_RESTRICTED | REJECT_REWRITE_DEAD

section \<open>A peer\<close>

text \<open>A message is seen by its kind and the size of its payload; \<open>data\<close> of a capability is hexadecimal.\<close>

datatype msg_kind = KGetBlocks | KPing | KPong | KOther

record message =
  ms_kind :: msg_kind
  ms_payload :: "nat option"
  ms_signature :: bool
  ms_address :: addr

datatype peer_event =
    Sent message
  | Closed
  | Disconnected
  | PeerBanned
  | Received message
  | WitnessMessage "message option"

record peerInfo =
  pi_capabilities :: "(service \<times> string) list"
  pi_address :: string
  pi_port :: nat
  pi_lifetimeMisbehaveScore :: int
  pi_lifetimeTransmittedBytes :: int
  pi_lifetimeReceivedBytes :: int
  pi_failedConnectionsCount :: int

text \<open>The fields of \<open>Peer\<close>; \<open>None\<close> is \<open>undefined\<close>, \<open>pr_timer\<close> says whether the heartbeat runs.\<close>

record peer =
  pr_peerInfo :: peerInfo
  pr_persistent :: bool
  pr_bannedTill :: int
  pr_restrictedTill :: int
  pr_misbehavedAt :: int
  pr_misbehaveScore :: int
  pr_randomMsecDelta :: int
  pr_tags :: "string list"
  pr_connection :: bool
  pr_handshakeDone :: bool
  pr_version :: "nat option"
  pr_transmittedBytes :: int
  pr_receivedBytes :: int
  pr_msecOffsetDelta :: rat
  pr_bInbound :: bool
  pr_loadDone :: bool
  pr_nCountSingleBlocks :: nat
  pr_connectedTill :: "int option"
  pr_lastActionTimestamp :: "int option"
  pr_timer :: bool
  pr_whitelisted :: bool
  pr_bPossiblyAhead :: bool
  pr_getBlocksValidTill :: "int option"
  pr_queue :: "message list option"
  pr_out :: "peer_event list"

definition Peer_cleanup :: "peer \<Rightarrow> peer" where
  "Peer_cleanup p = p\<lparr>pr_tags := [], pr_connection := False, pr_handshakeDone := False, pr_version := None,
     pr_transmittedBytes := 0, pr_receivedBytes := 0, pr_msecOffsetDelta := 0, pr_bInbound := False,
     pr_loadDone := False, pr_nCountSingleBlocks := 0\<rparr>"

definition Peer_new :: "int \<Rightarrow> int \<Rightarrow> bool \<Rightarrow> peerInfo \<Rightarrow> peer" where
  "Peer_new now delta connection info =
     \<lparr>pr_peerInfo = info, pr_persistent = False, pr_bannedTill = now, pr_restrictedTill = now,
      pr_misbehavedAt = now, pr_misbehaveScore = 0, pr_randomMsecDelta = delta, pr_tags = [],
      pr_connection = connection, pr_handshakeDone = False, pr_version = None, pr_transmittedBytes = 0,
      pr_receivedBytes = 0, pr_msecOffsetDelta = 0, pr_bInbound = connection, pr_loadDone = False,
      pr_nCountSingleBlocks = 0,
      pr_connectedTill = (if connection then Some (now + PEER_CONNECTION_LIFETIME + delta) else None),
      pr_lastActionTimestamp = None, pr_timer = connection, pr_whitelisted = False,
      pr_bPossiblyAhead = False, pr_getBlocksValidTill = None, pr_queue = None, pr_out = []\<rparr>"

definition Peer_emit :: "peer_event \<Rightarrow> (unit, peer) act" where
  "Peer_emit ev = modifyS (\<lambda>p. p\<lparr>pr_out := pr_out p @ [ev]\<rparr>)"

definition Peer_amountBytes :: "peer \<Rightarrow> int" where
  "Peer_amountBytes p = pr_transmittedBytes p + pr_receivedBytes p"

definition Peer_isWitness :: "peer \<Rightarrow> bool" where
  "Peer_isWitness p \<longleftrightarrow> (\<exists>cap\<in>set (pi_capabilities (pr_peerInfo p)). fst cap = WITNESS)"

definition Peer_witnessAddress :: "peer \<Rightarrow> addr res" where
  "Peer_witnessAddress p =
     (case find (\<lambda>cap. fst cap = WITNESS) (pi_capabilities (pr_peerInfo p)) of
        None \<Rightarrow> Inl (Error ''This peer has no witness capability'')
      | Some cap \<Rightarrow> Inr (snd cap))"

definition Peer_disconnected :: "peer \<Rightarrow> bool" where "Peer_disconnected p \<longleftrightarrow> \<not> pr_connection p"

definition Peer_fullyConnected :: "peer \<Rightarrow> bool" where
  "Peer_fullyConnected p \<longleftrightarrow> \<not> Peer_disconnected p \<and> pr_handshakeDone p"

definition Peer_addTag :: "string \<Rightarrow> peer \<Rightarrow> peer" where
  "Peer_addTag tag p = p\<lparr>pr_tags := sadd tag (pr_tags p)\<rparr>"

definition Peer_hasTag :: "string option \<Rightarrow> peer \<Rightarrow> bool" where
  "Peer_hasTag tag p = (case tag of None \<Rightarrow> True | Some t \<Rightarrow> t \<in> set (pr_tags p))"

definition Peer_setFullyConnected :: "peer \<Rightarrow> peer" where
  "Peer_setFullyConnected p = (Peer_addTag ''fullyConnected'' p)\<lparr>pr_handshakeDone := True\<rparr>"

definition Peer_getLoadDone :: "peer \<Rightarrow> bool" where
  "Peer_getLoadDone p \<longleftrightarrow> pr_loadDone p \<or> Peer_disconnected p"

definition Peer_witnessLoadDone :: "nat \<Rightarrow> peer \<Rightarrow> bool" where
  "Peer_witnessLoadDone nConciliumId p \<longleftrightarrow>
     \<not> Peer_disconnected p \<and> pr_persistent p \<and> createPeerTag nConciliumId \<in> set (pr_tags p)"

definition Peer_quality :: "peer \<Rightarrow> rat" where
  "Peer_quality p =
     of_int (pi_lifetimeReceivedBytes (pr_peerInfo p) + pi_lifetimeTransmittedBytes (pr_peerInfo p)
             + Peer_amountBytes p)
     / of_int (pi_lifetimeMisbehaveScore (pr_peerInfo p) + pr_misbehaveScore p + 1)"

definition Peer_updatePeerFromPeerInfo :: "(string \<Rightarrow> bool) \<Rightarrow> peerInfo \<Rightarrow> bool \<Rightarrow> peer \<Rightarrow> peer" where
  "Peer_updatePeerFromPeerInfo isRoutable info bUpdateAddress p =
     (let i = (pr_peerInfo p)\<lparr>pi_capabilities := pi_capabilities info, pi_port := pi_port info\<rparr>
      in p\<lparr>pr_peerInfo := (if bUpdateAddress \<and> isRoutable (pi_address info)
                          then i\<lparr>pi_address := pi_address info\<rparr> else i)\<rparr>)"

definition Peer_isRestricted :: "int \<Rightarrow> peer \<Rightarrow> bool" where
  "Peer_isRestricted now p \<longleftrightarrow> \<not> pr_persistent p \<and> pr_restrictedTill p > now"

definition Peer_isBanned :: "int \<Rightarrow> peer \<Rightarrow> bool" where
  "Peer_isBanned now p \<longleftrightarrow> pr_bannedTill p > now"

definition Peer_isDead :: "peer \<Rightarrow> bool" where
  "Peer_isDead p \<longleftrightarrow> pi_failedConnectionsCount (pr_peerInfo p) > PEER_FAILED_CONNECTIONS_LIMIT"

definition Peer_isAlive :: "int \<Rightarrow> peer \<Rightarrow> bool" where
  "Peer_isAlive now p \<longleftrightarrow> (case pr_lastActionTimestamp p of
       None \<Rightarrow> False | Some t \<Rightarrow> t \<noteq> 0 \<and> t > now - PEER_DEAD_TIME) \<and> \<not> Peer_isDead p"

section \<open>Disconnecting, banning\<close>

definition Peer_disconnect :: "int \<Rightarrow> (unit, peer) act" where
  "Peer_disconnect now =
     bindS (modifyS (\<lambda>p. p\<lparr>pr_timer := False\<rparr>)) (\<lambda>_.
     bindS (\<lambda>p. (assertR (pr_connection p) (AssertionError ''Trying to disconnect already disconnected peer''), p)) (\<lambda>_.
     bindS (Peer_emit Closed) (\<lambda>_.
     bindS (modifyS (\<lambda>p. (Peer_cleanup p)\<lparr>pr_restrictedTill := now + PEER_RESTRICT_TIME + pr_randomMsecDelta p\<rparr>)) (\<lambda>_.
     Peer_emit Disconnected))))"

definition Peer_updateMisbehave :: "int \<Rightarrow> peer \<Rightarrow> peer" where
  "Peer_updateMisbehave score p =
     p\<lparr>pr_peerInfo := (pr_peerInfo p)\<lparr>pi_lifetimeMisbehaveScore := pi_lifetimeMisbehaveScore (pr_peerInfo p) + score\<rparr>,
       pr_misbehaveScore := pr_misbehaveScore p + score\<rparr>"

definition Peer_ban :: "int \<Rightarrow> (unit, peer) act" where
  "Peer_ban now p =
     (if pr_whitelisted p then (Inr (), p)
      else bindS (modifyS (\<lambda>p. (Peer_updateMisbehave BAN_PEER_SCORE p)\<lparr>pr_bannedTill := now + BAN_PEER_TIME\<rparr>)) (\<lambda>_.
           bindS (\<lambda>p. if \<not> Peer_disconnected p then Peer_disconnect now p else (Inr (), p)) (\<lambda>_.
           Peer_emit PeerBanned)) p)"

definition Peer_misbehave :: "int \<Rightarrow> int \<Rightarrow> (unit, peer) act" where
  "Peer_misbehave now score =
     bindS (modifyS (\<lambda>p. if now - pr_misbehavedAt p > BAN_PEER_TIME then p\<lparr>pr_misbehaveScore := 0\<rparr> else p)) (\<lambda>_.
     bindS (modifyS (\<lambda>p. (Peer_updateMisbehave score p)\<lparr>pr_misbehavedAt := now\<rparr>)) (\<lambda>_ p.
     if pr_misbehaveScore p \<ge> BAN_PEER_SCORE then Peer_ban now p else (Inr (), p)))"

section \<open>Traffic\<close>

definition Peer_updateReceived :: "int \<Rightarrow> peer \<Rightarrow> peer" where
  "Peer_updateReceived bytes p =
     p\<lparr>pr_receivedBytes := pr_receivedBytes p + bytes,
       pr_peerInfo := (pr_peerInfo p)\<lparr>pi_lifetimeReceivedBytes := pi_lifetimeReceivedBytes (pr_peerInfo p) + bytes\<rparr>\<rparr>"

definition Peer_updateTransmitted :: "int \<Rightarrow> peer \<Rightarrow> peer" where
  "Peer_updateTransmitted bytes p =
     p\<lparr>pr_transmittedBytes := pr_transmittedBytes p + bytes,
       pr_peerInfo := (pr_peerInfo p)\<lparr>pi_lifetimeTransmittedBytes := pi_lifetimeTransmittedBytes (pr_peerInfo p) + bytes\<rparr>\<rparr>"

definition Peer_overLimit :: "peer \<Rightarrow> bool" where
  "Peer_overLimit p \<longleftrightarrow> \<not> pr_persistent p \<and> Peer_amountBytes p > PEER_MAX_BYTES_COUNT"

definition Peer_markAsPossiblyAhead :: "peer \<Rightarrow> peer" where "Peer_markAsPossiblyAhead p = p\<lparr>pr_bPossiblyAhead := True\<rparr>"
definition Peer_markAsEven :: "peer \<Rightarrow> peer" where "Peer_markAsEven p = p\<lparr>pr_bPossiblyAhead := False\<rparr>"
definition Peer_isAhead :: "peer \<Rightarrow> bool" where "Peer_isAhead p = pr_bPossiblyAhead p"

definition Peer_getBlocksSent :: "int \<Rightarrow> peer \<Rightarrow> peer" where
  "Peer_getBlocksSent now p =
     p\<lparr>pr_nCountSingleBlocks := 0, pr_getBlocksValidTill := Some (now + PEER_GET_BLOCKS_HOLDOFF)\<rparr>"

definition Peer_isGetBlocksSent :: "int \<Rightarrow> peer \<Rightarrow> bool" where
  "Peer_isGetBlocksSent now p = (case pr_getBlocksValidTill p of None \<Rightarrow> False | Some t \<Rightarrow> t > now)"

definition Peer_doneGetBlocks :: "peer \<Rightarrow> peer" where
  "Peer_doneGetBlocks p = p\<lparr>pr_getBlocksValidTill := None\<rparr>"

definition Peer_singleBlockRequested :: "bool \<Rightarrow> peer \<Rightarrow> peer" where
  "Peer_singleBlockRequested slowBoot p =
     (if slowBoot then p
      else let p = p\<lparr>pr_nCountSingleBlocks := Suc (pr_nCountSingleBlocks p)\<rparr>
           in if pr_nCountSingleBlocks p > 6 then Peer_markAsPossiblyAhead p else p)"

text \<open>One turn of the loop of \<open>pushMessage\<close>; the payload is counted whether or not the peer is still connected.\<close>

definition Peer_sendOne :: "message \<Rightarrow> peer \<Rightarrow> peer" where
  "Peer_sendOne m p =
     (let p = (if pr_connection p then p\<lparr>pr_out := pr_out p @ [Sent m]\<rparr> else p)
      in case ms_payload m of None \<Rightarrow> p | Some n \<Rightarrow> Peer_updateTransmitted (int n) p)"

text \<open>
  \<open>pushMessage\<close> waits while a message is sent, and calls made meanwhile only queue theirs. Its steps are
  the start (a call that finds a queue ends there), the turns of the loop, and the end once the
  queue is empty; \<open>Peer_pushMessage\<close> is the call that nothing interrupts.
\<close>

definition Peer_pushStart :: "int \<Rightarrow> message \<Rightarrow> peer \<Rightarrow> bool \<times> peer" where
  "Peer_pushStart now m p =
     (let p = (if ms_kind m = KGetBlocks then Peer_getBlocksSent now p else p)
      in case pr_queue p of
           Some q \<Rightarrow> (False, p\<lparr>pr_queue := Some (q @ [m])\<rparr>)
         | None \<Rightarrow> (True, p\<lparr>pr_queue := Some [m]\<rparr>))"

definition Peer_pushTurn :: "peer \<Rightarrow> peer" where
  "Peer_pushTurn p =
     (case pr_queue p of
        Some (m # ms) \<Rightarrow> Peer_sendOne m (p\<lparr>pr_queue := Some ms\<rparr>)
      | _ \<Rightarrow> p)"

definition Peer_pushEnd :: "int \<Rightarrow> (unit, peer) act" where
  "Peer_pushEnd now =
     bindS (modifyS (\<lambda>p. p\<lparr>pr_queue := None\<rparr>)) (\<lambda>_ p.
     if Peer_overLimit p then Peer_disconnect now p else (Inr (), p))"

definition Peer_pushMessage :: "int \<Rightarrow> message \<Rightarrow> (unit, peer) act" where
  "Peer_pushMessage now m p =
     (case Peer_pushStart now m p of
        (False, p) \<Rightarrow> (Inr (), p)
      | (True, p) \<Rightarrow> Peer_pushEnd now (Peer_pushTurn p))"

section \<open>Connecting, receiving, the heartbeat\<close>

text \<open>\<open>isUp\<close> is whether the transport connects; every refusal is only logged.\<close>

definition Peer_connect :: "int \<Rightarrow> bool \<Rightarrow> peer \<Rightarrow> peer" where
  "Peer_connect now isUp p =
     (if Peer_isBanned now p \<or> Peer_isRestricted now p \<or> Peer_isDead p \<or> \<not> Peer_disconnected p then p
      else let p = p\<lparr>pr_transmittedBytes := 0, pr_receivedBytes := 0\<rparr>
           in if \<not> isUp
              then p\<lparr>pr_peerInfo := (pr_peerInfo p)\<lparr>pi_failedConnectionsCount := pi_failedConnectionsCount (pr_peerInfo p) + 1\<rparr>\<rparr>
              else p\<lparr>pr_connection := True, pr_connectedTill := Some (now + PEER_CONNECTION_LIFETIME), pr_timer := True\<rparr>)"

text \<open>The other end closed the connection.\<close>

definition Peer_onClose :: "peer \<Rightarrow> peer" where
  "Peer_onClose p = (let p = Peer_cleanup p in p\<lparr>pr_out := pr_out p @ [Disconnected]\<rparr>)"

definition pongMessage :: message where
  "pongMessage = \<lparr>ms_kind = KPong, ms_payload = None, ms_signature = False, ms_address = []\<rparr>"

definition pingMessage :: message where
  "pingMessage = \<lparr>ms_kind = KPing, ms_payload = None, ms_signature = False, ms_address = []\<rparr>"

definition Peer_onMessageHandler :: "int \<Rightarrow> message \<Rightarrow> (unit, peer) act" where
  "Peer_onMessageHandler now msg =
     bindS (\<lambda>p. case ms_payload msg of
              None \<Rightarrow> (Inr (), p)
            | Some n \<Rightarrow> (let p = Peer_updateReceived (int n) p
                        in if Peer_overLimit p then Peer_disconnect now p else (Inr (), p))) (\<lambda>_.
     bindS (modifyS (\<lambda>p. p\<lparr>pr_lastActionTimestamp := Some now\<rparr>)) (\<lambda>_ p.
     if ms_signature msg
     then (if Peer_isWitness p \<and> Peer_witnessAddress p = Inr (ms_address msg)
           then Peer_emit (WitnessMessage (Some msg)) p else Peer_emit (WitnessMessage None) p)
     else if ms_kind msg = KPing then Peer_pushMessage now pongMessage p
     else Peer_emit (Received msg) p))"

definition Peer_tick :: "int \<Rightarrow> (unit, peer) act" where
  "Peer_tick now p =
     (if Peer_disconnected p then (Inr (), p\<lparr>pr_timer := False\<rparr>)
      else if \<not> pr_persistent p \<and> (case pr_connectedTill p of Some t \<Rightarrow> t < now | None \<Rightarrow> False)
      then bindS (Peer_disconnect now) (\<lambda>_. modifyS (\<lambda>p. p\<lparr>pr_restrictedTill := now + PEER_RESTRICT_TIME\<rparr>)) p
      else if (case pr_lastActionTimestamp p of Some t \<Rightarrow> t + PEER_DEAD_TIME < now | None \<Rightarrow> False)
      then Peer_disconnect now p
      else Peer_pushMessage now pingMessage p)"

definition Peer_toObject :: "peer \<Rightarrow> peerInfo" where
  "Peer_toObject p = (pr_peerInfo p)\<lparr>pi_lifetimeMisbehaveScore := 0, pi_lifetimeTransmittedBytes := 0,
     pi_lifetimeReceivedBytes := 0, pi_failedConnectionsCount := 0\<rparr>"

definition Peer_resetFailedConnectionsCount :: "peer \<Rightarrow> peer" where
  "Peer_resetFailedConnectionsCount p = p\<lparr>pr_peerInfo := (pr_peerInfo p)\<lparr>pi_failedConnectionsCount := 0\<rparr>\<rparr>"

definition Peer_markAsPersistent :: "peer \<Rightarrow> peer" where "Peer_markAsPersistent p = p\<lparr>pr_persistent := True\<rparr>"
definition Peer_markAsWhitelisted :: "peer \<Rightarrow> peer" where "Peer_markAsWhitelisted p = p\<lparr>pr_whitelisted := True\<rparr>"

section \<open>The book of peers\<close>

text \<open>
  Whitelisting matches addresses against networks with the package \<open>ipaddr.js\<close>: \<open>pg_isWhitelisted\<close>.
  An entry of the map is the peer itself; \<open>pg_out\<close> records the peers announced by \<open>newPeer\<close>.
\<close>

record peerManager =
  pg_isSeed :: bool
  pg_strictAddresses :: bool
  pg_trustAnnounce :: bool
  pg_isRoutable :: "string \<Rightarrow> bool"
  pg_isWhitelisted :: "string \<Rightarrow> bool"
  pg_mapAllPeers :: "(string, peer) jsmap"
  pg_mapCandidatePeers :: "(string, peer) jsmap"
  pg_mapBannedAddresses :: "(string, int) jsmap"
  pg_out :: "string list"

text \<open>\<open>trustAnnounce || true\<close> is true whatever the option says.\<close>

definition PeerManager_new :: "bool \<Rightarrow> bool \<Rightarrow> bool \<Rightarrow> (string \<Rightarrow> bool) \<Rightarrow> (string \<Rightarrow> bool) \<Rightarrow> peerManager" where
  "PeerManager_new isSeed strictAddresses trustAnnounce isRoutable isWhitelisted =
     \<lparr>pg_isSeed = isSeed, pg_strictAddresses = strictAddresses, pg_trustAnnounce = (trustAnnounce \<or> True),
      pg_isRoutable = isRoutable, pg_isWhitelisted = isWhitelisted, pg_mapAllPeers = [],
      pg_mapCandidatePeers = [], pg_mapBannedAddresses = [], pg_out = []\<rparr>"

definition PeerManager_createKey :: "string \<Rightarrow> nat \<Rightarrow> string" where
  "PeerManager_createKey address port = address @ show_nat port"

definition Peer_key :: "peer \<Rightarrow> string" where
  "Peer_key p = PeerManager_createKey (pi_address (pr_peerInfo p)) (pi_port (pr_peerInfo p))"

definition PeerManager_getConnectedPeers :: "string option \<Rightarrow> peerManager \<Rightarrow> peer list" where
  "PeerManager_getConnectedPeers tag g =
     filter (\<lambda>p. \<not> Peer_disconnected p \<and> Peer_hasTag tag p) (jvalues (pg_mapAllPeers g))"

definition PeerManager_getBannedPeers :: "int \<Rightarrow> peerManager \<Rightarrow> peer list" where
  "PeerManager_getBannedPeers now g = filter (Peer_isBanned now) (jvalues (pg_mapAllPeers g))"

text \<open>\<open>Inl\<close> of the inner sum is a code, \<open>Inr\<close> the peer the book now holds.\<close>

definition PeerManager_addPeer :: "int \<Rightarrow> peer \<Rightarrow> bool \<Rightarrow> peerManager \<Rightarrow> (reject + peer) \<times> peerManager" where
  "PeerManager_addPeer now p bForceRewrite g =
     (let key = Peer_key p;
          existingPeer = jget (pg_mapAllPeers g) key;
          store = (\<lambda>g. let p = (if pg_isWhitelisted g (pi_address (pr_peerInfo p)) then Peer_markAsWhitelisted p else p)
                       in (Inr p, g\<lparr>pg_out := pg_out g @ [key], pg_mapAllPeers := jset key p (pg_mapAllPeers g)\<rparr>))
      in case existingPeer of
           None \<Rightarrow> store g
         | Some e \<Rightarrow>
             if Peer_isBanned now e then (Inl REJECT_BANNED, g)
             else if Peer_isRestricted now e then (Inl REJECT_RESTRICTED, g)
             else if Peer_isDead e \<and> \<not> pr_bInbound p then (Inl REJECT_REWRITE_DEAD, g)
             else (let e' = (if Peer_isDead e then Peer_resetFailedConnectionsCount e else e);
                       g' = g\<lparr>pg_mapAllPeers := jset key e' (pg_mapAllPeers g)\<rparr>
                   in if \<not> Peer_disconnected e' \<and> \<not> Peer_disconnected p then (Inl REJECT_DUPLICATE, g')
                      else if \<not> bForceRewrite then (Inr e', g')
                      else store g'))"

definition PeerManager_isBannedAddress :: "int \<Rightarrow> string \<Rightarrow> peerManager \<Rightarrow> bool" where
  "PeerManager_isBannedAddress now strAddress g =
     (case jget (pg_mapBannedAddresses g) strAddress of None \<Rightarrow> False | Some t \<Rightarrow> t > now)"

definition PeerManager_addCandidateConnection ::
    "int \<Rightarrow> int \<Rightarrow> peerInfo \<Rightarrow> peerManager \<Rightarrow> peerManager res" where
  "PeerManager_addCandidateConnection now delta info g =
     bindR (assertR (\<not> PeerManager_isBannedAddress now (pi_address info) g)
              (AssertionError ''Incoming connection dropped. Peer is banned'')) (\<lambda>_.
     let newPeer = Peer_new now delta True info
     in Inr (g\<lparr>pg_mapCandidatePeers := jset (Peer_key newPeer) newPeer (pg_mapCandidatePeers g)\<rparr>))"

definition PeerManager_associatePeer ::
    "int \<Rightarrow> peer \<Rightarrow> peerInfo \<Rightarrow> peerManager \<Rightarrow> ((reject + peer) \<times> peerManager) res" where
  "PeerManager_associatePeer now p info g =
     (let keyCandidate = Peer_key p
      in bindR (assertR (jget (pg_mapCandidatePeers g) keyCandidate \<noteq> None)
                 (AssertionError ''Unexpected peer not found in candidates!'')) (\<lambda>_.
         bindR (assertR (pg_strictAddresses g \<longrightarrow> pi_address (pr_peerInfo p) = pi_address info)
                 (AssertionError ''Peer tries to forge its address!'')) (\<lambda>_.
         let p = Peer_updatePeerFromPeerInfo (pg_isRoutable g) info (pg_trustAnnounce g) p;
             g = g\<lparr>pg_mapCandidatePeers := jdelete keyCandidate (pg_mapCandidatePeers g)\<rparr>
         in Inr (PeerManager_addPeer now p True g))))"

definition PeerManager_hasPeer :: "peer \<Rightarrow> peerManager \<Rightarrow> bool" where
  "PeerManager_hasPeer p g = jhas (pg_mapAllPeers g) (Peer_key p)"

text \<open>The peer that the book held is disconnected when the one passed is connected.\<close>

definition PeerManager_removePeer :: "int \<Rightarrow> peer \<Rightarrow> (unit, peerManager) act" where
  "PeerManager_removePeer now p g =
     (let key = Peer_key p
      in case jget (pg_mapAllPeers g) key of
           None \<Rightarrow> (Inr (), g)
         | Some foundPeer \<Rightarrow>
             if Peer_disconnected p then (Inr (), g\<lparr>pg_mapAllPeers := jdelete key (pg_mapAllPeers g)\<rparr>)
             else (case Peer_disconnect now foundPeer of
                     (Inl e, q) \<Rightarrow> (Inl e, g\<lparr>pg_mapAllPeers := jset key q (pg_mapAllPeers g)\<rparr>)
                   | (Inr _, _) \<Rightarrow> (Inr (), g\<lparr>pg_mapAllPeers := jdelete key (pg_mapAllPeers g)\<rparr>)))"

definition PeerManager_peerBaned :: "peer \<Rightarrow> peerManager \<Rightarrow> peerManager" where
  "PeerManager_peerBaned p g =
     g\<lparr>pg_mapBannedAddresses := jset (pi_address (pr_peerInfo p)) (pr_bannedTill p) (pg_mapBannedAddresses g)\<rparr>"

definition PeerManager_filterPeers :: "int \<Rightarrow> service option \<Rightarrow> bool \<Rightarrow> peerManager \<Rightarrow> peer list" where
  "PeerManager_filterPeers now service bIncludeInactive g =
     filter (\<lambda>p. (case service of None \<Rightarrow> True | Some sv \<Rightarrow> \<exists>cap\<in>set (pi_capabilities (pr_peerInfo p)). fst cap = sv) \<and>
                 \<not> Peer_isBanned now p \<and> \<not> Peer_isDead p \<and>
                 (bIncludeInactive \<or> pg_isSeed g \<or> Peer_isAlive now p \<and> \<not> Peer_isRestricted now p))
       (jvalues (pg_mapAllPeers g))"

definition PeerManager_findBestPeers :: "int \<Rightarrow> peerManager \<Rightarrow> peer list" where
  "PeerManager_findBestPeers now g =
     take MAX_PEERS (sort_key (\<lambda>p. - Peer_quality p)
       (filter (\<lambda>p. \<not> Peer_isRestricted now p \<and> \<not> Peer_isBanned now p \<and> \<not> Peer_isDead p)
          (jvalues (pg_mapAllPeers g))))"

text \<open>
  Which of the connected peers get a broadcast, by index. With a limit \<open>nCount\<close> (zero is no limit)
  the bytes of the message, or the indexes themselves when it has no payload, choose them.
\<close>

fun PeerManager_chooseIndexes ::
    "string list \<Rightarrow> string option \<Rightarrow> nat \<Rightarrow> nat list \<Rightarrow> nat list \<Rightarrow> nat list" where
  "PeerManager_chooseIndexes addrs exclude nCount [] setIndexes = setIndexes"
| "PeerManager_chooseIndexes addrs exclude nCount (byte # bytes) setIndexes =
     (let idx = byte mod length addrs
      in if length setIndexes \<ge> nCount then setIndexes
         else PeerManager_chooseIndexes addrs exclude nCount bytes
                (if (case exclude of None \<Rightarrow> idx \<notin> set setIndexes | Some a \<Rightarrow> a \<noteq> addrs ! idx)
                 then sadd idx setIndexes else setIndexes))"

definition PeerManager_broadcastIndexes ::
    "string list \<Rightarrow> nat list option \<Rightarrow> string option \<Rightarrow> nat \<Rightarrow> nat list" where
  "PeerManager_broadcastIndexes addrs payload exclude nCount =
     (if addrs = [] then []
      else if nCount \<noteq> 0
      then PeerManager_chooseIndexes addrs exclude nCount
             (case payload of Some bytes \<Rightarrow> bytes | None \<Rightarrow> [0..<length addrs]) []
      else case exclude of
             Some a \<Rightarrow> filter (\<lambda>i. addrs ! i \<noteq> a) [0..<length addrs]
           | None \<Rightarrow> [0..<length addrs])"

definition PeerManager_broadcastToConnected ::
    "string option \<Rightarrow> nat list option \<Rightarrow> peer option \<Rightarrow> nat \<Rightarrow> peerManager \<Rightarrow> peer list" where
  "PeerManager_broadcastToConnected tag payload peerToExclude nCount g =
     (let arrPeers = PeerManager_getConnectedPeers tag g
      in map ((!) arrPeers)
           (PeerManager_broadcastIndexes (map (\<lambda>p. pi_address (pr_peerInfo p)) arrPeers) payload
              (map_option (\<lambda>p. pi_address (pr_peerInfo p)) peerToExclude) nCount))"

end
