(* ===== verification/Cil_Messages.thy ===== *)
theory Cil_Messages
  imports Cil_Transaction
begin

text \<open>
  The structures messages carry and how messages are cut out of a byte stream: inventories of hashes
  (\<open>structures/inventory.js\<close>), arrays of hashes of one length (\<open>structures/arrayOf.js\<close>) and the
  assembler of the chunks a socket delivers (\<open>network/messageAssembler.js\<close>). Bytes are a list;
  reading the length prefix of a message is protobuf's and the parameter \<open>readMsgLength\<close> of
  the assembler.
\<close>

section \<open>Inventory\<close>

datatype inv_type = INV_TX | INV_BLOCK

record inventory =
  iv_vector :: "(inv_type \<times> hash) list"
  iv_setHashes :: "hash list"

definition Inventory_new :: inventory where "Inventory_new = \<lparr>iv_vector = [], iv_setHashes = []\<rparr>"

text \<open>The constructor from a decoded vector: what it holds counts as added.\<close>

definition Inventory_decode :: "(inv_type \<times> hash) list \<Rightarrow> inventory" where
  "Inventory_decode v = \<lparr>iv_vector = v, iv_setHashes = sof (map snd v)\<rparr>"

definition Inventory_wasAlreadyAdded :: "hash \<Rightarrow> inventory \<Rightarrow> bool" where
  "Inventory_wasAlreadyAdded h i \<longleftrightarrow> h \<in> set (iv_setHashes i)"

definition Inventory_markAsAdded :: "hash \<Rightarrow> inventory \<Rightarrow> inventory" where
  "Inventory_markAsAdded h i = i\<lparr>iv_setHashes := sadd h (iv_setHashes i)\<rparr>"

definition Inventory_add :: "inv_type \<Rightarrow> hash \<Rightarrow> inventory \<Rightarrow> inventory" where
  "Inventory_add t h i =
     (if Inventory_wasAlreadyAdded h i then i
      else Inventory_markAsAdded h (i\<lparr>iv_vector := iv_vector i @ [(t, h)]\<rparr>))"

definition Inventory_addTxHash :: "hash \<Rightarrow> inventory \<Rightarrow> inventory res" where
  "Inventory_addTxHash h i = bindR (typeforce (isHash256 h)) (\<lambda>_. Inr (Inventory_add INV_TX h i))"

definition Inventory_addBlockHash :: "hash \<Rightarrow> inventory \<Rightarrow> inventory res" where
  "Inventory_addBlockHash h i = bindR (typeforce (isHash256 h)) (\<lambda>_. Inr (Inventory_add INV_BLOCK h i))"

definition Inventory_addVector :: "inv_type \<times> hash \<Rightarrow> inventory \<Rightarrow> inventory" where
  "Inventory_addVector v i = i\<lparr>iv_vector := iv_vector i @ [v]\<rparr>"

text \<open>Built by adding hashes, an inventory names every hash once, in the order of the first additions.\<close>

lemma Inventory_add_invariant:
  assumes "distinct (map snd (iv_vector i))" "set (iv_setHashes i) = set (map snd (iv_vector i))"
  shows "distinct (map snd (iv_vector (Inventory_add t h i)))"
    and "set (iv_setHashes (Inventory_add t h i)) = set (map snd (iv_vector (Inventory_add t h i)))"
    and "set (map snd (iv_vector (Inventory_add t h i))) = insert h (set (map snd (iv_vector i)))"
  using assms
  by (auto simp: Inventory_add_def Inventory_wasAlreadyAdded_def Inventory_markAsAdded_def)

section \<open>Arrays of hashes\<close>

type_synonym byte = nat

fun ArrayOf_slices :: "nat \<Rightarrow> nat \<Rightarrow> 'a list \<Rightarrow> 'a list list" where
  "ArrayOf_slices 0 n data = []"
| "ArrayOf_slices (Suc k) n data =
     (if data = [] then [] else take n data # ArrayOf_slices k n (drop n data))"

definition ArrayOf_ensureLength :: "nat \<Rightarrow> 'a list \<Rightarrow> unit res" where
  "ArrayOf_ensureLength nEntityLength element =
     assertR (length element mod nEntityLength = 0) (Error ''Buffer you trying to decode not bytes aligned!'')"

text \<open>From bytes: the slices of \<open>nEntityLength\<close>; as many turns as there are bytes are enough.\<close>

definition ArrayOf_fromBuffer :: "nat \<Rightarrow> byte list \<Rightarrow> byte list list res" where
  "ArrayOf_fromBuffer nEntityLength data =
     bindR (ArrayOf_ensureLength nEntityLength data) (\<lambda>_.
     Inr (ArrayOf_slices (length data) nEntityLength data))"

text \<open>From an array of buffers: every one must be aligned, so one twice as long passes.\<close>

definition ArrayOf_fromArray :: "nat \<Rightarrow> byte list list \<Rightarrow> byte list list res" where
  "ArrayOf_fromArray nEntityLength data =
     mapM (\<lambda>e. bindR (ArrayOf_ensureLength nEntityLength e) (\<lambda>_. Inr e)) data"

definition ArrayOf_encode :: "byte list list \<Rightarrow> byte list" where
  "ArrayOf_encode arrOf = concat arrOf"

lemma ArrayOf_slices_concat:
  assumes "0 < n" "\<forall>x\<in>set xs. length x = n" "length (concat xs) \<le> k"
  shows "ArrayOf_slices k n (concat xs) = xs"
  using assms
proof (induction xs arbitrary: k)
  case Nil
  then show ?case by (cases k) auto
next
  case (Cons x xs)
  then have x: "length x = n" "x \<noteq> []" by auto
  with Cons.prems obtain k' where k: "k = Suc k'" by (cases k) auto
  have "ArrayOf_slices k' n (concat xs) = xs"
    using Cons.prems x k by (intro Cons.IH) auto
  with x show ?case by (simp add: k)
qed

section \<open>Messages out of chunks\<close>

text \<open>
  \<open>am_messageBuffer\<close> is \<open>None\<close> between messages; otherwise the buffer of the whole message, whose last
  \<open>am_bytesToGo\<close> bytes are still zero.
\<close>

record assembler =
  am_messageBuffer :: "byte list option"
  am_bytesToGo :: nat

definition Assembler_new :: assembler where
  "Assembler_new = \<lparr>am_messageBuffer = None, am_bytesToGo = 0\<rparr>"

definition Assembler_isDone :: "assembler \<Rightarrow> bool" where
  "Assembler_isDone a \<longleftrightarrow> am_messageBuffer a = None"

text \<open>\<open>data.copy(buffer, at, 0, n)\<close>.\<close>

definition bufferCopy :: "byte list \<Rightarrow> nat \<Rightarrow> nat \<Rightarrow> byte list \<Rightarrow> byte list" where
  "bufferCopy data at n buffer = take at buffer @ take n data @ drop (at + length (take n data)) buffer"

text \<open>
  The result \<open>null\<close> is the empty list here: the callers treat both alike. A chunk that ends one
  message is searched for the next, so the recursion is on the rest of the chunk; a length that is
  zero in total would not shorten it, and \<open>fuel\<close> stops there, as the stack of the interpreter does.
\<close>

fun Assembler_extract ::
    "(byte list \<Rightarrow> (nat \<times> nat) res) \<Rightarrow> nat \<Rightarrow> byte list \<Rightarrow> (byte list list, assembler) act" where
  "Assembler_extract readMsgLength 0 data a = (Inl (Error ''Maximum call stack size exceeded''), a)"
| "Assembler_extract readMsgLength (Suc fuel) data a =
     (case am_messageBuffer a of
        None \<Rightarrow>
          (case readMsgLength data of
             Inl e \<Rightarrow> (Inl e, a)
           | Inr (len, dataOffset) \<Rightarrow>
               (let total = len + dataOffset;
                    toCopyBytes = (if length data > total then total else length data);
                    messageBuffer = bufferCopy data 0 toCopyBytes (replicate total 0)
                in if length data = total then (Inr [messageBuffer], a)
                   else if length data > total
                   then bindS (Assembler_extract readMsgLength fuel (drop total data))
                          (\<lambda>rest. returnS (messageBuffer # rest)) a
                   else (Inr [], a\<lparr>am_messageBuffer := Some messageBuffer, am_bytesToGo := total - length data\<rparr>)))
      | Some buffer \<Rightarrow>
          (let toCopyBytes = (if am_bytesToGo a < length data then am_bytesToGo a else length data);
               buffer = bufferCopy data (length buffer - am_bytesToGo a) toCopyBytes buffer
           in if toCopyBytes = am_bytesToGo a
              then (let a = a\<lparr>am_messageBuffer := None\<rparr>
                    in if toCopyBytes = length data then (Inr [buffer], a)
                       else bindS (Assembler_extract readMsgLength fuel (drop toCopyBytes data))
                              (\<lambda>rest. returnS (buffer # rest)) a)
              else (Inr [], a\<lparr>am_messageBuffer := Some buffer, am_bytesToGo := am_bytesToGo a - toCopyBytes\<rparr>)))"

definition Assembler_extractMessages ::
    "(byte list \<Rightarrow> (nat \<times> nat) res) \<Rightarrow> byte list \<Rightarrow> (byte list list, assembler) act" where
  "Assembler_extractMessages readMsgLength data = Assembler_extract readMsgLength (length data + 2) data"

text \<open>The handler of the socket: every chunk in turn, the messages of all of them.\<close>

fun Assembler_feed :: "(byte list \<Rightarrow> (nat \<times> nat) res) \<Rightarrow> byte list list \<Rightarrow> (byte list list, assembler) act" where
  "Assembler_feed readMsgLength [] = returnS []"
| "Assembler_feed readMsgLength (chunk # chunks) =
     bindS (Assembler_extractMessages readMsgLength chunk) (\<lambda>ms.
     bindS (Assembler_feed readMsgLength chunks) (\<lambda>rest. returnS (ms @ rest)))"

end
