(* ===== verification/Cil_Node.thy ===== *)
theory Cil_Node
  imports Cil_Exec Cil_Wallet Cil_Pending Cil_Mempool Cil_Peer Cil_Messages
begin

text \<open>
  The node itself (\<open>src/node/node.js\<close>): how it checks and executes a block, accepts it, applies what
  became final, keeps the graph of headers and takes transactions into the pool. The record \<open>node\<close> is
  its state (\<open>_mainDag\<close>, \<open>_pendingBlocks\<close>, \<open>_storage\<close>, \<open>_mempool\<close>, \<open>_requestCache\<close>, the two maps of
  blocks, the block being processed and the two caches); \<open>node_cfg\<close> is what does not change: the
  platform of \<open>node_env\<close>, the operations of the two graphs, the hash of headers, the encoding of the
  pool, the banned blocks, the clock, the size of messages and a bound on the height of blocks. A peer is an entry of \<open>nd_peers\<close>, found by its key;
  what a method sends or tells others is appended to \<open>nd_out\<close>. The mutexes make each guarded section one step.
\<close>

section \<open>State\<close>

type_synonym peer_key = string

text \<open>What the node sends to one peer (\<open>Send...\<close>), announces to all, or tells the subscribers of its RPC.\<close>

datatype node_event =
    SendGetBlocks "hash list"
  | SendGetData "(inv_type \<times> hash) list"
  | SendInv "(inv_type \<times> hash) list"
  | SendGetMempool
  | SendTx tx
  | SendBlock block
  | InformTx hash "peer_key option"
  | InformBlock hash "peer_key option"
  | StableBlocks "hash list"
  | NewBlock hash
  | ConciliumsChanged
  | NewSeed nat

record ('g, 'm, 'd, 'r, 'a) node_cfg =
  nc_env :: "('d, 'r, 'a) node_env"
  nc_pdag :: "('g, 'd) pdag"
  nc_mdag :: "'m mdag"
  nc_block :: block_crypto
  nc_codec :: tx_codec
  nc_depth :: nat
  nc_blocksBad :: "hash list"
  nc_now :: int
  nc_msgSize :: "node_event \<Rightarrow> nat"
  nc_networkSuspended :: bool
  nc_slowBoot :: bool
  nc_levels :: nat

record ('g, 'm, 'd) node =
  nd_mainDag :: 'm
  nd_pendingBlocks :: "'g pending"
  nd_storage :: "'d storage"
  nd_wallet :: wallet_db
  nd_txIndex :: tx_index
  nd_mempool :: "'d patch mempool"
  nd_requestCache :: requestCache
  nd_peers :: "(peer_key, peer) jsmap"
  nd_mapBlocksToExec :: "(hash, peer_key option) jsmap"
  nd_mapUnknownBlocks :: "(hash, peer_key option) jsmap"
  nd_processedBlock :: "block option"
  nd_patchLocalTxns :: "'d patch option"
  nd_objCurrentBestParents :: "(hash list \<times> 'd patch option) option"
  nd_out :: "(peer_key option \<times> node_event) list"

definition onStorage :: "('x, 'd storage) act \<Rightarrow> ('x, ('g, 'm, 'd) node) act" where
  "onStorage = zoomS nd_storage (\<lambda>x s. s\<lparr>nd_storage := x\<rparr>)"

text \<open>The store with its options: the wallet and the index of transactions.\<close>

definition onFullStorage ::
    "('g, 'm, 'd, 'r, 'a) node_cfg \<Rightarrow> ('x, 'd full_storage) act \<Rightarrow> ('x, ('g, 'm, 'd) node) act" where
  "onFullStorage K = zoomS
     (\<lambda>s. \<lparr>fs_main = nd_storage s, fs_wallet = nd_wallet s, fs_index = nd_txIndex s, fs_setBlocksBad = nc_blocksBad K\<rparr>)
     (\<lambda>x s. s\<lparr>nd_storage := fs_main x, nd_wallet := fs_wallet x, nd_txIndex := fs_index x\<rparr>)"

definition onPending :: "('x, 'g pending) act \<Rightarrow> ('x, ('g, 'm, 'd) node) act" where
  "onPending = zoomS nd_pendingBlocks (\<lambda>x s. s\<lparr>nd_pendingBlocks := x\<rparr>)"

definition onMempool :: "('x, 'd patch mempool) act \<Rightarrow> ('x, ('g, 'm, 'd) node) act" where
  "onMempool = zoomS nd_mempool (\<lambda>x s. s\<lparr>nd_mempool := x\<rparr>)"

definition onMainDag :: "('x, 'm) act \<Rightarrow> ('x, ('g, 'm, 'd) node) act" where
  "onMainDag = zoomS nd_mainDag (\<lambda>x s. s\<lparr>nd_mainDag := x\<rparr>)"

definition onRequests :: "('x, requestCache) act \<Rightarrow> ('x, ('g, 'm, 'd) node) act" where
  "onRequests = zoomS nd_requestCache (\<lambda>x s. s\<lparr>nd_requestCache := x\<rparr>)"

definition Node_emit :: "node_event \<Rightarrow> (unit, ('g, 'm, 'd) node) act" where
  "Node_emit ev = modifyS (\<lambda>s. s\<lparr>nd_out := nd_out s @ [(None, ev)]\<rparr>)"

abbreviation nc_crypto :: "('g, 'm, 'd, 'r, 'a) node_cfg \<Rightarrow> crypto" where
  "nc_crypto K \<equiv> ne_crypto (nc_env K)"

abbreviation nc_serializers :: "('g, 'm, 'd, 'r, 'a) node_cfg \<Rightarrow> 'd serializers" where
  "nc_serializers K \<equiv> ne_serializers (nc_env K)"

text \<open>\<open>block.getHash()\<close>, with the block as the call leaves it: the Merkle root and the cache may be filled.\<close>

definition Node_hash :: "('g, 'm, 'd, 'r, 'a) node_cfg \<Rightarrow> block \<Rightarrow> (hash \<times> block, ('g, 'm, 'd) node) act" where
  "Node_hash K b = liftS (Block_hash (nc_crypto K) (nc_block K) b)"

text \<open>The block a contract sees: \<open>_processedBlock\<close>.\<close>

definition Node_blockEnv :: "('g, 'm, 'd, 'r, 'a) node_cfg \<Rightarrow> block \<Rightarrow> block_env" where
  "Node_blockEnv K b =
     \<lparr>be_hash = (case Block_hash (nc_crypto K) (nc_block K) b of Inl _ \<Rightarrow> [] | Inr (h, _) \<Rightarrow> h),
      be_timestamp = Block_timestamp (nat (nc_now K div 1000)) b, be_height = Block_getHeight b\<rparr>"

definition Node_envNow :: "('g, 'm, 'd, 'r, 'a) node_cfg \<Rightarrow> ('g, 'm, 'd) node \<Rightarrow> ('d, 'r, 'a) node_env" where
  "Node_envNow K s = (nc_env K)\<lparr>ne_processedBlock := map_option (Node_blockEnv K) (nd_processedBlock s)\<rparr>"

definition Node_runTx ::
    "('g, 'm, 'd, 'r, 'a) node_cfg \<Rightarrow> 'd patch option \<Rightarrow> bool \<Rightarrow> tx \<Rightarrow> (int \<times> 'd patch, ('g, 'm, 'd) node) act" where
  "Node_runTx K patchForBlock isGenesis t s =
     onStorage (Node_processTx (nc_depth K) (Node_envNow K s) patchForBlock isGenesis t) s"

section \<open>Heights and what is known of a block\<close>

definition Node_blockInfo :: "('g, 'm, 'd, 'r, 'a) node_cfg \<Rightarrow> hash \<Rightarrow> (blockInfo option, ('g, 'm, 'd) node) act" where
  "Node_blockInfo K h s = (MainDag_getBlockInfo (nc_mdag K) h (nd_mainDag s), s)"

definition Node_calcHeight ::
    "('g, 'm, 'd, 'r, 'a) node_cfg \<Rightarrow> hash list \<Rightarrow> (nat, ('g, 'm, 'd) node) act" where
  "Node_calcHeight K arrParentHashes =
     bindS (liftS (typeforce (list_all isHash256 arrParentHashes))) (\<lambda>_.
     bindS (foldS (\<lambda>hash maxHeight.
              bindS (Node_blockInfo K hash) (\<lambda>bi.
              case bi of
                None \<Rightarrow> throwS (TypeError ''Cannot read property'')
              | Some x \<Rightarrow> returnS (if maxHeight > BlockInfo_getHeight x then maxHeight
                                  else BlockInfo_getHeight x))) arrParentHashes 0) (\<lambda>m.
     returnS (m + 1)))"

definition Node_checkHeight :: "('g, 'm, 'd, 'r, 'a) node_cfg \<Rightarrow> block \<Rightarrow> (unit, ('g, 'm, 'd) node) act" where
  "Node_checkHeight K b =
     bindS (Node_calcHeight K (Block_parentHashes b)) (\<lambda>calculatedHeight.
     liftS (assertR (calculatedHeight = Block_getHeight b) (AssertionError ''Incorrect height'')))"

definition Node_isBlockExecuted ::
    "('g, 'm, 'd, 'r, 'a) node_cfg \<Rightarrow> hash \<Rightarrow> (bool, ('g, 'm, 'd) node) act" where
  "Node_isBlockExecuted K hash =
     bindS (Node_blockInfo K hash) (\<lambda>bi.
     if (case bi of Some x \<Rightarrow> BlockInfo_isFinal x | None \<Rightarrow> False) then returnS True
     else (\<lambda>s. (Pending_hasBlock (nc_pdag K) hash (nd_pendingBlocks s), s)))"

definition Node_isBlockKnown ::
    "('g, 'm, 'd, 'r, 'a) node_cfg \<Rightarrow> hash \<Rightarrow> (bool, ('g, 'm, 'd) node) act" where
  "Node_isBlockKnown K hash =
     bindS (Node_blockInfo K hash) (\<lambda>bi.
     if bi \<noteq> None then returnS True else (\<lambda>s. (Storage_hasBlock hash (nd_storage s), s)))"

text \<open>The loop over the parents: a bad one throws, the first unexecuted one ends it.\<close>

fun Node_parentsExecuted ::
    "('g, 'm, 'd, 'r, 'a) node_cfg \<Rightarrow> hash list \<Rightarrow> (bool, ('g, 'm, 'd) node) act" where
  "Node_parentsExecuted K [] = returnS True"
| "Node_parentsExecuted K (hash # hashes) =
     bindS (Node_blockInfo K hash) (\<lambda>bi.
     if (case bi of Some x \<Rightarrow> BlockInfo_isBad x | None \<Rightarrow> False)
     then throwS (Error ''Block refer to bad parent'')
     else bindS (Node_isBlockExecuted K hash) (\<lambda>executed.
          if executed then Node_parentsExecuted K hashes else returnS False))"

datatype block_or_info = IsBlock block | IsInfo blockInfo

text \<open>\<open>getHash\<close>, \<open>parentHashes\<close> and \<open>header\<close> are methods of both classes.\<close>

definition Node_hashOf ::
    "('g, 'm, 'd, 'r, 'a) node_cfg \<Rightarrow> block_or_info \<Rightarrow> (hash \<times> block_or_info, ('g, 'm, 'd) node) act" where
  "Node_hashOf K x =
     (case x of
        IsBlock b \<Rightarrow> bindS (Node_hash K b) (\<lambda>(h, b'). returnS (h, IsBlock b'))
      | IsInfo bi \<Rightarrow> returnS (BlockInfo_getHash (nc_block K) bi, IsInfo bi))"

fun Node_parentsOf :: "block_or_info \<Rightarrow> hash list" where
  "Node_parentsOf (IsBlock b) = Block_parentHashes b"
| "Node_parentsOf (IsInfo bi) = BlockInfo_parentHashes bi"

definition Node_canExecuteBlock ::
    "('g, 'm, 'd, 'r, 'a) node_cfg \<Rightarrow> block_or_info \<Rightarrow> (bool, ('g, 'm, 'd) node) act" where
  "Node_canExecuteBlock K x =
     bindS (Node_hashOf K x) (\<lambda>(h, x).
     if h = GENESIS_BLOCK then returnS True else Node_parentsExecuted K (Node_parentsOf x))"

section \<open>Executing a block\<close>

definition Node_isGenesisBlock :: "('g, 'm, 'd, 'r, 'a) node_cfg \<Rightarrow> block \<Rightarrow> (bool \<times> block, ('g, 'm, 'd) node) act" where
  "Node_isGenesisBlock K b = bindS (Node_hash K b) (\<lambda>(h, b'). returnS (h = GENESIS_BLOCK, b'))"

text \<open>Outputs of zero coins are not stored.\<close>

definition Node_coinbaseCoins :: "hash \<Rightarrow> coins list \<Rightarrow> 'd patch \<Rightarrow> 'd patch res" where
  "Node_coinbaseCoins h coins =
     foldR (\<lambda>i p. if Coins_getAmount (coins ! i) \<noteq> 0 then PatchDB_createCoins h (int i) (coins ! i) p else Inr p)
       [0..<length coins]"

definition Node_processBlockCoinbaseTX ::
    "('g, 'm, 'd, 'r, 'a) node_cfg \<Rightarrow> block \<Rightarrow> int \<Rightarrow> 'd patch \<Rightarrow> ('d patch, ('g, 'm, 'd) node) act" where
  "Node_processBlockCoinbaseTX K b blockFees patchState =
     (case bl_txns b of
        [] \<Rightarrow> throwS (TypeError ''Expected transaction'')
      | coinbase # _ \<Rightarrow>
          bindS (Node_isGenesisBlock K b) (\<lambda>(isGenesis, b).
          bindS (if isGenesis then returnS () else liftS (Transaction_verifyCoinbase blockFees coinbase)) (\<lambda>_.
          liftS (Node_coinbaseCoins (Transaction_getHash (nc_crypto K) coinbase)
                   (Transaction_getOutCoins coinbase) patchState))))"

definition Node_execTx ::
    "('g, 'm, 'd, 'r, 'a) node_cfg \<Rightarrow> block \<Rightarrow> bool \<Rightarrow> tx \<Rightarrow> int \<times> 'd patch \<Rightarrow>
     (int \<times> 'd patch, ('g, 'm, 'd) node) act" where
  "Node_execTx K b isGenesis t acc =
     bindS (liftS (assertR (Transaction_conciliumId t = Block_getConciliumId b)
                     (AssertionError ''Tx conciliumId differ from block's one''))) (\<lambda>_.
     bindS (Node_runTx K (Some (snd acc)) isGenesis t) (\<lambda>(fee, patchThisTx).
     bindS (liftS (PatchDB_merge (nc_serializers K) True (snd acc) patchThisTx)) (\<lambda>patchState.
     returnS (fst acc + fee, patchState))))"

definition Node_execBlock ::
    "('g, 'm, 'd, 'r, 'a) node_cfg \<Rightarrow> block \<Rightarrow> ('d patch option, ('g, 'm, 'd) node) act" where
  "Node_execBlock K b =
     bindS (Node_isGenesisBlock K b) (\<lambda>(isGenesis, b).
     bindS (Node_hash K b) (\<lambda>(h, b).
     bindS (Node_isBlockExecuted K h) (\<lambda>executed.
     if executed then returnS None
     else bindS (if isGenesis then returnS () else Node_checkHeight K b) (\<lambda>_.
          bindS (\<lambda>s. (Pending_mergePatches (nc_pdag K) (nc_serializers K) (Block_parentHashes b) None
                        (nd_pendingBlocks s), s)) (\<lambda>(merged, _).
          bindS (liftS (PatchDB_setConciliumId (Some (Block_getConciliumId b)) merged)) (\<lambda>patchState.
          bindS (foldS (Node_execTx K b isGenesis) (tl (bl_txns b)) (0, patchState)) (\<lambda>(blockFees, patchState).
          bindS (if isGenesis then returnS patchState
                 else Node_processBlockCoinbaseTX K b blockFees patchState) (\<lambda>patchState.
          returnS (Some patchState)))))))))"

section \<open>Checking a block\<close>

definition Node_verifyBlockSignatures ::
    "('g, 'm, 'd, 'r, 'a) node_cfg \<Rightarrow> block \<Rightarrow> (unit, ('g, 'm, 'd) node) act" where
  "Node_verifyBlockSignatures K b =
     bindS (Node_hash K b) (\<lambda>(blockHash, b).
     bindS (onStorage (Storage_getConciliumById (nc_serializers K) (ne_loadConciliums (nc_env K))
                         (Block_getConciliumId b))) (\<lambda>concilium.
     bindS (liftS (foldR (\<lambda>sig gatheredWeight.
              bindR (cr_recoverPubKey (nc_crypto K) blockHash sig) (\<lambda>pubKey.
              let strAddress = cr_getAddress (nc_crypto K) pubKey in
              bindR (assertR (strAddress \<in> set (Concilium_getAddresses concilium))
                       (AssertionError ''Bad signature for block'')) (\<lambda>_.
              bindR (Concilium_getWitnessWeight strAddress concilium) (\<lambda>w.
              Inr (dbl (gatheredWeight + w)))))) (bl_signatures b) 0)) (\<lambda>gatheredWeight.
     case Concilium_getQuorum concilium of
       None \<Rightarrow> returnS ()
     | Some quorum \<Rightarrow> (if gatheredWeight < quorum then throwS (Error ''Not enough signatures for block!'')
                       else returnS ()))))"

definition Node_verifyBlock ::
    "('g, 'm, 'd, 'r, 'a) node_cfg \<Rightarrow> bool \<Rightarrow> block \<Rightarrow> (unit, ('g, 'm, 'd) node) act" where
  "Node_verifyBlock K checkSignatures b =
     bindS (Node_isGenesisBlock K b) (\<lambda>(isGenesis, b).
     if isGenesis then returnS ()
     else bindS (liftS (Block_verify (nc_crypto K) (nc_block K) checkSignatures b)) (\<lambda>_.
          bindS (if checkSignatures then Node_verifyBlockSignatures K b else returnS ()) (\<lambda>_ s.
          (Storage_checkTxCollision (Block_getTxHashes (nc_crypto K) b) (nd_storage s), s))))"

section \<open>Storing a block and its state\<close>

definition Node_dagAdd :: "('g, 'm, 'd, 'r, 'a) node_cfg \<Rightarrow> blockInfo \<Rightarrow> (unit, ('g, 'm, 'd) node) act" where
  "Node_dagAdd K bi = onMainDag (modifyS (MainDag_addBlock (nc_mdag K) (nc_block K) bi))"

definition Node_storeBlockAndInfo ::
    "('g, 'm, 'd, 'r, 'a) node_cfg \<Rightarrow> block option \<Rightarrow> blockInfo \<Rightarrow> bool \<Rightarrow> (unit, ('g, 'm, 'd) node) act" where
  "Node_storeBlockAndInfo K b blockInfo bOnlyDag =
     bindS (Node_dagAdd K blockInfo) (\<lambda>_.
     if bOnlyDag then returnS ()
     else if BlockInfo_isBad blockInfo
     then (let h = BlockInfo_getHash (nc_block K) blockInfo
           in bindS (\<lambda>s. (Inr (case Storage_getBlockInfo h (nd_storage s) of Inl _ \<Rightarrow> None | Inr bi \<Rightarrow> Some bi), s))
                (\<lambda>storedBI.
              bindS (onStorage (modifyS (Storage_saveBlockInfo (nc_block K) blockInfo))) (\<lambda>_.
              if (case storedBI of Some bi \<Rightarrow> \<not> BlockInfo_isBad bi | None \<Rightarrow> False)
              then onStorage (updR (Storage_removeBlock h)) else returnS ())))
     else catchS (case b of
                    None \<Rightarrow> throwS (TypeError ''Cannot read property'')
                  | Some x \<Rightarrow> bindS (Node_hash K x) (\<lambda>(h, x).
                      onFullStorage K (Storage_saveBlockFull (nc_crypto K) (nc_block K) h x (Some blockInfo))))
            (\<lambda>_. returnS ()))"

definition Node_blockBad ::
    "('g, 'm, 'd, 'r, 'a) node_cfg \<Rightarrow> block_or_info \<Rightarrow> (unit, ('g, 'm, 'd) node) act" where
  "Node_blockBad K x =
     (let blockInfo = (case x of IsBlock b \<Rightarrow> BlockInfo_new (bl_header b) | IsInfo bi \<Rightarrow> bi)
      in Node_storeBlockAndInfo K None (BlockInfo_markAsBad blockInfo) False)"

definition Node_blockInFlight ::
    "('g, 'm, 'd, 'r, 'a) node_cfg \<Rightarrow> block \<Rightarrow> bool \<Rightarrow> (unit, ('g, 'm, 'd) node) act" where
  "Node_blockInFlight K b bOnlyDag =
     bindS (Node_hash K b) (\<lambda>(_, b).
     Node_storeBlockAndInfo K (Some b) (BlockInfo_markAsInFlight (BlockInfo_new (bl_header b))) bOnlyDag)"

section \<open>Transactions and the pool\<close>

definition Node_ensureBestBlockValid :: "('g, 'm, 'd, 'r, 'a) node_cfg \<Rightarrow> (unit, ('g, 'm, 'd) node) act" where
  "Node_ensureBestBlockValid K s =
     (if nd_objCurrentBestParents s \<noteq> None then (Inr (), s)
      else case Pending_getBestParents (nc_pdag K) (nc_serializers K) None (nd_pendingBlocks s) of
          Inl e \<Rightarrow> (Inl e, s)
        | Inr x \<Rightarrow> (Inr (), s\<lparr>nd_objCurrentBestParents := Some x\<rparr>))"

text \<open>The merged patch of the best parents; \<open>None\<close> is \<open>undefined\<close>.\<close>

definition Node_patchMerged :: "('g, 'm, 'd, 'r, 'a) node_cfg \<Rightarrow> ('d patch option, ('g, 'm, 'd) node) act" where
  "Node_patchMerged K =
     bindS (Node_ensureBestBlockValid K) (\<lambda>_.
     getsS (\<lambda>s. Option.bind (nd_objCurrentBestParents s) snd))"

definition Node_getPendingUtxos :: "('g, 'm, 'd, 'r, 'a) node_cfg \<Rightarrow> (utxo list, ('g, 'm, 'd) node) act" where
  "Node_getPendingUtxos K =
     bindS (Node_patchMerged K) (\<lambda>patchMerged.
     case patchMerged of
       None \<Rightarrow> throwS (TypeError ''Cannot read property'')
     | Some p \<Rightarrow> returnS (jvalues (PatchDB_getCoins p)))"

definition Node_validateTxLight ::
    "('g, 'm, 'd, 'r, 'a) node_cfg \<Rightarrow> tx \<Rightarrow> (unit, ('g, 'm, 'd) node) act" where
  "Node_validateTxLight K t =
     bindS (liftS (Transaction_verify t)) (\<lambda>_.
     bindS (getsS (\<lambda>s. Storage_getUtxosPatch (Transaction_utxos t) (nd_storage s))) (\<lambda>patchUtxos.
     bindS (Node_patchMerged K) (\<lambda>patchMerged.
     case patchMerged of
       None \<Rightarrow> throwS (TypeError ''Cannot read property'')
     | Some p \<Rightarrow>
         bindS (liftS (PatchDB_merge (nc_serializers K) False p patchUtxos)) (\<lambda>m.
         bindS (liftS (App_processTxInputs (nc_crypto K) t (Some m))) (\<lambda>(_, totalHas).
         bindS (onStorage (Node_calculateSizeFee (nc_env K) t False)) (\<lambda>sizeFee.
         liftS (assertR (totalHas \<ge> Transaction_amountOut t + sizeFee)
                  (AssertionError ''Require fee at least'')))))))) "

definition Node_processReceivedTx ::
    "('g, 'm, 'd, 'r, 'a) node_cfg \<Rightarrow> tx \<Rightarrow> bool \<Rightarrow> (unit, ('g, 'm, 'd) node) act" where
  "Node_processReceivedTx K t bStoreInMempool =
     (let strTxHash = Transaction_getHash (nc_crypto K) t
      in bindS (\<lambda>s. (Mempool_hasTx strTxHash (nd_mempool s), s)) (\<lambda>has.
         if has then returnS ()
         else catchS
           (bindS (\<lambda>s. (Storage_checkTxCollision [strTxHash] (nd_storage s), s)) (\<lambda>_.
            bindS (Node_validateTxLight K t) (\<lambda>_.
            if bStoreInMempool then onMempool (Mempool_addTx (nc_crypto K) (nc_now K) t) else returnS ())))
           (\<lambda>e. bindS (onMempool (updR (Mempool_storeBadTxHash (nc_now K) strTxHash))) (\<lambda>_. throwS e))))"

text \<open>
  The loop over the local transactions: one without a patch is executed again, and dropped when
  that fails; the patches of the others are merged.
\<close>

definition Node_localTxPatch ::
    "('g, 'm, 'd, 'r, 'a) node_cfg \<Rightarrow> hash \<Rightarrow> ('d patch option, ('g, 'm, 'd) node) act" where
  "Node_localTxPatch K strTxHash =
     bindS (\<lambda>s. (Mempool_getTx strTxHash (nd_mempool s), s)) (\<lambda>localTx.
     catchS
       (bindS (Node_runTx K None False localTx) (\<lambda>(_, patchThisTx).
        bindS (onMempool (modifyS (Mempool_addLocalTx (nc_crypto K) (nc_codec K) localTx (Some patchThisTx) False))) (\<lambda>_.
        returnS (Some patchThisTx))))
       (\<lambda>_. bindS (onMempool (modifyS (Mempool_removeTxns (nc_codec K) [strTxHash]))) (\<lambda>_. returnS None)))"

definition Node_mergeLocal ::
    "('g, 'm, 'd, 'r, 'a) node_cfg \<Rightarrow> hash \<times> 'd patch option \<Rightarrow> 'd patch \<Rightarrow> ('d patch, ('g, 'm, 'd) node) act" where
  "Node_mergeLocal K e patchMerged =
     (case e of (strTxHash, patchTx) \<Rightarrow>
      bindS (case patchTx of Some p \<Rightarrow> returnS (Some p) | None \<Rightarrow> Node_localTxPatch K strTxHash) (\<lambda>patchTx.
      case patchTx of
        None \<Rightarrow> returnS patchMerged
      | Some p \<Rightarrow> liftS (PatchDB_merge (nc_serializers K) False patchMerged p)))"

definition Node_ensureLocalTxnsPatch :: "('g, 'm, 'd, 'r, 'a) node_cfg \<Rightarrow> (unit, ('g, 'm, 'd) node) act" where
  "Node_ensureLocalTxnsPatch K s =
     (if nd_patchLocalTxns s \<noteq> None then (Inr (), s)
      else bindS (foldS (Node_mergeLocal K) (Mempool_getLocalTxnsPatches (nd_mempool s)) PatchDB_empty)
             (\<lambda>patchMerged. modifyS (\<lambda>s. s\<lparr>nd_patchLocalTxns := Some patchMerged\<rparr>)) s)"

definition Node_acceptLocalTx :: "('g, 'm, 'd, 'r, 'a) node_cfg \<Rightarrow> tx \<Rightarrow> (unit, ('g, 'm, 'd) node) act" where
  "Node_acceptLocalTx K newTx =
     (let strNewTxHash = Transaction_getHash (nc_crypto K) newTx
      in bindS (liftS (Transaction_verify newTx)) (\<lambda>_.
         bindS (\<lambda>s. (Mempool_hasTx strNewTxHash (nd_mempool s), s)) (\<lambda>has.
         bindS (liftS (assertR (\<not> has) (AssertionError ''Tx already in mempool''))) (\<lambda>_.
         catchS
           (bindS (Node_ensureLocalTxnsPatch K) (\<lambda>_.
            bindS (Node_processReceivedTx K newTx False) (\<lambda>_.
            bindS (Node_runTx K None False newTx) (\<lambda>(_, patchNewTx).
            bindS (getsS nd_patchLocalTxns) (\<lambda>patchLocal.
            bindS (case patchLocal of
                     None \<Rightarrow> throwS (TypeError ''Cannot read property'')
                   | Some p \<Rightarrow> liftS (PatchDB_merge (nc_serializers K) False p patchNewTx)) (\<lambda>merged.
            bindS (modifyS (\<lambda>s. s\<lparr>nd_patchLocalTxns := Some merged\<rparr>)) (\<lambda>_.
            bindS (onMempool (modifyS (Mempool_addLocalTx (nc_crypto K) (nc_codec K) newTx (Some patchNewTx) False))) (\<lambda>_.
            Node_emit (InformTx strNewTxHash None)))))))))
           (\<lambda>_. throwS (Error ''Tx is not accepted'')))))) "


section \<open>Accepting a block and what becomes final\<close>

text \<open>
  The block did not become final: its transactions go back to the pool and it leaves the graphs;
  the first step is the log entry, whose hash is computed outside every \<open>try\<close>.
\<close>

definition Node_unwindBlock :: "('g, 'm, 'd, 'r, 'a) node_cfg \<Rightarrow> block \<Rightarrow> (unit, ('g, 'm, 'd) node) act" where
  "Node_unwindBlock K b =
     bindS (Node_hash K b) (\<lambda>(h, b).
     bindS (eachS (\<lambda>t. catchS (Node_processReceivedTx K t True) (\<lambda>_. returnS ())) (tl (bl_txns b))) (\<lambda>_.
     catchS (bindS (onPending (updR (Pending_removeBlock (nc_pdag K) h))) (\<lambda>_.
             onMainDag (updR (MainDag_removeBlock (nc_mdag K) h))))
            (\<lambda>_. returnS ())))"

text \<open>The newest final block of every concilium, by concilium; a block without a header in the graph throws.\<close>

definition Node_mapConciliumIdHash ::
    "('g, 'm, 'd, 'r, 'a) node_cfg \<Rightarrow> hash list \<Rightarrow> ((nat, hash) jsmap, ('g, 'm, 'd) node) act" where
  "Node_mapConciliumIdHash K hashes =
     foldS (\<lambda>hash m. bindS (Node_blockInfo K hash) (\<lambda>bi.
        case bi of
          None \<Rightarrow> throwS (TypeError ''Cannot read property'')
        | Some cBlockInfo \<Rightarrow> returnS (jset (BlockInfo_getConciliumId cBlockInfo) hash m))) hashes []"

text \<open>
  The seed is the sum of the bytes of the smallest hash; a node only computes it, a witness takes it
  over, which the event \<open>NewSeed\<close> tells.
\<close>

fun hexDigit :: "char \<Rightarrow> nat option" where
  "hexDigit c = (let n = of_char c :: nat in
     if 48 \<le> n \<and> n \<le> 57 then Some (n - 48)
     else if 97 \<le> n \<and> n \<le> 102 then Some (n - 87)
     else if 65 \<le> n \<and> n \<le> 70 then Some (n - 55) else None)"

fun hexBytes :: "string \<Rightarrow> nat list" where
  "hexBytes (a # b # s) = (case (hexDigit a, hexDigit b) of
       (Some x, Some y) \<Rightarrow> (16 * x + y) # hexBytes s
     | _ \<Rightarrow> [])"
| "hexBytes _ = []"

definition strLess :: "string \<Rightarrow> string \<Rightarrow> bool" where
  "strLess a b = ord_class.lexordp (map of_char a) (map of_char b :: nat list)"

definition Node_createPseudoRandomSeed :: "hash list \<Rightarrow> nat" where
  "Node_createPseudoRandomSeed arrLastStableBlockHashes =
     sum_list (hexBytes (fold (\<lambda>strCurrent strLowest. if strLess strLowest strCurrent then strLowest
                                  else strCurrent) arrLastStableBlockHashes ''z''))"

definition Node_updateLastAppliedBlocks ::
    "('g, 'm, 'd, 'r, 'a) node_cfg \<Rightarrow> hash list \<Rightarrow> (unit, ('g, 'm, 'd) node) act" where
  "Node_updateLastAppliedBlocks K arrTopStable =
     bindS (getsS (\<lambda>s. Storage_getLastAppliedBlockHashes (nd_storage s))) (\<lambda>arrPrevTopStableBlocks.
     bindS (Node_mapConciliumIdHash K arrPrevTopStableBlocks) (\<lambda>mapPrevConciliumIdHash.
     bindS (Node_mapConciliumIdHash K arrTopStable) (\<lambda>mapNewConciliumIdHash.
     bindS (onStorage (Storage_getConciliumsCount (nc_serializers K) (ne_loadConciliums (nc_env K)))) (\<lambda>nConciliumCount.
     let arrNewLastApplied =
           List.map_filter (\<lambda>i. case jget mapNewConciliumIdHash i of
               Some h \<Rightarrow> Some h | None \<Rightarrow> jget mapPrevConciliumIdHash i) [0..<Suc nConciliumCount]
     in bindS (onStorage (updR (Storage_updateLastAppliedBlocks arrNewLastApplied))) (\<lambda>_.
        Node_emit (NewSeed (Node_createPseudoRandomSeed arrNewLastApplied)))))))"

definition Node_markFinal ::
    "('g, 'm, 'd, 'r, 'a) node_cfg \<Rightarrow> hash \<Rightarrow> nat \<Rightarrow> (nat, ('g, 'm, 'd) node) act" where
  "Node_markFinal K hash nHeightMax =
     bindS (Node_blockInfo K hash) (\<lambda>bi.
     case bi of
       None \<Rightarrow> throwS (TypeError ''Cannot read property'')
     | Some x \<Rightarrow>
         (let bi = BlockInfo_markAsFinal x
          in bindS (onMainDag (modifyS (MainDag_setBlockInfo (nc_mdag K) (nc_block K) bi))) (\<lambda>_.
             bindS (onStorage (modifyS (Storage_saveBlockInfo (nc_block K) bi))) (\<lambda>_.
             returnS (if BlockInfo_getHeight bi > nHeightMax then BlockInfo_getHeight bi else nHeightMax)))))"

text \<open>\<open>applyPatch\<close> of the storage and its \<open>finally\<close>: without definitions in memory the conciliums may have changed.\<close>

definition Node_applyPatch ::
    "('g, 'm, 'd, 'r, 'a) node_cfg \<Rightarrow> 'd patch \<Rightarrow> nat \<Rightarrow> (unit, ('g, 'm, 'd) node) act" where
  "Node_applyPatch K patchToApply nHeightMax =
     finallyS (onFullStorage K (Storage_applyPatchFull (nc_serializers K) patchToApply nHeightMax))
       (\<lambda>s. if sg_arrConciliumDefinition (nd_storage s) = None then Node_emit ConciliumsChanged s else (Inr (), s))"

definition Node_processFinalityResults ::
    "('g, 'm, 'd, 'r, 'a) node_cfg \<Rightarrow> 'd finality option \<Rightarrow> (unit, ('g, 'm, 'd) node) act" where
  "Node_processFinalityResults K result =
     (case result of
        None \<Rightarrow> returnS ()
      | Some r \<Rightarrow>
          bindS (Node_updateLastAppliedBlocks K (fn_arrTopStable r)) (\<lambda>_.
          bindS (foldS (Node_markFinal K) (fn_setStableBlocks r) 0) (\<lambda>nHeightMax.
          bindS (Node_applyPatch K (fn_patchToApply r) nHeightMax) (\<lambda>_.
          bindS (modifyS (\<lambda>s. s\<lparr>nd_patchLocalTxns := None\<rparr>)) (\<lambda>_.
          bindS (Node_ensureLocalTxnsPatch K) (\<lambda>_.
          bindS (eachS (\<lambda>blockHash. bindS (\<lambda>s. (Storage_getBlock blockHash (nd_storage s), s)) (Node_unwindBlock K))
                   (fn_setBlocksToRollback r)) (\<lambda>_.
          bindS (onStorage (Storage_removeBadBlocks (nc_block K) (fn_setBlocksToRollback r))) (\<lambda>_.
          Node_emit (StableBlocks (fn_setStableBlocks r))))))))))"

definition Node_acceptBlock ::
    "('g, 'm, 'd, 'r, 'a) node_cfg \<Rightarrow> block \<Rightarrow> 'd patch \<Rightarrow> (unit, ('g, 'm, 'd) node) act" where
  "Node_acceptBlock K b patchState =
     bindS (Node_hash K b) (\<lambda>(h, b).
     bindS (onPending (modifyS (Pending_addBlock (nc_pdag K) h b patchState))) (\<lambda>_.
     bindS (modifyS (\<lambda>s. s\<lparr>nd_patchLocalTxns := None\<rparr>)) (\<lambda>_.
     bindS (onMempool (modifyS (Mempool_removeForBlock (nc_codec K) (Block_getTxHashes (nc_crypto K) b)))) (\<lambda>_.
     bindS (onStorage (Storage_getConciliumsCount (nc_serializers K) (ne_loadConciliums (nc_env K)))) (\<lambda>nConciliumCount.
     bindS (onPending (Pending_checkFinality (nc_pdag K) (nc_serializers K) h nConciliumCount)) (\<lambda>result.
     bindS (Node_processFinalityResults K result) (\<lambda>_.
     bindS (getsS (\<lambda>s. Pending_getAllHashes (nc_pdag K) (nd_pendingBlocks s))) (\<lambda>hashes.
     onStorage (updR (Storage_updatePendingBlocks hashes))))))))))"

definition Node_postAcceptBlock ::
    "('g, 'm, 'd, 'r, 'a) node_cfg \<Rightarrow> block \<Rightarrow> (unit, ('g, 'm, 'd) node) act" where
  "Node_postAcceptBlock K b =
     bindS (Node_hash K b) (\<lambda>(h, _).
     bindS (modifyS (\<lambda>s. s\<lparr>nd_objCurrentBestParents := None\<rparr>)) (\<lambda>_.
     Node_emit (NewBlock h)))"


section \<open>The queue of blocks to execute\<close>

text \<open>A method of a peer, and a message to it; \<open>nd_peers\<close> holds every peer the node refers to.\<close>

definition Node_onPeer :: "peer_key \<Rightarrow> (unit, peer) act \<Rightarrow> (unit, ('g, 'm, 'd) node) act" where
  "Node_onPeer k m s =
     (case jget (nd_peers s) k of
        None \<Rightarrow> (Inr (), s)
      | Some p \<Rightarrow> (case m p of (r, q) \<Rightarrow> (r, s\<lparr>nd_peers := jset k q (nd_peers s)\<rparr>)))"

definition Node_message :: "('g, 'm, 'd, 'r, 'a) node_cfg \<Rightarrow> node_event \<Rightarrow> message" where
  "Node_message K ev =
     \<lparr>ms_kind = (case ev of SendGetBlocks _ \<Rightarrow> KGetBlocks | _ \<Rightarrow> KOther), ms_payload = Some (nc_msgSize K ev),
      ms_signature = False, ms_address = []\<rparr>"

definition Node_pushMessage ::
    "('g, 'm, 'd, 'r, 'a) node_cfg \<Rightarrow> peer_key \<Rightarrow> node_event \<Rightarrow> (unit, ('g, 'm, 'd) node) act" where
  "Node_pushMessage K k ev =
     bindS (modifyS (\<lambda>s. s\<lparr>nd_out := nd_out s @ [(Some k, ev)]\<rparr>)) (\<lambda>_.
     Node_onPeer k (Peer_pushMessage (nc_now K) (Node_message K ev)))"

definition Node_getConnectedPeers :: "('g, 'm, 'd) node \<Rightarrow> (peer_key \<times> peer) list" where
  "Node_getConnectedPeers s = filter (\<lambda>(_, p). \<not> Peer_disconnected p) (nd_peers s)"

definition Node_isInitialBlockLoading :: "('g, 'm, 'd) node \<Rightarrow> bool" where
  "Node_isInitialBlockLoading s \<longleftrightarrow> (\<exists>(_, p)\<in>set (Node_getConnectedPeers s). Peer_isAhead p)"

text \<open>\<open>peer.misbehave(n)\<close>; a block of the node's own store comes with no peer.\<close>

definition Node_misbehave ::
    "('g, 'm, 'd, 'r, 'a) node_cfg \<Rightarrow> peer_key option \<Rightarrow> int \<Rightarrow> (unit, ('g, 'm, 'd) node) act" where
  "Node_misbehave K peer n =
     (case peer of
        None \<Rightarrow> throwS (TypeError ''Cannot read property'')
      | Some k \<Rightarrow> Node_onPeer k (Peer_misbehave (nc_now K) n))"

definition Node_queueBlockExec ::
    "('g, 'm, 'd, 'r, 'a) node_cfg \<Rightarrow> hash \<Rightarrow> peer_key option \<Rightarrow> (unit, ('g, 'm, 'd) node) act" where
  "Node_queueBlockExec K hash peer =
     bindS (Node_blockInfo K hash) (\<lambda>blockInfo.
     if (case blockInfo of Some x \<Rightarrow> BlockInfo_isBad x | None \<Rightarrow> False) then returnS ()
     else modifyS (\<lambda>s. s\<lparr>nd_mapBlocksToExec := jset hash peer (nd_mapBlocksToExec s)\<rparr>))"

definition Node_sortParent ::
    "('g, 'm, 'd, 'r, 'a) node_cfg \<Rightarrow> hash \<Rightarrow> hash list \<times> hash list \<Rightarrow>
     (hash list \<times> hash list, ('g, 'm, 'd) node) act" where
  "Node_sortParent K parentHash acc =
     (case acc of (arrToRequest, arrToExec) \<Rightarrow>
      bindS (getsS (\<lambda>s. jhas (nd_mapBlocksToExec s) parentHash)) (\<lambda>queued.
      bindS (if queued then returnS True else Node_isBlockKnown K parentHash) (\<lambda>known.
      if \<not> known then returnS (arrToRequest @ [parentHash], arrToExec)
      else bindS (Node_isBlockExecuted K parentHash) (\<lambda>executed.
           returnS (if executed then (arrToRequest, arrToExec)
                    else (arrToRequest, arrToExec @ [parentHash]))))))"

definition Node_blockProcessorProcessParents ::
    "('g, 'm, 'd, 'r, 'a) node_cfg \<Rightarrow> block_or_info \<Rightarrow> (hash list \<times> hash list, ('g, 'm, 'd) node) act" where
  "Node_blockProcessorProcessParents K x = foldS (Node_sortParent K) (Node_parentsOf x) ([], [])"

text \<open>
  A block given by its hash is read from the store first. Whatever happens inside, the block is no
  longer the processed one afterwards; a failure marks it bad and blames the peer it came from.
\<close>

definition Node_blockProcessorExecBlock ::
    "('g, 'm, 'd, 'r, 'a) node_cfg \<Rightarrow> block_or_info \<Rightarrow> peer_key option \<Rightarrow> (unit, ('g, 'm, 'd) node) act" where
  "Node_blockProcessorExecBlock K x peer =
     bindS (case x of
              IsBlock b \<Rightarrow> returnS b
            | IsInfo bi \<Rightarrow> (\<lambda>s. (Storage_getBlock (BlockInfo_getHash (nc_block K) bi) (nd_storage s), s))) (\<lambda>b.
     bindS (Node_hash K b) (\<lambda>(h, b).
     bindS (modifyS (\<lambda>s. s\<lparr>nd_processedBlock := Some b\<rparr>)) (\<lambda>_.
     finallyS
       (catchS
          (bindS (Node_execBlock K b) (\<lambda>patchState.
           case patchState of
             None \<Rightarrow> returnS ()
           | Some p \<Rightarrow>
               bindS (Node_isBlockExecuted K h) (\<lambda>executed.
               if executed then returnS ()
               else bindS (Node_acceptBlock K b p) (\<lambda>_.
                    bindS (Node_postAcceptBlock K b) (\<lambda>_.
                    bindS (getsS Node_isInitialBlockLoading) (\<lambda>loading.
                    if \<not> nc_networkSuspended K \<and> \<not> loading
                    then Node_emit (InformBlock h peer) else returnS ()))))))
          (\<lambda>_. bindS (Node_blockBad K (IsBlock b)) (\<lambda>_. Node_misbehave K peer 10)))
       (modifyS (\<lambda>s. s\<lparr>nd_processedBlock := None\<rparr>)))))"

definition Node_processBlock ::
    "('g, 'm, 'd, 'r, 'a) node_cfg \<Rightarrow> block_or_info \<Rightarrow> peer_key option \<Rightarrow> (unit, ('g, 'm, 'd) node) act" where
  "Node_processBlock K x peer =
     bindS (Node_hashOf K x) (\<lambda>(h, x).
     bindS (Node_canExecuteBlock K x) (\<lambda>can.
     if can
     then bindS (Node_isBlockExecuted K h) (\<lambda>executed.
          if executed then returnS ()
          else bindS (Node_blockProcessorExecBlock K x peer) (\<lambda>_.
               bindS (\<lambda>s. (MainDag_getChildren (nc_mdag K) h (nd_mainDag s), s)) (\<lambda>arrChildrenHashes.
               eachS (\<lambda>c. Node_queueBlockExec K c peer) arrChildrenHashes)))
     else bindS (Node_queueBlockExec K h peer) (\<lambda>_.
          bindS (Node_blockProcessorProcessParents K x) (\<lambda>(arrToRequest, arrToExec).
          bindS (modifyS (\<lambda>s. s\<lparr>nd_mapUnknownBlocks :=
                   fold (\<lambda>hash. jset hash peer) (filter (\<lambda>hash. hash \<notin> set (nc_blocksBad K)) arrToRequest)
                     (nd_mapUnknownBlocks s)\<rparr>)) (\<lambda>_.
          eachS (\<lambda>hash. Node_queueBlockExec K hash peer) arrToExec)))))"

text \<open>
  One turn of the loop of \<open>_blockProcessor\<close> over \<open>_mapBlocksToExec\<close>. What is neither in the graph nor
  in the store throws and has nothing to mark as bad; the entry is deleted whatever happens. An
  exception of the first part, outside the \<open>try\<close>, leaves the entry and ends the loop.
\<close>

definition Node_blockOrInfo ::
    "('g, 'm, 'd, 'r, 'a) node_cfg \<Rightarrow> hash \<Rightarrow> (block_or_info option, ('g, 'm, 'd) node) act" where
  "Node_blockOrInfo K hash =
     bindS (Node_blockInfo K hash) (\<lambda>blockInfo.
     case blockInfo of
       Some bi \<Rightarrow> returnS (Some (IsInfo bi))
     | None \<Rightarrow>
         bindS (getsS (\<lambda>s. Storage_getBlock hash (nd_storage s))) (\<lambda>r.
         case r of
           Inl _ \<Rightarrow> returnS None
         | Inr b \<Rightarrow> bindS (Node_blockInFlight K b True) (\<lambda>_. returnS (Some (IsBlock b)))))"

definition Node_blockProcessorTurn ::
    "('g, 'm, 'd, 'r, 'a) node_cfg \<Rightarrow> hash \<Rightarrow> peer_key option \<Rightarrow> (unit, ('g, 'm, 'd) node) act" where
  "Node_blockProcessorTurn K hash peer =
     bindS (Node_blockOrInfo K hash) (\<lambda>blockOrInfo.
     finallyS
       (catchS
          (case blockOrInfo of
             None \<Rightarrow> throwS (Error ''Block is not found or bad'')
           | Some x \<Rightarrow> if (case x of IsInfo bi \<Rightarrow> BlockInfo_isBad bi | IsBlock _ \<Rightarrow> False)
                       then throwS (Error ''Block is not found or bad'')
                       else Node_processBlock K x peer)
          (\<lambda>_. case blockOrInfo of None \<Rightarrow> returnS () | Some x \<Rightarrow> Node_blockBad K x))
       (modifyS (\<lambda>s. s\<lparr>nd_mapBlocksToExec := jdelete hash (nd_mapBlocksToExec s)\<rparr>)))"

text \<open>
  A \<open>Map\<close> is iterated live: entries appended during a turn are visited too, and every turn deletes
  its own entry, so the loop takes the head until the map is empty. \<open>fuel\<close> bounds the turns of one
  call; what is left stays in the map, for the worker calls the loop again every second.
\<close>

fun Node_blockProcessorLoop :: "('g, 'm, 'd, 'r, 'a) node_cfg \<Rightarrow> nat \<Rightarrow> (unit, ('g, 'm, 'd) node) act" where
  "Node_blockProcessorLoop K 0 s = (Inr (), s)"
| "Node_blockProcessorLoop K (Suc fuel) s =
     (case nd_mapBlocksToExec s of
        [] \<Rightarrow> (Inr (), s)
      | (hash, peer) # _ \<Rightarrow> bindS (Node_blockProcessorTurn K hash peer) (\<lambda>_. Node_blockProcessorLoop K fuel) s)"


section \<open>Asking peers for blocks\<close>

definition Node_isRequested ::
    "('g, 'm, 'd, 'r, 'a) node_cfg \<Rightarrow> hash \<Rightarrow> (bool, ('g, 'm, 'd) node) act" where
  "Node_isRequested K h s = (RequestCache_isRequested (nc_now K) h (nd_requestCache s), s)"

definition Node_request :: "('g, 'm, 'd, 'r, 'a) node_cfg \<Rightarrow> hash \<Rightarrow> (unit, ('g, 'm, 'd) node) act" where
  "Node_request K h = onRequests (updR (\<lambda>c. mapR snd (RequestCache_request (nc_now K) h c)))"

definition Node_createGetBlocksMsg :: "('g, 'm, 'd, 'r, 'a) node_cfg \<Rightarrow> ('g, 'm, 'd) node \<Rightarrow> hash list" where
  "Node_createGetBlocksMsg K s =
     Storage_getLastAppliedBlockHashes (nd_storage s) @ Pending_getTips (nc_pdag K) (nd_pendingBlocks s)"

definition Node_createGetDataMsg ::
    "('g, 'm, 'd, 'r, 'a) node_cfg \<Rightarrow> hash list \<Rightarrow> (inventory, ('g, 'm, 'd) node) act" where
  "Node_createGetDataMsg K arrBlockHashes =
     foldS (\<lambda>hash inv.
       bindS (Node_isRequested K hash) (\<lambda>requested.
       if requested then returnS inv
       else bindS (liftS (Inventory_addBlockHash hash inv)) (\<lambda>inv.
            bindS (Node_request K hash) (\<lambda>_. returnS inv)))) arrBlockHashes Inventory_new"

text \<open>The peer it is called with is ignored: every connected peer that is ahead is asked.\<close>

definition Node_queryPeerForRestOfBlocks :: "('g, 'm, 'd, 'r, 'a) node_cfg \<Rightarrow> (unit, ('g, 'm, 'd) node) act" where
  "Node_queryPeerForRestOfBlocks K =
     bindS (getsS Node_isInitialBlockLoading) (\<lambda>loading.
     if \<not> loading then returnS ()
     else bindS (getsS (Node_createGetBlocksMsg K)) (\<lambda>msg.
          bindS (getsS Node_getConnectedPeers) (\<lambda>arrConnectedPeers.
          eachS (\<lambda>(k, _) s. (case jget (nd_peers s) k of
                 None \<Rightarrow> (Inr (), s)
               | Some p \<Rightarrow> if Peer_isAhead p \<and> \<not> Peer_isGetBlocksSent (nc_now K) p
                           then Node_pushMessage K k (SendGetBlocks msg) s else (Inr (), s))) arrConnectedPeers)))"

text \<open>
  Which unknown blocks are asked from which peer, and the peers that are ahead; \<open>createPeerKey\<close> of a
  block whose peer is \<open>undefined\<close> throws.
\<close>

definition Node_mapBlock ::
    "('g, 'm, 'd, 'r, 'a) node_cfg \<Rightarrow> hash \<times> peer_key option \<Rightarrow>
     (peer_key, hash list) jsmap \<times> peer_key list \<Rightarrow>
     ((peer_key, hash list) jsmap \<times> peer_key list, ('g, 'm, 'd) node) act" where
  "Node_mapBlock K e acc =
     (case (e, acc) of ((hash, peer), (mapPeerBlocks, mapPeerAhead)) \<Rightarrow>
      bindS (Node_isRequested K hash) (\<lambda>requested.
      bindS (if requested then returnS None else Node_blockInfo K hash) (\<lambda>blockInfo.
      if requested \<or> blockInfo \<noteq> None then returnS acc
      else case peer of
          None \<Rightarrow> throwS (TypeError ''Cannot read property'')
        | Some key \<Rightarrow> bindS (getsS (\<lambda>s. jget (nd_peers s) key)) (\<lambda>p.
            if (case p of Some p \<Rightarrow> Peer_isAhead p | None \<Rightarrow> False)
            then returnS (mapPeerBlocks, sadd key mapPeerAhead)
            else returnS (jset key (sadd hash (case jget mapPeerBlocks key of Some st \<Rightarrow> st | None \<Rightarrow> []))
                            mapPeerBlocks, mapPeerAhead)))))"

definition Node_createMapBlockPeer ::
    "('g, 'm, 'd, 'r, 'a) node_cfg \<Rightarrow> ((peer_key, hash list) jsmap \<times> peer_key list, ('g, 'm, 'd) node) act" where
  "Node_createMapBlockPeer K =
     bindS (getsS nd_mapUnknownBlocks) (\<lambda>es. foldS (Node_mapBlock K) es ([], []))"

definition MAX_BLOCKS_INV :: nat where "MAX_BLOCKS_INV = 300"

text \<open>
  The loop over the peers with blocks to ask for; a message that came out empty \<open>return\<close>s, so the
  peers after it are not asked. The peer asked is the one with the key, else the first connected.
\<close>

fun Node_sendGetData ::
    "('g, 'm, 'd, 'r, 'a) node_cfg \<Rightarrow> (peer_key \<times> peer) list \<Rightarrow> (peer_key \<times> hash list) list \<Rightarrow>
     (unit, ('g, 'm, 'd) node) act" where
  "Node_sendGetData K arrConnectedPeers [] = returnS ()"
| "Node_sendGetData K arrConnectedPeers ((key, setBlocks) # es) =
     (if setBlocks = [] then Node_sendGetData K arrConnectedPeers es
      else bindS (Node_createGetDataMsg K (take MAX_BLOCKS_INV setBlocks)) (\<lambda>inv.
           if iv_vector inv = [] then returnS ()
           else bindS (eachS (\<lambda>v. Node_request K (snd v)) (iv_vector inv)) (\<lambda>_.
                let k = (if key \<in> set (map fst arrConnectedPeers) then key else fst (hd arrConnectedPeers))
                in bindS (\<lambda>s. if (case jget (nd_peers s) k of Some p \<Rightarrow> \<not> Peer_disconnected p | None \<Rightarrow> False)
                              then bindS (Node_onPeer k (modifyS (Peer_singleBlockRequested (nc_slowBoot K)))) (\<lambda>_.
                                   Node_pushMessage K k (SendGetData (iv_vector inv))) s
                              else (Inr (), s)) (\<lambda>_.
                   Node_sendGetData K arrConnectedPeers es))))"

definition Node_sendMsgGetDataToPeers ::
    "('g, 'm, 'd, 'r, 'a) node_cfg \<Rightarrow> (peer_key, hash list) jsmap \<Rightarrow> (unit, ('g, 'm, 'd) node) act" where
  "Node_sendMsgGetDataToPeers K mapPeerBlocks =
     bindS (getsS Node_getConnectedPeers) (\<lambda>arrConnectedPeers.
     if arrConnectedPeers = [] then returnS () else Node_sendGetData K arrConnectedPeers mapPeerBlocks)"

definition Node_requestUnknownBlocks :: "('g, 'm, 'd, 'r, 'a) node_cfg \<Rightarrow> (unit, ('g, 'm, 'd) node) act" where
  "Node_requestUnknownBlocks K =
     bindS (Node_createMapBlockPeer K) (\<lambda>(mapPeerBlocks, mapPeerAhead).
     bindS (eachS (\<lambda>_. Node_queryPeerForRestOfBlocks K) mapPeerAhead) (\<lambda>_.
     Node_sendMsgGetDataToPeers K mapPeerBlocks))"

text \<open>The worker; \<open>_isBusyWithExec\<close> is false between the guarded sections.\<close>

definition Node_blockProcessor :: "('g, 'm, 'd, 'r, 'a) node_cfg \<Rightarrow> nat \<Rightarrow> (unit, ('g, 'm, 'd) node) act" where
  "Node_blockProcessor K fuel =
     bindS (getsS (\<lambda>s. nd_mapBlocksToExec s \<noteq> [])) (\<lambda>some.
     bindS (if some then Node_blockProcessorLoop K fuel
            else bindS (\<lambda>s. case RequestCache_isEmpty (nc_now K) (nd_requestCache s) of
                     (e, c) \<Rightarrow> (Inr e, s\<lparr>nd_requestCache := c\<rparr>)) (\<lambda>empty.
                 if empty then Node_queryPeerForRestOfBlocks K else returnS ())) (\<lambda>_.
     bindS (getsS (\<lambda>s. nd_mapUnknownBlocks s \<noteq> [])) (\<lambda>unknown.
     if unknown then Node_requestUnknownBlocks K else returnS ())))"


section \<open>What a peer misses\<close>

definition MainDag_heightOf :: "'m mdag \<Rightarrow> 'm \<Rightarrow> hash \<Rightarrow> nat res" where
  "MainDag_heightOf D g h =
     bindR (MainDag_getBlockInfo D h g) (\<lambda>bi.
     case bi of None \<Rightarrow> Inl (TypeError ''Cannot read property'') | Some x \<Rightarrow> Inr (BlockInfo_getHeight x))"

text \<open>The children that are one higher.\<close>

fun filterR :: "('a \<Rightarrow> bool res) \<Rightarrow> 'a list \<Rightarrow> 'a list res" where
  "filterR P [] = Inr []"
| "filterR P (x # xs) = bindR (P x) (\<lambda>b. bindR (filterR P xs) (\<lambda>ys. Inr (if b then x # ys else ys)))"

definition Node_directChildren :: "'m mdag \<Rightarrow> 'm \<Rightarrow> hash \<Rightarrow> hash list res" where
  "Node_directChildren D g h =
     bindR (MainDag_getChildren D h g) (\<lambda>children.
     filterR (\<lambda>strChildHash.
       bindR (MainDag_heightOf D g strChildHash) (\<lambda>a.
       bindR (MainDag_heightOf D g h) (\<lambda>b. Inr (int a - int b = 1)))) children)"

text \<open>One level: its hashes are taken until more than \<open>MAX_BLOCKS_INV\<close> are held; their new children are the next.\<close>

fun Node_takeLevel ::
    "'m mdag \<Rightarrow> 'm \<Rightarrow> hash list \<Rightarrow> hash list \<Rightarrow> hash list \<times> hash list \<Rightarrow> (hash list \<times> hash list) res" where
  "Node_takeLevel D g setKnownHashes [] acc = Inr acc"
| "Node_takeLevel D g setKnownHashes (hash # currentLevel) (setBlocksToSend, setNextLevel) =
     bindR (Node_directChildren D g hash) (\<lambda>children.
     let setNextLevel = fold (\<lambda>c next. if c \<notin> set setBlocksToSend \<and> c \<notin> set setKnownHashes then sadd c next else next)
                          children setNextLevel;
         setBlocksToSend = sadd hash setBlocksToSend
     in if length setBlocksToSend > MAX_BLOCKS_INV then Inr (setBlocksToSend, setNextLevel)
        else Node_takeLevel D g setKnownHashes currentLevel (setBlocksToSend, setNextLevel))"

text \<open>The \<open>do ... while\<close> over the levels; \<open>None\<close> when \<open>fuel\<close> turns were not enough.\<close>

fun Node_takeLevels ::
    "'m mdag \<Rightarrow> 'm \<Rightarrow> hash list \<Rightarrow> nat \<Rightarrow> hash list \<Rightarrow> hash list \<Rightarrow> hash list res option" where
  "Node_takeLevels D g setKnownHashes 0 currentLevel setBlocksToSend = None"
| "Node_takeLevels D g setKnownHashes (Suc fuel) currentLevel setBlocksToSend =
     (case Node_takeLevel D g setKnownHashes currentLevel (setBlocksToSend, []) of
        Inl e \<Rightarrow> Some (Inl e)
      | Inr (setBlocksToSend, nextLevel) \<Rightarrow>
          if nextLevel \<noteq> [] \<and> length setBlocksToSend < MAX_BLOCKS_INV
          then Node_takeLevels D g setKnownHashes fuel nextLevel setBlocksToSend
          else Some (Inr setBlocksToSend))"

definition Node_firstLevel :: "'m mdag \<Rightarrow> 'm \<Rightarrow> hash list \<Rightarrow> hash list res" where
  "Node_firstLevel D g arrKnownHashes =
     bindR (mapM (Node_directChildren D g) arrKnownHashes) (\<lambda>css.
     Inr (filter (\<lambda>child. child \<notin> set arrKnownHashes) (concat css)))"

definition Node_knownHashes :: "'m mdag \<Rightarrow> 'm \<Rightarrow> hash list \<Rightarrow> hash list res" where
  "Node_knownHashes D g arrHashes =
     filterR (\<lambda>hash. mapR (\<lambda>bi. bi \<noteq> None) (MainDag_getBlockInfo D hash g)) arrHashes"

definition Node_getBlocksFromLastKnown :: "'m mdag \<Rightarrow> 'm \<Rightarrow> nat \<Rightarrow> hash list \<Rightarrow> hash list res option" where
  "Node_getBlocksFromLastKnown D g fuel arrHashes =
     (case bindR (Node_knownHashes D g arrHashes) (\<lambda>known.
           bindR (MainDag_getBlockInfo D GENESIS_BLOCK g) (\<lambda>genesis.
           if known \<noteq> [] then Inr (Some (known, []))
           else if genesis \<noteq> None then Inr (Some ([GENESIS_BLOCK], [GENESIS_BLOCK]))
           else Inr None)) of
        Inl e \<Rightarrow> Some (Inl e)
      | Inr None \<Rightarrow> Some (Inr [])
      | Inr (Some (arrKnownHashes, setBlocksToSend)) \<Rightarrow>
          (case Node_firstLevel D g arrKnownHashes of
             Inl e \<Rightarrow> Some (Inl e)
           | Inr currentLevel \<Rightarrow> Node_takeLevels D g arrKnownHashes fuel currentLevel setBlocksToSend))"


section \<open>Messages\<close>

text \<open>The messages of peers whose handlers are modelled, decoded.\<close>

datatype node_msg =
    MsgTx tx
  | MsgBlock block
  | MsgInv "(inv_type \<times> hash) list"
  | MsgGetBlocks "hash list"
  | MsgGetData "(inv_type \<times> hash) list"
  | MsgGetMempool

definition Node_handleTxMessage ::
    "('g, 'm, 'd, 'r, 'a) node_cfg \<Rightarrow> peer_key \<Rightarrow> tx \<Rightarrow> (unit, ('g, 'm, 'd) node) act" where
  "Node_handleTxMessage K peer t =
     (let strTxHash = Transaction_getHash (nc_crypto K) t
      in bindS (Node_isRequested K strTxHash) (\<lambda>requested.
         if \<not> requested then Node_misbehave K (Some peer) 5
         else catchS
           (bindS (Node_processReceivedTx K t True) (\<lambda>_. Node_emit (InformTx strTxHash (Some peer))))
           (\<lambda>e. bindS (getsS Node_isInitialBlockLoading) (\<lambda>loading.
                bindS (if \<not> loading then Node_misbehave K (Some peer) 5 else returnS ()) (\<lambda>_. throwS e)))))"

text \<open>
  The guarded part checks the block and stores it, outside of the execution; the request is done and
  the block is not unknown any more only when that went well.
\<close>

definition Node_handleArrivedBlock ::
    "('g, 'm, 'd, 'r, 'a) node_cfg \<Rightarrow> block \<Rightarrow> peer_key option \<Rightarrow> (unit, ('g, 'm, 'd) node) act" where
  "Node_handleArrivedBlock K b peer =
     bindS (Node_verifyBlock K False b) (\<lambda>_.
     bindS (Node_blockInFlight K b False) (\<lambda>_.
     bindS (Node_hash K b) (\<lambda>(h, b).
     bindS (onRequests (updR (RequestCache_done h))) (\<lambda>_.
     bindS (modifyS (\<lambda>s. s\<lparr>nd_mapUnknownBlocks := jdelete h (nd_mapUnknownBlocks s)\<rparr>)) (\<lambda>_.
     Node_processBlock K (IsBlock b) peer)))))"

definition Node_handleBlockMessage ::
    "('g, 'm, 'd, 'r, 'a) node_cfg \<Rightarrow> peer_key \<Rightarrow> block \<Rightarrow> (unit, ('g, 'm, 'd) node) act" where
  "Node_handleBlockMessage K peer b =
     bindS (Node_hash K b) (\<lambda>(h, b).
     bindS (Node_isRequested K h) (\<lambda>requested.
     if \<not> requested then Node_misbehave K (Some peer) 5
     else if h \<in> set (nc_blocksBad K) then returnS ()
     else bindS (Node_isBlockKnown K h) (\<lambda>known.
          if known then returnS ()
          else catchS (Node_handleArrivedBlock K b (Some peer))
                 (\<lambda>e. bindS (Node_blockBad K (IsBlock b)) (\<lambda>_.
                      bindS (Node_misbehave K (Some peer) 10) (\<lambda>_. throwS e))))))"

text \<open>An inventory: what of it to request, and how many of these are blocks.\<close>

definition Node_shouldRequest ::
    "('g, 'm, 'd, 'r, 'a) node_cfg \<Rightarrow> inv_type \<times> hash \<Rightarrow> (bool, ('g, 'm, 'd) node) act" where
  "Node_shouldRequest K v =
     (case v of
        (INV_TX, h) \<Rightarrow>
          bindS (\<lambda>s. (Mempool_hasTx h (nd_mempool s), s)) (\<lambda>has.
          getsS (\<lambda>s. \<not> has \<and> \<not> isOk (Storage_getUtxo h (nd_storage s))))
      | (INV_BLOCK, h) \<Rightarrow>
          if h \<in> set (nc_blocksBad K) then returnS False
          else bindS (Node_isRequested K h) (\<lambda>requested.
               if requested then returnS False
               else bindS (Node_isBlockKnown K h) (\<lambda>known. returnS (\<not> known))))"

definition Node_invVector ::
    "('g, 'm, 'd, 'r, 'a) node_cfg \<Rightarrow> inv_type \<times> hash \<Rightarrow> inventory \<times> nat \<Rightarrow> (inventory \<times> nat, ('g, 'm, 'd) node) act" where
  "Node_invVector K v acc =
     bindS (Node_isRequested K (snd v)) (\<lambda>requested.
     if requested then returnS acc
     else bindS (Node_shouldRequest K v) (\<lambda>bShouldRequest.
          if \<not> bShouldRequest then returnS acc
          else bindS (Node_request K (snd v)) (\<lambda>_.
               returnS (Inventory_addVector v (fst acc), if fst v = INV_BLOCK then Suc (snd acc) else snd acc))))"

definition Node_handleInvMessage ::
    "('g, 'm, 'd, 'r, 'a) node_cfg \<Rightarrow> peer_key \<Rightarrow> (inv_type \<times> hash) list \<Rightarrow> (unit, ('g, 'm, 'd) node) act" where
  "Node_handleInvMessage K peer vec =
     bindS (foldS (Node_invVector K) vec (Inventory_new, 0)) (\<lambda>(invToRequest, nBlockToRequest).
     bindS (if iv_vector invToRequest \<noteq> [] then Node_pushMessage K peer (SendGetData (iv_vector invToRequest))
            else returnS ()) (\<lambda>_.
     bindS (getsS (\<lambda>s. case jget (nd_peers s) peer of
              None \<Rightarrow> False | Some p \<Rightarrow> Peer_isGetBlocksSent (nc_now K) p)) (\<lambda>response.
     if \<not> response then returnS ()
     else bindS (if nBlockToRequest > 1 then Node_onPeer peer (modifyS Peer_markAsPossiblyAhead)
                 else bindS (Node_onPeer peer (modifyS Peer_markAsEven)) (\<lambda>_.
                      if nBlockToRequest = 1
                      then Node_onPeer peer (modifyS (Peer_singleBlockRequested (nc_slowBoot K)))
                      else bindS (getsS Node_isInitialBlockLoading) (\<lambda>loading.
                           if \<not> loading then Node_pushMessage K peer SendGetMempool else returnS ()))) (\<lambda>_.
          Node_onPeer peer (modifyS Peer_doneGetBlocks)))))"

text \<open>An empty graph has nothing to share.\<close>

definition Node_handleGetBlocksMessage ::
    "('g, 'm, 'd, 'r, 'a) node_cfg \<Rightarrow> peer_key \<Rightarrow> hash list \<Rightarrow> (unit, ('g, 'm, 'd) node) act" where
  "Node_handleGetBlocksMessage K peer arrHashes =
     bindS (getsS (\<lambda>s. dg_V (nc_mdag K) (nd_mainDag s) = [])) (\<lambda>none.
     if none then returnS ()
     else bindS (\<lambda>s. (case Node_getBlocksFromLastKnown (nc_mdag K) (nd_mainDag s) (nc_levels K) arrHashes of
                        None \<Rightarrow> Inl (Error ''The bound on heights is too small'')
                      | Some r \<Rightarrow> r, s)) (\<lambda>hashes.
          bindS (liftS (foldR Inventory_addBlockHash hashes Inventory_new)) (\<lambda>inventory.
          Node_pushMessage K peer (SendInv (iv_vector inventory)))))"

definition Node_handleGetMempool ::
    "('g, 'm, 'd, 'r, 'a) node_cfg \<Rightarrow> peer_key \<Rightarrow> (unit, ('g, 'm, 'd) node) act" where
  "Node_handleGetMempool K peer =
     bindS (getsS (\<lambda>s. Mempool_getLocalTxnHashes (nd_mempool s))) (\<lambda>arrLocalTxHashes.
     bindS (liftS (foldR Inventory_addTxHash arrLocalTxHashes Inventory_new)) (\<lambda>inventory.
     if iv_vector inventory \<noteq> [] then Node_pushMessage K peer (SendInv (iv_vector inventory)) else returnS ()))"

text \<open>An element that cannot be served is skipped, unless the peer is banned by then.\<close>

fun Node_handleGetDataMessage ::
    "('g, 'm, 'd, 'r, 'a) node_cfg \<Rightarrow> peer_key \<Rightarrow> (inv_type \<times> hash) list \<Rightarrow> (unit, ('g, 'm, 'd) node) act" where
  "Node_handleGetDataMessage K peer [] = returnS ()"
| "Node_handleGetDataMessage K peer ((t, h) # vs) =
     bindS (catchS
       (bindS (\<lambda>s. (case t of
                  INV_TX \<Rightarrow> mapR SendTx (Mempool_getTx h (nd_mempool s))
                | INV_BLOCK \<Rightarrow> mapR SendBlock (Storage_getBlock h (nd_storage s)), s)) (\<lambda>msg.
        bindS (Node_pushMessage K peer msg) (\<lambda>_. returnS True)))
       (\<lambda>_. getsS (\<lambda>s. case jget (nd_peers s) peer of
              None \<Rightarrow> True | Some p \<Rightarrow> \<not> Peer_isBanned (nc_now K) p))) (\<lambda>go.
     if go then Node_handleGetDataMessage K peer vs else returnS ())"

text \<open>The dispatcher: before the handshake nothing is handled, and an exception costs the peer one point.\<close>

definition Node_incomingMessage ::
    "('g, 'm, 'd, 'r, 'a) node_cfg \<Rightarrow> peer_key \<Rightarrow> node_msg \<Rightarrow> (unit, ('g, 'm, 'd) node) act" where
  "Node_incomingMessage K peer msg =
     catchS
       (bindS (getsS (\<lambda>s. case jget (nd_peers s) peer of None \<Rightarrow> False | Some p \<Rightarrow> Peer_fullyConnected p)) (\<lambda>ready.
        if \<not> ready then Node_misbehave K (Some peer) 1
        else case msg of
            MsgGetBlocks arrHashes \<Rightarrow> Node_handleGetBlocksMessage K peer arrHashes
          | MsgGetMempool \<Rightarrow> Node_handleGetMempool K peer
          | MsgInv v \<Rightarrow> Node_handleInvMessage K peer v
          | MsgGetData v \<Rightarrow> Node_handleGetDataMessage K peer v
          | MsgTx t \<Rightarrow> Node_handleTxMessage K peer t
          | MsgBlock b \<Rightarrow> Node_handleBlockMessage K peer b))
       (\<lambda>_. Node_misbehave K (Some peer) 1)"


section \<open>Starting up\<close>

text \<open>One block of a level: what the graph has already is skipped; the parents it lacks are the next level.\<close>

definition Node_buildOne ::
    "'m mdag \<Rightarrow> block_crypto \<Rightarrow> 'd storage \<Rightarrow> hash \<Rightarrow> 'm \<times> hash list \<Rightarrow> ('m \<times> hash list) res" where
  "Node_buildOne D B st hash acc =
     (case acc of (g, setNextLevel) \<Rightarrow>
      bindR (MainDag_getBlockInfo D hash g) (\<lambda>present.
      if present \<noteq> None then Inr (g, setNextLevel)
      else bindR (Storage_getBlockInfo hash st) (\<lambda>bi.
           bindR (assertR (\<not> BlockInfo_isBad bi) (Error ''_buildMainDag: found bad block in final DAG!'')) (\<lambda>_.
           let g = MainDag_addBlock D B bi g
           in bindR (filterR (\<lambda>parentHash. mapR (\<lambda>x. x = None) (MainDag_getBlockInfo D parentHash g))
                       (BlockInfo_parentHashes bi)) (\<lambda>ps. Inr (g, fold sadd ps setNextLevel))))))"

text \<open>The levels down to the genesis block; \<open>None\<close> when \<open>fuel\<close> turns were not enough.\<close>

fun Node_buildLevels ::
    "'m mdag \<Rightarrow> block_crypto \<Rightarrow> 'd storage \<Rightarrow> nat \<Rightarrow> hash list \<Rightarrow> 'm \<Rightarrow> 'm res option" where
  "Node_buildLevels D B st 0 arrCurrentLevel g = (if arrCurrentLevel = [] then Some (Inr g) else None)"
| "Node_buildLevels D B st (Suc fuel) arrCurrentLevel g =
     (if arrCurrentLevel = [] then Some (Inr g)
      else case foldR (Node_buildOne D B st) arrCurrentLevel (g, []) of
             Inl e \<Rightarrow> Some (Inl e)
           | Inr (g, setNextLevel) \<Rightarrow>
               if arrCurrentLevel = [GENESIS_BLOCK] then Some (Inr g)
               else Node_buildLevels D B st fuel setNextLevel g)"

text \<open>Every turn but the last adds a stored block to the graph.\<close>

definition Node_buildMainDag ::
    "'m mdag \<Rightarrow> block_crypto \<Rightarrow> 'd storage \<Rightarrow> hash list \<Rightarrow> hash list \<Rightarrow> 'm res option" where
  "Node_buildMainDag D B st arrLastStableHashes arrPendingBlocksHashes =
     Node_buildLevels D B st (length (sg_blockInfos st) + 1)
       (if arrPendingBlocksHashes \<noteq> [] then arrPendingBlocksHashes else arrLastStableHashes) (dg_empty D)"

text \<open>
  The pending blocks are executed again, parents first. The recursion goes from a block to its
  pending parents; \<open>fuel\<close> is its depth, and running out is the overflow of the stack.
\<close>

definition Node_loadPending ::
    "('g, 'm, 'd, 'r, 'a) node_cfg \<Rightarrow> hash list \<Rightarrow> hash list \<Rightarrow> ((hash, block) jsmap, ('g, 'm, 'd) node) act" where
  "Node_loadPending K arrLastStableHashes arrPendingBlocksHashes =
     foldS (\<lambda>hash mapBlocks.
       if hash \<in> set arrLastStableHashes then returnS mapBlocks
       else bindS (Node_blockInfo K hash) (\<lambda>present.
            bindS (case present of
                     Some bi \<Rightarrow> returnS bi
                   | None \<Rightarrow> (\<lambda>s. (Storage_getBlockInfo hash (nd_storage s), s))) (\<lambda>bi.
            bindS (liftS (assertR (\<not> BlockInfo_isBad bi) (Error ''rebuildPending: found bad block in DAG!''))) (\<lambda>_.
            bindS (\<lambda>s. (Storage_getBlock hash (nd_storage s), s)) (\<lambda>b.
            returnS (jset hash b mapBlocks)))))) arrPendingBlocksHashes []"

fun Node_runBlock ::
    "('g, 'm, 'd, 'r, 'a) node_cfg \<Rightarrow> (hash, block) jsmap \<Rightarrow> nat \<Rightarrow> hash \<Rightarrow> hash list \<Rightarrow>
     (hash list, ('g, 'm, 'd) node) act" where
  "Node_runBlock K mapBlocks 0 hash setPatches = throwS (Error ''Maximum call stack size exceeded'')"
| "Node_runBlock K mapBlocks (Suc fuel) hash setPatches =
     (case jget mapBlocks hash of
        None \<Rightarrow> returnS setPatches
      | Some b \<Rightarrow>
          if hash \<in> set setPatches then returnS setPatches
          else bindS (foldS (\<lambda>parent setPatches.
                   if parent \<notin> set setPatches then Node_runBlock K mapBlocks fuel parent setPatches
                   else returnS setPatches) (Block_parentHashes b) setPatches) (\<lambda>setPatches.
               bindS (modifyS (\<lambda>s. s\<lparr>nd_processedBlock := Some b\<rparr>)) (\<lambda>_.
               bindS (Node_execBlock K b) (\<lambda>patchBlock.
               bindS (Node_hash K b) (\<lambda>(h, b).
               bindS (case patchBlock of
                        None \<Rightarrow> liftS (typeforce False)
                      | Some p \<Rightarrow> onPending (modifyS (Pending_addBlock (nc_pdag K) h b p))) (\<lambda>_.
               bindS (modifyS (\<lambda>s. s\<lparr>nd_processedBlock := None\<rparr>)) (\<lambda>_.
               returnS (sadd hash setPatches))))))))"

definition Node_rebuildPending ::
    "('g, 'm, 'd, 'r, 'a) node_cfg \<Rightarrow> hash list \<Rightarrow> hash list \<Rightarrow> (unit, ('g, 'm, 'd) node) act" where
  "Node_rebuildPending K arrLastStableHashes arrPendingBlocksHashes =
     bindS (modifyS (\<lambda>s. s\<lparr>nd_pendingBlocks := Pending_new (nc_pdag K) (Some arrLastStableHashes)\<rparr>)) (\<lambda>_.
     bindS (Node_loadPending K arrLastStableHashes arrPendingBlocksHashes) (\<lambda>mapBlocks.
     let fuel = Suc (Suc (fold max (map Block_getHeight (jvalues mapBlocks)) 0))
     in bindS (foldS (Node_runBlock K mapBlocks fuel) arrPendingBlocksHashes []) (\<lambda>setPatches.
        liftS (assertR (length mapBlocks = length setPatches)
          (Error ''rebuildPending. Failed to process all blocks!'')))))"

definition Node_rebuildBlockDb :: "('g, 'm, 'd, 'r, 'a) node_cfg \<Rightarrow> (unit, ('g, 'm, 'd) node) act" where
  "Node_rebuildBlockDb K =
     bindS (getsS (\<lambda>s. Storage_getPendingBlockHashes (nd_storage s))) (\<lambda>arrPendingBlocksHashes.
     bindS (getsS (\<lambda>s. Storage_getLastAppliedBlockHashes (nd_storage s))) (\<lambda>arrLastStableHashes.
     bindS (\<lambda>s. (case Node_buildMainDag (nc_mdag K) (nc_block K) (nd_storage s) arrLastStableHashes
                        arrPendingBlocksHashes of
                   None \<Rightarrow> Inl (Error ''The loop did not end'') | Some r \<Rightarrow> r, s)) (\<lambda>g.
     bindS (modifyS (\<lambda>s. s\<lparr>nd_mainDag := g\<rparr>)) (\<lambda>_.
     bindS (Node_rebuildPending K arrLastStableHashes arrPendingBlocksHashes) (\<lambda>_.
     bindS (onMempool (modifyS (Mempool_loadLocalTxnsFromDisk (nc_crypto K) (nc_codec K)))) (\<lambda>_.
     Node_ensureLocalTxnsPatch K))))))"

section \<open>Questions of the RPC and of the witness\<close>

definition Node_sortBlocks :: "'m mdag \<Rightarrow> 'm \<Rightarrow> hash \<Rightarrow> hash \<Rightarrow> int res" where
  "Node_sortBlocks D g strHashBlockA strHashBlockB =
     bindR (MainDag_getBlockHeight D strHashBlockA g) (\<lambda>a.
     bindR (MainDag_getBlockHeight D strHashBlockB g) (\<lambda>b. Inr (int a - int b)))"

text \<open>The highest pending block of the concilium, else its last final one.\<close>

definition Node_getLastBlockByConciliumId ::
    "('g, 'm, 'd, 'r, 'a) node_cfg \<Rightarrow> nat \<Rightarrow> (hash option, ('g, 'm, 'd) node) act" where
  "Node_getLastBlockByConciliumId K nConciliumId =
     bindS (\<lambda>s. (foldR (\<lambda>hash (maxHeight, strBestHash).
              bindR (bindR (Pending_getBlock (nc_pdag K) hash (nd_pendingBlocks s)) (\<lambda>found.
                     case found of None \<Rightarrow> Inl undefinedRead | Some x \<Rightarrow> Inr x)) (\<lambda>x.
              let blockInfo = BlockInfo_new (po_blockHeader x)
              in Inr (if BlockInfo_getHeight blockInfo > maxHeight \<and> BlockInfo_getConciliumId blockInfo = nConciliumId
                      then (BlockInfo_getHeight blockInfo, Some hash) else (maxHeight, strBestHash))))
              (Pending_getAllHashes (nc_pdag K) (nd_pendingBlocks s)) (0, None), s)) (\<lambda>(_, best).
     case best of
       Some h \<Rightarrow> returnS (Some h)
     | None \<Rightarrow>
         bindS (getsS (\<lambda>s. Storage_getLastAppliedBlockHashes (nd_storage s))) (\<lambda>arrLastStable.
         bindS (foldS (\<lambda>hash bis. bindS (Node_blockInfo K hash) (\<lambda>bi.
                  case bi of None \<Rightarrow> throwS (TypeError ''Cannot read property'')
                  | Some x \<Rightarrow> returnS (bis @ [x]))) arrLastStable []) (\<lambda>bis.
         returnS (map_option (BlockInfo_getHash (nc_block K))
           (find (\<lambda>bi. BlockInfo_getConciliumId bi = nConciliumId) bis)))))"

definition Node_getTxReceipt ::
    "('g, 'm, 'd, 'r, 'a) node_cfg \<Rightarrow> hash \<Rightarrow> (receipt option, ('g, 'm, 'd) node) act" where
  "Node_getTxReceipt K strTxHash =
     bindS (Node_ensureLocalTxnsPatch K) (\<lambda>_.
     bindS (getsS nd_patchLocalTxns) (\<lambda>patchLocal.
     bindS (liftS (case patchLocal of None \<Rightarrow> Inr None | Some p \<Rightarrow> PatchDB_getReceipt strTxHash p)) (\<lambda>receipt.
     if receipt \<noteq> None then returnS receipt
     else bindS (Node_patchMerged K) (\<lambda>patch.
          bindS (liftS (case patch of None \<Rightarrow> Inr None | Some p \<Rightarrow> PatchDB_getReceipt strTxHash p)) (\<lambda>receipt.
          if receipt \<noteq> None then returnS receipt
          else (\<lambda>s. (Storage_getTxReceipt strTxHash (nd_storage s), s)))))))"

definition Node_getBlockAndState ::
    "('g, 'm, 'd, 'r, 'a) node_cfg \<Rightarrow> hash \<Rightarrow> (block \<times> nat option, ('g, 'm, 'd) node) act" where
  "Node_getBlockAndState K hash =
     bindS (\<lambda>s. (Storage_getBlock hash (nd_storage s), s)) (\<lambda>cBlock.
     bindS (Node_blockInfo K hash) (\<lambda>blockInfo.
     returnS (cBlock, map_option BlockInfo_getState blockInfo)))"

definition Node_getContractData ::
    "('g, 'm, 'd, 'r, 'a) node_cfg \<Rightarrow> addr \<Rightarrow> ('d, ('g, 'm, 'd) node) act" where
  "Node_getContractData K strContractAddr =
     bindS (\<lambda>s. (Storage_getContract strContractAddr (nd_storage s), s)) (\<lambda>cont.
     case cont of
       None \<Rightarrow> throwS (TypeError ''Cannot read property'')
     | Some c \<Rightarrow> liftS (mapR fst (Contract_getData (nc_serializers K) c)))"

end
