(* ===== verification/Cil_Dag_Laws.thy ===== *)
theory Cil_Dag_Laws
  imports Cil_Node
begin

text \<open>
  The main graph: how it is rebuilt from the stored blocks (\<open>_buildMainDag\<close>) and how the blocks a
  peer misses are read off it (\<open>_getBlocksFromLastKnown\<close>). Both are loops over levels; here are the
  measures that bound them and the invariants of their turns.
\<close>

section \<open>Rebuilding the graph\<close>

definition MainDag_known :: "'m mdag \<Rightarrow> 'm \<Rightarrow> hash set" where
  "MainDag_known D g = {h. dg_readObj D g h \<noteq> None}"

text \<open>The storage files a block info under the hash of its header.\<close>

definition Storage_keyed :: "block_crypto \<Rightarrow> 'd storage \<Rightarrow> bool" where
  "Storage_keyed B st \<longleftrightarrow> (\<forall>h bi. jget (sg_blockInfos st) h = Some bi \<longrightarrow> BlockInfo_getHash B bi = h)"

lemma Storage_saveBlockInfo_keyed: "Storage_keyed B st \<Longrightarrow> Storage_keyed B (Storage_saveBlockInfo B bi st)"
  by (simp add: Storage_keyed_def Storage_saveBlockInfo_def jget_jset)

text \<open>What is in the graph under construction was read from the storage, and is not bad.\<close>

definition MainDag_stored :: "'m mdag \<Rightarrow> 'd storage \<Rightarrow> 'm \<Rightarrow> bool" where
  "MainDag_stored D st g \<longleftrightarrow>
     (\<forall>h bi. dg_readObj D g h = Some bi \<longrightarrow> jget (sg_blockInfos st) h = Some bi \<and> \<not> BlockInfo_isBad bi)"

text \<open>The parents a graph still lacks are among \<open>hs\<close>.\<close>

definition MainDag_lacks :: "'m mdag \<Rightarrow> 'm \<Rightarrow> hash list \<Rightarrow> bool" where
  "MainDag_lacks D g hs \<longleftrightarrow>
     (\<forall>h bi. dg_readObj D g h = Some bi \<longrightarrow> set (BlockInfo_parentHashes bi) \<subseteq> MainDag_known D g \<union> set hs)"

lemma filterR_Inr: "filterR P xs = Inr ys \<Longrightarrow> set ys = {x \<in> set xs. P x = Inr True} \<and> (\<forall>x\<in>set xs. \<exists>b. P x = Inr b)"
  by (induction xs arbitrary: ys) (auto split: if_splits)

lemma MainDag_known_add:
  "dag_ok D \<Longrightarrow> MainDag_known D (MainDag_addBlock D B bi g) = insert (BlockInfo_getHash B bi) (MainDag_known D g)"
  by (auto simp: MainDag_known_def MainDag_addBlock_spec)

lemma Node_buildOne_cases:
  assumes D: "dag_ok D" and st: "Storage_keyed B st" and run: "Node_buildOne D B st h (g, nx) = Inr (g', nx')"
  obtains "g' = g" "nx' = nx" "h \<in> MainDag_known D g"
  | bi where "jget (sg_blockInfos st) h = Some bi" "\<not> BlockInfo_isBad bi" "h \<notin> MainDag_known D g"
      "g' = MainDag_addBlock D B bi g" "MainDag_known D g' = insert h (MainDag_known D g)"
      "BlockInfo_getHash B bi = h"
      "set nx' = set nx \<union> {p \<in> set (BlockInfo_parentHashes bi). p \<notin> MainDag_known D g'}"
proof (cases "h \<in> MainDag_known D g")
  case True
  with run that(1) show ?thesis by (auto simp: Node_buildOne_def MainDag_getBlockInfo_def MainDag_known_def)
next
  case False
  then have none: "dg_readObj D g h = None" by (simp add: MainDag_known_def)
  from run none obtain bi ps where bi: "jget (sg_blockInfos st) h = Some bi" "\<not> BlockInfo_isBad bi"
    and ps: "filterR (\<lambda>parentHash. mapR (\<lambda>x. x = None) (MainDag_getBlockInfo D parentHash g'))
               (BlockInfo_parentHashes bi) = Inr ps"
    and g': "g' = MainDag_addBlock D B bi g" and nx: "nx' = fold sadd ps nx"
    by (auto simp: Node_buildOne_def MainDag_getBlockInfo_def Storage_getBlockInfo_def Let_def split: option.splits)
  have h: "BlockInfo_getHash B bi = h" using st bi by (simp add: Storage_keyed_def)
  have "set ps = {p \<in> set (BlockInfo_parentHashes bi). p \<notin> MainDag_known D g'}"
    using filterR_Inr [OF ps] by (auto simp: MainDag_getBlockInfo_def MainDag_known_def)
  then show ?thesis
    using that(2) [OF bi False g'] MainDag_known_add [OF D, of B bi g] h by (auto simp: g' nx set_fold_sadd)
qed

lemma Node_buildOne_inv:
  assumes "dag_ok D" and "Storage_keyed B st" and "Node_buildOne D B st h (g, nx) = Inr (g', nx')"
    and "MainDag_stored D st g" and "MainDag_lacks D g (h # todo @ nx)"
  shows "MainDag_stored D st g'" (is ?one) and "MainDag_lacks D g' (todo @ nx')" (is ?two)
    and "MainDag_known D g' = insert h (MainDag_known D g)" (is ?three)
    and "MainDag_known D g' = MainDag_known D g \<Longrightarrow> nx' = nx" (is "?four \<Longrightarrow> _")
proof -
  have "?one \<and> ?two \<and> ?three \<and> (?four \<longrightarrow> nx' = nx)"
    using assms(1-3)
  proof (cases rule: Node_buildOne_cases)
    case 1
    then have "insert h (MainDag_known D g) = MainDag_known D g" by blast
    with 1(1,2) assms(4,5) show ?thesis by (auto simp: MainDag_lacks_def)
  next
    case (2 bi)
    have read: "dg_readObj D g' k = (if k = h then Some bi else dg_readObj D g k)" for k
      using 2(4,6) MainDag_addBlock_spec(1) [OF assms(1)] by metis
    have "MainDag_stored D st g'" using assms(4) 2(1,2) by (auto simp: MainDag_stored_def read)
    moreover have "MainDag_lacks D g' (todo @ nx')"
      using assms(5) 2(5,7) by (fastforce simp: MainDag_lacks_def read split: if_splits)
    moreover have "MainDag_known D g' \<noteq> MainDag_known D g" using 2(3,5) by blast
    ultimately show ?thesis using 2(5) by blast
  qed
  then show ?one ?two ?three "?four \<Longrightarrow> nx' = nx" by blast+
qed

lemma Node_buildLevel_inv:
  assumes D: "dag_ok D" and st: "Storage_keyed B st"
  shows "foldR (Node_buildOne D B st) hs (g, nx) = Inr (g', nx') \<Longrightarrow> MainDag_stored D st g \<Longrightarrow>
     MainDag_lacks D g (hs @ nx) \<Longrightarrow>
     MainDag_stored D st g' \<and> MainDag_lacks D g' nx' \<and> MainDag_known D g' = set hs \<union> MainDag_known D g \<and>
     (MainDag_known D g' = MainDag_known D g \<longrightarrow> nx' = nx)"
proof (induction hs arbitrary: g nx)
  case (Cons h hs)
  from Cons.prems(1) obtain g1 nx1 where one: "Node_buildOne D B st h (g, nx) = Inr (g1, nx1)"
    and rest: "foldR (Node_buildOne D B st) hs (g1, nx1) = Inr (g', nx')"
    by (auto split: prod.splits)
  have "MainDag_lacks D g (h # hs @ nx)" using Cons.prems(3) by simp
  note inv = Node_buildOne_inv [OF D st one Cons.prems(2) this]
  from Cons.IH [OF rest inv(1,2)] inv(3,4) show ?case by auto
qed simp

text \<open>A graph without gaps: it holds the blocks of \<open>hs\<close> and the parents of every block but the genesis.\<close>

definition MainDag_complete :: "'m mdag \<Rightarrow> 'm \<Rightarrow> bool" where
  "MainDag_complete D g \<longleftrightarrow> (\<forall>h bi. dg_readObj D g h = Some bi \<longrightarrow> h \<noteq> GENESIS_BLOCK \<longrightarrow>
     set (BlockInfo_parentHashes bi) \<subseteq> MainDag_known D g)"

lemma MainDag_known_stored: "MainDag_stored D st g \<Longrightarrow> MainDag_known D g \<subseteq> fst ` set (sg_blockInfos st)"
  by (auto simp: MainDag_known_def MainDag_stored_def jget_def) (metis fst_conv image_eqI map_of_SomeD)

lemma MainDag_genesis_closes:
  assumes "MainDag_stored D st g" "MainDag_stored D st g'" "MainDag_lacks D g [GENESIS_BLOCK]"
    and "MainDag_known D g' = insert GENESIS_BLOCK (MainDag_known D g)"
  shows "MainDag_complete D g'"
  unfolding MainDag_complete_def
proof (intro allI impI)
  fix h bi assume h: "dg_readObj D g' h = Some bi" "h \<noteq> GENESIS_BLOCK"
  then have "h \<in> MainDag_known D g'" by (simp add: MainDag_known_def)
  with assms(4) h(2) have "h \<in> MainDag_known D g" by simp
  then obtain bi' where "dg_readObj D g h = Some bi'" by (auto simp: MainDag_known_def)
  moreover from this h assms(1,2) have "bi' = bi" unfolding MainDag_stored_def
    by (metis option.inject)
  ultimately show "set (BlockInfo_parentHashes bi) \<subseteq> MainDag_known D g'"
    using assms(3,4) by (auto simp: MainDag_lacks_def)
qed

lemma Node_buildLevels_ok:
  assumes D: "dag_ok D" and st: "Storage_keyed B st"
  shows "MainDag_stored D st g \<Longrightarrow> MainDag_lacks D g hs \<Longrightarrow>
     hs = [] \<or> card (fst ` set (sg_blockInfos st) - MainDag_known D g) < fuel \<Longrightarrow>
     \<exists>r. Node_buildLevels D B st fuel hs g = Some r \<and>
       (\<forall>g'. r = Inr g' \<longrightarrow> MainDag_stored D st g' \<and> MainDag_complete D g' \<and>
          set hs \<union> MainDag_known D g \<subseteq> MainDag_known D g')"
proof (induction fuel arbitrary: hs g)
  case 0
  then show ?case by (auto simp: MainDag_complete_def MainDag_lacks_def)
next
  case (Suc fuel)
  show ?case
  proof (cases "hs = []")
    case True
    with Suc.prems show ?thesis by (auto simp: MainDag_complete_def MainDag_lacks_def)
  next
    case False
    show ?thesis
    proof (cases "foldR (Node_buildOne D B st) hs (g, [])")
      case (Inl e)
      with False show ?thesis by simp
    next
      case (Inr a)
      obtain g1 nx where a: "a = (g1, nx)" by (cases a)
      note run = Inr [unfolded a]
      have lacks: "MainDag_lacks D g (hs @ [])" using Suc.prems(2) by simp
      from Node_buildLevel_inv [OF D st run Suc.prems(1) lacks]
      have inv: "MainDag_stored D st g1" "MainDag_lacks D g1 nx" "MainDag_known D g1 = set hs \<union> MainDag_known D g"
        "MainDag_known D g1 = MainDag_known D g \<longrightarrow> nx = []" by auto
      show ?thesis
      proof (cases "hs = [GENESIS_BLOCK]")
        case True
        with MainDag_genesis_closes [OF Suc.prems(1) inv(1)] Suc.prems(2) inv run False show ?thesis by auto
      next
        case nogen: False
        have "nx = [] \<or> card (fst ` set (sg_blockInfos st) - MainDag_known D g1) < fuel"
        proof (cases "MainDag_known D g1 = MainDag_known D g")
          case changed: False
          let ?K = "fst ` set (sg_blockInfos st)"
          have "?K - MainDag_known D g1 \<subset> ?K - MainDag_known D g"
            using changed inv(3) MainDag_known_stored [OF inv(1)] by auto
          then have "card (?K - MainDag_known D g1) < card (?K - MainDag_known D g)"
            by (intro psubset_card_mono) simp_all
          with Suc.prems(3) False show ?thesis by simp
        qed (use inv(4) in blast)
        from Suc.IH [OF inv(1,2) this] inv(3) run False nogen show ?thesis by auto
      qed
    qed
  qed
qed

text \<open>When everything below the start is stored and good, nothing is thrown.\<close>

definition Storage_rooted :: "'d storage \<Rightarrow> hash set \<Rightarrow> bool" where
  "Storage_rooted st A \<longleftrightarrow> (\<forall>h\<in>A. isHash256 h \<and> (\<exists>bi. jget (sg_blockInfos st) h = Some bi \<and>
     \<not> BlockInfo_isBad bi \<and> set (BlockInfo_parentHashes bi) \<subseteq> A))"

lemma filterR_ok: "(\<And>x. x \<in> set xs \<Longrightarrow> P x = Inr (p x)) \<Longrightarrow> filterR P xs = Inr (filter p xs)"
  by (induction xs) simp_all

lemma Node_buildLevel_isOk:
  assumes A: "Storage_rooted st A"
  shows "set hs \<subseteq> A \<Longrightarrow> set nx \<subseteq> A \<Longrightarrow>
     \<exists>g' nx'. foldR (Node_buildOne D B st) hs (g, nx) = Inr (g', nx') \<and> set nx' \<subseteq> A"
proof (induction hs arbitrary: g nx)
  case (Cons h hs)
  from A Cons.prems(1) obtain bi where bi: "isHash256 h" "jget (sg_blockInfos st) h = Some bi"
    "\<not> BlockInfo_isBad bi" "set (BlockInfo_parentHashes bi) \<subseteq> A" by (auto simp: Storage_rooted_def)
  have "isHash256 p" if "p \<in> set (BlockInfo_parentHashes bi)" for p
    using A bi(4) that by (auto simp: Storage_rooted_def)
  then have F: "filterR (\<lambda>p. mapR (\<lambda>x. x = None) (MainDag_getBlockInfo D p g)) (BlockInfo_parentHashes bi) =
      Inr (filter (\<lambda>p. dg_readObj D g p = None) (BlockInfo_parentHashes bi))" for g
    by (intro filterR_ok) (simp add: MainDag_getBlockInfo_def)
  have h: "MainDag_getBlockInfo D h g = Inr (dg_readObj D g h)" "Storage_getBlockInfo h st = Inr bi"
    using bi by (simp_all add: MainDag_getBlockInfo_def Storage_getBlockInfo_def)
  have "\<exists>g1 nx1. Node_buildOne D B st h (g, nx) = Inr (g1, nx1) \<and> set nx1 \<subseteq> A"
    using bi(3,4) Cons.prems(2) by (auto simp: Node_buildOne_def h F Let_def set_fold_sadd)
  then obtain g1 nx1 where "Node_buildOne D B st h (g, nx) = Inr (g1, nx1)" and "set nx1 \<subseteq> A" by blast
  with Cons.IH [of nx1 g1] Cons.prems(1) show ?case by simp
qed auto

lemma Node_buildLevels_isOk:
  assumes A: "Storage_rooted st A"
  shows "set hs \<subseteq> A \<Longrightarrow> Node_buildLevels D B st fuel hs g = Some r \<Longrightarrow> isOk r"
proof (induction fuel arbitrary: hs g)
  case (Suc fuel)
  from Node_buildLevel_isOk [OF A Suc.prems(1), of "[]" D B g] obtain g' nx where
    "foldR (Node_buildOne D B st) hs (g, []) = Inr (g', nx)" "set nx \<subseteq> A" by auto
  with Suc show ?case by (auto split: if_splits)
qed (auto split: if_splits)

section \<open>The blocks a peer misses\<close>

definition MainDag_direct :: "'m mdag \<Rightarrow> 'm \<Rightarrow> hash \<Rightarrow> hash \<Rightarrow> bool" where
  "MainDag_direct D g h c \<longleftrightarrow> c \<in> set (dg_edgesToTips D g h) \<and>
     (\<exists>bh bc. dg_readObj D g h = Some bh \<and> dg_readObj D g c = Some bc \<and>
        BlockInfo_getHeight bc = Suc (BlockInfo_getHeight bh))"

lemma MainDag_heightOf_Inr: "MainDag_heightOf D g h = Inr n \<longleftrightarrow>
    isHash256 h \<and> (\<exists>bi. dg_readObj D g h = Some bi \<and> BlockInfo_getHeight bi = n)"
  by (auto simp: MainDag_heightOf_def MainDag_getBlockInfo_def split: option.splits)

lemma Node_directChildren_set:
  assumes "Node_directChildren D g h = Inr cs"
  shows "set cs = {c. MainDag_direct D g h c}"
proof -
  have diff: "int a - int b = 1 \<longleftrightarrow> a = Suc b" for a b :: nat by linarith
  from assms obtain children where ch: "MainDag_getChildren D h g = Inr children"
    and run: "filterR (\<lambda>c. bindR (MainDag_heightOf D g c) (\<lambda>a. bindR (MainDag_heightOf D g h) (\<lambda>b. Inr (int a - int b = 1))))
      children = Inr cs" by (auto simp: Node_directChildren_def)
  have "children = dg_edgesToTips D g h" using ch by (auto simp: MainDag_getChildren_def)
  moreover note filterR_Inr [OF run]
  ultimately show ?thesis unfolding MainDag_direct_def
    by (auto simp: MainDag_heightOf_Inr diff)
qed

lemma Node_takeLevel_inv:
  assumes "Node_takeLevel D g K level (send, nx) = Inr (send', nx')"
    and "distinct send" and "length send \<le> MAX_BLOCKS_INV"
  shows "distinct send' \<and> length send' \<le> MAX_BLOCKS_INV + 1 \<and>
    set send \<subseteq> set send' \<and> set send' \<subseteq> set level \<union> set send \<and>
    set nx \<subseteq> set nx' \<and> set nx' \<subseteq> set nx \<union> {c. \<exists>h\<in>set level. MainDag_direct D g h c \<and> c \<notin> set K \<and> c \<notin> set send} \<and>
    (length send' \<le> MAX_BLOCKS_INV \<longrightarrow> set level \<subseteq> set send' \<and>
       (\<forall>h\<in>set level. \<forall>c. MainDag_direct D g h c \<longrightarrow> c \<in> set K \<union> set send' \<union> set nx'))"
  using assms
proof (induction level arbitrary: send nx)
  case (Cons h level)
  let ?fresh = "\<lambda>c next. if c \<notin> set send \<and> c \<notin> set K then sadd c next else next"
  have fresh: "set (fold ?fresh cs nx) = set nx \<union> {c \<in> set cs. c \<notin> set K \<and> c \<notin> set send}" for cs
    by (induction cs arbitrary: nx) auto
  from Cons.prems(1) obtain cs where cs: "Node_directChildren D g h = Inr cs"
    and rest: "(if length (sadd h send) > MAX_BLOCKS_INV then Inr (sadd h send, fold ?fresh cs nx)
      else Node_takeLevel D g K level (sadd h send, fold ?fresh cs nx)) = Inr (send', nx')"
    by (auto simp: Let_def)
  have len: "length (sadd h send) \<le> MAX_BLOCKS_INV + 1" using Cons.prems(3) by (simp add: sadd_def)
  note children = Node_directChildren_set [OF cs]
  show ?case
  proof (cases "length (sadd h send) > MAX_BLOCKS_INV")
    case True
    with rest len Cons.prems(2) show ?thesis by (auto simp: fresh children)
  next
    case False
    with rest have "Node_takeLevel D g K level (sadd h send, fold ?fresh cs nx) = Inr (send', nx')" by simp
    from Cons.IH [OF this] False Cons.prems(2)
    have IH: "distinct send'" "length send' \<le> MAX_BLOCKS_INV + 1" "insert h (set send) \<subseteq> set send'"
      "set send' \<subseteq> set level \<union> insert h (set send)" "set (fold ?fresh cs nx) \<subseteq> set nx'"
      "set nx' \<subseteq> set (fold ?fresh cs nx) \<union>
         {c. \<exists>h'\<in>set level. MainDag_direct D g h' c \<and> c \<notin> set K \<and> c \<notin> insert h (set send)}"
      and all: "length send' \<le> MAX_BLOCKS_INV \<Longrightarrow> set level \<subseteq> set send'"
      "length send' \<le> MAX_BLOCKS_INV \<Longrightarrow> h' \<in> set level \<Longrightarrow> MainDag_direct D g h' c \<Longrightarrow>
         c \<in> set K \<union> set send' \<union> set nx'" for h' c
      by simp_all
    have "c \<in> set K \<union> set send' \<union> set nx'" if "MainDag_direct D g h c" for c
      using IH(3,5) that by (auto simp: fresh children)
    moreover have "set nx' \<subseteq> set nx \<union> {c. \<exists>h\<in>set (h # level). MainDag_direct D g h c \<and> c \<notin> set K \<and> c \<notin> set send}"
      using IH(6) by (auto simp: fresh children)
    moreover have "set nx \<subseteq> set nx'" using IH(5) by (auto simp: fresh)
    moreover have "set send \<subseteq> set send'" "h \<in> set send'" "set send' \<subseteq> set (h # level) \<union> set send"
      using IH(3,4) by auto
    ultimately show ?thesis using IH(1,2) all by auto
  qed
qed auto

text \<open>
  Between two turns: what is sent comes from the start \<open>S0\<close> or is a new child, and the children of
  what is known or sent are known, sent or in the level at hand.
\<close>

definition MainDag_sending :: "'m mdag \<Rightarrow> 'm \<Rightarrow> hash list \<Rightarrow> hash set \<Rightarrow> hash set \<Rightarrow> hash list \<Rightarrow> bool" where
  "MainDag_sending D g K S0 level send \<longleftrightarrow> distinct send \<and> S0 \<subseteq> set send \<and>
     (\<forall>h\<in>set send \<union> level. h \<in> S0 \<or> h \<notin> set K \<and> (\<exists>p\<in>set K \<union> set send. MainDag_direct D g p h)) \<and>
     (\<forall>p\<in>set K \<union> set send. \<forall>c. MainDag_direct D g p c \<longrightarrow> c \<in> set K \<union> set send \<union> level)"

lemma MainDag_sending_turn:
  assumes "Node_takeLevel D g K level (send, []) = Inr (send', nx')" and "length send \<le> MAX_BLOCKS_INV"
    and "MainDag_sending D g K S0 (set level) send"
  shows "distinct send'" and "length send' \<le> MAX_BLOCKS_INV + 1"
    and "S0 \<subseteq> set send'" and "\<forall>h\<in>set send'. h \<in> S0 \<or> h \<notin> set K \<and> (\<exists>p\<in>set K \<union> set send'. MainDag_direct D g p h)"
    and "length send' \<le> MAX_BLOCKS_INV \<Longrightarrow> MainDag_sending D g K S0 (set nx') send'"
    and "\<forall>c\<in>set nx'. \<exists>h\<in>set level. MainDag_direct D g h c"
proof -
  have send: "distinct send" using assms(3) by (simp add: MainDag_sending_def)
  note inv = Node_takeLevel_inv [OF assms(1) send assms(2)]
  show "distinct send'" "length send' \<le> MAX_BLOCKS_INV + 1" "\<forall>c\<in>set nx'. \<exists>h\<in>set level. MainDag_direct D g h c"
    using inv by auto
  show start: "S0 \<subseteq> set send'" using inv assms(3) unfolding MainDag_sending_def by blast
  show origin: "\<forall>h\<in>set send'. h \<in> S0 \<or> h \<notin> set K \<and> (\<exists>p\<in>set K \<union> set send'. MainDag_direct D g p h)"
    using inv assms(3) unfolding MainDag_sending_def by blast
  assume len: "length send' \<le> MAX_BLOCKS_INV"
  with inv have new: "set level \<subseteq> set send'"
    "h \<in> set level \<Longrightarrow> MainDag_direct D g h c \<Longrightarrow> c \<in> set K \<union> set send' \<union> set nx'" for h c by auto
  have nx: "set nx' \<subseteq> {c. \<exists>h\<in>set level. MainDag_direct D g h c \<and> c \<notin> set K \<and> c \<notin> set send}"
    using inv by simp
  have "h \<notin> set K \<and> (\<exists>p\<in>set K \<union> set send'. MainDag_direct D g p h)" if "h \<in> set nx'" for h
    using subsetD [OF nx that] new(1) by blast
  moreover have "c \<in> set K \<union> set send' \<union> set nx'" if "p \<in> set K \<union> set send'" and "MainDag_direct D g p c" for p c
  proof (cases "p \<in> set level")
    case False
    with that(1) inv have "p \<in> set K \<union> set send" by auto
    with assms(3) that(2) have "c \<in> set K \<union> set send \<union> set level" unfolding MainDag_sending_def by blast
    with inv new(1) show ?thesis by auto
  qed (use new(2) that(2) in blast)
  ultimately show "MainDag_sending D g K S0 (set nx') send'"
    using start origin inv unfolding MainDag_sending_def by blast
qed

lemma Node_takeLevels_ok:
  assumes low: "\<And>h bi. dg_readObj D g h = Some bi \<Longrightarrow> BlockInfo_getHeight bi \<le> H"
  shows "length send \<le> MAX_BLOCKS_INV \<Longrightarrow> MainDag_sending D g K S0 (set level) send \<Longrightarrow>
     \<forall>h\<in>set level. \<exists>bi. dg_readObj D g h = Some bi \<and> k \<le> BlockInfo_getHeight bi \<Longrightarrow> H < fuel + k \<Longrightarrow> 0 < fuel \<Longrightarrow>
     \<exists>r. Node_takeLevels D g K fuel level send = Some r \<and>
       (\<forall>bs. r = Inr bs \<longrightarrow> distinct bs \<and> length bs \<le> MAX_BLOCKS_INV + 1 \<and> S0 \<subseteq> set bs \<and>
          (\<forall>h\<in>set bs. h \<in> S0 \<or> h \<notin> set K \<and> (\<exists>p\<in>set K \<union> set bs. MainDag_direct D g p h)) \<and>
          (length bs < MAX_BLOCKS_INV \<longrightarrow>
             (\<forall>p\<in>set K \<union> set bs. \<forall>c. MainDag_direct D g p c \<longrightarrow> c \<in> set K \<union> set bs)))"
proof (induction fuel arbitrary: level send k)
  case (Suc fuel)
  show ?case
  proof (cases "Node_takeLevel D g K level (send, [])")
    case (Inr a)
    obtain send' nx' where a: "a = (send', nx')" by (cases a)
    note turn = MainDag_sending_turn [OF Inr [unfolded a] Suc.prems(1,2)]
    show ?thesis
    proof (cases "nx' \<noteq> [] \<and> length send' < MAX_BLOCKS_INV")
      case True
      have up: "\<forall>h\<in>set nx'. \<exists>bi. dg_readObj D g h = Some bi \<and> Suc k \<le> BlockInfo_getHeight bi"
      proof
        fix c assume "c \<in> set nx'"
        with turn(6) obtain h where h: "h \<in> set level" "MainDag_direct D g h c" by blast
        with Suc.prems(3) obtain bi where "dg_readObj D g h = Some bi" "k \<le> BlockInfo_getHeight bi" by blast
        with h(2) show "\<exists>bi. dg_readObj D g c = Some bi \<and> Suc k \<le> BlockInfo_getHeight bi"
          by (auto simp: MainDag_direct_def)
      qed
      from True obtain c where "c \<in> set nx'" by (cases nx') auto
      with up low have "Suc k \<le> H" by (meson le_trans)
      with Suc.prems(4) have "H < fuel + Suc k" "0 < fuel" by simp_all
      with Suc.IH [OF _ turn(5) up] True Inr a show ?thesis by simp
    next
      case False
      have "c \<in> set K \<union> set send'" if "length send' < MAX_BLOCKS_INV" "p \<in> set K \<union> set send'" "MainDag_direct D g p c" for p c
      proof -
        have "nx' = []" using False that(1) by blast
        with turn(5) that show ?thesis unfolding MainDag_sending_def by auto
      qed
      moreover have "Node_takeLevels D g K (Suc fuel) level send = Some (Inr send')"
        using Inr a by (simp add: if_not_P [OF False])
      ultimately show ?thesis using turn(1-4) by (intro exI [of _ "Inr send'"]) simp
    qed
  qed simp
qed simp

lemma mapM_Inr_set:
  "mapM f xs = Inr yss \<Longrightarrow> (\<forall>x\<in>set xs. \<exists>ys. f x = Inr ys) \<and>
     (\<forall>y. y \<in> set (concat yss) \<longleftrightarrow> (\<exists>x\<in>set xs. \<exists>ys. f x = Inr ys \<and> y \<in> set ys))"
proof (induction xs arbitrary: yss)
  case (Cons x xs)
  from Cons.prems obtain ys zss where "f x = Inr ys" "mapM f xs = Inr zss" "yss = ys # zss" by auto
  with Cons.IH [of zss] show ?case by simp
qed simp

lemma Node_firstLevel_set:
  assumes "Node_firstLevel D g K = Inr level"
  shows "set level = {c. c \<notin> set K \<and> (\<exists>p\<in>set K. MainDag_direct D g p c)}"
proof -
  from assms obtain css where css: "mapM (Node_directChildren D g) K = Inr css"
    and level: "level = filter (\<lambda>child. child \<notin> set K) (concat css)" by (auto simp: Node_firstLevel_def)
  have "(\<exists>cs. Node_directChildren D g p = Inr cs \<and> c \<in> set cs) \<longleftrightarrow> MainDag_direct D g p c" if p: "p \<in> set K" for p c
  proof -
    obtain cs where "Node_directChildren D g p = Inr cs"
      using bspec [OF conjunct1 [OF mapM_Inr_set [OF css]] p] by (elim exE)
    with Node_directChildren_set [OF this] show ?thesis by simp
  qed
  then have "c \<in> set (concat css) \<longleftrightarrow> (\<exists>p\<in>set K. MainDag_direct D g p c)" for c
    using mapM_Inr_set [OF css] by simp
  then show ?thesis unfolding level set_filter by simp blast
qed

lemma Node_firstLevel_sending:
  assumes "Node_firstLevel D g K = Inr level" and "distinct send" and "set send \<subseteq> set K"
  shows "MainDag_sending D g K (set send) (set level) send"
proof -
  have "set K \<union> set send = set K" using assms(3) by blast
  moreover have "c \<in> set K \<union> set level" if "p \<in> set K" "MainDag_direct D g p c" for p c
    using that by (auto simp: Node_firstLevel_set [OF assms(1)])
  moreover have "h \<notin> set K \<and> (\<exists>p\<in>set K. MainDag_direct D g p h)" if "h \<in> set level" for h
    using that by (simp add: Node_firstLevel_set [OF assms(1)])
  ultimately show ?thesis using assms(2) unfolding MainDag_sending_def by simp blast
qed

lemma Node_knownHashes_set: "Node_knownHashes D g hs = Inr K \<Longrightarrow> set K = set hs \<inter> MainDag_known D g"
  unfolding Node_knownHashes_def MainDag_known_def
  by (drule filterR_Inr) (auto simp: MainDag_getBlockInfo_def)

lemma MainDag_direct_known: "MainDag_direct D g p c \<Longrightarrow> c \<in> MainDag_known D g"
  by (auto simp: MainDag_direct_def MainDag_known_def)

text \<open>The promise of the answer, for a start at the known hashes \<open>K\<close>.\<close>

definition MainDag_answer :: "'m mdag \<Rightarrow> 'm \<Rightarrow> hash list \<Rightarrow> hash set \<Rightarrow> hash list \<Rightarrow> bool" where
  "MainDag_answer D g K S0 bs \<longleftrightarrow> distinct bs \<and> length bs \<le> MAX_BLOCKS_INV + 1 \<and> S0 \<subseteq> set bs \<and>
     (\<forall>h\<in>set bs. h \<in> S0 \<or> h \<notin> set K \<and> (\<exists>p\<in>set K \<union> set bs. MainDag_direct D g p h)) \<and>
     (length bs < MAX_BLOCKS_INV \<longrightarrow> (\<forall>p\<in>set K \<union> set bs. \<forall>c. MainDag_direct D g p c \<longrightarrow> c \<in> set K \<union> set bs))"

lemma Node_answer_ok:
  assumes low: "\<forall>h bi. dg_readObj D g h = Some bi \<longrightarrow> BlockInfo_getHeight bi < fuel" and "0 < fuel"
    and "Node_firstLevel D g K = Inr level" and "distinct send" "set send \<subseteq> set K" "length send \<le> MAX_BLOCKS_INV"
  shows "\<exists>r. Node_takeLevels D g K fuel level send = Some r \<and>
     (\<forall>bs. r = Inr bs \<longrightarrow> MainDag_answer D g K (set send) bs)"
  unfolding MainDag_answer_def
proof (rule Node_takeLevels_ok [where k = 0 and H = "fuel - 1"])
  show "BlockInfo_getHeight bi \<le> fuel - 1" if "dg_readObj D g h = Some bi" for h bi
    using low that by fastforce
  show "MainDag_sending D g K (set send) (set level) send"
    by (rule Node_firstLevel_sending [OF assms(3-5)])
  show "\<forall>h\<in>set level. \<exists>bi. dg_readObj D g h = Some bi \<and> 0 \<le> BlockInfo_getHeight bi"
    using Node_firstLevel_set [OF assms(3)] by (auto simp: MainDag_direct_def)
qed (use assms in auto)

lemma MainDag_answer_promise:
  assumes "MainDag_answer D g K S0 bs" and "set hs \<inter> MainDag_known D g \<subseteq> set K" and "set K \<subseteq> set hs \<union> S0"
    and "S0 \<inter> set hs = {}" and "S0 \<subseteq> {GENESIS_BLOCK}"
  shows "distinct bs \<and> length bs \<le> MAX_BLOCKS_INV + 1 \<and> set bs \<inter> set hs = {} \<and>
    (\<forall>h\<in>set bs. h = GENESIS_BLOCK \<or> (\<exists>p\<in>set hs \<union> set bs. MainDag_direct D g p h)) \<and>
    (length bs < MAX_BLOCKS_INV \<longrightarrow> (\<forall>p\<in>set hs \<inter> MainDag_known D g \<union> set bs. \<forall>c. MainDag_direct D g p c \<longrightarrow>
       c \<in> set hs \<union> set bs))"
proof (intro conjI impI)
  note a = assms(1) [unfolded MainDag_answer_def]
  show "distinct bs" "length bs \<le> MAX_BLOCKS_INV + 1" using a by simp_all
  have K: "set K \<union> set bs \<subseteq> set hs \<union> set bs" using a assms(3) by auto
  have new: "h \<in> S0 \<or> h \<in> MainDag_known D g \<and> h \<notin> set K" if "h \<in> set bs" for h
    using a that MainDag_direct_known by fast
  show "set bs \<inter> set hs = {}"
  proof (rule equals0I)
    fix h assume "h \<in> set bs \<inter> set hs"
    with new [of h] assms(2,4) show False by blast
  qed
  show "\<forall>h\<in>set bs. h = GENESIS_BLOCK \<or> (\<exists>p\<in>set hs \<union> set bs. MainDag_direct D g p h)"
    using a K assms(5) by blast
  assume "length bs < MAX_BLOCKS_INV"
  with a have "\<forall>p\<in>set K \<union> set bs. \<forall>c. MainDag_direct D g p c \<longrightarrow> c \<in> set K \<union> set bs" by blast
  with K assms(2) show "\<forall>p\<in>set hs \<inter> MainDag_known D g \<union> set bs. \<forall>c. MainDag_direct D g p c \<longrightarrow> c \<in> set hs \<union> set bs"
    by blast
qed

end
