(* ===== verification/Cil_Node_Laws.thy ===== *)
theory Cil_Node_Laws
  imports Cil_Node
begin

text \<open>
  What the operations of \<open>Cil_Node\<close> keep and compute: the coins that a block of plain transactions moves,
  the heights along the graph, the loops over the graph and the check of signatures.
\<close>

section \<open>The patch of a plain transaction\<close>

definition PatchDB_contractsOf :: "'d patch \<Rightarrow> (addr, 'd contract) jsmap \<times> (hash, receipt) jsmap" where
  "PatchDB_contractsOf p = (pt_mapContractStates p, pt_mapTxReceipts p)"

lemma PatchDB_contractsOf_spend: "PatchDB_spendCoins u i x p = Inr p' \<Longrightarrow> PatchDB_contractsOf p' = PatchDB_contractsOf p"
  by (auto simp: PatchDB_spendCoins_def PatchDB_contractsOf_def Let_def PatchDB_setSpentOutput_def)

lemma PatchDB_contractsOf_create: "PatchDB_createCoins h i c p = Inr p' \<Longrightarrow> PatchDB_contractsOf p' = PatchDB_contractsOf p"
  by (auto simp: PatchDB_createCoins_def PatchDB_contractsOf_def)

lemma App_processTxInputs_contracts:
  assumes "App_processTxInputs C t pb = Inr (p, n)"
  shows "PatchDB_contractsOf p = ([], [])"
proof -
  have "PatchDB_contractsOf (fst (p, n)) = ([], [])"
  proof (rule foldR_invariant [OF assms [unfolded App_processTxInputs_eq], where P = "\<lambda>st. PatchDB_contractsOf (fst st) = ([], [])"])
    show "PatchDB_contractsOf (fst (PatchDB_empty, 0)) = ([], [])"
      by (simp add: PatchDB_contractsOf_def PatchDB_empty_def)
  next
    fix e :: "nat \<times> tx_input" and st st' :: "'a patch \<times> int"
    assume "PatchDB_contractsOf (fst st) = ([], [])" "App_processInput C t pb e st = Inr st'"
    then show "PatchDB_contractsOf (fst st') = ([], [])"
      by (auto simp: App_processInput_def split: prod.splits option.splits dest!: PatchDB_contractsOf_spend)
  qed
  then show ?thesis by simp
qed

lemma App_processPayments_keeps:
  assumes "App_processPayments C t q k = Inr (p, n)" and "PatchDB_utxosOk q"
  shows "PatchDB_contractsOf p = PatchDB_contractsOf q" and "PatchDB_utxosOk p"
proof -
  have "PatchDB_contractsOf (fst (p, n)) = PatchDB_contractsOf q \<and> PatchDB_utxosOk (fst (p, n))"
  proof (rule foldR_invariant [OF assms(1) [unfolded App_processPayments_def Let_def],
        where P = "\<lambda>st. PatchDB_contractsOf (fst st) = PatchDB_contractsOf q \<and> PatchDB_utxosOk (fst st)"])
    show "PatchDB_contractsOf (fst (q, 0)) = PatchDB_contractsOf q \<and> PatchDB_utxosOk (fst (q, 0))"
      using assms(2) by simp
  next
    fix e :: "nat \<times> coins" and st st' :: "'a patch \<times> int"
    assume "PatchDB_contractsOf (fst st) = PatchDB_contractsOf q \<and> PatchDB_utxosOk (fst st)"
      "App_processPayment C t e st = Inr st'"
    then show "PatchDB_contractsOf (fst st') = PatchDB_contractsOf q \<and> PatchDB_utxosOk (fst st')"
      by (auto simp: App_processPayment_def split: prod.splits if_splits
          dest: PatchDB_contractsOf_create PatchDB_createCoins_InrD(1))
  qed
  then show "PatchDB_contractsOf p = PatchDB_contractsOf q" and "PatchDB_utxosOk p" by simp_all
qed

text \<open>Computing a fee changes only the cached list of conciliums.\<close>

lemma Storage_conciliums_keep:
  "sg_utxos (snd (Storage_getConciliumById S ld i s)) = sg_utxos s"
  "sg_contracts (snd (Storage_getConciliumById S ld i s)) = sg_contracts s"
  by (auto simp: Storage_getConciliumById_def Storage_ensureArrConciliumDefinition_def bindS_def returnS_def throwS_def
      split: prod.splits sum.splits option.splits list.splits)

lemma Node_sizeFee_keeps:
  assumes "Node_calculateSizeFee E t g s = (r, s')"
  shows "sg_utxos s' = sg_utxos s" "sg_contracts s' = sg_contracts s"
proof -
  have "sg_utxos (snd (Node_calculateSizeFee E t g s)) = sg_utxos s \<and>
      sg_contracts (snd (Node_calculateSizeFee E t g s)) = sg_contracts s"
    using Storage_conciliums_keep [of "ne_serializers E" "ne_loadConciliums E" "Transaction_conciliumId t" s]
    by (auto simp: Node_calculateSizeFee_def Node_conciliumFee_def bindS_def returnS_def
        split: prod.splits sum.splits)
  with assms show "sg_utxos s' = sg_utxos s" "sg_contracts s' = sg_contracts s" by simp_all
qed

text \<open>A transaction that is no contract's, whatever else the block did: it has no contract to call.\<close>

definition Node_plainTx :: "'d storage \<Rightarrow> 'd patch \<Rightarrow> tx \<Rightarrow> bool" where
  "Node_plainTx st p t \<longleftrightarrow> Transaction_isContractCreation t = Inr False \<and>
     (\<forall>a. Transaction_getContractAddr t = Inr a \<longrightarrow> jget (sg_contracts st) a = None \<and> PatchDB_getContract a p = None)"

lemma Node_plainTx_find:
  assumes "Node_plainTx st p t" and "Node_findContract E t (Some p) st = Inr (b, c)"
  shows "\<not> b"
  using assms
  by (auto simp: Node_plainTx_def Node_findContract_def Node_getContractByAddr_def Storage_getContract_def
      split: if_splits)

lemma Node_plain_patch:
  assumes s: "Storage_wf s" and pb: "PatchDB_wf q" and plain: "Node_plainTx s q t"
    and run: "Node_processTx depth E (Some q) False t s = (Inr (fee, p), s')"
  shows "PatchDB_wf p" and "pt_mapContractStates p = []" and "sg_utxos s' = sg_utxos s"
    and "sg_contracts s' = sg_contracts s" and "Node_totalIn (Some q) s t = Transaction_amountOut t + fee"
    and "distinct (Transaction_keys t)" and "\<forall>k\<in>set (Transaction_keys t). Node_unspent (Some q) s k \<noteq> None"
proof -
  obtain isC c' m q' totalHas nFeeSize s1 paid totalSent sent where
    D: "Node_findContract E t (Some q) s = Inr (isC, c')"
    "Node_inputsPatch (ne_serializers E) (Some q) (Transaction_utxos t) s = Inr m"
    "App_processTxInputs (ne_crypto E) t (Some m) = Inr (q', totalHas)"
    "Node_calculateSizeFee E t False s = (Inr nFeeSize, s1)"
    "App_processPayments (ne_crypto E) t q' (if isC then 1 else 0) = Inr (paid, totalSent)"
    "(if isC then Transaction_getContractSentAmount t else Inr 0) = Inr sent"
    "nFeeSize < totalHas - totalSent - sent"
    "if isC then Node_processContract depth E False c' t paid
            (case Some q of Some q \<Rightarrow> q | None \<Rightarrow> PatchDB_empty) (totalHas - totalSent - sent) nFeeSize s1 =
            (Inr (fee, p), s')
         else fee = totalHas - totalSent - sent \<and> p = paid \<and> s' = s1"
    by (rule Node_processTx_InrD [OF run]) (rule that)
  have isC: "\<not> isC" by (rule Node_plainTx_find [OF plain D(1)])
  with D(8) have p: "p = paid" "s' = s1" by simp_all
  have q': "PatchDB_utxosOk q'" by (rule Node_processInputs(4) [OF s _ D(2,3)]) (simp add: pb)
  note K = App_processPayments_keeps [OF D(5) q']
  have c: "PatchDB_contractsOf p = ([], [])" using K(1) App_processTxInputs_contracts [OF D(3)] p by simp
  then show "pt_mapContractStates p = []" by (simp add: PatchDB_contractsOf_def)
  from c K(2) p show "PatchDB_wf p"
    by (simp add: PatchDB_wf_def PatchDB_contractsOk_def PatchDB_receiptsOk_def PatchDB_contractsOf_def)
  show "sg_utxos s' = sg_utxos s" "sg_contracts s' = sg_contracts s"
    using Node_sizeFee_keeps [OF D(4)] p by simp_all
  from D(1) isC have f: "Node_findContract E t (Some q) s = Inr (False, c')" by simp
  show "Node_totalIn (Some q) s t = Transaction_amountOut t + fee"
    by (rule Node_transfer_spec(3) [OF s _ f run]) (simp add: pb)
  show "distinct (Transaction_keys t)" by (rule Node_transfer_spec(1) [OF s _ f run]) (simp add: pb)
  have "length (Transaction_keys t) = length (Transaction_inputs t)" by (simp add: Transaction_keys_def)
  moreover have "\<forall>i<length (Transaction_inputs t). \<exists>c. Node_unspent (Some q) s (Transaction_keys t ! i) = Some c \<and>
      App_owned (ne_crypto E) t i c" by (rule Node_transfer_spec(2) [OF s _ f run]) (simp add: pb)
  ultimately show "\<forall>k\<in>set (Transaction_keys t). Node_unspent (Some q) s k \<noteq> None"
    by (metis in_set_conv_nth option.distinct(1))
qed

text \<open>Merging it leaves the contracts of the block what they are.\<close>

lemma PatchDB_merge_plain:
  assumes "PatchDB_merge S True q p = Inr r" and "PatchDB_wf q" and "PatchDB_wf p" and "pt_mapContractStates p = []"
  shows "PatchDB_wf r" and "PatchDB_getContract a r = None \<longleftrightarrow> PatchDB_getContract a q = None"
proof -
  show "PatchDB_wf r" using PatchDB_mergeD [OF assms(1-3)] by simp
  have "jget (pt_mapContractStates r) a = map_option (Contract_clone S) (PatchDB_winnerOpt True q p a)"
    using PatchDB_merge_abs [OF assms(2,3), of True S] assms(1) by (auto split: if_splits)
  with assms(4) show "PatchDB_getContract a r = None \<longleftrightarrow> PatchDB_getContract a q = None"
    by (auto simp: PatchDB_getContract_def PatchDB_winnerOpt_def PatchDB_winner_def split: option.splits)
qed

section \<open>The transactions of a block\<close>

lemma Node_totalIn_cong: "sg_utxos s = sg_utxos s' \<Longrightarrow> Node_totalIn pb s t = Node_totalIn pb s' t"
  by (simp add: Node_totalIn_def Node_unspent_def Node_outputs_def)

lemma Storage_wf_cong: "sg_utxos s = sg_utxos s' \<Longrightarrow> Storage_wf s = Storage_wf s'"
  by (simp add: Storage_wf_def)

text \<open>What the transactions take: each from the storage and the patch of the block it finds.\<close>

definition Node_taken :: "'d storage \<Rightarrow> 'd patch list \<Rightarrow> tx list \<Rightarrow> int" where
  "Node_taken st qs ts = (\<Sum>(q, t)\<leftarrow>zip qs ts. Node_totalIn (Some q) st t)"

definition Node_sameStore :: "'d storage \<Rightarrow> 'd storage \<Rightarrow> bool" where
  "Node_sameStore st st' \<longleftrightarrow> sg_utxos st' = sg_utxos st \<and> sg_contracts st' = sg_contracts st"

lemma Node_execTx_step:
  assumes run: "Node_execTx K b False t (n, q) s = (Inr (n', q'), s')"
    and s: "Storage_wf (nd_storage s)" and q: "PatchDB_wf q" and plain: "Node_plainTx (nd_storage s) q t"
  shows "Node_totalIn (Some q) (nd_storage s) t = Transaction_amountOut t + (n' - n)"
    and "PatchDB_wf q'" and "Node_sameStore (nd_storage s) (nd_storage s')"
    and "Transaction_conciliumId t = Block_getConciliumId b"
    and "PatchDB_getContract a q' = None \<longleftrightarrow> PatchDB_getContract a q = None"
    and "nd_mainDag s' = nd_mainDag s \<and> nd_pendingBlocks s' = nd_pendingBlocks s"
    and "distinct (Transaction_keys t)"
    and "\<forall>k\<in>set (Transaction_keys t). Node_unspent (Some q) (nd_storage s) k \<noteq> None"
proof -
  from run obtain fee p s1 where c: "Transaction_conciliumId t = Block_getConciliumId b"
    and r: "Node_runTx K (Some q) False t s = (Inr (fee, p), s')"
    and m: "PatchDB_merge (nc_serializers K) True q p = Inr q'" and n: "n' = n + fee"
    by (auto simp: Node_execTx_def node_Inr)
  from r obtain u where u: "Node_processTx (nc_depth K) (Node_envNow K s) (Some q) False t (nd_storage s) = (Inr (fee, p), u)"
    and s': "s' = s\<lparr>nd_storage := u\<rparr>"
    by (auto simp: Node_runTx_def onStorage_def zoomS_Inr)
  note P = Node_plain_patch [OF s q plain u]
  note M = PatchDB_merge_plain [OF m q P(1,2)]
  show "Transaction_conciliumId t = Block_getConciliumId b" by (rule c)
  show "Node_totalIn (Some q) (nd_storage s) t = Transaction_amountOut t + (n' - n)" using P(5) n by simp
  show "PatchDB_wf q'" "PatchDB_getContract a q' = None \<longleftrightarrow> PatchDB_getContract a q = None" by (rule M)+
  show "Node_sameStore (nd_storage s) (nd_storage s')" using P(3,4) s' by (simp add: Node_sameStore_def)
  show "nd_mainDag s' = nd_mainDag s \<and> nd_pendingBlocks s' = nd_pendingBlocks s" using s' by simp
  show "distinct (Transaction_keys t)"
    "\<forall>k\<in>set (Transaction_keys t). Node_unspent (Some q) (nd_storage s) k \<noteq> None" by (rule P)+
qed

lemma Node_unspent_cong: "sg_utxos s = sg_utxos s' \<Longrightarrow> Node_unspent pb s k = Node_unspent pb s' k"
  by (simp add: Node_unspent_def Node_outputs_def)

text \<open>The execution of the transactions one by one: the fees so far, the patch of the block and the node
  before each of them and at the end.\<close>

definition Node_blockRun ::
    "('g, 'm, 'd, 'r, 'a) node_cfg \<Rightarrow> block \<Rightarrow> tx list \<Rightarrow> ((int \<times> 'd patch) \<times> ('g, 'm, 'd) node) list \<Rightarrow> bool" where
  "Node_blockRun K b ts run \<longleftrightarrow> length run = Suc (length ts) \<and>
     (\<forall>i<length ts. Node_execTx K b False (ts ! i) (fst (run ! i)) (snd (run ! i)) =
        (Inr (fst (run ! Suc i)), snd (run ! Suc i)))"

text \<open>What each step takes: distinct outputs that the storage and the patch so far have, worth what the
  transaction pays plus what it adds to the fees.\<close>

definition Node_takes :: "'d storage \<Rightarrow> tx \<Rightarrow> 'd patch \<Rightarrow> int \<Rightarrow> bool" where
  "Node_takes st t q fee \<longleftrightarrow> distinct (Transaction_keys t) \<and>
     (\<forall>k\<in>set (Transaction_keys t). Node_unspent (Some q) st k \<noteq> None) \<and>
     Node_totalIn (Some q) st t = Transaction_amountOut t + fee"

lemma Node_takes_cong: "sg_utxos s = sg_utxos s' \<Longrightarrow> Node_takes s t q fee = Node_takes s' t q fee"
  by (simp add: Node_takes_def Node_unspent_cong [of s s'] Node_totalIn_cong [of s s'])

lemma Node_execTxns:
  assumes "foldS (Node_execTx K b False) ts (n, q) s = (Inr (n', q'), s')"
    and "Storage_wf (nd_storage s)" and "PatchDB_wf q" and "\<forall>t\<in>set ts. Node_plainTx (nd_storage s) q t"
  shows "(\<exists>run. Node_blockRun K b ts run \<and> hd run = ((n, q), s) \<and> last run = ((n', q'), s') \<and>
      (\<forall>i<length ts. Node_takes (nd_storage s) (ts ! i) (snd (fst (run ! i)))
         (fst (fst (run ! Suc i)) - fst (fst (run ! i)))) \<and>
      Node_taken (nd_storage s) (map (\<lambda>x. snd (fst x)) (butlast run)) ts =
        sum_list (map Transaction_amountOut ts) + (n' - n)) \<and>
    PatchDB_wf q' \<and> Node_sameStore (nd_storage s) (nd_storage s') \<and>
    (\<forall>t\<in>set ts. Transaction_conciliumId t = Block_getConciliumId b)"
  using assms
proof (induction ts arbitrary: n q s)
  case Nil
  then show ?case
    by (simp add: Node_taken_def returnS_def Node_sameStore_def Node_blockRun_def)
       (intro exI [of _ "[((n, q), s)]"], simp)
next
  case (Cons t ts)
  from Cons.prems(1) obtain n1 q1 s1 where one: "Node_execTx K b False t (n, q) s = (Inr (n1, q1), s1)"
    and rest: "foldS (Node_execTx K b False) ts (n1, q1) s1 = (Inr (n', q'), s')"
    by (auto simp: bindS_Inr)
  have pt: "Node_plainTx (nd_storage s) q t" using Cons.prems(4) by simp
  note A = Node_execTx_step [OF one Cons.prems(2,3) pt]
  have st: "sg_utxos (nd_storage s1) = sg_utxos (nd_storage s)" "sg_contracts (nd_storage s1) = sg_contracts (nd_storage s)"
    using A(3) by (simp_all add: Node_sameStore_def)
  have wf1: "Storage_wf (nd_storage s1)" using Cons.prems(2) Storage_wf_cong [OF st(1)] by simp
  have plain1: "\<forall>t\<in>set ts. Node_plainTx (nd_storage s1) q1 t"
    using Cons.prems(4) st A(5) by (simp add: Node_plainTx_def)
  note IH = Cons.IH [OF rest wf1 A(2) plain1]
  from IH obtain run where R: "Node_blockRun K b ts run" "hd run = ((n1, q1), s1)" "last run = ((n', q'), s')"
    "\<forall>i<length ts. Node_takes (nd_storage s1) (ts ! i) (snd (fst (run ! i))) (fst (fst (run ! Suc i)) - fst (fst (run ! i)))"
    "Node_taken (nd_storage s1) (map (\<lambda>x. snd (fst x)) (butlast run)) ts = sum_list (map Transaction_amountOut ts) + (n' - n1)"
    by blast
  from R(1) have ne1: "run \<noteq> []" by (auto simp: Node_blockRun_def)
  with R(2) have ne: "run \<noteq> []" "run ! 0 = ((n1, q1), s1)" by (simp_all add: hd_conv_nth)
  let ?run = "((n, q), s) # run"
  have "Node_blockRun K b (t # ts) ?run"
    using R(1) ne one by (auto simp: Node_blockRun_def less_Suc_eq_0_disj)
  moreover have "last ?run = ((n', q'), s')" using R(3) ne(1) by simp
  moreover have "\<forall>i<length (t # ts). Node_takes (nd_storage s) ((t # ts) ! i) (snd (fst (?run ! i)))
      (fst (fst (?run ! Suc i)) - fst (fst (?run ! i)))"
    using R(4) Node_takes_cong [OF st(1)] ne A(1,7,8) by (auto simp: less_Suc_eq_0_disj Node_takes_def)
  moreover have "Node_taken (nd_storage s) (map (\<lambda>x. snd (fst x)) (butlast ?run)) (t # ts) =
      sum_list (map Transaction_amountOut (t # ts)) + (n' - n)"
    using R(5) ne A(1) by (simp add: Node_taken_def Node_totalIn_cong [OF st(1)])
  ultimately have "\<exists>run. Node_blockRun K b (t # ts) run \<and> hd run = ((n, q), s) \<and> last run = ((n', q'), s') \<and>
      (\<forall>i<length (t # ts). Node_takes (nd_storage s) ((t # ts) ! i) (snd (fst (run ! i)))
         (fst (fst (run ! Suc i)) - fst (fst (run ! i)))) \<and>
      Node_taken (nd_storage s) (map (\<lambda>x. snd (fst x)) (butlast run)) (t # ts) =
        sum_list (map Transaction_amountOut (t # ts)) + (n' - n)"
    by (intro exI [of _ ?run]) simp
  with IH A(4) st show ?case by (simp add: Node_sameStore_def)
qed

section \<open>A block\<close>

lemma Node_hash_keeps: "snd (Node_hash K b s) = s"
  by (simp add: Node_hash_def liftS_def)

lemma Node_hash_Inr: "Node_hash K b s = (Inr (h, b'), s') \<longleftrightarrow> Block_hash (nc_crypto K) (nc_block K) b = Inr (h, b') \<and> s' = s"
  by (auto simp: Node_hash_def liftS_def)

text \<open>Hashing a block changes neither its transactions nor what its header says of parents, height and concilium.\<close>

lemma Block_hash_same:
  assumes "Block_hash C B b = Inr (h, b')"
  shows "bl_txns b' = bl_txns b" "Block_parentHashes b' = Block_parentHashes b"
    "Block_getHeight b' = Block_getHeight b" "Block_getConciliumId b' = Block_getConciliumId b"
    "bl_signatures b' = bl_signatures b"
  using assms
  by (auto simp: Block_hash_def Block_parentHashes_def Block_getHeight_def Block_getConciliumId_def Let_def
      split: option.splits if_splits)

lemma Node_blockInfo_Inr:
  "Node_blockInfo K h s = (Inr x, t) \<longleftrightarrow> isHash256 h \<and> x = dg_readObj (nc_mdag K) (nd_mainDag s) h \<and> t = s"
  by (auto simp: Node_blockInfo_def MainDag_getBlockInfo_def)

text \<open>\<open>_calcHeight\<close> is one more than the highest parent; a parent without a header throws.\<close>

lemma Node_calcHeight_spec:
  assumes "Node_calcHeight K ps s = (Inr n, s')"
  shows "s' = s" and "\<forall>h\<in>set ps. \<exists>bi. dg_readObj (nc_mdag K) (nd_mainDag s) h = Some bi \<and> BlockInfo_getHeight bi < n"
    and "ps = [] \<Longrightarrow> n = 1"
    and "ps \<noteq> [] \<Longrightarrow> \<exists>h\<in>set ps. \<exists>bi. dg_readObj (nc_mdag K) (nd_mainDag s) h = Some bi \<and> n = Suc (BlockInfo_getHeight bi)
      \<or> n = 1"
proof -
  let ?f = "\<lambda>hash maxHeight. bindS (Node_blockInfo K hash) (\<lambda>bi. case bi of
      None \<Rightarrow> throwS (TypeError ''Cannot read property'')
    | Some x \<Rightarrow> returnS (if maxHeight > BlockInfo_getHeight x then maxHeight else BlockInfo_getHeight x))"
  have fold: "t = s \<and> m \<le> r \<and>
      (\<forall>h\<in>set ps. \<exists>bi. dg_readObj (nc_mdag K) (nd_mainDag s) h = Some bi \<and> BlockInfo_getHeight bi \<le> r) \<and>
      (r = m \<or> (\<exists>h\<in>set ps. \<exists>bi. dg_readObj (nc_mdag K) (nd_mainDag s) h = Some bi \<and> r = BlockInfo_getHeight bi))"
    if "foldS ?f ps m s = (Inr r, t)" for ps m r t
    using that
  proof (induction ps arbitrary: m)
    case (Cons h ps)
    from Cons.prems obtain bi where bi: "dg_readObj (nc_mdag K) (nd_mainDag s) h = Some bi"
      and f: "foldS ?f ps (if m > BlockInfo_getHeight bi then m else BlockInfo_getHeight bi) s = (Inr r, t)"
      by (auto simp: bindS_Inr Node_blockInfo_Inr throwS_def returnS_def split: option.splits)
    from Cons.IH [OF f] bi show ?case by (auto split: if_splits)
  qed (simp add: returnS_def)
  from assms obtain r where r: "foldS ?f ps 0 s = (Inr r, s')" "n = r + 1"
    by (auto simp: Node_calcHeight_def bindS_Inr liftS_def returnS_def)
  note F = fold [OF r(1)]
  show "s' = s" using F by simp
  show "\<forall>h\<in>set ps. \<exists>bi. dg_readObj (nc_mdag K) (nd_mainDag s) h = Some bi \<and> BlockInfo_getHeight bi < n"
    using F r(2) by (fastforce simp: less_Suc_eq_le)
  show "ps = [] \<Longrightarrow> n = 1" using F r(2) by simp
  show "ps \<noteq> [] \<Longrightarrow> \<exists>h\<in>set ps. \<exists>bi. dg_readObj (nc_mdag K) (nd_mainDag s) h = Some bi \<and> n = Suc (BlockInfo_getHeight bi)
      \<or> n = 1"
    using F r(2) by (cases ps) auto
qed

lemma Node_coinbaseCoins_wf:
  assumes "Node_coinbaseCoins h cs q = Inr p" and "PatchDB_wf q"
  shows "PatchDB_wf p"
proof (rule foldR_invariant [OF assms(1) [unfolded Node_coinbaseCoins_def], where P = PatchDB_wf])
  show "PatchDB_wf q" by (rule assms(2))
next
  fix i :: nat and r r' :: "'a patch"
  assume "PatchDB_wf r" and "(if Coins_getAmount (cs ! i) \<noteq> 0 then PatchDB_createCoins h (int i) (cs ! i) r else Inr r) = Inr r'"
  moreover have "PatchDB_wf r'" if "PatchDB_createCoins h (int i) (cs ! i) r = Inr r'" "PatchDB_wf r"
    using that PatchDB_createCoins_InrD(1) [OF _ that(1)] PatchDB_contractsOf_create [OF that(1)]
    by (simp add: PatchDB_wf_def PatchDB_contractsOk_def PatchDB_receiptsOk_def PatchDB_contractsOf_def)
  ultimately show "PatchDB_wf r'" by (simp split: if_splits)
qed

lemma Transaction_verifyCoinbase_amount: "Transaction_verifyCoinbase n t = Inr u \<Longrightarrow> Transaction_amountOut t = n"
  by (auto simp: Transaction_verifyCoinbase_def)

lemma Node_isBlockExecuted_same: "snd (Node_isBlockExecuted K h s) = s"
  by (auto simp: Node_isBlockExecuted_def Node_blockInfo_def bindS_def returnS_def split: sum.split)

text \<open>The run of a block that is not the first one, taken apart.\<close>

lemma Node_execBlock_InrD:
  assumes run: "Node_execBlock K b s = (Inr (Some p), s')"
    and h: "Block_hash (nc_crypto K) (nc_block K) b = Inr (h, b')" "h \<noteq> GENESIS_BLOCK"
  obtains q q0 fees patchState s1 coinbase rest where
    "Node_calcHeight K (Block_parentHashes b) s = (Inr (Block_getHeight b), s)"
    and "fst (Node_isBlockExecuted K h s) = Inr False"
    and "Pending_mergePatches (nc_pdag K) (nc_serializers K) (Block_parentHashes b) None (nd_pendingBlocks s) = Inr q"
    and "PatchDB_setConciliumId (Some (Block_getConciliumId b)) (fst q) = Inr q0"
    and "foldS (Node_execTx K b' False) (tl (bl_txns b)) (0, q0) s = (Inr (fees, patchState), s')"
    and "bl_txns b = coinbase # rest" and "Transaction_verifyCoinbase fees coinbase = Inr ()"
    and "Node_coinbaseCoins (Transaction_getHash (nc_crypto K) coinbase) (Transaction_getOutCoins coinbase) patchState = Inr p"
proof -
  note B = Block_hash_same [OF h(1)]
  from h have hh: "Block_hash (nc_crypto K) (nc_block K) b' = Inr (h, b')"
    by (auto simp: Block_hash_def Let_def split: option.splits if_splits)
  have ex: "fst (Node_isBlockExecuted K h s) = Inr x \<Longrightarrow> Node_isBlockExecuted K h s = (Inr x, s)" for x
    using Node_isBlockExecuted_same [of K h s] by (metis prod.collapse)
  from run h hh obtain ok s2 s3 s4 where e: "Node_isBlockExecuted K h s = (Inr False, s2)"
    and c: "Node_checkHeight K b' s2 = (Inr (), s3)"
    and rest: "bindS (\<lambda>s. (Pending_mergePatches (nc_pdag K) (nc_serializers K) (Block_parentHashes b') None
                        (nd_pendingBlocks s), s)) (\<lambda>(merged, _).
          bindS (liftS (PatchDB_setConciliumId (Some (Block_getConciliumId b')) merged)) (\<lambda>patchState.
          bindS (foldS (Node_execTx K b' False) (tl (bl_txns b')) (0, patchState)) (\<lambda>(blockFees, patchState).
          bindS (Node_processBlockCoinbaseTX K b' blockFees patchState) (\<lambda>patchState.
          returnS (Some patchState))))) s3 = (Inr (Some p), s')"
    unfolding Node_execBlock_def Node_isGenesisBlock_def
    by (auto simp: bindS_Inr Node_hash_Inr returnS_def split: if_splits)
  have s2: "s2 = s" using Node_isBlockExecuted_same [of K h s] e by simp
  from c obtain n s5 where n: "Node_calcHeight K (Block_parentHashes b') s2 = (Inr n, s5)" "n = Block_getHeight b'" "s3 = s5"
    by (auto simp: Node_checkHeight_def bindS_Inr liftS_def)
  from Node_calcHeight_spec(1) [OF n(1)] n s2 have s3: "s3 = s" by simp
  from rest s3 obtain q q0 fees patchState s6 where
    m: "Pending_mergePatches (nc_pdag K) (nc_serializers K) (Block_parentHashes b) None (nd_pendingBlocks s) = Inr q"
    and q0: "PatchDB_setConciliumId (Some (Block_getConciliumId b)) (fst q) = Inr q0"
    and f: "foldS (Node_execTx K b' False) (tl (bl_txns b)) (0, q0) s = (Inr (fees, patchState), s6)"
    and cb: "Node_processBlockCoinbaseTX K b' fees patchState s6 = (Inr p, s')"
    by (auto simp: bindS_Inr liftS_def returnS_def B split: prod.splits)
  from cb hh h(2) obtain coinbase rest' where "bl_txns b = coinbase # rest'" "Transaction_verifyCoinbase fees coinbase = Inr ()"
    "Node_coinbaseCoins (Transaction_getHash (nc_crypto K) coinbase) (Transaction_getOutCoins coinbase) patchState = Inr p"
    "s' = s6"
    by (auto simp: Node_processBlockCoinbaseTX_def Node_isGenesisBlock_def bindS_Inr Node_hash_Inr returnS_def liftS_def
        throwS_def B split: list.splits)
  with that m q0 f e n s2 B s3 show ?thesis by simp
qed

end
