(* ===== verification/Cil_Ledger_Props.thy ===== *)
theory Cil_Ledger_Props
  imports Cil_Block Cil_Receipt Cil_Contract
begin

text \<open>
  What the ledger's own structures promise: outputs (\<open>utxo.js\<close>), receipts (\<open>txReceipt.js\<close>), contracts
  (\<open>contract.js\<close>), transactions (\<open>transaction.js\<close>) and blocks (\<open>block.js\<close>). The examples at the front
  instantiate the parameters (hashing, keys, serializers) with concrete functions.
\<close>

section \<open>Examples\<close>

definition ex_hash :: "char \<Rightarrow> hash" where "ex_hash c = replicate 64 c"
definition ex_addr :: "char \<Rightarrow> addr" where "ex_addr c = replicate 40 c"

lemma ex_hash_simps [simp]: "ex_hash c = ex_hash d \<longleftrightarrow> c = d" "isHash256 (ex_hash c)" "ex_hash c \<noteq> []"
  "isAddress (ex_addr c)" "ex_addr c = ex_addr d \<longleftrightarrow> c = d" "ex_addr c \<noteq> []"
  by (simp_all add: ex_hash_def ex_addr_def isHash256_def isAddress_def)

text \<open>A signature repeats the first character of its key, which is also that of the address.\<close>

definition ex_crypto :: crypto where
  "ex_crypto = \<lparr>cr_txHash = (\<lambda>p. ex_hash (if length (pl_outs p) \<le> 1 then CHR ''7'' else CHR ''8'')),
     cr_sign = (\<lambda>h key. replicate 130 (hd key)),
     cr_recoverPubKey = (\<lambda>h s. Inr [hd s]),
     cr_getAddress = (\<lambda>pk. ex_addr (hd pk))\<rparr>"

definition ex_block_crypto :: block_crypto where
  "ex_block_crypto = \<lparr>bc_merkleRoot = concat, bc_headerHash = (\<lambda>h. ex_hash CHR ''b'')\<rparr>"

definition ex_serializers :: "string serializers" where
  "ex_serializers = \<lparr>serializeContractDataJson = (\<lambda>d. CHR ''j'' # d),
     deSerializeContractDataJson = (\<lambda>b. Inr (tl b)),
     serializeContractDataV8 = (\<lambda>d. CHR ''v'' # d),
     deSerializeContractDataV8 = (\<lambda>b. Inr (tl b)), emptyData = []\<rparr>"

lemma ex_serializers_ok: "serializers_ok ex_serializers"
  by (simp add: serializers_ok_def ex_serializers_def)

definition ex_utxo :: utxo where
  "ex_utxo = \<lparr>utxo_txHash = ex_hash CHR ''1'', utxo_arrIndexes = [0, 2],
     utxo_arrOutputs = [Coins_new 500 (ex_addr CHR ''a''), Coins_new 70 (ex_addr CHR ''b'')]\<rparr>"

lemma ex_utxo_wf: "UTXO_wf ex_utxo"
  by (simp add: UTXO_wf_def ex_utxo_def)

section \<open>Outputs\<close>

text \<open>C25: An output can be spent exactly when it is there, and spending takes it out and nothing else:
  on what the UTXO still holds, \<open>spendCoins\<close> deletes the index, and on an index that is not there
  it throws. So no output is spent twice.\<close>

theorem UTXO_spend_refines:
  assumes "UTXO_wf u"
  shows "case UTXO_spendCoins idx u of
      Inl e \<Rightarrow> e = Error ''already deleted!'' \<and> UTXO_abs u idx = None
    | Inr u' \<Rightarrow> UTXO_wf u' \<and> UTXO_abs u idx \<noteq> None \<and> UTXO_abs u' = (UTXO_abs u)(idx := None) \<and>
        UTXO_spendCoins idx u' = Inl (Error ''already deleted!'')"
proof (cases "UTXO_abs u idx")
  case None
  with UTXO_spendCoins_cases [OF assms, of idx] show ?thesis by simp
next
  case (Some c)
  then obtain u' where u': "UTXO_spendCoins idx u = Inr u'" "UTXO_wf u'" "UTXO_abs u' = (UTXO_abs u)(idx := None)"
    using UTXO_spendCoins_cases [OF assms, of idx] by auto
  with UTXO_spendCoins_cases [OF u'(2), of idx] Some show ?thesis by simp
qed

theorem UTXO_spend_refines_witness:
  "UTXO_wf ex_utxo \<and> (case UTXO_spendCoins 2 ex_utxo of Inl _ \<Rightarrow> False | Inr u' \<Rightarrow> UTXO_wf u')"
  using UTXO_spend_refines [OF ex_utxo_wf, of 2] ex_utxo_wf
  by (auto simp: ex_utxo_def UTXO_abs_def split: sum.splits)

text \<open>C38: Two UTXOs compare equal exactly when they hold the same coins at the same indexes, in whatever
  order they were added; the comparison never throws on well-formed UTXOs.\<close>

theorem UTXO_equals_iff_same_coins:
  assumes "UTXO_wf u" and "UTXO_wf v"
  shows "UTXO_equals u v = Inr (UTXO_abs u = UTXO_abs v)"
  using assms by (rule UTXO_equals_abs)

theorem UTXO_equals_iff_same_coins_witness:
  "UTXO_equals ex_utxo
     (ex_utxo\<lparr>utxo_arrIndexes := rev (utxo_arrIndexes ex_utxo), utxo_arrOutputs := rev (utxo_arrOutputs ex_utxo)\<rparr>)
   = Inr True"
proof -
  let ?v = "ex_utxo\<lparr>utxo_arrIndexes := rev (utxo_arrIndexes ex_utxo), utxo_arrOutputs := rev (utxo_arrOutputs ex_utxo)\<rparr>"
  have "UTXO_wf ?v" by (simp add: UTXO_wf_def ex_utxo_def)
  moreover have "UTXO_abs ex_utxo = UTXO_abs ?v" by (auto simp: UTXO_abs_def ex_utxo_def)
  ultimately show ?thesis using UTXO_equals_iff_same_coins [OF ex_utxo_wf] by simp
qed

section \<open>Receipts\<close>

text \<open>A receipt finds the coins of the internal transaction added last under that transaction's
  hash, keeps what it said of every other, and stays a pair of parallel arrays.\<close>

theorem TxReceipt_lookup_after_add:
  assumes "TxReceipt_wf r" and "TxReceipt_addInternalUtxo u r = Inr t"
    and "utxo_txHash u \<notin> set (rc_internalTxns r)"
  shows "TxReceipt_wf t \<and> TxReceipt_getCoinsForTx h t =
     (if h = utxo_txHash u then UTXO_coinsAtIndex u 0 else TxReceipt_getCoinsForTx h r)"
  using assms TxReceipt_addInternal_get TxReceipt_wf_add by blast

theorem TxReceipt_lookup_after_add_witness:
  "\<exists>t. TxReceipt_addInternalUtxo ex_utxo (TxReceipt_new [] 0 TX_STATUS_OK []) = Inr t \<and>
     TxReceipt_getCoinsForTx (ex_hash CHR ''1'') t = Inr (Coins_new 500 (ex_addr CHR ''a''))"
proof -
  obtain t where t: "TxReceipt_addInternalUtxo ex_utxo (TxReceipt_new [] 0 TX_STATUS_OK []) = Inr t"
    by (simp add: TxReceipt_addInternalUtxo_def UTXO_coinsAtIndex_def ex_utxo_def)
  have "TxReceipt_getCoinsForTx (ex_hash CHR ''1'') t = UTXO_coinsAtIndex ex_utxo 0"
    using TxReceipt_lookup_after_add [OF TxReceipt_wf_new t, of "ex_hash CHR ''1''"]
    by (simp add: TxReceipt_new_def ex_utxo_def)
  with t show ?thesis by (simp add: UTXO_coinsAtIndex_def ex_utxo_def)
qed

section \<open>Contracts\<close>


definition ex_contract :: "string contract" where
  "ex_contract = Contract_new ex_serializers (Some ''data'') (Some [(''inc'', ''(){}'')]) (Some 1) 900
     (Some (ex_addr CHR ''c'')) CONTRACT_V_V8"


text \<open>A withdrawal takes exactly the amount out of the balance and never takes it below zero: it is
  refused, and the contract left alone, when the balance does not cover the amount.\<close>

theorem Contract_withdraw_bounds:
  shows "case Contract_withdraw n c of
      Inl e \<Rightarrow> e = Error ''Insufficient funds!'' \<and> Contract_getBalance c < n
    | Inr c' \<Rightarrow> Contract_getBalance c' = Contract_getBalance c - n \<and> 0 \<le> Contract_getBalance c' \<and>
        Contract_getData S c' = mapR (\<lambda>(d, c1). (d, c1\<lparr>ct_balance := ct_balance c - n\<rparr>)) (Contract_getData S c)"
  by (cases "ct_cacheData c"; cases "Contract_deserialize S c")
     (auto simp: Contract_withdraw_def Contract_getBalance_def Contract_deposit_def Contract_getData_def
       Contract_deserialize_def Contract_getVersion_def split: if_splits)

section \<open>Transactions\<close>


definition ex_tx :: tx where
  "ex_tx = \<lparr>tx_payload = \<lparr>pl_version = 1, pl_conciliumId = 1,
      pl_ins = [\<lparr>in_txHash = ex_hash CHR ''1'', in_nTxOutput = 0\<rparr>],
      pl_outs = [plainOutput 300 (ex_addr CHR ''b''), plainOutput 100 (ex_addr CHR ''c'')]\<rparr>,
    tx_claimProofs = [], tx_txSignature = None\<rparr>"


text \<open>C39: Claiming an input signs the transaction's hash without changing it, and closes the transaction:
  no input or receiver can be added afterwards.\<close>

theorem Transaction_claim_locks:
  assumes "Transaction_claim C idx key t = Inr t'"
  shows "Transaction_getHash C t' = Transaction_getHash C t \<and>
    tx_claimProofs t' ! idx = Some (cr_sign C (Transaction_getHash C t) key) \<and>
    Transaction_addInput h i t' \<noteq> Inr t'' \<and> Transaction_addReceiver n a t' \<noteq> Inr t''"
  using Transaction_hash_claim [OF assms] Transaction_claim_done [OF assms] assms
  by (auto simp: Transaction_addInput_def Transaction_addReceiver_def Transaction_claim_def assignAt_nth
      split: if_splits sum.splits)

theorem Transaction_claim_locks_witness:
  "\<exists>t'. Transaction_claim ex_crypto 0 ''a'' ex_tx = Inr t' \<and>
     Transaction_getHash ex_crypto t' = Transaction_getHash ex_crypto ex_tx"
proof -
  obtain t' where "Transaction_claim ex_crypto 0 ''a'' ex_tx = Inr t'"
    by (simp add: Transaction_claim_def ex_tx_def Transaction_inputs_def)
  with Transaction_claim_locks [OF this] show ?thesis by blast
qed

section \<open>Blocks\<close>

text \<open>C26: \<open>finish\<close> puts a coinbase in front that pays out exactly the fees of the block, whatever share
  goes to the foundation, and leaves the other transactions; the finished block refuses further
  transactions and, given parents, a height and signatures, passes \<open>verify\<close>; its coinbase passes
  \<open>verifyCoinbase\<close> for those fees and for no other amount.\<close>

theorem Block_finish_pays_fees:
  assumes "Block_finish C B now rnd fees rcv useful b = Inr b'"
  shows "(\<exists>cb. bl_txns b' = cb # bl_txns b \<and> Transaction_amountOut cb = fees \<and>
      (\<forall>n. Transaction_verifyCoinbase n cb = Inr () \<longleftrightarrow> n = fees)) \<and>
    Block_addTx t b' = Inl (Error ''This block was already final!'') \<and>
    (Block_parentHashes b \<noteq> [] \<longrightarrow> 0 < Block_getHeight b \<longrightarrow>
      Block_verify C B True (b'\<lparr>bl_signatures := s # sigs\<rparr>) = Inr ())"
proof -
  obtain cb where cb: "Block_finishCoinbase fees rcv useful rnd (Block_getConciliumId b) = Inr cb"
    and b': "bl_txns b' = cb # bl_txns b" "bl_final b'"
      "hd_merkleRoot (bl_header b') = bc_merkleRoot B (Block_getTxHashes C b')"
      "Block_parentHashes b' = Block_parentHashes b" "Block_getHeight b' = Block_getHeight b"
    using Block_finish_Inr [OF assms] by blast
  note c = Block_finishCoinbase_Inr [OF cb]
  have "Transaction_isCoinbase cb" using c(1) by (simp add: openCoinbase_def)
  then have "\<exists>cb. bl_txns b' = cb # bl_txns b \<and> Transaction_amountOut cb = fees \<and>
      (\<forall>n. Transaction_verifyCoinbase n cb = Inr () \<longleftrightarrow> n = fees)"
    using b'(1) c(2) by (auto simp: Transaction_verifyCoinbase_def assertR_def)
  moreover have "Block_addTx t b' = Inl (Error ''This block was already final!'')"
    using b'(2) by (simp add: Block_addTx_def)
  moreover have "Block_parentHashes b \<noteq> [] \<Longrightarrow> 0 < Block_getHeight b \<Longrightarrow>
      Block_verify C B True (b'\<lparr>bl_signatures := s # sigs\<rparr>) = Inr ()"
    using b' by (simp add: Block_verify_iff Block_parentHashes_def Block_getHeight_def Block_getTxHashes_def)
  ultimately show ?thesis by blast
qed

definition ex_block :: block where
  "ex_block = (Block_new 1)\<lparr>bl_header := (bl_header (Block_new 1))
      \<lparr>hd_parentHashes := [ex_hash CHR ''p''], hd_height := 7\<rparr>, bl_txns := [ex_tx]\<rparr>"

theorem Block_finish_pays_fees_witness:
  "\<exists>b' cb. Block_finish ex_crypto ex_block_crypto 5 (ex_addr CHR ''r'') 4000 (ex_addr CHR ''w'') 100 ex_block = Inr b' \<and>
     bl_txns b' = [cb, ex_tx] \<and> Transaction_verifyCoinbase 4000 cb = Inr () \<and>
     Block_verify ex_crypto ex_block_crypto True (b'\<lparr>bl_signatures := [replicate 130 CHR ''w'']\<rparr>) = Inr ()"
proof -
  have "isOk (Block_finishCoinbase 4000 (ex_addr CHR ''w'') 100 (ex_addr CHR ''r'') 1)"
    by (rule Block_finishCoinbase_ok) (simp_all add: ex_addr_def isAddress_def)
  then obtain b' where b': "Block_finish ex_crypto ex_block_crypto 5 (ex_addr CHR ''r'') 4000
      (ex_addr CHR ''w'') 100 ex_block = Inr b'"
    by (auto simp: Block_finish_def Block_buildTxTree_def ex_block_def Block_getConciliumId_def Block_new_def
        isOk_def ex_addr_def isAddress_def typeforce_def assertR_def Let_def split: sum.splits)
  from Block_finish_pays_fees [OF b', where s = "replicate 130 CHR ''w''" and sigs = "[]"] b'
  show ?thesis by (auto simp: ex_block_def Block_parentHashes_def Block_getHeight_def)
qed

lemma Block_hash_total:
  assumes "bl_final b" and "\<not> bl_building b" and "bl_txns b \<noteq> []"
  shows "\<exists>h b'. Block_hash C B b = Inr (h, b') \<and> bl_final b' \<and> \<not> bl_building b' \<and> bl_txns b' \<noteq> []"
  using assms by (cases "bl_hashCache b") (auto simp: Block_hash_def Block_buildTxTree_def Let_def)

text \<open>C40: The hash of a finished block is the hash of its header with the Merkle root of the transactions
  it now has: the cache that \<open>hash\<close> keeps is dropped by \<open>addTx\<close>, by setting the parents and by
  \<open>finish\<close>, so no stale hash is returned on these paths.\<close>

theorem Block_hash_is_fresh:
  assumes "Block_finish C B now rnd fees rcv useful b = Inr b'"
    and "Block_hash C B b' = Inr (h1, b1)" and "Block_hash C B b1 = Inr (h2, b2)"
  shows "h1 = bc_headerHash B ((bl_header b')\<lparr>hd_merkleRoot := bc_merkleRoot B (Block_getTxHashes C b')\<rparr>) \<and>
    h2 = h1 \<and> bl_txns b2 = bl_txns b'"
proof -
  have f: "bl_final b'" "\<not> bl_building b'" using Block_finish_Inr [OF assms(1)] by blast+
  have "h1 = bc_headerHash B ((bl_header b')\<lparr>hd_merkleRoot := bc_merkleRoot B (Block_getTxHashes C b')\<rparr>)"
    by (rule Block_hash_fresh [OF Block_cacheOk_finish [OF assms(1)] f assms(2)])
  moreover have "h2 = h1 \<and> bl_txns b2 = bl_txns b'"
    using assms(2,3) f by (auto simp: Block_hash_def Let_def split: option.splits)
  ultimately show ?thesis by blast
qed

theorem Block_hash_is_fresh_witness:
  "\<exists>b' b1 b2. Block_finish ex_crypto ex_block_crypto 5 (ex_addr CHR ''r'') 0 (ex_addr CHR ''w'') 100 ex_block = Inr b' \<and>
     Block_hash ex_crypto ex_block_crypto b' = Inr (ex_hash CHR ''b'', b1) \<and>
     Block_hash ex_crypto ex_block_crypto b1 = Inr (ex_hash CHR ''b'', b2) \<and> bl_txns b2 = bl_txns b'"
proof -
  obtain b' where b': "Block_finish ex_crypto ex_block_crypto 5 (ex_addr CHR ''r'') 0
      (ex_addr CHR ''w'') 100 ex_block = Inr b'"
    by (simp add: Block_finish_def Block_finishCoinbase_def Transaction_createCoinbase_eq Block_buildTxTree_def
        ex_addr_def isAddress_def typeforce_def assertR_def Let_def)
  have f: "bl_final b'" "\<not> bl_building b'" "bl_txns b' \<noteq> []" using Block_finish_Inr [OF b'] by auto
  from Block_hash_total [OF f] obtain h1 b1 where h1: "Block_hash ex_crypto ex_block_crypto b' = Inr (h1, b1)"
    and f1: "bl_final b1" "\<not> bl_building b1" "bl_txns b1 \<noteq> []" by blast
  from Block_hash_total [OF f1] obtain h2 b2 where h2: "Block_hash ex_crypto ex_block_crypto b1 = Inr (h2, b2)"
    by blast
  from Block_hash_is_fresh [OF b' h1 h2] b' h1 h2 show ?thesis by (auto simp: ex_block_crypto_def)
qed

end
