(* ===== verification/Cil_Bft.thy ===== *)
theory Cil_Bft
  imports Cil_Concilium Cil_Block
begin

text \<open>
  \<open>src/node/bftConsensus.js\<close>: the voting of one concilium. Each witness keeps what every member
  told it about every member (\<open>bf_views\<close>), takes the majority per member and then over the
  members, and moves through the states \<open>ROUND_CHANGE\<close>, \<open>BLOCK\<close>, \<open>VOTE_BLOCK\<close>, \<open>COMMIT\<close>. The
  events it emits are appended to \<open>bf_emitted\<close>; the timer is the time it was last set to. Hashing
  a value, the order \<open>sort\<close> gives buffers, the clock and the key recovery are parameters.
\<close>

section \<open>State\<close>

datatype bft_state = ROUND_CHANGE | BLOCK | VOTE_BLOCK | COMMIT

text \<open>\<open>{state, ...content}\<close>: a round message has a round, a vote a block hash and a signature.\<close>

record view_value =
  vv_state :: bft_state
  vv_roundNo :: "int option"
  vv_blockHash :: "string option"
  vv_signature :: "string option"

datatype 'd bft_event =
    EmitNextRound nat int
  | EmitBlockVote nat string
  | EmitCreateBlock
  | EmitCommitBlock block "'d option"

type_synonym bft_views = "(addr, (addr, view_value) jsmap) jsmap"

record 'd bft =
  bf_concilium :: concilium
  bf_walletAddress :: addr
  bf_arrAddresses :: "addr list"
  bf_state :: bft_state
  bf_views :: bft_views
  bf_prevViews :: "bft_views option"
  bf_block :: "block option"
  bf_patch :: "'d option"
  bf_lastBlockTime :: int
  bf_timeout :: int
  bf_networkOffset :: int
  bf_emitted :: "'d bft_event list"

record bft_env =
  be_crypto :: crypto
  be_blockCrypto :: block_crypto
  be_dataHash :: "view_value \<Rightarrow> hash"
  be_sort :: "addr list \<Rightarrow> addr list"
  be_now :: int

definition bft_Timeouts :: "bft_state \<Rightarrow> int" where
  "bft_Timeouts s = (case s of ROUND_CHANGE \<Rightarrow> 20000 | BLOCK \<Rightarrow> 30000 | VOTE_BLOCK \<Rightarrow> 20000 | COMMIT \<Rightarrow> 30000)"

definition WITNESS_HOLDOFF :: int where "WITNESS_HOLDOFF = 2 * 60 * 1000"

text \<open>The vote against a block: the bytes of the word \<open>reject\<close>.\<close>

definition REJECT :: string where "REJECT = ''72656a656374''"

section \<open>Views and majorities\<close>

definition Bft_emptyViews :: "addr list \<Rightarrow> bft_views" where
  "Bft_emptyViews as = fold (\<lambda>a. jset a []) as []"

definition Bft_resetState :: "'d bft \<Rightarrow> 'd bft" where
  "Bft_resetState s =
     s\<lparr>bf_prevViews := Some (bf_views s), bf_views := Bft_emptyViews (bf_arrAddresses s)\<rparr>"

definition Bft_new :: "bft_env \<Rightarrow> concilium \<Rightarrow> addr \<Rightarrow> 'd bft res" where
  "Bft_new E concilium walletAddress =
     bindR (Concilium_initRounds concilium) (\<lambda>c.
     let as = be_sort E (Concilium_getAddresses concilium)
     in Inr \<lparr>bf_concilium = c, bf_walletAddress = walletAddress, bf_arrAddresses = as,
          bf_state = ROUND_CHANGE, bf_views = Bft_emptyViews as, bf_prevViews = None,
          bf_block = None, bf_patch = None, bf_lastBlockTime = be_now E,
          bf_timeout = bft_Timeouts ROUND_CHANGE, bf_networkOffset = 0, bf_emitted = []\<rparr>)"

definition Bft_checkAddresses :: "'d bft \<Rightarrow> addr \<Rightarrow> bool" where
  "Bft_checkAddresses s address = (address \<in> set (bf_arrAddresses s))"

definition Bft_addViewOfNodeWithAddr :: "addr \<Rightarrow> addr \<Rightarrow> view_value \<Rightarrow> 'd bft \<Rightarrow> 'd bft res" where
  "Bft_addViewOfNodeWithAddr addr addrI dataI s =
     (case jget (bf_views s) addr of
        None \<Rightarrow> Inl (TypeError ''Cannot set property'')
      | Some v \<Rightarrow> Inr (s\<lparr>bf_views := jset addr (jset addrI dataI v) (bf_views s)\<rparr>))"

text \<open>What the members said about \<open>addrI\<close>, in the order of the addresses.\<close>

definition Bft_witnessData :: "addr list \<Rightarrow> bft_views \<Rightarrow> addr \<Rightarrow> view_value option list res" where
  "Bft_witnessData as views addrI =
     mapM (\<lambda>addrJ. case jget views addrJ of
             None \<Rightarrow> Inl (TypeError ''Cannot read property'')
           | Some v \<Rightarrow> Inr (jget v addrI)) as"

definition Bft_calcDataHash :: "bft_env \<Rightarrow> view_value \<Rightarrow> hash" where
  "Bft_calcDataHash E data = be_dataHash E (data\<lparr>vv_signature := None\<rparr>)"

definition Bft_tallyOne ::
    "bft_env \<Rightarrow> concilium \<Rightarrow> addr \<times> view_value option \<Rightarrow> (hash, rat \<times> view_value) jsmap \<Rightarrow>
     (hash, rat \<times> view_value) jsmap res" where
  "Bft_tallyOne E c e objHashes =
     (case e of (addr, d) \<Rightarrow> case d of
        None \<Rightarrow> Inr objHashes
      | Some data \<Rightarrow>
          let h = Bft_calcDataHash E data
          in bindR (Concilium_getWitnessWeight addr c) (\<lambda>weight.
             Inr (case jget objHashes h of
                    None \<Rightarrow> jset h (weight, data) objHashes
                  | Some (cnt, value) \<Rightarrow> jset h (dbl (cnt + weight), value) objHashes)))"

definition Bft_best :: "(hash, rat \<times> view_value) jsmap \<Rightarrow> rat \<times> view_value option" where
  "Bft_best objHashes =
     fold (\<lambda>(_, (cnt, value)) (maxCount, majorityValue).
             if cnt > maxCount then (cnt, Some value) else (maxCount, majorityValue))
       objHashes (0, None)"

definition Bft_majority ::
    "bft_env \<Rightarrow> concilium \<Rightarrow> addr list \<Rightarrow> view_value option list \<Rightarrow> view_value option res" where
  "Bft_majority E c as arrData =
     bindR (foldR (Bft_tallyOne E c) (zip as arrData) []) (\<lambda>objHashes.
     case Bft_best objHashes of (cnt, majorityValue) \<Rightarrow>
     Inr (case Concilium_getQuorum c of
            None \<Rightarrow> None
          | Some q \<Rightarrow> if cnt \<ge> q then majorityValue else None))"

definition Bft_runConsensus :: "bft_env \<Rightarrow> 'd bft \<Rightarrow> view_value option res" where
  "Bft_runConsensus E s =
     (let as = bf_arrAddresses s; c = bf_concilium s
      in if Concilium_getMembersCount c = 1 \<and> bf_walletAddress s \<in> set as
         then (case jget (bf_views s) (bf_walletAddress s) of
                 None \<Rightarrow> Inl (TypeError ''Cannot read property'')
               | Some v \<Rightarrow> Inr (jget v (bf_walletAddress s)))
         else bindR (mapM (\<lambda>addrI. bindR (Bft_witnessData as (bf_views s) addrI) (Bft_majority E c as)) as)
                (Bft_majority E c as))"

section \<open>The state machine\<close>

definition Bft_emit :: "'d bft_event \<Rightarrow> (unit, 'd bft) act" where
  "Bft_emit ev s = (Inr (), s\<lparr>bf_emitted := bf_emitted s @ [ev]\<rparr>)"

definition Bft_setState :: "bft_state \<Rightarrow> (unit, 'd bft) act" where
  "Bft_setState x s = (Inr (), s\<lparr>bf_state := x\<rparr>)"

definition Bft_adjustTimer :: "(unit, 'd bft) act" where
  "Bft_adjustTimer s = (Inr (), s\<lparr>bf_timeout := bft_Timeouts (bf_state s)\<rparr>)"

definition Bft_shouldPublish :: "addr \<Rightarrow> 'd bft \<Rightarrow> bool res" where
  "Bft_shouldPublish proposer s =
     mapR (\<lambda>a. a = proposer) (Concilium_getProposerAddress (bf_concilium s))"

definition Bft_timeForWitnessBlock :: "bft_env \<Rightarrow> 'd bft \<Rightarrow> bool" where
  "Bft_timeForWitnessBlock E s = (be_now E - bf_lastBlockTime s > WITNESS_HOLDOFF)"

definition Bft_updConcilium :: "(concilium \<Rightarrow> ('a \<times> concilium) res) \<Rightarrow> ('a, 'd bft) act" where
  "Bft_updConcilium f s =
     (case f (bf_concilium s) of Inl e \<Rightarrow> (Inl e, s) | Inr (x, c) \<Rightarrow> (Inr x, s\<lparr>bf_concilium := c\<rparr>))"

definition Bft_nextRound :: "bool \<Rightarrow> (unit, 'd bft) act" where
  "Bft_nextRound bShouldAdvanceRound s =
     (let s1 = s\<lparr>bf_block := None, bf_state := ROUND_CHANGE\<rparr>
      in bindS (liftS (Concilium_getRound (bf_concilium s1))) (\<lambda>_.
         bindS (Bft_updConcilium (\<lambda>c.
                  if bShouldAdvanceRound then Concilium_nextRound c
                  else bindR (Concilium_initRounds c) (\<lambda>c'.
                       bindR (Concilium_getRound c') (\<lambda>r. Inr (r, c'))))) (\<lambda>nRoundNo.
         Bft_emit (EmitNextRound (Concilium_getConciliumId (bf_concilium s1)) nRoundNo))) s1)"

definition Bft_blockStateHandler :: "bool \<Rightarrow> (unit, 'd bft) act" where
  "Bft_blockStateHandler isValid = (if isValid then Bft_setState VOTE_BLOCK else Bft_nextRound True)"

text \<open>\<open>adjustRound\<close> of an \<open>undefined\<close> round leaves the concilium's counters.\<close>

definition Bft_roundChangeHandler :: "bool \<Rightarrow> view_value option \<Rightarrow> (unit, 'd bft) act" where
  "Bft_roundChangeHandler isConsensus consensusValue s =
     (if \<not> isConsensus then Bft_nextRound False s
      else if bf_state s = BLOCK then (Inr (), s)
      else (case consensusValue of
              None \<Rightarrow> (Inl (TypeError ''Cannot read property''), s)
            | Some v \<Rightarrow>
                bindS (Bft_updConcilium (\<lambda>c. mapR (\<lambda>c'. ((), c'))
                         (case vv_roundNo v of Some r \<Rightarrow> Concilium_adjustRound r c | None \<Rightarrow> Inr c))) (\<lambda>_.
                bindS (Bft_setState BLOCK) (\<lambda>_ s.
                (case Bft_shouldPublish (bf_walletAddress s) s of
                   Inl e \<Rightarrow> (Inl e, s)
                 | Inr b \<Rightarrow> if b then Bft_emit EmitCreateBlock s else (Inr (), s)))) s))"

definition Bft_blockHash :: "bft_env \<Rightarrow> block \<Rightarrow> hash res" where
  "Bft_blockHash E b = mapR fst (Block_hash (be_crypto E) (be_blockCrypto E) b)"

text \<open>One address of the loop that gathers signatures: its vote, and what a vote adds.\<close>

definition Bft_acceptVote ::
    "bft_env \<Rightarrow> concilium \<Rightarrow> hash \<Rightarrow> addr \<Rightarrow> view_value \<Rightarrow> string list \<times> rat \<Rightarrow> (string list \<times> rat) res"
where
  "Bft_acceptVote E c blockHash addrI v acc =
     (case (vv_blockHash v, vv_signature v) of
        (Some h, Some sig) \<Rightarrow>
          if h = blockHash then
            bindR (cr_recoverPubKey (be_crypto E) blockHash sig) (\<lambda>pubKey.
            if addrI = cr_getAddress (be_crypto E) pubKey
            then bindR (Concilium_getWitnessWeight addrI c) (\<lambda>w. Inr (fst acc @ [sig], dbl (snd acc + w)))
            else Inr acc)
          else Inr acc
      | _ \<Rightarrow> Inr acc)"

definition Bft_gatherOne ::
    "bft_env \<Rightarrow> 'd bft \<Rightarrow> hash \<Rightarrow> addr \<Rightarrow> string list \<times> rat \<Rightarrow> (string list \<times> rat) res" where
  "Bft_gatherOne E s blockHash addrI acc =
     (case bf_prevViews s of
        None \<Rightarrow> Inl (AssertionError ''Unexpected views error'')
      | Some views \<Rightarrow>
     bindR (Bft_witnessData (bf_arrAddresses s) views addrI) (\<lambda>arrData.
     bindR (Bft_majority E (bf_concilium s) (bf_arrAddresses s) arrData) (\<lambda>votedValue.
     case votedValue of
       None \<Rightarrow> Inr acc
     | Some v \<Rightarrow> Bft_acceptVote E (bf_concilium s) blockHash addrI v acc)))"

definition Bft_getSignaturesForBlock :: "bft_env \<Rightarrow> 'd bft \<Rightarrow> string list option res" where
  "Bft_getSignaturesForBlock E s =
     (case bf_block s of
        None \<Rightarrow> Inl (Error ''No block stored!'')
      | Some b \<Rightarrow>
          bindR (Bft_blockHash E b) (\<lambda>blockHash.
          bindR (foldR (Bft_gatherOne E s blockHash) (bf_arrAddresses s) ([], 0))
            (\<lambda>(arrSignatures, gatheredWeight).
          case Concilium_getQuorum (bf_concilium s) of
            None \<Rightarrow> Inl (AssertionError ''Quorum couldn't be zero!'')
          | Some quorum \<Rightarrow>
              bindR (assertR (quorum \<noteq> 0) (AssertionError ''Quorum couldn't be zero!'')) (\<lambda>_.
              Inr (if gatheredWeight \<ge> quorum then Some arrSignatures else None)))))"

definition Bft_commit :: "bft_env \<Rightarrow> block \<Rightarrow> (unit, 'd bft) act" where
  "Bft_commit E b s =
     (case Bft_getSignaturesForBlock E s of
        Inl e \<Rightarrow> (Inl e, s)
      | Inr None \<Rightarrow> Bft_nextRound True s
      | Inr (Some sigs) \<Rightarrow>
          if sigs = [] then Bft_nextRound True s
          else (case Block_addWitnessSignatures sigs b of
                  Inl e \<Rightarrow> (Inl e, s)
                | Inr b' \<Rightarrow> Bft_emit (EmitCommitBlock b' (bf_patch s)) (s\<lparr>bf_block := Some b'\<rparr>)))"

definition Bft_voteStateHandler :: "bft_env \<Rightarrow> bool \<Rightarrow> view_value option \<Rightarrow> (unit, 'd bft) act" where
  "Bft_voteStateHandler E isConsensus consensusValue s =
     (if \<not> isConsensus then Bft_nextRound True s
      else (case consensusValue of
              None \<Rightarrow> (Inl (TypeError ''Cannot read property''), s)
            | Some v \<Rightarrow>
                if vv_blockHash v = Some REJECT then Bft_nextRound True s
                else let s1 = s\<lparr>bf_state := COMMIT\<rparr>
                     in (case bf_block s1 of
                           None \<Rightarrow> (Inr (), s1)
                         | Some b \<Rightarrow>
                             (case vv_blockHash v of
                                None \<Rightarrow> (Inl (TypeError ''Cannot read property''), s1)
                              | Some h \<Rightarrow>
                                  (case Bft_blockHash E b of
                                     Inl e \<Rightarrow> (Inl e, s1)
                                   | Inr bh \<Rightarrow>
                                       if h = bh then Bft_commit E b s1
                                       else liftS (bindR (Concilium_getRound (bf_concilium s1)) (\<lambda>_.
                                              mapR (\<lambda>_. ()) (Concilium_getProposerAddress (bf_concilium s1)))) s1)))))"

text \<open>Called when the timer expires (\<open>isConsensus\<close> false) and when a consensus is reached.\<close>

definition Bft_stateChange :: "bft_env \<Rightarrow> bool \<Rightarrow> view_value option \<Rightarrow> (unit, 'd bft) act" where
  "Bft_stateChange E isConsensus consensusValue s =
     (let s1 = (case consensusValue of
                  Some v \<Rightarrow> if isConsensus then s\<lparr>bf_state := vv_state v,
                                 bf_timeout := bft_Timeouts (vv_state v)\<rparr> else s
                | None \<Rightarrow> s);
          prevState = bf_state s1
      in bindS (case prevState of
                  ROUND_CHANGE \<Rightarrow> Bft_roundChangeHandler isConsensus consensusValue
                | BLOCK \<Rightarrow> Bft_blockStateHandler False
                | VOTE_BLOCK \<Rightarrow> Bft_voteStateHandler E isConsensus consensusValue
                | COMMIT \<Rightarrow> Bft_nextRound True)
           (\<lambda>_ s2. if prevState \<noteq> bf_state s2 then Bft_adjustTimer s2 else (Inr (), s2)) s1)"

text \<open>
  A message as it arrives: the address its signature was made with and its kind. An exposed
  message carries another one, signed by its own author.
\<close>

datatype witness_msg =
    MsgNextRound addr int
  | MsgBlockVote addr string "string option"
  | MsgExpose addr witness_msg
  | MsgOther addr

fun witness_msg_address :: "witness_msg \<Rightarrow> addr" where
  "witness_msg_address (MsgNextRound a _) = a"
| "witness_msg_address (MsgBlockVote a _ _) = a"
| "witness_msg_address (MsgExpose a _) = a"
| "witness_msg_address (MsgOther a) = a"

fun Bft_stateFromMessage :: "witness_msg \<Rightarrow> view_value option" where
  "Bft_stateFromMessage (MsgBlockVote _ h sig) =
     Some \<lparr>vv_state = VOTE_BLOCK, vv_roundNo = None, vv_blockHash = Some h, vv_signature = sig\<rparr>"
| "Bft_stateFromMessage (MsgNextRound _ r) =
     Some \<lparr>vv_state = ROUND_CHANGE, vv_roundNo = Some r, vv_blockHash = None, vv_signature = None\<rparr>"
| "Bft_stateFromMessage _ = None"

text \<open>The result is \<open>Some False\<close> when there is no consensus yet, \<open>None\<close> (\<open>undefined\<close>) otherwise.\<close>

definition Bft_processMessage :: "bft_env \<Rightarrow> witness_msg \<Rightarrow> (bool option, 'd bft) act" where
  "Bft_processMessage E witnessMsg s =
     (let senderAddr = witness_msg_address witnessMsg;
          msg = (case witnessMsg of MsgExpose _ m \<Rightarrow> m | m \<Rightarrow> m);
          addrI = witness_msg_address msg
      in case Bft_stateFromMessage msg of
           None \<Rightarrow> (Inr None, s)
         | Some content \<Rightarrow>
             if \<not> Bft_checkAddresses s senderAddr \<or> \<not> Bft_checkAddresses s addrI
             then (Inl (Error ''Message from wrong address''), s)
             else (case Bft_addViewOfNodeWithAddr senderAddr addrI content s of
                     Inl e \<Rightarrow> (Inl e, s)
                   | Inr s1 \<Rightarrow>
                       (case Bft_runConsensus E s1 of
                          Inl e \<Rightarrow> (Inl e, s1)
                        | Inr None \<Rightarrow> (Inr (Some False), s1)
                        | Inr (Some value) \<Rightarrow>
                            bindS (Bft_stateChange E True (Some value)) (\<lambda>_. returnS None)
                              (Bft_resetState s1))))"

definition Bft_processValidBlock :: "bft_env \<Rightarrow> block \<Rightarrow> 'd option \<Rightarrow> (unit, 'd bft) act" where
  "Bft_processValidBlock E b patch s =
     (case Bft_blockHash E b of
        Inl e \<Rightarrow> (Inl e, s)
      | Inr h \<Rightarrow>
          if bf_state s \<noteq> BLOCK then (Inr (), s)
          else bindS (Bft_blockStateHandler True) (\<lambda>_.
               Bft_emit (EmitBlockVote (Concilium_getConciliumId (bf_concilium s)) h))
                 (s\<lparr>bf_block := Some b, bf_patch := patch, bf_lastBlockTime := be_now E\<rparr>))"

definition Bft_invalidBlock :: "(unit, 'd bft) act" where
  "Bft_invalidBlock s =
     (if bf_state s \<noteq> BLOCK then (Inr (), s)
      else bindS (Bft_blockStateHandler False) (\<lambda>_.
           Bft_emit (EmitBlockVote (Concilium_getConciliumId (bf_concilium s)) REJECT))
             (s\<lparr>bf_block := None\<rparr>))"

definition Bft_setRoundSeed :: "int \<Rightarrow> 'd bft \<Rightarrow> 'd bft" where
  "Bft_setRoundSeed nNewSeed s = s\<lparr>bf_concilium := Concilium_changeSeed nNewSeed (bf_concilium s)\<rparr>"

definition Bft_getCurrentRound :: "'d bft \<Rightarrow> int res" where
  "Bft_getCurrentRound s = Concilium_getRound (bf_concilium s)"

end
