(* ===== verification/Cil_Bft_Laws.thy ===== *)
theory Cil_Bft_Laws
  imports Cil_Bft "HOL-Library.Multiset"
begin

text \<open>
  The contract of \<open>src/node/bftConsensus.js\<close>: what a majority value is, when \<open>runConsensus\<close> finds
  one, what stands behind a committed block, and the invariant of the state machine.
\<close>

section \<open>Majorities\<close>

text \<open>Who voted for the value with hash \<open>h\<close>, and their weights as the code adds them up.\<close>

definition Bft_votesFor :: "bft_env \<Rightarrow> hash \<Rightarrow> addr \<times> view_value option \<Rightarrow> bool" where
  "Bft_votesFor E h z = (case snd z of None \<Rightarrow> False | Some d \<Rightarrow> Bft_calcDataHash E d = h)"

definition Bft_voters :: "bft_env \<Rightarrow> addr list \<Rightarrow> view_value option list \<Rightarrow> hash \<Rightarrow> addr list" where
  "Bft_voters E as ds h = map fst (filter (Bft_votesFor E h) (zip as ds))"

definition Bft_weightOf :: "bft_env \<Rightarrow> concilium \<Rightarrow> addr list \<Rightarrow> view_value option list \<Rightarrow> hash \<Rightarrow> rat" where
  "Bft_weightOf E c as ds h = dsum (map (Concilium_weight c) (Bft_voters E as ds h))"

definition Bft_votingOk :: "concilium \<times> addr list \<Rightarrow> bool" where
  "Bft_votingOk ca \<longleftrightarrow> Concilium_ok (fst ca) \<and> mset (snd ca) = mset (Concilium_getAddresses (fst ca))"

interpretation bv: voting snd "\<lambda>ca. Concilium_weight (fst ca)" "\<lambda>ca. Concilium_getQuorum (fst ca)" Bft_votingOk
proof unfold_locales
  fix ca :: "concilium \<times> addr list" and a
  assume "Bft_votingOk ca" and "a \<in> set (snd ca)"
  then have "Concilium_ok (fst ca)" "a \<in> set (Concilium_getAddresses (fst ca))"
    by (simp_all add: Bft_votingOk_def) (metis set_mset_mset)
  then show "0 < Concilium_weight (fst ca) a" and "dbl (Concilium_weight (fst ca) a) = Concilium_weight (fst ca) a"
    by (rule cv.weight_pos, rule cv.weight_double)
next
  fix ca :: "concilium \<times> addr list" and q xs ys
  assume "Bft_votingOk ca" and "Concilium_getQuorum (fst ca) = Some q" and "mset xs + mset ys \<subseteq># mset (snd ca)"
  then show "dsum (map (Concilium_weight (fst ca)) xs) + dsum (map (Concilium_weight (fst ca)) ys) < 2 * q"
    using cv.majority by (simp add: Bft_votingOk_def)
qed

lemma Concilium_getWitnessWeight_ok:
  assumes "Concilium_ok c" and "a \<in> set (Concilium_getAddresses c)"
  shows "Concilium_getWitnessWeight a c = Inr (Concilium_weight c a)"
proof (cases c)
  case (RR r)
  then show ?thesis by (simp add: Concilium_weight_def Rr_getWitnessWeight_def)
next
  case (POS p)
  with assms obtain m where "m \<in> set (ps_arrMembers p)" "a = pm_address m" "Pos_built p"
    by (auto simp: Pos_getAddresses_def Pos_ok_def)
  with POS Pos_weight_built [of p m] show ?thesis by (simp add: Concilium_weight_def)
qed

lemma Bft_weight_ok:
  "Bft_votingOk (c, as) \<Longrightarrow> a \<in> set as \<Longrightarrow> Concilium_getWitnessWeight a c = Inr (Concilium_weight c a)"
  using Concilium_getWitnessWeight_ok by (metis Bft_votingOk_def fst_conv snd_conv set_mset_mset)

text \<open>The table after any number of votes: per hash, the weight so far and a value voted for.\<close>

definition Bft_entryOk ::
    "bft_env \<Rightarrow> concilium \<Rightarrow> addr list \<Rightarrow> view_value option list \<Rightarrow> hash \<Rightarrow> (rat \<times> view_value) option \<Rightarrow> bool"
where
  "Bft_entryOk E c as ds h e \<longleftrightarrow>
     (case e of
        None \<Rightarrow> Bft_voters E as ds h = []
      | Some (cnt, v) \<Rightarrow> cnt = Bft_weightOf E c as ds h \<and> Bft_calcDataHash E v = h \<and> Some v \<in> set ds)"

definition Bft_tallyOk ::
    "bft_env \<Rightarrow> concilium \<Rightarrow> addr list \<Rightarrow> view_value option list \<Rightarrow> (hash, rat \<times> view_value) jsmap \<Rightarrow> bool" where
  "Bft_tallyOk E c as ds m \<longleftrightarrow> jwf m \<and> (\<forall>h. Bft_entryOk E c as ds h (jget m h))"

lemma Bft_voters_snoc:
  "length ds = length as \<Longrightarrow>
   Bft_voters E (as @ [a]) (ds @ [d]) h = Bft_voters E as ds h @ (if Bft_votesFor E h (a, d) then [a] else [])"
  by (simp add: Bft_voters_def)

lemma Bft_weightOf_snoc:
  "length ds = length as \<Longrightarrow>
   Bft_weightOf E c (as @ [a]) (ds @ [d]) h =
     (if Bft_votesFor E h (a, d) then dbl (Bft_weightOf E c as ds h + Concilium_weight c a)
      else Bft_weightOf E c as ds h)"
  by (simp add: Bft_weightOf_def Bft_voters_snoc)

lemma Bft_tallyOk_step:
  assumes ok: "Bft_tallyOk E c as ds m" and len: "length ds = length as"
    and w: "Concilium_getWitnessWeight a c = Inr (Concilium_weight c a)"
    and d2: "dbl (Concilium_weight c a) = Concilium_weight c a"
  shows "\<exists>m'. Bft_tallyOne E c (a, d) m = Inr m' \<and> Bft_tallyOk E c (as @ [a]) (ds @ [d]) m'"
proof (cases d)
  case None
  then have "Bft_entryOk E c (as @ [a]) (ds @ [d]) h e" if "Bft_entryOk E c as ds h e" for h e
    using that len
    by (cases e) (auto simp: Bft_entryOk_def Bft_weightOf_snoc Bft_voters_snoc Bft_votesFor_def)
  with ok None show ?thesis by (simp add: Bft_tallyOne_def Bft_tallyOk_def)
next
  case (Some x)
  let ?h = "Bft_calcDataHash E x"
  let ?m' = "case jget m ?h of None \<Rightarrow> jset ?h (Concilium_weight c a, x) m
             | Some (cnt, v) \<Rightarrow> jset ?h (dbl (cnt + Concilium_weight c a), v) m"
  have for_iff: "Bft_votesFor E h (a, d) \<longleftrightarrow> h = ?h" for h by (auto simp: Bft_votesFor_def Some)
  note snoc = Bft_weightOf_snoc [OF len, of E c a d] Bft_voters_snoc [OF len, of E a d]
  have here: "Bft_weightOf E c (as @ [a]) (ds @ [d]) ?h = dbl (Bft_weightOf E c as ds ?h + Concilium_weight c a)"
    by (simp add: snoc for_iff)
  have run: "Bft_tallyOne E c (a, d) m = Inr ?m'"
    using Some w by (simp add: Bft_tallyOne_def Let_def split: option.splits)
  have jw: "jwf ?m'" using ok by (auto simp: Bft_tallyOk_def split: option.splits)
  have "Bft_entryOk E c (as @ [a]) (ds @ [d]) h (jget ?m' h)" for h
  proof -
    have o: "Bft_entryOk E c as ds h (jget m h)" using ok by (simp add: Bft_tallyOk_def)
    show ?thesis
    proof (cases "h = ?h")
      case True
      show ?thesis
      proof (cases "jget m ?h")
        case None
        with o True have "Bft_weightOf E c as ds ?h = 0" by (simp add: Bft_entryOk_def Bft_weightOf_def)
        with here d2 have "Bft_weightOf E c (as @ [a]) (ds @ [d]) ?h = Concilium_weight c a" by simp
        with None True Some show ?thesis by (simp add: js_simps Bft_entryOk_def)
      next
        case (Some cv)
        obtain cnt v where cv: "cv = (cnt, v)" by fastforce
        with Some True o here \<open>d = Some x\<close> show ?thesis by (simp add: js_simps Bft_entryOk_def)
      qed
    next
      case False
      then have eq: "jget ?m' h = jget m h" by (simp add: js_simps split: option.splits)
      show ?thesis unfolding eq using o False
        by (simp add: Bft_entryOk_def snoc for_iff split: option.splits prod.splits)
    qed
  qed
  with run jw show ?thesis by (auto simp: Bft_tallyOk_def)
qed

lemma Bft_tally_ok:
  assumes "length ds = length as"
    and "\<forall>a\<in>set as. Concilium_getWitnessWeight a c = Inr (Concilium_weight c a) \<and>
      dbl (Concilium_weight c a) = Concilium_weight c a"
  shows "\<exists>m. foldR (Bft_tallyOne E c) (zip as ds) [] = Inr m \<and> Bft_tallyOk E c as ds m"
  using assms
proof (induction ds as rule: rev_induct2)
  case 1
  then show ?case by (simp add: Bft_tallyOk_def Bft_entryOk_def Bft_voters_def)
next
  case (4 d ds a as)
  then obtain m where m: "foldR (Bft_tallyOne E c) (zip as ds) [] = Inr m" "Bft_tallyOk E c as ds m"
    by auto
  have "Concilium_getWitnessWeight a c = Inr (Concilium_weight c a)"
    "dbl (Concilium_weight c a) = Concilium_weight c a" using 4 by simp_all
  from Bft_tallyOk_step [OF m(2) _ this] 4(2) m(1) show ?case
    by (simp add: foldR_append)
qed auto

lemma Bft_best_spec:
  fixes m :: "(hash, rat \<times> view_value) jsmap"
  assumes "Bft_best m = (n, r)"
  shows "(\<forall>(h, (k, v))\<in>set m. k \<le> n) \<and> 0 \<le> n \<and>
    (case r of None \<Rightarrow> n = 0 | Some v \<Rightarrow> 0 < n \<and> (\<exists>h. (h, (n, v)) \<in> set m))"
  using assms
proof (induction m arbitrary: n r rule: rev_induct)
  case (snoc e m)
  obtain h k v where e: "e = (h, (k, v))" by (cases e) auto
  obtain n0 r0 where b: "Bft_best m = (n0, r0)" by fastforce
  note IH = snoc.IH [OF b]
  have step: "Bft_best (m @ [e]) = (if n0 < k then (k, Some v) else (n0, r0))"
    using b by (simp add: Bft_best_def e)
  show ?case
  proof (cases "n0 < k")
    case True
    with step snoc.prems IH e show ?thesis by fastforce
  next
    case False
    with step snoc.prems IH e show ?thesis by (auto split: option.splits)
  qed
qed (simp add: Bft_best_def)

lemma Bft_majority_spec:
  assumes ok: "Bft_votingOk (c, as)" and len: "length ds = length as" and q: "Concilium_getQuorum c = Some q"
  shows "\<exists>r. Bft_majority E c as ds = Inr r \<and>
    (\<forall>v. r = Some v \<longrightarrow> Some v \<in> set ds \<and> q \<le> Bft_weightOf E c as ds (Bft_calcDataHash E v)) \<and>
    (\<forall>h. 0 < q \<longrightarrow> q \<le> Bft_weightOf E c as ds h \<longrightarrow> (\<exists>v. r = Some v \<and> Bft_calcDataHash E v = h))"
proof -
  obtain m where m: "foldR (Bft_tallyOne E c) (zip as ds) [] = Inr m" "Bft_tallyOk E c as ds m"
    using Bft_tally_ok [OF len] Bft_weight_ok [OF ok] bv.weight_double [OF ok] by (metis fst_conv snd_conv)
  obtain n r where b: "Bft_best m = (n, r)" by fastforce
  note B = Bft_best_spec [OF b]
  have jw: "jwf m" using m(2) by (simp add: Bft_tallyOk_def)
  have entry: "k = Bft_weightOf E c as ds h \<and> Bft_calcDataHash E v = h \<and> Some v \<in> set ds"
    if "(h, (k, v)) \<in> set m" for h k v
  proof -
    have "jget m h = Some (k, v)" using that jget_iff_in [OF jw] by blast
    moreover have "Bft_entryOk E c as ds h (jget m h)" using m(2) by (simp add: Bft_tallyOk_def)
    ultimately show ?thesis by (simp add: Bft_entryOk_def)
  qed
  have found: "\<exists>k v. (h, (k, v)) \<in> set m \<and> k = Bft_weightOf E c as ds h"
    if "0 < Bft_weightOf E c as ds h" for h
  proof -
    have "Bft_voters E as ds h \<noteq> []" using that by (auto simp: Bft_weightOf_def)
    moreover have "Bft_entryOk E c as ds h (jget m h)" using m(2) by (simp add: Bft_tallyOk_def)
    ultimately obtain kv where "jget m h = Some kv" by (cases "jget m h") (auto simp: Bft_entryOk_def)
    then show ?thesis using entry jget_Some_in by (metis surj_pair)
  qed
  let ?r = "if q \<le> n then r else None"
  have run: "Bft_majority E c as ds = Inr ?r"
    using m(1) b q by (simp add: Bft_majority_def)
  have one: "Some v \<in> set ds \<and> q \<le> Bft_weightOf E c as ds (Bft_calcDataHash E v)" if "?r = Some v" for v
  proof -
    from that have "q \<le> n" "r = Some v" by (simp_all split: if_splits)
    with B obtain h where "(h, (n, v)) \<in> set m" by auto
    from entry [OF this] \<open>q \<le> n\<close> show ?thesis by auto
  qed
  have "\<exists>v. ?r = Some v \<and> Bft_calcDataHash E v = h" if "0 < q" "q \<le> Bft_weightOf E c as ds h" for h
  proof -
    obtain k v where kv: "(h, (k, v)) \<in> set m" "k = Bft_weightOf E c as ds h"
      using found [of h] \<open>0 < q\<close> \<open>q \<le> Bft_weightOf E c as ds h\<close> by force
    then have "q \<le> n" using B \<open>q \<le> Bft_weightOf E c as ds h\<close> by fastforce
    then obtain w where w: "r = Some w" using B \<open>0 < q\<close> by (cases r) auto
    then have "q \<le> Bft_weightOf E c as ds (Bft_calcDataHash E w)" using one [of w] \<open>q \<le> n\<close> by simp
    then have "\<exists>z\<in>set (zip as ds). Bft_votesFor E h z \<and> Bft_votesFor E (Bft_calcDataHash E w) z"
      using bv.votes_meet [OF ok, of q ds "Bft_votesFor E h" "Bft_votesFor E (Bft_calcDataHash E w)"]
        q \<open>q \<le> Bft_weightOf E c as ds h\<close> len
      by (simp add: Bft_weightOf_def Bft_voters_def)
    then have "h = Bft_calcDataHash E w" by (auto simp: Bft_votesFor_def split: option.splits)
    with w \<open>q \<le> n\<close> show ?thesis by auto
  qed
  with run one show ?thesis by blast
qed

section \<open>The consensus value\<close>

definition Bft_viewsOk :: "addr list \<Rightarrow> bft_views \<Rightarrow> bool" where
  "Bft_viewsOk as views \<longleftrightarrow> (\<forall>a\<in>set as. jget views a \<noteq> None)"

definition Bft_view :: "bft_views \<Rightarrow> addr \<Rightarrow> addr \<Rightarrow> view_value option" where
  "Bft_view views a b = (case jget views a of None \<Rightarrow> None | Some v \<Rightarrow> jget v b)"

lemma Bft_witnessData_ok:
  "Bft_viewsOk as views \<Longrightarrow> Bft_witnessData as views b = Inr (map (\<lambda>a. Bft_view views a b) as)"
  unfolding Bft_witnessData_def
  by (rule mapM_pure) (auto simp: Bft_viewsOk_def Bft_view_def split: option.splits)

lemma mapM_rel:
  assumes "\<forall>x\<in>set xs. \<exists>y. f x = Inr y \<and> P x y"
  shows "\<exists>ys. mapM f xs = Inr ys \<and> length ys = length xs \<and> (\<forall>i<length xs. P (xs ! i) (ys ! i))"
  using assms
proof (induction xs)
  case (Cons x xs)
  then obtain y ys where "f x = Inr y" "P x y" "mapM f xs = Inr ys" "length ys = length xs"
    "\<forall>i<length xs. P (xs ! i) (ys ! i)" by auto
  then show ?case by (intro exI [of _ "y # ys"]) (auto simp: less_Suc_eq_0_disj)
qed simp

text \<open>
  If members with a quorum of the weight agree on what each of them said, that is the value of the
  consensus, whatever the other members told anybody.
\<close>

lemma filter_zip_nth:
  "length ds = length as \<Longrightarrow>
   map fst (filter P (zip as ds)) = map fst (filter (\<lambda>(a, i). P (a, ds ! i)) (zip as [0..<length as]))"
proof (induction ds as rule: rev_induct2)
  case (4 d ds a as)
  have "filter (\<lambda>(a, i). P (a, (ds @ [d]) ! i)) (zip as [0..<length as]) =
      filter (\<lambda>(a, i). P (a, ds ! i)) (zip as [0..<length as])"
    using 4 by (intro filter_cong refl) (auto simp: nth_append set_zip)
  with 4 show ?case by (simp add: zip_append nth_append)
qed auto

lemma Bft_weightOf_nths:
  assumes len: "length ds = length as" and pos: "\<forall>a\<in>set as. 0 \<le> Concilium_weight c a"
    and J: "\<forall>j\<in>J. \<exists>d. ds ! j = Some d \<and> Bft_calcDataHash E d = h"
  shows "dsum (map (Concilium_weight c) (nths as J)) \<le> Bft_weightOf E c as ds h"
proof -
  let ?f = "\<lambda>z :: addr \<times> nat. Concilium_weight c (fst z)"
  have "dsum (map ?f (filter (\<lambda>z. snd z \<in> J) (zip as [0..<length as]))) \<le>
      dsum (map ?f (filter (\<lambda>(a, i). Bft_votesFor E h (a, ds ! i)) (zip as [0..<length as])))"
    using pos J by (intro dsum_filter_mono) (auto simp: Bft_votesFor_def dest!: set_zip_leftD)
  then show ?thesis
    unfolding Bft_weightOf_def Bft_voters_def filter_zip_nth [OF len] nths_def by (simp add: comp_def)
qed

lemma Bft_runConsensus_agreed:
  assumes ok: "Bft_votingOk (bf_concilium s, bf_arrAddresses s)"
    and q: "Concilium_getQuorum (bf_concilium s) = Some q" "0 < q"
    and views: "Bft_viewsOk (bf_arrAddresses s) (bf_views s)"
    and many: "Concilium_getMembersCount (bf_concilium s) \<noteq> 1"
    and J: "J \<subseteq> {..<length (bf_arrAddresses s)}"
      "q \<le> dsum (map (Concilium_weight (bf_concilium s)) (nths (bf_arrAddresses s) J))"
    and agree: "\<forall>i\<in>J. \<forall>j\<in>J. \<exists>d. Bft_view (bf_views s) (bf_arrAddresses s ! j) (bf_arrAddresses s ! i) = Some d \<and>
      Bft_calcDataHash E d = h"
  shows "\<exists>v. Bft_runConsensus E s = Inr (Some v) \<and> Bft_calcDataHash E v = h"
proof -
  let ?as = "bf_arrAddresses s" and ?c = "bf_concilium s"
  let ?col = "\<lambda>b. map (\<lambda>a. Bft_view (bf_views s) a b) ?as"
  have pos: "\<forall>a\<in>set ?as. 0 \<le> Concilium_weight ?c a"
    using bv.weight_pos [OF ok] by (simp add: less_imp_le)
  have mono: "q \<le> Bft_weightOf E ?c ?as ds h"
    if "\<forall>j\<in>J. \<exists>d. ds ! j = Some d \<and> Bft_calcDataHash E d = h" "length ds = length ?as" for ds
    using J(2) Bft_weightOf_nths [OF that(2) pos that(1)] by simp
  have "\<forall>b\<in>set ?as. \<exists>y. bindR (Bft_witnessData ?as (bf_views s) b) (Bft_majority E ?c ?as) = Inr y \<and>
      ((\<exists>i\<in>J. b = ?as ! i) \<longrightarrow> (\<exists>v. y = Some v \<and> Bft_calcDataHash E v = h))"
  proof
    fix b assume "b \<in> set ?as"
    obtain r where r: "Bft_majority E ?c ?as (?col b) = Inr r"
      "0 < q \<longrightarrow> q \<le> Bft_weightOf E ?c ?as (?col b) h \<longrightarrow> (\<exists>v. r = Some v \<and> Bft_calcDataHash E v = h)"
      using Bft_majority_spec [OF ok _ q(1), of "?col b" E] by auto
    have "\<exists>v. r = Some v \<and> Bft_calcDataHash E v = h" if "\<exists>i\<in>J. b = ?as ! i"
    proof -
      from that obtain i where i: "i \<in> J" "b = ?as ! i" by blast
      have "\<forall>j\<in>J. \<exists>d. ?col b ! j = Some d \<and> Bft_calcDataHash E d = h" using agree i J(1) by auto
      from mono [OF this] r(2) q(2) show ?thesis by simp
    qed
    with r(1) show "\<exists>y. bindR (Bft_witnessData ?as (bf_views s) b) (Bft_majority E ?c ?as) = Inr y \<and>
      ((\<exists>i\<in>J. b = ?as ! i) \<longrightarrow> (\<exists>v. y = Some v \<and> Bft_calcDataHash E v = h))"
      by (simp add: Bft_witnessData_ok [OF views])
  qed
  from mapM_rel [OF this] obtain ys where ys:
    "mapM (\<lambda>b. bindR (Bft_witnessData ?as (bf_views s) b) (Bft_majority E ?c ?as)) ?as = Inr ys"
    "length ys = length ?as"
    "\<forall>i<length ?as. (\<exists>j\<in>J. ?as ! i = ?as ! j) \<longrightarrow> (\<exists>v. ys ! i = Some v \<and> Bft_calcDataHash E v = h)"
    by auto
  have "\<forall>j\<in>J. \<exists>d. ys ! j = Some d \<and> Bft_calcDataHash E d = h" using ys(2,3) J(1) by auto
  from mono [OF this ys(2)] Bft_majority_spec [OF ok ys(2) q(1), of E] q(2)
  show ?thesis using ys(1) many by (auto simp: Bft_runConsensus_def Let_def)
qed

section \<open>Committed blocks\<close>

text \<open>A signature a member really made on the block, as the code checks it.\<close>

definition Bft_signed :: "bft_env \<Rightarrow> hash \<Rightarrow> addr \<Rightarrow> string \<Rightarrow> bool" where
  "Bft_signed E blockHash a sig \<longleftrightarrow>
     (\<exists>pk. cr_recoverPubKey (be_crypto E) blockHash sig = Inr pk \<and> a = cr_getAddress (be_crypto E) pk)"

lemma Bft_acceptVote_Inr:
  assumes "Bft_acceptVote E c bh a v (sigs, w) = Inr (sigs', w')"
  shows "(sigs' = sigs \<and> w' = w) \<or>
    (\<exists>sig x. sigs' = sigs @ [sig] \<and> Bft_signed E bh a sig \<and>
       Concilium_getWitnessWeight a c = Inr x \<and> w' = dbl (w + x))"
  using assms
  by (auto simp: Bft_acceptVote_def Bft_signed_def split: option.splits if_splits)

lemma Bft_gatherOne_Inr:
  assumes "Bft_gatherOne E s bh a (sigs, w) = Inr (sigs', w')"
  shows "(sigs' = sigs \<and> w' = w) \<or>
    (\<exists>sig x. sigs' = sigs @ [sig] \<and> Bft_signed E bh a sig \<and>
       Concilium_getWitnessWeight a (bf_concilium s) = Inr x \<and> w' = dbl (w + x))"
proof -
  from assms have "(sigs', w') = (sigs, w) \<or>
      (\<exists>v. Bft_acceptVote E (bf_concilium s) bh a v (sigs, w) = Inr (sigs', w'))"
    by (auto simp: Bft_gatherOne_def split: option.splits)
  then show ?thesis by (auto dest: Bft_acceptVote_Inr)
qed

lemma Bft_gather_Inr:
  assumes "foldR (Bft_gatherOne E s bh) as (sigs, w) = Inr (sigs', w')"
  shows "\<exists>bs new. sigs' = sigs @ new \<and> length new = length bs \<and>
    mset bs \<subseteq># mset as \<and> (\<forall>i<length bs. Bft_signed E bh (bs ! i) (new ! i)) \<and>
    w' = foldl (\<lambda>a w. dbl (a + w)) w (map (Concilium_weight (bf_concilium s)) bs)"
  using assms
proof (induction as arbitrary: sigs w)
  case Nil
  then show ?case by (intro exI [of _ "[]"]) simp
next
  case (Cons a as)
  then obtain sigs1 w1 where s1: "Bft_gatherOne E s bh a (sigs, w) = Inr (sigs1, w1)"
    "foldR (Bft_gatherOne E s bh) as (sigs1, w1) = Inr (sigs', w')" by auto
  from Cons.IH [OF s1(2)] obtain bs new where IH: "sigs' = sigs1 @ new" "length new = length bs"
    "mset bs \<subseteq># mset as" "\<forall>i<length bs. Bft_signed E bh (bs ! i) (new ! i)"
    "w' = foldl (\<lambda>a w. dbl (a + w)) w1 (map (Concilium_weight (bf_concilium s)) bs)" by blast
  from Bft_gatherOne_Inr [OF s1(1)] show ?case
  proof (elim disjE exE conjE)
    assume "sigs1 = sigs" "w1 = w"
    with IH show ?thesis
      by (intro exI [of _ bs] exI [of _ new]) (auto intro: subset_mset.order_trans)
  next
    fix sig x assume n: "sigs1 = sigs @ [sig]" "Bft_signed E bh a sig"
      "Concilium_getWitnessWeight a (bf_concilium s) = Inr x" "w1 = dbl (w + x)"
    then have "Concilium_weight (bf_concilium s) a = x" by (simp add: Concilium_weight_def)
    with IH n show ?thesis
      by (intro exI [of _ "a # bs"] exI [of _ "sig # new"]) (auto simp: less_Suc_eq_0_disj)
  qed
qed

definition Bft_certified :: "bft_env \<Rightarrow> concilium \<Rightarrow> addr list \<Rightarrow> hash \<Rightarrow> string list \<Rightarrow> bool" where
  "Bft_certified E c as bh sigs \<longleftrightarrow>
     (\<exists>bs q. length sigs = length bs \<and> mset bs \<subseteq># mset as \<and>
        (\<forall>i<length bs. Bft_signed E bh (bs ! i) (sigs ! i)) \<and>
        Concilium_getQuorum c = Some q \<and> q \<le> dsum (map (Concilium_weight c) bs))"

lemma Bft_getSignatures_certified:
  assumes "Bft_getSignaturesForBlock E s = Inr (Some sigs)" and "bf_block s = Some b"
    and "Bft_blockHash E b = Inr bh"
  shows "Bft_certified E (bf_concilium s) (bf_arrAddresses s) bh sigs"
proof -
  from assms obtain w q where w: "foldR (Bft_gatherOne E s bh) (bf_arrAddresses s) ([], 0) = Inr (sigs, w)"
    "Concilium_getQuorum (bf_concilium s) = Some q" "q \<le> w"
    by (auto simp: Bft_getSignaturesForBlock_def split: option.splits if_splits)
  from Bft_gather_Inr [OF w(1)] w(2,3) show ?thesis by (auto simp: Bft_certified_def dsum_def)
qed

text \<open>The hash of a block does not depend on the signatures it carries.\<close>

lemma Bft_blockHash_sign:
  "Block_addWitnessSignatures sigs b = Inr b' \<Longrightarrow>
   Bft_blockHash E b' = Bft_blockHash E b \<and> bl_signatures b' = sigs"
  by (auto simp: Block_addWitnessSignatures_def Bft_blockHash_def Block_hash_def Block_buildTxTree_def
      Let_def split: option.splits)

definition Bft_commits :: "'d bft \<Rightarrow> (block \<times> 'd option) set" where
  "Bft_commits s = {(b, p). EmitCommitBlock b p \<in> set (bf_emitted s)}"

lemma Bft_commits_emit [simp]:
  "Bft_commits (s\<lparr>bf_emitted := bf_emitted s @ [ev]\<rparr>) =
     (case ev of EmitCommitBlock b p \<Rightarrow> insert (b, p) (Bft_commits s) | _ \<Rightarrow> Bft_commits s)"
  by (auto simp: Bft_commits_def split: bft_event.splits)

section \<open>What no step changes\<close>

text \<open>The part of a concilium the votes depend on; the round counters are not in it.\<close>

fun Concilium_core :: "concilium \<Rightarrow>
    (nat \<times> addr list \<times> int option) + (nat \<times> pos_member list \<times> rat list \<times> rat \<times> rat option)" where
  "Concilium_core (RR c) = Inl (cn_conciliumId c, rr_addresses c, rr_quorum c)"
| "Concilium_core (POS c) =
     Inr (cn_conciliumId c, ps_arrMembers c, ps_arrShares c, ps_totalSharesAmount c, ps_quorum c)"

lemma Concilium_core_cong:
  assumes "Concilium_core c = Concilium_core d"
  shows "Concilium_weight c = Concilium_weight d" and "Concilium_getQuorum c = Concilium_getQuorum d"
    and "Concilium_getAddresses c = Concilium_getAddresses d"
    and "Concilium_getConciliumId c = Concilium_getConciliumId d"
proof -
  have "Concilium_weight c = Concilium_weight d \<and> Concilium_getQuorum c = Concilium_getQuorum d \<and>
    Concilium_getAddresses c = Concilium_getAddresses d \<and>
    Concilium_getConciliumId c = Concilium_getConciliumId d"
  proof (cases c)
    case c: (RR r)
    then obtain r' where d: "d = RR r'" using assms by (cases d) auto
    have eq: "rr_addresses r = rr_addresses r'" "rr_quorum r = rr_quorum r'"
      "cn_conciliumId r = cn_conciliumId r'" using assms unfolding c d by simp_all
    show ?thesis unfolding c d
      by (simp add: fun_eq_iff Concilium_weight_def Rr_getWitnessWeight_def Rr_getQuorum_def
          Rr_getAddresses_def Base_getConciliumId_def eq split: option.splits)
  next
    case c: (POS p)
    then obtain p' where d: "d = POS p'" using assms by (cases d) auto
    have eq: "ps_arrMembers p = ps_arrMembers p'" "ps_arrShares p = ps_arrShares p'"
      "ps_totalSharesAmount p = ps_totalSharesAmount p'" "ps_quorum p = ps_quorum p'"
      "cn_conciliumId p = cn_conciliumId p'" using assms unfolding c d by simp_all
    show ?thesis unfolding c d
      by (simp add: fun_eq_iff Concilium_weight_def Pos_getWitnessWeight_def Pos_getQuorum_def
          Pos_getAddresses_def Base_getConciliumId_def eq split: option.splits)
  qed
  then show "Concilium_weight c = Concilium_weight d" and "Concilium_getQuorum c = Concilium_getQuorum d"
    and "Concilium_getAddresses c = Concilium_getAddresses d"
    and "Concilium_getConciliumId c = Concilium_getConciliumId d" by auto
qed

lemma Rr_core:
  "Rr_initRounds c = Inr d \<Longrightarrow> Concilium_core (RR d) = Concilium_core (RR c)"
  by (auto simp: Rr_initRounds_def Base_initRounds_def)

lemma Pos_core:
  "Pos_initRounds c = Inr d \<Longrightarrow> Concilium_core (POS d) = Concilium_core (POS c)"
  by (auto simp: Pos_initRounds_def Base_initRounds_def Pos_formProposerAddressesSequence_def)

lemma Base_nextRound_Inr:
  assumes "Base_nextRound initR c = Inr (r, d)"
  shows "\<exists>n. d = c\<lparr>cn_nLocalRound := Some n\<rparr> \<or> initR (c\<lparr>cn_nLocalRound := Some n\<rparr>) = Inr d"
  using assms by (auto simp: Base_nextRound_def Let_def split: option.splits if_splits)

lemma Base_adjustRound_Inr:
  assumes "Base_adjustRound initR r c = Inr d"
  shows "\<exists>e. (e = c \<or> initR c = Inr e) \<and> (d = e \<or> (\<exists>n. d = e\<lparr>cn_nLocalRound := Some n\<rparr>))"
proof -
  obtain e where e: "(if cn_nRoundBase c = Some 0 \<and> cn_nSeed c \<noteq> 0 then initR c else Inr c) = Inr e"
    using assms unfolding Base_adjustRound_def bindR_Inr_iff by blast
  with assms have d: "(case cn_nRoundBase e of None \<Rightarrow> Inr e | Some b \<Rightarrow>
      let nRoundDiff = \<bar>r - b\<bar> in Inr (if nRoundDiff < int (cn_nSeqLength e)
        then e\<lparr>cn_nLocalRound := Some (nat nRoundDiff)\<rparr> else e)) = (Inr d :: _ res)"
    by (simp add: Base_adjustRound_def)
  from d have "d = e \<or> (\<exists>n. d = e\<lparr>cn_nLocalRound := Some n\<rparr>)"
    by (auto simp: Let_def split: option.splits if_splits)
  moreover from e have "e = c \<or> initR c = Inr e" by (auto split: if_splits)
  ultimately show ?thesis by blast
qed

lemma Concilium_local_core [simp]:
  "Concilium_core (RR (r\<lparr>cn_nLocalRound := x\<rparr>)) = Concilium_core (RR r)"
  "Concilium_core (POS (p\<lparr>cn_nLocalRound := x\<rparr>)) = Concilium_core (POS p)"
  by simp_all

lemma Concilium_initRounds_core: "Concilium_initRounds c = Inr d \<Longrightarrow> Concilium_core d = Concilium_core c"
  by (cases c) (auto simp del: Concilium_core.simps dest: Rr_core Pos_core)

lemma Concilium_nextRound_core:
  assumes "Concilium_nextRound c = Inr (r, d)"
  shows "Concilium_core d = Concilium_core c"
proof (cases c)
  case (RR a)
  with assms obtain b where b: "d = RR b" "Base_nextRound Rr_initRounds a = Inr (r, b)"
    by (auto simp: Rr_nextRound_def)
  from Base_nextRound_Inr [OF b(2)] RR b(1) show ?thesis
    by (auto simp del: Concilium_core.simps dest!: Rr_core)
next
  case (POS a)
  with assms obtain b where b: "d = POS b" "Base_nextRound Pos_initRounds a = Inr (r, b)"
    by (auto simp: Pos_nextRound_def)
  from Base_nextRound_Inr [OF b(2)] POS b(1) show ?thesis
    by (auto simp del: Concilium_core.simps dest!: Pos_core)
qed

lemma Concilium_adjustRound_core:
  assumes "Concilium_adjustRound r c = Inr d"
  shows "Concilium_core d = Concilium_core c"
proof (cases c)
  case (RR a)
  with assms obtain b where b: "d = RR b" "Base_adjustRound Rr_initRounds r a = Inr b"
    by (auto simp: Rr_adjustRound_def)
  from Base_adjustRound_Inr [OF b(2)] RR b(1) show ?thesis
    by (auto simp del: Concilium_core.simps dest!: Rr_core)
next
  case (POS a)
  with assms obtain b where b: "d = POS b" "Base_adjustRound Pos_initRounds r a = Inr b"
    by (auto simp: Pos_adjustRound_def)
  from Base_adjustRound_Inr [OF b(2)] POS b(1) show ?thesis
    by (auto simp del: Concilium_core.simps dest!: Pos_core)
qed

lemma Concilium_changeSeed_core: "Concilium_core (Concilium_changeSeed n c) = Concilium_core c"
  by (cases c) (simp_all add: Base_changeSeed_def)

lemma Concilium_ok_core:
  assumes "Concilium_core c = Concilium_core d"
  shows "Concilium_ok c = Concilium_ok d"
proof (cases c)
  case (RR r)
  with assms show ?thesis by (cases d) (auto simp: Rr_ok_def Rr_getQuorum_def split: option.splits)
next
  case (POS p)
  with assms show ?thesis by (cases d) (auto simp: Pos_ok_def Pos_built_def)
qed

lemma Concilium_made_ok: "Concilium_made c \<Longrightarrow> Concilium_ok c"
proof (induction rule: Concilium_made.induct)
  case (made_rr quorum as cid fees en)
  then show ?case by (auto simp: Rr_ok_def Rr_getQuorum_def Rr_new_def concilium_base.defs Let_def)
next
  case (made_pos cid fees en nMin ms len c)
  then show ?case using Pos_new_built Pos_new_Inr(1) by (auto simp: Pos_ok_def)
qed (metis Concilium_ok_core Concilium_changeSeed_core Concilium_initRounds_core Concilium_nextRound_core
  Concilium_adjustRound_core)+

lemma Bft_votingOk_made:
  "Concilium_made c \<Longrightarrow> mset as = mset (Concilium_getAddresses c) \<Longrightarrow> Bft_votingOk (c, as)"
  by (simp add: Bft_votingOk_def Concilium_made_ok)

definition Bft_frame :: "'d bft \<Rightarrow> 'd bft \<Rightarrow> bool" where
  "Bft_frame s t \<longleftrightarrow> bf_arrAddresses t = bf_arrAddresses s \<and> bf_walletAddress t = bf_walletAddress s \<and>
     Concilium_core (bf_concilium t) = Concilium_core (bf_concilium s) \<and>
     bf_views t = bf_views s \<and> bf_prevViews t = bf_prevViews s \<and> Bft_commits t = Bft_commits s"

lemma Bft_frame_refl [simp]: "Bft_frame s s"
  by (simp add: Bft_frame_def)

lemma Bft_frame_trans: "Bft_frame s t \<Longrightarrow> Bft_frame t u \<Longrightarrow> Bft_frame s u"
  by (simp add: Bft_frame_def)

lemma Bft_frame_transp: "transp Bft_frame"
  by (auto intro: transpI Bft_frame_trans)

lemma Bft_frame_reflp: "reflp Bft_frame"
  by (auto intro: reflpI)

lemmas Bft_keeps = keepsS_bindS [OF Bft_frame_transp] keepsS_return [OF Bft_frame_reflp]
  keepsS_throw [OF Bft_frame_reflp] keepsS_lift [OF Bft_frame_reflp]

lemma Bft_keeps_upd [simp]:
  "Bft_frame s (s\<lparr>bf_block := x\<rparr>)" "Bft_frame s (s\<lparr>bf_state := y\<rparr>)"
  "Bft_frame s (s\<lparr>bf_block := x, bf_state := y\<rparr>)" "Bft_frame s (s\<lparr>bf_timeout := n\<rparr>)"
  "Bft_frame s (s\<lparr>bf_state := y, bf_timeout := n\<rparr>)"
  "Bft_frame s (s\<lparr>bf_block := x, bf_patch := p, bf_lastBlockTime := m\<rparr>)"
  by (simp_all add: Bft_frame_def Bft_commits_def)

lemma Bft_keeps_emit: "(\<forall>b p. ev \<noteq> EmitCommitBlock b p) \<Longrightarrow> keepsS Bft_frame (Bft_emit ev)"
  by (auto simp: keepsS_def Bft_emit_def Bft_frame_def split: bft_event.splits)

lemma Bft_keeps_setState: "keepsS Bft_frame (Bft_setState x)"
  and Bft_keeps_adjustTimer: "keepsS Bft_frame Bft_adjustTimer"
  by (simp_all add: keepsS_def Bft_setState_def Bft_adjustTimer_def)

lemma Bft_keeps_updConcilium:
  "(\<And>c x d. f c = Inr (x, d) \<Longrightarrow> Concilium_core d = Concilium_core c) \<Longrightarrow>
   keepsS Bft_frame (Bft_updConcilium f)"
  by (auto simp: keepsS_def Bft_updConcilium_def Bft_frame_def Bft_commits_def split: sum.splits)

lemma Bft_keeps_nextRound: "keepsS Bft_frame (Bft_nextRound b)"
proof -
  have "keepsS Bft_frame (bindS (liftS (Concilium_getRound c)) (\<lambda>_. bindS (Bft_updConcilium (\<lambda>c.
                  if b then Concilium_nextRound c
                  else bindR (Concilium_initRounds c) (\<lambda>c'.
                       bindR (Concilium_getRound c') (\<lambda>r. Inr (r, c'))))) (\<lambda>nRoundNo.
         Bft_emit (EmitNextRound n nRoundNo))))" for c n
    by (intro Bft_keeps Bft_keeps_updConcilium Bft_keeps_emit)
       (auto simp: Concilium_nextRound_core Concilium_initRounds_core split: if_splits)
  then show ?thesis
    unfolding keepsS_def Bft_nextRound_def Let_def
    using Bft_frame_trans Bft_keeps_upd(3) by blast
qed

lemma Bft_keeps_blockState: "keepsS Bft_frame (Bft_blockStateHandler b)"
  by (simp add: Bft_blockStateHandler_def Bft_keeps_setState Bft_keeps_nextRound)

lemma keepsS_at: "keepsS R m \<Longrightarrow> R s (snd (m s))"
  by (simp add: keepsS_def)

lemma Bft_keeps_roundChange: "keepsS Bft_frame (Bft_roundChangeHandler b v)"
proof -
  have pub: "keepsS Bft_frame (\<lambda>s. case Bft_shouldPublish (bf_walletAddress s) s of
       Inl e \<Rightarrow> (Inl e, s) | Inr b \<Rightarrow> if b then Bft_emit EmitCreateBlock s else (Inr (), s))"
    using keepsS_at [OF Bft_keeps_emit [of EmitCreateBlock]]
    by (auto simp: keepsS_def split: sum.splits)
  have adj: "keepsS Bft_frame (Bft_updConcilium (\<lambda>c. mapR (\<lambda>c'. ((), c'))
       (case r of Some r \<Rightarrow> Concilium_adjustRound r c | None \<Rightarrow> Inr c)))" for r
    by (rule Bft_keeps_updConcilium) (auto dest: Concilium_adjustRound_core split: option.splits)
  have "keepsS Bft_frame (bindS (Bft_updConcilium (\<lambda>c. mapR (\<lambda>c'. ((), c'))
       (case r of Some r \<Rightarrow> Concilium_adjustRound r c | None \<Rightarrow> Inr c))) (\<lambda>_.
     bindS (Bft_setState BLOCK) (\<lambda>_ s. case Bft_shouldPublish (bf_walletAddress s) s of
       Inl e \<Rightarrow> (Inl e, s) | Inr b \<Rightarrow> if b then Bft_emit EmitCreateBlock s else (Inr (), s))))" for r
    by (intro Bft_keeps adj Bft_keeps_setState pub)
  note R = keepsS_at [OF this] keepsS_at [OF Bft_keeps_nextRound]
  show ?thesis
    unfolding keepsS_def Bft_roundChangeHandler_def
    by (simp add: R split: option.splits)
qed

section \<open>The invariant of the state machine\<close>

text \<open>
  The members and their weights never change, the tables have a row per member, and every block
  handed out for commit carries signatures of members whose weight is a quorum.
\<close>

definition Bft_inv :: "bft_env \<Rightarrow> concilium \<Rightarrow> addr list \<Rightarrow> 'd bft \<Rightarrow> bool" where
  "Bft_inv E c as s \<longleftrightarrow> bf_arrAddresses s = as \<and> Concilium_core (bf_concilium s) = Concilium_core c \<and>
     Bft_viewsOk as (bf_views s) \<and> (\<forall>v. bf_prevViews s = Some v \<longrightarrow> Bft_viewsOk as v) \<and>
     (\<forall>(b, p)\<in>Bft_commits s. \<exists>bh. Bft_blockHash E b = Inr bh \<and> Bft_certified E c as bh (bl_signatures b))"

lemma Bft_certified_cong:
  "Concilium_core c = Concilium_core d \<Longrightarrow> Bft_certified E c as bh sigs = Bft_certified E d as bh sigs"
  using Concilium_core_cong [of c d] by (simp add: Bft_certified_def)

lemma Bft_inv_frame: "Bft_inv E c as s \<Longrightarrow> Bft_frame s t \<Longrightarrow> Bft_inv E c as t"
  by (simp add: Bft_inv_def Bft_frame_def)

lemma Bft_inv_keeps: "keepsS Bft_frame m \<Longrightarrow> Bft_inv E c as s \<Longrightarrow> Bft_inv E c as (snd (m s))"
  using Bft_inv_frame keepsS_at by metis

lemma Bft_viewsOk_empty: "Bft_viewsOk as (Bft_emptyViews as)"
  by (simp add: Bft_viewsOk_def Bft_emptyViews_def jm.get_fold_put)

lemma Bft_inv_reset: "Bft_inv E c as s \<Longrightarrow> Bft_inv E c as (Bft_resetState s)"
  using Bft_viewsOk_empty [of as]
  by (auto simp: Bft_inv_def Bft_resetState_def Bft_commits_def)

lemma Bft_inv_addView:
  "Bft_inv E c as s \<Longrightarrow> Bft_addViewOfNodeWithAddr a b d s = Inr t \<Longrightarrow> Bft_inv E c as t"
proof -
  assume inv: "Bft_inv E c as s" and "Bft_addViewOfNodeWithAddr a b d s = Inr t"
  then obtain v where t: "t = s\<lparr>bf_views := jset a (jset b d v) (bf_views s)\<rparr>"
    by (auto simp: Bft_addViewOfNodeWithAddr_def split: option.splits)
  have "Bft_commits t = Bft_commits s" by (simp add: t Bft_commits_def)
  moreover have "Bft_viewsOk as (bf_views s) \<Longrightarrow> Bft_viewsOk as (bf_views t)"
    by (simp add: t Bft_viewsOk_def js_simps)
  ultimately show ?thesis using inv by (simp add: Bft_inv_def t)
qed

lemma Bft_inv_commit:
  assumes inv: "Bft_inv E c as s" and b: "bf_block s = Some b"
    and h: "Bft_blockHash E b = Inr bh"
  shows "Bft_inv E c as (snd (Bft_commit E b s))"
proof (cases "Bft_getSignaturesForBlock E s")
  case (Inr r)
  show ?thesis
  proof (cases r)
    case (Some sigs)
    show ?thesis
    proof (cases "sigs = []")
      case False
      show ?thesis
      proof (cases "Block_addWitnessSignatures sigs b")
        case b': (Inr b')
        note S = Bft_blockHash_sign [OF b', of E]
        have "Bft_certified E (bf_concilium s) (bf_arrAddresses s) bh sigs"
          using Bft_getSignatures_certified [OF _ b h] Inr Some by simp
        then have cert: "Bft_certified E c as bh (bl_signatures b')"
          using inv S Bft_certified_cong unfolding Bft_inv_def by metis
        have "snd (Bft_commit E b s) = s\<lparr>bf_block := Some b',
            bf_emitted := bf_emitted s @ [EmitCommitBlock b' (bf_patch s)]\<rparr>"
          using Inr Some False b' by (simp add: Bft_commit_def Bft_emit_def)
        moreover have "Bft_commits (s\<lparr>bf_block := Some b',
            bf_emitted := bf_emitted s @ [EmitCommitBlock b' (bf_patch s)]\<rparr>) =
            insert (b', bf_patch s) (Bft_commits s)"
          by (auto simp: Bft_commits_def)
        ultimately show ?thesis using inv cert S h by (auto simp: Bft_inv_def)
      qed (use Inr Some False inv in \<open>simp add: Bft_commit_def\<close>)
    qed (use Inr Some inv Bft_inv_keeps [OF Bft_keeps_nextRound] in \<open>auto simp: Bft_commit_def\<close>)
  qed (use Inr inv Bft_inv_keeps [OF Bft_keeps_nextRound] in \<open>auto simp: Bft_commit_def\<close>)
qed (use inv in \<open>simp add: Bft_commit_def\<close>)

lemma Bft_inv_state: "Bft_inv E c as s \<Longrightarrow> Bft_inv E c as (s\<lparr>bf_state := x\<rparr>)"
  by (rule Bft_inv_frame [OF _ Bft_keeps_upd(2)])

lemma Bft_inv_vote:
  assumes inv: "Bft_inv E c as s"
  shows "Bft_inv E c as (snd (Bft_voteStateHandler E b v s))"
proof -
  note N = Bft_inv_keeps [OF Bft_keeps_nextRound inv]
  note S = Bft_inv_state [OF inv, of COMMIT]
  have "Bft_inv E c as (snd (Bft_commit E bl (s\<lparr>bf_state := COMMIT\<rparr>)))"
    if "bf_block s = Some bl" "Bft_blockHash E bl = Inr bh" for bl bh
    using Bft_inv_commit [OF S] that by simp
  then show ?thesis
    using inv N S by (auto simp: Bft_voteStateHandler_def liftS_def Let_def split: option.splits sum.splits)
qed

lemma Bft_inv_stateChange:
  assumes inv: "Bft_inv E c as s"
  shows "Bft_inv E c as (snd (Bft_stateChange E b v s))"
proof -
  let ?s1 = "case v of Some x \<Rightarrow> if b then s\<lparr>bf_state := vv_state x,
                                 bf_timeout := bft_Timeouts (vv_state x)\<rparr> else s | None \<Rightarrow> s"
  let ?h = "\<lambda>st. case st of ROUND_CHANGE \<Rightarrow> Bft_roundChangeHandler b v
                | BLOCK \<Rightarrow> Bft_blockStateHandler False
                | VOTE_BLOCK \<Rightarrow> Bft_voteStateHandler E b v
                | COMMIT \<Rightarrow> Bft_nextRound True"
  have s1: "Bft_inv E c as ?s1"
    using inv Bft_inv_frame [OF inv Bft_keeps_upd(5)] by (auto split: option.splits)
  have h: "Bft_inv E c as (snd (?h st ?s1))" for st
  proof (cases st)
    case ROUND_CHANGE
    show ?thesis unfolding ROUND_CHANGE bft_state.case
      by (rule Bft_inv_keeps [OF Bft_keeps_roundChange s1])
  next
    case BLOCK
    show ?thesis unfolding BLOCK bft_state.case
      by (rule Bft_inv_keeps [OF Bft_keeps_blockState s1])
  next
    case VOTE_BLOCK
    show ?thesis unfolding VOTE_BLOCK bft_state.case by (rule Bft_inv_vote [OF s1])
  next
    case COMMIT
    show ?thesis unfolding COMMIT bft_state.case
      by (rule Bft_inv_keeps [OF Bft_keeps_nextRound s1])
  qed
  show ?thesis
    unfolding Bft_stateChange_def Let_def
    by (rule bindS_snd) (rule h, simp add: Bft_inv_keeps [OF Bft_keeps_adjustTimer])
qed

text \<open>Each step is taken at its own time \<open>t\<close>.\<close>

inductive bft_step :: "bft_env \<Rightarrow> 'd bft \<Rightarrow> 'd bft \<Rightarrow> bool" for E where
  bft_message: "bft_step E s (snd (Bft_processMessage (E\<lparr>be_now := t\<rparr>) m s))"
| bft_timeout: "bft_step E s (snd (Bft_stateChange (E\<lparr>be_now := t\<rparr>) False None s))"
| bft_validBlock: "bft_step E s (snd (Bft_processValidBlock (E\<lparr>be_now := t\<rparr>) b p s))"
| bft_invalidBlock: "bft_step E s (snd (Bft_invalidBlock s))"
| bft_seed: "bft_step E s (Bft_setRoundSeed n s)"

inductive_cases bft_stepE: "bft_step E s t"

inductive bft_reach :: "bft_env \<Rightarrow> concilium \<Rightarrow> addr \<Rightarrow> 'd bft \<Rightarrow> bool" for E c a where
  bft_start: "Bft_new (E\<lparr>be_now := t\<rparr>) c a = Inr s \<Longrightarrow> bft_reach E c a s"
| bft_next: "bft_reach E c a s \<Longrightarrow> bft_step E s t \<Longrightarrow> bft_reach E c a t"

lemma bft_env_now: "E\<lparr>be_now := be_now E\<rparr> = E"
  by (cases E) simp

lemmas bft_steps_now = bft_message [of E s "be_now E", unfolded bft_env_now]
  bft_timeout [of E s "be_now E", unfolded bft_env_now]
  bft_validBlock [of E s "be_now E", unfolded bft_env_now] for E s

lemma bft_start_now: "Bft_new E c a = Inr s \<Longrightarrow> bft_reach E c a s"
  using bft_start [where E = E and t = "be_now E"] by (simp add: bft_env_now)

lemma bft_step_clock: "bft_step (E\<lparr>be_now := n\<rparr>) s t \<longleftrightarrow> bft_step E s t"
proof
  assume "bft_step (E\<lparr>be_now := n\<rparr>) s t"
  then show "bft_step E s t" by cases (simp_all add: bft_step.intros)
next
  assume "bft_step E s t"
  then show "bft_step (E\<lparr>be_now := n\<rparr>) s t"
  proof cases
    case (bft_message t m)
    then show ?thesis using bft_step.bft_message [of "E\<lparr>be_now := n\<rparr>" s t m] by simp
  next
    case (bft_timeout t)
    then show ?thesis using bft_step.bft_timeout [of "E\<lparr>be_now := n\<rparr>" s t] by simp
  next
    case (bft_validBlock t b p)
    then show ?thesis using bft_step.bft_validBlock [of "E\<lparr>be_now := n\<rparr>" s t b p] by simp
  qed (simp_all add: bft_step.intros)
qed

lemma bft_reach_clock: "bft_reach (E\<lparr>be_now := n\<rparr>) c a s \<longleftrightarrow> bft_reach E c a s"
proof
  assume "bft_reach (E\<lparr>be_now := n\<rparr>) c a s"
  then show "bft_reach E c a s"
    by induction (auto simp: bft_step_clock intro: bft_reach.intros)
next
  assume "bft_reach E c a s"
  then show "bft_reach (E\<lparr>be_now := n\<rparr>) c a s"
  proof induction
    case (bft_start t s)
    then show ?case using bft_reach.bft_start [where E = "E\<lparr>be_now := n\<rparr>" and t = t] by simp
  qed (auto simp: bft_step_clock intro: bft_reach.bft_next)
qed

lemma Bft_clock:
  "Bft_blockHash (E\<lparr>be_now := n\<rparr>) = Bft_blockHash E" "Bft_certified (E\<lparr>be_now := n\<rparr>) = Bft_certified E"
  "Bft_inv (E\<lparr>be_now := n\<rparr>) = Bft_inv E"
proof -
  show h: "Bft_blockHash (E\<lparr>be_now := n\<rparr>) = Bft_blockHash E" "Bft_certified (E\<lparr>be_now := n\<rparr>) = Bft_certified E"
    by (simp_all add: fun_eq_iff Bft_blockHash_def Bft_certified_def Bft_signed_def)
  then show "Bft_inv (E\<lparr>be_now := n\<rparr>) = Bft_inv E" by (simp add: fun_eq_iff Bft_inv_def)
qed

lemma Bft_inv_processMessage:
  assumes inv: "Bft_inv E c as s"
  shows "Bft_inv E c as (snd (Bft_processMessage E m s))"
proof -
  have "Bft_inv E c as (snd (bindS (Bft_stateChange E True (Some v)) (\<lambda>_. returnS None) (Bft_resetState t)))"
    if "Bft_inv E c as t" for t v
  proof -
    have "Bft_inv E c as (snd (Bft_stateChange E True (Some v) (Bft_resetState t)))"
      by (rule Bft_inv_stateChange) (rule Bft_inv_reset [OF that])
    then show ?thesis by (auto simp: bindS_def returnS_def split: prod.splits sum.splits)
  qed
  note fin = this
  show ?thesis
    unfolding Bft_processMessage_def Let_def
    by (simp split: option.splits sum.splits)
       (use inv fin Bft_inv_addView [OF inv] in blast)
qed

lemma Bft_keeps_vote:
  "keepsS Bft_frame (bindS (Bft_blockStateHandler b) (\<lambda>_. Bft_emit (EmitBlockVote n h)))"
  by (intro Bft_keeps Bft_keeps_blockState Bft_keeps_emit) simp

lemma Bft_inv_validBlock:
  assumes inv: "Bft_inv E c as s"
  shows "Bft_inv E c as (snd (Bft_processValidBlock E b p s))"
proof -
  have "Bft_inv E c as (s\<lparr>bf_block := Some b, bf_patch := p, bf_lastBlockTime := be_now E\<rparr>)"
    by (rule Bft_inv_frame [OF inv]) (rule Bft_keeps_upd)
  note upd = Bft_inv_keeps [OF Bft_keeps_vote this]
  show ?thesis
    unfolding Bft_processValidBlock_def using inv upd
    by (cases "Bft_blockHash E b") simp_all
qed

lemma Bft_inv_invalidBlock:
  assumes inv: "Bft_inv E c as s"
  shows "Bft_inv E c as (snd (Bft_invalidBlock s))"
proof -
  have "Bft_inv E c as (s\<lparr>bf_block := None\<rparr>)"
    by (rule Bft_inv_frame [OF inv]) (rule Bft_keeps_upd)
  note upd = Bft_inv_keeps [OF Bft_keeps_vote this]
  show ?thesis unfolding Bft_invalidBlock_def using inv upd by simp
qed

lemma Bft_inv_step:
  assumes "bft_step E s t" and inv: "Bft_inv E c as s"
  shows "Bft_inv E c as t"
  using assms(1)
proof cases
  case (bft_message n m)
  then show ?thesis using Bft_inv_processMessage [of "E\<lparr>be_now := n\<rparr>" c as s m] inv by (simp add: Bft_clock)
next
  case (bft_timeout n)
  then show ?thesis using Bft_inv_stateChange [of "E\<lparr>be_now := n\<rparr>" c as s] inv by (simp add: Bft_clock)
next
  case (bft_validBlock n b p)
  then show ?thesis using Bft_inv_validBlock [of "E\<lparr>be_now := n\<rparr>" c as s b p] inv by (simp add: Bft_clock)
next
  case bft_invalidBlock
  show ?thesis unfolding bft_invalidBlock by (rule Bft_inv_invalidBlock [OF inv])
next
  case (bft_seed n)
  have "Concilium_core (Concilium_changeSeed n x) = Concilium_core x" for x
    by (cases x) (simp_all add: Base_changeSeed_def)
  with inv show ?thesis unfolding bft_seed by (simp add: Bft_inv_def Bft_setRoundSeed_def Bft_commits_def)
qed

lemma Bft_inv_reach:
  assumes "bft_reach E c a s"
  shows "Bft_inv E c (be_sort E (Concilium_getAddresses c)) s"
  using assms
proof induction
  case (bft_start n s)
  then obtain c' where c': "Concilium_initRounds c = Inr c'" and
    s: "bf_concilium s = c'" "bf_arrAddresses s = be_sort E (Concilium_getAddresses c)"
    "bf_views s = Bft_emptyViews (be_sort E (Concilium_getAddresses c))" "bf_prevViews s = None"
    "bf_emitted s = []"
    by (auto simp: Bft_new_def Let_def)
  then show ?case
    using Concilium_initRounds_core [OF c'] Bft_viewsOk_empty
    by (simp add: Bft_inv_def Bft_commits_def)
next
  case (bft_next s t)
  then show ?case using Bft_inv_step by blast
qed

end
