(* ===== verification/Cil_Witness_Props.thy ===== *)
theory Cil_Witness_Props
  imports Cil_Ledger_Props Cil_Bft_Laws Cil_Mempool Cil_Utils
begin

text \<open>
  What the witnesses rely on: any two quorums of a concilium share a member, every round has a
  proposer (\<open>src/conciliums\<close>), the vote counting finds the agreed value and only commits blocks that
  enough members signed (\<open>bftConsensus.js\<close>), and the pool of transactions they build blocks from keeps
  its order and its size (\<open>mempool.js\<close>).
\<close>

section \<open>Conciliums\<close>

text \<open>C10: In every concilium the program makes - round robin with the quorum it computes or one of more than
  half stated in its definition, or proof of stake, in whatever state of its rounds - two groups of
  members whose weights, added up in any order, both reach the quorum have a member in common: two
  blocks of one round cannot both be approved unless a member votes twice. The weights and the quorum
  of proof of stake are rounded doubles; up to a million members and stakes of together at most
  2^53 the rounding cannot break this.\<close>

theorem Concilium_quorums_intersect:
  assumes "Concilium_made c" and "Concilium_getQuorum c = Some q"
    and "distinct xs" and "set xs \<subseteq> set (Concilium_getAddresses c)" and "q \<le> dsum (map (Concilium_weight c) xs)"
    and "distinct ys" and "set ys \<subseteq> set (Concilium_getAddresses c)" and "q \<le> dsum (map (Concilium_weight c) ys)"
  shows "set xs \<inter> set ys \<noteq> {}"
  by (rule cv.quorums_meet [OF Concilium_made_ok [OF assms(1)] assms(2-8)])

definition ex_members :: concilium where
  "ex_members = RR (Rr_new 1 None (Some True) (Some [ex_addr CHR ''a'', ex_addr CHR ''b'', ex_addr CHR ''c'']) None)"

lemma ex_members_made: "Concilium_made ex_members"
  unfolding ex_members_def by (rule made_rr) simp

lemma ex_members_simps:
  "Concilium_getQuorum ex_members = Some 2"
  "Concilium_getAddresses ex_members = [ex_addr CHR ''a'', ex_addr CHR ''b'', ex_addr CHR ''c'']"
  "Concilium_weight ex_members a = 1" "Concilium_getMembersCount ex_members = 3"
  by (simp_all add: ex_members_def Rr_new_def Base_new_def concilium_base.defs Rr_getQuorum_def
      Rr_getAddresses_def Concilium_weight_def Rr_getWitnessWeight_def Rr_getMembersCount_def)

definition ex_equal :: "pos_member list" where
  "ex_equal = map (\<lambda>c. \<lparr>pm_address = ex_addr c, pm_amount = 100, pm_nHeightToRelease = 0\<rparr>) ''abcdefghijkl''"

lemma ex_equal_ok: "ex_equal \<noteq> []" "distinct (map pm_address ex_equal)" "\<forall>m\<in>set ex_equal. 0 < pm_amount m"
  "sum_list (map pm_amount ex_equal) = 1200" "length ex_equal = 12" "Pos_unit (map pm_amount ex_equal) = 100"
proof -
  show "Pos_unit (map pm_amount ex_equal) = 100" by code_simp
  show "distinct (map pm_address ex_equal)" by (simp add: ex_equal_def ex_addr_def replicate_eq_replicate)
qed (simp_all add: ex_equal_def)

lemma dbl_small: "dbl 2 = 2" "dbl 3 = 3" "dbl 6 = 6" "dbl 7 = 7" "dbl 12 = 12"
  using dbl_of_int [of 2] dbl_of_int [of 3] dbl_of_int [of 6] dbl_of_int [of 7] dbl_of_int [of 12] by simp_all

lemma ex_twelfth:
  "dsum (replicate 7 (dbl (1 / 12))) = 2627099782632789 / 4503599627370496"
  "dsum (replicate 8 (dbl (1 / 12))) = 6004799503160661 / 9007199254740992"
  "dbl (7 / 12) = 5254199565265579 / 9007199254740992"
proof -
  show "dsum (replicate 7 (dbl (1 / 12))) = 2627099782632789 / 4503599627370496" by code_simp
  show "dsum (replicate 8 (dbl (1 / 12))) = 6004799503160661 / 9007199254740992" by code_simp
  show "dbl (7 / 12) = 5254199565265579 / 9007199254740992" by code_simp
qed

lemma ex_equal_new: obtains c where "Pos_new 1 None (Some True) 100 ex_equal 20 = Inr c"
  "Pos_getAddresses c = map ex_addr ''abcdefghijkl''" "Pos_getQuorum c = Some (dbl (7 / 12))"
  "\<And>a. a \<in> set (Pos_getAddresses c) \<Longrightarrow> Concilium_weight (POS c) a = dbl (1 / 12)"
proof -
  obtain c where c: "Pos_new 1 None (Some True) 100 ex_equal 20 = Inr c" by (simp add: Pos_new_def Let_def)
  note N = Pos_new_Inr [OF c, unfolded ex_equal_ok] and b = Pos_new_built [OF c ex_equal_ok(1-3)]
  have S: "dsum (map of_int (map pm_amount ex_equal)) = (1200 :: rat)"
    using Pos_unit_bounds(3) [OF ex_equal_ok(1,3)] ex_equal_ok(4) by simp
  have T: "ps_totalSharesAmount c = 12" using N(4) by (simp only: S) (simp add: dbl_small)
  have "Pos_getQuorum c = Some (dbl (7 / 12))"
    using N(6) ex_equal_ok(1) by (simp add: T Pos_getQuorum_def dbl_small)
  moreover have "Pos_getAddresses c = map ex_addr ''abcdefghijkl''"
    by (simp add: Pos_getAddresses_def N(1)) (simp add: ex_equal_def)
  moreover have "Concilium_weight (POS c) a = dbl (1 / 12)" if "a \<in> set (Pos_getAddresses c)" for a
  proof -
    from that obtain m where m: "m \<in> set (ps_arrMembers c)" "a = pm_address m" by (auto simp: Pos_getAddresses_def)
    then have "pm_amount m = 100" by (auto simp: N(1) ex_equal_def)
    with Pos_weight_built [OF b m(1)] m(2) show ?thesis
      by (simp add: Concilium_weight_def N(1) ex_equal_ok T)
  qed
  ultimately show thesis using that c by blast
qed

text \<open>Twelve equal stakes: the rounded weights of seven members, more than half, stay just below the
  rounded quorum; it takes eight.\<close>

theorem Pos_half_plus_one_refused:
  assumes "Pos_new 1 None (Some True) 100 ex_equal 20 = Inr c"
  shows "\<exists>q. Pos_getQuorum c = Some q \<and> q = dbl (7 / 12) \<and>
    (\<forall>xs. set xs \<subseteq> set (Pos_getAddresses c) \<longrightarrow>
      (length xs = 7 \<longrightarrow> dsum (map (Concilium_weight (POS c)) xs) < q) \<and>
      (length xs = 8 \<longrightarrow> q \<le> dsum (map (Concilium_weight (POS c)) xs)))"
proof -
  obtain d where d: "Pos_new 1 None (Some True) 100 ex_equal 20 = Inr d" "Pos_getQuorum d = Some (dbl (7 / 12))"
    "\<And>a. a \<in> set (Pos_getAddresses d) \<Longrightarrow> Concilium_weight (POS d) a = dbl (1 / 12)"
    using ex_equal_new by blast
  have "map (Concilium_weight (POS d)) xs = replicate (length xs) (dbl (1 / 12))"
    if "set xs \<subseteq> set (Pos_getAddresses d)" for xs
    using that d(3) by (induction xs) auto
  moreover have "dsum (replicate 7 (dbl (1 / 12))) < dbl (7 / 12)" "dbl (7 / 12) \<le> dsum (replicate 8 (dbl (1 / 12)))"
    unfolding ex_twelfth by simp_all
  ultimately show ?thesis using d(1,2) assms by auto
qed

theorem Concilium_quorums_intersect_witness:
  "\<exists>c. Pos_new 1 None (Some True) 100 ex_equal 20 = Inr c \<and>
     set (map ex_addr ''abcdefgh'') \<inter> set (map ex_addr ''efghijkl'') \<noteq> {}"
proof -
  obtain c where c: "Pos_new 1 None (Some True) 100 ex_equal 20 = Inr c"
    "Pos_getAddresses c = map ex_addr ''abcdefghijkl''" "Pos_getQuorum c = Some (dbl (7 / 12))"
    "\<And>a. a \<in> set (Pos_getAddresses c) \<Longrightarrow> Concilium_weight (POS c) a = dbl (1 / 12)"
    using ex_equal_new by blast
  have made: "Concilium_made (POS c)" by (rule made_pos [OF c(1)]) (simp_all add: ex_equal_ok)
  have w: "map (Concilium_weight (POS c)) (map ex_addr ''abcdefgh'') = replicate 8 (dbl (1 / 12))"
    "map (Concilium_weight (POS c)) (map ex_addr ''efghijkl'') = replicate 8 (dbl (1 / 12))"
    using c(4) by (simp_all add: c(2) eval_nat_numeral)
  have d: "distinct (map ex_addr ''abcdefgh'')" "distinct (map ex_addr ''efghijkl'')"
    by (simp_all add: ex_addr_def replicate_eq_replicate)
  have q: "dbl (7 / 12) \<le> dsum (replicate 8 (dbl (1 / 12)))" unfolding ex_twelfth by simp
  have "set (map ex_addr ''abcdefgh'') \<inter> set (map ex_addr ''efghijkl'') \<noteq> {}"
  proof (rule Concilium_quorums_intersect [OF made])
    show "Concilium_getQuorum (POS c) = Some (dbl (7 / 12))" using c(3) by simp
  qed (use d w q in \<open>simp_all only: Concilium_getAddresses.simps c(2) set_map, auto\<close>)
  with c(1) show ?thesis by blast
qed


text \<open>C36: A proof-of-stake concilium built from members with positive stakes, together at most 2^53, asks for
  a quorum of more than half of the shares and at most all of them, after all the rounding.\<close>

theorem Pos_new_quorum:
  assumes "Pos_new cid fees en nMin ms len = Inr c" and "ms \<noteq> []" and "distinct (map pm_address ms)"
    and "\<forall>m\<in>set ms. 0 < pm_amount m" and "sum_list (map pm_amount ms) \<le> 2 ^ 53"
  shows "\<exists>q. Pos_getQuorum c = Some q \<and> 1 / 2 < q \<and> q \<le> 1"
  using Pos_quorum_bounds [OF Pos_new_built [OF assms(1-4)]] assms(5) Pos_new_Inr(1) [OF assms(1)] by auto

definition ex_stakes :: "pos_member list" where
  "ex_stakes = [\<lparr>pm_address = ex_addr CHR ''a'', pm_amount = 300, pm_nHeightToRelease = 0\<rparr>,
     \<lparr>pm_address = ex_addr CHR ''b'', pm_amount = 100, pm_nHeightToRelease = 0\<rparr>]"

lemma ex_stakes_ok: "ex_stakes \<noteq> []" "distinct (map pm_address ex_stakes)" "\<forall>m\<in>set ex_stakes. 0 < pm_amount m"
  "sum_list (map pm_amount ex_stakes) \<le> 2 ^ 53"
  by (simp_all add: ex_stakes_def)

lemma ex_stakes_new: "\<exists>c. Pos_new 1 None (Some True) 100 ex_stakes 20 = Inr c"
  by (simp add: Pos_new_def Let_def)

theorem Pos_new_quorum_witness:
  "\<exists>c q. Pos_new 1 None (Some True) 100 ex_stakes 20 = Inr c \<and> Pos_getQuorum c = Some q \<and> 1 / 2 < q"
proof -
  obtain c where c: "Pos_new 1 None (Some True) 100 ex_stakes 20 = Inr c" using ex_stakes_new ..
  from c Pos_new_quorum [OF c ex_stakes_ok] show ?thesis by blast
qed

text \<open>The rounds of a concilium one after the other.\<close>

fun Pos_afterRounds :: "nat \<Rightarrow> concilium_pos \<Rightarrow> concilium_pos res" where
  "Pos_afterRounds 0 c = Pos_initRounds c"
| "Pos_afterRounds (Suc k) c = bindR (Pos_afterRounds k c) (\<lambda>d. mapR snd (Pos_nextRound d))"

text \<open>However many rounds, the concilium has a member for each slot, or the search for one has failed; it
  never fails when the stakes are multiples of the unit.\<close>

lemma Pos_afterRounds_result:
  assumes "Pos_built c" and "0 < cn_nSeqLength c"
  shows "case Pos_afterRounds k c of
      Inl e \<Rightarrow> e = Error ''You aren't supposed to be here''
    | Inr d \<Rightarrow> Pos_built d \<and> Pos_good d \<and> Base_roundOk d \<and> ps_arrMembers d = ps_arrMembers c"
proof (induction k)
  case 0
  show ?case
  proof (cases "Pos_initRounds c")
    case (Inr d)
    with Pos_initRounds_result [OF assms(1)] obtain ps where
      "d = (Base_initRounds c)\<lparr>ps_arrProposers := ps\<rparr>" "length ps = cn_nSeqLength c"
      "\<forall>i\<in>set ps. i < length (ps_arrMembers c)" by auto
    with Inr assms show ?thesis by (simp add: Pos_same_built) (simp add: Base_initRounds_def Pos_good_def Base_roundOk_def)
  qed (use Pos_initRounds_result [OF assms(1)] in simp)
next
  case (Suc k)
  show ?case
  proof (cases "Pos_afterRounds k c")
    case (Inr d)
    with Suc have d: "Pos_built d" "Pos_good d" "Base_roundOk d" "ps_arrMembers d = ps_arrMembers c" by simp_all
    obtain b n where n: "cn_nRoundBase d = Some b" "cn_nLocalRound d = Some n" "n < cn_nSeqLength d"
      using d(3) by (auto simp: Base_roundOk_def)
    let ?d = "d\<lparr>cn_nLocalRound := Some (n + 1)\<rparr>"
    have b: "Pos_built ?d" using d(1) by (simp add: Pos_same_built)
    show ?thesis
    proof (cases "n + 1 < cn_nSeqLength d")
      case True
      then have "Pos_afterRounds (Suc k) c = Inr ?d"
        using Inr n by (simp add: Pos_nextRound_def Base_nextRound_def Base_getRound_def Let_def)
      then show ?thesis unfolding \<open>Pos_afterRounds (Suc k) c = Inr ?d\<close>
        using True b d n by (simp add: Pos_good_def Base_roundOk_def)
    next
      case False
      then have run: "Pos_afterRounds (Suc k) c = bindR (Pos_initRounds ?d) (\<lambda>e. mapR (\<lambda>r. e) (Base_getRound e))"
        using Inr n by (cases "Pos_initRounds ?d")
          (auto simp: Pos_nextRound_def Base_nextRound_def Base_getRound_def Let_def split: sum.splits option.splits)
      show ?thesis
      proof (cases "Pos_initRounds ?d")
        case (Inr e)
        with Pos_initRounds_result [OF b] obtain ps where
          e: "e = (Base_initRounds ?d)\<lparr>ps_arrProposers := ps\<rparr>" "length ps = cn_nSeqLength d"
          "\<forall>i\<in>set ps. i < length (ps_arrMembers d)" by auto
        have "Pos_built e" using b by (simp add: e(1) Pos_same_built)
        moreover have "Pos_afterRounds (Suc k) c = Inr e"
          unfolding run Inr by (simp add: e(1) Base_getRound_def Base_initRounds_def)
        ultimately show ?thesis using d n e(2,3) unfolding \<open>Pos_afterRounds (Suc k) c = Inr e\<close>
          by (simp add: e(1)) (auto simp: Base_initRounds_def Pos_good_def Base_roundOk_def)
      qed (use run Pos_initRounds_result [OF b] in simp)
    qed
  qed (use Suc in simp)
qed

lemma Pos_afterRounds_even:
  assumes "Pos_even c" and "0 \<le> cn_nSeed c" and "0 < cn_nSeqLength c"
  shows "\<exists>d. Pos_afterRounds k c = Inr d \<and> Pos_even d \<and> 0 \<le> cn_nSeed d \<and> Pos_good d \<and> Base_roundOk d"
proof (induction k)
  case 0
  obtain d where d: "Pos_initRounds c = Inr d" using Pos_initRounds_even [OF assms(1,2)] unfolding isOk_ex by (rule exE)
  have "Pos_even d \<and> 0 \<le> cn_nSeed d \<and> Pos_good d" using pr.init_inv [OF _ d] assms(1,2) by blast
  moreover have "Base_roundOk d" using pr.init_counters [OF d] assms(3) by (simp add: Base_roundOk_def)
  ultimately show ?case using d by simp
next
  case (Suc k)
  then obtain d where d: "Pos_afterRounds k c = Inr d" "Pos_even d \<and> 0 \<le> cn_nSeed d" "Pos_good d" "Base_roundOk d"
    by blast
  from d(4) obtain b n where bn: "cn_nRoundBase d = Some b" "cn_nLocalRound d = Some n" "n < cn_nSeqLength d"
    by (auto simp: Base_roundOk_def)
  from pr.next_round [OF d(2,3) bn] obtain r e where
    "Base_nextRound Pos_initRounds d = Inr (r, e)" "Pos_even e \<and> 0 \<le> cn_nSeed e" "Pos_good e" "Base_roundOk e"
    by blast
  with d(1) show ?case by (simp add: Pos_nextRound_def)
qed



text \<open>The error is reached: two stakes of together 1485200 are counted in thousands, and the slot of the
  seed 3 falls behind the last share.\<close>

definition ex_uneven :: "pos_member list" where
  "ex_uneven = [\<lparr>pm_address = ex_addr CHR ''a'', pm_amount = 100, pm_nHeightToRelease = 0\<rparr>,
     \<lparr>pm_address = ex_addr CHR ''b'', pm_amount = 1485100, pm_nHeightToRelease = 0\<rparr>]"

lemma ex_uneven_numbers:
  "Pos_unit (map pm_amount ex_uneven) = 1000" "dsum (map of_int (map pm_amount ex_uneven)) = 1485200"
  "dbl (7426 / 5) = 6531978678291661 / 4398046511104" "dbl (1 / 10) = 3602879701896397 / 36028797018963968" "dbl (14851 / 10) = 3265769436820275 / 2199023255552"
  "dbl (53509969332565281997 / 36028797018963968) = 1632994669572915 / 1099511627776"
proof -
  show S: "dsum (map of_int (map pm_amount ex_uneven)) = (1485200 :: rat)"
    using dsum_of_int [of "map pm_amount ex_uneven"] by (simp add: ex_uneven_def)
  obtain g where g: "GCD_js (map pm_amount ex_uneven) = Some g" by (simp add: ex_uneven_def)
  have "int g = 100" using GCD_js_correct [of "map pm_amount ex_uneven"] g by (simp add: ex_uneven_def)
  then show "Pos_unit (map pm_amount ex_uneven) = 1000" by (simp only: Pos_unit_def Let_def S g) simp
  show "dbl (7426 / 5) = 6531978678291661 / 4398046511104" by code_simp
  show "dbl (1 / 10) = 3602879701896397 / 36028797018963968" by code_simp
  show "dbl (14851 / 10) = 3265769436820275 / 2199023255552" by code_simp
  show "dbl (53509969332565281997 / 36028797018963968) = 1632994669572915 / 1099511627776" by code_simp
qed

lemma Pos_findIdx_none:
  "dbl a = a \<Longrightarrow> a \<le> r \<Longrightarrow> dbl (b + a) \<le> r \<Longrightarrow>
   Pos_findIdx r 0 0 [a, b] = Inl (Error ''You aren't supposed to be here'')"
  by simp

lemma ex_uneven_slot:
  "Pos_findIdx (jsRem 7426 (dbl (7426 / 5))) 0 0 [dbl (1 / 10), dbl (14851 / 10)] =
     Inl (Error ''You aren't supposed to be here'')"
proof (rule Pos_findIdx_none)
  have r: "jsRem 7426 (dbl (7426 / 5)) = 1632994669572915 / 1099511627776"
  proof -
    have "\<lfloor>7426 / (6531978678291661 / 4398046511104 :: rat)\<rfloor> = 4" by (rule floor_unique) simp_all
    then show ?thesis by (simp add: jsRem_def ex_uneven_numbers(3))
  qed
  show "dbl (dbl (1 / 10)) = dbl (1 / 10)" by (rule dbl_idem) simp
  show "dbl (1 / 10) \<le> jsRem 7426 (dbl (7426 / 5))" unfolding r ex_uneven_numbers(4) by simp
  have "dbl (14851 / 10) + dbl (1 / 10) = 53509969332565281997 / 36028797018963968"
    unfolding ex_uneven_numbers(4,5) by simp
  then show "dbl (dbl (14851 / 10) + dbl (1 / 10)) \<le> jsRem 7426 (dbl (7426 / 5))"
    unfolding r by (simp only: ex_uneven_numbers(6))
qed

text \<open>The search for the member of a slot can fall behind the last share.\<close>

theorem Pos_slot_unassigned:
  assumes "Pos_new 1 None (Some True) 100 ex_uneven len = Inr c" and "0 < len"
  shows "Pos_initRounds (Base_changeSeed 3 c) = Inl (Error ''You aren't supposed to be here'')"
proof -
  note N = Pos_new_Inr [OF assms(1)]
  have "Pos_findIdxByRound (Pos_getSlot 3) c = Inl (Error ''You aren't supposed to be here'')"
  proof -
    have "ps_totalSharesAmount c = dbl (7426 / 5)" using N(4) by (simp only: ex_uneven_numbers(1,2)) simp
    moreover have "ps_arrShares c = [dbl (1 / 10), dbl (14851 / 10)]"
      using N(5) by (simp only: ex_uneven_numbers(1,2)) (simp add: ex_uneven_def)
    ultimately show ?thesis using ex_uneven_slot
      by (simp only: Pos_findIdxByRound_def Pos_getSlot_def POS_paramA_def POS_paramB_def) simp
  qed
  moreover have "[0..<len] = 0 # [1..<len]" using assms(2) by (simp add: upt_conv_Cons)
  ultimately show ?thesis using N(2)
    by (simp add: Pos_initRounds_def Pos_formProposerAddressesSequence_def Base_initRounds_def Base_changeSeed_def
        Pos_findIdxByRound_def)
qed


section \<open>Voting\<close>


definition ex_bft_env :: bft_env where
  "ex_bft_env = \<lparr>be_crypto = ex_crypto, be_blockCrypto = ex_block_crypto,
     be_dataHash = (\<lambda>v. case vv_blockHash v of Some h \<Rightarrow> h | None \<Rightarrow> []), be_sort = (\<lambda>as. as), be_now = 0\<rparr>"

definition ex_vote :: "char \<Rightarrow> view_value" where
  "ex_vote h = \<lparr>vv_state = VOTE_BLOCK, vv_roundNo = None, vv_blockHash = Some (ex_hash h), vv_signature = None\<rparr>"


lemma ex_dataHash [simp]: "Bft_calcDataHash ex_bft_env (ex_vote h) = ex_hash h"
  by (simp add: Bft_calcDataHash_def ex_bft_env_def ex_vote_def)



definition ex_bft :: "unit bft" where
  "ex_bft = \<lparr>bf_concilium = ex_members, bf_walletAddress = ex_addr CHR ''a'',
     bf_arrAddresses = Concilium_getAddresses ex_members, bf_state = VOTE_BLOCK,
     bf_views = [(ex_addr CHR ''a'', [(ex_addr CHR ''a'', ex_vote CHR ''x''), (ex_addr CHR ''b'', ex_vote CHR ''x'')]),
       (ex_addr CHR ''b'', [(ex_addr CHR ''a'', ex_vote CHR ''x''), (ex_addr CHR ''b'', ex_vote CHR ''x'')]),
       (ex_addr CHR ''c'', [(ex_addr CHR ''a'', ex_vote CHR ''y'')])],
     bf_prevViews = None, bf_block = None, bf_patch = None, bf_lastBlockTime = 0, bf_timeout = 0,
     bf_networkOffset = 0, bf_emitted = []\<rparr>"


text \<open>C8: In every state a witness can get to, by any sequence of messages, timeouts and blocks, each block
  it has committed carries signatures of its hash by distinct members whose weights reach the quorum
  of the concilium.\<close>

theorem Bft_commits_certified:
  assumes "bft_reach E c a s" and "EmitCommitBlock b p \<in> set (bf_emitted s)"
  shows "\<exists>bh. Bft_blockHash E b = Inr bh \<and>
    Bft_certified E c (be_sort E (Concilium_getAddresses c)) bh (bl_signatures b)"
  using Bft_inv_reach [OF assms(1)] assms(2) by (auto simp: Bft_inv_def Bft_commits_def)


text \<open>A concilium of one member commits a block: the member's own votes are the consensus.\<close>

definition ex_alone :: concilium where
  "ex_alone = RR (Rr_new 1 None (Some True) (Some [ex_addr CHR ''w'']) None)"

definition ex_signed_block :: block where
  "ex_signed_block = ex_block\<lparr>bl_final := True\<rparr>"

lemmas bft_run_defs = Bft_new_def Rr_initRounds_def Rr_new_def Base_new_def Base_initRounds_def concilium_base.defs Let_def
  Bft_emptyViews_def Rr_getAddresses_def jset_def jget_def Bft_processMessage_def Bft_checkAddresses_def
  Bft_addViewOfNodeWithAddr_def Bft_runConsensus_def Rr_getMembersCount_def Bft_stateChange_def Bft_resetState_def
  Bft_roundChangeHandler_def Bft_setState_def Bft_adjustTimer_def bindS_def returnS_def liftS_def throwS_def
  Bft_updConcilium_def Bft_emit_def Bft_shouldPublish_def Bft_timeForWitnessBlock_def Rr_adjustRound_def Base_adjustRound_def
  Bft_blockStateHandler_def Bft_processValidBlock_def Bft_blockHash_def Block_hash_def Bft_voteStateHandler_def Bft_commit_def
  Bft_getSignaturesForBlock_def Bft_gatherOne_def Bft_witnessData_def Bft_majority_def Bft_tallyOne_def Bft_best_def
  Bft_acceptVote_def Rr_getWitnessWeight_def Rr_getQuorum_def Block_addWitnessSignatures_def Base_getRound_def
  Base_getConciliumId_def Rr_getProposerAddress_def Bft_calcDataHash_def Block_buildTxTree_def

definition ex_round :: "bft_state \<Rightarrow> unit bft_event list \<Rightarrow> block option \<Rightarrow> unit bft" where
  "ex_round st evs b = \<lparr>bf_concilium = RR \<lparr>cn_type = CONCILIUM_TYPE_RR, cn_conciliumId = 1, cn_fees = None,
       cn_isEnabled = True, cn_nSeed = 0, cn_nSeqLength = 1, cn_nRoundBase = Some 0, cn_nLocalRound = Some 0,
       rr_addresses = [ex_addr CHR ''w''], rr_quorum = None\<rparr>,
     bf_walletAddress = ex_addr CHR ''w'', bf_arrAddresses = [ex_addr CHR ''w''], bf_state = st,
     bf_views = [(ex_addr CHR ''w'', [])], bf_prevViews = None, bf_block = b, bf_patch = None, bf_lastBlockTime = 0,
     bf_timeout = bft_Timeouts st, bf_networkOffset = 0, bf_emitted = evs\<rparr>"

lemma ex_bft0: "Bft_new ex_bft_env ex_alone (ex_addr CHR ''w'') = Inr (ex_round ROUND_CHANGE [] None)"
  by (simp add: bft_run_defs ex_alone_def ex_bft_env_def ex_round_def)

lemma ex_bft1: "\<exists>v. snd (Bft_processMessage ex_bft_env (MsgNextRound (ex_addr CHR ''w'') 0) (ex_round ROUND_CHANGE [] None)) =
   (ex_round BLOCK [EmitCreateBlock] None)\<lparr>bf_prevViews := v\<rparr>"
  by (simp add: bft_run_defs ex_bft_env_def ex_round_def)

lemma ex_bft2: "\<exists>n. snd (Bft_processValidBlock ex_bft_env ex_signed_block None ((ex_round BLOCK evs None)\<lparr>bf_prevViews := v\<rparr>)) =
   (ex_round VOTE_BLOCK (evs @ [EmitBlockVote 1 (ex_hash CHR ''b'')]) (Some ex_signed_block))\<lparr>bf_prevViews := v, bf_timeout := n\<rparr>"
  by (simp add: bft_run_defs ex_bft_env_def ex_round_def ex_signed_block_def ex_block_def Block_new_def ex_block_crypto_def)

lemma ex_not_reject [simp]: "ex_hash c \<noteq> REJECT"
proof
  assume "ex_hash c = REJECT"
  then have "length (ex_hash c) = length REJECT" by simp
  then show False by (simp add: ex_hash_def REJECT_def)
qed

lemma ex_bft3: "\<exists>b'. EmitCommitBlock b' None \<in> set (bf_emitted (snd (Bft_processMessage ex_bft_env
      (MsgBlockVote (ex_addr CHR ''w'') (ex_hash CHR ''b'') (Some (replicate 130 CHR ''w'')))
   ((ex_round VOTE_BLOCK evs (Some ex_signed_block))\<lparr>bf_prevViews := v, bf_timeout := n\<rparr>))))"
  by (simp add: bft_run_defs ex_bft_env_def ex_round_def ex_signed_block_def ex_block_def Block_new_def ex_block_crypto_def
    ex_crypto_def) blast

lemma ex_bft_commit:
  "\<exists>s b. bft_reach ex_bft_env ex_alone (ex_addr CHR ''w'') (s :: unit bft) \<and> EmitCommitBlock b None \<in> set (bf_emitted s)"
proof -
  let ?R = "bft_reach ex_bft_env ex_alone (ex_addr CHR ''w'')"
  have "?R (ex_round ROUND_CHANGE [] None)" by (rule bft_start_now) (rule ex_bft0)
  from bft_next [OF this bft_steps_now(1) [where m = "MsgNextRound (ex_addr CHR ''w'') 0"]] ex_bft1 obtain v where
    "?R ((ex_round BLOCK [EmitCreateBlock] None)\<lparr>bf_prevViews := v\<rparr>)" by auto
  from bft_next [OF this bft_steps_now(3) [where b = ex_signed_block and p = None]] ex_bft2 [where evs = "[EmitCreateBlock]" and v = v] obtain n where
    "?R ((ex_round VOTE_BLOCK ([EmitCreateBlock] @ [EmitBlockVote 1 (ex_hash CHR ''b'')])
      (Some ex_signed_block))\<lparr>bf_prevViews := v, bf_timeout := n\<rparr>)" by auto
  from bft_next [OF this bft_steps_now(1) [where m = "MsgBlockVote (ex_addr CHR ''w'') (ex_hash CHR ''b'') (Some (replicate 130 CHR ''w''))"]]
    ex_bft3 show ?thesis by blast
qed

theorem Bft_commits_certified_witness:
  "\<exists>(s :: unit bft) b bh. bft_reach ex_bft_env ex_alone (ex_addr CHR ''w'') s \<and>
     EmitCommitBlock b None \<in> set (bf_emitted s) \<and>
     Bft_certified ex_bft_env ex_alone [ex_addr CHR ''w''] bh (bl_signatures b)"
proof -
  obtain s :: "unit bft" and b where s: "bft_reach ex_bft_env ex_alone (ex_addr CHR ''w'') s"
    "EmitCommitBlock b None \<in> set (bf_emitted s)" using ex_bft_commit by blast
  have "be_sort ex_bft_env (Concilium_getAddresses ex_alone) = [ex_addr CHR ''w'']"
    by (simp add: ex_bft_env_def ex_alone_def Rr_new_def Rr_getAddresses_def concilium_base.defs Base_new_def)
  with Bft_commits_certified [OF s] s show ?thesis by auto
qed

section \<open>The pool of transactions\<close>

text \<open>C11: However transactions are added, removed, aged or loaded, the pool keeps every transaction under its
  hash and its concilium, no hash in two conciliums, and the transactions taken from the network
  number at most 501 plus two for each concilium (the trimming rounds per concilium).\<close>

theorem Mempool_always_ok:
  assumes "mempool_reach C D m"
  shows "Mempool_wf C m \<and> Mempool_calcSize m \<le> 501 + 2 * int (length (mp_mapConcilimTxns m))"
  using Mempool_reach_ok [OF assms] by (simp add: Mempool_bounded_def MEMPOOL_TX_QTY_def)

definition ex_codec :: tx_codec where
  "ex_codec = \<lparr>tc_encode = (\<lambda>t. if Transaction_outputs t = [] then ''e'' else ''f''), tc_decode = (\<lambda>s. Inr ex_tx)\<rparr>"

definition ex_pool :: "unit mempool" where
  "ex_pool = snd (Mempool_addTx ex_crypto 5 ex_tx (Mempool_new False None))"

lemma ex_tx_hash: "Transaction_getHash ex_crypto ex_tx = ex_hash CHR ''8''" "Transaction_conciliumId ex_tx = 1"
  by (simp_all add: ex_tx_def Transaction_getHash_def ex_crypto_def Transaction_conciliumId_def)

lemma ex_pool_eval: "ex_pool = (Mempool_new False None)\<lparr>mp_mapConcilimTxns :=
    [(1, [(ex_hash CHR ''8'', \<lparr>wt_tx = ex_tx, wt_arrived = 5\<rparr>)])]\<rparr>"
  by (simp add: ex_pool_def Mempool_addTx_def ex_tx_hash Mempool_new_def Mempool_ensureConciliumTxns_def jhas_def jset_def
      jget_def Mempool_limitConstraints_def Mempool_calcSize_def MEMPOOL_TX_QTY_def Let_def Mempool_hasTx_def
      Mempool_searchMapByHash_def Mempool_conciliumTxns_def)

lemma ex_pool_reach: "mempool_reach ex_crypto ex_codec ex_pool"
  unfolding ex_pool_def by (rule mp_addTx) (rule mp_start)

theorem Mempool_always_ok_witness: "Mempool_wf ex_crypto ex_pool \<and> Mempool_calcSize ex_pool \<le> 503"
  using Mempool_always_ok [OF ex_pool_reach] by (simp add: ex_pool_eval)

lemma ex_pool_wf: "Mempool_wf ex_crypto ex_pool"
  using Mempool_reach_ok [OF ex_pool_reach] ..

text \<open>\<open>addTx\<close> takes a transaction exactly when the pool (after trimming) does not know its hash; it is
  then found under its hash. Otherwise it throws and leaves the trimmed pool as it is.\<close>

theorem Mempool_addTx_then_get:
  assumes "Mempool_wf C m" and "isHash256 (Transaction_getHash C t)"
    and "m1 = Mempool_limitConstraints (Mempool_ensureConciliumTxns (Transaction_conciliumId t) m)"
  shows "if Mempool_hasTx (Transaction_getHash C t) m1 = Inr False
    then fst (Mempool_addTx C now t m) = Inr () \<and>
      Mempool_getTx (Transaction_getHash C t) (snd (Mempool_addTx C now t m)) = Inr t
    else Mempool_addTx C now t m = (Inl (Error ''tx already in mempool''), m1)"
  using Mempool_addTx_spec [OF assms(1,2), of now, folded assms(3)] by auto

theorem Mempool_addTx_then_get_witness:
  "Mempool_getTx (Transaction_getHash ex_crypto ex_tx) ex_pool = Inr ex_tx"
proof -
  let ?m = "Mempool_new False None :: unit mempool"
  have wf: "Mempool_wf ex_crypto ?m"
    by (simp add: Mempool_wf_def Mempool_new_def Mempool_conciliumTxns_def jget_def jwf_def jkeys_def jhas_def)
  have h: "isHash256 (Transaction_getHash ex_crypto ex_tx)" by (simp add: ex_tx_hash)
  have "Mempool_hasTx (Transaction_getHash ex_crypto ex_tx) (Mempool_limitConstraints (Mempool_ensureConciliumTxns
      (Transaction_conciliumId ex_tx) ?m)) = Inr False"
    by (simp add: ex_tx_hash Mempool_new_def Mempool_ensureConciliumTxns_def jhas_def jset_def
      jget_def Mempool_limitConstraints_def Mempool_calcSize_def MEMPOOL_TX_QTY_def Let_def Mempool_hasTx_def
      Mempool_searchMapByHash_def)
  then show ?thesis using Mempool_addTx_then_get [OF wf h refl, of 5] unfolding ex_pool_def by (simp only: if_True simp_thms)
qed

text \<open>A witness building a block of a concilium gets exactly the transactions of that concilium, those
  from the network and its own.\<close>

theorem Mempool_finalTxns_exact:
  assumes "Mempool_wf C m"
  shows "set (fst (Mempool_getFinalTxns n m)) =
    {t. Transaction_conciliumId t = n \<and>
        (t \<in> wt_tx ` ran (jget (Mempool_conciliumTxns n m)) \<or> t \<in> lt_tx ` ran (jget (mp_mapLocalTxns m)))}"
  by (rule Mempool_final_spec [OF assms])

theorem Mempool_finalTxns_exact_witness: "ex_tx \<in> set (fst (Mempool_getFinalTxns 1 ex_pool))"
  unfolding Mempool_finalTxns_exact [OF ex_pool_wf]
  by (auto simp: ex_tx_hash ex_pool_eval Mempool_conciliumTxns_def jget_def intro!: image_eqI ranI)

text \<open>C37: The local transactions survive a restart: what \<open>_dumpToDisk\<close> writes, \<open>loadLocalTxnsFromDisk\<close> of
  a new pool reads back in the same order, without the patches.\<close>

theorem Mempool_restart_roundtrip:
  assumes "\<forall>(h, l)\<in>set (mp_mapLocalTxns m). tx_codec_ok D (lt_tx l)" and "Mempool_wf C m" and "mp_fileName m"
  shows "mp_mapLocalTxns (Mempool_loadLocalTxnsFromDisk C D
      (Mempool_new True (mp_disk (Mempool_dumpToDisk D m))) :: 'q mempool) =
    map (\<lambda>(h, l). (h, \<lparr>lt_tx = lt_tx l, lt_patchTx = None\<rparr>)) (mp_mapLocalTxns m)"
  by (rule Mempool_dump_load [OF assms])

definition ex_local :: "unit mempool" where
  "ex_local = Mempool_addLocalTx ex_crypto ex_codec ex_tx (Some ()) False (Mempool_new True None)"

lemma ex_local_txns: "mp_mapLocalTxns ex_local = [(ex_hash CHR ''8'', \<lparr>lt_tx = ex_tx, lt_patchTx = Some ()\<rparr>)]"
  "mp_fileName ex_local"
  by (simp_all add: ex_local_def Mempool_addLocalTx_def Mempool_dumpToDisk_def Mempool_new_def ex_tx_hash jset_def Let_def)

theorem Mempool_restart_roundtrip_witness:
  "mp_mapLocalTxns (Mempool_loadLocalTxnsFromDisk ex_crypto ex_codec
      (Mempool_new True (mp_disk (Mempool_dumpToDisk ex_codec ex_local))) :: unit mempool) =
    [(ex_hash CHR ''8'', \<lparr>lt_tx = ex_tx, lt_patchTx = None\<rparr>)]"
proof -
  have "mempool_reach ex_crypto ex_codec ex_local"
    unfolding ex_local_def by (rule mp_addLocalTx) (rule mp_start)
  then have wf: "Mempool_wf ex_crypto ex_local" using Mempool_reach_ok by blast
  have "\<forall>(h, l)\<in>set (mp_mapLocalTxns ex_local). tx_codec_ok ex_codec (lt_tx l)"
    by (simp add: ex_local_txns tx_codec_ok_def ex_codec_def)
  from Mempool_restart_roundtrip [OF this wf] show ?thesis by (simp add: ex_local_txns)
qed

text \<open>A requested hash is not requested again before the hold-off has passed, and is again afterwards;
  once it is done it may be requested at once.\<close>

theorem RequestCache_holdoff:
  assumes "isHash256 h" and "RequestCache_request now h m = Inr (True, m')"
  shows "(RequestCache_request later h m' = Inr (False, m') \<longleftrightarrow> later < now + INV_REQUEST_HOLDOFF) \<and>
    (\<exists>m1. RequestCache_done h m' = Inr m1 \<and>
      RequestCache_request later h m1 = Inr (True, jset h (later + INV_REQUEST_HOLDOFF) m1))"
  using RequestCache_repeat [OF assms, of later] RequestCache_done_spec [OF assms(1), of m' later] by blast

theorem RequestCache_holdoff_witness:
  "\<exists>m. RequestCache_request 1000 (ex_hash CHR ''h'') RequestCache_new = Inr (True, m) \<and>
     RequestCache_request 60999 (ex_hash CHR ''h'') m = Inr (False, m) \<and>
     RequestCache_request 61000 (ex_hash CHR ''h'') m \<noteq> Inr (False, m)"
proof -
  obtain m where m: "RequestCache_request 1000 (ex_hash CHR ''h'') RequestCache_new = Inr (True, m)"
    by (simp add: RequestCache_request_def RequestCache_new_def jget_def)
  have h: "isHash256 (ex_hash CHR ''h'')" by simp
  from RequestCache_holdoff [OF h m, of 60999] RequestCache_holdoff [OF h m, of 61000] m show ?thesis
    by (simp add: INV_REQUEST_HOLDOFF_def)
qed

section \<open>Helpers\<close>

text \<open>The loop of \<open>GCD\<close>, which replaces the larger of two numbers by its remainder, ends for every input
  and gives the greatest common divisor of the array, whatever the signs; only the empty array has
  no result.\<close>

theorem GCD_terminates_correct:
  "(case GCD_js xs of None \<Rightarrow> xs = [] | Some g \<Rightarrow> xs \<noteq> [] \<and> int g = Gcd (set xs))"
proof (cases xs)
  case (Cons a bs)
  then show ?thesis using GCD_js_correct [of xs] by (auto split: option.splits)
qed simp

text \<open>The type check of private keys accepts a string or buffer of any length.\<close>

lemma PrivateKey_unchecked: "PrivateKey (JString s) \<and> PrivateKey (JBuffer b)"
  by (rule PrivateKey_any_length)

end
