(* ===== verification/Cil_Exec_Props.thy ===== *)
theory Cil_Exec_Props
  imports Cil_Exec Cil_Ledger_Props
begin

text \<open>
  What executing a transaction promises (\<open>node.js\<close>, \<open>app.js\<close>): where its coins go, what a contract
  can be charged, and what a failed contract call leaves behind. The example node runs a sandbox
  whose contracts send 500 coins and then throw.
\<close>

section \<open>An example node\<close>

definition ex_concilium :: "nat \<Rightarrow> concilium" where
  "ex_concilium n = RR (Rr_new n None (Some True) (Some [ex_addr CHR ''w'']) None)"

definition ex_throwing_vm ::
  "(string, string, string) node_callbacks \<Rightarrow> environment \<Rightarrow> (string, string, string world) sandbox" where
  "ex_throwing_vm cb env code invocation d st =
     (case App_send cb (ex_addr CHR ''b'') 500 st of (_, st') \<Rightarrow> (Inl (Thrown ''boom''), st'))"

definition ex_ihash :: "char \<Rightarrow> hash" where "ex_ihash c = replicate 63 CHR ''i'' @ [c]"

definition ex_env :: "(string, string, string) node_env" where
  "ex_env = \<lparr>ne_crypto = ex_crypto, ne_serializers = ex_serializers,
     ne_loadConciliums = (\<lambda>_. Inr [ex_concilium 0, ex_concilium 1]), ne_txSize = (\<lambda>_. 256),
     ne_createHash = (\<lambda>s. ex_ihash (last s)), ne_parseInvocation = (\<lambda>_. Inr (''m'', [])),
     ne_stringify = (\<lambda>a. a), ne_vmCreate = (\<lambda>_ _. Inr ([(''m'', ''(){}'')], ''data'')),
     ne_vmRun = ex_throwing_vm, ne_processedBlock = None\<rparr>"

definition ex_storage :: "string storage" where
  "ex_storage = Storage_new
     \<lparr>sg_utxos := [(ex_hash CHR ''1'', \<lparr>utxo_txHash = ex_hash CHR ''1'', utxo_arrIndexes = [0],
         utxo_arrOutputs = [Coins_new 100000 (ex_addr CHR ''a'')]\<rparr>)],
      sg_contracts := [(ex_addr CHR ''c'', Contract_decode (Some ''vdata'') (Some [(''m'', ''(){}'')]) (Some 1) 900
         CONTRACT_V_V8 (Some (ex_addr CHR ''c'')))],
      sg_arrConciliumDefinition := Some [ex_concilium 0, ex_concilium 1]\<rparr>"

definition ex_signed :: "tx_output list \<Rightarrow> tx" where
  "ex_signed outs = \<lparr>tx_payload = \<lparr>pl_version = 1, pl_conciliumId = 1,
      pl_ins = [\<lparr>in_txHash = ex_hash CHR ''1'', in_nTxOutput = 0\<rparr>], pl_outs = outs\<rparr>,
    tx_claimProofs = [], tx_txSignature = Some (replicate 130 CHR ''a'')\<rparr>"

definition ex_pay :: tx where
  "ex_pay = ex_signed [plainOutput 60000 (ex_addr CHR ''b'')]"

definition ex_call :: tx where
  "ex_call = ex_signed [\<lparr>out_amount = 200, out_receiverAddr = ex_addr CHR ''c'', out_contractCode = Some ''{}'',
      out_addrChangeReceiver = Some (ex_addr CHR ''a'')\<rparr>]"

lemma ex_ihash_simps [simp]: "ex_ihash c = ex_ihash d \<longleftrightarrow> c = d" "isHash256 (ex_ihash c)" "ex_ihash c \<noteq> []"
  "ex_ihash c = ex_hash d \<longleftrightarrow> c = CHR ''i'' \<and> d = CHR ''i''"
  "ex_hash d = ex_ihash c \<longleftrightarrow> c = CHR ''i'' \<and> d = CHR ''i''"
proof -
  show "ex_ihash c = ex_ihash d \<longleftrightarrow> c = d" "isHash256 (ex_ihash c)" "ex_ihash c \<noteq> []"
    by (simp_all add: ex_ihash_def isHash256_def)
  have "ex_hash d = replicate 63 d @ [d]"
    unfolding ex_hash_def by (simp add: replicate_append_same numeral_eq_Suc)
  then have "ex_ihash c = ex_hash d \<longleftrightarrow> replicate 63 CHR ''i'' = replicate 63 d \<and> c = d"
    by (simp only: ex_ihash_def append1_eq_conv)
  also have "\<dots> \<longleftrightarrow> c = CHR ''i'' \<and> d = CHR ''i''" by auto
  finally show "ex_ihash c = ex_hash d \<longleftrightarrow> c = CHR ''i'' \<and> d = CHR ''i''" .
  then show "ex_hash d = ex_ihash c \<longleftrightarrow> c = CHR ''i'' \<and> d = CHR ''i''" by auto
qed

text \<open>The rules that evaluate an example; hashes and addresses stay folded.\<close>

lemma ex_concilium_fees [simp]:
  "Concilium_getFeeTxSize (ex_concilium n) = None" "Concilium_getFeeContractCreation (ex_concilium n) = None"
  "Concilium_getFeeContractInvocation (ex_concilium n) = None" "Concilium_getFeeStorage (ex_concilium n) = None"
  "Concilium_getFeeInternalTx (ex_concilium n) = None"
  by (simp_all add: ex_concilium_def Rr_new_def Base_new_def concilium_base.defs Base_getFeeTxSize_def
      Base_getFeeContractCreation_def Base_getFeeContractInvocation_def Base_getFeeStorage_def
      Base_getFeeInternalTx_def)

lemma ex_addrCreation: "getAddrContractCreation = ex_addr CHR ''0''"
  by (simp add: getAddrContractCreation_def ex_addr_def)

lemma ex_nonce [simp]: "last (h @ show_nat 0) = CHR ''0''" "last (h @ show_nat (Suc 0)) = CHR ''1''"
  by (simp_all add: show_nat.simps [of 0] show_nat.simps [of "Suc 0"])

lemmas exec_defs = Node_processTx_def Node_findContract_def Node_inputsPatch_def Node_calculateSizeFee_def
  Node_conciliumFee_def Node_getContractByAddr_def Storage_getConciliumById_def Storage_ensureArrConciliumDefinition_def
  Storage_getUtxosPatch_def Storage_getUtxo_def Storage_getContract_def
  App_processTxInputs_def App_processInput_def App_claimProof_def App_verifyPayToAddr_def App_processPayments_def App_processPayment_def
  PatchDB_new_def PatchDB_setConciliumId_def PatchDB_empty_def PatchDB_getUtxo_def PatchDB_setUtxo_def PatchDB_spendCoins_def
  PatchDB_createCoins_def PatchDB_setSpentOutput_def PatchDB_getSpentOutputs_def PatchDB_hasUtxos_def
  UTXO_coinsAtIndex_def UTXO_spendCoins_def UTXO_addCoins_def UTXO_new_def UTXO_getTxHash_def
  Coins_new_def Coins_getAmount_def Coins_getReceiverAddr_def
  Transaction_isContractCreation_def Transaction_getOutCoins_def Transaction_outputs_def Transaction_inputs_def
  Transaction_utxos_def Transaction_conciliumId_def Transaction_getHash_def Transaction_getTxSignature_def
  Transaction_getContractAddr_def Transaction_getContractOutput_def Transaction_getContractSentAmount_def
  plainOutput_def bindS_def liftS_def returnS_def throwS_def typeforce_def assertR_def Let_def jget_def jset_def jhas_def
  feeOr_def parseInt1024_def TX_FEE_def CONTRACT_INVOCATION_FEE_def CONTRACT_CREATION_FEE_def
  INTERNAL_TX_FEE_def STORAGE_PER_BYTE_FEE_def

lemmas ex_node_defs = ex_env_def ex_pay_def ex_call_def ex_signed_def ex_storage_def ex_crypto_def Storage_new_def ex_addrCreation

lemma ex_pay_run: "\<exists>p s. Node_processTx 3 ex_env None False ex_pay ex_storage = (Inr (40000, p), s)"
  by (simp add: exec_defs ex_node_defs)

lemmas run_defs = Node_processContract_def Node_runContractTx_def Node_runOldContract_def Node_contractReceipt_def
  Node_settleContract_def Node_takeFee_def Node_createContractChange_def Node_createInternalTx_def Node_sendCoins_def
  Node_sendFromContract_def Node_setReceipt_def Node_coinsUsed_def Node_getFeeStorage_def Node_getFeeContractCreation_def
  Node_getFeeContractInvocatoin_def Node_getFeeInternalTx_def Node_isTimeToForkSerializer1_def Node_isTimeToForkSerializer3_def
  App_setupVariables_def App_initial_def App_runContract_def App_runBody_def App_execStarted_def App_execDone_def
  App_charge_def App_spendCoins_def App_getCurrentContract_def App_updCurrent_def App_prepareCall_def App_hasMethod_def
  App_prepareCode_def App_prepareMethod_def App_stripAsync_def App_send_def App_coinsSpent_def App_getDataDelta_def
  Contract_decode_def Contract_getStoredAddress_def Contract_getConciliumId_def Contract_getBalance_def Contract_withdraw_def
  Contract_deposit_def Contract_getCode_def Contract_getData_def Contract_getDataSize_def Contract_ensureData_def
  Contract_serialize_def Contract_deserialize_def Contract_getSizeOfEmptyData_def Contract_getVersion_def
  Contract_setVersion_def Contract_switchSerializerToJson_def Contract_invalidateEncodedData_def Contract_dirtyWorkaround_def
  Contract_isDataModified_def CONTRACT_V_JSON_def CONTRACT_V_V8_def ex_serializers_def ex_throwing_vm_def
  PatchDB_setReceipt_def PatchDB_getNonce_def TxReceipt_new_def TxReceipt_addInternalUtxo_def TxReceipt_merge_def
  TxReceipt_getCoinsUsed_def TxReceipt_updateCoinsUsed_def TxReceipt_isSuccessful_def TxReceipt_setStatus_def
  TX_STATUS_OK_def TX_STATUS_FAILED_def Transaction_getContractCode_def Transaction_getContractChangeReceiver_def
  Transaction_getTxSignerAddress_def

text \<open>The call, step by step: the contract as the run starts, and what the sandbox leaves.\<close>

definition ex_running :: "string contract" where
  "ex_running = (Contract_decode (Some ''jdata'') (Some [(''m'', ''(){}'')]) (Some 1) 900 CONTRACT_V_JSON
     (Some (ex_addr CHR ''c'')))\<lparr>ct_cacheData := Some ''data'', ct_cacheCode := Some [(''m'', ''(){}'')]\<rparr>"

lemma ex_send:
  assumes "app_arrContracts a \<noteq> []" and "last (app_arrContracts a) = Some ex_running"
    and "300 \<le> app_nCoinsLimit a" and "nFeeInternalTx (app_objFees a) = 300"
    and "pt_mapTxReceipts p = []" and "pt_nonce p = 0"
  shows "ex_throwing_vm (Node_createCallbacksForApp n ex_env pb (ex_hash CHR ''7'') e) env code ivc d (a, (p, s)) =
    (Inl (Thrown ''boom''),
     (App_updCurrent (\<lambda>_. Some (ex_running\<lparr>ct_balance := 400\<rparr>)) (a\<lparr>app_nCoinsLimit := app_nCoinsLimit a - 300\<rparr>),
      (p\<lparr>pt_nonce := 1, pt_coins := jset (ex_ihash CHR ''0'') \<lparr>utxo_txHash = ex_ihash CHR ''0'', utxo_arrIndexes = [0],
           utxo_arrOutputs = [Coins_new 500 (ex_addr CHR ''b'')]\<rparr> (pt_coins p),
         pt_mapTxReceipts := [(ex_hash CHR ''7'', \<lparr>rc_contractAddress = [], rc_coinsUsed = 0, rc_status = TX_STATUS_OK,
           rc_message = [], rc_internalTxns = [ex_ihash CHR ''0''], rc_coins = [Coins_new 500 (ex_addr CHR ''b'')]\<rparr>)]\<rparr>, s)))"
proof -
  have cb: "cb_sendCoins (Node_createCallbacksForApp n ex_env pb (ex_hash CHR ''7'') e) =
      Node_sendFromContract ex_env (ex_hash CHR ''7'')" by (cases n) simp_all
  have snd: "Node_sendCoins ex_env (ex_hash CHR ''7'') (ex_addr CHR ''b'') 500 ex_running p =
      (Inr (ex_running\<lparr>ct_balance := 400\<rparr>),
       p\<lparr>pt_nonce := 1, pt_coins := jset (ex_ihash CHR ''0'') \<lparr>utxo_txHash = ex_ihash CHR ''0'', utxo_arrIndexes = [0],
           utxo_arrOutputs = [Coins_new 500 (ex_addr CHR ''b'')]\<rparr> (pt_coins p),
         pt_mapTxReceipts := [(ex_hash CHR ''7'', \<lparr>rc_contractAddress = [], rc_coinsUsed = 0, rc_status = TX_STATUS_OK,
           rc_message = [], rc_internalTxns = [ex_ihash CHR ''0''], rc_coins = [Coins_new 500 (ex_addr CHR ''b'')]\<rparr>)]\<rparr>)"
    using assms(5,6)
    by (simp add: Node_sendCoins_def Node_createInternalTx_def Node_setReceipt_def PatchDB_setReceipt_def
        PatchDB_getNonce_def PatchDB_setUtxo_def UTXO_new_def UTXO_addCoins_def UTXO_getTxHash_def UTXO_coinsAtIndex_def
        TxReceipt_new_def TxReceipt_addInternalUtxo_def Contract_withdraw_def Contract_getBalance_def Contract_deposit_def
        ex_running_def Contract_decode_def ex_env_def bindS_def liftS_def returnS_def throwS_def typeforce_def assertR_def
        Let_def jget_def jset_def)
  show ?thesis
    using assms(1-4)
    by (simp add: ex_throwing_vm_def App_send_def cb Node_sendFromContract_def App_getCurrentContract_def
        App_charge_def App_spendCoins_def Let_def snd)
qed

definition ex_switched :: "string contract" where
  "ex_switched = (Contract_decode None (Some [(''m'', ''(){}'')]) (Some 1) 900 CONTRACT_V_JSON
     (Some (ex_addr CHR ''c'')))\<lparr>ct_cacheData := Some ''data''\<rparr>"

lemma ex_switch:
  "Contract_switchSerializerToJson ex_serializers (Contract_decode (Some ''vdata'') (Some [(''m'', ''(){}'')]) (Some 1) 900
     CONTRACT_V_V8 (Some (ex_addr CHR ''c''))) = Inr ex_switched"
  by (simp add: Contract_switchSerializerToJson_def Contract_getData_def Contract_deserialize_def Contract_getVersion_def
      Contract_setVersion_def Contract_invalidateEncodedData_def Contract_decode_def ex_switched_def ex_serializers_def
      CONTRACT_V_JSON_def CONTRACT_V_V8_def)

lemma ex_dataSize:
  "Contract_getDataSize ex_serializers ex_switched = (4, ex_running\<lparr>ct_cacheCode := None\<rparr>)"
  "Contract_getDataSize ex_serializers (ex_running\<lparr>ct_balance := n\<rparr>) = (4, ex_running\<lparr>ct_balance := n\<rparr>)"
  by (simp_all add: Contract_getDataSize_def Contract_ensureData_def Contract_serialize_def Contract_getVersion_def
      Contract_getSizeOfEmptyData_def Contract_decode_def ex_switched_def ex_running_def ex_serializers_def Let_def
      CONTRACT_V_JSON_def)

lemma ex_prepare:
  "\<exists>code ivc d. App_prepareCall ex_serializers (''m'', []) None (ex_running\<lparr>ct_cacheCode := None\<rparr>) =
     (Inr (code, ivc, d), ex_running)"
  by (simp add: App_prepareCall_def Contract_getCode_def Contract_getData_def App_hasMethod_def App_prepareCode_def
      App_prepareMethod_def App_stripAsync_def Let_def Contract_decode_def ex_running_def jget_def)

lemma ex_run:
  assumes "pt_mapTxReceipts p = []" and "pt_nonce p = 0" and "10300 \<le> n"
    and "f = \<lparr>nFeeContractCreation = 10000, nFeeContractInvocation = 10000, nFeeInternalTx = 300\<rparr>"
  shows "\<exists>a. App_runContract ex_serializers (ex_throwing_vm (Node_createCallbacksForApp k ex_env pb (ex_hash CHR ''7'') e) env)
      (''m'', []) ex_switched None False (App_setupVariables n f App_initial, (p, s)) =
    (Inl (Thrown ''boom''), ex_running\<lparr>ct_balance := 400\<rparr>,
     (a, (p\<lparr>pt_nonce := 1, pt_coins := jset (ex_ihash CHR ''0'') \<lparr>utxo_txHash = ex_ihash CHR ''0'', utxo_arrIndexes = [0],
           utxo_arrOutputs = [Coins_new 500 (ex_addr CHR ''b'')]\<rparr> (pt_coins p),
         pt_mapTxReceipts := [(ex_hash CHR ''7'', \<lparr>rc_contractAddress = [], rc_coinsUsed = 0, rc_status = TX_STATUS_OK,
           rc_message = [], rc_internalTxns = [ex_ihash CHR ''0''], rc_coins = [Coins_new 500 (ex_addr CHR ''b'')]\<rparr>)]\<rparr>, s))) \<and>
    App_coinsSpent a = 10300 \<and> App_getDataDelta a = 0"
proof -
  obtain code ivc d where pc: "App_prepareCall ex_serializers (''m'', []) None (ex_running\<lparr>ct_cacheCode := None\<rparr>) =
     (Inr (code, ivc, d), ex_running)" using ex_prepare by blast
  show ?thesis
    using assms
    by (simp add: App_runContract_def App_execStarted_def App_setupVariables_def App_initial_def ex_dataSize App_runBody_def
        App_charge_def App_spendCoins_def App_getCurrentContract_def pc App_updCurrent_def ex_send App_execDone_def Let_def
        App_coinsSpent_def App_getDataDelta_def)
qed


definition ex_started :: "string patch" where
  "ex_started = PatchDB_empty\<lparr>
     pt_coins := [(ex_hash CHR ''1'', \<lparr>utxo_txHash = ex_hash CHR ''1'', utxo_arrIndexes = [], utxo_arrOutputs = []\<rparr>)],
     pt_mapSpentUtxos := [(ex_hash CHR ''1'', [(0, ex_hash CHR ''7'')])]\<rparr>"

definition ex_found :: "string contract" where
  "ex_found = Contract_decode (Some ''vdata'') (Some [(''m'', ''(){}'')]) (Some 1) 900
     CONTRACT_V_V8 (Some (ex_addr CHR ''c''))"

lemma ex_begin: "Node_processTx 3 ex_env None False ex_call ex_storage =
    Node_processContract 3 ex_env False (Some ex_found) ex_call ex_started PatchDB_empty 99800 1000 ex_storage"
  by (simp add: exec_defs ex_node_defs ex_started_def ex_found_def)

lemma ex_call_simps:
  "Transaction_getContractSentAmount ex_call = Inr 200"
  "Transaction_getHash (ne_crypto ex_env) ex_call = ex_hash CHR ''7''"
  "Transaction_conciliumId ex_call = 1"
  "Transaction_getContractCode ex_call = Inr (Some ''{}'')"
  "Transaction_getContractChangeReceiver ex_call = Inr (Some (ex_addr CHR ''a''))"
  "ne_processedBlock ex_env = None" "ne_serializers ex_env = ex_serializers"
  "ne_parseInvocation ex_env s = Inr (''m'', [])" "ne_vmRun ex_env = ex_throwing_vm"
  "ne_createHash ex_env h = ex_ihash (last h)"
  by (simp_all add: ex_call_def ex_signed_def ex_env_def ex_crypto_def Transaction_get_defs Transaction_getHash_def
     Transaction_conciliumId_def Transaction_getContractCode_def Transaction_getContractOutput_def
     Transaction_getContractSentAmount_def Transaction_getContractChangeReceiver_def Transaction_outputs_def)

lemma ex_concilium_of: "Storage_getConciliumById ex_serializers (ne_loadConciliums ex_env) (Suc 0) ex_storage =
  (Inr (ex_concilium 1), ex_storage)"
  by (simp add: Storage_getConciliumById_def Storage_ensureArrConciliumDefinition_def ex_storage_def bindS_def returnS_def Storage_new_def ex_env_def liftS_def throwS_def)

lemma ex_fees: 
  "Node_getFeeStorage ex_env ex_call False ex_storage = (Inr 10, ex_storage)"
  "Node_getFeeContractCreation ex_env ex_call False ex_storage = (Inr 10000, ex_storage)"
  "Node_getFeeContractInvocatoin ex_env ex_call False ex_storage = (Inr 10000, ex_storage)"
  "Node_getFeeInternalTx ex_env ex_call False ex_storage = (Inr 300, ex_storage)"
  by (simp_all add: Node_getFeeStorage_def Node_getFeeContractCreation_def
  Node_getFeeContractInvocatoin_def Node_getFeeInternalTx_def Node_conciliumFee_def ex_call_simps ex_concilium_of
  bindS_def returnS_def feeOr_def CONTRACT_INVOCATION_FEE_def CONTRACT_CREATION_FEE_def
  INTERNAL_TX_FEE_def STORAGE_PER_BYTE_FEE_def)

definition ex_minted :: "string patch" where
  "ex_minted = ex_started\<lparr>pt_nonce := 1,
     pt_coins := pt_coins ex_started @ [(ex_ihash CHR ''0'', \<lparr>utxo_txHash = ex_ihash CHR ''0'', utxo_arrIndexes = [0],
           utxo_arrOutputs = [Coins_new 500 (ex_addr CHR ''b'')]\<rparr>)],
     pt_mapTxReceipts := [(ex_hash CHR ''7'', \<lparr>rc_contractAddress = [], rc_coinsUsed = 0, rc_status = TX_STATUS_OK,
           rc_message = [], rc_internalTxns = [ex_ihash CHR ''0''], rc_coins = [Coins_new 500 (ex_addr CHR ''b'')]\<rparr>)]\<rparr>"

lemma ex_run_tx:
  "\<exists>a. Node_runContractTx 3 ex_env PatchDB_empty ex_call (Some ex_switched) 99800 1000 10
     \<lparr>nFeeContractCreation = 10000, nFeeContractInvocation = 10000, nFeeInternalTx = 300\<rparr> (ex_started, ex_storage) =
     Inr \<lparr>cx_result = Inl (Thrown ''boom''), cx_contract = Some (ex_running\<lparr>ct_balance := 400\<rparr>), cx_bNewContract = False,
       cx_app = a, cx_patch = ex_minted, cx_storage = ex_storage\<rparr> \<and> App_coinsSpent a = 10300 \<and> App_getDataDelta a = 0"
proof -
  let ?f = "\<lparr>nFeeContractCreation = 10000, nFeeContractInvocation = 10000, nFeeInternalTx = 300\<rparr>"
  let ?w = "(ex_started, ex_storage)"
  define e :: environment where "e = \<lparr>en_contractTx = ex_hash CHR ''7'',
            en_callerAddress = Transaction_getTxSignerAddress (ne_crypto ex_env) ex_call,
            en_value = 200, en_contractAddr = Some (ex_addr CHR ''c''), en_balance = 900,
            en_block = None\<rparr>"
  have m: "ex_started\<lparr>pt_nonce := 1, pt_coins := jset (ex_ihash CHR ''0'') \<lparr>utxo_txHash = ex_ihash CHR ''0'', utxo_arrIndexes = [0],
           utxo_arrOutputs = [Coins_new 500 (ex_addr CHR ''b'')]\<rparr> (pt_coins ex_started),
         pt_mapTxReceipts := [(ex_hash CHR ''7'', \<lparr>rc_contractAddress = [], rc_coinsUsed = 0, rc_status = TX_STATUS_OK,
           rc_message = [], rc_internalTxns = [ex_ihash CHR ''0''], rc_coins = [Coins_new 500 (ex_addr CHR ''b'')]\<rparr>)]\<rparr> = ex_minted"
    by (simp add: ex_minted_def ex_started_def jset_def)
  have st: "pt_mapTxReceipts ex_started = []" "pt_nonce ex_started = 0"
    by (simp_all add: ex_started_def PatchDB_empty_def)
  obtain a where a: "App_runContract ex_serializers (ex_throwing_vm (Node_createCallbacksForApp 3 ex_env PatchDB_empty (ex_hash CHR ''7'') e) e)
      (''m'', []) ex_switched None False (App_setupVariables 98800 ?f App_initial, ?w) =
    (Inl (Thrown ''boom''), ex_running\<lparr>ct_balance := 400\<rparr>, (a, (ex_minted, ex_storage)))"
    "App_coinsSpent a = 10300" "App_getDataDelta a = 0"
    using ex_run [OF st _ refl, of 98800 3 PatchDB_empty e e ex_storage] unfolding m by auto
  have sw: "Contract_getConciliumId ex_switched = Some 1" "Contract_getStoredAddress ex_switched = Inr (ex_addr CHR ''c'')"
    "Contract_getBalance ex_switched = 900"
    by (simp_all add: ex_switched_def Contract_decode_def Contract_getConciliumId_def Contract_getStoredAddress_def Contract_getBalance_def)
  show ?thesis
    using a(2,3)
    by (simp add: Node_runContractTx_def ex_call_simps Node_runOldContract_def Let_def sw a(1) e_def [symmetric])
qed

lemma ex_fail_ok: "TX_STATUS_OK \<noteq> TX_STATUS_FAILED" by (simp add: TX_STATUS_OK_def TX_STATUS_FAILED_def)

definition ex_failed_receipt :: receipt where
  "ex_failed_receipt = \<lparr>rc_contractAddress = [], rc_coinsUsed = 11300, rc_status = TX_STATUS_FAILED, rc_message = [],
     rc_internalTxns = [ex_ihash CHR ''0''], rc_coins = [Coins_new 500 (ex_addr CHR ''b'')]\<rparr>"

lemma ex_dirty: "\<exists>c. Contract_dirtyWorkaround ex_serializers (ex_running\<lparr>ct_balance := 400\<rparr>) = Inr c"
  by (simp add: Contract_dirtyWorkaround_def Contract_getData_def ex_running_def ex_serializers_def Contract_decode_def)

lemma ex_call_run:
  "\<exists>p. Node_processTx 3 ex_env None False ex_call ex_storage = (Inr (11300, p), ex_storage) \<and>
     pt_mapContractStates p = [] \<and>
     pt_coins p = pt_coins ex_minted @ [(ex_ihash CHR ''1'', \<lparr>utxo_txHash = ex_ihash CHR ''1'', utxo_arrIndexes = [0],
           utxo_arrOutputs = [Coins_new 88700 (ex_addr CHR ''a'')]\<rparr>)]"
proof -
  let ?f = "\<lparr>nFeeContractCreation = 10000, nFeeContractInvocation = 10000, nFeeInternalTx = 300\<rparr>"
  obtain a where run: "Node_runContractTx 3 ex_env PatchDB_empty ex_call (Some ex_switched) 99800 1000 10 ?f (ex_started, ex_storage) =
     Inr \<lparr>cx_result = Inl (Thrown ''boom''), cx_contract = Some (ex_running\<lparr>ct_balance := 400\<rparr>), cx_bNewContract = False,
       cx_app = a, cx_patch = ex_minted, cx_storage = ex_storage\<rparr>" 
    and a: "App_coinsSpent a = 10300" "App_getDataDelta a = 0"
    using ex_run_tx by blast
  let ?r = "TxReceipt_new [] 11300 TX_STATUS_FAILED ''boom''"
  have r: "Node_contractReceipt 1000 10 \<lparr>cx_result = Inl (Thrown ''boom''), cx_contract = Some (ex_running\<lparr>ct_balance := 400\<rparr>), cx_bNewContract = False,
       cx_app = a, cx_patch = ex_minted, cx_storage = ex_storage\<rparr> = Inr ?r"
    by (simp add: Node_contractReceipt_def Node_coinsUsed_def a)
  have set: "PatchDB_setReceipt (ex_hash CHR ''7'') ?r ex_minted =
      Inr (Some (ex_failed_receipt), ex_minted\<lparr>pt_mapTxReceipts := [(ex_hash CHR ''7'', ex_failed_receipt)]\<rparr>)"
    by (simp add: PatchDB_setReceipt_def ex_minted_def ex_failed_receipt_def TxReceipt_merge_def TxReceipt_new_def TxReceipt_getCoinsUsed_def
        TxReceipt_isSuccessful_def TxReceipt_updateCoinsUsed_def TxReceipt_setStatus_def TX_STATUS_OK_def TX_STATUS_FAILED_def Let_def jget_def jset_def)
  let ?p = "ex_minted\<lparr>pt_mapTxReceipts := [(ex_hash CHR ''7'', ex_failed_receipt)]\<rparr>"
  obtain cd where cd: "Contract_dirtyWorkaround ex_serializers (ex_running\<lparr>ct_balance := 400\<rparr>) = Inr cd"
    using ex_dirty by blast
  have st: "Node_settleContract ex_env ex_call 200 ?r (Some (ex_running\<lparr>ct_balance := 400\<rparr>)) 99800 ?p = Inr (100000, ?p)"
    by (simp add: Node_settleContract_def ex_call_simps Node_isTimeToForkSerializer3_def Node_isTimeToForkSerializer1_def cd
      TxReceipt_isSuccessful_def TxReceipt_new_def TX_STATUS_OK_def TX_STATUS_FAILED_def)
  have fee: "\<exists>p. Node_takeFee ex_env False ex_call ?r False 100000 ?p = (Inr 11300, p) \<and> pt_mapContractStates p = [] \<and>
     pt_coins p = pt_coins ex_minted @ [(ex_ihash CHR ''1'', \<lparr>utxo_txHash = ex_ihash CHR ''1'', utxo_arrIndexes = [0],
           utxo_arrOutputs = [Coins_new 88700 (ex_addr CHR ''a'')]\<rparr>)]"
    by (simp add: Node_takeFee_def Node_createContractChange_def ex_call_simps TxReceipt_getCoinsUsed_def TxReceipt_new_def
      Node_createInternalTx_def PatchDB_getNonce_def PatchDB_setUtxo_def UTXO_new_def UTXO_addCoins_def UTXO_getTxHash_def UTXO_coinsAtIndex_def
        TxReceipt_addInternalUtxo_def bindS_def liftS_def returnS_def Let_def ex_minted_def ex_started_def PatchDB_empty_def jset_def jget_def)
  from fee obtain p where p: "Node_takeFee ex_env False ex_call ?r False 100000 ?p = (Inr 11300, p)" "pt_mapContractStates p = []"
     "pt_coins p = pt_coins ex_minted @ [(ex_ihash CHR ''1'', \<lparr>utxo_txHash = ex_ihash CHR ''1'', utxo_arrIndexes = [0],
           utxo_arrOutputs = [Coins_new 88700 (ex_addr CHR ''a'')]\<rparr>)]" by blast
  have "Node_processTx 3 ex_env None False ex_call ex_storage = (Inr (11300, p), ex_storage)"
    by (simp add: ex_begin Node_processContract_def bindS_def liftS_def ex_fees ex_call_simps Node_isTimeToForkSerializer1_def
       ex_found_def ex_switch [simplified] run [simplified] r [simplified] set st p)
  with p show ?thesis by blast
qed

section \<open>Where the coins of a transaction go\<close>

lemma ex_storage_wf: "Storage_wf ex_storage"
  by (auto simp: Storage_wf_def ex_storage_def Storage_new_def PatchDB_coinsOk_def UTXO_wf_def UTXO_abs_def jget_def
      fun_eq_iff)

text \<open>C2: A transaction that is no contract's takes distinct, unspent outputs it has a valid signature for;
  what they hold is what its outputs pay out plus the fee, to the coin, and the fee is more than
  the fee for its size.\<close>

theorem Node_transfer_conserves:
  assumes "Storage_wf s" and "\<forall>q\<in>set_option pb. PatchDB_wf q"
    and "Node_findContract E t pb s = Inr (False, c)"
    and "Node_processTx depth E pb False t s = (Inr (fee, p), s')"
  shows "distinct (Transaction_keys t) \<and>
    (\<forall>i<length (Transaction_inputs t). \<exists>c. Node_unspent pb s (Transaction_keys t ! i) = Some c \<and>
       App_owned (ne_crypto E) t i c) \<and>
    Node_totalIn pb s t = Transaction_amountOut t + fee \<and>
    (\<exists>nFeeSize. fst (Node_calculateSizeFee E t False s) = Inr nFeeSize \<and> nFeeSize < fee)"
proof -
  have pb: "\<And>q. pb = Some q \<Longrightarrow> PatchDB_wf q" using assms(2) by simp
  from Node_transfer_spec [OF assms(1) pb assms(3,4)] show ?thesis by blast
qed

theorem Node_transfer_conserves_witness:
  "Node_totalIn None ex_storage ex_pay = 60000 + 40000"
proof -
  obtain p s where run: "Node_processTx 3 ex_env None False ex_pay ex_storage = (Inr (40000, p), s)"
    using ex_pay_run by blast
  have find: "Node_findContract ex_env ex_pay None ex_storage = Inr (False, None)"
    by (simp add: exec_defs ex_node_defs)
  have "Transaction_amountOut ex_pay = 60000"
    by (simp add: Transaction_amountOut_sum ex_pay_def ex_signed_def Transaction_outputs_def plainOutput_def)
  with Node_transfer_conserves [OF ex_storage_wf _ find run] show ?thesis by simp
qed



text \<open>C5: Whatever a contract does inside the sandbox (spend, send, call other contracts to any depth),
  it is charged no less than nothing and no more than what is left of the coins of its transaction
  after the fee for the size; a run that counts as successful used no more than those coins.\<close>

theorem Node_contract_budget:
  assumes "Node_sandboxed E" and "fees_ok objFees" and "nFeeSize \<le> nMaxCoins"
    and "Node_runContractTx depth E pb t c nMaxCoins nFeeSize nFeeStorage objFees w = Inr x"
  shows "0 \<le> App_coinsSpent (cx_app x) \<and> App_coinsSpent (cx_app x) \<le> nMaxCoins - nFeeSize \<and>
    (isOk (cx_result x) \<longrightarrow> Node_coinsUsed nFeeSize nFeeStorage (cx_app x) \<le> nMaxCoins)"
  using Node_runContractTx_spent [OF assms] by blast

lemma ex_env_sandboxed: "Node_sandboxed ex_env"
  unfolding Node_sandboxed_def App_sandboxed_def
proof (intro allI)
  fix cb :: "(string, string, string) node_callbacks" and env code inv d st
  have "snd (ne_vmRun ex_env cb env code inv d st) = snd (App_send cb (ex_addr CHR ''b'') 500 st)"
    by (simp add: ex_env_def ex_throwing_vm_def split: prod.split)
  then show "App_acts cb st (snd (ne_vmRun ex_env cb env code inv d st))"
    by (simp add: App_acts_send [OF App_acts_refl refl])
qed

theorem Node_contract_budget_witness:
  "\<exists>x. Node_runContractTx 3 ex_env PatchDB_empty ex_call (Some ex_switched) 99800 1000 10
     \<lparr>nFeeContractCreation = 10000, nFeeContractInvocation = 10000, nFeeInternalTx = 300\<rparr> (ex_started, ex_storage) =
     Inr x \<and> App_coinsSpent (cx_app x) \<le> 98800"
proof -
  obtain x where x: "Node_runContractTx 3 ex_env PatchDB_empty ex_call (Some ex_switched) 99800 1000 10
     \<lparr>nFeeContractCreation = 10000, nFeeContractInvocation = 10000, nFeeInternalTx = 300\<rparr> (ex_started, ex_storage) = Inr x"
    using ex_run_tx by blast
  have "fees_ok \<lparr>nFeeContractCreation = 10000, nFeeContractInvocation = 10000, nFeeInternalTx = 300\<rparr>"
    by (simp add: fees_ok_def)
  from Node_contract_budget [OF ex_env_sandboxed this _ x] x show ?thesis by auto
qed


end
