(* ===== verification/Cil_Chain_Props.thy ===== *)
theory Cil_Chain_Props
  imports Cil_Exec_Props Cil_Pending
begin

text \<open>
  What the chain state promises: patches combine like the partial maps they stand for
  (\<open>patch.js\<close>), a transaction's inputs are spent once (\<open>app.js\<close>), the storage takes a patch over exactly
  (\<open>persistentStorage.js\<close>), and the blocks that are not final yet give parents that fit together and
  become final when a majority of the conciliums stands on them (\<open>pendingBlocksManager.js\<close>).
\<close>

section \<open>Patches\<close>

text \<open>C6: \<open>merge\<close> joins two patches exactly when they are compatible (no output spent by two transactions, no
  two blocks of one level of a concilium, no contract of two conciliums, no two receipts of one
  transaction), and then leaves unspent what neither spends and remembers every spender; otherwise
  it throws.\<close>

theorem PatchDB_merge_refines:
  assumes "PatchDB_wf p" and "PatchDB_wf q"
  shows "if PatchDB_mergeable b p q
     then \<exists>r. PatchDB_merge S b p q = Inr r \<and> PatchDB_wf r \<and>
        PatchDB_abs r = (\<lambda>h. ujoin (PatchDB_abs p h) (PatchDB_abs q h)) \<and>
        jget (pt_mapContractStates r) = (\<lambda>a. map_option (Contract_clone S) (PatchDB_winnerOpt b p q a)) \<and>
        jget (pt_mapTxReceipts r) = PatchDB_receiptOf p q
     else \<not> isOk (PatchDB_merge S b p q)"
  using PatchDB_merge_abs [OF assms, of b S] by (auto split: if_splits)

definition ex_patch :: "char \<Rightarrow> char \<Rightarrow> string patch" where
  "ex_patch h tx = PatchDB_empty\<lparr>
     pt_coins := [(ex_hash h, \<lparr>utxo_txHash = ex_hash h, utxo_arrIndexes = [1],
        utxo_arrOutputs = [Coins_new 20 (ex_addr CHR ''a'')]\<rparr>)],
     pt_mapSpentUtxos := [(ex_hash h, [(0, ex_hash tx)])]\<rparr>"

lemma ex_patch_wf: "PatchDB_wf (ex_patch h tx)"
  by (auto simp: PatchDB_wf_def ex_patch_def PatchDB_empty_def PatchDB_utxosOk_def PatchDB_coinsOk_def PatchDB_spentOk_def
      PatchDB_contractsOk_def PatchDB_receiptsOk_def UTXO_wf_def jget_def jwf_def)

lemma ex_patch_abs: "PatchDB_abs (ex_patch h tx) g =
    (if g = ex_hash h then Some ([1 \<mapsto> Coins_new 20 (ex_addr CHR ''a'')], [0 \<mapsto> ex_hash tx]) else None)"
  by (auto simp: PatchDB_abs_def ex_patch_def jget_def UTXO_abs_def PatchDB_getSpentOutputs_def fun_eq_iff)

lemma ex_patch_rest [simp]: "pt_mapContractStates (ex_patch h tx) = []" "pt_mapTxReceipts (ex_patch h tx) = []"
  "pt_conciliumId (ex_patch h tx) = None" "pt_mapConciliumLevel (ex_patch h tx) = []"
  by (simp_all add: ex_patch_def PatchDB_empty_def)

theorem PatchDB_merge_refines_witness:
  "isOk (PatchDB_merge ex_serializers False (ex_patch CHR ''1'' CHR ''x'') (ex_patch CHR ''1'' CHR ''x'')) \<and>
   \<not> isOk (PatchDB_merge ex_serializers False (ex_patch CHR ''1'' CHR ''x'') (ex_patch CHR ''1'' CHR ''y''))"
proof -
  have "PatchDB_mergeable False (ex_patch CHR ''1'' CHR ''x'') (ex_patch CHR ''1'' CHR ''x'')"
    by (auto simp: PatchDB_mergeable_def PatchDB_noFork_def ex_patch_abs PatchDB_sameConcilium_def PatchDB_sameReceipt_def
        jget_def)
  moreover have "\<not> PatchDB_mergeable False (ex_patch CHR ''1'' CHR ''x'') (ex_patch CHR ''1'' CHR ''y'')"
    by (auto simp: PatchDB_mergeable_def ex_patch_abs)
  ultimately show ?thesis
    using PatchDB_merge_refines [OF ex_patch_wf [of "CHR ''1''" "CHR ''x''"] ex_patch_wf [of "CHR ''1''" "CHR ''x''"], of False ex_serializers]
      PatchDB_merge_refines [OF ex_patch_wf [of "CHR ''1''" "CHR ''x''"] ex_patch_wf [of "CHR ''1''" "CHR ''y''"], of False ex_serializers]
    by (auto simp: isOk_ex)
qed


text \<open>C29: The order in which patches are merged does not matter for the outputs: swapping two patches that
  hold the same coins, and regrouping three, gives the same unspent outputs and the same spenders.\<close>

theorem PatchDB_merge_order:
  assumes "PatchDB_wf p" and "PatchDB_wf q" and "PatchDB_wf r"
    and "PatchDB_merge S b p q = Inr pq" and "PatchDB_merge S b' q p = Inr qp"
    and "PatchDB_merge S c pq r = Inr pq_r" and "PatchDB_merge S d q r = Inr qr" and "PatchDB_merge S e p qr = Inr p_qr"
    and "\<forall>h. usame (PatchDB_abs p h) (PatchDB_abs q h)"
  shows "PatchDB_abs pq = PatchDB_abs qp \<and> PatchDB_abs pq_r = PatchDB_abs p_qr"
proof -
  note pq = PatchDB_mergeD [OF assms(4,1,2)] and qp = PatchDB_mergeD [OF assms(5,2,1)]
    and qr = PatchDB_mergeD [OF assms(7,2,3)]
  note pq_r = PatchDB_mergeD [OF assms(6) conjunct1 [OF pq] assms(3)]
    and p_qr = PatchDB_mergeD [OF assms(8,1) conjunct1 [OF qr]]
  have "ujoin (PatchDB_abs p h) (PatchDB_abs q h) = ujoin (PatchDB_abs q h) (PatchDB_abs p h)" for h
    using pq assms(9) by (intro ujoin_comm) blast+
  then have "PatchDB_abs pq = PatchDB_abs qp" using pq qp by simp
  moreover have "PatchDB_abs pq_r = PatchDB_abs p_qr"
    using pq qr pq_r p_qr by (simp add: ujoin_assoc)
  ultimately show ?thesis ..
qed

text \<open>C30: \<open>purge\<close> removes from a pending patch what the stable patch already decided: a UTXO both hold in the
  same state is gone, of the others only outputs the stable patch did not spend stay unspent, and
  the receipts of stable transactions are gone. It never brings back an output.\<close>

theorem PatchDB_purge_only_removes:
  assumes "PatchDB_wf q" and "PatchDB_wf p" and "PatchDB_purge S q p = Inr r"
  shows "PatchDB_abs r = (\<lambda>h. upurge (PatchDB_abs p h) (PatchDB_abs q h)) \<and>
    (\<forall>h u s. PatchDB_abs r h = Some (u, s) \<longrightarrow>
       (\<exists>u0 s0. PatchDB_abs p h = Some (u0, s0) \<and> u \<subseteq>\<^sub>m u0 \<and> dom s0 \<subseteq> dom s)) \<and>
    (\<forall>h. jget (pt_mapTxReceipts r) h =
      (if jhas (pt_mapTxReceipts q) h then None else jget (pt_mapTxReceipts p) h))"
proof (intro conjI allI impI)
  note P = PatchDB_purge_abs [OF assms]
  show "PatchDB_abs r = (\<lambda>h. upurge (PatchDB_abs p h) (PatchDB_abs q h))" by (rule P(2))
  then show "\<exists>u0 s0. PatchDB_abs p h = Some (u0, s0) \<and> u \<subseteq>\<^sub>m u0 \<and> dom s0 \<subseteq> dom s" if "PatchDB_abs r h = Some (u, s)"
    for h u s using that upurge_shrinks by simp
  show "jget (pt_mapTxReceipts r) h = (if jhas (pt_mapTxReceipts q) h then None else jget (pt_mapTxReceipts p) h)" for h
    by (rule P(4))
qed

text \<open>C31: \<open>validateAgainstStable\<close> accepts a patch exactly when every output it spends, of a UTXO the stable
  patch also holds, is unspent there.\<close>

theorem PatchDB_validate_exact:
  assumes "PatchDB_utxosOk stb" and "PatchDB_utxosOk p"
  shows "PatchDB_validateAgainstStable stb p = Inr () \<longleftrightarrow>
    (\<forall>h u s v t. PatchDB_abs stb h = Some (u, s) \<longrightarrow> PatchDB_abs p h = Some (v, t) \<longrightarrow> dom t \<subseteq> dom u)"
  by (rule PatchDB_validate_iff [OF assms])

section \<open>Inputs\<close>

text \<open>C12: \<open>processTxInputs\<close> takes each of its distinct inputs out of the unspent outputs and nothing else,
  adds up their amounts, and refuses the same transaction when its inputs are gone.\<close>

theorem App_inputs_spent_once:
  assumes "PatchDB_utxosOk pb" and "App_processTxInputs C t (Some pb) = Inr (p, totalHas)"
    and "Transaction_inputs t \<noteq> []"
  shows "distinct (Transaction_keys t) \<and>
    totalHas = (\<Sum>k\<leftarrow>Transaction_keys t. coins_amount (the (App_unspent pb k))) \<and>
    App_avail pb (p, totalHas) = App_unspent pb |` (- set (Transaction_keys t)) \<and>
    \<not> isOk (App_processTxInputs C t (Some p))"
proof -
  note A = App_processTxInputs_spends [OF assms(1,2)]
  have "\<not> isOk (App_processTxInputs C t (Some p))"
  proof
    assume "isOk (App_processTxInputs C t (Some p))"
    then obtain p' n where run: "App_processTxInputs C t (Some p) = Inr (p', n)" by (auto simp: isOk_ex)
    obtain k where k: "k \<in> set (Transaction_keys t)"
      using assms(3) by (cases "Transaction_inputs t") (auto simp: Transaction_keys_def)
    with App_processTxInputs_spends(2) [OF A(5) run] obtain c where "App_unspent p k = Some c" by blast
    then have "App_avail pb (p, totalHas) k = Some c"
      by (auto simp: App_unspent_def App_avail_def split: option.splits)
    with A(4) k show False by simp
  qed
  with A(1,3,4) show ?thesis by simp
qed

section \<open>Storage\<close>

text \<open>C28: \<open>applyPatch\<close> makes the storage say of every output what the patch says, where the patch knows its
  transaction, and leaves the rest: a UTXO without unspent outputs is deleted, the others replaced.\<close>

theorem Storage_applyPatch_refines:
  assumes "PatchDB_utxosOk p" and "Storage_wf s" and "Storage_applyPatch S p n s = (Inr (), s')"
  shows "Storage_wf s' \<and> Storage_view s' h = (case jget (pt_coins p) h of
        None \<Rightarrow> Storage_view s h
      | Some u \<Rightarrow> if UTXO_abs u = Map.empty then None else Some (UTXO_abs u))"
  using Storage_applyPatch_spec [OF assms] by blast

text \<open>Patches without contracts and receipts, that merge when their spenders agree.\<close>

definition ex_plain :: "string patch \<Rightarrow> bool" where
  "ex_plain p \<longleftrightarrow> PatchDB_wf p \<and> jget (pt_mapContractStates p) = Map.empty \<and> jget (pt_mapTxReceipts p) = Map.empty \<and>
     pt_conciliumId p = None"

lemma ex_plain_patch: "ex_plain (ex_patch h tx)"
  by (simp add: ex_plain_def ex_patch_wf jget_def fun_eq_iff)

lemma ex_plain_merge:
  assumes "ex_plain p" and "ex_plain q" and "\<And>h. ucompat (PatchDB_abs p h) (PatchDB_abs q h)"
  shows "\<exists>r. PatchDB_merge S b p q = Inr r \<and> ex_plain r \<and> PatchDB_abs r = (\<lambda>h. ujoin (PatchDB_abs p h) (PatchDB_abs q h))"
proof -
  have wf: "PatchDB_wf p" "PatchDB_wf q" using assms by (simp_all add: ex_plain_def)
  have m: "PatchDB_mergeable b p q"
    using assms by (simp add: PatchDB_mergeable_def PatchDB_noFork_def PatchDB_sameConcilium_def PatchDB_sameReceipt_def
        ex_plain_def PatchDB_getContract_def)
  have "PatchDB_winnerOpt b p q a = None" for a
    using assms by (auto simp: PatchDB_winnerOpt_def PatchDB_winner_def ex_plain_def PatchDB_getContract_def
      split: sum.splits option.splits)
  moreover have "PatchDB_receiptOf p q h = None" for h
    using assms by (simp add: PatchDB_receiptOf_def ex_plain_def)
  ultimately show ?thesis
    using PatchDB_merge_abs [OF wf, of b S] m by (auto simp: ex_plain_def fun_eq_iff)
qed

lemma ex_compat:
  "ucompat (PatchDB_abs (ex_patch CHR ''1'' t) k) (PatchDB_abs (ex_patch CHR ''2'' u) k)"
  "ucompat (PatchDB_abs (ex_patch CHR ''2'' t) k) (PatchDB_abs (ex_patch CHR ''1'' u) k)"
  "ucompat (PatchDB_abs (ex_patch CHR ''2'' t) k) (PatchDB_abs (ex_patch CHR ''3'' u) k)"
  by (simp_all add: ex_patch_abs)

theorem PatchDB_merge_order_witness:
  "\<exists>pq qp pq_r (p_qr :: string patch). PatchDB_merge ex_serializers False (ex_patch CHR ''1'' CHR ''x'') (ex_patch CHR ''2'' CHR ''y'') = Inr pq \<and>
     PatchDB_merge ex_serializers False (ex_patch CHR ''2'' CHR ''y'') (ex_patch CHR ''1'' CHR ''x'') = Inr qp \<and>
     PatchDB_abs pq = PatchDB_abs qp \<and> PatchDB_abs pq_r = PatchDB_abs p_qr \<and>
     PatchDB_merge ex_serializers False pq (ex_patch CHR ''3'' CHR ''z'') = Inr pq_r"
proof -
  let ?p = "ex_patch CHR ''1'' CHR ''x''" and ?q = "ex_patch CHR ''2'' CHR ''y''" and ?r = "ex_patch CHR ''3'' CHR ''z''"
  let ?m = "PatchDB_merge ex_serializers False"
  obtain pq where pq: "?m ?p ?q = Inr pq" "ex_plain pq" "PatchDB_abs pq = (\<lambda>h. ujoin (PatchDB_abs ?p h) (PatchDB_abs ?q h))"
    using ex_plain_merge [OF ex_plain_patch ex_plain_patch ex_compat(1)] by blast
  obtain qp where qp: "?m ?q ?p = Inr qp"
    using ex_plain_merge [OF ex_plain_patch ex_plain_patch ex_compat(2)] by blast
  obtain qr where qr: "?m ?q ?r = Inr qr" "ex_plain qr" "PatchDB_abs qr = (\<lambda>h. ujoin (PatchDB_abs ?q h) (PatchDB_abs ?r h))"
    using ex_plain_merge [OF ex_plain_patch ex_plain_patch ex_compat(3)] by blast
  have c: "ucompat (PatchDB_abs pq h) (PatchDB_abs ?r h)" "ucompat (PatchDB_abs ?p h) (PatchDB_abs qr h)" for h
    by (simp_all add: pq(3) qr(3) ex_patch_abs)
  obtain pq_r where pq_r: "?m pq ?r = Inr pq_r" using ex_plain_merge [OF pq(2) ex_plain_patch c(1)] by blast
  obtain p_qr where p_qr: "?m ?p qr = Inr p_qr" using ex_plain_merge [OF ex_plain_patch qr(2) c(2)] by blast
  have "\<forall>h. usame (PatchDB_abs ?p h) (PatchDB_abs ?q h)" by (simp add: ex_patch_abs)
  from PatchDB_merge_order [OF ex_patch_wf ex_patch_wf ex_patch_wf pq(1) qp pq_r qr(1) p_qr this]
  show ?thesis using pq(1) qp pq_r by blast
qed

theorem PatchDB_purge_only_removes_witness:
  "\<exists>r. PatchDB_purge ex_serializers (ex_patch CHR ''1'' CHR ''x'') (ex_patch CHR ''1'' CHR ''x'') = Inr r \<and>
     PatchDB_abs r (ex_hash CHR ''1'') = None"
proof -
  let ?p = "ex_patch CHR ''1'' CHR ''x''"
  obtain r where r: "PatchDB_purge ex_serializers ?p ?p = Inr r"
    by (simp add: PatchDB_purge_def PatchDB_purgeCoin_def ex_patch_def PatchDB_empty_def jkeys_def PatchDB_getUtxo_def jget_def
        UTXO_equals_abs UTXO_wf_def PatchDB_spendingTnxsEqual_def PatchDB_getSpentOutputs_def)
  from PatchDB_purge_only_removes [OF ex_patch_wf ex_patch_wf r] r show ?thesis
    by (auto simp: ex_patch_abs)
qed

theorem PatchDB_validate_exact_witness:
  "PatchDB_validateAgainstStable (Storage_getUtxosPatch [ex_hash CHR ''1''] ex_storage) (ex_patch CHR ''1'' CHR ''x'') = Inr ()"
proof -
  note Q = Storage_getUtxosPatch_spec [OF ex_storage_wf, of "[ex_hash CHR ''1'']"]
  have "PatchDB_utxosOk (Storage_getUtxosPatch [ex_hash CHR ''1''] ex_storage)"
    using Q(1) by (simp add: PatchDB_wf_def)
  moreover have "PatchDB_utxosOk (ex_patch CHR ''1'' CHR ''x'')" using ex_patch_wf by (simp add: PatchDB_wf_def)
  ultimately show ?thesis
    by (subst PatchDB_validate_exact) (auto simp: Q(2) ex_patch_abs, auto simp: ex_storage_def Storage_new_def jget_def UTXO_abs_def)
qed

theorem App_inputs_spent_once_witness:
  "\<exists>p. App_processTxInputs ex_crypto ex_pay (Some (Storage_getUtxosPatch [ex_hash CHR ''1''] ex_storage)) = Inr (p, 100000) \<and>
     \<not> isOk (App_processTxInputs ex_crypto ex_pay (Some p))"
proof -
  let ?pb = "Storage_getUtxosPatch [ex_hash CHR ''1''] ex_storage"
  obtain p where p: "App_processTxInputs ex_crypto ex_pay (Some ?pb) = Inr (p, 100000)"
    by (simp add: exec_defs ex_node_defs)
  have "PatchDB_utxosOk ?pb"
    using Storage_getUtxosPatch_spec(1) [OF ex_storage_wf] by (simp add: PatchDB_wf_def)
  moreover have "Transaction_inputs ex_pay \<noteq> []" by (simp add: ex_pay_def ex_signed_def Transaction_inputs_def)
  ultimately show ?thesis using App_inputs_spent_once [OF _ p] p by blast
qed

theorem Storage_applyPatch_refines_witness:
  "\<exists>s. Storage_applyPatch ex_serializers (ex_patch CHR ''1'' CHR ''x'') 60000 ex_storage = (Inr (), s) \<and>
     Storage_view s (ex_hash CHR ''1'') = Some [1 \<mapsto> Coins_new 20 (ex_addr CHR ''a'')]"
proof -
  obtain s where s: "Storage_applyPatch ex_serializers (ex_patch CHR ''1'' CHR ''x'') 60000 ex_storage = (Inr (), s)"
    by (simp add: Storage_applyPatch_def Storage_utxoOps_def ex_patch_def PatchDB_empty_def PatchDB_getCoins_def
        UTXO_isEmpty_def bindS_def liftS_def PatchDB_getContracts_def)
  have "PatchDB_utxosOk (ex_patch CHR ''1'' CHR ''x'')" using ex_patch_wf by (simp add: PatchDB_wf_def)
  from Storage_applyPatch_refines [OF this ex_storage_wf s, of "ex_hash CHR ''1''"] s show ?thesis
    by (simp add: ex_patch_def jget_def UTXO_abs_def fun_eq_iff split: if_splits)
qed

section \<open>A graph to try the properties on\<close>

text \<open>Vertices with their outgoing edges, in order of arrival, and the objects saved at them.\<close>

type_synonym 'o ex_graph = "(hash \<times> hash list) list \<times> (hash \<times> 'o) list"

definition ex_vertex :: "hash \<Rightarrow> 'o ex_graph \<Rightarrow> 'o ex_graph" where
  "ex_vertex v g = (if v \<in> fst ` set (fst g) then g else (fst g @ [(v, [])], snd g))"

definition ex_edge :: "hash \<Rightarrow> hash \<Rightarrow> 'o ex_graph \<Rightarrow> 'o ex_graph" where
  "ex_edge u v g = (case ex_vertex v (ex_vertex u g) of (es, os) \<Rightarrow>
     (map (\<lambda>(w, ws). (w, if w = u then sadd v ws else ws)) es, os))"

definition ex_remove :: "hash \<Rightarrow> 'o ex_graph \<Rightarrow> 'o ex_graph" where
  "ex_remove v g = (map (\<lambda>(w, ws). (w, filter (\<lambda>x. x \<noteq> v) ws)) (filter (\<lambda>(w, _). w \<noteq> v) (fst g)),
     filter (\<lambda>(w, _). w \<noteq> v) (snd g))"

fun ex_paths :: "nat \<Rightarrow> (hash \<times> hash list) list \<Rightarrow> hash \<Rightarrow> hash list list" where
  "ex_paths 0 es v = [[v]]"
| "ex_paths (Suc n) es v = (case map_of es v of
      None \<Rightarrow> [[v]] | Some [] \<Rightarrow> [[v]]
    | Some ws \<Rightarrow> map ((#) v) (concat (map (ex_paths n es) ws)))"

definition ex_dag :: "('o ex_graph, 'o) dag_ops" where
  "ex_dag = \<lparr>dg_empty = ([], []), dg_addVertex = ex_vertex, dg_add = ex_edge,
     dg_saveObj = (\<lambda>v x g. (fst g, (v, x) # snd g)), dg_readObj = (\<lambda>g. map_of (snd g)),
     dg_hasVertex = (\<lambda>g v. v \<in> fst ` set (fst g)), dg_removeVertex = ex_remove, dg_V = (\<lambda>g. map fst (fst g)),
     dg_tips = (\<lambda>g. filter (\<lambda>v. \<forall>(_, ws)\<in>set (fst g). v \<notin> set ws) (map fst (fst g))),
     dg_edgesToTips = (\<lambda>g v. map fst (filter (\<lambda>(_, ws). v \<in> set ws) (fst g))),
     dg_findPathsDown = (\<lambda>g. ex_paths (length (fst g)) (fst g)),
     dg_longestPathLength = (\<lambda>ps. int (foldr (\<lambda>p n. max (length p) n) ps 0)),
     dg_vertices = (\<lambda>ps. remdups (concat ps))\<rparr>"

lemma ex_paths_nonempty: "ex_paths n es v \<noteq> []"
proof (induction n es v rule: ex_paths.induct)
  case (2 n es v)
  show ?case
  proof (cases "\<exists>w ws. map_of es v = Some (w # ws)")
    case True
    then obtain w ws where w: "map_of es v = Some (w # ws)" by blast
    with 2 [OF w refl, of w] show ?thesis by simp
  next
    case False
    then show ?thesis by (auto split: option.splits list.splits)
  qed
qed simp

lemma ex_paths_start: "p \<in> set (ex_paths n es v) \<Longrightarrow> v \<in> set p"
  by (cases n) (auto split: option.splits list.splits)

lemma ex_paths_vertices: "v \<in> set (remdups (concat (ex_paths n es v)))"
  using ex_paths_nonempty [of n es v] ex_paths_start [of _ n es v] by (cases "ex_paths n es v") auto

lemma ex_vertex_V: "fst ` set (fst (ex_vertex v g)) = insert v (fst ` set (fst g))" "snd (ex_vertex v g) = snd g"
  by (auto simp: ex_vertex_def)

lemma ex_edge_V: "fst ` set (fst (ex_edge u v g)) = {u, v} \<union> fst ` set (fst g)" "snd (ex_edge u v g) = snd g"
proof -
  obtain es os where e: "ex_vertex v (ex_vertex u g) = (es, os)" by fastforce
  have "fst ` set es = insert v (insert u (fst ` set (fst g)))" "os = snd g"
    using ex_vertex_V [of v "ex_vertex u g"] ex_vertex_V [of u g] by (simp_all add: e)
  moreover have "fst ` (\<lambda>(w, ws). (w, f w ws)) ` A = fst ` A" for f :: "hash \<Rightarrow> hash list \<Rightarrow> hash list" and A
    by (force simp: image_iff)
  ultimately show "fst ` set (fst (ex_edge u v g)) = {u, v} \<union> fst ` set (fst g)" "snd (ex_edge u v g) = snd g"
    by (auto simp: ex_edge_def e)
qed

lemma ex_remove_V: "fst ` set (fst (ex_remove v g)) = fst ` set (fst g) - {v}"
proof -
  have "map fst (fst (ex_remove v g)) = filter (\<lambda>w. w \<noteq> v) (map fst (fst g))"
    by (induction "fst g") (auto simp: ex_remove_def filter_map comp_def case_prod_unfold)
  then have "set (map fst (fst (ex_remove v g))) = set (filter (\<lambda>w. w \<noteq> v) (map fst (fst g)))" by simp
  then show ?thesis by auto
qed

lemma map_of_filter_neq: "u \<noteq> v \<Longrightarrow> map_of (filter (\<lambda>(w, _). w \<noteq> v) xs) u = map_of xs u"
  by (induction xs) auto

lemma ex_remove_read: "u \<noteq> v \<Longrightarrow> map_of (snd (ex_remove v g)) u = map_of (snd g) u"
  by (simp add: ex_remove_def map_of_filter_neq)

lemma ex_dag_ok: "dag_ok (ex_dag :: ('o ex_graph, 'o) dag_ops)"
  unfolding dag_ok_def
proof (intro conjI allI impI)
  fix g :: "'o ex_graph" and v
  show "v \<in> set (dg_vertices ex_dag (dg_findPathsDown ex_dag g v))"
    by (simp add: ex_dag_def ex_paths_vertices del: set_remdups)
qed (simp_all add: ex_dag_def ex_vertex_V ex_edge_V ex_remove_V ex_remove_read)

section \<open>Pending blocks\<close>

definition ex_child_block :: "nat \<Rightarrow> hash list \<Rightarrow> block" where
  "ex_child_block n ps = (Block_new n)\<lparr>bl_header := (bl_header (Block_new n))\<lparr>hd_parentHashes := ps, hd_height := 7\<rparr>,
     bl_txns := [ex_tx, ex_tx]\<rparr>"

text \<open>Two blocks, of the conciliums 0 and 1, one on the other.\<close>

definition ex_pending :: "string pending_obj ex_graph pending" where
  "ex_pending = Pending_addBlock ex_dag (ex_hash CHR ''B'') (ex_child_block 1 [ex_hash CHR ''A'']) (ex_patch CHR ''2'' CHR ''y'')
     (Pending_addBlock ex_dag (ex_hash CHR ''A'') (ex_child_block 0 []) PatchDB_empty (Pending_new ex_dag None))"

lemma ex_child_simps [simp]: "Block_parentHashes (ex_child_block n ps) = ps" "\<not> Block_isEmpty (ex_child_block n ps)"
  "hd_conciliumId (bl_header (ex_child_block n ps)) = n"
  by (simp_all add: ex_child_block_def Block_parentHashes_def Block_isEmpty_def Block_new_def)

lemma ex_pending_eval: "ex_pending = \<lparr>pm_dag =
     ([(ex_hash CHR ''A'', []), (ex_hash CHR ''B'', [ex_hash CHR ''A''])],
      [(ex_hash CHR ''B'', \<lparr>po_patch = ex_patch CHR ''2'' CHR ''y'',
          po_blockHeader = bl_header (ex_child_block 1 [ex_hash CHR ''A'']), po_bIsEmpty = False\<rparr>),
       (ex_hash CHR ''A'', \<lparr>po_patch = PatchDB_empty, po_blockHeader = bl_header (ex_child_block 0 []), po_bIsEmpty = False\<rparr>)]),
     pm_topStable = None\<rparr>"
  by (simp add: ex_pending_def Pending_addBlock_def Pending_new_def ex_dag_def ex_vertex_def ex_edge_def sadd_def Let_def)

lemma ex_merge_empty: "PatchDB_merge ex_serializers False PatchDB_empty PatchDB_empty = Inr PatchDB_empty"
  by (simp add: PatchDB_merge_def PatchDB_empty_def PatchDB_mergeLevels_def PatchDB_mergeCoins_def PatchDB_mergeContracts_def
      PatchDB_mergeReceipts_def getMapsKeysUnique_def getMapsKeys_def PatchDB_getLevel_def PatchDB_new_def PatchDB_setConciliumId_def sof_def jkeys_def Let_def)

lemma ex_purge_empty: "PatchDB_purge S PatchDB_empty p = Inr p"
  by (simp add: PatchDB_purge_def PatchDB_empty_def jkeys_def)

lemmas ex_pending_defs = ex_pending_eval ex_dag_def Pending_getTips_def Pending_removeBlocks_def readObjR_def bindS_def liftS_def returnS_def

text \<open>C7: Blocks become final only when a majority of the conciliums stands on them: above (and including)
  each new top of the stable part, some path from the new block has blocks of more than half of the
  conciliums. All blocks below the tops become final with them, the patch to apply is the strict
  merge of the tops, and of the rest only branches that still merge with it stay pending.\<close>

theorem Pending_finality_sound:
  assumes "dag_ok D" and "Pending_checkFinality D S h n s = (Inr (Some f), s')"
  shows "fn_arrTopStable f \<noteq> [] \<and> pm_topStable s' = Some (fn_arrTopStable f) \<and>
    (\<forall>t\<in>set (fn_arrTopStable f). \<exists>path\<in>set (dg_findPathsDown D (pm_dag s) h). \<exists>pre post. path = pre @ t # post \<and>
        n div 2 < card (Pending_seen D (pm_dag s) (pre @ [t]))) \<and>
    set (fn_setStableBlocks f) =
      (\<Union>t\<in>set (fn_arrTopStable f). set (dg_vertices D (dg_findPathsDown D (pm_dag s) t))) \<and>
    Pending_mergePatches D S (fn_arrTopStable f) None s = Inr (fn_patchToApply f, None) \<and>
    set (Pending_getAllHashes D s') =
      set (Pending_getAllHashes D s) - set (fn_setStableBlocks f) - set (fn_setBlocksToRollback f) \<and>
    (\<forall>u\<in>set (Pending_getTips D (Pending_removeBlocks D (fn_setStableBlocks f) s)) - {h}.
      u \<notin> set (fn_setBlocksToRollback f) \<longrightarrow>
      (\<exists>x. dg_readObj D (pm_dag s) u = Some x \<and> isOk (PatchDB_merge S False (po_patch x) (fn_patchToApply f))))"
proof -
  note F = Pending_checkFinality_spec [OF assms]
  show ?thesis
    by (intro conjI ballI impI F(2-6) conjunct1 [OF F(1)] conjunct2 [OF F(1)]) simp_all
qed

lemma ex_finality: "\<exists>f s. Pending_checkFinality ex_dag ex_serializers (ex_hash CHR ''B'') 2 ex_pending = (Inr (Some f), s) \<and>
    fn_arrTopStable f = [ex_hash CHR ''A'']"
  by (simp add: Pending_checkFinality_def Pending_findTopStable_def List.map_filter_def majority_def
      ex_pending_defs sadd_def Pending_findAlsoStable_def mergeSets_def Pending_mergePatches_def Pending_mergeStep_def
      Pending_removeConflictingBranches_def Pending_conflicting_def ex_merge_empty Pending_purgeVertex_def
      ex_remove_def ex_purge_empty sof_def Let_def)

theorem Pending_finality_sound_witness:
  "\<exists>f s. Pending_checkFinality ex_dag ex_serializers (ex_hash CHR ''B'') 2 ex_pending = (Inr (Some f), s) \<and>
     set (Pending_getAllHashes ex_dag s) \<subseteq> {ex_hash CHR ''B''}"
proof -
  obtain f s where f: "Pending_checkFinality ex_dag ex_serializers (ex_hash CHR ''B'') 2 ex_pending = (Inr (Some f), s)"
    "fn_arrTopStable f = [ex_hash CHR ''A'']" using ex_finality by blast
  have "set (dg_vertices ex_dag (dg_findPathsDown ex_dag (pm_dag ex_pending) (ex_hash CHR ''A''))) = {ex_hash CHR ''A''}"
    "set (Pending_getAllHashes ex_dag ex_pending) = {ex_hash CHR ''A'', ex_hash CHR ''B''}"
    by (simp_all add: ex_pending_eval ex_dag_def Pending_getAllHashes_def)
  with Pending_finality_sound [OF ex_dag_ok f(1)] f show ?thesis by auto
qed

text \<open>C13: Nothing that a majority stands on is overlooked: when a new block makes nothing final, no path from
  it has blocks of more than half of the conciliums, and the pending blocks are left as they were.\<close>

theorem Pending_finality_complete:
  assumes "Pending_checkFinality D S h n s = (Inr None, s')"
    and "path \<in> set (dg_findPathsDown D (pm_dag s) h)"
  shows "s' = s \<and> card (Pending_seen D (pm_dag s) path) \<le> n div 2"
proof -
  note N = Pending_checkFinality_none [OF assms(1)]
  then have top: "Pending_findTopStableForPath D (pm_dag s) (majority n) [] path = None" using assms(2) by blast
  have "card (Pending_seen D (pm_dag s) p) \<le> n div 2" if "\<exists>q. path = p @ q" for p
    using that
  proof (induction p rule: rev_induct)
    case Nil
    then show ?case by (simp add: Pending_seen_def)
  next
    case (snoc x p)
    then obtain q where q: "path = p @ x # q" by auto
    show ?case
    proof (cases "dg_readObj D (pm_dag s) x")
      case None
      then have "Pending_seen D (pm_dag s) (p @ [x]) = Pending_seen D (pm_dag s) p"
        by (auto simp: Pending_seen_def)
      with snoc.IH q show ?thesis by auto
    next
      case (Some y)
      with Pending_topStable_path(2) [OF _ top] q show ?thesis by (fastforce simp: majority_def)
    qed
  qed
  with N show ?thesis by auto
qed

theorem Pending_finality_complete_witness:
  "card (Pending_seen ex_dag (pm_dag ex_pending) [ex_hash CHR ''A'']) \<le> 1"
proof -
  have "Pending_checkFinality ex_dag ex_serializers (ex_hash CHR ''A'') 2 ex_pending = (Inr None, ex_pending)"
    by (simp add: Pending_checkFinality_def Pending_findTopStable_def List.map_filter_def majority_def
      ex_pending_defs sadd_def)
  moreover have "[ex_hash CHR ''A''] \<in> set (dg_findPathsDown ex_dag (pm_dag ex_pending) (ex_hash CHR ''A''))"
    by (simp add: ex_pending_eval ex_dag_def)
  ultimately show ?thesis using Pending_finality_complete [of ex_dag ex_serializers _ 2] by fastforce
qed

text \<open>C21: The parents chosen for a new block are never empty and always fit together: merging their patches
  strictly, as the other nodes do when they check the block, succeeds and gives the patch the
  choice returned. When pending tips cannot be used the parents are the stable tops or Genesis.\<close>

theorem Pending_parents_fit:
  assumes "Pending_getBestParents D S n s = Inr (ps, patch)"
  shows "ps \<noteq> [] \<and> (\<exists>p ms. patch = Some p \<and> Pending_mergePatches D S ms None s = Inr (p, None) \<and>
    ps = (if ms \<noteq> [] then ms else Pending_lastResort s) \<and> (set ms \<subseteq> set (Pending_getTips D s) \<or> Pending_getTips D s = []))"
  by (rule Pending_bestParents_spec [OF assms]) blast

theorem Pending_parents_fit_witness:
  "\<exists>p. Pending_getBestParents ex_dag ex_serializers None ex_pending = Inr ([ex_hash CHR ''B''], Some p) \<and>
     Pending_mergePatches ex_dag ex_serializers [ex_hash CHR ''B''] None ex_pending = Inr (p, None)"
proof -
  have "ex_plain PatchDB_empty"
    by (auto simp: ex_plain_def PatchDB_wf_def PatchDB_empty_def PatchDB_utxosOk_def PatchDB_coinsOk_def
        PatchDB_spentOk_def PatchDB_contractsOk_def PatchDB_receiptsOk_def jget_def jwf_def fun_eq_iff)
  then obtain m where m: "PatchDB_merge ex_serializers False (ex_patch CHR ''2'' CHR ''y'') PatchDB_empty = Inr m"
    using ex_plain_merge [OF ex_plain_patch, of PatchDB_empty "CHR ''2''" "CHR ''y''"] by fastforce
  then have p: "Pending_getBestParents ex_dag ex_serializers None ex_pending = Inr ([ex_hash CHR ''B''], Some m)"
    by (simp add: Pending_getBestParents_def Pending_sortTips_def Pending_findByConciliumId_def
       Pending_getVertexWitnessBelow_def ex_pending_defs Pending_mergePatches_def Pending_mergeStep_def)
  have "Pending_lastResort ex_pending \<noteq> [ex_hash CHR ''B'']"
    by (simp add: Pending_lastResort_def ex_pending_eval GENESIS_BLOCK_def ex_hash_def numeral_eq_Suc)
  with Pending_parents_fit [OF p] p show ?thesis by (auto split: if_splits)
qed





end
