(* ===== verification/Cil_Node_Props.thy ===== *)
theory Cil_Node_Props
  imports Cil_Node_Laws Cil_Witness_Props Cil_Chain_Props
begin

text \<open>
  What the node (\<open>node.js\<close>) promises of blocks, of its graph at start-up and of the messages of its peers.
\<close>

section \<open>An example node\<close>

definition ex_cfg :: "(string pending_obj ex_graph, blockInfo ex_graph, string, string, string) node_cfg" where
  "ex_cfg = \<lparr>nc_env = ex_env, nc_pdag = ex_dag, nc_mdag = ex_dag, nc_block = ex_block_crypto, nc_codec = ex_codec,
     nc_depth = 3, nc_blocksBad = [], nc_now = 0, nc_msgSize = (\<lambda>_. 0), nc_networkSuspended = False,
     nc_slowBoot = False, nc_levels = 10\<rparr>"

definition ex_header :: "nat \<Rightarrow> hash list \<Rightarrow> block_header" where
  "ex_header height ps = (bl_header (Block_new 1))\<lparr>hd_parentHashes := ps, hd_height := height\<rparr>"

definition ex_coinbase :: tx where
  "ex_coinbase = \<lparr>tx_payload = \<lparr>pl_version = 1, pl_conciliumId = 1,
      pl_ins = [\<lparr>in_txHash = ZERO_HASH, in_nTxOutput = 0\<rparr>],
      pl_outs = [plainOutput 36000 (ex_addr CHR ''w''), plainOutput 4000 (ex_addr CHR ''d'')]\<rparr>,
    tx_claimProofs = [], tx_txSignature = None\<rparr>"

definition ex_full_block :: block where
  "ex_full_block = (Block_new 1)\<lparr>bl_header := ex_header 7 [ex_hash CHR ''p''], bl_txns := [ex_coinbase, ex_pay],
     bl_final := True\<rparr>"

definition ex_wallet_off :: wallet_db where
  "ex_wallet_off = \<lparr>wl_support = False, wl_addresses = None, wl_autoincrement = 0, wl_dbAddresses = None,
     wl_dbAutoincrement = None, wl_records = [], wl_accounts = [], wl_keystores = []\<rparr>"

definition ex_index_off :: tx_index where
  "ex_index_off = \<lparr>ti_enabled = False, ti_blocks = [], ti_internal = []\<rparr>"

definition ex_node :: "(string pending_obj ex_graph, blockInfo ex_graph, string) node" where
  "ex_node = \<lparr>nd_mainDag = ([(ex_hash CHR ''p'', [])],
       [(ex_hash CHR ''p'', BlockInfo_markAsFinal (BlockInfo_new (ex_header 6 [])))]),
     nd_pendingBlocks = Pending_new ex_dag None, nd_storage = ex_storage, nd_wallet = ex_wallet_off,
     nd_txIndex = ex_index_off, nd_mempool = Mempool_new False None,
     nd_requestCache = [], nd_peers = [], nd_mapBlocksToExec = [], nd_mapUnknownBlocks = [],
     nd_processedBlock = None, nd_patchLocalTxns = None, nd_objCurrentBestParents = None, nd_out = []\<rparr>"

lemma ex_full_hash: "Block_hash ex_crypto ex_block_crypto ex_full_block =
    Inr (ex_hash CHR ''b'', ex_full_block\<lparr>bl_header := (ex_header 7 [ex_hash CHR ''p''])
      \<lparr>hd_merkleRoot := ex_hash CHR ''8'' @ ex_hash CHR ''7''\<rparr>, bl_hashCache := Some (ex_hash CHR ''b'')\<rparr>)"
  by (simp add: Block_hash_def Block_buildTxTree_def ex_full_block_def Block_new_def ex_block_crypto_def ex_coinbase_def
      ex_pay_def ex_signed_def ex_crypto_def Transaction_getHash_def Let_def)

lemma ex_coinbase_ok: "Transaction_verifyCoinbase 40000 ex_coinbase = Inr ()"
  by (simp add: Transaction_verifyCoinbase_def Transaction_isCoinbase_def Transaction_amountOut_sum ex_coinbase_def
      Transaction_inputs_def Transaction_outputs_def plainOutput_def assertR_def)

section \<open>Executing a block\<close>

text \<open>C1: A block of plain transactions mints nothing. Its transactions are executed one after the other
  from the merged patches of its parents; each takes distinct outputs that the storage and the patch so
  far still have, worth what it pays plus what it adds to the fees; the coinbase pays out exactly the
  fees collected; so what the block takes is to the coin what all its outputs pay. The block is executed
  once, its transactions belong to its concilium, it is higher than every parent, and the patch it gives
  is well formed.\<close>

theorem Node_block_mints_nothing:
  fixes K :: "('g, 'm, 'd, 'r, 'a) node_cfg"
  assumes "Storage_wf (nd_storage s)" and "Pending_wf (nc_pdag K) (pm_dag (nd_pendingBlocks s))"
    and "Block_hash (nc_crypto K) (nc_block K) b = Inr (h, b')" and "h \<noteq> GENESIS_BLOCK"
    and "Pending_mergePatches (nc_pdag K) (nc_serializers K) (Block_parentHashes b) None (nd_pendingBlocks s) = Inr (q, r)"
    and "\<forall>t\<in>set (tl (bl_txns b)). Node_plainTx (nd_storage s) q t"
    and "Node_execBlock K b s = (Inr (Some p), s')"
  shows "(\<exists>q0 run. PatchDB_setConciliumId (Some (Block_getConciliumId b)) q = Inr q0 \<and>
      Node_blockRun K b' (tl (bl_txns b)) run \<and> hd run = ((0, q0), s) \<and>
      (\<forall>i<length (tl (bl_txns b)). Node_takes (nd_storage s) (tl (bl_txns b) ! i) (snd (fst (run ! i)))
         (fst (fst (run ! Suc i)) - fst (fst (run ! i)))) \<and>
      Transaction_amountOut (hd (bl_txns b)) = fst (fst (last run)) \<and>
      Node_taken (nd_storage s) (map (\<lambda>x. snd (fst x)) (butlast run)) (tl (bl_txns b)) =
        sum_list (map Transaction_amountOut (bl_txns b))) \<and>
    fst (Node_isBlockExecuted K h s) = Inr False \<and>
    (\<forall>t\<in>set (tl (bl_txns b)). Transaction_conciliumId t = Block_getConciliumId b) \<and>
    (\<forall>parent\<in>set (Block_parentHashes b). \<exists>bi. dg_readObj (nc_mdag K) (nd_mainDag s) parent = Some bi \<and>
       BlockInfo_getHeight bi < Block_getHeight b) \<and>
    PatchDB_wf p"
proof -
  obtain q' q0 fees patchState s1 coinbase rest where
    D: "Node_calcHeight K (Block_parentHashes b) s = (Inr (Block_getHeight b), s)"
    "fst (Node_isBlockExecuted K h s) = Inr False"
    "Pending_mergePatches (nc_pdag K) (nc_serializers K) (Block_parentHashes b) None (nd_pendingBlocks s) = Inr q'"
    "PatchDB_setConciliumId (Some (Block_getConciliumId b)) (fst q') = Inr q0"
    "foldS (Node_execTx K b' False) (tl (bl_txns b)) (0, q0) s = (Inr (fees, patchState), s')"
    "bl_txns b = coinbase # rest" "Transaction_verifyCoinbase fees coinbase = Inr ()"
    "Node_coinbaseCoins (Transaction_getHash (nc_crypto K) coinbase) (Transaction_getOutCoins coinbase) patchState = Inr p"
    by (rule Node_execBlock_InrD [OF assms(7,3,4)]) (rule that)
  have "PatchDB_wf (PatchDB_empty :: 'd patch)"
    by (simp add: PatchDB_wf_def PatchDB_contractsOk_def PatchDB_receiptsOk_def) (simp add: PatchDB_empty_def)
  then have "PatchDB_wf q"
    using Pending_merge_view [OF assms(5) [unfolded Pending_mergePatches_def] assms(2)] by blast
  moreover from D(3,4) assms(5) have q0: "pt_coins q0 = pt_coins q" "pt_mapSpentUtxos q0 = pt_mapSpentUtxos q"
    "pt_mapContractStates q0 = pt_mapContractStates q" "pt_mapTxReceipts q0 = pt_mapTxReceipts q"
    by (auto simp: PatchDB_setConciliumId_def)
  ultimately have w: "PatchDB_wf q0"
    by (simp add: PatchDB_wf_def PatchDB_utxosOk_def PatchDB_spentOk_def PatchDB_contractsOk_def PatchDB_receiptsOk_def)
  have plain: "\<forall>t\<in>set (tl (bl_txns b)). Node_plainTx (nd_storage s) q0 t"
    using assms(6) q0 by (simp add: Node_plainTx_def PatchDB_getContract_def)
  note T = Node_execTxns [OF D(5) assms(1) w plain]
  then obtain run where R: "Node_blockRun K b' (tl (bl_txns b)) run" "hd run = ((0, q0), s)"
    "last run = ((fees, patchState), s')"
    "\<forall>i<length (tl (bl_txns b)). Node_takes (nd_storage s) (tl (bl_txns b) ! i) (snd (fst (run ! i)))
       (fst (fst (run ! Suc i)) - fst (fst (run ! i)))"
    "Node_taken (nd_storage s) (map (\<lambda>x. snd (fst x)) (butlast run)) (tl (bl_txns b)) =
       sum_list (map Transaction_amountOut (tl (bl_txns b))) + (fees - 0)" by blast
  moreover have "PatchDB_setConciliumId (Some (Block_getConciliumId b)) q = Inr q0" using D(3,4) assms(5) by auto
  moreover have "Transaction_amountOut (hd (bl_txns b)) = fees"
    using D(6) Transaction_verifyCoinbase_amount [OF D(7)] by simp
  ultimately have "\<exists>q0 run. PatchDB_setConciliumId (Some (Block_getConciliumId b)) q = Inr q0 \<and>
      Node_blockRun K b' (tl (bl_txns b)) run \<and> hd run = ((0, q0), s) \<and>
      (\<forall>i<length (tl (bl_txns b)). Node_takes (nd_storage s) (tl (bl_txns b) ! i) (snd (fst (run ! i)))
         (fst (fst (run ! Suc i)) - fst (fst (run ! i)))) \<and>
      Transaction_amountOut (hd (bl_txns b)) = fst (fst (last run)) \<and>
      Node_taken (nd_storage s) (map (\<lambda>x. snd (fst x)) (butlast run)) (tl (bl_txns b)) =
        sum_list (map Transaction_amountOut (bl_txns b))"
    using D(6) by (intro exI [of _ q0] exI [of _ run]) simp
  moreover have "PatchDB_wf p" using Node_coinbaseCoins_wf [OF D(8)] T by simp
  moreover note D(2) Node_calcHeight_spec(2) [OF D(1)] T Block_hash_same(4) [OF assms(3)]
  ultimately show ?thesis by simp
qed

lemma ex_block_merged: "Pending_mergePatches ex_dag ex_serializers [ex_hash CHR ''p''] None (Pending_new ex_dag None) =
    Inr (PatchDB_empty, None)"
  by (simp add: Pending_mergePatches_def Pending_mergeStep_def Pending_new_def ex_dag_def)

definition ex_q0 :: "string patch" where
  "ex_q0 = PatchDB_empty\<lparr>pt_conciliumId := Some 1, pt_mapConciliumLevel := [(1, 1)]\<rparr>"

definition ex_paid :: "string patch" where
  "ex_paid = PatchDB_empty\<lparr>
     pt_coins := [(ex_hash CHR ''1'', \<lparr>utxo_txHash = ex_hash CHR ''1'', utxo_arrIndexes = [], utxo_arrOutputs = []\<rparr>),
       (ex_hash CHR ''7'', \<lparr>utxo_txHash = ex_hash CHR ''7'', utxo_arrIndexes = [0],
          utxo_arrOutputs = [Coins_new 60000 (ex_addr CHR ''b'')]\<rparr>)],
     pt_mapSpentUtxos := [(ex_hash CHR ''1'', [(0, ex_hash CHR ''7'')])]\<rparr>"

lemma ex_pay_in_block: "Node_processTx 3 ex_env (Some ex_q0) False ex_pay ex_storage = (Inr (40000, ex_paid), ex_storage)"
  by (simp add: exec_defs ex_node_defs ex_q0_def ex_paid_def PatchDB_getContract_def)

lemma ex_paid_merged: "PatchDB_merge ex_serializers True ex_q0 ex_paid =
    Inr (ex_paid\<lparr>pt_mapConciliumLevel := [(1, 1)]\<rparr>)"
  by (simp add: ex_q0_def ex_paid_def PatchDB_merge_def PatchDB_empty_def PatchDB_mergeLevels_def PatchDB_mergeCoins_def
      PatchDB_mergeContracts_def PatchDB_mergeReceipts_def getMapsKeysUnique_def getMapsKeys_def PatchDB_getLevel_def
      PatchDB_new_def PatchDB_setConciliumId_def sof_def sadd_def jkeys_def Let_def PatchDB_mergeCoin_def PatchDB_mergeOne_def
      PatchDB_setSpentAll_def PatchDB_getSpentOutputs_def PatchDB_setSpentOutput_def jget_def jset_def orZero_def PatchDB_setUtxo_def
      UTXO_getTxHash_def)

lemma ex_cfg_simps [simp]: "nc_env ex_cfg = ex_env" "nc_pdag ex_cfg = ex_dag" "nc_mdag ex_cfg = ex_dag"
  "nc_block ex_cfg = ex_block_crypto" "nc_depth ex_cfg = 3" "nc_codec ex_cfg = ex_codec" "nc_levels ex_cfg = 10"
  "ne_crypto ex_env = ex_crypto" "ne_serializers ex_env = ex_serializers"
  by (simp_all add: ex_cfg_def ex_env_def)

lemma ex_node_simps [simp]: "nd_storage ex_node = ex_storage" "nd_pendingBlocks ex_node = Pending_new ex_dag None"
  "nd_processedBlock ex_node = None"
  by (simp_all add: ex_node_def)

lemma ex_envNow: "Node_envNow ex_cfg ex_node = ex_env"
  by (simp add: Node_envNow_def ex_env_def)

lemma ex_blk_simps [simp]: "Block_parentHashes ex_full_block = [ex_hash CHR ''p'']" "Block_getConciliumId ex_full_block = 1"
  "Block_getHeight ex_full_block = 7" "bl_txns ex_full_block = [ex_coinbase, ex_pay]"
  by (simp_all add: ex_full_block_def ex_header_def Block_parentHashes_def Block_getConciliumId_def Block_getHeight_def Block_new_def)

lemma ex_pay_concilium: "Transaction_conciliumId ex_pay = 1"
  by (simp add: ex_pay_def ex_signed_def Transaction_conciliumId_def)

lemma ex_block_run: "\<exists>p s. Node_execBlock ex_cfg ex_full_block ex_node = (Inr (Some p), s)"
proof -
  obtain b where b: "Block_hash ex_crypto ex_block_crypto ex_full_block = Inr (ex_hash CHR ''b'', b)"
    using ex_full_hash by blast
  note B = Block_hash_same [OF b]
  have b': "Block_hash ex_crypto ex_block_crypto b = Inr (ex_hash CHR ''b'', b)"
    using b by (auto simp: Block_hash_def Let_def split: option.splits if_splits)
  have h: "Node_hash ex_cfg ex_full_block ex_node = (Inr (ex_hash CHR ''b'', b), ex_node)"
    "Node_hash ex_cfg b ex_node = (Inr (ex_hash CHR ''b'', b), ex_node)"
    by (simp_all add: Node_hash_def liftS_def b b')
  have g: "ex_hash CHR ''b'' \<noteq> GENESIS_BLOCK"
    by (simp add: ex_hash_def GENESIS_BLOCK_def numeral_eq_Suc)
  have x: "Node_isBlockExecuted ex_cfg (ex_hash CHR ''b'') ex_node = (Inr False, ex_node)"
    by (simp add: Node_isBlockExecuted_def Node_blockInfo_def MainDag_getBlockInfo_def ex_dag_def ex_node_def
      Pending_hasBlock_def Pending_new_def bindS_def)
  have c: "Node_checkHeight ex_cfg b ex_node = (Inr (), ex_node)"
    by (simp add: Node_checkHeight_def Node_calcHeight_def Node_blockInfo_def MainDag_getBlockInfo_def ex_dag_def ex_node_def B
      BlockInfo_getHeight_def BlockInfo_markAsFinal_def BlockInfo_new_def ex_header_def liftS_def returnS_def bindS_def)
  have t: "Node_execTx ex_cfg b False ex_pay (0, ex_q0) ex_node =
      (Inr (40000, ex_paid\<lparr>pt_mapConciliumLevel := [(1, 1)]\<rparr>), ex_node)"
    using ex_pay_concilium
    by (simp add: Node_execTx_def Node_runTx_def onStorage_def zoomS_def ex_envNow ex_pay_in_block ex_paid_merged B
      bindS_def liftS_def returnS_def)
  have cb: "\<exists>p. Node_processBlockCoinbaseTX ex_cfg b 40000 (ex_paid\<lparr>pt_mapConciliumLevel := [(1, 1)]\<rparr>) ex_node = (Inr p, ex_node)"
    by (simp add: Node_processBlockCoinbaseTX_def Node_isGenesisBlock_def h g B bindS_def returnS_def liftS_def ex_coinbase_ok)
       (simp add: Node_coinbaseCoins_def ex_coinbase_def Transaction_getOutCoins_def Transaction_outputs_def plainOutput_def
         Transaction_getHash_def ex_crypto_def ex_paid_def PatchDB_empty_def PatchDB_createCoins_def UTXO_new_def UTXO_addCoins_def UTXO_coinsAtIndex_def
         Coins_new_def Coins_getAmount_def jget_def jset_def)
  have q: "PatchDB_setConciliumId (Some (Suc 0)) PatchDB_empty = Inr ex_q0"
    by (simp add: PatchDB_setConciliumId_def PatchDB_empty_def ex_q0_def orZero_def jset_def)
  from cb show ?thesis
    by (auto simp: Node_execBlock_def Node_isGenesisBlock_def bindS_def h g x c returnS_def liftS_def ex_block_merged q B t)
qed

theorem Node_block_mints_nothing_witness:
  "\<exists>b q run. Node_blockRun ex_cfg b [ex_pay] run \<and> hd run = ((0, q), ex_node) \<and>
     Node_taken ex_storage (map (\<lambda>x. snd (fst x)) (butlast run)) [ex_pay] = 100000"
proof -
  obtain p s where run: "Node_execBlock ex_cfg ex_full_block ex_node = (Inr (Some p), s)" using ex_block_run by blast
  have g: "ex_hash CHR ''b'' \<noteq> GENESIS_BLOCK"
    by (simp add: ex_hash_def GENESIS_BLOCK_def numeral_eq_Suc)
  have plain: "Node_plainTx ex_storage PatchDB_empty ex_pay"
    by (simp add: Node_plainTx_def ex_pay_def ex_signed_def Transaction_isContractCreation_def Transaction_getOutCoins_def
      Transaction_outputs_def plainOutput_def Coins_getReceiverAddr_def Coins_new_def ex_addrCreation Transaction_getContractAddr_def
      Transaction_getContractOutput_def ex_storage_def Storage_new_def PatchDB_getContract_def PatchDB_empty_def)
  have amount: "Transaction_amountOut ex_coinbase + Transaction_amountOut ex_pay = 100000"
    by (simp add: Transaction_amountOut_sum ex_coinbase_def ex_pay_def ex_signed_def Transaction_outputs_def plainOutput_def)
  have wf: "Pending_wf ex_dag (pm_dag (Pending_new ex_dag None :: string pending_obj ex_graph pending))"
    by (simp add: Pending_wf_def Pending_new_def ex_dag_def)
  from Node_block_mints_nothing [of ex_node ex_cfg ex_full_block, OF _ _ _ g _ _ run] ex_storage_wf wf ex_full_hash
    ex_block_merged plain amount show ?thesis by (auto simp del: Node_blockRun_def) blast
qed

end
