(* ===== verification/Cil_Sync_Props.thy ===== *)
theory Cil_Sync_Props
  imports Cil_Dag_Laws Cil_Node_Props
begin

text \<open>
  How a node gets back in step: the graph it rebuilds at start-up and the blocks it offers to a peer
  that is behind (\<open>node.js\<close>).
\<close>

section \<open>Rebuilding the graph\<close>

text \<open>C14: \<open>_buildMainDag\<close> ends after at most one turn more than there are stored blocks. The graph it builds
  holds the blocks it started from and, of every block but the genesis, all parents; every block in
  it is a stored one that is not bad. It does not throw when everything below the start is stored.\<close>

theorem Node_buildMainDag_total:
  assumes "dag_ok D" and "Storage_keyed B st"
  shows "\<exists>r. Node_buildMainDag D B st stableHs pendingHs = Some r \<and>
    (\<forall>g. r = Inr g \<longrightarrow> set (if pendingHs \<noteq> [] then pendingHs else stableHs) \<subseteq> MainDag_known D g \<and> MainDag_complete D g \<and> MainDag_stored D st g) \<and>
    ((\<exists>A. Storage_rooted st A \<and> set (if pendingHs \<noteq> [] then pendingHs else stableHs) \<subseteq> A) \<longrightarrow> isOk r)"
proof -
  let ?start = "if pendingHs \<noteq> [] then pendingHs else stableHs"
  have empty: "MainDag_stored D st (dg_empty D)" "MainDag_lacks D (dg_empty D) ?start"
    using assms(1) by (simp_all add: dag_ok_def MainDag_stored_def MainDag_lacks_def)
  have "card (fst ` set (sg_blockInfos st) - MainDag_known D (dg_empty D)) \<le> card (set (map fst (sg_blockInfos st)))"
    by (intro card_mono) auto
  also have "\<dots> < length (sg_blockInfos st) + 1"
    using card_length [of "map fst (sg_blockInfos st)"] by simp
  finally have fuel: "?start = [] \<or> card (fst ` set (sg_blockInfos st) - MainDag_known D (dg_empty D)) <
      length (sg_blockInfos st) + 1" ..
  obtain r where r: "Node_buildMainDag D B st stableHs pendingHs = Some r"
    and good: "\<forall>g'. r = Inr g' \<longrightarrow> MainDag_stored D st g' \<and> MainDag_complete D g' \<and>
      set ?start \<union> MainDag_known D (dg_empty D) \<subseteq> MainDag_known D g'"
    using Node_buildLevels_ok [OF assms(1,2) empty fuel] unfolding Node_buildMainDag_def by blast
  moreover have "isOk r" if "Storage_rooted st A" "set ?start \<subseteq> A" for A
    using Node_buildLevels_isOk [OF that r [unfolded Node_buildMainDag_def]] .
  ultimately show ?thesis by blast
qed

definition ex_bc :: block_crypto where
  "ex_bc = \<lparr>bc_merkleRoot = concat, bc_headerHash = (\<lambda>h. if hd_parentHashes h = [] then GENESIS_BLOCK else ex_hash CHR ''b'')\<rparr>"

definition ex_child_info :: blockInfo where "ex_child_info = BlockInfo_new (ex_header 1 [GENESIS_BLOCK])"

definition ex_root_info :: blockInfo where "ex_root_info = BlockInfo_new (ex_header 0 [])"

definition ex_blocks_storage :: "string storage" where
  "ex_blocks_storage = Storage_new\<lparr>sg_blockInfos :=
     [(ex_hash CHR ''b'', ex_child_info), (GENESIS_BLOCK, ex_root_info)]\<rparr>"

lemma ex_b_genesis: "ex_hash CHR ''b'' \<noteq> GENESIS_BLOCK" "isHash256 GENESIS_BLOCK"
  by (simp_all add: ex_hash_def GENESIS_BLOCK_def isHash256_def numeral_eq_Suc)

lemmas ex_info_defs = ex_child_info_def ex_root_info_def ex_header_def BlockInfo_new_def BlockInfo_getHash_def
  BlockInfo_parentHashes_def BlockInfo_getHeight_def BlockInfo_isBad_def Block_new_def

lemma ex_child_parents: "BlockInfo_parentHashes ex_child_info = [GENESIS_BLOCK]"
  by (simp add: ex_info_defs)

theorem Node_buildMainDag_total_witness:
  "\<exists>g. Node_buildMainDag ex_dag ex_bc ex_blocks_storage [] [ex_hash CHR ''b''] = Some (Inr g) \<and>
     {GENESIS_BLOCK, ex_hash CHR ''b''} \<subseteq> MainDag_known ex_dag g"
proof -
  let ?b = "ex_hash CHR ''b''"
  have ne: "GENESIS_BLOCK \<noteq> ?b" using ex_b_genesis(1) by simp
  have get: "jget (sg_blockInfos ex_blocks_storage) h =
      (if h = ?b then Some ex_child_info else if h = GENESIS_BLOCK then Some ex_root_info else None)" for h
    using ne by (simp add: ex_blocks_storage_def Storage_new_def jget_def)
  have "Storage_keyed ex_bc ex_blocks_storage"
    by (simp add: Storage_keyed_def get ex_bc_def ex_info_defs)
  note total = Node_buildMainDag_total [OF ex_dag_ok this, of "[]" "[?b]"]
  have "Storage_rooted ex_blocks_storage {?b, GENESIS_BLOCK}"
    using ex_b_genesis by (simp add: Storage_rooted_def get ex_info_defs BlockInfo_flags)
  with total obtain g where g: "Node_buildMainDag ex_dag ex_bc ex_blocks_storage [] [?b] = Some (Inr g)"
    and start: "?b \<in> MainDag_known ex_dag g" and complete: "MainDag_complete ex_dag g"
    and from_st: "MainDag_stored ex_dag ex_blocks_storage g"
    by (auto simp: isOk_ex)
  from start obtain bi where bi: "dg_readObj ex_dag g ?b = Some bi" by (auto simp: MainDag_known_def)
  with from_st have "jget (sg_blockInfos ex_blocks_storage) ?b = Some bi" unfolding MainDag_stored_def by blast
  then have "bi = ex_child_info" by (simp add: get)
  with complete bi ex_b_genesis(1) have "GENESIS_BLOCK \<in> MainDag_known ex_dag g"
    unfolding MainDag_complete_def
    by (metis \<open>bi = ex_child_info\<close> ex_child_parents list.set_intros(1) subsetD)
  with g start show ?thesis by auto
qed

section \<open>The blocks a peer misses\<close>

text \<open>C16: When \<open>fuel\<close> exceeds every height in the graph \<open>_getBlocksFromLastKnown\<close> ends. It names at most one
  block more than \<open>MAX_BLOCKS_INV\<close>, none of them twice, none that the peer named, and each a child, one
  higher, of a block the peer named or is sent, or the genesis block; below \<open>MAX_BLOCKS_INV\<close> nothing is
  missing: every such child of a block the peer has, or is sent, is sent too unless the peer named it.\<close>

theorem Node_missing_blocks:
  assumes "\<forall>h bi. dg_readObj D g h = Some bi \<longrightarrow> BlockInfo_getHeight bi < fuel" and "0 < fuel"
  shows "\<exists>r. Node_getBlocksFromLastKnown D g fuel hs = Some r \<and> (\<forall>bs. r = Inr bs \<longrightarrow>
    distinct bs \<and> length bs \<le> MAX_BLOCKS_INV + 1 \<and> set bs \<inter> set hs = {} \<and>
    (\<forall>h\<in>set bs. h = GENESIS_BLOCK \<or> (\<exists>p\<in>set hs \<union> set bs. MainDag_direct D g p h)) \<and>
    (length bs < MAX_BLOCKS_INV \<longrightarrow> (\<forall>p\<in>set hs \<inter> MainDag_known D g \<union> set bs. \<forall>c. MainDag_direct D g p c \<longrightarrow>
       c \<in> set hs \<union> set bs)))"
proof (cases "Node_knownHashes D g hs")
  case (Inr K)
  have K: "set K = set hs \<inter> MainDag_known D g" by (rule Node_knownHashes_set [OF Inr])
  have genesis: "MainDag_getBlockInfo D GENESIS_BLOCK g = Inr (dg_readObj D g GENESIS_BLOCK)"
    using ex_b_genesis(2) by (simp add: MainDag_getBlockInfo_def)
  note answer = Node_answer_ok [OF assms]
  show ?thesis
  proof (cases "K = []")
    case False
    show ?thesis
    proof (cases "Node_firstLevel D g K")
      case level: (Inr level)
      have start: "Node_getBlocksFromLastKnown D g fuel hs = Node_takeLevels D g K fuel level []"
        using False level Inr genesis by (simp add: Node_getBlocksFromLastKnown_def)
      from answer [OF level, of "[]"] obtain r where r: "Node_takeLevels D g K fuel level [] = Some r"
        and bs: "\<forall>bs. r = Inr bs \<longrightarrow> MainDag_answer D g K {} bs" by auto
      have sub: "set hs \<inter> MainDag_known D g \<subseteq> set K" "set K \<subseteq> set hs \<union> {}" using K by auto
      show ?thesis unfolding start
        by (rule exI, rule conjI, rule r, intro allI impI, rule MainDag_answer_promise [OF _ sub]) (use bs in auto)
    qed (use False Inr genesis in \<open>simp add: Node_getBlocksFromLastKnown_def\<close>)
  next
    case True
    show ?thesis
    proof (cases "dg_readObj D g GENESIS_BLOCK = None")
      case False
      let ?K = "[GENESIS_BLOCK]"
      show ?thesis
      proof (cases "Node_firstLevel D g ?K")
        case level: (Inr level)
        have start: "Node_getBlocksFromLastKnown D g fuel hs = Node_takeLevels D g ?K fuel level ?K"
          using False True level Inr genesis by (simp add: Node_getBlocksFromLastKnown_def)
        from answer [OF level, of ?K] obtain r where r: "Node_takeLevels D g ?K fuel level ?K = Some r"
          and bs: "\<forall>bs. r = Inr bs \<longrightarrow> MainDag_answer D g ?K (set ?K) bs" by (auto simp: MAX_BLOCKS_INV_def)
        have sub: "set hs \<inter> MainDag_known D g \<subseteq> set ?K" "set ?K \<subseteq> set hs \<union> set ?K" "set ?K \<inter> set hs = {}"
          using K True False by (auto simp: MainDag_known_def)
        show ?thesis unfolding start
          by (rule exI, rule conjI, rule r, intro allI impI, rule MainDag_answer_promise [OF _ sub]) (use bs in auto)
      qed (use True False Inr genesis in \<open>simp add: Node_getBlocksFromLastKnown_def\<close>)
    qed (use True Inr genesis K in \<open>simp add: Node_getBlocksFromLastKnown_def\<close>)
  qed
qed (simp add: Node_getBlocksFromLastKnown_def)

definition ex_two_blocks :: "blockInfo ex_graph" where
  "ex_two_blocks = ([(GENESIS_BLOCK, []), (ex_hash CHR ''b'', [GENESIS_BLOCK])],
     [(GENESIS_BLOCK, ex_root_info), (ex_hash CHR ''b'', ex_child_info)])"

theorem Node_missing_blocks_witness:
  "\<exists>bs. Node_getBlocksFromLastKnown ex_dag ex_two_blocks 2 [GENESIS_BLOCK] = Some (Inr bs) \<and>
     ex_hash CHR ''b'' \<in> set bs \<and> GENESIS_BLOCK \<notin> set bs"
proof -
  let ?b = "ex_hash CHR ''b''"
  have ne: "GENESIS_BLOCK \<noteq> ?b" using ex_b_genesis(1) by simp
  have hs: "isHash256 GENESIS_BLOCK" "isHash256 ?b" using ex_b_genesis(2) by simp_all
  have heights: "\<forall>h bi. dg_readObj ex_dag ex_two_blocks h = Some bi \<longrightarrow> BlockInfo_getHeight bi < 2"
    using ne by (auto simp: ex_dag_def ex_two_blocks_def ex_info_defs split: if_splits)
  have read: "dg_readObj ex_dag ex_two_blocks GENESIS_BLOCK = Some ex_root_info"
    "dg_readObj ex_dag ex_two_blocks ?b = Some ex_child_info"
    "dg_edgesToTips ex_dag ex_two_blocks GENESIS_BLOCK = [?b]" "dg_edgesToTips ex_dag ex_two_blocks ?b = []"
    using ne by (simp_all add: ex_dag_def ex_two_blocks_def)
  have "Node_getBlocksFromLastKnown ex_dag ex_two_blocks 2 [GENESIS_BLOCK] = Some (Inr [?b])"
    using ne hs by (simp add: Node_getBlocksFromLastKnown_def Node_knownHashes_def MainDag_getBlockInfo_def read
        Node_firstLevel_def Node_directChildren_def MainDag_getChildren_def MainDag_heightOf_def ex_info_defs
        numeral_2_eq_2 sadd_def MAX_BLOCKS_INV_def)
  with Node_missing_blocks [OF heights, of "[GENESIS_BLOCK]"] ne show ?thesis by auto
qed

section \<open>The signatures of a block\<close>

definition Node_signer :: "crypto \<Rightarrow> hash \<Rightarrow> string \<Rightarrow> addr option" where
  "Node_signer C h sig = (case cr_recoverPubKey C h sig of Inl _ \<Rightarrow> None | Inr pk \<Rightarrow> Some (cr_getAddress C pk))"

lemma Concilium_weight_member:
  "a \<in> set (Concilium_getAddresses c) \<Longrightarrow> Concilium_getWitnessWeight a c = Inr (Concilium_weight c a)"
proof (cases c)
  case (POS p)
  assume "a \<in> set (Concilium_getAddresses c)"
  then obtain i where "findIndex (\<lambda>m. pm_address m = a) (ps_arrMembers p) = Some i"
    by (cases "findIndex (\<lambda>m. pm_address m = a) (ps_arrMembers p)")
       (auto simp: POS Pos_getAddresses_def findIndex_None_iff)
  then show ?thesis by (simp add: POS Concilium_weight_def Pos_getWitnessWeight_def)
qed (simp add: Concilium_weight_def Rr_getWitnessWeight_def)

lemma foldR_dsum:
  assumes step: "\<And>x w w'. f x w = Inr w' \<longleftrightarrow> P x \<and> w' = dbl (w + g x)"
  shows "foldR f xs w = Inr w' \<longleftrightarrow> (\<forall>x\<in>set xs. P x) \<and> w' = foldl (\<lambda>a w. dbl (a + w)) w (map g xs)"
  by (induction xs arbitrary: w) (auto simp: step)

text \<open>C17: The signatures of a block are accepted exactly when each is of a member of the block's concilium and
  the weights, added up as doubles over the list of signatures, reach the quorum. (The sum is over the
  list: a signature that is repeated counts as often as it occurs.)\<close>

theorem Node_block_signatures_exact:
  fixes K :: "('g, 'm, 'd, 'r, 'a) node_cfg"
  assumes hash: "Block_hash (nc_crypto K) (nc_block K) b = Inr (h, b')"
    and concilium: "fst (Storage_getConciliumById (nc_serializers K) (ne_loadConciliums (nc_env K))
       (Block_getConciliumId b) (nd_storage s)) = Inr c"
  shows "fst (Node_verifyBlockSignatures K b s) = Inr () \<longleftrightarrow>
    (\<forall>sig\<in>set (bl_signatures b). \<exists>a\<in>set (Concilium_getAddresses c). Node_signer (nc_crypto K) h sig = Some a) \<and>
    (\<forall>q. Concilium_getQuorum c = Some q \<longrightarrow>
       q \<le> dsum (map (\<lambda>sig. Concilium_weight c (the (Node_signer (nc_crypto K) h sig))) (bl_signatures b)))"
proof -
  let ?step = "\<lambda>sig gatheredWeight.
      bindR (cr_recoverPubKey (nc_crypto K) h sig) (\<lambda>pubKey.
      let strAddress = cr_getAddress (nc_crypto K) pubKey in
      bindR (assertR (strAddress \<in> set (Concilium_getAddresses c)) (AssertionError ''Bad signature for block'')) (\<lambda>_.
      bindR (Concilium_getWitnessWeight strAddress c) (\<lambda>w. Inr (dbl (gatheredWeight + w)))))"
  let ?signer = "Node_signer (nc_crypto K) h"
  let ?ok = "\<lambda>sig. \<exists>a\<in>set (Concilium_getAddresses c). ?signer sig = Some a"
  have step: "?step sig w = Inr w' \<longleftrightarrow> ?ok sig \<and> w' = dbl (w + Concilium_weight c (the (?signer sig)))" for sig w w'
    by (auto simp: Node_signer_def Let_def Concilium_weight_member split: sum.splits)
  note sum = foldR_dsum [of ?step ?ok, OF step]
  obtain st where "Storage_getConciliumById (nc_serializers K) (ne_loadConciliums (nc_env K)) (Block_getConciliumId b')
      (nd_storage s) = (Inr c, st)"
    using concilium Block_hash_same [OF hash] by (cases "Storage_getConciliumById (nc_serializers K)
      (ne_loadConciliums (nc_env K)) (Block_getConciliumId b) (nd_storage s)") simp
  then have run: "fst (Node_verifyBlockSignatures K b s) = (case foldR ?step (bl_signatures b) 0 of Inl e \<Rightarrow> Inl e
      | Inr w \<Rightarrow> (case Concilium_getQuorum c of None \<Rightarrow> Inr ()
                | Some q \<Rightarrow> if w < q then Inl (Error ''Not enough signatures for block!'') else Inr ()))"
    using Block_hash_same [OF hash]
    by (simp add: Node_verifyBlockSignatures_def Node_hash_def hash bindS_def liftS_def onStorage_def zoomS_def
        returnS_def throwS_def split: sum.split option.split)
  show ?thesis
  proof (cases "foldR ?step (bl_signatures b) 0")
    case (Inl e)
    moreover have "\<not> (\<forall>sig\<in>set (bl_signatures b). ?ok sig)"
      using Inl sum [of "bl_signatures b" 0] by auto
    ultimately show ?thesis using run by simp
  next
    case (Inr w)
    with run sum [of "bl_signatures b" 0 w, folded dsum_def] show ?thesis by (auto split: option.splits)
  qed
qed

text \<open>Two members, quorum two: the signature of one of them, given twice, is enough.\<close>

definition ex_pair :: concilium where
  "ex_pair = RR (Rr_new 1 None (Some True) (Some [ex_addr CHR ''w'', ex_addr CHR ''v'']) (Some 2))"

definition ex_pair_node :: "(string pending_obj ex_graph, blockInfo ex_graph, string) node" where
  "ex_pair_node = ex_node\<lparr>nd_storage := ex_storage\<lparr>sg_arrConciliumDefinition := Some [ex_concilium 0, ex_pair]\<rparr>\<rparr>"

definition ex_signed_block :: block where
  "ex_signed_block = ex_full_block\<lparr>bl_signatures := [replicate 130 CHR ''w'', replicate 130 CHR ''w'']\<rparr>"

theorem Node_block_signatures_exact_witness:
  "fst (Node_verifyBlockSignatures ex_cfg ex_signed_block ex_pair_node) = Inr () \<and>
   Concilium_getQuorum ex_pair = Some 2 \<and> length (Concilium_getAddresses ex_pair) = 2 \<and>
   set (bl_signatures ex_signed_block) = {replicate 130 CHR ''w''}"
proof -
  have simps: "Block_getConciliumId ex_signed_block = 1"
    "bl_signatures ex_signed_block = [replicate 130 CHR ''w'', replicate 130 CHR ''w'']"
    by (simp_all add: ex_signed_block_def Block_getConciliumId_def ex_full_block_def ex_header_def Block_new_def)
  obtain b where hash: "Block_hash ex_crypto ex_block_crypto ex_signed_block = Inr (ex_hash CHR ''b'', b)"
    by (simp add: Block_hash_def Block_buildTxTree_def ex_signed_block_def ex_full_block_def Block_new_def ex_block_crypto_def
        ex_coinbase_def ex_pay_def ex_signed_def ex_crypto_def Transaction_getHash_def Let_def)
  have concilium: "fst (Storage_getConciliumById ex_serializers (ne_loadConciliums ex_env) 1 (nd_storage ex_pair_node)) =
      Inr ex_pair"
    by (simp add: Storage_getConciliumById_def Storage_ensureArrConciliumDefinition_def ex_pair_node_def ex_storage_def
        Storage_new_def bindS_def returnS_def)
  have pair: "Concilium_getQuorum ex_pair = Some 2" "Concilium_getAddresses ex_pair = [ex_addr CHR ''w'', ex_addr CHR ''v'']"
    "Concilium_weight ex_pair = (\<lambda>_. 1)"
    by (simp_all add: ex_pair_def Rr_getQuorum_def Rr_getAddresses_def Rr_new_def Concilium_weight_def
        Rr_getWitnessWeight_def Base_new_def fun_eq_iff concilium_base.defs)
  have signer: "Node_signer ex_crypto (ex_hash CHR ''b'') (replicate 130 CHR ''w'') = Some (ex_addr CHR ''w'')"
    by (simp add: Node_signer_def ex_crypto_def)
  show ?thesis
    using Node_block_signatures_exact [of ex_cfg ex_signed_block "ex_hash CHR ''b''" b ex_pair_node ex_pair] hash concilium
    by (simp add: simps pair signer dsum_def dbl_small)
qed

end
