(* ===== verification/Cil_Account.thy ===== *)
theory Cil_Account
  imports Cil_Wallet
begin

text \<open>
  The wallet of the node's owner: \<open>src/node/wallet.js\<close>, one key pair, and \<open>src/node/storedWallets.js\<close>,
  accounts of encrypted keys whose outputs it gathers into transactions. A key pair is its private
  key; deriving the public key and the address, and encrypting a key, are the parameters of
  \<open>wallet_crypto\<close>. The timer that forgets a password is the operation \<open>StoredWallet_clearPassword\<close>.
  The fees per input and output, \<open>TX_FEE * 0.12\<close> and \<open>TX_FEE * 0.04\<close>, are the integers 480 and 160,
  which is what the double products give.
\<close>

section \<open>One key pair\<close>

record wallet_crypto =
  wy_publicKey :: "string \<Rightarrow> string res"
  wy_address :: "string \<Rightarrow> addr"
  wy_encrypt :: "string \<Rightarrow> string \<Rightarrow> string"
  wy_decrypt :: "string \<Rightarrow> string \<Rightarrow> string res"

record wallet =
  wa_privateKey :: string
  wa_publicKey :: string
  wa_address :: addr

definition Wallet_new :: "wallet_crypto \<Rightarrow> string \<Rightarrow> wallet res" where
  "Wallet_new Y privateKey =
     (if privateKey = [] then Inl (Error ''You need private key to init wallet'')
      else bindR (wy_publicKey Y privateKey) (\<lambda>publicKey.
           Inr \<lparr>wa_privateKey = privateKey, wa_publicKey = publicKey, wa_address = wy_address Y publicKey\<rparr>))"

definition Wallet_sign :: "crypto \<Rightarrow> hash \<Rightarrow> wallet \<Rightarrow> string" where
  "Wallet_sign C h w = cr_sign C h (wa_privateKey w)"

section \<open>Accounts\<close>

definition nFeePerInput :: int where "nFeePerInput = 480"
definition nFeePerReceiver :: int where "nFeePerReceiver = 160"

record 'd stored_wallet =
  sw_storage :: "'d full_storage"
  sw_passwords :: "(string, string) jsmap"

definition onStore :: "('x, 'd full_storage) act \<Rightarrow> ('x, 'd stored_wallet) act" where
  "onStore = zoomS sw_storage (\<lambda>x s. s\<lparr>sw_storage := x\<rparr>)"

definition StoredWallet_clearPassword :: "string \<Rightarrow> 'd stored_wallet \<Rightarrow> 'd stored_wallet" where
  "StoredWallet_clearPassword strAccountName s = s\<lparr>sw_passwords := jdelete strAccountName (sw_passwords s)\<rparr>"

definition StoredWallet_ensureAccount :: "string \<Rightarrow> (unit, 'd stored_wallet) act" where
  "StoredWallet_ensureAccount strAccountName =
     onStore (onWallet (bindS (Storage_hasAccount strAccountName) (\<lambda>has.
       if has then returnS () else Storage_createAccount strAccountName)))"

definition StoredWallet_unlockAccount :: "string \<Rightarrow> string \<Rightarrow> (unit, 'd stored_wallet) act" where
  "StoredWallet_unlockAccount strAccountName strPassword =
     bindS (StoredWallet_ensureAccount strAccountName) (\<lambda>_.
     modifyS (\<lambda>s. s\<lparr>sw_passwords := jset strAccountName strPassword (sw_passwords s)\<rparr>))"

definition StoredWallet_unlocked :: "string \<Rightarrow> 'd stored_wallet \<Rightarrow> unit res" where
  "StoredWallet_unlocked strAccountName s =
     assertR (jhas (sw_passwords s) strAccountName) (AssertionError ''unlockAccount first'')"

definition StoredWallet_walletWatchAddress :: "addr \<Rightarrow> bool \<Rightarrow> (unit, 'd stored_wallet) act" where
  "StoredWallet_walletWatchAddress strAddress bReindex =
     bindS (onStore (onWallet (Storage_walletWatchAddress strAddress))) (\<lambda>_.
     if bReindex then onStore Storage_walletReIndex else returnS ())"

text \<open>What goes wrong while the address is watched is only logged.\<close>

definition StoredWallet_importPrivateKey ::
    "wallet_crypto \<Rightarrow> string \<Rightarrow> string \<Rightarrow> bool \<Rightarrow> (unit, 'd stored_wallet) act" where
  "StoredWallet_importPrivateKey Y strAccountName strPrivateKey bRescan =
     bindS (\<lambda>s. (StoredWallet_unlocked strAccountName s, s)) (\<lambda>_.
     bindS (StoredWallet_ensureAccount strAccountName) (\<lambda>_.
     bindS (liftS (wy_publicKey Y strPrivateKey)) (\<lambda>publicKey.
     let address = wy_address Y publicKey
     in bindS (getsS (\<lambda>s. wy_encrypt Y (the (jget (sw_passwords s) strAccountName)) strPrivateKey)) (\<lambda>encrypted.
        bindS (onStore (onWallet (Storage_writeKeystore address strAccountName encrypted))) (\<lambda>_.
        catchS (StoredWallet_walletWatchAddress address bRescan) (\<lambda>_. returnS ()))))))"

section \<open>Gathering inputs\<close>

text \<open>\<open>finePrintUtxos\<close>: the outputs one by one, with their transaction and index.\<close>

record unspent =
  us_hash :: hash
  us_nOut :: int
  us_amount :: int

definition finePrintUtxos :: "utxo list \<Rightarrow> unspent list res" where
  "finePrintUtxos arrUtxos =
     mapR concat (mapM (\<lambda>u. mapM (\<lambda>idx. bindR (UTXO_coinsAtIndex u idx) (\<lambda>coins.
        Inr \<lparr>us_hash = UTXO_getTxHash u, us_nOut = idx, us_amount = Coins_getAmount coins\<rparr>)) (UTXO_getIndexes u)) arrUtxos)"

fun StoredWallet_gather :: "int \<Rightarrow> unspent list \<Rightarrow> unspent list \<Rightarrow> int \<Rightarrow> unspent list \<times> int \<times> bool" where
  "StoredWallet_gather amount [] arrCoins gathered = (arrCoins, gathered, False)"
| "StoredWallet_gather amount (coins # rest) arrCoins gathered =
     (if us_amount coins = 0 then StoredWallet_gather amount rest arrCoins gathered
      else let gathered = gathered + us_amount coins; arrCoins = arrCoins @ [coins]
           in if gathered > amount + nFeePerInput * int (length arrCoins) then (arrCoins, gathered, True)
              else StoredWallet_gather amount rest arrCoins gathered)"

definition StoredWallet_gatherInputsForAmount :: "unspent list \<Rightarrow> int \<Rightarrow> unspent list \<times> int \<times> bool" where
  "StoredWallet_gatherInputsForAmount arrObjUnspent amount = StoredWallet_gather amount arrObjUnspent [] 0"

text \<open>One address after the other until enough is gathered; who owns an input is remembered.\<close>

fun StoredWallet_formLoop ::
    "addr list \<Rightarrow> int \<Rightarrow> int \<Rightarrow> addr list \<Rightarrow> tx \<Rightarrow> (tx \<times> int \<times> addr list, 'd stored_wallet) act" where
  "StoredWallet_formLoop [] restOfAmount nTotalGathered owners t = returnS (t, nTotalGathered, owners)"
| "StoredWallet_formLoop (strAddress # arrAddresses) restOfAmount nTotalGathered owners t =
     bindS (onStore (Storage_walletListUnspent strAddress)) (\<lambda>arrUtxos.
     bindS (liftS (finePrintUtxos arrUtxos)) (\<lambda>arrResult.
     case StoredWallet_gatherInputsForAmount arrResult (restOfAmount + nFeePerInput * int (length owners)) of
       (arrCoins, gathered, bDone) \<Rightarrow>
     bindS (liftS (foldR (\<lambda>c. Transaction_addInput (us_hash c) (us_nOut c)) arrCoins t)) (\<lambda>t.
     let owners = owners @ replicate (length arrCoins) strAddress
     in if bDone then returnS (t, nTotalGathered + gathered, owners)
        else StoredWallet_formLoop arrAddresses (restOfAmount - gathered) (nTotalGathered + gathered) owners t)))"

definition StoredWallet_formTxInputs :: "tx \<Rightarrow> addr list \<Rightarrow> int \<Rightarrow> (tx \<times> int \<times> addr list, 'd stored_wallet) act" where
  "StoredWallet_formTxInputs t arrAddresses nAmount = StoredWallet_formLoop arrAddresses nAmount 0 [] t"

section \<open>Claiming and signing\<close>

definition StoredWallet_ensurePk ::
    "wallet_crypto \<Rightarrow> string \<Rightarrow> addr list \<Rightarrow> (addr, string) jsmap \<Rightarrow> (addr, string) jsmap res" where
  "StoredWallet_ensurePk Y password arrAddressesOwners mapAddrKeystore =
     foldR (\<lambda>strAddress m.
       bindR (wy_decrypt Y password (case jget mapAddrKeystore strAddress of None \<Rightarrow> [] | Some k \<Rightarrow> k)) (\<lambda>pk.
       Inr (jset strAddress pk m))) (sof arrAddressesOwners) []"

text \<open>
  The method is \<open>async\<close> but nobody waits for it: it runs to its end, as it waits for nothing itself, and
  what it throws is lost. The result is the transaction as far as it was claimed.
\<close>

definition StoredWallet_claimFundsAndSignTx ::
    "crypto \<Rightarrow> wallet_crypto \<Rightarrow> addr list \<Rightarrow> (addr, string) jsmap \<Rightarrow> string \<Rightarrow> addr option \<Rightarrow> (unit, tx) act" where
  "StoredWallet_claimFundsAndSignTx C Y arrAddressesOwners mapAddrKeystore strPassword strAddrToSign =
     bindS (liftS (StoredWallet_ensurePk Y strPassword arrAddressesOwners mapAddrKeystore)) (\<lambda>mapUnencryptedKeys.
     bindS (eachS (\<lambda>(i, strAddress).
         case jget mapUnencryptedKeys strAddress of
           None \<Rightarrow> throwS (Thrown ''Private key not found'')
         | Some pk \<Rightarrow> if pk = [] then throwS (Thrown ''Private key not found'') else updR (Transaction_claim C i pk))
       (zip [0..<length arrAddressesOwners] arrAddressesOwners)) (\<lambda>_.
     case strAddrToSign of
       None \<Rightarrow> returnS ()
     | Some a \<Rightarrow> (case jget mapUnencryptedKeys a of
           None \<Rightarrow> returnS ()
         | Some signPk \<Rightarrow> if a = [] \<or> signPk = [] then returnS ()
                          else modifyS (Transaction_signForContract C signPk))))"

section \<open>Sending\<close>

definition ADDRESS_PREFIX :: string where "ADDRESS_PREFIX = ''Ux''"

abbreviation strip :: "addr \<Rightarrow> addr" where "strip \<equiv> stripAddressPrefix ADDRESS_PREFIX"

record send_params =
  sp_strAccountName :: "string option"
  sp_strAddressTo :: "addr option"
  sp_nAmount :: "int option"
  sp_strChangeAddress :: "addr option"
  sp_nConciliumId :: "nat option"

definition required :: "'a option \<Rightarrow> 'a res" where
  "required x = (case x of None \<Rightarrow> Inl (Thrown ''Required parameter is missing'') | Some v \<Rightarrow> Inr v)"

text \<open>The change goes back when there is any; then the inputs are claimed.\<close>

definition StoredWallet_finish ::
    "crypto \<Rightarrow> wallet_crypto \<Rightarrow> string \<Rightarrow> addr \<Rightarrow> int \<Rightarrow> int \<Rightarrow> addr list \<Rightarrow> addr option \<Rightarrow> tx \<Rightarrow>
     (tx, 'd stored_wallet) act" where
  "StoredWallet_finish C Y strAccountName strChangeAddress nTotalGathered nRequired owners signer t =
     bindS (liftS (if nTotalGathered - nRequired \<noteq> 0
        then Transaction_addReceiver (nTotalGathered - nRequired) (strip strChangeAddress) t else Inr t)) (\<lambda>t.
     bindS (onStore (onWallet (Storage_getKeystoresForAccount strAccountName))) (\<lambda>keystores s.
     (Inr (snd (StoredWallet_claimFundsAndSignTx C Y owners keystores
                  (case jget (sw_passwords s) strAccountName of None \<Rightarrow> [] | Some p \<Rightarrow> p) signer t)), s)))"

definition StoredWallet_sendToAddress ::
    "crypto \<Rightarrow> wallet_crypto \<Rightarrow> send_params \<Rightarrow> (tx, 'd stored_wallet) act" where
  "StoredWallet_sendToAddress C Y P =
     bindS (liftS (required (sp_strAccountName P))) (\<lambda>strAccountName.
     bindS (liftS (required (sp_strAddressTo P))) (\<lambda>addressTo.
     bindS (liftS (required (sp_nAmount P))) (\<lambda>nAmount.
     bindS (liftS (required (sp_strChangeAddress P))) (\<lambda>changeAddress.
     let strAddressTo = strip addressTo; strChangeAddress = strip changeAddress
     in bindS (\<lambda>s. (StoredWallet_unlocked strAccountName s, s)) (\<lambda>_.
        bindS (StoredWallet_ensureAccount strAccountName) (\<lambda>_.
        let t = Transaction_setConciliumId (case sp_nConciliumId P of None \<Rightarrow> 1 | Some n \<Rightarrow> n) Transaction_new
        in bindS (onStore (onWallet (Storage_getAccountAddresses strAccountName))) (\<lambda>addresses.
        let nReqPlusOutputs = nAmount + nFeePerReceiver * 2
        in bindS (case addresses of
                    None \<Rightarrow> throwS (TypeError ''undefined is not iterable'')
                  | Some as \<Rightarrow> StoredWallet_formTxInputs t as nReqPlusOutputs) (\<lambda>(t, nTotalGathered, owners).
        let nRequired = nReqPlusOutputs + int (length owners) * nFeePerInput
        in if nTotalGathered < nRequired then throwS (Thrown ''Not enough coins to send'')
           else bindS (liftS (Transaction_addReceiver nAmount (strip strAddressTo) t)) (\<lambda>t.
                StoredWallet_finish C Y strAccountName strChangeAddress nTotalGathered nRequired owners None t)))))))))"

section \<open>Calling a contract\<close>

record call_params =
  cp_strAccountName :: "string option"
  cp_strAddressContract :: "addr option"
  cp_strMethod :: "string option"
  cp_strJsonArguments :: "string option"
  cp_nAmount :: "int option"
  cp_strChangeAddress :: "addr option"
  cp_nConciliumId :: "nat option"
  cp_nCoinLimit :: "int option"
  cp_strSignerAddress :: "addr option"

text \<open>\<open>nLength\<close> is the length of the invocation as \<open>JSON.stringify\<close> writes it.\<close>

definition StoredWallet_estimateSizeContractInvoke :: "nat \<Rightarrow> int" where
  "StoredWallet_estimateSizeContractInvoke nLength =
     (let nSize = int nLength + 20 + 4 in nFeePerReceiver + 4000 * nSize div 1024 + 1)"

text \<open>
  \<open>invocation\<close> is the platform's: the arguments parsed and the object of method and arguments written
  out again; it throws on arguments that are no JSON.
\<close>

definition StoredWallet_callContract ::
    "crypto \<Rightarrow> wallet_crypto \<Rightarrow> (string \<Rightarrow> string \<Rightarrow> string res) \<Rightarrow> call_params \<Rightarrow> (tx, 'd stored_wallet) act" where
  "StoredWallet_callContract C Y invocation P =
     bindS (liftS (required (cp_strAccountName P))) (\<lambda>strAccountName.
     bindS (liftS (required (cp_strAddressContract P))) (\<lambda>addressContract.
     bindS (liftS (required (cp_strMethod P))) (\<lambda>strMethod.
     bindS (liftS (required (cp_strJsonArguments P))) (\<lambda>strJsonArguments.
     bindS (liftS (required (cp_nAmount P))) (\<lambda>nAmount.
     bindS (liftS (required (cp_strChangeAddress P))) (\<lambda>changeAddress.
     let strAddressContract = strip addressContract; strChangeAddress = strip changeAddress;
         signer = map_option strip (cp_strSignerAddress P);
         nCoinLimit = (case cp_nCoinLimit P of None \<Rightarrow> 50000 | Some n \<Rightarrow> n)
     in bindS (\<lambda>s. (StoredWallet_unlocked strAccountName s, s)) (\<lambda>_.
        bindS (StoredWallet_ensureAccount strAccountName) (\<lambda>_.
        bindS (liftS (invocation strMethod strJsonArguments)) (\<lambda>code.
        bindS (liftS (Transaction_invokeContract (strip strAddressContract) code nAmount (Some (strip strChangeAddress)))) (\<lambda>t.
        let t = Transaction_setConciliumId (case cp_nConciliumId P of None \<Rightarrow> 1 | Some n \<Rightarrow> n) t
        in bindS (onStore (onWallet (Storage_getAccountAddresses strAccountName))) (\<lambda>addresses.
        case addresses of
          None \<Rightarrow> throwS (TypeError ''undefined is not iterable'')
        | Some as \<Rightarrow>
            if (case signer of None \<Rightarrow> False | Some a \<Rightarrow> a \<noteq> [] \<and> a \<notin> set as)
            then throwS (Thrown ''Signer address specified BUT not found in account'')
            else let nReqPlusOutputs = nAmount + nCoinLimit + nFeePerReceiver + StoredWallet_estimateSizeContractInvoke (length code)
                 in bindS (StoredWallet_formTxInputs t as nReqPlusOutputs) (\<lambda>(t, nTotalGathered, owners).
                    let nRequired = nReqPlusOutputs + int (length owners) * nFeePerInput
                    in if nTotalGathered < nRequired then throwS (Thrown ''Not enough coins to send'')
                       else StoredWallet_finish C Y strAccountName strChangeAddress nTotalGathered nRequired owners
                              signer t))))))))))))"

end
