(* ===== verification/Cil_Wallet_Laws.thy ===== *)
theory Cil_Wallet_Laws
  imports Cil_Wallet
begin

text \<open>
  What the wallet promises: its records cover every unspent output of a watched address, whatever
  patches are applied, so a listing is exact; and the outcome of a patch on the chain state does not
  depend on the options.
\<close>

section \<open>Outputs of an address\<close>

definition UTXO_pays :: "utxo \<Rightarrow> addr \<Rightarrow> bool" where
  "UTXO_pays u a \<longleftrightarrow> (\<exists>i c. UTXO_abs u i = Some c \<and> coins_receiverAddr c = a)"

lemma UTXO_outputs_pay:
  assumes "UTXO_wf u"
  shows "\<exists>r. UTXO_getOutputsForAddress u a = Inr r \<and> (r \<noteq> [] \<longleftrightarrow> UTXO_pays u a)"
proof -
  have "(\<exists>i\<in>set (utxo_arrIndexes u). coins_receiverAddr (UTXO_at u i) = a) \<longleftrightarrow> UTXO_pays u a"
    using UTXO_abs_index [OF assms] dom_UTXO_abs [OF assms] unfolding UTXO_pays_def UTXO_at_def
    by (metis domI option.sel)
  then show ?thesis by (auto simp: UTXO_getOutputsForAddress_eq [OF assms] filter_empty_conv)
qed

lemma Storage_walletMatches_eq:
  assumes "UTXO_wf u"
  shows "Storage_walletMatches as u = Inr (map (\<lambda>a. (utxo_txHash u, a)) (filter (UTXO_pays u) as))"
proof -
  have "foldR (\<lambda>a acc. bindR (UTXO_getOutputsForAddress u a) (\<lambda>r.
        Inr (if r \<noteq> [] then acc @ [(UTXO_getTxHash u, a)] else acc))) as acc =
      Inr (acc @ map (\<lambda>a. (utxo_txHash u, a)) (filter (UTXO_pays u) as))" for acc
  proof (induction as arbitrary: acc)
    case (Cons a as)
    obtain r where "UTXO_getOutputsForAddress u a = Inr r" "r \<noteq> [] \<longleftrightarrow> UTXO_pays u a"
      using UTXO_outputs_pay [OF assms, of a] by blast
    with Cons show ?case by (simp add: UTXO_getTxHash_def)
  qed simp
  then show ?thesis by (simp add: Storage_walletMatches_def)
qed

text \<open>The records a list of outputs asks for.\<close>

definition Wallet_due :: "addr list \<Rightarrow> (hash \<times> utxo) list \<Rightarrow> (hash \<times> addr) list" where
  "Wallet_due as coins = concat (map (\<lambda>(_, u). map (\<lambda>a. (utxo_txHash u, a)) (filter (UTXO_pays u) as)) coins)"

lemma Wallet_due_iff:
  "(h, a) \<in> set (Wallet_due as coins) \<longleftrightarrow> a \<in> set as \<and> (\<exists>k u. (k, u) \<in> set coins \<and> utxo_txHash u = h \<and> UTXO_pays u a)"
  by (auto simp: Wallet_due_def)

lemma Wallet_due_foldR:
  assumes "\<forall>(h, u)\<in>set coins. UTXO_wf u"
  shows "foldR (\<lambda>(_, u) acc. bindR (UTXO_isEmpty u) (\<lambda>empty.
      if empty then Inr acc else bindR (Storage_walletMatches as u) (\<lambda>m. Inr (acc @ m)))) coins acc =
    Inr (acc @ Wallet_due as coins)"
  using assms
proof (induction coins arbitrary: acc)
  case (Cons x coins)
  obtain h u where x: "x = (h, u)" by force
  have wf: "UTXO_wf u" using Cons.prems by (simp add: x)
  have "filter (UTXO_pays u) as = []" if "UTXO_abs u = Map.empty"
    using that by (simp add: UTXO_pays_def)
  with Cons wf show ?case
    by (simp add: x UTXO_isEmpty_abs Storage_walletMatches_eq Wallet_due_def)
qed (simp add: Wallet_due_def)

section \<open>Records\<close>

definition Wallet_keysOk :: "nat \<Rightarrow> (wallet_key, hash) jsmap \<Rightarrow> bool" where
  "Wallet_keysOk n records \<longleftrightarrow> jwf records \<and> (\<forall>a k. jget records (a, k) \<noteq> None \<longrightarrow> (\<exists>m\<le>n. k = show_nat m))"

lemma Storage_walletRecord_eq:
  "Storage_walletRecord (h, a) (n, r) = (Suc n, jset (a, show_nat (Suc n)) h r)"
  by (simp add: Storage_walletRecord_def)

lemma Storage_walletRecords:
  assumes "Wallet_keysOk n records" and "fold Storage_walletRecord xs (n, records) = (n', records')"
  shows "Wallet_keysOk n' records' \<and> (\<forall>key h. jget records key = Some h \<longrightarrow> jget records' key = Some h) \<and>
    (\<forall>(h, a)\<in>set xs. \<exists>k. jget records' (a, k) = Some h)"
  using assms
proof (induction xs arbitrary: n records)
  case (Cons x xs)
  obtain h a where x: "x = (h, a)" by force
  let ?r = "jset (a, show_nat (Suc n)) h records"
  have fresh: "jget records (b, show_nat (Suc n)) = None" for b
    using Cons.prems(1) show_nat_inj unfolding Wallet_keysOk_def by (metis Suc_n_not_le_n)
  have ok: "Wallet_keysOk (Suc n) ?r"
    unfolding Wallet_keysOk_def
  proof (intro conjI allI impI)
    show "jwf ?r" using Cons.prems(1) by (simp add: Wallet_keysOk_def)
    fix b k assume "jget ?r (b, k) \<noteq> None"
    then have "k = show_nat (Suc n) \<or> jget records (b, k) \<noteq> None" by (auto simp: jget_jset split: if_splits)
    with Cons.prems(1) show "\<exists>m\<le>Suc n. k = show_nat m" unfolding Wallet_keysOk_def
      by (elim disjE) (blast, meson le_SucI)
  qed
  have run: "fold Storage_walletRecord xs (Suc n, ?r) = (n', records')"
    using Cons.prems(2) by (simp add: x Storage_walletRecord_eq)
  have keep: "jget records key = Some v \<Longrightarrow> jget ?r key = Some v" for key v
    using fresh by (cases key) (auto simp: jget_jset)
  note IH = Cons.IH [OF ok run]
  have "jget ?r (a, show_nat (Suc n)) = Some h" by (simp add: jget_jset)
  with IH have "\<exists>k. jget records' (a, k) = Some h" by blast
  with IH have "\<forall>(h, a)\<in>set (x # xs). \<exists>k. jget records' (a, k) = Some h" by (simp add: x)
  with IH keep show ?case by blast
qed simp

text \<open>The invariant: every unspent output of a watched address has a record.\<close>

definition Wallet_covers :: "'d storage \<Rightarrow> wallet_db \<Rightarrow> bool" where
  "Wallet_covers st w \<longleftrightarrow> (\<forall>a\<in>set (the (wl_addresses w)). \<forall>h u. jget (sg_utxos st) h = Some u \<longrightarrow> UTXO_pays u a \<longrightarrow>
     (\<exists>k. jget (wl_records w) (a, k) = Some h))"

definition Wallet_ok :: "'d full_storage \<Rightarrow> bool" where
  "Wallet_ok s \<longleftrightarrow> wl_support (fs_wallet s) \<and> wl_addresses (fs_wallet s) \<noteq> None \<and>
     Wallet_keysOk (wl_autoincrement (fs_wallet s)) (wl_records (fs_wallet s)) \<and>
     Storage_wf (fs_main s) \<and> Wallet_covers (fs_main s) (fs_wallet s)"

lemma Storage_walletWrite:
  assumes "wl_support w" and "wl_addresses w = Some as" and "Wallet_keysOk (wl_autoincrement w) (wl_records w)"
  shows "\<exists>w'. Storage_walletWriteNewUtxosBatch xs w = (Inr (), w') \<and> wl_support w' \<and> wl_addresses w' = Some as \<and>
    Wallet_keysOk (wl_autoincrement w') (wl_records w') \<and>
    (\<forall>key h. jget (wl_records w) key = Some h \<longrightarrow> jget (wl_records w') key = Some h) \<and>
    (\<forall>(h, a)\<in>set xs. \<exists>k. jget (wl_records w') (a, k) = Some h)"
proof -
  obtain n r where f: "fold Storage_walletRecord xs (wl_autoincrement w, wl_records w) = (n, r)" by force
  from Storage_walletRecords [OF assms(3) f] assms(1,2) show ?thesis
    by (simp add: Storage_walletWriteNewUtxosBatch_def Storage_ensureWalletInitialized_def bindS_def modifyS_def f)
qed

section \<open>Applying a patch\<close>

lemma Storage_walletCheckUtxos_ok:
  assumes w: "wl_support w" "wl_addresses w = Some as" "Wallet_keysOk (wl_autoincrement w) (wl_records w)"
    and coins: "\<forall>(h, u)\<in>set coins. UTXO_wf u"
  shows "\<exists>w'. Storage_walletCheckUtxos coins w = (Inr (), w') \<and> wl_support w' \<and> wl_addresses w' = Some as \<and>
    Wallet_keysOk (wl_autoincrement w') (wl_records w') \<and>
    (\<forall>key h. jget (wl_records w) key = Some h \<longrightarrow> jget (wl_records w') key = Some h) \<and>
    (\<forall>a\<in>set as. \<forall>(h, u)\<in>set coins. UTXO_pays u a \<longrightarrow> (\<exists>k. jget (wl_records w') (a, k) = Some (utxo_txHash u)))"
proof -
  from Storage_walletWrite [OF w, of "Wallet_due as coins"] obtain w' where
    w': "Storage_walletWriteNewUtxosBatch (Wallet_due as coins) w = (Inr (), w')" "wl_support w'" "wl_addresses w' = Some as"
    "Wallet_keysOk (wl_autoincrement w') (wl_records w')"
    "\<forall>key h. jget (wl_records w) key = Some h \<longrightarrow> jget (wl_records w') key = Some h"
    and due: "\<forall>(h, a)\<in>set (Wallet_due as coins). \<exists>k. jget (wl_records w') (a, k) = Some h" by blast
  have "\<exists>k. jget (wl_records w') (a, k) = Some (utxo_txHash u)"
    if "a \<in> set as" "(h, u) \<in> set coins" "UTXO_pays u a" for a h u
  proof -
    have "(utxo_txHash u, a) \<in> set (Wallet_due as coins)" using that by (auto simp: Wallet_due_iff)
    with due show ?thesis by blast
  qed
  moreover have "Storage_walletCheckUtxos coins w = (Inr (), w')"
    using w(1,2) w'(1) by (simp add: Storage_walletCheckUtxos_def bindS_def getsS_def liftS_def
        Storage_ensureWalletInitialized_def Wallet_due_foldR [OF coins])
  ultimately show ?thesis using w' by blast
qed

lemma Storage_contractOps_main:
  "sg_utxos (snd (Storage_contractOps S n cs st)) = sg_utxos st"
  using Storage_contractOps_keeps [of S n cs st] by (simp add: Let_def)

lemma Wallet_covers_step:
  assumes "Wallet_covers st w" and "wl_addresses w' = wl_addresses w"
    and "\<And>key h. jget (wl_records w) key = Some h \<Longrightarrow> jget (wl_records w') key = Some h"
    and "\<And>h u a. jget (sg_utxos st') h = Some u \<Longrightarrow> a \<in> set (the (wl_addresses w)) \<Longrightarrow> UTXO_pays u a \<Longrightarrow>
      jget (sg_utxos st) h = Some u \<or> (\<exists>k. jget (wl_records w') (a, k) = Some h)"
  shows "Wallet_covers st' w'"
  unfolding Wallet_covers_def
proof (intro ballI allI impI)
  fix a h u assume a: "a \<in> set (the (wl_addresses w'))" "jget (sg_utxos st') h = Some u" "UTXO_pays u a"
  with assms(2,4) consider "jget (sg_utxos st) h = Some u" | "\<exists>k. jget (wl_records w') (a, k) = Some h"
    by fastforce
  then show "\<exists>k. jget (wl_records w') (a, k) = Some h"
  proof cases
    case 1
    with assms(1,2) a obtain k where "jget (wl_records w) (a, k) = Some h" unfolding Wallet_covers_def by metis
    with assms(3) show ?thesis by blast
  qed
qed

lemma Storage_utxos_after:
  assumes "PatchDB_coinsOk m"
  shows "jget (fold applyOp (map (\<lambda>(h, u). (h, if UTXO_abs u = Map.empty then None else Some u)) m) us) k =
    (case jget m k of None \<Rightarrow> jget us k | Some u \<Rightarrow> if UTXO_abs u = Map.empty then None else Some u)"
proof -
  let ?ops = "map (\<lambda>(h, u). (h, if UTXO_abs u = Map.empty then None else Some u)) m"
  have "map fst ?ops = map fst m" unfolding map_map by (rule map_cong) auto
  then have "distinct (map fst ?ops)" using assms by (simp only: PatchDB_coinsOk_def jwf_def)
  from jget_applyOps [OF this] show ?thesis by (simp add: map_of_map_snd split: option.splits)
qed

lemma Storage_wf_utxos: "sg_utxos st = sg_utxos st' \<Longrightarrow> Storage_wf st \<longleftrightarrow> Storage_wf st'"
  by (simp add: Storage_wf_def)

text \<open>Whether or not the patch can be written, the records still cover the outputs.\<close>

lemma Storage_applyPatchFull_ok:
  assumes ok: "Wallet_ok s" and p: "PatchDB_utxosOk p"
  shows "Wallet_ok (snd (Storage_applyPatchFull S p n s)) \<and>
    wl_addresses (fs_wallet (snd (Storage_applyPatchFull S p n s))) = wl_addresses (fs_wallet s)"
proof -
  have coins: "PatchDB_coinsOk (pt_coins p)" using p by (simp add: PatchDB_utxosOk_def)
  have wfs: "\<forall>(h, u)\<in>set (pt_coins p). UTXO_wf u \<and> utxo_txHash u = h"
    using coins PatchDB_coinsOkD [OF coins] by (auto simp: PatchDB_coinsOk_def jget_iff_in)
  let ?ops = "map (\<lambda>(h, u). (h, if UTXO_abs u = Map.empty then None else Some u)) (pt_coins p)"
  obtain as where w: "wl_support (fs_wallet s)" "wl_addresses (fs_wallet s) = Some as"
    "Wallet_keysOk (wl_autoincrement (fs_wallet s)) (wl_records (fs_wallet s))"
    using ok by (auto simp: Wallet_ok_def)
  have "\<forall>(h, u)\<in>set (pt_coins p). UTXO_wf u" using wfs by blast
  from Storage_walletCheckUtxos_ok [OF w this] obtain w' where
    check: "Storage_walletCheckUtxos (PatchDB_getCoins p) (fs_wallet s) = (Inr (), w')"
    and w': "wl_support w'" "wl_addresses w' = Some as" "Wallet_keysOk (wl_autoincrement w') (wl_records w')"
    "\<And>key h. jget (wl_records (fs_wallet s)) key = Some h \<Longrightarrow> jget (wl_records w') key = Some h"
    and new: "\<forall>a\<in>set as. \<forall>(h, u)\<in>set (pt_coins p). UTXO_pays u a \<longrightarrow> (\<exists>k. jget (wl_records w') (a, k) = Some (utxo_txHash u))"
    unfolding PatchDB_getCoins_def by blast
  obtain r st where ops: "Storage_contractOps S n (PatchDB_getContracts p) (fs_main s) = (r, st)" by force
  have st: "sg_utxos st = sg_utxos (fs_main s)" using Storage_contractOps_main [of S n "PatchDB_getContracts p" "fs_main s"] ops by simp
  let ?t = "snd (Storage_applyPatchFull S p n s)"
  have run: "?t = (case r of
      Inl e \<Rightarrow> s\<lparr>fs_wallet := w', fs_main := st\<rparr>
    | Inr cops \<Rightarrow> (let i = (if ti_enabled (fs_index s)
           then fold (\<lambda>(strTxHash, receipt). Storage_storeInternalTxnsIndex strTxHash (TxReceipt_getInternalTxns receipt))
                  (PatchDB_getReceipts p) (fs_index s) else fs_index s)
         in s\<lparr>fs_wallet := w', fs_index := i, fs_main := st\<lparr>sg_utxos := fold applyOp ?ops (sg_utxos st),
              sg_contracts := fold applyOp cops (sg_contracts st),
              sg_receipts := fold (\<lambda>(h, r). jset h r) (PatchDB_getReceipts p) (sg_receipts st)\<rparr>\<rparr>))"
    using w(1) by (simp add: Storage_applyPatchFull_def bindS_def liftS_def Storage_utxoOps_ok [OF coins] onWallet_def
        onMain_def zoomS_def check ops modifyS_def Let_def split: sum.split)
  have wallet: "fs_wallet ?t = w'" by (simp add: run Let_def split: sum.split)
  have get: "jget (sg_utxos (fs_main ?t)) h = Some u \<Longrightarrow> jget (sg_utxos (fs_main s)) h = Some u \<or> (h, u) \<in> set (pt_coins p)" for h u
    using coins by (auto simp: run Let_def st Storage_utxos_after [OF coins] PatchDB_coinsOk_def jget_iff_in
        split: sum.splits option.splits if_splits)
  have "Storage_wf (fs_main ?t)"
  proof (cases r)
    case (Inl e)
    then have "sg_utxos (fs_main ?t) = sg_utxos (fs_main s)" by (simp add: run st)
    with ok show ?thesis using Storage_wf_utxos by (auto simp: Wallet_ok_def)
  next
    case (Inr cops)
    have "Storage_applyPatch S p n (fs_main s) = (Inr (), fs_main ?t)"
      by (simp add: run Inr Let_def Storage_applyPatch_def bindS_def liftS_def Storage_utxoOps_ok [OF coins] ops)
    from Storage_applyPatch_spec(1) [OF p _ this] ok show ?thesis by (simp add: Wallet_ok_def)
  qed
  moreover have "Wallet_covers (fs_main ?t) w'"
  proof (rule Wallet_covers_step)
    show "Wallet_covers (fs_main s) (fs_wallet s)" using ok by (simp add: Wallet_ok_def)
    fix h u a assume "jget (sg_utxos (fs_main ?t)) h = Some u" "a \<in> set (the (wl_addresses (fs_wallet s)))" "UTXO_pays u a"
    with get [of h u] new wfs w(2) show "jget (sg_utxos (fs_main s)) h = Some u \<or> (\<exists>k. jget (wl_records w') (a, k) = Some h)"
      by fastforce
  qed (use w w' in simp_all)
  ultimately show ?thesis using w w' by (simp add: Wallet_ok_def wallet)
qed

section \<open>Listing\<close>

definition Wallet_good :: "'d storage \<Rightarrow> addr \<Rightarrow> hash \<Rightarrow> bool" where
  "Wallet_good st a h \<longleftrightarrow> (\<exists>u. jget (sg_utxos st) h = Some u \<and> UTXO_pays u a)"

definition Wallet_found :: "'d storage \<Rightarrow> addr \<Rightarrow> hash \<Rightarrow> utxo res" where
  "Wallet_found st a h = bindR (Storage_getUtxo h st) (\<lambda>u. bindR (UTXO_filterOutputsForAddress u a) (\<lambda>v.
     bindR (UTXO_isEmpty v) (\<lambda>empty. if empty then Inl (Thrown ''empty. marked for cleanup'') else Inr v)))"

lemma Wallet_found_good:
  assumes "Storage_wf st"
  shows "(case Wallet_found st a h of Inl e \<Rightarrow> \<not> Wallet_good st a h
    | Inr v \<Rightarrow> Wallet_good st a h \<and> utxo_txHash v = h \<and> UTXO_wf v \<and>
        (\<exists>u. jget (sg_utxos st) h = Some u \<and> UTXO_abs v = (\<lambda>i. Option.bind (UTXO_abs u i)
           (\<lambda>c. if coins_receiverAddr c = a then Some c else None))))"
proof (cases "jget (sg_utxos st) h")
  case None
  then show ?thesis by (cases "isHash256 h") (simp_all add: Wallet_found_def Storage_getUtxo_def Wallet_good_def typeforce_def)
next
  case (Some u)
  have u: "UTXO_wf u" "utxo_txHash u = h" "isHash256 h"
    using assms Some PatchDB_coinsOkD [of "sg_utxos st"] by (auto simp: Storage_wf_def)
  then have "utxo_txHash u \<noteq> []" by (auto simp: isHash256_def)
  from UTXO_filter_abs [OF u(1) this, of a] obtain v where v: "UTXO_filterOutputsForAddress u a = Inr v" "UTXO_wf v"
    "utxo_txHash v = h" and abs: "UTXO_abs v = (\<lambda>i. Option.bind (UTXO_abs u i)
      (\<lambda>c. if coins_receiverAddr c = a then Some c else None))" using u(2) by blast
  have "UTXO_abs v = Map.empty \<longleftrightarrow> \<not> UTXO_pays u a"
  proof -
    have "UTXO_abs v i \<noteq> None \<longleftrightarrow> (\<exists>c. UTXO_abs u i = Some c \<and> coins_receiverAddr c = a)" for i
      by (cases "UTXO_abs u i") (simp_all add: abs)
    then show ?thesis unfolding UTXO_pays_def fun_eq_iff by blast
  qed
  with v u Some abs show ?thesis
    by (simp add: Wallet_found_def Storage_getUtxo_def UTXO_isEmpty_abs Wallet_good_def)
qed

lemma Storage_walletCheckRecord_eq:
  "Storage_walletCheckRecord st a (key, h) (H, R, B) =
     (if h \<in> set H then (H, R, B @ [key])
      else case Wallet_found st a h of Inl _ \<Rightarrow> (sadd h H, R, B @ [key]) | Inr v \<Rightarrow> (sadd h H, R @ [v], B))"
  by (simp add: Storage_walletCheckRecord_def Wallet_found_def)

text \<open>What the loop over the records \<open>L\<close> finds: each good hash once, and one key kept for it.\<close>

lemma Storage_walletCheckRecords:
  assumes st: "Storage_wf st"
  shows "fold (Storage_walletCheckRecord st a) L (H, R, B) = (H', R', B') \<Longrightarrow> distinct (map fst L) \<Longrightarrow>
     set (map fst L) \<inter> set B = {} \<Longrightarrow>
     \<exists>N. distinct N \<and> set N = snd ` set L - set H \<and> map Inr R' = map Inr R @ map (Wallet_found st a) (filter (Wallet_good st a) N) \<and>
       set B \<subseteq> set B' \<and> set B' \<subseteq> set B \<union> fst ` set L \<and>
       (\<forall>h\<in>set N. Wallet_good st a h \<longrightarrow> (\<exists>key. (key, h) \<in> set L \<and> key \<notin> set B'))"
proof (induction L arbitrary: H R B)
  case (Cons x L)
  obtain key h where x: "x = (key, h)" by (cases x)
  from Cons.prems have fresh: "key \<notin> fst ` set L" "key \<notin> set B" "distinct (map fst L)"
    "set (map fst L) \<inter> set (B @ [key]) = {}" "set (map fst L) \<inter> set B = {}" by (auto simp: x)
  note found = Wallet_found_good [OF st, of a h]
  show ?case
  proof (cases "h \<in> set H")
    case True
    with Cons.prems(1) have "fold (Storage_walletCheckRecord st a) L (H, R, B @ [key]) = (H', R', B')"
      by (simp add: x Storage_walletCheckRecord_eq)
    from Cons.IH [OF this fresh(3,4)] obtain N where "distinct N" "set N = snd ` set L - set H"
      "map Inr R' = map Inr R @ map (Wallet_found st a) (filter (Wallet_good st a) N)" "set (B @ [key]) \<subseteq> set B'"
      "set B' \<subseteq> set (B @ [key]) \<union> fst ` set L"
      "\<forall>h\<in>set N. Wallet_good st a h \<longrightarrow> (\<exists>key. (key, h) \<in> set L \<and> key \<notin> set B')" by auto
    with True show ?thesis by (intro exI [of _ N]) (simp add: x, blast)
  next
    case False
    show ?thesis
    proof (cases "Wallet_found st a h")
      case (Inl e)
      with Cons.prems(1) False have "fold (Storage_walletCheckRecord st a) L (sadd h H, R, B @ [key]) = (H', R', B')"
        by (simp add: x Storage_walletCheckRecord_eq)
      from Cons.IH [OF this fresh(3,4)] obtain N where "distinct N" "set N = snd ` set L - insert h (set H)"
        "map Inr R' = map Inr R @ map (Wallet_found st a) (filter (Wallet_good st a) N)" "set (B @ [key]) \<subseteq> set B'"
        "set B' \<subseteq> set (B @ [key]) \<union> fst ` set L"
        "\<forall>h\<in>set N. Wallet_good st a h \<longrightarrow> (\<exists>key. (key, h) \<in> set L \<and> key \<notin> set B')" by auto
      moreover from Inl found have "\<not> Wallet_good st a h" by simp
      ultimately show ?thesis using False by (intro exI [of _ "h # N"]) (simp add: x, blast)
    next
      case (Inr v)
      with Cons.prems(1) False have "fold (Storage_walletCheckRecord st a) L (sadd h H, R @ [v], B) = (H', R', B')"
        by (simp add: x Storage_walletCheckRecord_eq)
      from Cons.IH [OF this fresh(3,5)] obtain N where N: "distinct N" "set N = snd ` set L - insert h (set H)"
        "map Inr R' = map Inr (R @ [v]) @ map (Wallet_found st a) (filter (Wallet_good st a) N)" "set B \<subseteq> set B'"
        "set B' \<subseteq> set B \<union> fst ` set L"
        "\<forall>h\<in>set N. Wallet_good st a h \<longrightarrow> (\<exists>key. (key, h) \<in> set L \<and> key \<notin> set B')" by auto
      have good: "Wallet_good st a h" using Inr found by simp
      have keep: "key \<notin> set B'" using N(5) fresh(1,2) by blast
      show ?thesis
      proof (intro exI [of _ "h # N"] conjI ballI impI)
        show "distinct (h # N)" using N(1,2) by simp
        show "set (h # N) = snd ` set (x # L) - set H" using N(2) False by (auto simp: x)
        show "map Inr R' = map Inr R @ map (Wallet_found st a) (filter (Wallet_good st a) (h # N))"
          using N(3) good Inr by simp
        show "set B' \<subseteq> set B \<union> fst ` set (x # L)" using N(5) by auto
        fix g assume "g \<in> set (h # N)" "Wallet_good st a g"
        then consider "g = h" | "g \<in> set N" "Wallet_good st a g" by auto
        then show "\<exists>key. (key, g) \<in> set (x # L) \<and> key \<notin> set B'"
        proof cases
          case 1
          then show ?thesis using keep by (intro exI [of _ key]) (simp add: x)
        next
          case 2
          with N(6) obtain k where "(k, g) \<in> set L" "k \<notin> set B'" by blast
          then show ?thesis by (intro exI [of _ k]) simp
        qed
      qed (rule N(4))
    qed
  qed
qed (auto intro: exI [of _ "[]"])

lemma jget_jdeletes: "jget (fold jdelete ks m) k = (if k \<in> set ks then None else jget m k)"
  by (induction ks arbitrary: m) (auto simp: jget_jdelete)

lemma jwf_jdeletes: "jwf m \<Longrightarrow> jwf (fold jdelete ks m)"
  by (induction ks arbitrary: m) auto

lemma Storage_walletListUnspent_ok:
  assumes ok: "Wallet_ok s" and a: "a \<in> set (the (wl_addresses (fs_wallet s)))" "isAddress a"
  shows "\<exists>us t. Storage_walletListUnspent a s = (Inr us, t) \<and> Wallet_ok t \<and>
    wl_addresses (fs_wallet t) = wl_addresses (fs_wallet s) \<and> fs_main t = fs_main s \<and>
    distinct (map utxo_txHash us) \<and> (\<forall>u\<in>set us. UTXO_wf u) \<and>
    (\<forall>h i c. (\<exists>u\<in>set us. utxo_txHash u = h \<and> UTXO_abs u i = Some c) \<longleftrightarrow>
       (\<exists>m. Storage_view (fs_main s) h = Some m \<and> m i = Some c \<and> coins_receiverAddr c = a))"
proof -
  let ?w = "fs_wallet s" and ?st = "fs_main s"
  let ?L = "sort_key (\<lambda>(key, _). keyOrder (snd key)) (filter (\<lambda>(key, _). fst key = a) (wl_records ?w))"
  obtain as where w: "wl_support ?w" "wl_addresses ?w = Some as" "Wallet_keysOk (wl_autoincrement ?w) (wl_records ?w)"
    and st: "Storage_wf ?st" and covers: "Wallet_covers ?st ?w" using ok by (auto simp: Wallet_ok_def)
  have jwf: "jwf (wl_records ?w)" using w(3) by (simp add: Wallet_keysOk_def)
  have L: "set ?L = {(key, h). jget (wl_records ?w) key = Some h \<and> fst key = a}"
    using jwf by (auto simp: jget_iff_in)
  have "distinct (map fst (filter (\<lambda>(key, _). fst key = a) (wl_records ?w)))"
    using jwf by (simp add: jwf_def distinct_map_filter)
  then have "distinct (map fst ?L)" by (simp add: distinct_map del: set_filter)
  moreover obtain H R B where f: "fold (Storage_walletCheckRecord ?st a) ?L ([], [], []) = (H, R, B)" by (metis prod_cases3)
  ultimately obtain N where N: "distinct N" "set N = snd ` set ?L"
    "map Inr R = map (Wallet_found ?st a) (filter (Wallet_good ?st a) N)" "set B \<subseteq> fst ` set ?L"
    "\<forall>h\<in>set N. Wallet_good ?st a h \<longrightarrow> (\<exists>key. (key, h) \<in> set ?L \<and> key \<notin> set B)"
    using Storage_walletCheckRecords [OF st f] by auto
  let ?t = "s\<lparr>fs_wallet := Storage_walletCleanupMissed B ?w\<rparr>"
  have run: "Storage_walletListUnspent a s = (Inr R, ?t)"
    using w(1,2) a by (simp add: Storage_walletListUnspent_def Storage_ensureWalletInitialized_def onWallet_def zoomS_def
        bindS_def getsS_def liftS_def modifyS_def returnS_def Storage_walletReadAddressRecords_def f)
  have covered: "Wallet_good ?st a h \<Longrightarrow> h \<in> set N" for h
    using covers a(1) unfolding Wallet_covers_def Wallet_good_def N(2) L by force
  have "Wallet_covers ?st (Storage_walletCleanupMissed B ?w)"
    unfolding Wallet_covers_def
  proof (intro ballI allI impI)
    fix b h u assume b: "b \<in> set (the (wl_addresses (Storage_walletCleanupMissed B ?w)))"
      "jget (sg_utxos ?st) h = Some u" "UTXO_pays u b"
    show "\<exists>k. jget (wl_records (Storage_walletCleanupMissed B ?w)) (b, k) = Some h"
    proof (cases "b = a")
      case True
      with b have good: "Wallet_good ?st a h" by (auto simp: Wallet_good_def)
      with covered N(5) obtain key where "(key, h) \<in> set ?L" "key \<notin> set B" by blast
      then show ?thesis unfolding L using True
        by (cases key) (auto simp: Storage_walletCleanupMissed_def jget_jdeletes)
    next
      case False
      have "b \<in> set (the (wl_addresses ?w))" using b(1) by (simp add: Storage_walletCleanupMissed_def)
      with covers b(2,3) obtain k where "jget (wl_records ?w) (b, k) = Some h"
        unfolding Wallet_covers_def by meson
      moreover have "(b, k) \<notin> set B" using N(4) False unfolding L by auto
      ultimately show ?thesis by (auto simp: Storage_walletCleanupMissed_def jget_jdeletes)
    qed
  qed
  moreover have "Wallet_keysOk (wl_autoincrement ?w) (fold jdelete B (wl_records ?w))"
    using w(3) by (auto simp: Wallet_keysOk_def jget_jdeletes jwf_jdeletes)
  ultimately have "Wallet_ok ?t" using w st by (simp add: Wallet_ok_def Storage_walletCleanupMissed_def)
  moreover note found = Wallet_found_good [OF st, of a]
  have R: "length R = length (filter (Wallet_good ?st a) N)"
    "i < length R \<Longrightarrow> Wallet_found ?st a (filter (Wallet_good ?st a) N ! i) = Inr (R ! i)" for i
    using N(3) by (metis length_map, metis length_map nth_map)
  have "map utxo_txHash R = filter (Wallet_good ?st a) N"
  proof (rule nth_equalityI)
    fix i assume "i < length (map utxo_txHash R)"
    then show "map utxo_txHash R ! i = filter (Wallet_good ?st a) N ! i"
      using found [of "filter (Wallet_good ?st a) N ! i"] R(2) [of i] by simp
  qed (simp add: R(1))
  moreover have "\<forall>u\<in>set R. UTXO_wf u"
  proof
    fix u assume "u \<in> set R"
    then obtain j where "j < length R" "u = R ! j" by (metis in_set_conv_nth)
    with found [of "filter (Wallet_good ?st a) N ! j"] R(2) [of j] show "UTXO_wf u" by simp
  qed
  moreover have "(\<exists>u\<in>set R. utxo_txHash u = h \<and> UTXO_abs u i = Some c) \<longleftrightarrow>
       (\<exists>m. Storage_view ?st h = Some m \<and> m i = Some c \<and> coins_receiverAddr c = a)" (is "?lhs \<longleftrightarrow> ?rhs") for h i c
  proof
    assume ?lhs
    then obtain j where j: "j < length R" "utxo_txHash (R ! j) = h" "UTXO_abs (R ! j) i = Some c"
      by (metis in_set_conv_nth)
    with found [of "filter (Wallet_good ?st a) N ! j"] R(2) [of j] show ?rhs
      by (auto simp: Storage_view_def bind_eq_Some_conv split: if_splits)
  next
    assume ?rhs
    then obtain u where u: "jget (sg_utxos ?st) h = Some u" "UTXO_abs u i = Some c" "coins_receiverAddr c = a"
      by (auto simp: Storage_view_def)
    then have good: "Wallet_good ?st a h" by (auto simp: Wallet_good_def UTXO_pays_def)
    with covered have "h \<in> set (filter (Wallet_good ?st a) N)" by simp
    then obtain j where j: "j < length R" "filter (Wallet_good ?st a) N ! j = h" by (metis in_set_conv_nth R(1))
    with found [of h] R(2) [of j] u have "utxo_txHash (R ! j) = h" "UTXO_abs (R ! j) i = Some c" by auto
    with j(1) show ?lhs by (metis nth_mem)
  qed
  ultimately show ?thesis using run N(1) w(2) by (simp add: Storage_walletCleanupMissed_def)
qed

section \<open>Reindexing, and what can follow\<close>

lemma Storage_walletReIndex_ok:
  assumes st: "Storage_wf (fs_main s)"
  shows "\<exists>t. Storage_walletReIndex s = (Inr (), t) \<and> Wallet_ok t \<and> fs_main t = fs_main s"
proof -
  let ?w1 = "(fs_wallet s)\<lparr>wl_support := True\<rparr>"
  obtain w2 where w2: "Storage_ensureWalletInitialized ?w1 = (Inr (), w2)" "wl_support w2" "wl_addresses w2 \<noteq> None"
  proof -
    have init: "wl_support (Storage_initAccounts w) = wl_support w \<and> wl_addresses (Storage_initAccounts w) = wl_addresses w" for w
    proof -
      have "wl_support (fold Storage_readAccount ks w) = wl_support w \<and>
          wl_addresses (fold Storage_readAccount ks w) = wl_addresses w" for ks w
        by (induction ks arbitrary: w) (simp_all add: Storage_readAccount_def)
      then show ?thesis by (simp add: Storage_initAccounts_def)
    qed
    show ?thesis
      by (rule that [of "snd (Storage_ensureWalletInitialized ?w1)"])
         (simp_all add: Storage_ensureWalletInitialized_def init)
  qed
  then obtain as where as: "wl_addresses w2 = Some as" by blast
  let ?w3 = "Storage_walletFlushAddresses (w2\<lparr>wl_records := [], wl_dbAddresses := None, wl_dbAutoincrement := None\<rparr>)"
  let ?coins = "sort_key (\<lambda>(h, _). keyOrder h) (sg_utxos (fs_main s))"
  have wfs: "UTXO_wf u \<and> utxo_txHash u = h" if "(h, u) \<in> set (sg_utxos (fs_main s))" for h u
  proof -
    have ok: "PatchDB_coinsOk (sg_utxos (fs_main s))" using st by (simp add: Storage_wf_def)
    then have "jget (sg_utxos (fs_main s)) h = Some u" using that by (simp add: PatchDB_coinsOk_def jget_iff_in)
    with ok show ?thesis by (simp add: PatchDB_coinsOk_def)
  qed
  have "concat (map (\<lambda>(_, u). case Storage_walletMatches as u of Inl _ \<Rightarrow> [] | Inr m \<Rightarrow> m) ?coins) = Wallet_due as ?coins"
    unfolding Wallet_due_def using wfs by (intro arg_cong [of _ _ concat] map_cong) (auto simp: Storage_walletMatches_eq)
  then have run: "Storage_walletReIndex s = (case Storage_walletWriteNewUtxosBatch (Wallet_due as ?coins) ?w3 of
      (r, w) \<Rightarrow> (r, s\<lparr>fs_wallet := w\<rparr>))"
    by (simp add: Storage_walletReIndex_def bindS_def modifyS_def onWallet_def zoomS_def w2 as getsS_def
        Storage_walletFlushAddresses_def)
  have w3: "wl_support ?w3" "wl_addresses ?w3 = Some as" "Wallet_keysOk (wl_autoincrement ?w3) (wl_records ?w3)"
    using w2 as by (simp_all add: Storage_walletFlushAddresses_def Wallet_keysOk_def jget_def)
  from Storage_walletWrite [OF this, of "Wallet_due as ?coins"] obtain w where
    w: "Storage_walletWriteNewUtxosBatch (Wallet_due as ?coins) ?w3 = (Inr (), w)" "wl_support w" "wl_addresses w = Some as"
    "Wallet_keysOk (wl_autoincrement w) (wl_records w)"
    and due: "\<forall>(h, a)\<in>set (Wallet_due as ?coins). \<exists>k. jget (wl_records w) (a, k) = Some h" by blast
  have "Wallet_covers (fs_main s) w"
    unfolding Wallet_covers_def
  proof (intro ballI allI impI)
    fix a h u assume "a \<in> set (the (wl_addresses w))" "jget (sg_utxos (fs_main s)) h = Some u" "UTXO_pays u a"
    moreover from this have "(h, u) \<in> set (sg_utxos (fs_main s))" by (simp add: jget_Some_in)
    ultimately have "(h, a) \<in> set (Wallet_due as ?coins)" using wfs w(3) by (auto simp: Wallet_due_iff)
    with due show "\<exists>k. jget (wl_records w) (a, k) = Some h" by blast
  qed
  then have "Wallet_ok (s\<lparr>fs_wallet := w\<rparr>)" using w st by (simp add: Wallet_ok_def)
  with run w(1) show ?thesis by simp
qed

text \<open>Whatever follows a reindexing: patches that can or cannot be written, and listings.\<close>

inductive wallet_reach :: "'d serializers \<Rightarrow> 'd full_storage \<Rightarrow> bool" for S where
  wr_reindex: "Storage_wf (fs_main s) \<Longrightarrow> Storage_walletReIndex s = (Inr (), t) \<Longrightarrow> wallet_reach S t"
| wr_patch: "wallet_reach S s \<Longrightarrow> PatchDB_utxosOk p \<Longrightarrow> wallet_reach S (snd (Storage_applyPatchFull S p n s))"
| wr_list: "wallet_reach S s \<Longrightarrow> a \<in> set (the (wl_addresses (fs_wallet s))) \<Longrightarrow> isAddress a \<Longrightarrow>
    wallet_reach S (snd (Storage_walletListUnspent a s))"

lemma wallet_reach_ok: "wallet_reach S s \<Longrightarrow> Wallet_ok s"
proof (induction rule: wallet_reach.induct)
  case (wr_reindex s t)
  from Storage_walletReIndex_ok [OF wr_reindex.hyps(1)] obtain t' where
    "Storage_walletReIndex s = (Inr (), t')" "Wallet_ok t'" by blast
  with wr_reindex.hyps(2) show ?case by simp
next
  case (wr_patch s p n)
  then show ?case using Storage_applyPatchFull_ok by blast
next
  case (wr_list s a)
  from Storage_walletListUnspent_ok [OF wr_list.IH wr_list.hyps(2,3)] obtain us t where
    "Storage_walletListUnspent a s = (Inr us, t)" "Wallet_ok t" by blast
  then show ?case by simp
qed

text \<open>The options change nothing of the chain state.\<close>

lemma Storage_applyPatchFull_main:
  assumes "wl_support (fs_wallet s) \<Longrightarrow> isOk (fst (Storage_walletCheckUtxos (PatchDB_getCoins p) (fs_wallet s)))"
  shows "fst (Storage_applyPatchFull S p n s) = fst (Storage_applyPatch S p n (fs_main s)) \<and>
    fs_main (snd (Storage_applyPatchFull S p n s)) = snd (Storage_applyPatch S p n (fs_main s))"
proof -
  have "\<exists>w'. (if wl_support (fs_wallet s) then onWallet (Storage_walletCheckUtxos (PatchDB_getCoins p)) s else (Inr (), s)) =
      (Inr (), s\<lparr>fs_wallet := w'\<rparr>)"
  proof (cases "wl_support (fs_wallet s)")
    case True
    with assms obtain w' where "Storage_walletCheckUtxos (PatchDB_getCoins p) (fs_wallet s) = (Inr (), w')"
      by (cases "Storage_walletCheckUtxos (PatchDB_getCoins p) (fs_wallet s)") (auto simp: isOk_ex)
    then show ?thesis by (auto simp: onWallet_def zoomS_def True)
  next
    case False
    then show ?thesis by (intro exI [of _ "fs_wallet s"]) simp
  qed
  then obtain w' where w': "(if wl_support (fs_wallet s) then onWallet (Storage_walletCheckUtxos (PatchDB_getCoins p)) s else (Inr (), s)) =
      (Inr (), s\<lparr>fs_wallet := w'\<rparr>)" by blast
  obtain r st where "Storage_contractOps S n (PatchDB_getContracts p) (fs_main s) = (r, st)" by force
  with w' show ?thesis
    by (cases "Storage_utxoOps p"; cases r)
       (simp_all add: Storage_applyPatchFull_def Storage_applyPatch_def bindS_def liftS_def onMain_def zoomS_def modifyS_def)
qed

end
