(* ===== verification/Cil_Account_Laws.thy ===== *)
theory Cil_Account_Laws
  imports Cil_Account Cil_Wallet_Laws
begin

text \<open>
  Where the coins of a transaction come from that the wallet builds: its inputs are distinct unspent
  outputs of the account, and they are worth the outputs and the fee the wallet computed.
\<close>

section \<open>Gathering\<close>

lemma StoredWallet_gather_spec:
  assumes "StoredWallet_gather amount xs cs g = (cs', g', b)"
  shows "\<exists>ys. cs' = cs @ ys \<and> g' = g + sum_list (map us_amount ys) \<and> set ys \<subseteq> set xs \<and>
    (distinct (map f xs) \<longrightarrow> distinct (map f ys)) \<and>
    (b \<longrightarrow> g' > amount + nFeePerInput * int (length cs'))"
  using assms
proof (induction amount xs cs g rule: StoredWallet_gather.induct)
  case (2 amount x xs cs g)
  show ?case
  proof (cases "us_amount x = 0")
    case True
    with 2 obtain ys where "cs' = cs @ ys" "g' = g + sum_list (map us_amount ys)" "set ys \<subseteq> set xs"
      "distinct (map f xs) \<longrightarrow> distinct (map f ys)" "b \<longrightarrow> g' > amount + nFeePerInput * int (length cs')" by auto
    then show ?thesis by (intro exI [of _ ys]) auto
  next
    case False
    show ?thesis
    proof (cases "g + us_amount x > amount + nFeePerInput * int (length (cs @ [x]))")
      case True
      with False "2.prems" show ?thesis by (intro exI [of _ "[x]"]) (auto simp: Let_def)
    next
      case more: False
      with False "2.prems" "2.IH"(2) [OF False refl refl more] obtain ys where ys: "cs' = (cs @ [x]) @ ys"
        "g' = g + us_amount x + sum_list (map us_amount ys)" "set ys \<subseteq> set xs"
        "distinct (map f xs) \<longrightarrow> distinct (map f ys)" "b \<longrightarrow> g' > amount + nFeePerInput * int (length cs')"
        by (auto simp: Let_def)
      have "f x \<notin> set (map f ys)" if "distinct (map f (x # xs))" using that ys(3) by auto
      with ys show ?thesis by (intro exI [of _ "x # ys"]) auto
    qed
  qed
qed auto

text \<open>An output as the wallet prints it, and the output it stands for.\<close>

definition Unspent_of :: "'d storage \<Rightarrow> addr set \<Rightarrow> unspent \<Rightarrow> bool" where
  "Unspent_of st as x \<longleftrightarrow> (\<exists>m c. Storage_view st (us_hash x) = Some m \<and> m (us_nOut x) = Some c \<and>
     us_amount x = coins_amount c \<and> coins_receiverAddr c \<in> as)"

definition Unspent_key :: "unspent \<Rightarrow> hash \<times> int" where
  "Unspent_key x = (us_hash x, us_nOut x)"

lemma finePrintUtxos_eq:
  assumes "\<forall>u\<in>set us. UTXO_wf u"
  shows "finePrintUtxos us = Inr (concat (map (\<lambda>u. map (\<lambda>i. \<lparr>us_hash = utxo_txHash u, us_nOut = i,
     us_amount = coins_amount (UTXO_at u i)\<rparr>) (utxo_arrIndexes u)) us))"
proof -
  have "mapM (\<lambda>idx. bindR (UTXO_coinsAtIndex u idx) (\<lambda>coins.
      Inr \<lparr>us_hash = UTXO_getTxHash u, us_nOut = idx, us_amount = Coins_getAmount coins\<rparr>)) (UTXO_getIndexes u) =
      Inr (map (\<lambda>i. \<lparr>us_hash = utxo_txHash u, us_nOut = i, us_amount = coins_amount (UTXO_at u i)\<rparr>) (utxo_arrIndexes u))"
    if "u \<in> set us" for u
    unfolding UTXO_getIndexes_def
    by (rule mapM_pure) (use assms that in \<open>simp add: UTXO_coinsAtIndex_at UTXO_getTxHash_def Coins_getAmount_def\<close>)
  from mapM_pure [of us, OF this] show ?thesis by (simp add: finePrintUtxos_def)
qed

lemma finePrintUtxos_spec:
  assumes wf: "\<forall>u\<in>set us. UTXO_wf u" and d: "distinct (map utxo_txHash us)"
    and us: "\<And>h i c. (\<exists>u\<in>set us. utxo_txHash u = h \<and> UTXO_abs u i = Some c) \<Longrightarrow>
      \<exists>m. Storage_view st h = Some m \<and> m i = Some c \<and> coins_receiverAddr c = a"
  shows "\<exists>xs. finePrintUtxos us = Inr xs \<and> distinct (map Unspent_key xs) \<and> (\<forall>x\<in>set xs. Unspent_of st {a} x)"
proof -
  let ?p = "\<lambda>u. map (\<lambda>i. \<lparr>us_hash = utxo_txHash u, us_nOut = i, us_amount = coins_amount (UTXO_at u i)\<rparr>) (utxo_arrIndexes u)"
  have "distinct (map Unspent_key (concat (map ?p us)))"
    using wf d
  proof (induction us)
    case (Cons u us)
    then have own: "distinct (map Unspent_key (?p u))"
      by (simp add: Unspent_key_def comp_def distinct_map inj_on_def UTXO_wf_def)
    have A: "fst k = utxo_txHash u" if "k \<in> Unspent_key ` set (?p u)" for k
      using that by (auto simp: Unspent_key_def)
    have B: "fst k \<in> utxo_txHash ` set us" if "k \<in> Unspent_key ` set (concat (map ?p us))" for k
      using that by (auto simp: Unspent_key_def)
    have C: "utxo_txHash u \<notin> utxo_txHash ` set us" using Cons.prems(2) by simp
    have new: "Unspent_key ` set (?p u) \<inter> Unspent_key ` set (concat (map ?p us)) = {}"
    proof (rule equals0I)
      fix k assume k: "k \<in> Unspent_key ` set (?p u) \<inter> Unspent_key ` set (concat (map ?p us))"
      from A [OF IntD1 [OF k]] B [OF IntD2 [OF k]] C show False by simp
    qed
    have "distinct (map Unspent_key (concat (map ?p us)))" using Cons by simp
    with new own
    have "distinct (map Unspent_key (?p u) @ map Unspent_key (concat (map ?p us)))"
      unfolding distinct_append set_map by blast
    then show ?case by (simp only: list.map concat.simps map_append)
  qed simp
  moreover have "Unspent_of st {a} x" if x: "x \<in> set (concat (map ?p us))" for x
  proof -
    from x obtain u i where u: "u \<in> set us" "i \<in> set (utxo_arrIndexes u)"
      "x = \<lparr>us_hash = utxo_txHash u, us_nOut = i, us_amount = coins_amount (UTXO_at u i)\<rparr>" by auto
    with wf UTXO_abs_index [of u i] obtain c where "UTXO_abs u i = Some c" by blast
    with us [of "utxo_txHash u" i c] u show ?thesis by (auto simp: Unspent_of_def UTXO_at_def)
  qed
  ultimately show ?thesis using finePrintUtxos_eq [OF wf] by blast
qed

lemma Unspent_of_mono: "Unspent_of st A x \<Longrightarrow> A \<subseteq> B \<Longrightarrow> Unspent_of st B x"
  unfolding Unspent_of_def by blast

lemma Unspent_of_disjoint: "Unspent_of st A x \<Longrightarrow> Unspent_of st B y \<Longrightarrow> A \<inter> B = {} \<Longrightarrow> Unspent_key x \<noteq> Unspent_key y"
  unfolding Unspent_of_def Unspent_key_def by auto

definition Unspent_input :: "unspent \<Rightarrow> tx_input" where
  "Unspent_input x = \<lparr>in_txHash = us_hash x, in_nTxOutput = us_nOut x\<rparr>"

lemma Unspent_input_eq: "Unspent_input x = Unspent_input y \<longleftrightarrow> Unspent_key x = Unspent_key y"
  by (simp add: Unspent_input_def Unspent_key_def)

definition Tx_grown :: "tx \<Rightarrow> tx_input list \<Rightarrow> tx \<Rightarrow> bool" where
  "Tx_grown t is t' \<longleftrightarrow> t' = t\<lparr>tx_payload := (tx_payload t)\<lparr>pl_ins := pl_ins (tx_payload t) @ is\<rparr>\<rparr>"

lemma Tx_addInputs:
  "foldR (\<lambda>c. Transaction_addInput (us_hash c) (us_nOut c)) cs t = Inr t' \<Longrightarrow> Tx_grown t (map Unspent_input cs) t'"
proof (induction cs arbitrary: t)
  case (Cons c cs)
  then obtain t1 where "Transaction_addInput (us_hash c) (us_nOut c) t = Inr t1"
    "Tx_grown t1 (map Unspent_input cs) t'" by auto
  then show ?case by (auto simp: Transaction_addInput_def Tx_grown_def Unspent_input_def)
qed (simp add: Tx_grown_def)

text \<open>The wallet's part of the state while inputs are gathered.\<close>

definition Gathering :: "'d storage \<Rightarrow> addr list \<Rightarrow> 'd stored_wallet \<Rightarrow> bool" where
  "Gathering st A s \<longleftrightarrow> Wallet_ok (sw_storage s) \<and> fs_main (sw_storage s) = st \<and>
     wl_addresses (fs_wallet (sw_storage s)) = Some A"

lemma StoredWallet_formLoop_spec:
  assumes "StoredWallet_formLoop as rest tot owners t s = (Inr (t', tot', owners'), s')"
    and "Gathering st A s" and "set as \<subseteq> set A" and "\<forall>a\<in>set as. isAddress a" and "distinct as"
  shows "\<exists>cs. Gathering st A s' \<and> Tx_grown t (map Unspent_input cs) t' \<and> tot' = tot + sum_list (map us_amount cs) \<and>
    length owners' = length owners + length cs \<and> distinct (map Unspent_key cs) \<and> (\<forall>c\<in>set cs. Unspent_of st (set as) c)"
  using assms
proof (induction as arbitrary: rest tot owners t s)
  case Nil
  then show ?case by (intro exI [of _ "[]"]) (auto simp: returnS_def Tx_grown_def)
next
  case (Cons a as)
  from Cons.prems(2) have G: "Wallet_ok (sw_storage s)" "a \<in> set (the (wl_addresses (fs_wallet (sw_storage s))))" "isAddress a"
    using Cons.prems(3,4) by (auto simp: Gathering_def)
  from Storage_walletListUnspent_ok [OF G] obtain us w where list: "Storage_walletListUnspent a (sw_storage s) = (Inr us, w)"
    and w: "Wallet_ok w" "wl_addresses (fs_wallet w) = wl_addresses (fs_wallet (sw_storage s))" "fs_main w = fs_main (sw_storage s)"
    and us: "distinct (map utxo_txHash us)" "\<forall>u\<in>set us. UTXO_wf u"
      "\<forall>h i c. (\<exists>u\<in>set us. utxo_txHash u = h \<and> UTXO_abs u i = Some c) \<longleftrightarrow>
         (\<exists>m. Storage_view (fs_main (sw_storage s)) h = Some m \<and> m i = Some c \<and> coins_receiverAddr c = a)" by blast
  have st: "fs_main (sw_storage s) = st" using Cons.prems(2) by (simp add: Gathering_def)
  from finePrintUtxos_spec [OF us(2,1), of st a] us(3) st obtain xs where
    xs: "finePrintUtxos us = Inr xs" "distinct (map Unspent_key xs)" "\<forall>x\<in>set xs. Unspent_of st {a} x" by blast
  obtain cs g b where g: "StoredWallet_gatherInputsForAmount xs (rest + nFeePerInput * int (length owners)) = (cs, g, b)"
    by (metis prod_cases3)
  from StoredWallet_gather_spec [OF g [unfolded StoredWallet_gatherInputsForAmount_def], of Unspent_key] xs(2)
  have cs: "g = sum_list (map us_amount cs)" "set cs \<subseteq> set xs" "distinct (map Unspent_key cs)" by auto
  let ?s = "s\<lparr>sw_storage := w\<rparr>"
  have G': "Gathering st A ?s" using Cons.prems(2) w by (simp add: Gathering_def)
  from Cons.prems(1) obtain t1 where t1: "foldR (\<lambda>c. Transaction_addInput (us_hash c) (us_nOut c)) cs t = Inr t1"
    and rest: "(if b then returnS (t1, tot + g, owners @ replicate (length cs) a)
      else StoredWallet_formLoop as (rest - g) (tot + g) (owners @ replicate (length cs) a) t1) ?s = (Inr (t', tot', owners'), s')"
    by (cases b) (auto simp: bindS_Inr onStore_def zoomS_def list liftS_def xs(1) g Let_def split: prod.splits)
  note grown = Tx_addInputs [OF t1]
  have own: "\<forall>c\<in>set cs. Unspent_of st {a} c" using cs(2) xs(3) by blast
  show ?case
  proof (cases b)
    case True
    with rest grown own cs G' show ?thesis
      by (intro exI [of _ cs]) (auto simp: returnS_def intro: Unspent_of_mono)
  next
    case False
    with rest have "StoredWallet_formLoop as (rest - g) (tot + g) (owners @ replicate (length cs) a) t1 ?s =
        (Inr (t', tot', owners'), s')" by simp
    from Cons.IH [OF this G'] Cons.prems(3-5) obtain ds where ds: "Gathering st A s'"
      "Tx_grown t1 (map Unspent_input ds) t'" "tot' = tot + g + sum_list (map us_amount ds)"
      "length owners' = length (owners @ replicate (length cs) a) + length ds" "distinct (map Unspent_key ds)"
      "\<forall>c\<in>set ds. Unspent_of st (set as) c" by auto
    have "a \<notin> set as" using Cons.prems(5) by simp
    then have ne: "Unspent_key x \<noteq> Unspent_key y" if "x \<in> set cs" "y \<in> set ds" for x y
      using Unspent_of_disjoint own ds(6) that by (metis disjoint_insert(1) inf_bot_right inf_commute)
    have "Unspent_key ` set cs \<inter> Unspent_key ` set ds = {}"
      by (rule equals0I) (elim IntE imageE, use ne in metis)
    then have "distinct (map Unspent_key (cs @ ds))" using cs(3) ds(5) by (simp only: map_append distinct_append set_map)
    moreover have "\<forall>c\<in>set (cs @ ds). Unspent_of st (set (a # as)) c"
      using own ds(6) by (auto intro: Unspent_of_mono)
    moreover have "Tx_grown t (map Unspent_input (cs @ ds)) t'" using grown ds(2) by (simp add: Tx_grown_def)
    ultimately show ?thesis using ds cs(1) by (intro exI [of _ "cs @ ds"]) simp
  qed
qed

section \<open>Sending\<close>

lemma foldS_snd:
  assumes "P s" and "\<And>x b s. P s \<Longrightarrow> P (snd (f x b s))"
  shows "P (snd (foldS f xs b s))"
  using assms(1)
proof (induction xs arbitrary: b s)
  case (Cons x xs)
  show ?case unfolding foldS.simps
    by (rule bindS_snd) (use assms(2) Cons in auto)
qed (simp add: returnS_def)

lemma StoredWallet_claim_payload:
  "tx_payload (snd (StoredWallet_claimFundsAndSignTx C Y owners keystores password signer t)) = tx_payload t"
  unfolding StoredWallet_claimFundsAndSignTx_def
proof (rule bindS_snd [where P = "\<lambda>u. tx_payload u = tx_payload t"])
  fix m and u :: tx assume u: "tx_payload u = tx_payload t"
  show "tx_payload (snd (bindS (eachS (\<lambda>(i, strAddress). case jget m strAddress of
        None \<Rightarrow> throwS (Thrown ''Private key not found'')
      | Some pk \<Rightarrow> if pk = [] then throwS (Thrown ''Private key not found'') else updR (Transaction_claim C i pk))
      (zip [0..<length owners] owners)) (\<lambda>_. case signer of None \<Rightarrow> returnS ()
      | Some a \<Rightarrow> (case jget m a of None \<Rightarrow> returnS ()
          | Some signPk \<Rightarrow> if a = [] \<or> signPk = [] then returnS () else modifyS (Transaction_signForContract C signPk))) u)) =
    tx_payload t"
    unfolding eachS_def
  proof (rule bindS_snd [where P = "\<lambda>u. tx_payload u = tx_payload t"], rule foldS_snd)
    show "tx_payload u = tx_payload t" by (rule u)
  qed (auto simp: throwS_def updR_def Transaction_claim_def returnS_def modifyS_def Transaction_signForContract_def
      split: option.splits sum.splits prod.splits if_splits)
qed (simp add: liftS_def)

lemma Storage_account_keeps:
  "wl_addresses w \<noteq> None \<Longrightarrow> wl_support w \<Longrightarrow> snd (Storage_getAccountAddresses n w) = w"
  "wl_addresses w \<noteq> None \<Longrightarrow> wl_support w \<Longrightarrow> fst (Storage_getAccountAddresses n w) = Inr (jget (wl_accounts w) n)"
  "wl_addresses w \<noteq> None \<Longrightarrow> wl_support w \<Longrightarrow> Storage_hasAccount n w = (Inr (jhas (wl_accounts w) n), w)"
  by (simp_all add: Storage_getAccountAddresses_def Storage_hasAccount_def Storage_ensureWalletInitialized_def bindS_def getsS_def)

text \<open>What a transaction takes from the outputs of the store.\<close>

definition Storage_worth :: "'d storage \<Rightarrow> tx_input \<Rightarrow> int" where
  "Storage_worth st i = (case Option.bind (Storage_view st (in_txHash i)) (\<lambda>m. m (in_nTxOutput i)) of
     None \<Rightarrow> 0 | Some c \<Rightarrow> coins_amount c)"

lemma Storage_worth_unspent: "Unspent_of st A x \<Longrightarrow> Storage_worth st (Unspent_input x) = us_amount x"
  by (auto simp: Unspent_of_def Storage_worth_def Unspent_input_def)

lemma StoredWallet_finish_spec:
  assumes "StoredWallet_finish C Y n change tot req owners signer t s = (Inr t', s')"
  shows "pl_ins (tx_payload t') = pl_ins (tx_payload t)" and "tot \<ge> req \<Longrightarrow>
    Transaction_amountOut t' = Transaction_amountOut t + (tot - req)"
    and "pl_outs (tx_payload t) = take (length (pl_outs (tx_payload t))) (pl_outs (tx_payload t'))"
proof -
  obtain t1 where t1: "(if tot - req \<noteq> 0 then Transaction_addReceiver (tot - req) (strip change) t else Inr t) = Inr t1"
    and t': "tx_payload t' = tx_payload t1"
    using assms by (auto simp: StoredWallet_finish_def bindS_Inr liftS_Inr_iff StoredWallet_claim_payload)
  from t1 show "pl_ins (tx_payload t') = pl_ins (tx_payload t)"
    "pl_outs (tx_payload t) = take (length (pl_outs (tx_payload t))) (pl_outs (tx_payload t'))"
    by (auto simp: t' Transaction_addReceiver_def Transaction_pushOutput_def split: if_splits)
  from t1 show "tot \<ge> req \<Longrightarrow> Transaction_amountOut t' = Transaction_amountOut t + (tot - req)"
    by (auto simp: t' Transaction_amountOut_def Transaction_outputs_def Transaction_addReceiver_def
        Transaction_pushOutput_def plainOutput_def split: if_splits)
qed

end
