(* ===== verification/Cil_Wallet_Props.thy ===== *)
theory Cil_Wallet_Props
  imports Cil_Account_Laws Cil_Chain_Props
begin

text \<open>
  What the wallet promises (\<open>persistentStorage.js\<close>, \<open>storedWallets.js\<close>): it lists exactly the unspent
  outputs of a watched address, and the transactions it builds are balanced.
\<close>

section \<open>Listing\<close>


section \<open>Sending\<close>

text \<open>C19: A transaction that \<open>sendToAddress\<close> returns spends distinct unspent outputs of the account, and what
  they are worth is what it pays, the amount and the change, and the fee: 480 for each input and 160 for
  each of two outputs.\<close>

theorem StoredWallet_send_balanced:
  assumes "Wallet_ok (sw_storage s)" and "sp_strAccountName P = Some n" and "sp_nAmount P = Some amount"
    and "jget (wl_accounts (fs_wallet (sw_storage s))) n = Some as" and "distinct as" and "\<forall>a\<in>set as. isAddress a"
    and "set as \<subseteq> set (the (wl_addresses (fs_wallet (sw_storage s))))"
    and "StoredWallet_sendToAddress C Y P s = (Inr t, s')"
  shows "distinct (Transaction_inputs t) \<and>
    (\<forall>i\<in>set (Transaction_inputs t). \<exists>m c. Storage_view (fs_main (sw_storage s)) (in_txHash i) = Some m \<and>
       m (in_nTxOutput i) = Some c \<and> coins_receiverAddr c \<in> set as) \<and>
    sum_list (map (Storage_worth (fs_main (sw_storage s))) (Transaction_inputs t)) =
      Transaction_amountOut t + 2 * 160 + 480 * int (length (Transaction_inputs t)) \<and>
    (\<exists>out outs. Transaction_outputs t = out # outs \<and> out_amount out = amount)"
proof -
  let ?w = "fs_wallet (sw_storage s)" and ?st = "fs_main (sw_storage s)"
  obtain A where w: "wl_support ?w" "wl_addresses ?w = Some A" using assms(1) by (auto simp: Wallet_ok_def)
  have G: "Gathering ?st A s" using assms(1) w by (simp add: Gathering_def)
  have same: "sw_storage s\<lparr>fs_wallet := ?w\<rparr> = sw_storage s" "s\<lparr>sw_storage := sw_storage s\<rparr> = s" by simp_all
  have ensure: "StoredWallet_ensureAccount n s = (Inr (), s)"
    using w assms(4) by (simp add: StoredWallet_ensureAccount_def onStore_def onWallet_def zoomS_def bindS_def
        Storage_account_keeps jhas_jget returnS_def same)
  have addrs: "onStore (onWallet (Storage_getAccountAddresses n)) s = (Inr (Some as), s)"
    using w assms(4) Storage_account_keeps(1,2) [of ?w n]
    by (cases "Storage_getAccountAddresses n ?w") (simp add: onStore_def onWallet_def zoomS_def same)
  obtain to change t0 t1 t2 tot owners s1 where
    form: "StoredWallet_formLoop as (amount + 320) 0 [] t0 s = (Inr (t1, tot, owners), s1)"
    and t0: "Transaction_inputs t0 = []" "Transaction_outputs t0 = []"
    and enough: "\<not> tot < amount + 320 + int (length owners) * 480"
    and recv: "Transaction_addReceiver amount to t1 = Inr t2"
    and fin: "StoredWallet_finish C Y n change tot (amount + 320 + int (length owners) * 480) owners None t2 s1 = (Inr t, s')"
  proof -
    from assms(8) assms(2,3) ensure addrs show ?thesis
      by (auto simp: StoredWallet_sendToAddress_def bindS_Inr liftS_Inr_iff required_def Let_def nFeePerReceiver_def
          nFeePerInput_def StoredWallet_formTxInputs_def throwS_def Transaction_new_def Transaction_inputs_def
          Transaction_outputs_def Transaction_setConciliumId_def split: if_splits option.splits intro!: that)
  qed
  from StoredWallet_formLoop_spec [OF form G assms(7) [unfolded w(2) option.sel] assms(6,5)] obtain cs where
    cs: "Tx_grown t0 (map Unspent_input cs) t1" "tot = sum_list (map us_amount cs)" "length owners = length cs"
    "distinct (map Unspent_key cs)" "\<forall>c\<in>set cs. Unspent_of ?st (set as) c" by auto
  have t2: "Transaction_inputs t2 = map Unspent_input cs" "Transaction_outputs t2 = [plainOutput amount to]"
    using recv cs(1) t0 by (auto simp: Transaction_addReceiver_def Tx_grown_def Transaction_pushOutput_def
        Transaction_inputs_def Transaction_outputs_def)
  have out2: "Transaction_amountOut t2 = amount" using t2(2) by (simp add: Transaction_amountOut_def plainOutput_def)
  note f = StoredWallet_finish_spec [OF fin]
  have ins: "Transaction_inputs t = map Unspent_input cs" using f(1) t2(1) by (simp add: Transaction_inputs_def)
  have "distinct (Transaction_inputs t)"
    using cs(4) Unspent_input_eq unfolding ins by (auto simp: distinct_map inj_on_def)
  moreover have "\<exists>m c. Storage_view ?st (in_txHash i) = Some m \<and> m (in_nTxOutput i) = Some c \<and> coins_receiverAddr c \<in> set as"
    if "i \<in> set (Transaction_inputs t)" for i
    using cs(5) that unfolding ins by (fastforce simp: Unspent_of_def Unspent_input_def)
  moreover have worth: "map (Storage_worth ?st) (Transaction_inputs t) = map us_amount cs"
    unfolding ins map_map by (rule map_cong) (use cs(5) Storage_worth_unspent in auto)
  moreover have "length (Transaction_inputs t) = length cs" by (simp add: ins)
  moreover have "Transaction_amountOut t = amount + (tot - (amount + 320 + int (length owners) * 480))"
    using f(2) enough out2 by simp
  moreover have "take 1 (Transaction_outputs t) = [plainOutput amount to]"
    using f(3) t2(2) by (simp add: Transaction_outputs_def)
  then have "\<exists>out outs. Transaction_outputs t = out # outs \<and> out_amount out = amount"
    by (cases "Transaction_outputs t") (auto simp: plainOutput_def)
  ultimately show ?thesis using cs(2,3) by simp
qed

text \<open>A watched account with one output of 100000 coins, from which 1000 are sent.\<close>

definition ex_wallet_db :: wallet_db where
  "ex_wallet_db = \<lparr>wl_support = True, wl_addresses = Some [ex_addr CHR ''a''], wl_autoincrement = 0,
     wl_dbAddresses = None, wl_dbAutoincrement = None, wl_records = [], wl_accounts = [(''me'', [ex_addr CHR ''a''])],
     wl_keystores = [(''me'', [(ex_addr CHR ''a'', ''key'')])]\<rparr>"

definition ex_full :: "string full_storage" where
  "ex_full = \<lparr>fs_main = ex_storage, fs_wallet = ex_wallet_db,
     fs_index = \<lparr>ti_enabled = False, ti_blocks = [], ti_internal = []\<rparr>, fs_setBlocksBad = []\<rparr>"

definition ex_indexed :: "string full_storage" where
  "ex_indexed = ex_full\<lparr>fs_wallet := ex_wallet_db\<lparr>wl_autoincrement := 1, wl_dbAddresses := Some [ex_addr CHR ''a''],
     wl_dbAutoincrement := Some 1, wl_records := [((ex_addr CHR ''a'', ''1''), ex_hash CHR ''1'')]\<rparr>\<rparr>"

lemma ex_reindex: "Storage_walletReIndex ex_full = (Inr (), ex_indexed)"
  by (simp add: Storage_walletReIndex_def ex_full_def ex_indexed_def ex_wallet_db_def ex_storage_def Storage_new_def bindS_def
      onWallet_def zoomS_def modifyS_def getsS_def Storage_ensureWalletInitialized_def Storage_walletFlushAddresses_def
      Storage_walletMatches_def UTXO_getOutputsForAddress_def UTXO_coinsAtIndex_def Coins_new_def Coins_getReceiverAddr_def
      UTXO_getTxHash_def Storage_walletWriteNewUtxosBatch_def Storage_walletRecord_eq jset_def show_nat.simps)

lemma ex_wallet_ok: "wallet_reach S ex_indexed" "Wallet_ok ex_indexed"
proof -
  have "Storage_wf (fs_main ex_full)" using ex_storage_wf by (simp add: ex_full_def)
  then show "wallet_reach S ex_indexed" for S using ex_reindex by (rule wr_reindex)
  then show "Wallet_ok ex_indexed" by (rule wallet_reach_ok)
qed


definition ex_send :: send_params where
  "ex_send = \<lparr>sp_strAccountName = Some ''me'', sp_strAddressTo = Some (''Ux'' @ ex_addr CHR ''b''), sp_nAmount = Some 1000,
     sp_strChangeAddress = Some (ex_addr CHR ''a''), sp_nConciliumId = None\<rparr>"

definition ex_wallet_crypto :: wallet_crypto where
  "ex_wallet_crypto = \<lparr>wy_publicKey = Inr, wy_address = (\<lambda>k. ex_addr (hd k)), wy_encrypt = (\<lambda>_ k. k), wy_decrypt = (\<lambda>_ k. Inr k)\<rparr>"

definition ex_owner :: "string stored_wallet" where
  "ex_owner = \<lparr>sw_storage = ex_indexed, sw_passwords = [(''me'', ''secret'')]\<rparr>"

definition ex_mine :: utxo where
  "ex_mine = \<lparr>utxo_txHash = ex_hash CHR ''1'', utxo_arrIndexes = [0], utxo_arrOutputs = [Coins_new 100000 (ex_addr CHR ''a'')]\<rparr>"

lemma ex_filter: "UTXO_filterOutputsForAddress ex_mine (ex_addr CHR ''a'') = Inr ex_mine"
  by (simp add: ex_mine_def UTXO_filterOutputsForAddress_def UTXO_new_def UTXO_getTxHash_def UTXO_getOutputsForAddress_def
      UTXO_coinsAtIndex_def UTXO_addCoins_def Coins_new_def Coins_getReceiverAddr_def)

lemma ex_listed: "Storage_walletListUnspent (ex_addr CHR ''a'') ex_indexed = (Inr [ex_mine], ex_indexed)"
proof -
  have "Storage_getUtxo (ex_hash CHR ''1'') ex_storage = Inr ex_mine"
    by (simp add: Storage_getUtxo_def ex_storage_def jget_def ex_mine_def)
  moreover have "UTXO_isEmpty ex_mine = Inr False" by (simp add: UTXO_isEmpty_def ex_mine_def)
  moreover have "ex_indexed\<lparr>fs_wallet := fs_wallet ex_indexed\<rparr> = ex_indexed" by simp
  ultimately show ?thesis
    by (simp add: Storage_walletListUnspent_def ex_indexed_def ex_full_def ex_wallet_db_def bindS_def
      onWallet_def zoomS_def modifyS_def getsS_def liftS_def returnS_def Storage_ensureWalletInitialized_def
      Storage_walletReadAddressRecords_def Storage_walletCheckRecord_def Storage_walletCleanupMissed_def ex_filter sadd_def)
qed

lemma ex_send_run: "\<exists>t s. StoredWallet_sendToAddress ex_crypto ex_wallet_crypto ex_send ex_owner = (Inr t, s) \<and>
    length (Transaction_inputs t) = 1 \<and> map in_txHash (Transaction_inputs t) = [ex_hash CHR ''1''] \<and>
    map in_nTxOutput (Transaction_inputs t) = [0]"
proof -
  have store: "sw_storage ex_owner = ex_indexed" "ex_owner\<lparr>sw_storage := ex_indexed\<rparr> = ex_owner"
    "jhas (sw_passwords ex_owner) ''me''" by (simp_all add: ex_owner_def jhas_def)
  have has: "StoredWallet_ensureAccount ''me'' ex_owner = (Inr (), ex_owner)"
    "onStore (onWallet (Storage_getAccountAddresses ''me'')) ex_owner = (Inr (Some [ex_addr CHR ''a'']), ex_owner)"
    "onStore (onWallet (Storage_getKeystoresForAccount ''me'')) ex_owner = (Inr [(ex_addr CHR ''a'', ''key'')], ex_owner)"
    by (simp_all add: StoredWallet_ensureAccount_def onStore_def onWallet_def zoomS_def Storage_hasAccount_def bindS_def
      Storage_getAccountAddresses_def Storage_getKeystoresForAccount_def Storage_ensureWalletInitialized_def getsS_def returnS_def
      ex_owner_def ex_indexed_def ex_full_def ex_wallet_db_def jhas_def jget_def jset_def)
  have gather: "StoredWallet_gatherInputsForAmount [\<lparr>us_hash = ex_hash CHR ''1'', us_nOut = 0, us_amount = 100000\<rparr>] 1320 =
      ([\<lparr>us_hash = ex_hash CHR ''1'', us_nOut = 0, us_amount = 100000\<rparr>], 100000, True)"
    by (simp add: StoredWallet_gatherInputsForAmount_def nFeePerInput_def)
  have print: "finePrintUtxos [ex_mine] = Inr [\<lparr>us_hash = ex_hash CHR ''1'', us_nOut = 0, us_amount = 100000\<rparr>]"
    by (simp add: finePrintUtxos_def ex_mine_def UTXO_getIndexes_def UTXO_coinsAtIndex_def UTXO_getTxHash_def
      Coins_getAmount_def Coins_new_def)
  have listed: "onStore (Storage_walletListUnspent (ex_addr CHR ''a'')) ex_owner = (Inr [ex_mine], ex_owner)"
    by (simp add: onStore_def zoomS_def store ex_listed)
  have strips: "strip (CHR ''U'' # CHR ''x'' # ex_addr CHR ''b'') = ex_addr CHR ''b''" "strip (ex_addr CHR ''b'') = ex_addr CHR ''b''"
    "strip (ex_addr CHR ''a'') = ex_addr CHR ''a''"
    by (simp_all add: stripAddressPrefix_def ADDRESS_PREFIX_def ex_addr_def numeral_eq_Suc)
  let ?fees = "Transaction_setConciliumId (Suc 0) Transaction_new"
  have form: "\<exists>t. StoredWallet_formTxInputs ?fees [ex_addr CHR ''a''] 1320 ex_owner =
      (Inr (t, 100000, [ex_addr CHR ''a'']), ex_owner) \<and> Tx_grown ?fees [\<lparr>in_txHash = ex_hash CHR ''1'', in_nTxOutput = 0\<rparr>] t"
    by (simp add: StoredWallet_formTxInputs_def bindS_def listed liftS_def print gather Let_def returnS_def
      Transaction_addInput_def Transaction_checkDone_def Transaction_getTxSignature_def Transaction_setConciliumId_def
      Transaction_new_def Tx_grown_def)
  then obtain t where t: "StoredWallet_formTxInputs ?fees [ex_addr CHR ''a''] 1320 ex_owner =
      (Inr (t, 100000, [ex_addr CHR ''a'']), ex_owner)" "Tx_grown ?fees [\<lparr>in_txHash = ex_hash CHR ''1'', in_nTxOutput = 0\<rparr>] t"
    by blast
  have recv: "Transaction_addReceiver n (ex_addr c) t = Inr (Transaction_pushOutput (plainOutput n (ex_addr c)) t)" for n c
    using t(2) by (simp add: Transaction_addReceiver_def Transaction_checkDone_def Transaction_getTxSignature_def Tx_grown_def
      Transaction_setConciliumId_def Transaction_new_def)
  have recv2: "Transaction_addReceiver n (ex_addr c) (Transaction_pushOutput out t) =
      Inr (Transaction_pushOutput (plainOutput n (ex_addr c)) (Transaction_pushOutput out t))" for n c out
    using t(2) by (simp add: Transaction_addReceiver_def Transaction_checkDone_def Transaction_getTxSignature_def Tx_grown_def
      Transaction_setConciliumId_def Transaction_new_def Transaction_pushOutput_def)
  have "\<exists>u. StoredWallet_sendToAddress ex_crypto ex_wallet_crypto ex_send ex_owner = (Inr u, ex_owner) \<and>
      tx_payload u = tx_payload (Transaction_pushOutput (plainOutput 98200 (ex_addr CHR ''a''))
        (Transaction_pushOutput (plainOutput 1000 (ex_addr CHR ''b'')) t))"
    by (simp add: StoredWallet_sendToAddress_def ex_send_def required_def bindS_def liftS_def StoredWallet_unlocked_def store has
      t(1) nFeePerReceiver_def nFeePerInput_def returnS_def StoredWallet_finish_def strips Let_def recv recv2 StoredWallet_claim_payload)
  then show ?thesis
    using t(2) by (auto simp: Transaction_inputs_def Transaction_pushOutput_def Tx_grown_def Transaction_setConciliumId_def
      Transaction_new_def)
qed

theorem StoredWallet_send_balanced_witness:
  "\<exists>t s. StoredWallet_sendToAddress ex_crypto ex_wallet_crypto ex_send ex_owner = (Inr t, s) \<and>
     Transaction_amountOut t = 100000 - 320 - 480"
proof -
  obtain t s where run: "StoredWallet_sendToAddress ex_crypto ex_wallet_crypto ex_send ex_owner = (Inr t, s)"
    and ins: "length (Transaction_inputs t) = 1" "map in_txHash (Transaction_inputs t) = [ex_hash CHR ''1'']"
      "map in_nTxOutput (Transaction_inputs t) = [0]" using ex_send_run by (elim exE conjE) (rule that)
  have owner: "sw_storage ex_owner = ex_indexed" by (simp add: ex_owner_def)
  have wallet: "jget (wl_accounts (fs_wallet ex_indexed)) ''me'' = Some [ex_addr CHR ''a'']"
    "wl_addresses (fs_wallet ex_indexed) = Some [ex_addr CHR ''a'']" "fs_main ex_indexed = ex_storage"
    by (simp_all add: ex_indexed_def ex_full_def ex_wallet_db_def jget_def)
  have "sp_strAccountName ex_send = Some ''me''" "sp_nAmount ex_send = Some 1000" by (simp_all add: ex_send_def)
  from StoredWallet_send_balanced [OF _ this _ _ _ _ run, unfolded owner, OF ex_wallet_ok(2) wallet(1)] wallet
  have sum: "sum_list (map (Storage_worth ex_storage) (Transaction_inputs t)) = Transaction_amountOut t + 320 + 480"
    using ins(1) by simp
  obtain i where i: "Transaction_inputs t = [i]" using ins(1) by (cases "Transaction_inputs t") auto
  have "Storage_view ex_storage (ex_hash CHR ''1'') = Some [0 \<mapsto> Coins_new 100000 (ex_addr CHR ''a'')]"
    by (simp add: Storage_view_def ex_storage_def jget_def UTXO_abs_def)
  with i ins have "Storage_worth ex_storage i = 100000" by (simp add: Storage_worth_def Coins_new_def)
  with sum i run show ?thesis by auto
qed

end
