(* ===== verification/Cil_Witness.thy ===== *)
theory Cil_Witness
  imports Cil_Node Cil_Bft Cil_Account
begin

text \<open>
  \<open>src/node/witness.js\<close>: the node of a witness. It runs one \<open>bft\<close> for every concilium it belongs to, takes
  the messages of the other witnesses to it and its messages to them, builds a block when it is its
  turn and accepts the block that was voted for. The handlers of \<open>createBlock\<close> and \<open>commitBlock\<close>, the
  restart after a change of the conciliums and what follows the connection of a peer begin with an
  \<open>await\<close>: they are tasks in \<open>wt_tasks\<close>, each run as one step. A message of the own consensus is
  delivered to it within the call that emitted it; the address recovered from a message is that of
  the wallet it was signed with.
\<close>

section \<open>State\<close>

datatype witness_message =
    WHandshake addr
  | WBlock addr "block option"
  | WConsensus witness_msg

fun witness_message_address :: "witness_message \<Rightarrow> addr" where
  "witness_message_address (WHandshake a) = a"
| "witness_message_address (WBlock a _) = a"
| "witness_message_address (WConsensus m) = witness_msg_address m"

datatype witness_event =
    WSend peer_key nat witness_message
  | WConnect peer_key

datatype 'd witness_task =
    CreateBlock nat
  | CommitBlock nat block "'d patch option"
  | Restart
  | PeerLoaded peer_key nat

text \<open>
  What does not change: the node's, the wallet, the hash of a vote and the order of addresses for the
  consensus, the random receiver of a coinbase, the milliseconds from the start of a block's
  construction to the end of its \<open>i\<close>-th transaction, the size of messages and the mutexes that the
  handlers of the node hold.
\<close>

record ('g, 'm, 'd, 'r, 'a) witness_cfg =
  wc_node :: "('g, 'm, 'd, 'r, 'a) node_cfg"
  wc_wallet :: wallet
  wc_dataHash :: "view_value \<Rightarrow> hash"
  wc_sort :: "addr list \<Rightarrow> addr list"
  wc_bCreateJoinTx :: bool
  wc_random :: addr
  wc_elapsed :: "nat \<Rightarrow> int"
  wc_msgSize :: "nat \<Rightarrow> witness_message \<Rightarrow> nat"
  wc_isLocked :: "string \<Rightarrow> bool"

text \<open>The book of peers holds the peers of the node: \<open>pg_mapAllPeers\<close> of \<open>wt_manager\<close> is not used.\<close>

record ('g, 'm, 'd) witness =
  wt_node :: "('g, 'm, 'd) node"
  wt_manager :: peerManager
  wt_consensuses :: "(nat, 'd patch bft) jsmap"
  wt_nLowestConciliumId :: "nat option"
  wt_conciliumSeed :: nat
  wt_nMinConnections :: nat
  wt_bReconnectInProgress :: bool
  wt_tasks :: "'d witness_task list"
  wt_out :: "witness_event list"

abbreviation wc_address :: "('g, 'm, 'd, 'r, 'a) witness_cfg \<Rightarrow> addr" where
  "wc_address K \<equiv> wa_address (wc_wallet K)"

abbreviation wc_now :: "('g, 'm, 'd, 'r, 'a) witness_cfg \<Rightarrow> int" where
  "wc_now K \<equiv> nc_now (wc_node K)"

definition Witness_bftEnv :: "('g, 'm, 'd, 'r, 'a) witness_cfg \<Rightarrow> bft_env" where
  "Witness_bftEnv K = \<lparr>be_crypto = nc_crypto (wc_node K), be_blockCrypto = nc_block (wc_node K),
     be_dataHash = wc_dataHash K, be_sort = wc_sort K, be_now = wc_now K\<rparr>"

definition MIN_PEERS :: nat where "MIN_PEERS = 3"
definition WITNESS_UTXOS_JOIN :: nat where "WITNESS_UTXOS_JOIN = 30"
definition MAX_UTXO_PER_TX :: nat where "MAX_UTXO_PER_TX = 1000"
definition BLOCK_CREATION_TIME_LIMIT :: int where "BLOCK_CREATION_TIME_LIMIT = 1500"
definition BLOCK_AUTO_WITNESSING_TIMESTAMP_DIFF :: int where "BLOCK_AUTO_WITNESSING_TIMESTAMP_DIFF = 30 * 60"

section \<open>The node inside\<close>

definition Witness_createPseudoRandomSeed :: "hash list \<Rightarrow> ('g, 'm, 'd) witness \<Rightarrow> ('g, 'm, 'd) witness" where
  "Witness_createPseudoRandomSeed arrLastStableBlockHashes w =
     (let seed = Node_createPseudoRandomSeed arrLastStableBlockHashes
      in w\<lparr>wt_conciliumSeed := seed,
           wt_consensuses := map (\<lambda>(i, c). (i, Bft_setRoundSeed (int seed) c)) (wt_consensuses w)\<rparr>)"

text \<open>
  Inside the node's \<open>_updateLastAppliedBlocks\<close> the overridden method takes the seed to the consensuses,
  and \<open>conciliumsChanged\<close> starts \<open>restart\<close>.
\<close>

fun Witness_nodeEvent :: "node_event \<Rightarrow> ('g, 'm, 'd) witness \<Rightarrow> ('g, 'm, 'd) witness" where
  "Witness_nodeEvent (NewSeed seed) w = w\<lparr>wt_conciliumSeed := seed,
     wt_consensuses := map (\<lambda>(i, c). (i, Bft_setRoundSeed (int seed) c)) (wt_consensuses w)\<rparr>"
| "Witness_nodeEvent ConciliumsChanged w = w\<lparr>wt_tasks := wt_tasks w @ [Restart]\<rparr>"
| "Witness_nodeEvent _ w = w"

definition Witness_onNode :: "('x, ('g, 'm, 'd) node) act \<Rightarrow> ('x, ('g, 'm, 'd) witness) act" where
  "Witness_onNode m w =
     (case m (wt_node w) of (r, n) \<Rightarrow>
      (r, fold (\<lambda>(_, ev). Witness_nodeEvent ev) (drop (length (nd_out (wt_node w))) (nd_out n)) (w\<lparr>wt_node := n\<rparr>)))"

section \<open>Sending\<close>

definition Witness_manager :: "('g, 'm, 'd) witness \<Rightarrow> peerManager" where
  "Witness_manager w = (wt_manager w)\<lparr>pg_mapAllPeers := nd_peers (wt_node w)\<rparr>"

definition Witness_pushMessage ::
    "('g, 'm, 'd, 'r, 'a) witness_cfg \<Rightarrow> nat \<Rightarrow> witness_message \<Rightarrow> peer_key \<Rightarrow> (unit, ('g, 'm, 'd) witness) act" where
  "Witness_pushMessage K cid msg k =
     bindS (modifyS (\<lambda>w. w\<lparr>wt_out := wt_out w @ [WSend k cid msg]\<rparr>)) (\<lambda>_.
     Witness_onNode (Node_onPeer k (Peer_pushMessage (wc_now K)
       \<lparr>ms_kind = KOther, ms_payload = Some (wc_msgSize K cid msg), ms_signature = True, ms_address = wc_address K\<rparr>)))"

text \<open>\<open>broadcastToConnected\<close> with the tag of the concilium; what a peer throws is logged.\<close>

definition Witness_broadcast ::
    "('g, 'm, 'd, 'r, 'a) witness_cfg \<Rightarrow> nat \<Rightarrow> witness_message \<Rightarrow> (unit, ('g, 'm, 'd) witness) act" where
  "Witness_broadcast K cid msg =
     bindS (getsS (\<lambda>w. PeerManager_broadcastToConnected (Some (createPeerTag cid)) None None 0 (Witness_manager w))) (\<lambda>peers.
     eachS (\<lambda>p. catchS (Witness_pushMessage K cid msg (Peer_key p)) (\<lambda>_. returnS ())) peers)"

definition Witness_createHandshakeMessage :: "('g, 'm, 'd, 'r, 'a) witness_cfg \<Rightarrow> witness_message" where
  "Witness_createHandshakeMessage K = WHandshake (wc_address K)"

definition Witness_createExposeMessage :: "('g, 'm, 'd, 'r, 'a) witness_cfg \<Rightarrow> witness_msg \<Rightarrow> witness_msg" where
  "Witness_createExposeMessage K m = MsgExpose (wc_address K) m"

section \<open>The consensus inside\<close>

text \<open>
  The messages a consensus emits, signed with the wallet. \<open>createBlock\<close> is ignored while a block is
  committed or while blocks are loaded; a pending commit holds its mutex.
\<close>

definition Witness_commitLocked :: "('g, 'm, 'd, 'r, 'a) witness_cfg \<Rightarrow> ('g, 'm, 'd) witness \<Rightarrow> bool" where
  "Witness_commitLocked K w \<longleftrightarrow> wc_isLocked K ''commitBlock'' \<or>
     (\<exists>t\<in>set (wt_tasks w). case t of CommitBlock _ _ _ \<Rightarrow> True | _ \<Rightarrow> False)"

definition Witness_addTask :: "'d witness_task \<Rightarrow> (unit, ('g, 'm, 'd) witness) act" where
  "Witness_addTask t = modifyS (\<lambda>w. w\<lparr>wt_tasks := wt_tasks w @ [t]\<rparr>)"

text \<open>A method of the consensus of a concilium; the new entries of \<open>bf_emitted\<close> are what it emitted.\<close>

definition Witness_bft ::
    "nat \<Rightarrow> (unit, 'd patch bft) act \<Rightarrow> ('g, 'm, 'd) witness \<Rightarrow>
     unit res \<times> 'd patch bft_event list \<times> ('g, 'm, 'd) witness" where
  "Witness_bft cid m w =
     (case jget (wt_consensuses w) cid of
        None \<Rightarrow> (Inl (TypeError ''Cannot read property''), [], w)
      | Some c \<Rightarrow> (case m c of (r, c') \<Rightarrow>
          (r, drop (length (bf_emitted c)) (bf_emitted c'), w\<lparr>wt_consensuses := jset cid c' (wt_consensuses w)\<rparr>)))"

text \<open>
  The handlers of a consensus' events; \<open>send\<close> is what \<open>message\<close> is answered with.
\<close>

definition Witness_setConsensusHandlers ::
    "('g, 'm, 'd, 'r, 'a) witness_cfg \<Rightarrow> nat \<Rightarrow> (nat \<Rightarrow> witness_msg \<Rightarrow> (unit, ('g, 'm, 'd) witness) act) \<Rightarrow>
     'd patch bft_event \<Rightarrow> (unit, ('g, 'm, 'd) witness) act" where
  "Witness_setConsensusHandlers K cid send ev =
     (case ev of
        EmitNextRound n r \<Rightarrow> send n (MsgNextRound (wc_address K) r)
      | EmitBlockVote n h \<Rightarrow>
          send n (MsgBlockVote (wc_address K) h (Some (cr_sign (nc_crypto (wc_node K)) h (wa_privateKey (wc_wallet K)))))
      | EmitCreateBlock \<Rightarrow> (\<lambda>w.
          if Witness_commitLocked K w \<or> Node_isInitialBlockLoading (wt_node w) then (Inr (), w)
          else Witness_addTask (CreateBlock cid) w)
      | EmitCommitBlock b p \<Rightarrow> Witness_addTask (CommitBlock cid b p))"

definition Witness_emitted ::
    "('g, 'm, 'd, 'r, 'a) witness_cfg \<Rightarrow> nat \<Rightarrow> (nat \<Rightarrow> witness_msg \<Rightarrow> (unit, ('g, 'm, 'd) witness) act) \<Rightarrow>
     (unit, 'd patch bft) act \<Rightarrow> (unit, ('g, 'm, 'd) witness) act" where
  "Witness_emitted K cid send m w =
     (case Witness_bft cid m w of (r, evs, w) \<Rightarrow>
      bindS (eachS (Witness_setConsensusHandlers K cid send) evs) (\<lambda>_ w. (r, w)) w)"

text \<open>
  An emitted message goes to the witnesses of the concilium and then to the own consensus, which may
  emit again; \<open>fuel\<close> is the depth of the calls. An exception of the inner call is that of the outer one.
\<close>

fun Witness_broadcastConsensusInitiatedMessage ::
    "('g, 'm, 'd, 'r, 'a) witness_cfg \<Rightarrow> nat \<Rightarrow> nat \<Rightarrow> witness_msg \<Rightarrow> (unit, ('g, 'm, 'd) witness) act" where
  "Witness_broadcastConsensusInitiatedMessage K 0 cid msg = throwS (Error ''Maximum call stack size exceeded'')"
| "Witness_broadcastConsensusInitiatedMessage K (Suc fuel) cid msg =
     bindS (Witness_broadcast K cid (WConsensus msg)) (\<lambda>_ w.
     if jget (wt_consensuses w) cid = None then (Inr (), w)
     else Witness_emitted K cid (Witness_broadcastConsensusInitiatedMessage K fuel)
            (bindS (Bft_processMessage (Witness_bftEnv K) msg) (\<lambda>_. returnS ())) w)"

text \<open>A call of the consensus from outside; a depth of two is proved to be enough.\<close>

definition Witness_consensus ::
    "('g, 'm, 'd, 'r, 'a) witness_cfg \<Rightarrow> nat \<Rightarrow> (unit, 'd patch bft) act \<Rightarrow> (unit, ('g, 'm, 'd) witness) act" where
  "Witness_consensus K cid = Witness_emitted K cid (Witness_broadcastConsensusInitiatedMessage K 2)"

text \<open>The timer of a consensus.\<close>

definition Witness_timer :: "('g, 'm, 'd, 'r, 'a) witness_cfg \<Rightarrow> nat \<Rightarrow> (unit, ('g, 'm, 'd) witness) act" where
  "Witness_timer K cid = Witness_consensus K cid (Bft_stateChange (Witness_bftEnv K) False None)"

section \<open>Starting, peers\<close>

definition Witness_ensureWalletIndex :: "('g, 'm, 'd, 'r, 'a) witness_cfg \<Rightarrow> (unit, ('g, 'm, 'd) witness) act" where
  "Witness_ensureWalletIndex K = Witness_onNode (onFullStorage (wc_node K)
     (bindS (catchS (onWallet (Storage_walletWatchAddress (wc_address K))) (\<lambda>_. returnS ())) (\<lambda>_.
      Storage_walletReIndex)))"

definition Witness_getConciliums ::
    "('g, 'm, 'd, 'r, 'a) witness_cfg \<Rightarrow> (concilium list, ('g, 'm, 'd) witness) act" where
  "Witness_getConciliums K = Witness_onNode (onStorage
     (Storage_getConciliumsByAddress (nc_serializers (wc_node K)) (ne_loadConciliums (nc_env (wc_node K))) (wc_address K)))"

definition Witness_createConsensusForConcilium ::
    "('g, 'm, 'd, 'r, 'a) witness_cfg \<Rightarrow> concilium \<Rightarrow> (unit, ('g, 'm, 'd) witness) act" where
  "Witness_createConsensusForConcilium K concilium =
     bindS (liftS (Bft_new (Witness_bftEnv K) concilium (wc_address K))) (\<lambda>consensus.
     modifyS (\<lambda>w. let i = Concilium_getConciliumId concilium in
       w\<lparr>wt_consensuses := jset i (Bft_setRoundSeed (int (wt_conciliumSeed w)) consensus) (wt_consensuses w),
         wt_nLowestConciliumId := (case wt_nLowestConciliumId w of
            None \<Rightarrow> Some i | Some n \<Rightarrow> if n > i then Some i else Some n)\<rparr>))"

text \<open>What follows in \<open>super.bootstrap\<close> is the node's search for peers.\<close>

definition Witness_bootstrap :: "('g, 'm, 'd, 'r, 'a) witness_cfg \<Rightarrow> (unit, ('g, 'm, 'd) witness) act" where
  "Witness_bootstrap K =
     bindS (Witness_getConciliums K) (\<lambda>arrConciliums.
     bindS (modifyS (\<lambda>w. Witness_createPseudoRandomSeed
              (Storage_getLastAppliedBlockHashes (nd_storage (wt_node w))) w)) (\<lambda>_.
     eachS (Witness_createConsensusForConcilium K) arrConciliums))"

definition Witness_getConciliumPeers ::
    "('g, 'm, 'd, 'r, 'a) witness_cfg \<Rightarrow> concilium \<Rightarrow> ('g, 'm, 'd) witness \<Rightarrow> peer list res" where
  "Witness_getConciliumPeers K concilium w =
     filterR (\<lambda>p. mapR (\<lambda>a. a \<in> set (Concilium_getAddresses concilium)) (Peer_witnessAddress p))
       (PeerManager_filterPeers (wc_now K) (Some WITNESS) True (Witness_manager w))"

text \<open>The handshake of two witnesses over a connection; the answer is awaited, which is left out.\<close>

definition Witness_handshake ::
    "('g, 'm, 'd, 'r, 'a) witness_cfg \<Rightarrow> peer_key \<Rightarrow> nat \<Rightarrow> (unit, ('g, 'm, 'd) witness) act" where
  "Witness_handshake K k cid w =
     (case jget (nd_peers (wt_node w)) k of
        None \<Rightarrow> (Inr (), w)
      | Some p \<Rightarrow> if Peer_disconnected p \<or> Peer_witnessLoadDone cid p then (Inr (), w)
                  else Witness_pushMessage K cid (Witness_createHandshakeMessage K) k w)"

text \<open>A peer that is not connected is connected first: the transport tells when that is done.\<close>

definition Witness_connectWitness ::
    "('g, 'm, 'd, 'r, 'a) witness_cfg \<Rightarrow> concilium \<Rightarrow> peer \<Rightarrow> (unit, ('g, 'm, 'd) witness) act" where
  "Witness_connectWitness K concilium p =
     (let cid = Concilium_getConciliumId concilium; k = Peer_key p
      in if Peer_witnessLoadDone cid p then returnS ()
         else if Peer_disconnected p
         then modifyS (\<lambda>w. w\<lparr>wt_out := wt_out w @ [WConnect k], wt_tasks := wt_tasks w @ [PeerLoaded k cid]\<rparr>)
         else Witness_handshake K k cid)"

definition Witness_startConcilium ::
    "('g, 'm, 'd, 'r, 'a) witness_cfg \<Rightarrow> concilium \<Rightarrow> (unit, ('g, 'm, 'd) witness) act" where
  "Witness_startConcilium K concilium =
     bindS (\<lambda>w. (Witness_getConciliumPeers K concilium w, w)) (\<lambda>peers.
     eachS (\<lambda>p. catchS (Witness_connectWitness K concilium p) (\<lambda>_. returnS ())) peers)"

definition Witness_start :: "('g, 'm, 'd, 'r, 'a) witness_cfg \<Rightarrow> (nat, ('g, 'm, 'd) witness) act" where
  "Witness_start K =
     finallyS
       (bindS (modifyS (\<lambda>w. w\<lparr>wt_bReconnectInProgress := True, wt_nMinConnections := MIN_PEERS\<rparr>)) (\<lambda>_.
        bindS (Witness_getConciliums K) (\<lambda>arrConciliums.
        bindS (Witness_onNode (onMempool (modifyS
                 (Mempool_setPreferredConciliums (map Concilium_getConciliumId arrConciliums))))) (\<lambda>_.
        bindS (getsS (\<lambda>w. wt_consensuses w \<noteq> [])) (\<lambda>wasInitialized.
        bindS (eachS (\<lambda>def.
                 bindS (modifyS (\<lambda>w. w\<lparr>wt_nMinConnections := wt_nMinConnections w + Concilium_getMembersCount def\<rparr>)) (\<lambda>_.
                 bindS (if \<not> wasInitialized then Witness_createConsensusForConcilium K def else returnS ()) (\<lambda>_.
                 Witness_startConcilium K def))) arrConciliums) (\<lambda>_.
        returnS (length arrConciliums)))))))
       (modifyS (\<lambda>w. w\<lparr>wt_bReconnectInProgress := False\<rparr>))"

definition Witness_restart :: "('g, 'm, 'd, 'r, 'a) witness_cfg \<Rightarrow> (unit, ('g, 'm, 'd) witness) act" where
  "Witness_restart K =
     bindS (getsS (\<lambda>w. wt_consensuses w \<noteq> [])) (\<lambda>wasStarted.
     if \<not> wasStarted then returnS ()
     else bindS (modifyS (\<lambda>w. w\<lparr>wt_consensuses := [], wt_nLowestConciliumId := None\<rparr>)) (\<lambda>_.
          bindS (Witness_start K) (\<lambda>_. returnS ())))"

definition Witness_storeWitness ::
    "('g, 'm, 'd, 'r, 'a) witness_cfg \<Rightarrow> peer_key \<Rightarrow> nat \<Rightarrow> (unit, ('g, 'm, 'd) witness) act" where
  "Witness_storeWitness K k cid =
     bindS (Witness_onNode (Node_onPeer k (modifyS (\<lambda>p. Peer_markAsPersistent (Peer_addTag (createPeerTag cid) p))))) (\<lambda>_.
     modifyS (\<lambda>w. case jget (nd_peers (wt_node w)) k of
         None \<Rightarrow> w
       | Some p \<Rightarrow> (case PeerManager_addPeer (wc_now K) p True (Witness_manager w) of (_, g) \<Rightarrow>
           w\<lparr>wt_manager := g, wt_node := (wt_node w)\<lparr>nd_peers := pg_mapAllPeers g\<rparr>\<rparr>)))"

section \<open>Messages of other witnesses\<close>

text \<open>
  A signed message: \<open>None\<close> when the peer's signature failed, else the concilium and the message,
  or the exception of its decoding.
\<close>

definition Witness_checkPeerAndMessage ::
    "('g, 'm, 'd, 'r, 'a) witness_cfg \<Rightarrow> peer_key \<Rightarrow> (nat \<times> witness_message) res option \<Rightarrow>
     (nat \<times> witness_message, ('g, 'm, 'd) witness) act" where
  "Witness_checkPeerAndMessage K k message =
     (case message of
        None \<Rightarrow> bindS (Witness_onNode (Node_onPeer k (Peer_ban (wc_now K)))) (\<lambda>_. throwS (Error ''SIGNATURE CHECK FAILED!''))
      | Some r \<Rightarrow>
          bindS (liftS r) (\<lambda>(cid, m) w.
          (if jget (wt_consensuses w) cid = None then Inl (Error ''send us message for UNKNOWN CONCILIUM!'')
           else Inr (cid, m), w)))"

text \<open>A method of the peer's entry that may throw: \<open>peer.witnessAddress\<close>.\<close>

definition Witness_peerAddress :: "peer_key \<Rightarrow> (addr, ('g, 'm, 'd) witness) act" where
  "Witness_peerAddress k w =
     (case jget (nd_peers (wt_node w)) k of
        None \<Rightarrow> Inl (TypeError ''Cannot read property'') | Some p \<Rightarrow> Peer_witnessAddress p, w)"

definition Witness_processHandshakeMessage ::
    "('g, 'm, 'd, 'r, 'a) witness_cfg \<Rightarrow> peer_key \<Rightarrow> nat \<Rightarrow> (unit, ('g, 'm, 'd) witness) act" where
  "Witness_processHandshakeMessage K k cid =
     bindS (Witness_peerAddress k) (\<lambda>address.
     bindS (getsS (\<lambda>w. case jget (wt_consensuses w) cid of None \<Rightarrow> False | Some c \<Rightarrow> Bft_checkAddresses c address)) (\<lambda>ok.
     if \<not> ok
     then bindS (Witness_onNode (Node_onPeer k (Peer_ban (wc_now K)))) (\<lambda>_. throwS (Thrown ''this guy UNKNOWN!''))
     else bindS (getsS (\<lambda>w. case jget (nd_peers (wt_node w)) k of
                   None \<Rightarrow> False | Some p \<Rightarrow> Peer_witnessLoadDone cid p)) (\<lambda>done.
          bindS (if \<not> done then Witness_pushMessage K cid (Witness_createHandshakeMessage K) k else returnS ()) (\<lambda>_.
          Witness_storeWitness K k cid))))"

text \<open>The parents the witness would choose itself.\<close>

definition Witness_compareParents ::
    "('g, 'm, 'd, 'r, 'a) witness_cfg \<Rightarrow> block \<Rightarrow> (unit, ('g, 'm, 'd) node) act" where
  "Witness_compareParents K b s =
     (bindR (Pending_getBestParents (nc_pdag (wc_node K)) (nc_serializers (wc_node K)) (Some (Block_getConciliumId b))
               (nd_pendingBlocks s)) (\<lambda>(arrParents, _).
      assertR (arrayEquals (Block_parentHashes b) arrParents)
        (Error ''Will reject block because of different parents'')), s)"

text \<open>The block is executed, not accepted: that waits for the vote. \<open>_processedBlock\<close> is left set.\<close>

definition Witness_checkBlock ::
    "('g, 'm, 'd, 'r, 'a) witness_cfg \<Rightarrow> block \<Rightarrow> ('d patch option, ('g, 'm, 'd) node) act" where
  "Witness_checkBlock K b =
     bindS (Node_verifyBlock (wc_node K) False b) (\<lambda>_.
     bindS (Witness_compareParents K b) (\<lambda>_.
     bindS (Node_canExecuteBlock (wc_node K) (IsBlock b)) (\<lambda>can.
     if \<not> can then throwS (Error ''Block couldn't be executed right now!'')
     else bindS (modifyS (\<lambda>s. s\<lparr>nd_processedBlock := Some b\<rparr>)) (\<lambda>_.
          Node_execBlock (wc_node K) b))))"

definition Witness_processBlockMessage ::
    "('g, 'm, 'd, 'r, 'a) witness_cfg \<Rightarrow> nat \<Rightarrow> addr \<Rightarrow> block option \<Rightarrow> (unit, ('g, 'm, 'd) witness) act" where
  "Witness_processBlockMessage K cid address blk =
     bindS (\<lambda>w. (case jget (wt_consensuses w) cid of
                   None \<Rightarrow> Inl (TypeError ''Cannot read property'') | Some c \<Rightarrow> Bft_shouldPublish address c, w)) (\<lambda>should.
     if \<not> should then returnS ()
     else case blk of
       None \<Rightarrow> throwS (TypeError ''Cannot read property'')
     | Some b \<Rightarrow>
         bindS (Witness_onNode (Node_hash (wc_node K) b)) (\<lambda>(h, b).
         bindS (\<lambda>w. (Storage_hasBlock h (nd_storage (wt_node w)), w)) (\<lambda>has.
         if has then returnS ()
         else catchS
           (bindS (Witness_onNode (Witness_checkBlock K b)) (\<lambda>patch.
            Witness_consensus K cid (Bft_processValidBlock (Witness_bftEnv K) b patch)))
           (\<lambda>e. case e of
                Thrown _ \<Rightarrow> throwS (TypeError ''e.log is not a function'')
              | _ \<Rightarrow> Witness_consensus K cid Bft_invalidBlock))))"

text \<open>Messages are passed on to the other witnesses, wrapped in an own one, before they are processed.\<close>

definition Witness_incomingWitnessMessage ::
    "('g, 'm, 'd, 'r, 'a) witness_cfg \<Rightarrow> peer_key \<Rightarrow> (nat \<times> witness_message) res option \<Rightarrow>
     (unit, ('g, 'm, 'd) witness) act" where
  "Witness_incomingWitnessMessage K k message =
     catchS
       (bindS (Witness_checkPeerAndMessage K k message) (\<lambda>(cid, messageWitness).
        case messageWitness of
          WHandshake _ \<Rightarrow> Witness_processHandshakeMessage K k cid
        | WBlock address blk \<Rightarrow> Witness_processBlockMessage K cid address blk
        | WConsensus m \<Rightarrow>
            bindS (case m of
                MsgExpose _ _ \<Rightarrow> returnS ()
              | _ \<Rightarrow> Witness_broadcastConsensusInitiatedMessage K 2 cid (Witness_createExposeMessage K m)) (\<lambda>_.
            Witness_consensus K cid (bindS (Bft_processMessage (Witness_bftEnv K) m) (\<lambda>_. returnS ())))))
       (\<lambda>_. returnS ())"

section \<open>Building a block\<close>

definition Node_getFeeSizePerInput ::
    "('g, 'm, 'd, 'r, 'a) node_cfg \<Rightarrow> nat \<Rightarrow> (int, ('g, 'm, 'd) node) act" where
  "Node_getFeeSizePerInput K conciliumId =
     bindS (onStorage (Storage_getConciliumById (nc_serializers K) (ne_loadConciliums (nc_env K)) conciliumId)) (\<lambda>c.
     let nFeePerKb = feeOr TX_FEE (Concilium_getFeeTxSize c);
         nKbytes = dbl (11 / 100)
     in returnS (parseInt_number (dbl (of_int nFeePerKb * nKbytes))))"

text \<open>
  The transaction that joins the witness' outputs. The amount counts every output of a UTXO it begins
  with, the inputs stop at \<open>nMaxInputs\<close>.
\<close>

fun Witness_joinInputs :: "nat \<Rightarrow> hash \<Rightarrow> int list \<Rightarrow> nat \<times> tx \<Rightarrow> (nat \<times> tx) res" where
  "Witness_joinInputs nMaxInputs h [] acc = Inr acc"
| "Witness_joinInputs nMaxInputs h (idx # idxs) (nInputs, t) =
     bindR (Transaction_addInput h idx t) (\<lambda>t.
     if Suc nInputs \<ge> nMaxInputs then Inr (Suc nInputs, t)
     else Witness_joinInputs nMaxInputs h idxs (Suc nInputs, t))"

fun Witness_joinUtxos :: "nat \<Rightarrow> utxo list \<Rightarrow> int \<times> nat \<times> tx \<Rightarrow> (int \<times> nat \<times> tx) res" where
  "Witness_joinUtxos nMaxInputs [] acc = Inr acc"
| "Witness_joinUtxos nMaxInputs (u # arrUtxos) (nTotalAmount, nInputs, t) =
     bindR (UTXO_amountOut u) (\<lambda>amount.
     bindR (Witness_joinInputs nMaxInputs (UTXO_getTxHash u) (UTXO_getIndexes u) (nInputs, t)) (\<lambda>(nInputs, t).
     if nInputs \<ge> nMaxInputs then Inr (nTotalAmount + amount, nInputs, t)
     else Witness_joinUtxos nMaxInputs arrUtxos (nTotalAmount + amount, nInputs, t)))"

definition Witness_createJoinTx ::
    "('g, 'm, 'd, 'r, 'a) witness_cfg \<Rightarrow> utxo list \<Rightarrow> nat \<Rightarrow> nat \<Rightarrow> tx res" where
  "Witness_createJoinTx K arrUtxos nConciliumId nMaxInputs =
     bindR (Witness_joinUtxos nMaxInputs arrUtxos (0, 0, Transaction_setConciliumId nConciliumId Transaction_new))
       (\<lambda>(nTotalAmount, nInputs, t).
     let fee = (1 + int nInputs) * 480
     in bindR (Transaction_addReceiver (nTotalAmount - fee) (wc_address K) t) (\<lambda>t.
        if length (Transaction_inputs t) > 1
        then Inr (Transaction_signForContract (nc_crypto (wc_node K)) (wa_privateKey (wc_wallet K)) t)
        else foldR (\<lambda>i. Transaction_claim (nc_crypto (wc_node K)) i (wa_privateKey (wc_wallet K)))
               [0..<length (Transaction_inputs t)] t))"

text \<open>
  The local variables of \<open>_createBlock\<close>, which keep their values when something throws: the block, the
  merged patch, the fees, the hashes of the transactions that failed.
\<close>

record ('g, 'm, 'd) building =
  bg_node :: "('g, 'm, 'd) node"
  bg_block :: block
  bg_patchMerged :: "'d patch option"
  bg_totalFee :: int
  bg_arrBadHashes :: "hash list"

definition building_new :: "nat \<Rightarrow> ('g, 'm, 'd) node \<Rightarrow> ('g, 'm, 'd) building" where
  "building_new conciliumId n =
     \<lparr>bg_node = n, bg_block = Block_markAsBuilding (Block_new conciliumId), bg_patchMerged = None,
      bg_totalFee = 0, bg_arrBadHashes = []\<rparr>"

definition onBuilding :: "('x, ('g, 'm, 'd) node) act \<Rightarrow> ('x, ('g, 'm, 'd) building) act" where
  "onBuilding = zoomS bg_node (\<lambda>x s. s\<lparr>bg_node := x\<rparr>)"

definition Witness_setPatch :: "'d patch \<Rightarrow> (unit, ('g, 'm, 'd) building) act" where
  "Witness_setPatch p = modifyS (\<lambda>s. s\<lparr>bg_patchMerged := Some p\<rparr>)"

text \<open>One transaction; the result is whether the time is over. Its fee counts before the patches are merged.\<close>

definition Witness_tryTx ::
    "('g, 'm, 'd, 'r, 'a) witness_cfg \<Rightarrow> nat \<Rightarrow> tx \<Rightarrow> (bool, ('g, 'm, 'd) building) act" where
  "Witness_tryTx K i t =
     bindS (getsS (\<lambda>s. the (bg_patchMerged s))) (\<lambda>patchMerged.
     bindS (onBuilding (Node_runTx (wc_node K) (Some patchMerged) False t)) (\<lambda>(fee, patchThisTx).
     bindS (modifyS (\<lambda>s. s\<lparr>bg_totalFee := bg_totalFee s + fee\<rparr>)) (\<lambda>_.
     bindS (liftS (PatchDB_merge (nc_serializers (wc_node K)) True patchMerged patchThisTx)) (\<lambda>patchMerged.
     bindS (Witness_setPatch patchMerged) (\<lambda>_.
     bindS (updR (\<lambda>s. mapR (\<lambda>b. s\<lparr>bg_block := b\<rparr>) (Block_addTx t (bg_block s)))) (\<lambda>_.
     returnS (wc_elapsed K i > BLOCK_CREATION_TIME_LIMIT)))))))"

fun Witness_addTxns ::
    "('g, 'm, 'd, 'r, 'a) witness_cfg \<Rightarrow> nat \<Rightarrow> tx list \<Rightarrow> (unit, ('g, 'm, 'd) building) act" where
  "Witness_addTxns K i [] = returnS ()"
| "Witness_addTxns K i (t # ts) =
     (if length (Transaction_inputs t) > MAX_UTXO_PER_TX then Witness_addTxns K (Suc i) ts
      else bindS (catchS (Witness_tryTx K i t) (\<lambda>_.
               bindS (modifyS (\<lambda>s. s\<lparr>bg_arrBadHashes :=
                        bg_arrBadHashes s @ [Transaction_getHash (nc_crypto (wc_node K)) t]\<rparr>)) (\<lambda>_. returnS False)))
             (\<lambda>stop. if stop then returnS () else Witness_addTxns K (Suc i) ts))"

text \<open>The parents, and the patch the block starts from.\<close>

definition Witness_chooseParents ::
    "('g, 'm, 'd, 'r, 'a) witness_cfg \<Rightarrow> nat \<Rightarrow> (unit, ('g, 'm, 'd) building) act" where
  "Witness_chooseParents K conciliumId =
     bindS (\<lambda>s. (Pending_getBestParents (nc_pdag (wc_node K)) (nc_serializers (wc_node K)) (Some conciliumId)
                   (nd_pendingBlocks (bg_node s)), s)) (\<lambda>(arrParents, patchMerged).
     let patchMerged = (case patchMerged of Some p \<Rightarrow> p | None \<Rightarrow> PatchDB_empty)
     in bindS (Witness_setPatch patchMerged) (\<lambda>_.
        bindS (liftS (PatchDB_setConciliumId (Some conciliumId) patchMerged)) (\<lambda>patchMerged.
        bindS (Witness_setPatch patchMerged) (\<lambda>_.
        bindS (liftS (assertR (arrParents \<noteq> []) (AssertionError ''Couldn't get parents for block!''))) (\<lambda>_.
        bindS (modifyS (\<lambda>s. s\<lparr>bg_block := Block_setParentHashes arrParents (bg_block s)\<rparr>)) (\<lambda>_.
        bindS (onBuilding (Node_calcHeight (wc_node K) arrParents)) (\<lambda>nHeight.
        modifyS (\<lambda>s. s\<lparr>bg_block := Block_setHeight nHeight (bg_block s)\<rparr>))))))))"

text \<open>Which transactions: those of the pool, after the one that joins outputs when there are many.\<close>

definition Witness_txToProcess ::
    "('g, 'm, 'd, 'r, 'a) witness_cfg \<Rightarrow> nat option \<Rightarrow> nat \<Rightarrow> (tx list, ('g, 'm, 'd) building) act" where
  "Witness_txToProcess K nLowestConciliumId conciliumId =
     bindS (onBuilding (onFullStorage (wc_node K) (Storage_walletListUnspent (wc_address K)))) (\<lambda>arrUtxos.
     bindS (if wc_bCreateJoinTx K \<and> nLowestConciliumId = Some conciliumId \<and> length arrUtxos > WITNESS_UTXOS_JOIN
            then liftS (mapR (\<lambda>t. [t]) (Witness_createJoinTx K arrUtxos conciliumId (MAX_UTXO_PER_TX div 2)))
            else returnS []) (\<lambda>arrJoin.
     bindS (onBuilding (onMempool (\<lambda>m. case Mempool_getFinalTxns conciliumId m of (ts, m) \<Rightarrow> (Inr ts, m)))) (\<lambda>arrFinal.
     returnS (arrJoin @ arrFinal))))"

definition Witness_finishBlock ::
    "('g, 'm, 'd, 'r, 'a) witness_cfg \<Rightarrow> nat \<Rightarrow> (unit, ('g, 'm, 'd) building) act" where
  "Witness_finishBlock K conciliumId =
     bindS (getsS bg_arrBadHashes) (\<lambda>arrBadHashes.
     bindS (if arrBadHashes \<noteq> []
            then onBuilding (onMempool (modifyS (Mempool_removeTxns (nc_codec (wc_node K)) arrBadHashes)))
            else returnS ()) (\<lambda>_.
     bindS (onBuilding (Node_getFeeSizePerInput (wc_node K) conciliumId)) (\<lambda>minUsefulAmount.
     bindS (updR (\<lambda>s. mapR (\<lambda>b. s\<lparr>bg_block := b\<rparr>)
              (Block_finish (nc_crypto (wc_node K)) (nc_block (wc_node K)) (nat (wc_now K div 1000)) (wc_random K)
                 (bg_totalFee s) (wc_address K) minUsefulAmount (bg_block s)))) (\<lambda>_.
     bindS (getsS id) (\<lambda>s.
     bindS (onBuilding (Node_processBlockCoinbaseTX (wc_node K) (bg_block s) (bg_totalFee s) (the (bg_patchMerged s)))) (\<lambda>p.
     Witness_setPatch p))))))"

definition Witness_buildBlock ::
    "('g, 'm, 'd, 'r, 'a) witness_cfg \<Rightarrow> nat option \<Rightarrow> nat \<Rightarrow> (unit, ('g, 'm, 'd) building) act" where
  "Witness_buildBlock K nLowestConciliumId conciliumId =
     bindS (Witness_chooseParents K conciliumId) (\<lambda>_.
     bindS (modifyS (\<lambda>s. s\<lparr>bg_node := (bg_node s)\<lparr>nd_processedBlock := Some (bg_block s)\<rparr>\<rparr>)) (\<lambda>_.
     bindS (Witness_txToProcess K nLowestConciliumId conciliumId) (\<lambda>arrTxToProcess.
     bindS (Witness_addTxns K 0 arrTxToProcess) (\<lambda>_.
     Witness_finishBlock K conciliumId))))"

text \<open>What goes wrong is logged; the block and the patch are returned as far as they got.\<close>

definition Witness_createBlock ::
    "('g, 'm, 'd, 'r, 'a) witness_cfg \<Rightarrow> nat option \<Rightarrow> nat \<Rightarrow> (block \<times> 'd patch option, ('g, 'm, 'd) node) act" where
  "Witness_createBlock K nLowestConciliumId conciliumId n =
     (case Witness_buildBlock K nLowestConciliumId conciliumId (building_new conciliumId n) of
        (_, s) \<Rightarrow> (Inr (bg_block s, bg_patchMerged s), (bg_node s)\<lparr>nd_processedBlock := None\<rparr>))"

section \<open>The tasks\<close>

text \<open>Timestamps are in seconds; a parent that is not pending throws, which counts as a big difference.\<close>

definition Witness_isBigTimeDiff :: "('g, 'm, 'd, 'r, 'a) witness_cfg \<Rightarrow> block \<Rightarrow> 'g pending \<Rightarrow> bool" where
  "Witness_isBigTimeDiff K b pending =
     (case mapM (\<lambda>h. bindR (Pending_getBlock (nc_pdag (wc_node K)) h pending) (\<lambda>found.
              case found of
                None \<Rightarrow> Inl (TypeError ''Cannot read property'')
              | Some x \<Rightarrow> Inr (hd_timestamp (po_blockHeader x)))) (Block_parentHashes b) of
        Inl _ \<Rightarrow> True
      | Inr arrTimeStamps \<Rightarrow> \<not> list_all (\<lambda>timestamp.
          int (Block_timestamp (nat (wc_now K div 1000)) b) - int timestamp < BLOCK_AUTO_WITNESSING_TIMESTAMP_DIFF)
          arrTimeStamps)"

text \<open>An empty block that nobody needs is suppressed; the terms are evaluated from left to right.\<close>

definition Witness_suppressed ::
    "('g, 'm, 'd, 'r, 'a) witness_cfg \<Rightarrow> nat \<Rightarrow> block \<Rightarrow> ('g, 'm, 'd) witness \<Rightarrow> bool res" where
  "Witness_suppressed K cid b w =
     (if \<not> Block_isEmpty b then Inr False
      else case jget (wt_consensuses w) cid of
        None \<Rightarrow> Inl (TypeError ''Cannot read property'')
      | Some c \<Rightarrow>
          if \<not> Bft_timeForWitnessBlock (Witness_bftEnv K) c \<or> Witness_isBigTimeDiff K b (nd_pendingBlocks (wt_node w))
          then Inr True
          else mapR (\<lambda>reason. reason = None)
                 (Pending_isReasonToWitness (nc_pdag (wc_node K)) b (nd_pendingBlocks (wt_node w))))"

definition Witness_broadcastBlock ::
    "('g, 'm, 'd, 'r, 'a) witness_cfg \<Rightarrow> nat \<Rightarrow> block \<Rightarrow> (unit, ('g, 'm, 'd) witness) act" where
  "Witness_broadcastBlock K cid b =
     bindS (liftS (assertR (bl_final b) (Error ''Call finish() before encoding''))) (\<lambda>_.
     Witness_broadcast K cid (WBlock (wc_address K) (Some b)))"

definition Witness_createBlockHandler ::
    "('g, 'm, 'd, 'r, 'a) witness_cfg \<Rightarrow> nat \<Rightarrow> (unit, ('g, 'm, 'd) witness) act" where
  "Witness_createBlockHandler K cid =
     catchS
       (bindS (getsS wt_nLowestConciliumId) (\<lambda>lowest.
        bindS (Witness_onNode (Witness_createBlock K lowest cid)) (\<lambda>(b, patch).
        bindS (\<lambda>w. (Witness_suppressed K cid b w, w)) (\<lambda>suppressed.
        if suppressed then returnS ()
        else bindS (Witness_broadcastBlock K cid b) (\<lambda>_.
             Witness_consensus K cid (Bft_processValidBlock (Witness_bftEnv K) b patch))))))
       (\<lambda>_. returnS ())"

text \<open>With contracts in the block it is executed again, so that they see the block's own variables.\<close>

definition Witness_commitBlock ::
    "('g, 'm, 'd, 'r, 'a) witness_cfg \<Rightarrow> block \<Rightarrow> 'd patch option \<Rightarrow> (unit, ('g, 'm, 'd) node) act" where
  "Witness_commitBlock K b patch =
     (let N = wc_node K
      in case patch of
           None \<Rightarrow> throwS (TypeError ''Cannot read property'')
         | Some p \<Rightarrow>
             if PatchDB_getContracts p \<noteq> [] then Node_handleArrivedBlock N b None
             else if wc_isLocked K ''blockReceived'' then returnS ()
             else bindS (Node_hash N b) (\<lambda>(h, b).
                  bindS (Node_isBlockExecuted N h) (\<lambda>executed.
                  if executed then returnS ()
                  else bindS (Node_storeBlockAndInfo N (Some b) (BlockInfo_new (bl_header b)) False) (\<lambda>_.
                       bindS (Node_acceptBlock N b p) (\<lambda>_.
                       bindS (Node_postAcceptBlock N b) (\<lambda>_.
                       if nc_networkSuspended N then returnS () else Node_emit (InformBlock h None)))))))"

definition Witness_commitBlockHandler ::
    "('g, 'm, 'd, 'r, 'a) witness_cfg \<Rightarrow> block \<Rightarrow> 'd patch option \<Rightarrow> (unit, ('g, 'm, 'd) witness) act" where
  "Witness_commitBlockHandler K b patch = catchS (Witness_onNode (Witness_commitBlock K b patch)) (\<lambda>_. returnS ())"

fun Witness_task :: "('g, 'm, 'd, 'r, 'a) witness_cfg \<Rightarrow> 'd witness_task \<Rightarrow> (unit, ('g, 'm, 'd) witness) act" where
  "Witness_task K (CreateBlock cid) = Witness_createBlockHandler K cid"
| "Witness_task K (CommitBlock cid b p) = Witness_commitBlockHandler K b p"
| "Witness_task K Restart = Witness_restart K"
| "Witness_task K (PeerLoaded k cid) = Witness_handshake K k cid"

end
