(* ===== verification/Cil_Witness_Laws.thy ===== *)
theory Cil_Witness_Laws
  imports Cil_Witness Cil_Bft_Laws
begin

text \<open>
  What the operations of \<open>Cil_Witness\<close> keep: every consensus of a witness is a reachable state of its
  concilium, and a block that waits to be committed was committed by such a state. The depth of the
  calls by which messages are delivered to the own consensus is bounded, and what the joining
  transaction spends is computed.
\<close>

section \<open>What every operation keeps\<close>

definition Witness_consensusOk :: "('g, 'm, 'd, 'r, 'a) witness_cfg \<Rightarrow> nat \<Rightarrow> 'd patch bft \<Rightarrow> bool" where
  "Witness_consensusOk K cid c \<longleftrightarrow>
     (\<exists>d. Concilium_getConciliumId d = cid \<and> bft_reach (Witness_bftEnv K) d (wc_address K) c)"

definition Witness_commitOk :: "('g, 'm, 'd, 'r, 'a) witness_cfg \<Rightarrow> nat \<Rightarrow> block \<Rightarrow> 'd patch option \<Rightarrow> bool" where
  "Witness_commitOk K cid b p \<longleftrightarrow> (\<exists>c. Witness_consensusOk K cid c \<and> EmitCommitBlock b p \<in> set (bf_emitted c))"

definition Witness_ok :: "('g, 'm, 'd, 'r, 'a) witness_cfg \<Rightarrow> ('g, 'm, 'd) witness \<Rightarrow> bool" where
  "Witness_ok K w \<longleftrightarrow>
     (\<forall>cid c. (cid, c) \<in> set (wt_consensuses w) \<longrightarrow> Witness_consensusOk K cid c) \<and>
     (\<forall>cid b p. CommitBlock cid b p \<in> set (wt_tasks w) \<longrightarrow> Witness_commitOk K cid b p)"

abbreviation Witness_keeps :: "('g, 'm, 'd, 'r, 'a) witness_cfg \<Rightarrow> ('x, ('g, 'm, 'd) witness) act \<Rightarrow> bool" where
  "Witness_keeps K \<equiv> presS (Witness_ok K)"

text \<open>The methods of the consensus that a witness calls are steps of it.\<close>

definition Witness_bftStep :: "('g, 'm, 'd, 'r, 'a) witness_cfg \<Rightarrow> (unit, 'd patch bft) act \<Rightarrow> bool" where
  "Witness_bftStep K m \<longleftrightarrow> (\<forall>c. bft_step (Witness_bftEnv K) c (snd (m c)))"

lemma Witness_bftStep_process:
  "Witness_bftStep K (bindS (Bft_processMessage (Witness_bftEnv K) m) (\<lambda>_. returnS ()))"
proof -
  have "snd (bindS x (\<lambda>_. returnS ()) s) = snd (x s)" for x :: "('x, 's) act" and s
    by (auto simp: bindS_def returnS_def split: prod.splits sum.splits)
  then show ?thesis unfolding Witness_bftStep_def using bft_steps_now(1) by metis
qed

lemma Witness_bftSteps:
  "Witness_bftStep K (Bft_stateChange (Witness_bftEnv K) False None)"
  "Witness_bftStep K (Bft_processValidBlock (Witness_bftEnv K) b p)"
  "Witness_bftStep K Bft_invalidBlock"
  unfolding Witness_bftStep_def by (blast intro: bft_steps_now bft_step.intros)+

lemma Witness_consensusOk_seed:
  "Witness_consensusOk K cid c \<Longrightarrow> Witness_consensusOk K cid (Bft_setRoundSeed n c)"
  unfolding Witness_consensusOk_def by (blast intro: bft_next bft_seed)

lemma Witness_ok_seed:
  "Witness_ok K w \<Longrightarrow> Witness_ok K (w\<lparr>wt_conciliumSeed := n, wt_consensuses :=
     map (\<lambda>(i, c). (i, Bft_setRoundSeed m c)) (wt_consensuses w)\<rparr>)"
  by (auto simp: Witness_ok_def intro: Witness_consensusOk_seed)

lemma Witness_ok_nodeEvent: "Witness_ok K w \<Longrightarrow> Witness_ok K (Witness_nodeEvent ev w)"
  by (cases ev) (auto simp: Witness_ok_seed, auto simp: Witness_ok_def)

lemma Witness_ok_nodeEvents: "Witness_ok K w \<Longrightarrow> Witness_ok K (fold (\<lambda>(_, ev). Witness_nodeEvent ev) evs w)"
  by (induction evs arbitrary: w) (auto simp: Witness_ok_nodeEvent)

lemma Witness_keeps_node [simp]: "Witness_keeps K (Witness_onNode m)"
proof (rule presSI)
  fix w :: "('a, 'b, 'c) witness"
  assume "Witness_ok K w"
  then have "Witness_ok K (w\<lparr>wt_node := n\<rparr>)" for n by (simp add: Witness_ok_def)
  then show "Witness_ok K (snd (Witness_onNode m w))"
    by (auto simp: Witness_onNode_def Witness_ok_nodeEvents split: prod.splits)
qed

lemma Witness_keeps_push [simp]: "Witness_keeps K (Witness_pushMessage L cid msg k)"
  by (auto simp: Witness_pushMessage_def Witness_ok_def intro!: presS_bindS presS_modifyS)

lemma Witness_keeps_broadcast [simp]: "Witness_keeps K (Witness_broadcast L cid msg)"
  unfolding Witness_broadcast_def by (intro presS_intros presS_simps Witness_keeps_push)

text \<open>A method of a consensus keeps the state, and the commits it emits are commits of that consensus.\<close>

definition Witness_eventsOk :: "('g, 'm, 'd, 'r, 'a) witness_cfg \<Rightarrow> nat \<Rightarrow> 'd patch bft_event list \<Rightarrow> bool" where
  "Witness_eventsOk K cid evs \<longleftrightarrow> (\<forall>b p. EmitCommitBlock b p \<in> set evs \<longrightarrow> Witness_commitOk K cid b p)"

lemma Witness_bft_ok:
  assumes "Witness_ok K w" and "Witness_bftStep K m" and "Witness_bft cid m w = (r, evs, w')"
  shows "Witness_ok K w'" and "Witness_eventsOk K cid evs"
proof -
  have "Witness_ok K w' \<and> Witness_eventsOk K cid evs"
  proof (cases "jget (wt_consensuses w) cid")
    case None
    with assms show ?thesis by (simp add: Witness_bft_def Witness_eventsOk_def)
  next
    case (Some c)
    obtain r' c' where m: "m c = (r', c')" by (cases "m c")
    have "(cid, c) \<in> set (wt_consensuses w)" using Some by (simp add: jget_def map_of_SomeD)
    then have "Witness_consensusOk K cid c" using assms(1) by (simp add: Witness_ok_def)
    moreover have "bft_step (Witness_bftEnv K) c c'" using assms(2) m by (metis Witness_bftStep_def snd_conv)
    ultimately have ok: "Witness_consensusOk K cid c'"
      unfolding Witness_consensusOk_def by (blast intro: bft_next)
    have w': "w' = w\<lparr>wt_consensuses := jset cid c' (wt_consensuses w)\<rparr>" "evs = drop (length (bf_emitted c)) (bf_emitted c')"
      using assms(3) Some m by (simp_all add: Witness_bft_def)
    have "Witness_ok K w'"
      using ok assms(1) set_jset_subset [of cid c' "wt_consensuses w"] by (auto simp: w' Witness_ok_def)
    moreover have "Witness_eventsOk K cid evs"
      using ok by (auto simp: Witness_eventsOk_def Witness_commitOk_def w' dest!: in_set_dropD)
    ultimately show ?thesis by simp
  qed
  then show "Witness_ok K w'" "Witness_eventsOk K cid evs" by simp_all
qed

lemma Witness_keeps_addTask:
  "(\<forall>i b p. t = CommitBlock i b p \<longrightarrow> Witness_commitOk K i b p) \<Longrightarrow> Witness_keeps K (Witness_addTask t)"
  unfolding Witness_addTask_def by (rule presS_modifyS) (auto simp: Witness_ok_def)

lemma Witness_keeps_handler:
  assumes "\<And>n msg. Witness_keeps K (send n msg)" and "\<forall>b p. ev = EmitCommitBlock b p \<longrightarrow> Witness_commitOk K cid b p"
  shows "Witness_keeps K (Witness_setConsensusHandlers K cid send ev)"
proof (cases ev)
  case EmitCreateBlock
  have "Witness_keeps K (Witness_addTask (CreateBlock cid))" by (rule Witness_keeps_addTask) simp
  then show ?thesis by (auto simp: EmitCreateBlock Witness_setConsensusHandlers_def presS_def)
next
  case (EmitCommitBlock b p)
  then show ?thesis using assms(2) by (auto simp: Witness_setConsensusHandlers_def intro!: Witness_keeps_addTask)
qed (simp_all add: Witness_setConsensusHandlers_def assms(1))

lemma Witness_keeps_emitted:
  assumes "\<And>n msg. Witness_keeps K (send n msg)" and "Witness_bftStep K m"
  shows "Witness_keeps K (Witness_emitted K cid send m)"
proof (rule presSI)
  fix w :: "('a, 'b, 'c) witness"
  assume ok: "Witness_ok K w"
  obtain r evs w' where b: "Witness_bft cid m w = (r, evs, w')" by (cases "Witness_bft cid m w")
  note B = Witness_bft_ok [OF ok assms(2) b]
  have "Witness_keeps K (eachS (Witness_setConsensusHandlers K cid send) evs)"
    using B(2)
  proof (induction evs)
    case (Cons ev evs)
    have "Witness_eventsOk K cid evs" "\<forall>b p. ev = EmitCommitBlock b p \<longrightarrow> Witness_commitOk K cid b p"
      using Cons.prems by (simp_all add: Witness_eventsOk_def)
    then show ?case using Cons.IH by (auto simp: eachS_def intro!: presS_bindS Witness_keeps_handler assms(1))
  qed (simp add: eachS_def)
  then have "Witness_keeps K (bindS (eachS (Witness_setConsensusHandlers K cid send) evs) (\<lambda>_ w. (r, w)))"
    by (rule presS_bindS) (simp add: presS_def)
  with B(1) b show "Witness_ok K (snd (Witness_emitted K cid send m w))"
    by (simp add: Witness_emitted_def presS_def)
qed

lemma Witness_keeps_message: "Witness_keeps K (Witness_broadcastConsensusInitiatedMessage K fuel cid msg)"
proof (induction fuel arbitrary: cid msg)
  case (Suc fuel)
  have "Witness_keeps K (\<lambda>w. if jget (wt_consensuses w) cid = None then (Inr (), w)
     else Witness_emitted K cid (Witness_broadcastConsensusInitiatedMessage K fuel)
            (bindS (Bft_processMessage (Witness_bftEnv K) msg) (\<lambda>_. returnS ())) w)"
    using Witness_keeps_emitted [OF Suc.IH Witness_bftStep_process] by (simp add: presS_def)
  then show ?case unfolding Witness_broadcastConsensusInitiatedMessage.simps
    by (intro presS_bindS Witness_keeps_broadcast)
qed simp

lemma Witness_keeps_consensus: "Witness_bftStep K m \<Longrightarrow> Witness_keeps K (Witness_consensus K cid m)"
  unfolding Witness_consensus_def by (rule Witness_keeps_emitted [OF Witness_keeps_message])

section \<open>The handlers\<close>

lemma Witness_keeps_timer: "Witness_keeps K (Witness_timer K cid)"
  unfolding Witness_timer_def by (rule Witness_keeps_consensus [OF Witness_bftSteps(1)])

lemma Witness_keeps_create: "Witness_keeps K (Witness_createConsensusForConcilium K d)"
proof -
  have "Witness_ok K (w\<lparr>wt_consensuses := jset (Concilium_getConciliumId d) (Bft_setRoundSeed n c) (wt_consensuses w),
      wt_nLowestConciliumId := l\<rparr>)"
    if "Bft_new (Witness_bftEnv K) d (wc_address K) = Inr c" and "Witness_ok K w"
    for n c l and w :: "('a, 'b, 'c) witness"
  proof -
    have "Witness_consensusOk K (Concilium_getConciliumId d) c"
      unfolding Witness_consensusOk_def using bft_start_now [OF that(1)] by blast
    then have "Witness_consensusOk K (Concilium_getConciliumId d) (Bft_setRoundSeed n c)"
      by (rule Witness_consensusOk_seed)
    with that(2) show ?thesis
      using set_jset_subset [of "Concilium_getConciliumId d" "Bft_setRoundSeed n c" "wt_consensuses w"]
      by (auto simp: Witness_ok_def)
  qed
  then show ?thesis
    by (auto simp: Witness_createConsensusForConcilium_def presS_def bindS_def liftS_def modifyS_def Let_def
        split: sum.splits)
qed

lemma Witness_keeps_handshake [simp]: "Witness_keeps K (Witness_handshake L k cid)"
  using presSD [OF Witness_keeps_push] by (auto simp: Witness_handshake_def presS_def split: option.splits)

lemma Witness_keeps_connect [simp]: "Witness_keeps K (Witness_connectWitness L d p)"
  unfolding Witness_connectWitness_def Let_def
  by (intro presS_if presS_simps Witness_keeps_handshake presS_modifyS) (auto simp: Witness_ok_def)

lemma Witness_keeps_startConcilium [simp]: "Witness_keeps K (Witness_startConcilium L d)"
  unfolding Witness_startConcilium_def by (intro presS_intros presS_simps Witness_keeps_connect)

lemma Witness_keeps_getConciliums [simp]: "Witness_keeps K (Witness_getConciliums L)"
  by (simp add: Witness_getConciliums_def)

lemma Witness_keeps_start [simp]: "Witness_keeps K (Witness_start K)"
  unfolding Witness_start_def
  by (intro presS_intros presS_simps presS_modifyS Witness_keeps_create Witness_keeps_startConcilium
      Witness_keeps_getConciliums Witness_keeps_node) (simp_all add: Witness_ok_def)

lemma Witness_keeps_bootstrap: "Witness_keeps K (Witness_bootstrap K)"
  unfolding Witness_bootstrap_def
  by (intro presS_intros presS_simps presS_modifyS Witness_keeps_create Witness_keeps_getConciliums)
    (simp add: Witness_createPseudoRandomSeed_def Let_def Witness_ok_seed)

lemma Witness_keeps_restart: "Witness_keeps K (Witness_restart K)"
  unfolding Witness_restart_def
  by (intro presS_intros presS_simps presS_modifyS Witness_keeps_start) (simp add: Witness_ok_def)

lemma Witness_keeps_store: "Witness_keeps K (Witness_storeWitness L k cid)"
  unfolding Witness_storeWitness_def
  by (intro presS_intros presS_modifyS Witness_keeps_node) (auto simp: Witness_ok_def split: option.split prod.split)

lemma Witness_keeps_pair: "(\<And>x y. presS P (f x y)) \<Longrightarrow> presS P (case z of (x, y) \<Rightarrow> f x y)"
  by (cases z) simp

lemma Witness_keeps_check: "Witness_keeps K (Witness_checkPeerAndMessage L k m)"
  unfolding Witness_checkPeerAndMessage_def
  by (cases m) (auto intro!: presS_bindS Witness_keeps_pair)

lemma Witness_keeps_handshakeMessage: "Witness_keeps K (Witness_processHandshakeMessage L k cid)"
  unfolding Witness_processHandshakeMessage_def Witness_peerAddress_def
  by (intro presS_intros presS_simps Witness_keeps_node Witness_keeps_push Witness_keeps_store)

lemma Witness_keeps_blockMessage: "Witness_keeps K (Witness_processBlockMessage K cid a blk)"
proof -
  have "Witness_keeps K (Witness_consensus K cid (Bft_processValidBlock (Witness_bftEnv K) b p))"
    "Witness_keeps K (Witness_consensus K cid Bft_invalidBlock)" for b p
    by (rule Witness_keeps_consensus, rule Witness_bftSteps)+
  then show ?thesis
    unfolding Witness_processBlockMessage_def
    by (cases blk) (auto intro!: presS_intros Witness_keeps_pair split: js_error.split)
qed

lemma Witness_keeps_incoming: "Witness_keeps K (Witness_incomingWitnessMessage K k m)"
  unfolding Witness_incomingWitnessMessage_def
  by (auto intro!: presS_intros Witness_keeps_pair Witness_keeps_check Witness_keeps_handshakeMessage
      Witness_keeps_blockMessage Witness_keeps_consensus [OF Witness_bftStep_process] Witness_keeps_message
      split: witness_message.split witness_msg.split)

lemma Witness_keeps_task: "Witness_keeps K (Witness_task K t)"
proof (cases t)
  case (CreateBlock cid)
  have "Witness_keeps K (Witness_broadcastBlock K cid b)" for b
    unfolding Witness_broadcastBlock_def by (intro presS_intros presS_simps Witness_keeps_broadcast)
  then show ?thesis
    unfolding CreateBlock Witness_task.simps Witness_createBlockHandler_def
    by (intro presS_intros presS_simps Witness_keeps_pair Witness_keeps_node
        Witness_keeps_consensus [OF Witness_bftSteps(2)])
next
  case Restart
  then show ?thesis by (simp add: Witness_keeps_restart)
qed (simp_all add: Witness_commitBlockHandler_def presS_catchS)

text \<open>
  The states of a witness: it starts without consensuses and tasks, then messages of peers, timers,
  the pending tasks in any order and the methods of the node follow. Each step has its own clock,
  random choices, locks and sizes: it is taken with a setup \<open>L\<close> that shares with \<open>K\<close> the wallet and what
  the consensus computes with.
\<close>

definition Witness_sameSetup ::
    "('g, 'm, 'd, 'r, 'a) witness_cfg \<Rightarrow> ('g, 'm, 'd, 'r, 'a) witness_cfg \<Rightarrow> bool" where
  "Witness_sameSetup K L \<longleftrightarrow> wc_wallet L = wc_wallet K \<and> (\<exists>n. Witness_bftEnv L = (Witness_bftEnv K)\<lparr>be_now := n\<rparr>)"

lemma Witness_sameSetup_refl [simp]: "Witness_sameSetup K K"
  by (auto simp: Witness_sameSetup_def bft_env_now intro: exI [of _ "be_now (Witness_bftEnv K)"])

lemma Witness_ok_same: "Witness_sameSetup K L \<Longrightarrow> Witness_ok L w = Witness_ok K w"
  by (auto simp: Witness_sameSetup_def Witness_ok_def Witness_commitOk_def Witness_consensusOk_def bft_reach_clock)

lemma Witness_keeps_same: "Witness_sameSetup K L \<Longrightarrow> Witness_keeps L m \<Longrightarrow> Witness_keeps K m"
  by (simp add: presS_def Witness_ok_same)

inductive witness_reach :: "('g, 'm, 'd, 'r, 'a) witness_cfg \<Rightarrow> ('g, 'm, 'd) witness \<Rightarrow> bool" for K where
  wr_new: "wt_consensuses w = [] \<Longrightarrow> wt_tasks w = [] \<Longrightarrow> witness_reach K w"
| wr_index: "witness_reach K w \<Longrightarrow> Witness_sameSetup K L \<Longrightarrow> witness_reach K (snd (Witness_ensureWalletIndex L w))"
| wr_bootstrap: "witness_reach K w \<Longrightarrow> Witness_sameSetup K L \<Longrightarrow> witness_reach K (snd (Witness_bootstrap L w))"
| wr_start: "witness_reach K w \<Longrightarrow> Witness_sameSetup K L \<Longrightarrow> witness_reach K (snd (Witness_start L w))"
| wr_message: "witness_reach K w \<Longrightarrow> Witness_sameSetup K L \<Longrightarrow>
    witness_reach K (snd (Witness_incomingWitnessMessage L k m w))"
| wr_timer: "witness_reach K w \<Longrightarrow> Witness_sameSetup K L \<Longrightarrow> witness_reach K (snd (Witness_timer L cid w))"
| wr_task: "witness_reach K w \<Longrightarrow> Witness_sameSetup K L \<Longrightarrow> t \<in> set (wt_tasks w) \<Longrightarrow>
    witness_reach K (snd (Witness_task L t (w\<lparr>wt_tasks := remove1 t (wt_tasks w)\<rparr>)))"
| wr_node: "witness_reach K w \<Longrightarrow> witness_reach K (snd (Witness_onNode (f :: (unit, ('g, 'm, 'd) node) act) w))"

lemma witness_reach_ok: "witness_reach K w \<Longrightarrow> Witness_ok K w"
proof (induction rule: witness_reach.induct)
  case (wr_new w)
  then show ?case by (simp add: Witness_ok_def)
next
  case (wr_task w L t)
  have "Witness_ok K (w\<lparr>wt_tasks := remove1 t (wt_tasks w)\<rparr>)"
    using wr_task.IH set_remove1_subset [of t "wt_tasks w"] by (auto simp: Witness_ok_def)
  then show ?case by (rule presSD [OF Witness_keeps_same [OF wr_task.hyps(2) Witness_keeps_task]])
next
  case (wr_index w L)
  then show ?case by (simp add: Witness_ensureWalletIndex_def presSD)
next
  case (wr_bootstrap w L)
  from this(3) show ?case by (rule presSD [OF Witness_keeps_same [OF wr_bootstrap(2) Witness_keeps_bootstrap]])
next
  case (wr_start w L)
  from this(3) show ?case by (rule presSD [OF Witness_keeps_same [OF wr_start(2) Witness_keeps_start]])
next
  case (wr_message w L k m)
  from this(3) show ?case by (rule presSD [OF Witness_keeps_same [OF wr_message(2) Witness_keeps_incoming]])
next
  case (wr_timer w L cid)
  from this(3) show ?case by (rule presSD [OF Witness_keeps_same [OF wr_timer(2) Witness_keeps_timer]])
qed (simp add: presSD [OF Witness_keeps_node])

lemma Witness_commit_certified:
  assumes "Witness_ok K w" and "CommitBlock cid b p \<in> set (wt_tasks w)"
  shows "\<exists>d h. Concilium_getConciliumId d = cid \<and> Bft_blockHash (Witness_bftEnv K) b = Inr h \<and>
    Bft_certified (Witness_bftEnv K) d (wc_sort K (Concilium_getAddresses d)) h (bl_signatures b)"
proof -
  obtain d c where "Concilium_getConciliumId d = cid" and r: "bft_reach (Witness_bftEnv K) d (wc_address K) c"
    and e: "EmitCommitBlock b p \<in> set (bf_emitted c)"
    using assms unfolding Witness_ok_def Witness_commitOk_def Witness_consensusOk_def by blast
  with Bft_inv_reach [OF r] show ?thesis
    by (fastforce simp: Bft_inv_def Bft_commits_def Witness_bftEnv_def)
qed

end
