(* ===== verification/Cil_Producer_Laws.thy ===== *)
theory Cil_Producer_Laws
  imports Cil_Witness_Laws Cil_Node_Laws
begin

text \<open>
  What \<open>_createBlock\<close> of \<open>witness.js\<close> computes: with the definitions of the conciliums in memory a plain
  transaction leaves the node as it is and does not see which block is being processed, so that the
  patch of a block under construction is the one its execution gives.
\<close>

section \<open>Plain transactions\<close>

lemma Storage_definitions_cached:
  "sg_arrConciliumDefinition s = Some (c # cs) \<Longrightarrow> snd (Storage_getConciliumById S ld i s) = s"
  by (simp add: Storage_getConciliumById_def Storage_ensureArrConciliumDefinition_def bindS_def returnS_def throwS_def)

lemma Node_sizeFee_cached:
  "sg_arrConciliumDefinition s = Some (c # cs) \<Longrightarrow> \<exists>r. Node_calculateSizeFee E t False s = (r, s)"
  using Storage_definitions_cached [of s c cs "ne_serializers E" "ne_loadConciliums E" "Transaction_conciliumId t"]
  by (auto simp: Node_calculateSizeFee_def Node_conciliumFee_def bindS_def returnS_def split: prod.splits sum.splits)

text \<open>The block that is being processed is only seen by contracts.\<close>

lemma Node_env_block:
  "Node_findContract (E\<lparr>ne_processedBlock := x\<rparr>) = Node_findContract E"
  "Node_calculateSizeFee (E\<lparr>ne_processedBlock := x\<rparr>) = Node_calculateSizeFee E"
  by (simp_all add: fun_eq_iff Node_findContract_def Node_calculateSizeFee_def Node_conciliumFee_def
      cong del: if_weak_cong)

lemma Node_plain_run:
  assumes plain: "Node_plainTx s q t" and cached: "sg_arrConciliumDefinition s = Some (c # cs)"
  shows "Node_processTx depth (E\<lparr>ne_processedBlock := x\<rparr>) (Some q) False t s =
    (fst (Node_processTx depth E (Some q) False t s), s)"
proof -
  obtain r where fee: "Node_calculateSizeFee E t False s = (r, s)" using Node_sizeFee_cached [OF cached] by blast
  have find: "Node_findContract E t (Some q) s = Inr (b, k) \<Longrightarrow> \<not> b" for b k by (rule Node_plainTx_find [OF plain])
  show ?thesis
    unfolding Node_processTx_def Node_env_block
    by (auto simp: bindS_def liftS_def returnS_def fee Let_def dest!: find split: sum.splits prod.splits)
qed

lemma Node_plain_runTx:
  assumes "Node_plainTx (nd_storage n) q t" and "sg_arrConciliumDefinition (nd_storage n) = Some (c # cs)"
  shows "Node_runTx K (Some q) False t n = (fst (Node_processTx (nc_depth K) (nc_env K) (Some q) False t (nd_storage n)), n)"
  by (simp add: Node_runTx_def onStorage_def zoomS_def Node_envNow_def Node_plain_run [OF assms])

section \<open>The transactions of a block under construction\<close>

lemma building_same: "s\<lparr>bg_node := bg_node s\<rparr> = s"
  by (cases s) simp

lemma Witness_tryTx_plain:
  assumes "Node_plainTx (nd_storage (bg_node s)) q t"
    and "sg_arrConciliumDefinition (nd_storage (bg_node s)) = Some (c # cs)"
    and "bg_patchMerged s = Some q" and "\<not> bl_final (bg_block s)"
  shows "Witness_tryTx K i t s =
    (case fst (Node_processTx (nc_depth (wc_node K)) (nc_env (wc_node K)) (Some q) False t (nd_storage (bg_node s))) of
       Inl e \<Rightarrow> (Inl e, s)
     | Inr (fee, p) \<Rightarrow>
         (case PatchDB_merge (nc_serializers (wc_node K)) True q p of
            Inl e \<Rightarrow> (Inl e, s\<lparr>bg_totalFee := bg_totalFee s + fee\<rparr>)
          | Inr q' \<Rightarrow> (Inr (wc_elapsed K i > BLOCK_CREATION_TIME_LIMIT),
              s\<lparr>bg_totalFee := bg_totalFee s + fee, bg_patchMerged := Some q',
                bg_block := (bg_block s)\<lparr>bl_hashCache := None, bl_txns := bl_txns (bg_block s) @ [t]\<rparr>\<rparr>)))"
  using assms(3,4)
  by (simp add: Witness_tryTx_def onBuilding_def zoomS_def Node_plain_runTx [OF assms(1,2)] building_same bindS_def getsS_def
      modifyS_def liftS_def returnS_def updR_def Witness_setPatch_def Block_addTx_def split: sum.split prod.split)

text \<open>
  What becomes of the transactions a block is built from: those with too many inputs are passed over,
  those whose execution throws are dropped; the others are listed with their fee and whether their
  patch merged into the block's, and once the time is over nothing more is tried.
\<close>

fun Witness_tried ::
    "('g, 'm, 'd, 'r, 'a) witness_cfg \<Rightarrow> 'd storage \<Rightarrow> nat \<Rightarrow> tx list \<Rightarrow> 'd patch \<Rightarrow> (tx \<times> int \<times> bool) list" where
  "Witness_tried K st i [] q = []"
| "Witness_tried K st i (t # ts) q =
     (if length (Transaction_inputs t) > MAX_UTXO_PER_TX then Witness_tried K st (Suc i) ts q
      else case fst (Node_processTx (nc_depth (wc_node K)) (nc_env (wc_node K)) (Some q) False t st) of
             Inl _ \<Rightarrow> Witness_tried K st (Suc i) ts q
           | Inr (fee, p) \<Rightarrow>
               (case PatchDB_merge (nc_serializers (wc_node K)) True q p of
                  Inl _ \<Rightarrow> (t, fee, False) # Witness_tried K st (Suc i) ts q
                | Inr q' \<Rightarrow> (t, fee, True) #
                    (if wc_elapsed K i > BLOCK_CREATION_TIME_LIMIT then [] else Witness_tried K st (Suc i) ts q')))"

definition Witness_kept :: "(tx \<times> int \<times> bool) list \<Rightarrow> (tx \<times> int) list" where
  "Witness_kept L = map (\<lambda>(t, fee, _). (t, fee)) (filter (\<lambda>(_, _, kept). kept) L)"

definition Witness_leftOut :: "(tx \<times> int \<times> bool) list \<Rightarrow> (tx \<times> int) list" where
  "Witness_leftOut L = map (\<lambda>(t, fee, _). (t, fee)) (filter (\<lambda>(_, _, kept). \<not> kept) L)"

definition Witness_fees :: "(tx \<times> int) list \<Rightarrow> int" where
  "Witness_fees xs = sum_list (map snd xs)"

lemma Witness_tried_simps [simp]:
  "Witness_kept [] = []" "Witness_leftOut [] = []" "Witness_fees [] = 0"
  "Witness_kept ((t, fee, True) # L) = (t, fee) # Witness_kept L" "Witness_kept ((t, fee, False) # L) = Witness_kept L"
  "Witness_leftOut ((t, fee, True) # L) = Witness_leftOut L" "Witness_leftOut ((t, fee, False) # L) = (t, fee) # Witness_leftOut L"
  "Witness_fees ((t, fee) # xs) = fee + Witness_fees xs"
  by (simp_all add: Witness_kept_def Witness_leftOut_def Witness_fees_def)

text \<open>
  The block gets the transactions that were kept; executed again in any state with the same store they
  give the patch that was built and the fees of the kept ones. The fees counted are those of the left
  out ones, too.
\<close>

definition Witness_included ::
    "('g, 'm, 'd, 'r, 'a) witness_cfg \<Rightarrow> nat \<Rightarrow> (tx \<times> int \<times> bool) list \<Rightarrow> 'd patch \<Rightarrow> ('g, 'm, 'd) building \<Rightarrow>
     ('g, 'm, 'd) building \<Rightarrow> bool"
where
  "Witness_included K cid L q s s' \<longleftrightarrow>
     (\<exists>q'. bg_node s' = bg_node s \<and> bg_patchMerged s' = Some q' \<and>
        bl_txns (bg_block s') = bl_txns (bg_block s) @ map fst (Witness_kept L) \<and>
        bl_header (bg_block s') = bl_header (bg_block s) \<and> bl_final (bg_block s') = bl_final (bg_block s) \<and>
        bg_totalFee s' = bg_totalFee s + Witness_fees (Witness_kept L) + Witness_fees (Witness_leftOut L) \<and>
        (\<forall>b m a. Block_getConciliumId b = cid \<longrightarrow> nd_storage m = nd_storage (bg_node s) \<longrightarrow>
           foldS (Node_execTx (wc_node K) b False) (map fst (Witness_kept L)) (a, q) m =
             (Inr (a + Witness_fees (Witness_kept L), q'), m)))"

lemma Witness_included_none:
  "bg_node s' = bg_node s \<Longrightarrow> bg_patchMerged s' = Some q \<Longrightarrow> bg_block s' = bg_block s \<Longrightarrow>
   bg_totalFee s' = bg_totalFee s \<Longrightarrow> Witness_included K cid [] q s s'"
  unfolding Witness_included_def by (intro exI [of _ q]) (simp add: returnS_def)

lemma Witness_included_one:
  assumes r: "fst (Node_processTx (nc_depth (wc_node K)) (nc_env (wc_node K)) (Some q) False t (nd_storage (bg_node s))) =
      Inr (fee, p)"
    and m: "PatchDB_merge (nc_serializers (wc_node K)) True q p = Inr q1"
    and t: "Node_plainTx (nd_storage (bg_node s)) q t" "Transaction_conciliumId t = cid"
    and c: "sg_arrConciliumDefinition (nd_storage (bg_node s)) = Some (d # ds)"
    and s1: "bg_node s1 = bg_node s" "bl_txns (bg_block s1) = bl_txns (bg_block s) @ [t]"
      "bl_header (bg_block s1) = bl_header (bg_block s)" "bl_final (bg_block s1) = bl_final (bg_block s)"
      "bg_totalFee s1 = bg_totalFee s + fee"
    and inc: "Witness_included K cid L q1 s1 s'"
  shows "Witness_included K cid ((t, fee, True) # L) q s s'"
proof -
  let ?us = "map fst (Witness_kept L)" and ?fees = "Witness_fees (Witness_kept L)"
  from inc obtain q' where us: "bg_node s' = bg_node s1" "bg_patchMerged s' = Some q'"
    "bl_txns (bg_block s') = bl_txns (bg_block s1) @ ?us" "bl_header (bg_block s') = bl_header (bg_block s1)"
    "bl_final (bg_block s') = bl_final (bg_block s1)" "bg_totalFee s' = bg_totalFee s1 + ?fees + Witness_fees (Witness_leftOut L)"
    "\<forall>b m a. Block_getConciliumId b = cid \<longrightarrow> nd_storage m = nd_storage (bg_node s1) \<longrightarrow>
       foldS (Node_execTx (wc_node K) b False) ?us (a, q1) m = (Inr (a + ?fees, q'), m)"
    unfolding Witness_included_def by blast
  have one: "Node_execTx (wc_node K) b False t (a, q) n = (Inr (a + fee, q1), n)"
    if "Block_getConciliumId b = cid" "nd_storage n = nd_storage (bg_node s)" for b n a
    using that t r m c by (simp add: Node_execTx_def Node_plain_runTx bindS_def liftS_def returnS_def assertR_def)
  have run: "foldS (Node_execTx (wc_node K) b False) (t # ?us) (a, q) n = (Inr (a + (fee + ?fees), q'), n)"
    if "Block_getConciliumId b = cid" "nd_storage n = nd_storage (bg_node s)" for b n a
    using us(7) one [OF that] that s1(1) by (simp add: bindS_def add.assoc)
  show ?thesis
    unfolding Witness_included_def Witness_tried_simps list.map fst_conv
    using us(1-6) s1 run by (intro exI [of _ q']) simp
qed

lemma Witness_included_left:
  assumes "Witness_included K cid L q s1 s'" and "bg_node s1 = bg_node s" and "bg_block s1 = bg_block s"
    and "bg_totalFee s1 = bg_totalFee s + fee"
  shows "Witness_included K cid ((t, fee, False) # L) q s s'"
  using assms(1) unfolding Witness_included_def assms(2-4) Witness_tried_simps
  by (elim exE conjE, intro exI conjI) (assumption | simp only: ac_simps)+

lemma Witness_addTxns_plain:
  assumes "Witness_addTxns K i ts s = (r, s')"
    and "\<forall>t\<in>set ts. Node_plainTx (nd_storage (bg_node s)) q t \<and> Transaction_conciliumId t = cid"
    and "sg_arrConciliumDefinition (nd_storage (bg_node s)) = Some (c # cs)"
    and "bg_patchMerged s = Some q" and "\<not> bl_final (bg_block s)"
    and "Storage_wf (nd_storage (bg_node s))" and "PatchDB_wf q"
  shows "Witness_included K cid (Witness_tried K (nd_storage (bg_node s)) i ts q) q s s'"
  using assms
proof (induction ts arbitrary: i s q)
  case Nil
  then show ?case by (auto simp: returnS_def intro: Witness_included_none)
next
  case (Cons t ts)
  let ?st = "nd_storage (bg_node s)"
  let ?run = "fst (Node_processTx (nc_depth (wc_node K)) (nc_env (wc_node K)) (Some q) False t ?st)"
  have t: "Node_plainTx ?st q t" "Transaction_conciliumId t = cid" using Cons.prems(2) by simp_all
  note step = Witness_tryTx_plain [OF t(1) Cons.prems(3-5), of K i]
  show ?case
  proof (cases "length (Transaction_inputs t) > MAX_UTXO_PER_TX")
    case True
    then show ?thesis using Cons.prems Cons.IH [of "Suc i" s q] by simp
  next
    case False
    let ?bad = "\<lambda>x. x\<lparr>bg_arrBadHashes := bg_arrBadHashes x @ [Transaction_getHash (nc_crypto (wc_node K)) t]\<rparr>"
    have drop: "Witness_addTxns K (Suc i) ts (?bad s1) = (r, s')" if "Witness_tryTx K i t s = (Inl e, s1)" for e s1
      using Cons.prems(1) False that by (simp add: bindS_def catchS_def modifyS_def returnS_def)
    show ?thesis
    proof (cases ?run)
      case (Inl e)
      with step have "Witness_tryTx K i t s = (Inl e, s)" by simp
      from Cons.IH [OF drop [OF this], of q] Cons.prems
      have "Witness_included K cid (Witness_tried K ?st (Suc i) ts q) q (?bad s) s'" by simp
      with False Inl show ?thesis by (simp add: Witness_included_def)
    next
      case (Inr fp)
      then obtain fee p where p: "?run = Inr (fee, p)" by (cases fp) simp
      show ?thesis
      proof (cases "PatchDB_merge (nc_serializers (wc_node K)) True q p")
        case (Inl e)
        let ?s1 = "s\<lparr>bg_totalFee := bg_totalFee s + fee\<rparr>"
        from step p Inl have "Witness_tryTx K i t s = (Inl e, ?s1)" by simp
        from Cons.IH [OF drop [OF this], of q] Cons.prems
        have "Witness_included K cid (Witness_tried K ?st (Suc i) ts q) q (?bad ?s1) s'" by simp
        from Witness_included_left [OF this, of s fee t] False p Inl show ?thesis by simp
      next
        case (Inr q1)
        let ?s1 = "s\<lparr>bg_totalFee := bg_totalFee s + fee, bg_patchMerged := Some q1,
            bg_block := (bg_block s)\<lparr>bl_hashCache := None, bl_txns := bl_txns (bg_block s) @ [t]\<rparr>\<rparr>"
        let ?stop = "wc_elapsed K i > BLOCK_CREATION_TIME_LIMIT"
        let ?L = "if ?stop then [] else Witness_tried K ?st (Suc i) ts q1"
        have step1: "Witness_tryTx K i t s = (Inr ?stop, ?s1)" using step p Inr by simp
        obtain u where "Node_processTx (nc_depth (wc_node K)) (nc_env (wc_node K)) (Some q) False t ?st = (Inr (fee, p), u)"
          using p by (metis prod.collapse)
        note P = Node_plain_patch(1,2) [OF Cons.prems(6,7) t(1) this]
        note M = PatchDB_merge_plain [OF Inr Cons.prems(7) P]
        have inc: "Witness_included K cid ?L q1 ?s1 s'"
        proof (cases ?stop)
          case True
          with Cons.prems(1) False step1 have "s' = ?s1" by (simp add: bindS_def catchS_def returnS_def)
          then show ?thesis using True by (simp add: Witness_included_none)
        next
          case go: False
          with Cons.prems(1) False step1 have "Witness_addTxns K (Suc i) ts ?s1 = (r, s')"
            by (simp add: bindS_def catchS_def returnS_def)
          moreover have "\<forall>t\<in>set ts. Node_plainTx ?st q1 t \<and> Transaction_conciliumId t = cid"
            using Cons.prems(2) M(2) by (simp add: Node_plainTx_def)
          ultimately show ?thesis using Cons.IH [of "Suc i" ?s1 q1] Cons.prems M(1) go by simp
        qed
        have "Witness_tried K ?st i (t # ts) q = (t, fee, True) # ?L" using False p Inr by simp
        moreover have "Witness_included K cid ((t, fee, True) # ?L) q s s'"
          by (rule Witness_included_one [OF p Inr t Cons.prems(3) _ _ _ _ _ inc]) simp_all
        ultimately show ?thesis by simp
      qed
    qed
  qed
qed

section \<open>The joining transaction\<close>

text \<open>The unspent outputs of the UTXOs in their order, with their amounts.\<close>

definition Witness_spendable :: "utxo list \<Rightarrow> (hash \<times> int \<times> int) list" where
  "Witness_spendable us =
     concat (map (\<lambda>u. map (\<lambda>i. (utxo_txHash u, i, coins_amount (UTXO_at u i))) (utxo_arrIndexes u)) us)"

definition Witness_worth :: "(hash \<times> int \<times> int) list \<Rightarrow> int" where
  "Witness_worth xs = (\<Sum>(h, i, a)\<leftarrow>xs. a)"

definition Witness_withInputs :: "(hash \<times> int \<times> int) list \<Rightarrow> tx \<Rightarrow> tx" where
  "Witness_withInputs xs t = t\<lparr>tx_payload := (tx_payload t)
     \<lparr>pl_ins := pl_ins (tx_payload t) @ map (\<lambda>(h, i, a). \<lparr>in_txHash = h, in_nTxOutput = i\<rparr>) xs\<rparr>\<rparr>"

lemma Witness_withInputs_simps [simp]:
  "Witness_withInputs [] t = t" "Witness_withInputs ys (Witness_withInputs xs t) = Witness_withInputs (xs @ ys) t"
  "Transaction_checkDone (Witness_withInputs xs t) = Transaction_checkDone t"
  by (simp_all add: Witness_withInputs_def Transaction_checkDone_def Transaction_getTxSignature_def)

lemma Witness_worth_append [simp]: "Witness_worth (xs @ ys) = Witness_worth xs + Witness_worth ys"
  by (simp add: Witness_worth_def)

lemma Witness_spendable_Cons: "Witness_spendable (u # us) = Witness_spendable [u] @ Witness_spendable us"
  by (simp add: Witness_spendable_def)

lemma UTXO_amountOut_worth:
  assumes "UTXO_wf u"
  shows "UTXO_amountOut u = Inr (Witness_worth (Witness_spendable [u]))"
proof -
  have "distinct (utxo_arrIndexes u)" "dom (UTXO_abs u) = set (utxo_arrIndexes u)"
    using assms dom_UTXO_abs by (simp_all add: UTXO_wf_def)
  then show ?thesis
    by (simp add: UTXO_amountOut_sum [OF assms] Witness_worth_def Witness_spendable_def comp_def sum_list_distinct_conv_sum_set)
qed

lemma Witness_joinInputs_Inr:
  assumes "Witness_joinInputs n h idxs (k, t) = Inr (k', t')" and "k < n"
  shows "k' = k + length (take (n - k) idxs) \<and> t' = Witness_withInputs (map (\<lambda>i. (h, i, f i)) (take (n - k) idxs)) t"
  using assms
proof (induction n h idxs "(k, t)" arbitrary: k t rule: Witness_joinInputs.induct)
  case (2 n h idx idxs k t)
  from 2(2) obtain t1 where t1: "Transaction_addInput h idx t = Inr t1" "t1 = Witness_withInputs [(h, idx, f idx)] t"
    by (auto simp: Transaction_addInput_def Witness_withInputs_def)
  obtain j where j: "n - k = Suc j" "n - Suc k = j" using 2(3) by (metis Suc_diff_Suc)
  show ?case
  proof (cases "Suc k \<ge> n")
    case True
    with j have "j = 0" by simp
    with 2(2) t1 True j show ?thesis by simp
  next
    case False
    with 2(1) [OF t1(1) False] 2(2) t1 j show ?thesis by simp
  qed
qed simp

lemma Witness_joinUtxos_Inr:
  assumes "Witness_joinUtxos n us (tot, k, t) = Inr (tot', k', t')" and "k < n" and "\<forall>u\<in>set us. UTXO_wf u"
  shows "\<exists>pre rest. us = pre @ rest \<and> (rest = [] \<or> n - k \<le> length (Witness_spendable pre)) \<and>
    k' = k + length (take (n - k) (Witness_spendable pre)) \<and>
    t' = Witness_withInputs (take (n - k) (Witness_spendable pre)) t \<and>
    tot' = tot + Witness_worth (Witness_spendable pre)"
  using assms
proof (induction us arbitrary: tot k t)
  case Nil
  then show ?case by (simp add: Witness_spendable_def Witness_worth_def)
next
  case (Cons u us)
  let ?one = "Witness_spendable [u]" let ?h = "utxo_txHash u"
  have one: "?one = map (\<lambda>i. (?h, i, coins_amount (UTXO_at u i))) (utxo_arrIndexes u)"
    by (simp add: Witness_spendable_def)
  have wf: "UTXO_wf u" using Cons.prems(3) by simp
  from Cons.prems(1) obtain k1 t1 where
    j: "Witness_joinInputs n ?h (utxo_arrIndexes u) (k, t) = Inr (k1, t1)"
    and r: "(if k1 \<ge> n then Inr (tot + Witness_worth ?one, k1, t1)
       else Witness_joinUtxos n us (tot + Witness_worth ?one, k1, t1)) = Inr (tot', k', t')"
    by (auto simp: UTXO_amountOut_worth [OF wf] UTXO_getTxHash_def UTXO_getIndexes_def)
  from Witness_joinInputs_Inr [OF j Cons.prems(2), where f = "\<lambda>i. coins_amount (UTXO_at u i)"]
  have k1: "k1 = k + length (take (n - k) ?one)" "t1 = Witness_withInputs (take (n - k) ?one) t"
    by (simp_all add: one take_map)
  show ?case
  proof (cases "k1 \<ge> n")
    case True
    with r have e: "tot' = tot + Witness_worth ?one" "k' = k1" "t' = t1" by simp_all
    have "n - k \<le> length ?one" using True k1(1) Cons.prems(2) by (auto simp: min_def split: if_splits)
    with k1 e show ?thesis by (intro exI [of _ "[u]"] exI [of _ us]) simp
  next
    case False
    then have short: "length ?one < n - k" "take (n - k) ?one = ?one" "k1 = k + length ?one"
      using k1(1) Cons.prems(2) by auto
    from r False have "Witness_joinUtxos n us (tot + Witness_worth ?one, k1, t1) = Inr (tot', k', t')" by simp
    from Cons.IH [OF this] False Cons.prems(3) obtain pre rest where
      p: "us = pre @ rest" "rest = [] \<or> n - k1 \<le> length (Witness_spendable pre)"
      "k' = k1 + length (take (n - k1) (Witness_spendable pre))"
      "t' = Witness_withInputs (take (n - k1) (Witness_spendable pre)) t1"
      "tot' = tot + Witness_worth ?one + Witness_worth (Witness_spendable pre)" by auto
    have sp: "Witness_spendable (u # pre) = ?one @ Witness_spendable pre" by (rule Witness_spendable_Cons)
    show ?thesis
      using p k1 short by (intro exI [of _ "u # pre"] exI [of _ rest]) (auto simp: sp)
  qed
qed

lemma Transaction_claims_payload:
  "foldR (\<lambda>i. Transaction_claim C i key) is t = Inr t' \<Longrightarrow> tx_payload t' = tx_payload t"
  by (induction "is" arbitrary: t) (auto simp: Transaction_claim_def split: if_splits)

lemma Witness_createJoinTx_Inr:
  assumes "Witness_createJoinTx K us cid n = Inr t" and "0 < n" and "\<forall>u\<in>set us. UTXO_wf u"
  shows "\<exists>pre rest. us = pre @ rest \<and> (rest = [] \<or> n \<le> length (Witness_spendable pre)) \<and>
    Transaction_inputs t = map (\<lambda>(h, i, a). \<lparr>in_txHash = h, in_nTxOutput = i\<rparr>) (take n (Witness_spendable pre)) \<and>
    Transaction_outputs t = [plainOutput (Witness_worth (Witness_spendable pre) - 480 * (1 + int (length (Transaction_inputs t))))
      (wc_address K)] \<and> Transaction_conciliumId t = cid"
proof -
  let ?t0 = "Transaction_setConciliumId cid Transaction_new"
  from assms(1) obtain tot k t1 t2 where
    j: "Witness_joinUtxos n us (0, 0, ?t0) = Inr (tot, k, t1)"
    and a: "Transaction_addReceiver (tot - (1 + int k) * 480) (wc_address K) t1 = Inr t2"
    and s: "(if length (Transaction_inputs t2) > 1
        then Inr (Transaction_signForContract (nc_crypto (wc_node K)) (wa_privateKey (wc_wallet K)) t2)
        else foldR (\<lambda>i. Transaction_claim (nc_crypto (wc_node K)) i (wa_privateKey (wc_wallet K)))
               [0..<length (Transaction_inputs t2)] t2) = Inr t"
    by (auto simp: Witness_createJoinTx_def Let_def)
  from Witness_joinUtxos_Inr [OF j assms(2,3)] obtain pre rest where
    p: "us = pre @ rest" "rest = [] \<or> n \<le> length (Witness_spendable pre)" "k = length (take n (Witness_spendable pre))"
    "t1 = Witness_withInputs (take n (Witness_spendable pre)) ?t0" "tot = Witness_worth (Witness_spendable pre)" by auto
  have "tx_payload t = tx_payload t2"
    using s Transaction_claims_payload by (auto simp: Transaction_signForContract_def split: if_splits)
  moreover have "t2 = Transaction_pushOutput (plainOutput (tot - (1 + int k) * 480) (wc_address K)) t1"
    using a by (auto simp: Transaction_addReceiver_def)
  ultimately show ?thesis
    using p by (intro exI [of _ pre] exI [of _ rest])
      (simp add: Transaction_inputs_def Transaction_outputs_def Transaction_conciliumId_def Transaction_pushOutput_def
        Witness_withInputs_def Transaction_setConciliumId_def Transaction_new_def algebra_simps)
qed

text \<open>Whatever it spends, it pays to the wallet and belongs to the concilium.\<close>

lemma Witness_joinInputs_keeps:
  "Witness_joinInputs n h idxs (k, t) = Inr (k', t') \<Longrightarrow>
   Transaction_outputs t' = Transaction_outputs t \<and> Transaction_conciliumId t' = Transaction_conciliumId t"
  by (induction n h idxs "(k, t)" arbitrary: k t rule: Witness_joinInputs.induct)
    (auto simp: Transaction_addInput_def Transaction_outputs_def Transaction_conciliumId_def split: if_splits)

lemma Witness_joinUtxos_keeps:
  "Witness_joinUtxos n us (a, k, t) = Inr (a', k', t') \<Longrightarrow>
   Transaction_outputs t' = Transaction_outputs t \<and> Transaction_conciliumId t' = Transaction_conciliumId t"
  by (induction us arbitrary: a k t) (auto dest!: Witness_joinInputs_keeps split: if_splits)

lemma Witness_createJoinTx_receiver:
  assumes "Witness_createJoinTx K us cid n = Inr t"
  shows "Transaction_conciliumId t = cid \<and> (\<exists>a. Transaction_outputs t = [plainOutput a (wc_address K)])"
proof -
  from assms obtain a k t1 t2 where
    j: "Witness_joinUtxos n us (0, 0, Transaction_setConciliumId cid Transaction_new) = Inr (a, k, t1)"
    and r: "Transaction_addReceiver (a - (1 + int k) * 480) (wc_address K) t1 = Inr t2"
    and s: "(if length (Transaction_inputs t2) > 1
        then Inr (Transaction_signForContract (nc_crypto (wc_node K)) (wa_privateKey (wc_wallet K)) t2)
        else foldR (\<lambda>i. Transaction_claim (nc_crypto (wc_node K)) i (wa_privateKey (wc_wallet K)))
               [0..<length (Transaction_inputs t2)] t2) = Inr t"
    by (auto simp: Witness_createJoinTx_def Let_def)
  have "tx_payload t = tx_payload t2"
    using s Transaction_claims_payload by (auto simp: Transaction_signForContract_def split: if_splits)
  with r Witness_joinUtxos_keeps [OF j] show ?thesis
    by (auto simp: Transaction_addReceiver_def Transaction_pushOutput_def Transaction_outputs_def Transaction_conciliumId_def
        Transaction_setConciliumId_def Transaction_new_def)
qed

section \<open>What the block is built from\<close>

lemma Storage_walletListUnspent_main: "fs_main (snd (Storage_walletListUnspent a s)) = fs_main s"
proof -
  have w: "presS (\<lambda>x. fs_main x = fs_main s) (onWallet m)" for m :: "('x, wallet_db) act"
    by (rule presSI) (simp add: onWallet_def zoomS_def split: prod.split)
  have "presS (\<lambda>x. fs_main x = fs_main s) (Storage_walletListUnspent a)"
    unfolding Storage_walletListUnspent_def by (intro presS_bindS presS_simps Witness_keeps_pair w)
  then show ?thesis by (rule presSD) simp
qed

lemma Node_feePerInput_cached:
  "sg_arrConciliumDefinition (nd_storage n) = Some (c # cs) \<Longrightarrow> \<exists>r. Node_getFeeSizePerInput K i n = (r, n)"
  using Storage_definitions_cached [of "nd_storage n" c cs "nc_serializers K" "ne_loadConciliums (nc_env K)" i]
  by (auto simp: Node_getFeeSizePerInput_def onStorage_def zoomS_def bindS_def returnS_def Let_def split: prod.splits sum.splits)

lemma Witness_txToProcess_Inr:
  assumes "Witness_txToProcess K low cid s = (Inr ts, s')"
  shows "nd_storage (bg_node s') = nd_storage (bg_node s) \<and> bg_patchMerged s' = bg_patchMerged s \<and>
    bg_block s' = bg_block s \<and> bg_totalFee s' = bg_totalFee s \<and>
    (\<forall>t\<in>set ts. t \<in> set (fst (Mempool_getFinalTxns cid (nd_mempool (bg_node s)))) \<or>
       (\<exists>us n. Witness_createJoinTx K us cid n = Inr t))"
proof -
  from assms obtain us s1 join s2 final where
    u: "onBuilding (onFullStorage (wc_node K) (Storage_walletListUnspent (wc_address K))) s = (Inr us, s1)"
    and j: "(if wc_bCreateJoinTx K \<and> low = Some cid \<and> length us > WITNESS_UTXOS_JOIN
            then liftS (mapR (\<lambda>t. [t]) (Witness_createJoinTx K us cid (MAX_UTXO_PER_TX div 2)))
            else returnS []) s1 = (Inr join, s2)"
    and f: "onBuilding (onMempool (\<lambda>m. case Mempool_getFinalTxns cid m of (ts, m) \<Rightarrow> (Inr ts, m))) s2 = (Inr final, s')"
    and ts: "ts = join @ final"
    by (auto simp: Witness_txToProcess_def node_Inr)
  have s2: "s2 = s1" "\<forall>t\<in>set join. \<exists>us n. Witness_createJoinTx K us cid n = Inr t"
    using j by (auto simp: liftS_def returnS_def intro!: exI split: if_splits)
  let ?fs = "\<lparr>fs_main = nd_storage (bg_node s), fs_wallet = nd_wallet (bg_node s), fs_index = nd_txIndex (bg_node s),
      fs_setBlocksBad = nc_blocksBad (wc_node K)\<rparr>"
  obtain x where x: "Storage_walletListUnspent (wc_address K) ?fs = (Inr us, x)"
    and s1: "s1 = s\<lparr>bg_node := (bg_node s)\<lparr>nd_storage := fs_main x, nd_wallet := fs_wallet x, nd_txIndex := fs_index x\<rparr>\<rparr>"
    using u by (auto simp: onBuilding_def onFullStorage_def zoomS_Inr)
  have "fs_main x = nd_storage (bg_node s)" using Storage_walletListUnspent_main [of "wc_address K" ?fs] x by simp
  with s1 s2 f ts show ?thesis
    by (auto simp: onBuilding_def onMempool_def zoomS_def split: prod.splits)
qed

section \<open>A finished block\<close>

lemma Block_finish_coinbase:
  assumes "Block_finish C B now rnd fees rcv useful b = Inr b'"
  obtains cb where "bl_txns b' = cb # bl_txns b" and "\<And>n. Transaction_verifyCoinbase n cb = Inr () \<longleftrightarrow> n = fees"
    and "bl_final b'" and "\<not> bl_building b'" and "bl_hashCache b' = None"
    and "hd_merkleRoot (bl_header b') = bc_merkleRoot B (Block_getTxHashes C b')"
    and "Block_parentHashes b' = Block_parentHashes b" and "Block_getHeight b' = Block_getHeight b"
    and "Block_getConciliumId b' = Block_getConciliumId b"
proof -
  obtain cb where cb: "Block_finishCoinbase fees rcv useful rnd (Block_getConciliumId b) = Inr cb"
    and b': "bl_txns b' = cb # bl_txns b" "bl_final b'" "\<not> bl_building b'" "bl_hashCache b' = None"
      "hd_merkleRoot (bl_header b') = bc_merkleRoot B (Block_getTxHashes C b')"
      "Block_parentHashes b' = Block_parentHashes b" "Block_getHeight b' = Block_getHeight b"
      "Block_getConciliumId b' = Block_getConciliumId b"
    using Block_finish_Inr [OF assms] by blast
  note c = Block_finishCoinbase_Inr [OF cb]
  have "Transaction_verifyCoinbase n cb = Inr () \<longleftrightarrow> n = fees" for n
    using c(1,2) by (auto simp: openCoinbase_def Transaction_verifyCoinbase_def assertR_def)
  with b' show thesis by (intro that [of cb])
qed

lemma Witness_chooseParents_Inr:
  assumes "Witness_chooseParents K cid s = (Inr (), s')"
  obtains ps patch q0 h where
    "Pending_getBestParents (nc_pdag (wc_node K)) (nc_serializers (wc_node K)) (Some cid) (nd_pendingBlocks (bg_node s)) =
       Inr (ps, patch)"
    and "PatchDB_setConciliumId (Some cid) (case patch of Some p \<Rightarrow> p | None \<Rightarrow> PatchDB_empty) = Inr q0"
    and "ps \<noteq> []" and "Node_calcHeight (wc_node K) ps (bg_node s) = (Inr h, bg_node s)"
    and "s' = s\<lparr>bg_patchMerged := Some q0, bg_block := Block_setHeight h (Block_setParentHashes ps (bg_block s))\<rparr>"
proof -
  from assms obtain ps patch q0 h n where
    r: "Pending_getBestParents (nc_pdag (wc_node K)) (nc_serializers (wc_node K)) (Some cid) (nd_pendingBlocks (bg_node s)) =
       Inr (ps, patch)"
    "PatchDB_setConciliumId (Some cid) (case patch of Some p \<Rightarrow> p | None \<Rightarrow> PatchDB_empty) = Inr q0"
    "ps \<noteq> []" "Node_calcHeight (wc_node K) ps (bg_node s) = (Inr h, n)"
    "s' = s\<lparr>bg_patchMerged := Some q0, bg_node := n, bg_block := Block_setHeight h (Block_setParentHashes ps (bg_block s))\<rparr>"
    by (auto simp: Witness_chooseParents_def Witness_setPatch_def onBuilding_def node_Inr Let_def assertR_def split: if_splits)
  have "n = bg_node s" by (rule Node_calcHeight_spec(1) [OF r(4)])
  with r show thesis by (intro that [of ps patch q0 h]) simp_all
qed

lemma Witness_finishBlock_Inr:
  assumes "Witness_finishBlock K cid s = (Inr (), s')"
  obtains useful b n p where
    "Block_finish (nc_crypto (wc_node K)) (nc_block (wc_node K)) (nat (wc_now K div 1000)) (wc_random K)
       (bg_totalFee s) (wc_address K) useful (bg_block s) = Inr b"
    and "Node_processBlockCoinbaseTX (wc_node K) b (bg_totalFee s) (the (bg_patchMerged s)) n = (Inr p, bg_node s')"
    and "bg_block s' = b" and "bg_patchMerged s' = Some p" and "bg_totalFee s' = bg_totalFee s"
proof -
  from assms obtain bad s1 s2 useful b n p where
    1: "(if bad \<noteq> [] then onBuilding (onMempool (modifyS (Mempool_removeTxns (nc_codec (wc_node K)) bad)))
         else returnS ()) s = (Inr (), s1)"
    and 2: "onBuilding (Node_getFeeSizePerInput (wc_node K) cid) s1 = (Inr useful, s2)"
    and 3: "Block_finish (nc_crypto (wc_node K)) (nc_block (wc_node K)) (nat (wc_now K div 1000)) (wc_random K)
       (bg_totalFee s2) (wc_address K) useful (bg_block s2) = Inr b"
    and 4: "Node_processBlockCoinbaseTX (wc_node K) b (bg_totalFee s2) (the (bg_patchMerged s2)) (bg_node s2) = (Inr p, n)"
    and 5: "s' = s2\<lparr>bg_block := b, bg_node := n, bg_patchMerged := Some p\<rparr>"
    by (auto simp: Witness_finishBlock_def Witness_setPatch_def bindS_Inr updR_Inr getsS_Inr modifyS_Inr onBuilding_def zoomS_Inr)
  have s1: "bg_block s1 = bg_block s" "bg_totalFee s1 = bg_totalFee s" "bg_patchMerged s1 = bg_patchMerged s"
    using 1 by (auto simp: onBuilding_def onMempool_def node_Inr split: if_splits)
  have s2: "bg_block s2 = bg_block s" "bg_totalFee s2 = bg_totalFee s" "bg_patchMerged s2 = bg_patchMerged s"
    using 2 s1 by (auto simp: onBuilding_def zoomS_Inr)
  from 3 4 5 s2 show thesis by (intro that [of useful b "bg_node s2" p]) simp_all
qed

lemma Node_execBlock_run:
  assumes h: "Block_hash (nc_crypto K) (nc_block K) b = Inr (h, b')" "h \<noteq> GENESIS_BLOCK"
    and fresh: "fst (Node_isBlockExecuted K h m) = Inr False"
    and height: "Node_calcHeight K (Block_parentHashes b) m = (Inr (Block_getHeight b), m)"
    and q: "Pending_mergePatches (nc_pdag K) (nc_serializers K) (Block_parentHashes b) None (nd_pendingBlocks m) = Inr (q, r)"
    and q0: "PatchDB_setConciliumId (Some (Block_getConciliumId b)) q = Inr q0"
    and run: "foldS (Node_execTx K b' False) us (0, q0) m = (Inr (fees, q1), m)" and txns: "bl_txns b = cb # us"
  shows "Node_execBlock K b m = (mapR Some (bindR (Transaction_verifyCoinbase fees cb) (\<lambda>_.
      Node_coinbaseCoins (Transaction_getHash (nc_crypto K) cb) (Transaction_getOutCoins cb) q1)), m)"
proof -
  note B = Block_hash_same [OF h(1)]
  have h': "Block_hash (nc_crypto K) (nc_block K) b' = Inr (h, b')"
    using h by (auto simp: Block_hash_def Let_def split: option.splits if_splits)
  have hash: "Node_hash K b m = (Inr (h, b'), m)" "Node_hash K b' m = (Inr (h, b'), m)"
    by (simp_all add: Node_hash_def liftS_def h(1) h')
  have ex: "Node_isBlockExecuted K h m = (Inr False, m)"
    using fresh Node_isBlockExecuted_same [of K h m] by (metis prod.collapse)
  have c: "Node_checkHeight K b' m = (Inr (), m)"
    by (simp add: Node_checkHeight_def B height bindS_def liftS_def assertR_def)
  have p: "Node_processBlockCoinbaseTX K b' fees q1 m = (bindR (Transaction_verifyCoinbase fees cb) (\<lambda>_.
      Node_coinbaseCoins (Transaction_getHash (nc_crypto K) cb) (Transaction_getOutCoins cb) q1), m)"
    by (simp add: Node_processBlockCoinbaseTX_def Node_isGenesisBlock_def hash h(2) B txns bindS_def returnS_def liftS_def
        split: sum.split)
  show ?thesis
    by (simp add: Node_execBlock_def Node_isGenesisBlock_def hash h(2) ex c B q q0 run txns p bindS_def returnS_def liftS_def
        split: sum.split)
qed

text \<open>The other nodes that are in the same state.\<close>

definition Node_sameState :: "('g, 'm, 'd) node \<Rightarrow> ('g, 'm, 'd) node \<Rightarrow> bool" where
  "Node_sameState n m \<longleftrightarrow> nd_storage m = nd_storage n \<and> nd_pendingBlocks m = nd_pendingBlocks n \<and> nd_mainDag m = nd_mainDag n"

lemma Node_calcHeight_cong:
  assumes "nd_mainDag m = nd_mainDag n" and "Node_calcHeight K ps n = (Inr h, n)"
  shows "Node_calcHeight K ps m = (Inr h, m)"
proof -
  let ?f = "\<lambda>hash maxHeight. bindS (Node_blockInfo K hash) (\<lambda>bi. case bi of
      None \<Rightarrow> throwS (TypeError ''Cannot read property'')
    | Some x \<Rightarrow> returnS (if maxHeight > BlockInfo_getHeight x then maxHeight else BlockInfo_getHeight x))"
  have get: "Node_blockInfo K p s = (Inr x, t) \<longleftrightarrow> MainDag_getBlockInfo (nc_mdag K) p (nd_mainDag s) = Inr x \<and> t = s" for p x s t
    by (auto simp: Node_blockInfo_def)
  have fold: "foldS ?f ps a n = (Inr r, n) \<Longrightarrow> foldS ?f ps a m = (Inr r, m)" for a r
  proof (induction ps arbitrary: a)
    case (Cons p ps)
    from Cons.prems obtain bi where bi: "MainDag_getBlockInfo (nc_mdag K) p (nd_mainDag n) = Inr (Some bi)"
      and rest: "foldS ?f ps (if a > BlockInfo_getHeight bi then a else BlockInfo_getHeight bi) n = (Inr r, n)"
      by (auto simp: bindS_Inr get throwS_def returnS_def split: option.splits)
    from Cons.IH [OF rest] bi show ?case
      by (auto simp: bindS_def Node_blockInfo_def returnS_def assms(1) split: if_splits)
  qed (simp add: returnS_def)
  from assms(2) obtain r where "foldS ?f ps 0 n = (Inr r, n)" "h = r + 1" "typeforce (list_all isHash256 ps) = Inr ()"
    by (auto simp: Node_calcHeight_def bindS_Inr liftS_def returnS_def)
  with fold [of 0 r] show ?thesis by (simp add: Node_calcHeight_def bindS_def liftS_def returnS_def)
qed

lemma Node_isBlockExecuted_cong:
  assumes "nd_mainDag m = nd_mainDag n" and "nd_pendingBlocks m = nd_pendingBlocks n"
  shows "fst (Node_isBlockExecuted K h m) = fst (Node_isBlockExecuted K h n)"
  using assms by (auto simp: Node_isBlockExecuted_def Node_blockInfo_def bindS_def returnS_def split: sum.split option.split)

text \<open>
  The state of a node whose block has only plain transactions: the definitions of the conciliums are
  in memory, the final blocks are not pending any more, and neither the transactions of the pool nor
  the joining one concern a contract; \<open>q\<close> is the merged patch of the parents.
\<close>

definition Witness_plainState ::
    "('g, 'm, 'd, 'r, 'a) witness_cfg \<Rightarrow> nat \<Rightarrow> ('g, 'm, 'd) node \<Rightarrow> 'd patch \<Rightarrow> bool" where
  "Witness_plainState K cid n q \<longleftrightarrow>
     (\<exists>d ds. sg_arrConciliumDefinition (nd_storage n) = Some (d # ds)) \<and>
     Storage_wf (nd_storage n) \<and> Pending_wf (nc_pdag (wc_node K)) (pm_dag (nd_pendingBlocks n)) \<and>
     (\<forall>h\<in>set (Pending_lastResort (nd_pendingBlocks n)).
        dg_readObj (nc_pdag (wc_node K)) (pm_dag (nd_pendingBlocks n)) h = None) \<and>
     (\<forall>t\<in>set (fst (Mempool_getFinalTxns cid (nd_mempool n))).
        Node_plainTx (nd_storage n) q t \<and> Transaction_conciliumId t = cid) \<and>
     wc_address K \<noteq> getAddrContractCreation \<and> jget (sg_contracts (nd_storage n)) (wc_address K) = None \<and>
     PatchDB_getContract (wc_address K) q = None"

lemma PatchDB_wf_empty: "PatchDB_wf PatchDB_empty"
  by (simp add: PatchDB_wf_def PatchDB_contractsOk_def PatchDB_receiptsOk_def) (simp add: PatchDB_empty_def)

text \<open>The parents that were chosen merge to the patch also when no tip was.\<close>

lemma Pending_parents_merged:
  assumes parents: "Pending_getBestParents D S (Some cid) pend = Inr (ps, Some q)"
    and last: "\<forall>h\<in>set (Pending_lastResort pend). dg_readObj D (pm_dag pend) h = None"
    and wf: "Pending_wf D (pm_dag pend)"
  shows "Pending_mergePatches D S ps None pend = Inr (q, None)" and "PatchDB_wf q"
proof -
  obtain p ms where p: "q = p" and m: "Pending_mergePatches D S ms None pend = Inr (p, None)"
    and pms: "ps = (if ms \<noteq> [] then ms else Pending_lastResort pend)"
    by (rule Pending_bestParents_spec [OF parents]) simp
  show merged: "Pending_mergePatches D S ps None pend = Inr (q, None)"
  proof (cases "ms = []")
    case True
    have "foldR (Pending_mergeStep D S (pm_dag pend)) hs (x, None) = Inr (x, None)"
      if "\<forall>h\<in>set hs. dg_readObj D (pm_dag pend) h = None" for hs x
      using that by (induction hs) (simp_all add: Pending_mergeStep_def)
    with last True m p pms show ?thesis by (simp add: Pending_mergePatches_def)
  qed (use m p pms in simp)
  show "PatchDB_wf q" using Pending_merge_view [OF merged [unfolded Pending_mergePatches_def] wf] PatchDB_wf_empty by blast
qed

lemma PatchDB_setConciliumId_frame:
  assumes "PatchDB_setConciliumId i q = Inr q0"
  shows "PatchDB_wf q \<longleftrightarrow> PatchDB_wf q0" and "PatchDB_getContract a q0 = PatchDB_getContract a q"
proof -
  have f: "pt_coins q0 = pt_coins q" "pt_mapSpentUtxos q0 = pt_mapSpentUtxos q"
    "pt_mapContractStates q0 = pt_mapContractStates q" "pt_mapTxReceipts q0 = pt_mapTxReceipts q"
    using assms by (auto simp: PatchDB_setConciliumId_def split: option.splits)
  show "PatchDB_wf q \<longleftrightarrow> PatchDB_wf q0"
    by (simp add: PatchDB_wf_def PatchDB_utxosOk_def PatchDB_spentOk_def PatchDB_contractsOk_def PatchDB_receiptsOk_def f)
  show "PatchDB_getContract a q0 = PatchDB_getContract a q" by (simp add: PatchDB_getContract_def f)
qed

text \<open>The block that was built: its transactions, run again on the merged patch, give the patch under its coinbase.\<close>

lemma Witness_buildBlock_Inr:
  assumes build: "Witness_buildBlock K low cid (building_new cid n) = (Inr (), s)"
    and state: "Witness_plainState K cid n q"
    and parents: "Pending_getBestParents (nc_pdag (wc_node K)) (nc_serializers (wc_node K)) (Some cid) (nd_pendingBlocks n) =
      Inr (ps, Some q)"
    and hash: "Block_hash (nc_crypto (wc_node K)) (nc_block (wc_node K)) (bg_block s) = Inr (h, b')" "h \<noteq> GENESIS_BLOCK"
  obtains q0 ht s1 s2 ts us fees q1 cb p where
    "Witness_chooseParents K cid (building_new cid n) = (Inr (), s1)"
    and "Witness_txToProcess K low cid (s1\<lparr>bg_node := (bg_node s1)\<lparr>nd_processedBlock := Some (bg_block s1)\<rparr>\<rparr>) = (Inr ts, s2)"
    and "us = map fst (Witness_kept (Witness_tried K (nd_storage n) 0 ts q0))"
    and "fees = Witness_fees (Witness_kept (Witness_tried K (nd_storage n) 0 ts q0))"
    and "bg_totalFee s = fees + Witness_fees (Witness_leftOut (Witness_tried K (nd_storage n) 0 ts q0))"
    and "PatchDB_setConciliumId (Some cid) q = Inr q0" and "ps \<noteq> []" and "Node_calcHeight (wc_node K) ps n = (Inr ht, n)"
    and "\<And>b m. Block_getConciliumId b = cid \<Longrightarrow> nd_storage m = nd_storage n \<Longrightarrow>
      foldS (Node_execTx (wc_node K) b False) us (0, q0) m = (Inr (fees, q1), m)"
    and "bl_txns (bg_block s) = cb # us" and "\<And>k. Transaction_verifyCoinbase k cb = Inr () \<longleftrightarrow> k = bg_totalFee s"
    and "hd_merkleRoot (bl_header (bg_block s)) =
      bc_merkleRoot (nc_block (wc_node K)) (Block_getTxHashes (nc_crypto (wc_node K)) (bg_block s))"
    and "Block_parentHashes (bg_block s) = ps" and "Block_getHeight (bg_block s) = ht"
    and "Block_getConciliumId (bg_block s) = cid"
    and "Node_coinbaseCoins (Transaction_getHash (nc_crypto (wc_node K)) cb) (Transaction_getOutCoins cb) q1 = Inr p"
    and "bg_patchMerged s = Some p"
proof -
  let ?N = "wc_node K"
  from build obtain s1 s2 ts s3 where
    1: "Witness_chooseParents K cid (building_new cid n) = (Inr (), s1)"
    and 2: "Witness_txToProcess K low cid (s1\<lparr>bg_node := (bg_node s1)\<lparr>nd_processedBlock := Some (bg_block s1)\<rparr>\<rparr>) = (Inr ts, s2)"
    and 3: "Witness_addTxns K 0 ts s2 = (Inr (), s3)" and 4: "Witness_finishBlock K cid s3 = (Inr (), s)"
    by (auto simp: Witness_buildBlock_def bindS_Inr modifyS_Inr)
  obtain q0 ht where
    q0: "PatchDB_setConciliumId (Some cid) q = Inr q0" and ps: "ps \<noteq> []" and ht: "Node_calcHeight ?N ps n = (Inr ht, n)"
    and s1: "s1 = (building_new cid n)\<lparr>bg_patchMerged := Some q0,
       bg_block := Block_setHeight ht (Block_setParentHashes ps (bg_block (building_new cid n)))\<rparr>"
    by (rule Witness_chooseParents_Inr [OF 1]) (use parents in \<open>simp add: building_new_def\<close>)
  note T = Witness_txToProcess_Inr [OF 2]
  have state': "sg_arrConciliumDefinition (nd_storage n) \<noteq> None \<and> sg_arrConciliumDefinition (nd_storage n) \<noteq> Some []"
      "Storage_wf (nd_storage n)" "PatchDB_wf q"
      "\<forall>t\<in>set (fst (Mempool_getFinalTxns cid (nd_mempool n))). Node_plainTx (nd_storage n) q t \<and> Transaction_conciliumId t = cid"
      "wc_address K \<noteq> getAddrContractCreation" "jget (sg_contracts (nd_storage n)) (wc_address K) = None"
      "PatchDB_getContract (wc_address K) q = None"
    using state Pending_parents_merged(2) [OF parents] by (auto simp: Witness_plainState_def)
  then obtain d ds where cached: "sg_arrConciliumDefinition (nd_storage n) = Some (d # ds)" by (auto simp: neq_Nil_conv)
  note wq = state'(3) [unfolded PatchDB_setConciliumId_frame(1) [OF q0]]
  have st: "nd_storage (bg_node s2) = nd_storage n" "bg_patchMerged s2 = Some q0" "bg_block s2 = bg_block s1"
    "nd_mempool (bg_node s1) = nd_mempool n" "\<not> bl_final (bg_block s2)" "bg_totalFee s2 = 0" "bl_txns (bg_block s2) = []"
    "Block_getConciliumId (bg_block s2) = cid" "Block_parentHashes (bg_block s2) = ps" "Block_getHeight (bg_block s2) = ht"
    using T by (simp_all add: s1 building_new_def Block_setHeight_def Block_setParentHashes_def Block_markAsBuilding_def
        Block_new_def Block_getConciliumId_def Block_parentHashes_def Block_getHeight_def)
  have join: "Node_plainTx (nd_storage n) q t \<and> Transaction_conciliumId t = cid"
    if "Witness_createJoinTx K us cid k = Inr t" for us k t
    using Witness_createJoinTx_receiver [OF that] state'(5-7)
    by (auto simp: Node_plainTx_def Transaction_isContractCreation_def Transaction_getOutCoins_def plainOutput_def
        Coins_getReceiverAddr_def Coins_new_def Transaction_getContractAddr_def Transaction_getContractOutput_def)
  have "\<forall>t\<in>set ts. Node_plainTx (nd_storage n) q t \<and> Transaction_conciliumId t = cid"
    using T state'(4) join st(4) by auto
  then have "\<forall>t\<in>set ts. Node_plainTx (nd_storage (bg_node s2)) q0 t \<and> Transaction_conciliumId t = cid"
    using st(1) by (simp add: Node_plainTx_def PatchDB_setConciliumId_frame(2) [OF q0])
  from Witness_addTxns_plain [OF 3 this _ st(2,5) _ wq] cached state'(2) st(1)
  have "Witness_included K cid (Witness_tried K (nd_storage n) 0 ts q0) q0 s2 s3" by simp
  moreover define us where "us = map fst (Witness_kept (Witness_tried K (nd_storage n) 0 ts q0))"
  moreover define fees where "fees = Witness_fees (Witness_kept (Witness_tried K (nd_storage n) 0 ts q0))"
  ultimately obtain q1 where
    A: "bg_patchMerged s3 = Some q1" "bl_txns (bg_block s3) = us" "bl_header (bg_block s3) = bl_header (bg_block s2)"
      "bg_totalFee s3 = fees + Witness_fees (Witness_leftOut (Witness_tried K (nd_storage n) 0 ts q0))"
      "\<forall>b m a. Block_getConciliumId b = cid \<longrightarrow> nd_storage m = nd_storage n \<longrightarrow>
         foldS (Node_execTx ?N b False) us (a, q0) m = (Inr (a + fees, q1), m)"
    unfolding Witness_included_def st(1,6,7) append_Nil add_0 by blast
  obtain useful n' p' where
    F: "Block_finish (nc_crypto ?N) (nc_block ?N) (nat (wc_now K div 1000)) (wc_random K)
       (bg_totalFee s3) (wc_address K) useful (bg_block s3) = Inr (bg_block s)"
    and C: "Node_processBlockCoinbaseTX ?N (bg_block s) (bg_totalFee s) q1 n' = (Inr p', bg_node s)"
    and s: "bg_patchMerged s = Some p'" "bg_totalFee s = bg_totalFee s3"
    by (rule Witness_finishBlock_Inr [OF 4]) (use A(1) in simp)
  obtain cb where cb: "bl_txns (bg_block s) = cb # us" "\<And>k. Transaction_verifyCoinbase k cb = Inr () \<longleftrightarrow> k = bg_totalFee s"
    and root: "hd_merkleRoot (bl_header (bg_block s)) = bc_merkleRoot (nc_block ?N) (Block_getTxHashes (nc_crypto ?N) (bg_block s))"
    and hdr: "Block_parentHashes (bg_block s) = ps" "Block_getHeight (bg_block s) = ht" "Block_getConciliumId (bg_block s) = cid"
    by (rule Block_finish_coinbase [OF F])
      (use A(2,3) s st(8-10) in \<open>simp add: Block_parentHashes_def Block_getHeight_def Block_getConciliumId_def\<close>)
  have coin: "Node_coinbaseCoins (Transaction_getHash (nc_crypto ?N) cb) (Transaction_getOutCoins cb) q1 = Inr p'"
    using C hash(1,2) by (auto simp: Node_processBlockCoinbaseTX_def cb(1) Node_isGenesisBlock_def bindS_Inr Node_hash_Inr
        returnS_def liftS_def)
  show thesis
  proof (rule that [OF 1 2 us_def fees_def _ q0 ps ht _ cb root hdr coin s(1)])
    show "bg_totalFee s = fees + Witness_fees (Witness_leftOut (Witness_tried K (nd_storage n) 0 ts q0))"
      using A(4) s(2) by simp
    show "foldS (Node_execTx ?N b False) us (0, q0) m = (Inr (fees, q1), m)"
      if "Block_getConciliumId b = cid" "nd_storage m = nd_storage n" for b m
      using A(5) that by simp
  qed
qed

text \<open>A block that was built is, for every node in the state of its author, what its execution says it is.\<close>

lemma Witness_buildBlock_run:
  assumes build: "Witness_buildBlock K low cid (building_new cid n) = (Inr (), s)"
    and state: "Witness_plainState K cid n q"
    and parents: "Pending_getBestParents (nc_pdag (wc_node K)) (nc_serializers (wc_node K)) (Some cid) (nd_pendingBlocks n) =
      Inr (ps, Some q)"
    and hash: "Block_hash (nc_crypto (wc_node K)) (nc_block (wc_node K)) (bg_block s) = Inr (h, b')" "h \<noteq> GENESIS_BLOCK"
    and fresh: "fst (Node_isBlockExecuted (wc_node K) h n) = Inr False"
  shows "Block_parentHashes (bg_block s) = ps \<and> ps \<noteq> [] \<and> Block_getConciliumId (bg_block s) = cid \<and> 0 < Block_getHeight (bg_block s) \<and>
    hd_merkleRoot (bl_header (bg_block s)) = bc_merkleRoot (nc_block (wc_node K)) (Block_getTxHashes (nc_crypto (wc_node K)) (bg_block s)) \<and>
    bl_txns (bg_block s) \<noteq> [] \<and>
    (\<exists>s1 s2 ts fees q0 q1. PatchDB_setConciliumId (Some cid) q = Inr q0 \<and>
      Witness_chooseParents K cid (building_new cid n) = (Inr (), s1) \<and>
      Witness_txToProcess K low cid (s1\<lparr>bg_node := (bg_node s1)\<lparr>nd_processedBlock := Some (bg_block s1)\<rparr>\<rparr>) = (Inr ts, s2) \<and>
      tl (bl_txns (bg_block s)) = map fst (Witness_kept (Witness_tried K (nd_storage n) 0 ts q0)) \<and>
      fees = Witness_fees (Witness_kept (Witness_tried K (nd_storage n) 0 ts q0)) \<and>
      bg_totalFee s = fees + Witness_fees (Witness_leftOut (Witness_tried K (nd_storage n) 0 ts q0)) \<and>
      (\<forall>m. Node_sameState n m \<longrightarrow>
         foldS (Node_execTx (wc_node K) b' False) (tl (bl_txns (bg_block s))) (0, q0) m = (Inr (fees, q1), m) \<and>
         (if fees = bg_totalFee s then Node_execBlock (wc_node K) (bg_block s) m = (Inr (bg_patchMerged s), m)
          else \<exists>e. Node_execBlock (wc_node K) (bg_block s) m = (Inl e, m))))"
proof -
  let ?N = "wc_node K"
  obtain q0 ht s1 s2 ts us fees q1 cb p where
    chosen: "Witness_chooseParents K cid (building_new cid n) = (Inr (), s1)"
      "Witness_txToProcess K low cid (s1\<lparr>bg_node := (bg_node s1)\<lparr>nd_processedBlock := Some (bg_block s1)\<rparr>\<rparr>) = (Inr ts, s2)"
    and kept: "us = map fst (Witness_kept (Witness_tried K (nd_storage n) 0 ts q0))"
      "fees = Witness_fees (Witness_kept (Witness_tried K (nd_storage n) 0 ts q0))"
      "bg_totalFee s = fees + Witness_fees (Witness_leftOut (Witness_tried K (nd_storage n) 0 ts q0))"
    and q0: "PatchDB_setConciliumId (Some cid) q = Inr q0" and ps: "ps \<noteq> []"
    and ht: "Node_calcHeight ?N ps n = (Inr ht, n)"
    and A: "\<And>b m. Block_getConciliumId b = cid \<Longrightarrow> nd_storage m = nd_storage n \<Longrightarrow>
      foldS (Node_execTx ?N b False) us (0, q0) m = (Inr (fees, q1), m)"
    and cb: "bl_txns (bg_block s) = cb # us" "\<And>k. Transaction_verifyCoinbase k cb = Inr () \<longleftrightarrow> k = bg_totalFee s"
    and root: "hd_merkleRoot (bl_header (bg_block s)) = bc_merkleRoot (nc_block ?N) (Block_getTxHashes (nc_crypto ?N) (bg_block s))"
    and hdr: "Block_parentHashes (bg_block s) = ps" "Block_getHeight (bg_block s) = ht" "Block_getConciliumId (bg_block s) = cid"
    and coin: "Node_coinbaseCoins (Transaction_getHash (nc_crypto ?N) cb) (Transaction_getOutCoins cb) q1 = Inr p"
    and s: "bg_patchMerged s = Some p"
    by (rule Witness_buildBlock_Inr [OF build state parents hash]) (rule that)
  note facts = chosen kept
  have merged: "Pending_mergePatches (nc_pdag ?N) (nc_serializers ?N) ps None (nd_pendingBlocks n) = Inr (q, None)"
    using state by (intro Pending_parents_merged(1) [OF parents]) (simp_all add: Witness_plainState_def)
  have ht0: "0 < ht" using ht by (auto simp: Node_calcHeight_def bindS_Inr returnS_def)
  have all: "foldS (Node_execTx ?N b' False) us (0, q0) m = (Inr (fees, q1), m) \<and>
      (if fees = bg_totalFee s then Node_execBlock ?N (bg_block s) m = (Inr (bg_patchMerged s), m)
       else \<exists>e. Node_execBlock ?N (bg_block s) m = (Inl e, m))" if same: "Node_sameState n m" for m
  proof -
    have mm: "nd_storage m = nd_storage n" "nd_pendingBlocks m = nd_pendingBlocks n" "nd_mainDag m = nd_mainDag n"
      using same by (simp_all add: Node_sameState_def)
    have run: "foldS (Node_execTx ?N b' False) us (0, q0) m = (Inr (fees, q1), m)"
      using Block_hash_same(4) [OF hash(1)] hdr(3) by (intro A mm(1)) simp
    have exec: "Node_execBlock ?N (bg_block s) m = (mapR Some (bindR (Transaction_verifyCoinbase fees cb) (\<lambda>_.
        Node_coinbaseCoins (Transaction_getHash (nc_crypto ?N) cb) (Transaction_getOutCoins cb) q1)), m)"
    proof (rule Node_execBlock_run [OF hash(1,2) _ _ _ _ run cb(1)])
      show "fst (Node_isBlockExecuted ?N h m) = Inr False" by (rule trans [OF Node_isBlockExecuted_cong [OF mm(3,2)] fresh])
      show "Node_calcHeight ?N (Block_parentHashes (bg_block s)) m = (Inr (Block_getHeight (bg_block s)), m)"
        using Node_calcHeight_cong [OF mm(3) ht] hdr by simp
      show "Pending_mergePatches (nc_pdag ?N) (nc_serializers ?N) (Block_parentHashes (bg_block s)) None (nd_pendingBlocks m) =
          Inr (q, None)" using merged mm(2) hdr by simp
      show "PatchDB_setConciliumId (Some (Block_getConciliumId (bg_block s))) q = Inr q0" using q0 hdr by simp
    qed
    have "if fees = bg_totalFee s then Node_execBlock ?N (bg_block s) m = (Inr (bg_patchMerged s), m)
         else \<exists>e. Node_execBlock ?N (bg_block s) m = (Inl e, m)"
    proof (cases "fees = bg_totalFee s")
      case False
      then obtain e where "Transaction_verifyCoinbase fees cb = Inl e"
        using cb(2) [of fees] by (cases "Transaction_verifyCoinbase fees cb") auto
      with exec False show ?thesis by simp
    qed (use exec cb(2) coin s in simp)
    with run show ?thesis by simp
  qed
  have tl: "tl (bl_txns (bg_block s)) = us" "bl_txns (bg_block s) \<noteq> []" using cb(1) by simp_all
  show ?thesis
    unfolding hdr tl(1) using root ps ht0 tl(2) q0 facts all
    by (intro conjI exI [of _ s1] exI [of _ s2] exI [of _ ts] exI [of _ fees] exI [of _ q0] exI [of _ q1] allI impI) simp_all
qed

lemma Witness_buildBlock_cache:
  "Witness_buildBlock K low cid s0 = (Inr (), s) \<Longrightarrow> bl_hashCache (bg_block s) = None"
  by (auto simp: Witness_buildBlock_def bindS_Inr elim!: Witness_finishBlock_Inr Block_finish_coinbase)

section \<open>The check of a proposal\<close>

lemma Witness_checkBlock_run:
  assumes hash: "Block_hash (nc_crypto (wc_node K)) (nc_block (wc_node K)) b = Inr (h, b')" "h \<noteq> GENESIS_BLOCK"
    and b: "Block_parentHashes b \<noteq> []" "0 < Block_getHeight b" "bl_txns b \<noteq> []" "bl_hashCache b = None"
    and parents: "Pending_getBestParents (nc_pdag (wc_node K)) (nc_serializers (wc_node K)) (Some (Block_getConciliumId b))
      (nd_pendingBlocks m) = Inr (Block_parentHashes b, q)"
  shows "Witness_checkBlock K b m =
    (case Storage_checkTxCollision (Block_getTxHashes (nc_crypto (wc_node K)) b) (nd_storage m) of
       Inl e \<Rightarrow> (Inl e, m)
     | Inr () \<Rightarrow> bindS (Node_canExecuteBlock (wc_node K) (IsBlock b)) (\<lambda>can.
         if \<not> can then throwS (Error ''Block couldn't be executed right now!'')
         else bindS (modifyS (\<lambda>s. s\<lparr>nd_processedBlock := Some b\<rparr>)) (\<lambda>_. Node_execBlock (wc_node K) b)) m)"
proof -
  let ?N = "wc_node K"
  note B = Block_hash_same [OF hash(1)]
  have root: "hd_merkleRoot (bl_header b') = bc_merkleRoot (nc_block ?N) (Block_getTxHashes (nc_crypto ?N) b')"
    using hash b(3,4) by (auto simp: Block_hash_def Block_buildTxTree_def Block_getTxHashes_def Let_def split: if_splits)
  have "Block_verify (nc_crypto ?N) (nc_block ?N) False b' = Inr ()"
    using root b(1-3) B by (simp add: Block_verify_def Block_buildTxTree_def Block_getTxHashes_def assertR_def)
  then have "Node_verifyBlock ?N False b m = (Storage_checkTxCollision (Block_getTxHashes (nc_crypto ?N) b) (nd_storage m), m)"
    using B by (simp add: Node_verifyBlock_def Node_isGenesisBlock_def Node_hash_def hash liftS_def bindS_def returnS_def
        Block_getTxHashes_def)
  moreover have "Witness_compareParents K b m = (Inr (), m)"
    by (simp add: Witness_compareParents_def parents arrayEquals_refl assertR_def)
  ultimately show ?thesis by (simp add: Witness_checkBlock_def bindS_def split: sum.splits unit.splits)
qed

text \<open>Looking at the parents changes nothing.\<close>

lemma Node_canExecuteBlock_keeps: "snd (Node_canExecuteBlock K (IsBlock b) s) = s"
proof -
  have "presS (\<lambda>x. x = s) (Node_parentsExecuted K hs)" for hs
    by (induction hs)
      (auto simp: presS_def Node_blockInfo_def Node_isBlockExecuted_def bindS_def returnS_def throwS_def
        split: sum.splits prod.splits if_splits)
  then show ?thesis
    by (auto simp: presS_def Node_canExecuteBlock_def Node_hashOf_def Node_hash_def bindS_def liftS_def returnS_def
        split: sum.splits prod.splits)
qed

end
