(* ===== verification/Cil_Delivery.thy ===== *)
theory Cil_Delivery
  imports Cil_Witness_Laws
begin

text \<open>
  A witness delivers the messages of its own consensus to that consensus within the call that emitted
  them. Every step of a consensus emits at most one message, an announcement of the next round after
  its views were emptied; delivering that one can only ask for a block. So the calls nest twice.
\<close>

section \<open>What a step of the consensus emits\<close>

definition Bft_emits :: "'d bft_event list \<Rightarrow> 'd bft \<Rightarrow> 'd bft \<Rightarrow> bool" where
  "Bft_emits evs s t \<longleftrightarrow> bf_views t = bf_views s \<and> bf_emitted t = bf_emitted s @ evs \<and>
     (evs = [] \<or> evs = [EmitCreateBlock] \<or> (\<exists>b p. evs = [EmitCommitBlock b p]) \<or>
      (\<exists>r. evs = [EmitNextRound (Concilium_getConciliumId (bf_concilium s)) r]))"

lemma Bft_emits_nil [simp]: "Bft_emits [] s t \<longleftrightarrow> bf_views t = bf_views s \<and> bf_emitted t = bf_emitted s"
  by (simp add: Bft_emits_def)

lemma Bft_emits_nextRound: "\<exists>evs. Bft_emits evs s (snd (Bft_nextRound b s))"
proof -
  have "\<exists>evs. Bft_emits evs s (snd (bindS (Bft_updConcilium f) (\<lambda>n. Bft_emit
      (EmitNextRound (Concilium_getConciliumId (bf_concilium s)) n)) (s\<lparr>bf_block := None, bf_state := ROUND_CHANGE\<rparr>)))" for f
    by (auto simp: bindS_def Bft_updConcilium_def Bft_emit_def Bft_emits_def split: sum.split)
  moreover have "\<exists>evs. Bft_emits evs s (s\<lparr>bf_block := None, bf_state := ROUND_CHANGE\<rparr>)"
    by (rule exI [of _ "[]"]) simp
  ultimately show ?thesis
    unfolding Bft_nextRound_def Let_def by (simp add: bindS_def [of "liftS _"] liftS_def split: sum.split)
qed

text \<open>An announced round is emitted after the views were reset, or by a consensus on another value.\<close>

lemma Bft_emits_trans_nil: "Bft_emits evs s t \<Longrightarrow> bf_views u = bf_views t \<Longrightarrow> bf_emitted u = bf_emitted t \<Longrightarrow> Bft_emits evs s u"
  by (auto simp: Bft_emits_def)

lemma Bft_emits_start:
  "Bft_emits evs s' t \<Longrightarrow> bf_views s' = bf_views s \<Longrightarrow> bf_emitted s' = bf_emitted s \<Longrightarrow>
   Concilium_getConciliumId (bf_concilium s') = Concilium_getConciliumId (bf_concilium s) \<Longrightarrow> Bft_emits evs s t"
  by (auto simp: Bft_emits_def)

lemma Bft_emits_roundChange: "\<exists>evs. Bft_emits evs s (snd (Bft_roundChangeHandler b v s)) \<and>
   (b \<longrightarrow> evs = [] \<or> evs = [EmitCreateBlock])"
proof (cases "b")
  case False
  then show ?thesis using Bft_emits_nextRound [of s False] by (simp add: Bft_roundChangeHandler_def)
next
  case True
  have "\<exists>evs. Bft_emits evs s (snd (bindS (Bft_updConcilium f) (\<lambda>_.
       bindS (Bft_setState BLOCK) (\<lambda>_ s. (case Bft_shouldPublish (bf_walletAddress s) s of
                   Inl e \<Rightarrow> (Inl e, s)
                 | Inr b \<Rightarrow> if b then Bft_emit EmitCreateBlock s else (Inr (), s)))) s)) \<and> (evs = [] \<or> evs = [EmitCreateBlock])"
    for f :: "concilium \<Rightarrow> (unit \<times> concilium) res"
    by (auto simp: bindS_def Bft_updConcilium_def Bft_emit_def Bft_emits_def Bft_setState_def split: sum.split)
  moreover have "\<exists>evs. Bft_emits evs s s \<and> (evs = [] \<or> evs = [EmitCreateBlock])" by (rule exI [of _ "[]"]) simp
  ultimately show ?thesis
    using True unfolding Bft_roundChangeHandler_def by (simp split: option.split)
qed

lemma Bft_emits_commit: "\<exists>evs. Bft_emits evs s (snd (Bft_commit E bl s))"
proof (cases "Bft_getSignaturesForBlock E s")
  case (Inr r)
  have "\<exists>evs. Bft_emits evs s s" by (rule exI [of _ "[]"]) simp
  moreover have "Bft_emits [EmitCommitBlock b' p] s (snd (Bft_emit (EmitCommitBlock b' p) (s\<lparr>bf_block := Some b'\<rparr>)))" for b' p
    by (simp add: Bft_emits_def Bft_emit_def)
  then have "\<exists>evs. Bft_emits evs s (snd (Bft_emit (EmitCommitBlock b' p) (s\<lparr>bf_block := Some b'\<rparr>)))" for b' p by blast
  ultimately show ?thesis using Inr Bft_emits_nextRound [of s True]
    by (auto simp: Bft_commit_def simp del: Bft_emits_nil split: option.split sum.split)
qed (auto simp: Bft_commit_def intro!: exI [of _ "[]"])

lemma Bft_emits_vote: "\<exists>evs. Bft_emits evs s (snd (Bft_voteStateHandler E b v s))"
proof -
  let ?s = "s\<lparr>bf_state := COMMIT\<rparr>"
  have nil: "\<exists>evs. Bft_emits evs s s" "\<exists>evs. Bft_emits evs s ?s" by (rule exI [of _ "[]"], simp)+
  have "\<exists>evs. Bft_emits evs s (snd (Bft_commit E bl ?s))" for bl
  proof -
    obtain evs where "Bft_emits evs ?s (snd (Bft_commit E bl ?s))" using Bft_emits_commit by blast
    from Bft_emits_start [OF this, of s] show ?thesis by auto
  qed
  with nil Bft_emits_nextRound [of s True] show ?thesis
    by (auto simp: Bft_voteStateHandler_def Let_def liftS_def simp del: Bft_emits_nil split: option.split sum.split)
qed

lemma Bft_emits_stateChange:
  "\<exists>evs. Bft_emits evs s (snd (Bft_stateChange E b v s)) \<and>
     (\<forall>x. b \<longrightarrow> v = Some x \<longrightarrow> vv_state x = ROUND_CHANGE \<longrightarrow> evs = [] \<or> evs = [EmitCreateBlock])"
proof -
  let ?s1 = "case v of Some x \<Rightarrow> if b then s\<lparr>bf_state := vv_state x,
                                 bf_timeout := bft_Timeouts (vv_state x)\<rparr> else s | None \<Rightarrow> s"
  let ?h = "case bf_state ?s1 of ROUND_CHANGE \<Rightarrow> Bft_roundChangeHandler b v
                | BLOCK \<Rightarrow> Bft_blockStateHandler False
                | VOTE_BLOCK \<Rightarrow> Bft_voteStateHandler E b v
                | COMMIT \<Rightarrow> Bft_nextRound True"
  have s1: "bf_views ?s1 = bf_views s" "bf_emitted ?s1 = bf_emitted s" "bf_concilium ?s1 = bf_concilium s"
    by (simp_all split: option.split)
  obtain evs where h: "Bft_emits evs ?s1 (snd (?h ?s1))"
    "bf_state ?s1 = ROUND_CHANGE \<longrightarrow> b \<longrightarrow> evs = [] \<or> evs = [EmitCreateBlock]"
  proof (cases "bf_state ?s1")
    case ROUND_CHANGE
    with Bft_emits_roundChange [of ?s1 b v] that show ?thesis by auto
  next
    case VOTE_BLOCK
    with Bft_emits_vote [of ?s1 E b v] that show ?thesis by auto
  qed (use Bft_emits_nextRound [of ?s1 True] that in \<open>auto simp: Bft_blockStateHandler_def\<close>)
  have "Bft_emits evs s (snd (?h ?s1))" by (rule Bft_emits_start [OF h(1)]) (simp_all only: s1)
  moreover have "bf_views (snd (bindS ?h (\<lambda>_ s2. if p \<noteq> bf_state s2 then Bft_adjustTimer s2 else (Inr (), s2)) ?s1)) =
      bf_views (snd (?h ?s1))"
    "bf_emitted (snd (bindS ?h (\<lambda>_ s2. if p \<noteq> bf_state s2 then Bft_adjustTimer s2 else (Inr (), s2)) ?s1)) =
      bf_emitted (snd (?h ?s1))" for p
    by (auto simp: bindS_def Bft_adjustTimer_def split: prod.split sum.split)
  ultimately have "Bft_emits evs s (snd (Bft_stateChange E b v s))"
    unfolding Bft_stateChange_def Let_def by (rule Bft_emits_trans_nil)
  moreover have "b \<Longrightarrow> v = Some x \<Longrightarrow> vv_state x = ROUND_CHANGE \<Longrightarrow> bf_state ?s1 = ROUND_CHANGE" for x by simp
  ultimately show ?thesis using h(2) by blast
qed

section \<open>Delivering an announced round\<close>

definition Bft_roundViews :: "'d bft \<Rightarrow> bool" where
  "Bft_roundViews c \<longleftrightarrow> (\<forall>a v b x. jget (bf_views c) a = Some v \<longrightarrow> jget v b = Some x \<longrightarrow> vv_state x = ROUND_CHANGE)"

lemma Bft_roundViews_reset: "Bft_roundViews (Bft_resetState c)"
proof -
  have gen: "\<forall>a v. jget (fold (\<lambda>a. jset a []) as m) a = Some v \<longrightarrow> v = []" if "\<forall>a v. jget m a = Some v \<longrightarrow> v = []"
    for as and m :: bft_views
    using that
  proof (induction as arbitrary: m)
    case (Cons x as)
    have "\<forall>a v. jget (jset x [] m) a = Some v \<longrightarrow> v = []" using Cons.prems by (simp add: js_simps)
    from Cons.IH [OF this] show ?case by simp
  qed simp
  have "jget (Bft_emptyViews as) a = Some v \<Longrightarrow> v = []" for as a v
    using gen [of "[]" as] unfolding Bft_emptyViews_def by (simp add: jget_def)
  then show ?thesis by (fastforce simp: Bft_roundViews_def Bft_resetState_def jget_def)
qed

lemma Bft_majority_member:
  assumes "Bft_majority E c as ds = Inr (Some v)"
  shows "Some v \<in> set ds"
proof -
  from assms obtain m where m: "foldR (Bft_tallyOne E c) (zip as ds) [] = Inr m"
    and r: "(case Bft_best m of (n, value) \<Rightarrow> (Inr (case Concilium_getQuorum c of
            None \<Rightarrow> None | Some q \<Rightarrow> if n \<ge> q then value else None) :: view_value option res)) = Inr (Some v)"
    unfolding Bft_majority_def bindR_Inr_iff by blast
  from r have b: "snd (Bft_best m) = Some v"
    by (cases "Bft_best m") (simp split: option.splits if_splits)
  have "\<forall>e\<in>set m. Some (snd (snd e)) \<in> set ds"
  proof (rule foldR_invariant [OF m, where P = "\<lambda>m. \<forall>e\<in>set m. Some (snd (snd e)) \<in> set ds"])
    fix e :: "addr \<times> view_value option" and q q' :: "(hash, rat \<times> view_value) jsmap"
    assume e: "e \<in> set (zip as ds)" and q: "\<forall>e\<in>set q. Some (snd (snd e)) \<in> set ds"
      and step: "Bft_tallyOne E c e q = Inr q'"
    have d: "snd e \<in> set ds" using e by (metis prod.collapse set_zip_rightD)
    show "\<forall>e\<in>set q'. Some (snd (snd e)) \<in> set ds"
    proof (cases "snd e")
      case None
      with step q show ?thesis by (simp add: Bft_tallyOne_def split: prod.splits)
    next
      case (Some x)
      let ?h = "Bft_calcDataHash E x"
      from step Some obtain k where k: "Concilium_getWitnessWeight (fst e) c = Inr k"
        by (auto simp: Bft_tallyOne_def Let_def split: prod.splits)
      from step Some k have "q' = jset ?h (k, x) q \<or> (\<exists>n y. jget q ?h = Some (n, y) \<and> q' = jset ?h (dbl (n + k), y) q)"
        by (cases "jget q ?h") (auto simp: Bft_tallyOne_def Let_def split: prod.splits)
      then show ?thesis
      proof (elim disjE exE conjE)
        assume "q' = jset ?h (k, x) q"
        with q d Some set_jset_subset [of ?h "(k, x)" q] show ?thesis by auto
      next
        fix n y
        assume y: "jget q ?h = Some (n, y)" "q' = jset ?h (dbl (n + k), y) q"
        then have "(?h, (n, y)) \<in> set q" by (simp add: jget_def map_of_SomeD)
        with q have "Some y \<in> set ds" by fastforce
        with q y(2) set_jset_subset [of ?h "(dbl (n + k), y)" q] show ?thesis by auto
      qed
    qed
  qed simp
  moreover have "\<exists>h n. (h, (n, v)) \<in> set m" using Bft_best_spec [of m] b by (cases "Bft_best m") auto
  ultimately show ?thesis by fastforce
qed

lemma mapM_member: "mapM f xs = Inr ys \<Longrightarrow> y \<in> set ys \<Longrightarrow> \<exists>x\<in>set xs. f x = Inr y"
  by (induction xs arbitrary: ys) auto

lemma Bft_roundViews_consensus:
  assumes "Bft_roundViews c" and "Bft_runConsensus E c = Inr (Some v)"
  shows "vv_state v = ROUND_CHANGE"
proof -
  have "\<exists>a b w. jget (bf_views c) a = Some w \<and> jget w b = Some v"
  proof (cases "Concilium_getMembersCount (bf_concilium c) = 1 \<and> bf_walletAddress c \<in> set (bf_arrAddresses c)")
    case True
    with assms(2) show ?thesis by (auto simp: Bft_runConsensus_def Let_def split: option.splits)
  next
    case False
    with assms(2) obtain ws where ws: "mapM (\<lambda>addrI. bindR (Bft_witnessData (bf_arrAddresses c) (bf_views c) addrI)
        (Bft_majority E (bf_concilium c) (bf_arrAddresses c))) (bf_arrAddresses c) = Inr ws"
      "Bft_majority E (bf_concilium c) (bf_arrAddresses c) ws = Inr (Some v)"
      by (auto simp: Bft_runConsensus_def Let_def)
    from mapM_member [OF ws(1) Bft_majority_member [OF ws(2)]] obtain b ds where
      ds: "Bft_witnessData (bf_arrAddresses c) (bf_views c) b = Inr ds"
      "Bft_majority E (bf_concilium c) (bf_arrAddresses c) ds = Inr (Some v)" by auto
    from mapM_member [OF ds(1) [unfolded Bft_witnessData_def] Bft_majority_member [OF ds(2)]]
    show ?thesis by (auto split: option.splits)
  qed
  with assms(1) show ?thesis by (auto simp: Bft_roundViews_def)
qed

lemma Bft_processMessage_emits:
  assumes "Bft_processMessage E m c = (r, c')"
  shows "\<exists>evs. bf_emitted c' = bf_emitted c @ evs \<and>
     (evs = [] \<or> evs = [EmitCreateBlock] \<or> (\<exists>b p. evs = [EmitCommitBlock b p]) \<or>
      (\<exists>r. evs = [EmitNextRound (Concilium_getConciliumId (bf_concilium c)) r] \<and> Bft_roundViews c')) \<and>
     (\<forall>a r. Bft_roundViews c \<longrightarrow> m = MsgNextRound a r \<longrightarrow> evs = [] \<or> evs = [EmitCreateBlock])"
proof -
  have nil: ?thesis if "bf_emitted c' = bf_emitted c" using that by simp
  let ?msg = "case m of MsgExpose _ m \<Rightarrow> m | m \<Rightarrow> m"
  show ?thesis
  proof (cases "Bft_stateFromMessage ?msg")
    case None
    with assms show ?thesis by (intro nil) (auto simp: Bft_processMessage_def Let_def)
  next
    case content: (Some content)
    show ?thesis
    proof (cases "\<not> Bft_checkAddresses c (witness_msg_address m) \<or> \<not> Bft_checkAddresses c (witness_msg_address ?msg)")
      case True
      with content assms show ?thesis by (intro nil) (auto simp: Bft_processMessage_def Let_def)
    next
      case False
      note proc = assms [unfolded Bft_processMessage_def Let_def content option.case if_not_P [OF False]]
      show ?thesis
      proof (cases "Bft_addViewOfNodeWithAddr (witness_msg_address m) (witness_msg_address ?msg) content c")
        case (Inl e)
        with proc show ?thesis by (intro nil) simp
      next
        case s1: (Inr s1)
        then obtain v where s1': "jget (bf_views c) (witness_msg_address m) = Some v"
          "s1 = c\<lparr>bf_views := jset (witness_msg_address m) (jset (witness_msg_address ?msg) content v) (bf_views c)\<rparr>"
          by (auto simp: Bft_addViewOfNodeWithAddr_def split: option.splits)
        have em: "bf_emitted s1 = bf_emitted c" "bf_concilium s1 = bf_concilium c" by (simp_all add: s1')
        show ?thesis
        proof (cases "Bft_runConsensus E s1")
          case (Inl e)
          with proc s1 em show ?thesis by (intro nil) simp
        next
          case run: (Inr res)
          show ?thesis
          proof (cases "res")
            case None
            with proc s1 em run show ?thesis by (intro nil) simp
          next
            case val: (Some x)
            let ?s2 = "Bft_resetState s1"
            have c': "c' = snd (Bft_stateChange E True (Some x) ?s2)"
              using proc s1 run val by (auto simp: bindS_def returnS_def split: prod.splits sum.splits)
            obtain evs where evs: "Bft_emits evs ?s2 c'"
              "vv_state x = ROUND_CHANGE \<longrightarrow> evs = [] \<or> evs = [EmitCreateBlock]"
              using Bft_emits_stateChange [of ?s2 E True "Some x"] c' by auto
            have s2: "bf_emitted ?s2 = bf_emitted c" "bf_concilium ?s2 = bf_concilium c"
              using em by (simp_all add: Bft_resetState_def)
            have views: "Bft_roundViews c'"
              using evs(1) Bft_roundViews_reset [of s1] by (simp add: Bft_emits_def Bft_roundViews_def)
            have "evs = [] \<or> evs = [EmitCreateBlock]" if "Bft_roundViews c" "m = MsgNextRound a n" for a n
            proof -
              have "vv_state content = ROUND_CHANGE" using content that(2) by auto
              then have "Bft_roundViews s1" using that(1) s1' by (auto simp: Bft_roundViews_def js_simps split: if_splits)
              from Bft_roundViews_consensus [OF this] run val evs(2) show ?thesis by simp
            qed
            with evs(1) s2 views show ?thesis unfolding Bft_emits_def by (intro exI [of _ evs]) auto
          qed
        qed
      qed
    qed
  qed
qed

section \<open>The depth of the calls\<close>

text \<open>Sending to peers does not touch the consensuses.\<close>

lemma Witness_onPeer_consensuses: "wt_consensuses (snd (Witness_onNode (Node_onPeer k m) w)) = wt_consensuses w"
  by (auto simp: Witness_onNode_def Node_onPeer_def split: option.splits prod.splits)

lemma Witness_broadcast_consensuses:
  fixes w :: "('g, 'm, 'd) witness"
  shows "wt_consensuses (snd (Witness_broadcast K cid msg w)) = wt_consensuses w"
proof -
  let ?P = "\<lambda>x :: ('g, 'm, 'd) witness. wt_consensuses x = wt_consensuses w"
  have "presS ?P (Witness_onNode (Node_onPeer k m))" for k m
    by (rule presSI) (simp add: Witness_onPeer_consensuses)
  then have "presS ?P (Witness_pushMessage K cid msg k)" for k
    unfolding Witness_pushMessage_def by (intro presS_bindS presS_modifyS) simp_all
  then have "presS ?P (Witness_broadcast K cid msg)"
    unfolding Witness_broadcast_def by (intro presS_intros presS_simps)
  then show ?thesis by (rule presSD) simp
qed

lemma Witness_broadcast_ok: "\<exists>r w1. Witness_broadcast K cid msg w = (r, w1) \<and> wt_consensuses w1 = wt_consensuses w \<and>
    (Witness_ok L w \<longrightarrow> Witness_ok L w1)"
  using Witness_broadcast_consensuses [of K cid msg w] presSD [OF Witness_keeps_broadcast, of L w K cid msg]
  by (cases "Witness_broadcast K cid msg w") simp

text \<open>Events that are no messages do not depend on how messages are answered.\<close>

lemma Witness_handlers_quiet:
  "ev = EmitCreateBlock \<or> (\<exists>b p. ev = EmitCommitBlock b p) \<Longrightarrow>
   Witness_setConsensusHandlers K cid send ev = Witness_setConsensusHandlers K cid send' ev"
  by (auto simp: Witness_setConsensusHandlers_def)

lemma Witness_bft_at:
  assumes "jget (wt_consensuses w) cid = Some c" and "m c = (r, c')" and "bf_emitted c' = bf_emitted c @ evs"
  shows "Witness_bft cid m w = (r, evs, w\<lparr>wt_consensuses := jset cid c' (wt_consensuses w)\<rparr>)"
  using assms by (simp add: Witness_bft_def)

text \<open>A method of the consensus whose one message, if any, is answered in the same way by two senders.\<close>

lemma eachS_short: "eachS f [x] s = f x s" "eachS f [] s = (Inr (), s)"
  by (simp_all add: eachS_def bindS_def returnS_def split: prod.split sum.split)

lemma Witness_emitted_cong:
  assumes c: "jget (wt_consensuses w) cid = Some c" and m: "m c = (r, c')" "bf_emitted c' = bf_emitted c @ evs"
    and evs: "evs = [] \<or> evs = [EmitCreateBlock] \<or> (\<exists>b p. evs = [EmitCommitBlock b p]) \<or> (\<exists>n. evs = [EmitNextRound cid n])"
    and send: "\<And>n. evs = [EmitNextRound cid n] \<Longrightarrow>
        send cid (MsgNextRound (wc_address K) n) (w\<lparr>wt_consensuses := jset cid c' (wt_consensuses w)\<rparr>) =
        send' cid (MsgNextRound (wc_address K) n) (w\<lparr>wt_consensuses := jset cid c' (wt_consensuses w)\<rparr>)"
  shows "Witness_emitted K cid send m w = Witness_emitted K cid send' m w"
proof -
  let ?w = "w\<lparr>wt_consensuses := jset cid c' (wt_consensuses w)\<rparr>"
  have "eachS (Witness_setConsensusHandlers K cid send) evs ?w = eachS (Witness_setConsensusHandlers K cid send') evs ?w"
  proof (cases "\<exists>n. evs = [EmitNextRound cid n]")
    case True
    with send show ?thesis by (auto simp: eachS_short Witness_setConsensusHandlers_def)
  next
    case False
    with evs have "evs = [] \<or> evs = [EmitCreateBlock] \<or> (\<exists>b p. evs = [EmitCommitBlock b p])" by blast
    then show ?thesis using Witness_handlers_quiet [of _ K cid send send'] by (auto simp: eachS_short)
  qed
  then show ?thesis by (simp add: Witness_emitted_def Witness_bft_at [of w cid c m r c' evs, OF c m] bindS_def)
qed

text \<open>A method that emits one event.\<close>

lemma Witness_emitted_one:
  assumes "jget (wt_consensuses w) cid = Some c" and "m c = (r, c')" and "bf_emitted c' = bf_emitted c @ [ev]"
  shows "Witness_emitted K cid send m w =
    bindS (Witness_setConsensusHandlers K cid send ev) (\<lambda>_ w. (r, w)) (w\<lparr>wt_consensuses := jset cid c' (wt_consensuses w)\<rparr>)"
proof -
  have "Witness_bft cid m w = (r, [ev], w\<lparr>wt_consensuses := jset cid c' (wt_consensuses w)\<rparr>)"
    using assms by (simp add: Witness_bft_def)
  then show ?thesis by (simp add: Witness_emitted_def bindS_def eachS_def returnS_def split: prod.split sum.split)
qed

lemma Witness_process_snd:
  "bindS (Bft_processMessage E m) (\<lambda>_. returnS ()) c = (r, c') \<Longrightarrow> \<exists>r'. Bft_processMessage E m c = (r', c')"
  by (auto simp: bindS_def returnS_def split: prod.splits sum.splits)

lemma Witness_nextRound_depth:
  assumes "jget (wt_consensuses w) cid = Some c" and "Bft_roundViews c"
  shows "Witness_broadcastConsensusInitiatedMessage K (Suc f) cid (MsgNextRound a n) w =
    Witness_broadcastConsensusInitiatedMessage K (Suc g) cid (MsgNextRound a n) w"
proof -
  let ?msg = "MsgNextRound a n" let ?m = "bindS (Bft_processMessage (Witness_bftEnv K) ?msg) (\<lambda>_. returnS ())"
  obtain r w1 where w1: "Witness_broadcast K cid (WConsensus ?msg) w = (r, w1)" "wt_consensuses w1 = wt_consensuses w"
    using Witness_broadcast_ok by blast
  have c1: "jget (wt_consensuses w1) cid = Some c" using assms(1) w1(2) by simp
  obtain r2 c' where m: "?m c = (r2, c')" by (cases "?m c")
  then obtain r3 where "Bft_processMessage (Witness_bftEnv K) ?msg c = (r3, c')" using Witness_process_snd by blast
  from Bft_processMessage_emits [OF this] assms(2) obtain evs where
    evs: "bf_emitted c' = bf_emitted c @ evs" "evs = [] \<or> evs = [EmitCreateBlock]" by blast
  have "Witness_emitted K cid (Witness_broadcastConsensusInitiatedMessage K f) ?m w1 =
      Witness_emitted K cid (Witness_broadcastConsensusInitiatedMessage K g) ?m w1"
    by (rule Witness_emitted_cong [where m = ?m, OF c1 m evs(1)]) (use evs(2) in auto)
  with w1(1) c1 show ?thesis by (simp add: bindS_def split: sum.split)
qed

lemma Witness_ok_id:
  assumes "Witness_ok K w" and "jget (wt_consensuses w) cid = Some c"
  shows "Concilium_getConciliumId (bf_concilium c) = cid"
proof -
  have "(cid, c) \<in> set (wt_consensuses w)" using assms(2) by (simp add: jget_def map_of_SomeD)
  with assms(1) obtain d where d: "Concilium_getConciliumId d = cid" "bft_reach (Witness_bftEnv K) d (wc_address K) c"
    by (auto simp: Witness_ok_def Witness_consensusOk_def)
  from Bft_inv_reach [OF d(2)] have "Concilium_core (bf_concilium c) = Concilium_core d" by (simp add: Bft_inv_def)
  from Concilium_core_cong(4) [OF this] d(1) show ?thesis by simp
qed

lemma Witness_message_depth:
  assumes ok: "Witness_ok K w"
  shows "Witness_broadcastConsensusInitiatedMessage K (Suc (Suc f)) cid msg w =
    Witness_broadcastConsensusInitiatedMessage K (Suc (Suc g)) cid msg w"
proof -
  let ?m = "bindS (Bft_processMessage (Witness_bftEnv K) msg) (\<lambda>_. returnS ())"
  obtain r w1 where w1: "Witness_broadcast K cid (WConsensus msg) w = (r, w1)" "Witness_ok K w1"
    using Witness_broadcast_ok ok by blast
  have "Witness_emitted K cid (Witness_broadcastConsensusInitiatedMessage K (Suc f)) ?m w1 =
      Witness_emitted K cid (Witness_broadcastConsensusInitiatedMessage K (Suc g)) ?m w1"
  proof (cases "jget (wt_consensuses w1) cid")
    case None
    then show ?thesis by (simp add: Witness_emitted_def Witness_bft_def eachS_def bindS_def returnS_def)
  next
    case (Some c)
    obtain r2 c' where m: "?m c = (r2, c')" by (cases "?m c")
    then obtain r3 where p: "Bft_processMessage (Witness_bftEnv K) msg c = (r3, c')" using Witness_process_snd by blast
    obtain evs where evs: "bf_emitted c' = bf_emitted c @ evs"
      "evs = [] \<or> evs = [EmitCreateBlock] \<or> (\<exists>b p. evs = [EmitCommitBlock b p]) \<or>
       (\<exists>n. evs = [EmitNextRound cid n] \<and> Bft_roundViews c')"
      using Bft_processMessage_emits [OF p] Witness_ok_id [OF w1(2) Some] by metis
    show ?thesis
    proof (rule Witness_emitted_cong [where m = ?m, OF Some m evs(1)])
      show "evs = [] \<or> evs = [EmitCreateBlock] \<or> (\<exists>b p. evs = [EmitCommitBlock b p]) \<or> (\<exists>n. evs = [EmitNextRound cid n])"
        using evs(2) by blast
    next
      fix n
      assume "evs = [EmitNextRound cid n]"
      with evs(2) have "Bft_roundViews c'" by auto
      then show "Witness_broadcastConsensusInitiatedMessage K (Suc f) cid (MsgNextRound (wc_address K) n)
           (w1\<lparr>wt_consensuses := jset cid c' (wt_consensuses w1)\<rparr>) =
         Witness_broadcastConsensusInitiatedMessage K (Suc g) cid (MsgNextRound (wc_address K) n)
           (w1\<lparr>wt_consensuses := jset cid c' (wt_consensuses w1)\<rparr>)"
        by (intro Witness_nextRound_depth) (simp_all add: js_simps)
    qed
  qed
  with w1(1) show ?thesis
    by (cases r; cases "jget (wt_consensuses w1) cid") (simp_all add: bindS_def)
qed

end
