(* ===== verification/Cil_Producer_Props.thy ===== *)
theory Cil_Producer_Props
  imports Cil_Producer_Laws Cil_Delivery Cil_Node_Props
begin

text \<open>
  What a witness (\<open>witness.js\<close>) promises: the blocks it commits are certified, its messages to itself
  come to an end, its proposals are accepted by the others with the same patch, and what its joining
  transaction spends and pays.
\<close>

section \<open>A witness that builds a block\<close>

text \<open>A node with one transaction in its pool, as the witness of two conciliums.\<close>

definition ex_wallet_on :: wallet_db where
  "ex_wallet_on = ex_wallet_off\<lparr>wl_support := True, wl_addresses := Some [ex_addr CHR ''w'']\<rparr>"

definition ex_miner :: "(string pending_obj ex_graph, blockInfo ex_graph, string) node" where
  "ex_miner = ex_node\<lparr>nd_wallet := ex_wallet_on, nd_pendingBlocks := Pending_new ex_dag (Some [ex_hash CHR ''p'']),
     nd_mempool := (Mempool_new False None)\<lparr>mp_mapConcilimTxns :=
       [(1, [(ex_hash CHR ''7'', \<lparr>wt_tx = ex_pay, wt_arrived = 0\<rparr>)])]\<rparr>\<rparr>"

definition ex_wcfg ::
    "(string pending_obj ex_graph, blockInfo ex_graph, string, string, string) witness_cfg" where
  "ex_wcfg = \<lparr>wc_node = ex_cfg,
     wc_wallet = \<lparr>wa_privateKey = ''w'', wa_publicKey = ''w'', wa_address = ex_addr CHR ''w''\<rparr>,
     wc_dataHash = be_dataHash ex_bft_env, wc_sort = (\<lambda>as. as), wc_bCreateJoinTx = True, wc_random = ex_addr CHR ''r'',
     wc_elapsed = (\<lambda>_. 0), wc_msgSize = (\<lambda>_ _. 0), wc_isLocked = (\<lambda>_. False)\<rparr>"

lemma ex_wcfg_simps [simp]: "wc_node ex_wcfg = ex_cfg" "wc_address ex_wcfg = ex_addr CHR ''w''" "wc_bCreateJoinTx ex_wcfg = True"
  "wc_elapsed ex_wcfg i = 0" "wc_random ex_wcfg = ex_addr CHR ''r''" "wc_isLocked ex_wcfg x = False" "nc_now ex_cfg = 0"
  by (simp_all add: ex_wcfg_def ex_cfg_def)

lemma ex_miner_simps [simp]: "nd_storage ex_miner = ex_storage" "nd_pendingBlocks ex_miner = Pending_new ex_dag (Some [ex_hash CHR ''p''])"
  "nd_wallet ex_miner = ex_wallet_on"
  by (simp_all add: ex_miner_def)

lemma ex_best: "Pending_getBestParents ex_dag ex_serializers (Some 1) (Pending_new ex_dag (Some [ex_hash CHR ''p''])) =
    Inr ([ex_hash CHR ''p''], Some PatchDB_empty)"
  by (simp add: Pending_getBestParents_def Pending_new_def ex_dag_def Pending_getTips_def Pending_sortTips_def
      Pending_findByConciliumId_def Pending_getVertexWitnessBelow_def Pending_mergePatches_def Pending_mergeStep_def)

lemma ex_height: "nd_mainDag n = nd_mainDag ex_node \<Longrightarrow> Node_calcHeight ex_cfg [ex_hash CHR ''p''] n = (Inr 7, n)"
  by (simp add: Node_calcHeight_def Node_blockInfo_def MainDag_getBlockInfo_def ex_dag_def ex_node_def
      BlockInfo_getHeight_def BlockInfo_markAsFinal_def BlockInfo_new_def ex_header_def liftS_def returnS_def bindS_def)

lemma ex_q0_set: "PatchDB_setConciliumId (Some (Suc 0)) PatchDB_empty = Inr ex_q0"
    by (simp add: PatchDB_setConciliumId_def PatchDB_empty_def ex_q0_def orZero_def jset_def)

lemma ex_unspent: "Storage_walletListUnspent (ex_addr CHR ''w'') \<lparr>fs_main = st, fs_wallet = ex_wallet_on, fs_index = ix, fs_setBlocksBad = bs\<rparr> =
   (Inr [], \<lparr>fs_main = st, fs_wallet = ex_wallet_on, fs_index = ix, fs_setBlocksBad = bs\<rparr>)"
  by (simp add: Storage_walletListUnspent_def onWallet_def zoomS_def Storage_ensureWalletInitialized_def ex_wallet_on_def
     ex_wallet_off_def bindS_def liftS_def returnS_def getsS_def modifyS_def assertR_def Storage_walletReadAddressRecords_def
     Storage_walletCleanupMissed_def)

definition ex_started_block :: block where
  "ex_started_block = (Block_markAsBuilding (Block_new 1))\<lparr>bl_header := (bl_header (Block_new 1))\<lparr>hd_parentHashes := [ex_hash CHR ''p''], hd_height := 7\<rparr>\<rparr>"

lemma ex_choose: "Witness_chooseParents ex_wcfg 1 (building_new 1 ex_miner) =
   (Inr (), (building_new 1 ex_miner)\<lparr>bg_patchMerged := Some ex_q0, bg_block := ex_started_block\<rparr>)"
proof -
  have d: "nd_mainDag ex_miner = nd_mainDag ex_node" by (simp add: ex_miner_def)
  show ?thesis
  using ex_best ex_height [OF d]
  by (simp add: Witness_chooseParents_def Witness_setPatch_def building_new_def bindS_def liftS_def returnS_def modifyS_def
    onBuilding_def zoomS_def ex_q0_set assertR_def Let_def Block_setHeight_def Block_setParentHashes_def ex_started_block_def Block_markAsBuilding_def Block_new_def)
qed

lemma ex_final_txns: "Mempool_getFinalTxns 1 (nd_mempool ex_miner) = ([ex_pay], nd_mempool ex_miner)"
  by (simp add: Mempool_getFinalTxns_def ex_miner_def Mempool_new_def Mempool_ensureConciliumTxns_def jhas_def
    Mempool_conciliumTxns_def jget_def jvalues_def)

lemma ex_to_process: "Witness_txToProcess ex_wcfg (Some 0) 1 s = (Inr [ex_pay], s)" if "bg_node s = ex_miner\<lparr>nd_processedBlock := b\<rparr>"
proof -
  have "bg_node s = ex_miner\<lparr>nd_processedBlock := b\<rparr>" by (rule that)
  then show ?thesis
  using ex_final_txns building_same [of s]
  by (simp add: Witness_txToProcess_def onBuilding_def onFullStorage_def onMempool_def zoomS_def ex_unspent bindS_def liftS_def returnS_def)
qed

lemma ex_pay_plain: "Node_plainTx ex_storage PatchDB_empty ex_pay" "Node_plainTx ex_storage ex_q0 ex_pay"
  by (simp_all add: Node_plainTx_def ex_pay_def ex_signed_def Transaction_isContractCreation_def Transaction_getOutCoins_def
      Transaction_outputs_def plainOutput_def Coins_getReceiverAddr_def Coins_new_def ex_addrCreation Transaction_getContractAddr_def
      Transaction_getContractOutput_def ex_storage_def Storage_new_def PatchDB_getContract_def PatchDB_empty_def ex_q0_def)

lemma ex_definitions: "sg_arrConciliumDefinition ex_storage = Some [ex_concilium 0, ex_concilium 1]"
  by (simp add: ex_storage_def)

definition ex_paid_patch :: "string patch" where
  "ex_paid_patch = ex_paid\<lparr>pt_mapConciliumLevel := [(1, 1)]\<rparr>"

definition ex_filled :: "(string pending_obj ex_graph, blockInfo ex_graph, string) building" where
  "ex_filled = \<lparr>bg_node = ex_miner\<lparr>nd_processedBlock := Some ex_started_block\<rparr>,
     bg_block = ex_started_block\<lparr>bl_txns := [ex_pay]\<rparr>, bg_patchMerged = Some ex_paid_patch,
     bg_totalFee = 40000, bg_arrBadHashes = []\<rparr>"

definition ex_ready :: "(string pending_obj ex_graph, blockInfo ex_graph, string) building" where
  "ex_ready = (building_new 1 ex_miner)\<lparr>bg_patchMerged := Some ex_q0, bg_block := ex_started_block,
    bg_node := ex_miner\<lparr>nd_processedBlock := Some ex_started_block\<rparr>\<rparr>"

lemma ex_ready_simps [simp]: "bg_node ex_ready = ex_miner\<lparr>nd_processedBlock := Some ex_started_block\<rparr>"
  "bg_block ex_ready = ex_started_block" "bg_patchMerged ex_ready = Some ex_q0" "bg_totalFee ex_ready = 0" "bg_arrBadHashes ex_ready = []"
  by (simp_all add: ex_ready_def building_new_def)

lemma ex_started_simps [simp]: "\<not> bl_final ex_started_block" "bl_txns ex_started_block = []" "bl_hashCache ex_started_block = None"
  by (simp_all add: ex_started_block_def Block_markAsBuilding_def Block_new_def)

lemma ex_fill: "Witness_addTxns ex_wcfg 0 [ex_pay] ex_ready = (Inr (), ex_filled)"
proof -
  have few: "length (Transaction_inputs ex_pay) \<le> MAX_UTXO_PER_TX"
    by (simp add: ex_pay_def ex_signed_def Transaction_inputs_def MAX_UTXO_PER_TX_def)
  have run: "fst (Node_processTx (nc_depth (wc_node ex_wcfg)) (nc_env (wc_node ex_wcfg)) (Some ex_q0) False ex_pay
      (nd_storage (bg_node ex_ready))) = Inr (40000, ex_paid)"
    by (simp add: ex_pay_in_block)
  have merge: "PatchDB_merge (nc_serializers (wc_node ex_wcfg)) True ex_q0 ex_paid = Inr ex_paid_patch"
    by (simp add: ex_paid_merged ex_paid_patch_def)
  have "Witness_tryTx ex_wcfg 0 ex_pay ex_ready = (Inr False, ex_ready\<lparr>bg_totalFee := bg_totalFee ex_ready + 40000,
      bg_patchMerged := Some ex_paid_patch,
      bg_block := (bg_block ex_ready)\<lparr>bl_hashCache := None, bl_txns := bl_txns (bg_block ex_ready) @ [ex_pay]\<rparr>\<rparr>)"
    by (subst Witness_tryTx_plain [of ex_ready ex_q0])
      (simp_all add: run [simplified] merge [simplified] ex_pay_plain ex_definitions BLOCK_CREATION_TIME_LIMIT_def)
  moreover have "ex_ready\<lparr>bg_totalFee := bg_totalFee ex_ready + 40000, bg_patchMerged := Some ex_paid_patch,
      bg_block := (bg_block ex_ready)\<lparr>bl_hashCache := None, bl_txns := bl_txns (bg_block ex_ready) @ [ex_pay]\<rparr>\<rparr> = ex_filled"
    by (simp add: ex_filled_def ex_ready_def building_new_def)
  ultimately show ?thesis using few by (simp add: bindS_def catchS_def returnS_def)
qed

definition ex_reward :: tx where
  "ex_reward = \<lparr>tx_payload = \<lparr>pl_version = 1, pl_conciliumId = 1,
      pl_ins = [\<lparr>in_txHash = ZERO_HASH, in_nTxOutput = 0\<rparr>],
      pl_outs = [plainOutput 4000 DEV_FOUNDATION_ADDRESS, plainOutput 36000 (ex_addr CHR ''w''), plainOutput 0 (ex_addr CHR ''r'')]\<rparr>,
    tx_claimProofs = [], tx_txSignature = None\<rparr>"

definition ex_mined :: block where
  "ex_mined = ex_started_block\<lparr>bl_header := (bl_header ex_started_block)\<lparr>hd_merkleRoot := ex_hash CHR ''8'' @ ex_hash CHR ''7''\<rparr>,
     bl_txns := [ex_reward, ex_pay], bl_building := False, bl_final := True\<rparr>"

lemma ex_doubles: "parseInt_number (dbl (4000 * dbl (11 / 100))) = 440" "DEV_FOUNDATION_SHARE_OF 40000 = 4000"
  by code_simp+

lemma ex_fee_input: "Node_getFeeSizePerInput ex_cfg 1 n = (Inr 440, n)" if "nd_storage n = ex_storage"
proof -
  have "Storage_getConciliumById ex_serializers (ne_loadConciliums ex_env) (Suc 0) ex_storage = (Inr (ex_concilium 1), ex_storage)"
    by (rule ex_concilium_of)
  moreover have "nc_serializers ex_cfg = ex_serializers" by (simp)
  moreover have "n\<lparr>nd_storage := ex_storage\<rparr> = n" using that by (cases n) simp
  ultimately show ?thesis using that
    by (simp add: Node_getFeeSizePerInput_def onStorage_def zoomS_def bindS_def returnS_def feeOr_def TX_FEE_def ex_doubles)
qed

lemma ex_coinbase_made: "Block_finishCoinbase 40000 (ex_addr CHR ''w'') 440 (ex_addr CHR ''r'') 1 = Inr ex_reward"
  by (simp add: Block_finishCoinbase_def Transaction_createCoinbase_def Transaction_addInput_def Transaction_addReceiver_def
   Transaction_checkDone_def Transaction_new_def Transaction_setConciliumId_def Transaction_pushOutput_def ex_reward_def
   Transaction_getTxSignature_def ex_doubles assertR_def Let_def CURRENT_TX_VERSION_def)

lemma ex_tx_hashes: "Transaction_getHash ex_crypto ex_reward = ex_hash CHR ''8''" "Transaction_getHash ex_crypto ex_pay = ex_hash CHR ''7''"
  by (simp_all add: ex_crypto_def Transaction_getHash_def ex_reward_def ex_pay_def ex_signed_def)

lemma ex_finished: "Block_finish ex_crypto ex_block_crypto 0 (ex_addr CHR ''r'') 40000 (ex_addr CHR ''w'') 440
   (ex_started_block\<lparr>bl_txns := [ex_pay]\<rparr>) = Inr ex_mined"
proof -
  have "Block_getConciliumId (ex_started_block\<lparr>bl_txns := [ex_pay]\<rparr>) = 1"
    by (simp add: Block_getConciliumId_def ex_started_block_def Block_new_def)
  then show ?thesis
    by (simp add: Block_finish_def ex_coinbase_made [simplified] Block_buildTxTree_def ex_tx_hashes ex_block_crypto_def Let_def assertR_def ex_mined_def)
     (simp add: ex_started_block_def Block_markAsBuilding_def Block_new_def)
qed

lemma ex_mined_hash: "Block_hash ex_crypto ex_block_crypto ex_mined = Inr (ex_hash CHR ''b'',
   ex_mined\<lparr>bl_hashCache := Some (ex_hash CHR ''b'')\<rparr>)"
  by (simp add: Block_hash_def Block_buildTxTree_def ex_mined_def ex_block_crypto_def ex_tx_hashes [unfolded One_nat_def] Let_def)

lemma ex_reward_coins: "\<exists>p. Node_coinbaseCoins (ex_hash CHR ''8'') (Transaction_getOutCoins ex_reward) ex_paid_patch = Inr p"
  by (simp add: Node_coinbaseCoins_def ex_reward_def Transaction_getOutCoins_def Transaction_outputs_def plainOutput_def
         ex_paid_patch_def ex_paid_def PatchDB_empty_def PatchDB_createCoins_def UTXO_new_def UTXO_addCoins_def UTXO_coinsAtIndex_def
         Coins_new_def Coins_getAmount_def jget_def jset_def eval_nat_numeral)

lemma ex_not_genesis [simp]: "ex_hash CHR ''b'' \<noteq> GENESIS_BLOCK"
  by (simp add: ex_hash_def GENESIS_BLOCK_def numeral_eq_Suc)

lemma ex_reward_verified: "Transaction_verifyCoinbase 40000 ex_reward = Inr ()"
  by (simp add: Transaction_verifyCoinbase_def Transaction_isCoinbase_def Transaction_amountOut_sum ex_reward_def
      Transaction_inputs_def Transaction_outputs_def plainOutput_def assertR_def)

lemma ex_rewarded: "\<exists>p. Node_processBlockCoinbaseTX ex_cfg ex_mined 40000 ex_paid_patch n = (Inr p, n)"
proof -
  obtain p where "Node_coinbaseCoins (ex_hash CHR ''8'') (Transaction_getOutCoins ex_reward) ex_paid_patch = Inr p"
    using ex_reward_coins by blast
  moreover have "bl_txns ex_mined = [ex_reward, ex_pay]" by (simp add: ex_mined_def)
  ultimately show ?thesis
    by (simp add: Node_processBlockCoinbaseTX_def Node_isGenesisBlock_def Node_hash_def ex_mined_hash bindS_def liftS_def returnS_def
      ex_reward_verified ex_tx_hashes)
qed

definition ex_built :: "string patch \<Rightarrow> (string pending_obj ex_graph, blockInfo ex_graph, string) building" where
  "ex_built p = ex_filled\<lparr>bg_block := ex_mined, bg_patchMerged := Some p\<rparr>"

lemma ex_finish: "\<exists>p. Witness_finishBlock ex_wcfg 1 ex_filled = (Inr (), ex_built p)"
proof -
  let ?n = "ex_miner\<lparr>nd_processedBlock := Some ex_started_block\<rparr>"
  obtain p where p: "Node_processBlockCoinbaseTX ex_cfg ex_mined 40000 ex_paid_patch ?n = (Inr p, ?n)" using ex_rewarded by blast
  have f: "Node_getFeeSizePerInput ex_cfg (Suc 0) ?n = (Inr 440, ?n)" using ex_fee_input [of ?n] by simp
  have "Witness_finishBlock ex_wcfg 1 ex_filled = (Inr (), ex_built p)"
    by (simp add: Witness_finishBlock_def ex_filled_def ex_built_def bindS_def returnS_def getsS_def onBuilding_def zoomS_def f updR_def
      ex_finished p Witness_setPatch_def modifyS_def)
  then show ?thesis by blast
qed

lemma ex_build: "\<exists>p. Witness_buildBlock ex_wcfg (Some 0) 1 (building_new 1 ex_miner) = (Inr (), ex_built p)"
proof -
  obtain p where p: "Witness_finishBlock ex_wcfg 1 ex_filled = (Inr (), ex_built p)" using ex_finish by blast
  have r: "(building_new 1 ex_miner)\<lparr>bg_patchMerged := Some ex_q0, bg_block := ex_started_block,
     bg_node := ex_miner\<lparr>nd_processedBlock := Some ex_started_block\<rparr>\<rparr> = ex_ready" by (simp add: ex_ready_def)
  have t: "Witness_txToProcess ex_wcfg (Some 0) 1 ex_ready = (Inr [ex_pay], ex_ready)" by (rule ex_to_process) simp
  have "bg_node (building_new 1 ex_miner) = ex_miner" by (simp add: building_new_def)
  then have "Witness_buildBlock ex_wcfg (Some 0) 1 (building_new 1 ex_miner) = (Inr (), ex_built p)"
    using p ex_choose t ex_fill r by (simp add: Witness_buildBlock_def bindS_def modifyS_def del: Witness_addTxns.simps)
  then show ?thesis ..
qed

lemma ex_create: "\<exists>p. Witness_createBlock ex_wcfg (Some 0) 1 ex_miner = (Inr (ex_mined, Some p), ex_miner)"
proof -
  obtain p where "Witness_buildBlock ex_wcfg (Some 0) 1 (building_new 1 ex_miner) = (Inr (), ex_built p)" using ex_build by blast
  then show ?thesis by (simp add: Witness_createBlock_def ex_built_def ex_filled_def) (simp add: ex_miner_def ex_node_def)
qed

text \<open>A witness, the only member of its conciliums, builds the block and commits it.\<close>


definition ex_votes :: "(addr \<times> view_value) list \<Rightarrow> bft_views" where
  "ex_votes v = [(ex_addr CHR ''w'', v)]"

definition ex_consensus :: "nat \<Rightarrow> bft_state \<Rightarrow> string patch bft_event list \<Rightarrow> block option \<Rightarrow> string patch option \<Rightarrow>
    bft_views option \<Rightarrow> string patch bft" where
  "ex_consensus i st evs b p v = \<lparr>bf_concilium = RR \<lparr>cn_type = CONCILIUM_TYPE_RR, cn_conciliumId = i, cn_fees = None,
       cn_isEnabled = True, cn_nSeed = 0, cn_nSeqLength = 1, cn_nRoundBase = Some 0, cn_nLocalRound = Some 0,
       rr_addresses = [ex_addr CHR ''w''], rr_quorum = None\<rparr>,
     bf_walletAddress = ex_addr CHR ''w'', bf_arrAddresses = [ex_addr CHR ''w''], bf_state = st,
     bf_views = ex_votes [], bf_prevViews = v, bf_block = b, bf_patch = p, bf_lastBlockTime = 0,
     bf_timeout = bft_Timeouts st, bf_networkOffset = 0, bf_emitted = evs\<rparr>"

lemma ex_bftEnv: "Witness_bftEnv ex_wcfg = ex_bft_env"
  by (simp add: Witness_bftEnv_def ex_wcfg_def ex_bft_env_def ex_cfg_def ex_env_def)

lemma ex_new: "Bft_new ex_bft_env (ex_concilium i) (ex_addr CHR ''w'') = Inr (ex_consensus i ROUND_CHANGE [] None None None)"
  by (simp add: bft_run_defs ex_concilium_def ex_bft_env_def ex_consensus_def ex_votes_def)

lemma ex_tick: "Bft_stateChange ex_bft_env False None (ex_consensus 1 ROUND_CHANGE [] None None None) =
   (Inr (), ex_consensus 1 ROUND_CHANGE [EmitNextRound 1 0] None None None)"
  by (simp add: bft_run_defs ex_bft_env_def ex_consensus_def ex_votes_def Bft_nextRound_def)

definition ex_seen :: "view_value \<Rightarrow> bft_views option" where
  "ex_seen v = Some (ex_votes [(ex_addr CHR ''w'', v)])"

lemma ex_begin_round: "\<exists>v. bindS (Bft_processMessage ex_bft_env (MsgNextRound (ex_addr CHR ''w'') 0)) (\<lambda>_. returnS ())
     (ex_consensus 1 ROUND_CHANGE evs None None None) =
   (Inr (), ex_consensus 1 BLOCK (evs @ [EmitCreateBlock]) None None (ex_seen v))"
  by (simp add: bft_run_defs ex_bft_env_def ex_consensus_def ex_votes_def ex_seen_def)

lemma ex_propose: "\<exists>c. Bft_processValidBlock ex_bft_env ex_mined p (ex_consensus 1 BLOCK evs None None v) = (Inr (), c) \<and>
   c = (ex_consensus 1 VOTE_BLOCK (evs @ [EmitBlockVote 1 (ex_hash CHR ''b'')]) (Some ex_mined) p v)\<lparr>bf_timeout := bft_Timeouts BLOCK\<rparr>"
  by (simp add: Bft_processValidBlock_def Bft_blockHash_def ex_bft_env_def ex_mined_hash Bft_blockStateHandler_def Bft_setState_def
    Bft_emit_def bindS_def ex_consensus_def Base_getConciliumId_def)

definition ex_sealed :: block where
  "ex_sealed = ex_mined\<lparr>bl_signatures := [replicate 130 CHR ''w'']\<rparr>"

lemma ex_mined_blockHash: "Bft_blockHash ex_bft_env ex_mined = Inr (ex_hash CHR ''b'')"
  by (simp add: Bft_blockHash_def ex_bft_env_def ex_mined_hash)

lemma ex_vote_commits: "\<exists>c. bindS (Bft_processMessage ex_bft_env
      (MsgBlockVote (ex_addr CHR ''w'') (ex_hash CHR ''b'') (Some (replicate 130 CHR ''w'')))) (\<lambda>_. returnS ())
     ((ex_consensus 1 VOTE_BLOCK evs (Some ex_mined) p v)\<lparr>bf_timeout := n\<rparr>) = (Inr (), c) \<and>
   bf_emitted c = evs @ [EmitCommitBlock ex_sealed p]"
proof -
  have s: "Block_addWitnessSignatures [replicate 130 CHR ''w''] ex_mined = Inr ex_sealed"
    by (simp add: Block_addWitnessSignatures_def ex_sealed_def)
  have env: "cr_recoverPubKey (be_crypto ex_bft_env) h (replicate 130 CHR ''w'') = Inr ''w''"
    "cr_getAddress (be_crypto ex_bft_env) ''w'' = ex_addr CHR ''w''"  "be_dataHash ex_bft_env x = (case vv_blockHash x of Some h \<Rightarrow> h | None \<Rightarrow> [])" for h x
    by (simp_all add: ex_bft_env_def ex_crypto_def)
  show ?thesis
    by (simp add: Bft_processMessage_def Bft_checkAddresses_def Bft_addViewOfNodeWithAddr_def Bft_runConsensus_def
       Rr_getMembersCount_def Bft_stateChange_def Bft_resetState_def bindS_def returnS_def Bft_voteStateHandler_def Bft_commit_def
       Bft_getSignaturesForBlock_def Bft_gatherOne_def Bft_witnessData_def Bft_majority_def Bft_tallyOne_def Bft_best_def
       Bft_acceptVote_def Rr_getWitnessWeight_def Rr_getQuorum_def Bft_emit_def Bft_adjustTimer_def ex_consensus_def ex_votes_def
       ex_mined_blockHash s env jset_def jget_def Let_def Bft_emptyViews_def Bft_calcDataHash_def)
qed

definition ex_witness :: "(nat, string patch bft) jsmap \<Rightarrow> nat option \<Rightarrow> string witness_task list \<Rightarrow>
    (string pending_obj ex_graph, blockInfo ex_graph, string) witness" where
  "ex_witness cs lowest tasks = \<lparr>wt_node = ex_miner, wt_manager = \<lparr>pg_isSeed = False, pg_strictAddresses = False, pg_trustAnnounce = True,
       pg_isRoutable = (\<lambda>_. True), pg_isWhitelisted = (\<lambda>_. False), pg_mapAllPeers = [], pg_mapCandidatePeers = [],
       pg_mapBannedAddresses = [], pg_out = []\<rparr>,
     wt_consensuses = cs, wt_nLowestConciliumId = lowest, wt_conciliumSeed = 0, wt_nMinConnections = 0,
     wt_bReconnectInProgress = False, wt_tasks = tasks, wt_out = []\<rparr>"

lemma ex_witness_simps [simp]: "wt_node (ex_witness cs l ts) = ex_miner" "wt_consensuses (ex_witness cs l ts) = cs"
  "wt_tasks (ex_witness cs l ts) = ts" "wt_conciliumSeed (ex_witness cs l ts) = 0" "wt_nLowestConciliumId (ex_witness cs l ts) = l"
  "(ex_witness cs l ts)\<lparr>wt_consensuses := cs'\<rparr> = ex_witness cs' l ts" "(ex_witness cs l ts)\<lparr>wt_tasks := ts'\<rparr> = ex_witness cs l ts'"
  "(ex_witness cs l ts)\<lparr>wt_node := ex_miner\<rparr> = ex_witness cs l ts"
  "(ex_witness cs l ts)\<lparr>wt_conciliumSeed := 0\<rparr> = ex_witness cs l ts" "(ex_witness cs l ts)\<lparr>wt_nLowestConciliumId := l'\<rparr> = ex_witness cs l' ts"
  by (simp_all add: ex_witness_def)

lemma ex_silent: "Witness_broadcast ex_wcfg cid msg (ex_witness cs l ts) = (Inr (), ex_witness cs l ts)"
  by (simp add: Witness_broadcast_def PeerManager_broadcastToConnected_def Witness_manager_def PeerManager_getConnectedPeers_def
    PeerManager_broadcastIndexes_def ex_witness_def ex_miner_def ex_node_def eachS_def bindS_def getsS_def returnS_def Let_def jvalues_def)

lemma ex_boot: "Witness_bootstrap ex_wcfg (ex_witness [] None []) =
   (Inr (), ex_witness [(0, ex_consensus 0 ROUND_CHANGE [] None None None), (1, ex_consensus 1 ROUND_CHANGE [] None None None)] (Some 0) [])"
proof -
  have g: "Witness_getConciliums ex_wcfg (ex_witness [] None []) = (Inr [ex_concilium 0, ex_concilium 1], ex_witness [] None [])"
  proof -
    have "ex_addr CHR ''w'' \<in> set (Concilium_getAddresses (ex_concilium i))" for i
      by (simp add: ex_concilium_def Rr_new_def Base_new_def concilium_base.defs Rr_getAddresses_def)
    moreover have "ex_miner\<lparr>nd_storage := ex_storage\<rparr> = ex_miner" by (simp add: ex_miner_def ex_node_def)
    ultimately show ?thesis
    by (simp add: Witness_getConciliums_def Witness_onNode_def onStorage_def zoomS_def Storage_getConciliumsByAddress_def
      Storage_ensureArrConciliumDefinition_def ex_definitions bindS_def returnS_def)
  qed
  have seed: "Storage_getLastAppliedBlockHashes ex_storage = []" "Node_createPseudoRandomSeed [] = 0"
    by (simp_all add: Storage_getLastAppliedBlockHashes_def ex_storage_def Storage_new_def Node_createPseudoRandomSeed_def)
  have id: "Concilium_getConciliumId (ex_concilium i) = i" for i
    by (simp add: ex_concilium_def Rr_new_def Base_new_def concilium_base.defs Base_getConciliumId_def)
  have cs: "Bft_setRoundSeed 0 (ex_consensus i ROUND_CHANGE [] None None None) = ex_consensus i ROUND_CHANGE [] None None None" for i
    by (simp add: Bft_setRoundSeed_def ex_consensus_def Base_changeSeed_def)
  show ?thesis
    by (simp add: Witness_bootstrap_def bindS_def g seed modifyS_def Witness_createPseudoRandomSeed_def Let_def eachS_def
       Witness_createConsensusForConcilium_def ex_bftEnv ex_new liftS_def id cs returnS_def jset_def)
qed

abbreviation ex_first :: "string patch bft" where "ex_first \<equiv> ex_consensus 0 ROUND_CHANGE [] None None None"

lemma ex_cons_emitted [simp]: "bf_emitted (ex_consensus i st evs b p v) = evs"
  by (simp add: ex_consensus_def)

lemma ex_timer: "\<exists>v. Witness_timer ex_wcfg 1
     (ex_witness [(0, ex_first), (1, ex_consensus 1 ROUND_CHANGE [] None None None)] (Some 0) []) =
   (Inr (), ex_witness [(0, ex_first), (1, ex_consensus 1 BLOCK [EmitNextRound 1 0, EmitCreateBlock] None None (ex_seen v))]
      (Some 0) [CreateBlock 1])"
proof -
  obtain v where v: "bindS (Bft_processMessage ex_bft_env (MsgNextRound (ex_addr CHR ''w'') 0)) (\<lambda>_. returnS ())
       (ex_consensus 1 ROUND_CHANGE [EmitNextRound 1 0] None None None) =
     (Inr (), ex_consensus 1 BLOCK ([EmitNextRound 1 0] @ [EmitCreateBlock]) None None (ex_seen v))"
    using ex_begin_round [of "[EmitNextRound 1 0]"] by blast
  let ?w = "\<lambda>c ts. ex_witness [(0, ex_first), (1, c)] (Some 0) ts"
  let ?send = "Witness_broadcastConsensusInitiatedMessage ex_wcfg (Suc 0)"
  have idle: "\<not> Node_isInitialBlockLoading ex_miner"
    by (simp add: Node_isInitialBlockLoading_def Node_getConnectedPeers_def ex_miner_def ex_node_def)
  have two: "Witness_emitted ex_wcfg 1 ?send (bindS (Bft_processMessage ex_bft_env (MsgNextRound (ex_addr CHR ''w'') 0)) (\<lambda>_. returnS ()))
      (?w (ex_consensus 1 ROUND_CHANGE [EmitNextRound 1 0] None None None) []) =
    (Inr (), ?w (ex_consensus 1 BLOCK [EmitNextRound 1 0, EmitCreateBlock] None None (ex_seen v)) [CreateBlock 1])"
    by (subst Witness_emitted_one [where c = "ex_consensus 1 ROUND_CHANGE [EmitNextRound 1 0] None None None"
        and m = "bindS (Bft_processMessage ex_bft_env (MsgNextRound (ex_addr CHR ''w'') 0)) (\<lambda>_. returnS ())"
        and ev = EmitCreateBlock, OF _ v])
      (simp_all add: jget_def jset_def bindS_def Witness_setConsensusHandlers_def Witness_commitLocked_def idle Witness_addTask_def modifyS_def)
  have "Witness_timer ex_wcfg 1 (?w (ex_consensus 1 ROUND_CHANGE [] None None None) []) =
    bindS (Witness_setConsensusHandlers ex_wcfg 1 (Witness_broadcastConsensusInitiatedMessage ex_wcfg 2) (EmitNextRound 1 0))
     (\<lambda>_ w. (Inr (), w)) (?w (ex_consensus 1 ROUND_CHANGE [EmitNextRound 1 0] None None None) [])"
    unfolding Witness_timer_def Witness_consensus_def ex_bftEnv
    by (subst Witness_emitted_one [where c = "ex_consensus 1 ROUND_CHANGE [] None None None"
        and m = "Bft_stateChange ex_bft_env False None" and ev = "EmitNextRound 1 0", OF _ ex_tick]) (simp_all add: jget_def jset_def)
  also have "... = (Inr (), ?w (ex_consensus 1 BLOCK [EmitNextRound 1 0, EmitCreateBlock] None None (ex_seen v)) [CreateBlock 1])"
    using two by (simp add: Witness_setConsensusHandlers_def numeral_2_eq_2 bindS_def ex_silent jget_def ex_bftEnv)
  finally show ?thesis by blast
qed

lemma ex_proposes: "\<exists>p c. Witness_task ex_wcfg (CreateBlock 1)
     (ex_witness [(0, ex_first), (1, ex_consensus 1 BLOCK evs None None v)] (Some 0) []) =
   (Inr (), ex_witness [(0, ex_first), (1, c)] (Some 0) [CommitBlock 1 ex_sealed (Some p)])"
proof -
  obtain p where p: "Witness_createBlock ex_wcfg (Some 0) 1 ex_miner = (Inr (ex_mined, Some p), ex_miner)" using ex_create by blast
  let ?w = "\<lambda>c ts. ex_witness [(0, ex_first), (1, c)] (Some 0) ts"
  let ?c0 = "ex_consensus 1 BLOCK evs None None v"
  let ?c1 = "(ex_consensus 1 VOTE_BLOCK (evs @ [EmitBlockVote 1 (ex_hash CHR ''b'')]) (Some ex_mined) (Some p) v)
     \<lparr>bf_timeout := bft_Timeouts BLOCK\<rparr>"
  have one: "Bft_processValidBlock ex_bft_env ex_mined (Some p) ?c0 = (Inr (), ?c1)"
    using ex_propose by blast
  let ?vote = "MsgBlockVote (ex_addr CHR ''w'') (ex_hash CHR ''b'') (Some (replicate 130 CHR ''w''))"
  obtain c2 where c2: "bindS (Bft_processMessage ex_bft_env ?vote) (\<lambda>_. returnS ()) ?c1 = (Inr (), c2)"
    "bf_emitted c2 = (evs @ [EmitBlockVote 1 (ex_hash CHR ''b'')]) @ [EmitCommitBlock ex_sealed (Some p)]"
    using ex_vote_commits by blast
  have made: "Witness_onNode (Witness_createBlock ex_wcfg (Some 0) 1) (?w ?c0 []) = (Inr (ex_mined, Some p), ?w ?c0 [])"
    by (simp add: Witness_onNode_def p [unfolded One_nat_def])
  have full: "\<not> Block_isEmpty ex_mined" "bl_final ex_mined" by (simp_all add: ex_mined_def Block_isEmpty_def)
  have sig: "cr_sign ex_crypto h (wa_privateKey (wc_wallet ex_wcfg)) = replicate 130 CHR ''w''" for h
    by (simp add: ex_wcfg_def ex_crypto_def)
  have two: "Witness_emitted ex_wcfg 1 (Witness_broadcastConsensusInitiatedMessage ex_wcfg (Suc 0))
      (bindS (Bft_processMessage ex_bft_env ?vote) (\<lambda>_. returnS ())) (?w ?c1 []) =
    (Inr (), ?w c2 [CommitBlock 1 ex_sealed (Some p)])"
    by (subst Witness_emitted_one [where c = ?c1
        and m = "bindS (Bft_processMessage ex_bft_env ?vote) (\<lambda>_. returnS ())"
        and ev = "EmitCommitBlock ex_sealed (Some p)", OF _ c2(1)])
      (simp_all add: c2(2) jget_def jset_def bindS_def Witness_setConsensusHandlers_def Witness_addTask_def modifyS_def)
  have "Witness_consensus ex_wcfg 1 (Bft_processValidBlock ex_bft_env ex_mined (Some p)) (?w ?c0 []) =
    bindS (Witness_setConsensusHandlers ex_wcfg 1 (Witness_broadcastConsensusInitiatedMessage ex_wcfg 2) (EmitBlockVote 1 (ex_hash CHR ''b'')))
     (\<lambda>_ w. (Inr (), w)) (?w ?c1 [])"
    unfolding Witness_consensus_def
    by (subst Witness_emitted_one [where c = ?c0
        and m = "Bft_processValidBlock ex_bft_env ex_mined (Some p)" and ev = "EmitBlockVote 1 (ex_hash CHR ''b'')", OF _ one]) (simp_all add: jget_def jset_def)
  also have "... = (Inr (), ?w c2 [CommitBlock 1 ex_sealed (Some p)])"
    using two by (simp add: Witness_setConsensusHandlers_def numeral_2_eq_2 bindS_def ex_silent jget_def ex_bftEnv sig)
  finally have run: "Witness_consensus ex_wcfg 1 (Bft_processValidBlock ex_bft_env ex_mined (Some p)) (?w ?c0 []) =
    (Inr (), ?w c2 [CommitBlock 1 ex_sealed (Some p)])" .
  have "Witness_task ex_wcfg (CreateBlock 1) (?w ?c0 []) = (Inr (), ?w c2 [CommitBlock 1 ex_sealed (Some p)])"
    using made run full
    by (simp add: Witness_createBlockHandler_def catchS_def bindS_def getsS_def Witness_suppressed_def Witness_broadcastBlock_def
       liftS_def assertR_def ex_silent ex_bftEnv)
  then show ?thesis by blast
qed

lemma ex_committed: "\<exists>cs p. witness_reach ex_wcfg (ex_witness cs (Some 0) [CommitBlock 1 ex_sealed (Some p)])"
proof -
  have "witness_reach ex_wcfg (ex_witness [] None [])" by (rule wr_new) simp_all
  from wr_bootstrap [OF this Witness_sameSetup_refl] have
    "witness_reach ex_wcfg (ex_witness [(0, ex_first), (1, ex_consensus 1 ROUND_CHANGE [] None None None)] (Some 0) [])"
    by (simp add: ex_boot)
  from wr_timer [OF this Witness_sameSetup_refl, of 1] ex_timer obtain v where
    "witness_reach ex_wcfg (ex_witness [(0, ex_first), (1, ex_consensus 1 BLOCK [EmitNextRound 1 0, EmitCreateBlock] None None (ex_seen v))]
      (Some 0) [CreateBlock 1])" by (metis snd_conv)
  note last = wr_task [OF this Witness_sameSetup_refl, of "CreateBlock 1"]
  obtain p c where run: "Witness_task ex_wcfg (CreateBlock 1)
       (ex_witness [(0, ex_first), (1, ex_consensus 1 BLOCK [EmitNextRound 1 0, EmitCreateBlock] None None (ex_seen v))] (Some 0) []) =
     (Inr (), ex_witness [(0, ex_first), (1, c)] (Some 0) [CommitBlock 1 ex_sealed (Some p)])"
    using ex_proposes [of "[EmitNextRound 1 0, EmitCreateBlock]" "ex_seen v"] by blast
  have "witness_reach ex_wcfg (ex_witness [(0, ex_first), (1, c)] (Some 0) [CommitBlock 1 ex_sealed (Some p)])"
    using last run by (simp del: Witness_task.simps)
  then show ?thesis by blast
qed

section \<open>The consensuses of a witness\<close>



text \<open>C15: Delivering the own messages ends: however deep the calls are allowed to nest, a message leads to the
  same state as with a depth of two, in every state of a witness.\<close>

theorem Witness_delivery_ends:
  assumes "witness_reach K w" and "2 \<le> fuel"
  shows "Witness_broadcastConsensusInitiatedMessage K fuel cid msg w =
    Witness_broadcastConsensusInitiatedMessage K 2 cid msg w"
proof -
  obtain f where "fuel = Suc (Suc f)" using assms(2) by (metis add_2_eq_Suc le_Suc_ex)
  then show ?thesis using Witness_message_depth [OF witness_reach_ok [OF assms(1)], of f cid msg 0] by (simp add: numeral_2_eq_2)
qed

theorem Witness_delivery_ends_witness:
  "\<exists>w. wt_consensuses w \<noteq> [] \<and>
     Witness_broadcastConsensusInitiatedMessage ex_wcfg 9 1 (MsgNextRound (ex_addr CHR ''w'') 0) w =
     Witness_broadcastConsensusInitiatedMessage ex_wcfg 2 1 (MsgNextRound (ex_addr CHR ''w'') 0) w"
proof -
  have "witness_reach ex_wcfg (ex_witness [] None [])" by (rule wr_new) simp_all
  from wr_bootstrap [OF this Witness_sameSetup_refl] have
    "witness_reach ex_wcfg (ex_witness [(0, ex_first), (1, ex_consensus 1 ROUND_CHANGE [] None None None)] (Some 0) [])"
    by (simp add: ex_boot)
  from Witness_delivery_ends [OF this, of 9] show ?thesis
    by (intro exI [of _ "ex_witness [(0, ex_first), (1, ex_consensus 1 ROUND_CHANGE [] None None None)] (Some 0) []"] conjI) simp_all
qed

section \<open>Proposals\<close>

text \<open>C3: A proposal is what it says. The block a witness has built of plain transactions holds, under its
  coinbase, the transactions it tried and could merge (\<open>Witness_tried\<close>: in the order of the pool, after
  the joining one, until the time is over), and the fees it counted are theirs and those of the
  transactions that ran but did not merge. Every witness in the same state chooses the same parents, and
  executing the transactions gives it the fees of the kept ones. It accepts the block if and only if no
  hash of its transactions is stored already, the parents are executed, and the fees counted for the
  left out transactions are nothing; then the patch it gets is the very patch the author kept, so that
  the author may commit without executing.\<close>

theorem Witness_proposal_accepted:
  assumes "Witness_buildBlock K low cid (building_new cid n) = (Inr (), s)"
    and "Witness_plainState K cid n q"
    and "Pending_getBestParents (nc_pdag (wc_node K)) (nc_serializers (wc_node K)) (Some cid) (nd_pendingBlocks n) =
      Inr (ps, Some q)"
    and "Block_hash (nc_crypto (wc_node K)) (nc_block (wc_node K)) (bg_block s) = Inr (h, b')" and "h \<noteq> GENESIS_BLOCK"
    and "fst (Node_isBlockExecuted (wc_node K) h n) = Inr False"
    and "Node_sameState n m"
  shows "\<exists>s1 s2 ts q0 q1 tried. PatchDB_setConciliumId (Some cid) q = Inr q0 \<and>
    Witness_chooseParents K cid (building_new cid n) = (Inr (), s1) \<and>
    Witness_txToProcess K low cid (s1\<lparr>bg_node := (bg_node s1)\<lparr>nd_processedBlock := Some (bg_block s1)\<rparr>\<rparr>) = (Inr ts, s2) \<and>
    tried = Witness_tried K (nd_storage n) 0 ts q0 \<and>
    tl (bl_txns (bg_block s)) = map fst (Witness_kept tried) \<and>
    bg_totalFee s = Witness_fees (Witness_kept tried) + Witness_fees (Witness_leftOut tried) \<and>
    foldS (Node_execTx (wc_node K) b' False) (tl (bl_txns (bg_block s))) (0, q0) m =
      (Inr (Witness_fees (Witness_kept tried), q1), m) \<and>
    (isOk (fst (Witness_checkBlock K (bg_block s) m)) \<longleftrightarrow>
       Storage_checkTxCollision (Block_getTxHashes (nc_crypto (wc_node K)) (bg_block s)) (nd_storage m) = Inr () \<and>
       fst (Node_canExecuteBlock (wc_node K) (IsBlock (bg_block s)) m) = Inr True \<and>
       Witness_fees (Witness_leftOut tried) = 0) \<and>
    (isOk (fst (Witness_checkBlock K (bg_block s) m)) \<longrightarrow>
       fst (Witness_checkBlock K (bg_block s) m) = Inr (bg_patchMerged s))"
proof -
  let ?N = "wc_node K" and ?b = "bg_block s"
  let ?m = "m\<lparr>nd_processedBlock := Some ?b\<rparr>"
  note R = Witness_buildBlock_run [OF assms(1-6)]
  have m: "Node_sameState n ?m" "nd_pendingBlocks m = nd_pendingBlocks n" using assms(7) by (simp_all add: Node_sameState_def)
  have "bl_hashCache ?b = None" using assms(1) by (rule Witness_buildBlock_cache)
  then have c: "Witness_checkBlock K ?b m =
    (case Storage_checkTxCollision (Block_getTxHashes (nc_crypto ?N) ?b) (nd_storage m) of
       Inl e \<Rightarrow> (Inl e, m)
     | Inr () \<Rightarrow> bindS (Node_canExecuteBlock ?N (IsBlock ?b)) (\<lambda>can.
         if \<not> can then throwS (Error ''Block couldn't be executed right now!'')
         else bindS (modifyS (\<lambda>s. s\<lparr>nd_processedBlock := Some ?b\<rparr>)) (\<lambda>_. Node_execBlock ?N ?b)) m)"
    using R assms(3) m(2) by (intro Witness_checkBlock_run [OF assms(4,5)]) simp_all
  from R obtain s1 s2 ts fees q0 q1 where F: "PatchDB_setConciliumId (Some cid) q = Inr q0"
    "Witness_chooseParents K cid (building_new cid n) = (Inr (), s1)"
    "Witness_txToProcess K low cid (s1\<lparr>bg_node := (bg_node s1)\<lparr>nd_processedBlock := Some (bg_block s1)\<rparr>\<rparr>) = (Inr ts, s2)"
    "tl (bl_txns ?b) = map fst (Witness_kept (Witness_tried K (nd_storage n) 0 ts q0))"
    "fees = Witness_fees (Witness_kept (Witness_tried K (nd_storage n) 0 ts q0))"
    "bg_totalFee s = fees + Witness_fees (Witness_leftOut (Witness_tried K (nd_storage n) 0 ts q0))"
    and run: "\<And>m. Node_sameState n m \<Longrightarrow>
       foldS (Node_execTx ?N b' False) (tl (bl_txns ?b)) (0, q0) m = (Inr (fees, q1), m) \<and>
       (if fees = bg_totalFee s then Node_execBlock ?N ?b m = (Inr (bg_patchMerged s), m)
        else \<exists>e. Node_execBlock ?N ?b m = (Inl e, m))" by blast
  let ?left = "Witness_fees (Witness_leftOut (Witness_tried K (nd_storage n) 0 ts q0))"
  obtain can where can: "Node_canExecuteBlock ?N (IsBlock ?b) m = (can, m)"
    using Node_canExecuteBlock_keeps [of ?N ?b m] by (metis prod.collapse)
  have "(isOk (fst (Witness_checkBlock K ?b m)) \<longleftrightarrow>
       Storage_checkTxCollision (Block_getTxHashes (nc_crypto ?N) ?b) (nd_storage m) = Inr () \<and>
       can = Inr True \<and> ?left = 0) \<and>
    (isOk (fst (Witness_checkBlock K ?b m)) \<longrightarrow> fst (Witness_checkBlock K ?b m) = Inr (bg_patchMerged s))"
    using run [OF m(1)] F(6) unfolding c
    by (auto simp: bindS_def can modifyS_def throwS_def split: sum.splits unit.splits if_splits)
  then show ?thesis
    using F run [OF assms(7)] can
    by (intro exI [of _ s1] exI [of _ s2] exI [of _ ts] exI [of _ q0] exI [of _ q1]
        exI [of _ "Witness_tried K (nd_storage n) 0 ts q0"]) simp
qed

lemma ex_plainState: "Witness_plainState ex_wcfg 1 ex_miner PatchDB_empty"
proof -
  have "Pending_wf ex_dag (pm_dag (Pending_new ex_dag x :: string pending_obj ex_graph pending))" for x
    by (simp add: Pending_wf_def Pending_new_def ex_dag_def)
  moreover have "jget (sg_contracts ex_storage) (ex_addr CHR ''w'') = None"
    by (simp add: ex_storage_def jget_def)
  moreover have "PatchDB_getContract a PatchDB_empty = None" for a
    by (simp add: PatchDB_getContract_def PatchDB_empty_def jget_def)
  ultimately show ?thesis
    using ex_final_txns ex_pay_plain(1) ex_pay_concilium ex_storage_wf
    by (simp add: Witness_plainState_def ex_definitions ex_addrCreation Pending_lastResort_def)
      (simp add: Pending_new_def ex_dag_def)
qed

theorem Witness_proposal_accepted_witness:
  "\<exists>p. fst (Witness_checkBlock ex_wcfg ex_mined ex_miner) = Inr (Some p)"
proof -
  obtain p where built: "Witness_buildBlock ex_wcfg (Some 0) 1 (building_new 1 ex_miner) = (Inr (), ex_built p)"
    using ex_build by blast
  have b: "bg_block (ex_built p) = ex_mined" "bg_totalFee (ex_built p) = 40000" "bg_patchMerged (ex_built p) = Some p"
    by (simp_all add: ex_built_def ex_filled_def)
  let ?b = "ex_mined\<lparr>bl_hashCache := Some (ex_hash CHR ''b'')\<rparr>"
  have best: "Pending_getBestParents (nc_pdag (wc_node ex_wcfg)) (nc_serializers (wc_node ex_wcfg)) (Some 1) (nd_pendingBlocks ex_miner) =
      Inr ([ex_hash CHR ''p''], Some PatchDB_empty)" using ex_best by simp
  have hash: "Block_hash (nc_crypto (wc_node ex_wcfg)) (nc_block (wc_node ex_wcfg)) (bg_block (ex_built p)) = Inr (ex_hash CHR ''b'', ?b)"
    using ex_mined_hash b by simp
  have fresh: "fst (Node_isBlockExecuted (wc_node ex_wcfg) (ex_hash CHR ''b'') ex_miner) = Inr False"
    by (simp add: Node_isBlockExecuted_def Node_blockInfo_def MainDag_getBlockInfo_def ex_dag_def ex_miner_def ex_node_def
      Pending_hasBlock_def Pending_new_def bindS_def)
  have ps: "Block_parentHashes ex_mined = [ex_hash CHR ''p'']" "bl_txns ex_mined = [ex_reward, ex_pay]" "Block_getConciliumId ex_mined = 1"
    by (simp_all add: ex_mined_def ex_started_block_def Block_parentHashes_def Block_getConciliumId_def Block_new_def)
  have info: "Node_blockInfo ex_cfg (ex_hash CHR ''p'') ex_miner =
      (Inr (Some (BlockInfo_markAsFinal (BlockInfo_new (ex_header 6 [])))), ex_miner)"
    by (simp add: Node_blockInfo_def MainDag_getBlockInfo_def ex_dag_def ex_miner_def ex_node_def)
  have flags: "BlockInfo_isFinal (BlockInfo_markAsFinal x)" "\<not> BlockInfo_isBad (BlockInfo_markAsFinal x)" for x
    by (simp_all add: BlockInfo_isBad_def BlockInfo_isFinal_def BlockInfo_markAsFinal_def FINAL_BLOCK_def BAD_BLOCK_def)
  have "Node_hashOf (wc_node ex_wcfg) (IsBlock ex_mined) ex_miner = (Inr (ex_hash CHR ''b'', IsBlock ?b), ex_miner)"
    by (simp add: Node_hashOf_def Node_hash_def ex_mined_hash bindS_def liftS_def returnS_def)
  moreover have "Block_parentHashes ?b = [ex_hash CHR ''p'']" using Block_hash_same(2) [OF ex_mined_hash] ps(1) by simp
  ultimately have can: "Node_canExecuteBlock (wc_node ex_wcfg) (IsBlock (bg_block (ex_built p))) ex_miner = (Inr True, ex_miner)"
    by (simp add: b Node_canExecuteBlock_def bindS_def returnS_def Node_isBlockExecuted_def info flags)
  have free: "Storage_checkTxCollision (Block_getTxHashes (nc_crypto (wc_node ex_wcfg)) (bg_block (ex_built p))) (nd_storage ex_miner) = Inr ()"
    by (simp add: b Storage_checkTxCollision_def Block_getTxHashes_def ps ex_tx_hashes Storage_getUtxo_def ex_storage_def jget_def Storage_new_def)
  have same: "Node_sameState ex_miner ex_miner" by (simp add: Node_sameState_def)
  from Witness_proposal_accepted [OF built ex_plainState best hash ex_not_genesis fresh same]
  obtain tried q0 q1 where F: "PatchDB_setConciliumId (Some 1) PatchDB_empty = Inr q0"
    "foldS (Node_execTx ex_cfg ?b False) [ex_pay] (0, q0) ex_miner = (Inr (Witness_fees (Witness_kept tried), q1), ex_miner)"
    "40000 = Witness_fees (Witness_kept tried) + Witness_fees (Witness_leftOut tried)"
    "Witness_fees (Witness_leftOut tried) = 0 \<Longrightarrow> fst (Witness_checkBlock ex_wcfg ex_mined ex_miner) = Inr (Some p)"
    using can free unfolding b ps(2) list.sel(3) ex_wcfg_simps(1) by auto
  have q0: "q0 = ex_q0" using F(1) ex_q0_set by simp
  have "Node_runTx ex_cfg (Some ex_q0) False ex_pay ex_miner = (Inr (40000, ex_paid), ex_miner)"
    by (subst Node_plain_runTx) (simp_all add: ex_pay_plain ex_definitions ex_pay_in_block)
  then have "Witness_fees (Witness_kept tried) = 40000"
    using F(2) ps ex_pay_concilium by (simp add: q0 Node_execTx_def bindS_def liftS_def returnS_def assertR_def ex_paid_merged Block_getConciliumId_def)
  with F(3,4) show ?thesis by simp
qed

section \<open>Joining the outputs\<close>


definition ex_owned_utxos :: "utxo list" where
  "ex_owned_utxos =
     [\<lparr>utxo_txHash = ex_hash CHR ''1'', utxo_arrIndexes = [0], utxo_arrOutputs = [Coins_new 1000 (ex_addr CHR ''w'')]\<rparr>,
      \<lparr>utxo_txHash = ex_hash CHR ''2'', utxo_arrIndexes = [0, 1],
       utxo_arrOutputs = [Coins_new 2000 (ex_addr CHR ''w''), Coins_new 3000 (ex_addr CHR ''w'')]\<rparr>]"


end
