(* ===== verification/Spec2Isabelle.thy ===== *)
theory Spec2Isabelle
  imports Cil_Sync_Props Cil_Wallet_Props Cil_Producer_Props
begin

text \<open>
  Cil-core is the node of a blockchain whose blocks form a directed acyclic graph. Witnesses are grouped
  in conciliums; each concilium agrees on its own blocks by a Byzantine fault tolerant vote, a block may
  have parents of several conciliums, and it becomes final when a majority of the conciliums stands on
  it. Coins are unspent outputs; contracts are JavaScript run in a sandbox and paid by the coin.

  \<^bold>\<open>Conventions.\<close> A method \<open>m\<close> of a class \<open>C\<close> (\<open>src/.../c.js\<close>) is the definition \<open>C_m\<close>; an object is a
  record whose fields have a prefix of two letters; a \<open>Map\<close> or a \<open>Set\<close> is the list of its entries in
  the order of insertion (\<open>jget\<close>, \<open>jset\<close>, \<open>sadd\<close>). Hashes, addresses and buffers are strings. A
  method that throws returns a sum (\<open>res\<close>, combined by \<open>bindR\<close>, \<open>foldR\<close>, \<open>mapM\<close>); one that also
  changes an object is a state transformer (\<open>act\<close>, combined by \<open>bindS\<close>, \<open>catchS\<close>, \<open>finallyS\<close>), which
  keeps the changes made before the exception. Objects have value semantics: where the code changes
  an object that it shares, the model returns it. Coins are integers (the code checks them against
  the safe integers where they enter). \<open>async\<close> methods are the sequence of their steps; a mutex makes
  the section it guards one step.

  \<^bold>\<open>Parameters.\<close> Hashing, signatures and addresses (\<open>crypto\<close>), the Merkle tree and the hash of a header
  (\<open>block_crypto\<close>), the contract serializers, protobuf, the packages \<open>vm2\<close> and \<open>dagjs\<close>, the transport
  and the clock are arguments. What the code relies on is a named predicate where a theorem needs it:
  \<open>dag_ok\<close> for \<open>dagjs\<close>, \<open>Node_sandboxed\<close> for \<open>vm2\<close>; both are shown to hold of concrete functions.

  \<^bold>\<open>Data.\<close> \<open>Cil_Prelude\<close> has the vocabulary. \<open>Cil_Utils\<close> models \<open>utils.js\<close> and \<open>types.js\<close>, \<open>Cil_Utxo\<close>
  \<open>structures/coins.js\<close> and \<open>utxo.js\<close>, \<open>Cil_Receipt\<close>, \<open>Cil_Contract\<close>, \<open>Cil_Transaction\<close>, \<open>Cil_Block\<close> the
  files of those names, \<open>Cil_Messages\<close> inventories, arrays and the assembly of messages. \<open>Cil_Ledger_Props\<close>
  has their theorems: outputs are spent once, a finished block pays its fees, what verification accepts.

  \<^bold>\<open>State.\<close> \<open>Cil_Patch\<close> and \<open>Cil_Patch_Laws\<close> model \<open>storage/patch.js\<close>, the difference a block makes; patches
  refine partial maps, and merging is their join. \<open>Cil_Storage\<close> models \<open>storage/persistentStorage.js\<close>,
  \<open>Cil_Pending\<close> \<open>node/pendingBlocksManager.js\<close> and \<open>node/mainDag.js\<close>, \<open>Cil_Mempool\<close> \<open>node/mempool.js\<close> and
  \<open>node/requestsCache.js\<close>. \<open>Cil_Chain_Props\<close> has their theorems: finality is sound and complete, the
  chosen parents fit together, applying a patch is exact.

  \<^bold>\<open>Execution.\<close> \<open>Cil_App\<close> (\<open>node/app.js\<close>) and \<open>Cil_Exec\<close> (\<open>node/node.js\<close>) execute a transaction; the callbacks
  a contract is given call each other up to a depth, the limit of nested calls. \<open>Cil_Exec_Props\<close> accounts
  for every coin. \<open>Cil_Node\<close> is the node around it: executing, checking, storing and accepting blocks,
  the queue of blocks to execute, asking peers for what is missing, the messages, start-up. Its state is
  the record \<open>node\<close>, what does not change the record \<open>node_cfg\<close>. \<open>Cil_Node_Laws\<close>, \<open>Cil_Dag_Laws\<close>,
  \<open>Cil_Node_Props\<close>, \<open>Cil_Sync_Props\<close>: a block mints nothing, the graph is rebuilt without gaps, a peer
  is offered what it misses, what the signatures of a block must be.

  \<^bold>\<open>Consensus.\<close> \<open>Cil_Concilium\<close> models \<open>conciliums\<close>, \<open>Cil_Bft\<close> and \<open>Cil_Bft_Laws\<close> \<open>node/bftConsensus.js\<close> as a
  state machine with reachable states; the interface of the two, the locale \<open>voting\<close> (weights, members,
  quorum), is interpreted on both kinds of concilium. \<open>Cil_Witness_Props\<close>: a commit carries a
  quorum of signatures, quorums intersect, the pool stays bounded.

  \<^bold>\<open>Wallet.\<close> \<open>Cil_Wallet\<close> is the rest of \<open>storage/persistentStorage.js\<close>: the records of watched addresses,
  the accounts, the index of transactions; \<open>Cil_Wallet_Laws\<close> has the invariant \<open>Wallet_ok\<close> and the reachable
  stores. \<open>Cil_Account\<close> models \<open>node/wallet.js\<close> and \<open>node/storedWallets.js\<close>. \<open>Cil_Wallet_Props\<close>: the list of
  unspent outputs is exact, a payment spends the account's outputs and pays the fees it computes.

  \<^bold>\<open>Witness.\<close> \<open>Cil_Witness\<close> models \<open>node/witness.js\<close>, the node with a consensus for each of its conciliums: its
  state is the record \<open>witness\<close> around a \<open>node\<close>, handlers that begin with an \<open>await\<close> are pending tasks.
  \<open>Cil_Witness_Laws\<close> has the states it can reach and what every operation keeps, \<open>Cil_Delivery\<close> the depth to
  which its messages to itself nest, \<open>Cil_Producer_Laws\<close> what building and checking a block compute.
  \<open>Cil_Producer_Props\<close>: what waits to be committed is certified, a proposal is accepted with the patch its
  author kept, what the joining transaction pays.

  \<^bold>\<open>Peers.\<close> \<open>Cil_Peer\<close> models \<open>network/peer.js\<close> and \<open>network/peerManager.js\<close>.

  \<^bold>\<open>Bounds and fuel.\<close> \<open>Node_buildMainDag\<close> has as many turns as stored blocks and one, proved enough;
  \<open>Node_getBlocksFromLastKnown\<close> needs more turns than the highest block, proved enough; the recursion over pending
  parents and the nesting of contract calls have a depth whose exhaustion is the overflow of the
  stack; the messages of a witness to itself are delivered with a depth of two, proved enough;
  \<open>Node_blockProcessorLoop\<close> counts the turns of a loop the code leaves to its timer.

  \<^bold>\<open>Not modelled.\<close> Sockets, DNS, timers, files, terminal input, the wrappers of generated protobuf
  classes and of cryptographic packages, the JSON-RPC front end, and the wiring of classes at start-up: they
  hold no logic of their own or only call packages. Of the node and the witness: the search for peers, the
  correction of the network time, shutdown. Amounts beyond the safe integers
  and rounding of doubles in proof-of-stake shares are outside the model: shares are exact rationals.
\<close>

end
